(* ===== verification/Kernel_Prelude.thy ===== *)
theory Kernel_Prelude
  imports Main "HOL-Library.Word"
begin

unbundle bit_operations_syntax

text \<open>
  The vocabulary every component shares: the C integer types and their conversions, the
  bit-field macros the drivers build register values with, errno values, and the generic
  lemmas about them.

  Unsigned registers and fields are words. A C \<open>int\<close> is a mathematical integer whose
  arithmetic is followed by \<open>wrap32\<close> wherever the result can leave the range (the kernel is
  built with wrapping signed arithmetic). A pointer result that may be an \<open>ERR_PTR\<close> is a
  sum, \<open>Inl\<close> carrying the errno; an \<open>int\<close> result is 0 or a negative errno as in C.

  Lemma collections: \<open>regfield\<close> reduces a statement about register fields to one about single
  bits, \<open>c_int\<close> removes integer conversions that cannot wrap.
\<close>

section \<open>Integer types\<close>

type_synonym u8 = "8 word"
type_synonym u16 = "16 word"
type_synonym u32 = "32 word"
type_synonym u64 = "64 word"

named_theorems regfield \<open>register fields as single bits\<close>
named_theorems c_int \<open>conversions of C integers within range\<close>

definition wrap32 :: "int \<Rightarrow> int" where
  "wrap32 x = signed_take_bit 31 x"

definition to_u32 :: "int \<Rightarrow> int" where
  "to_u32 x = x mod 2 ^ 32"

definition is_s32 :: "int \<Rightarrow> bool" where
  "is_s32 x \<longleftrightarrow> - (2 ^ 31) \<le> x \<and> x < 2 ^ 31"

text \<open>C division truncates toward zero.\<close>

definition c_div :: "int \<Rightarrow> int \<Rightarrow> int" where
  "c_div a b = (if 0 \<le> a then (if 0 \<le> b then a div b else - (a div (- b)))
                else (if 0 \<le> b then - ((- a) div b) else (- a) div (- b)))"

section \<open>errno\<close>

definition ENOMEM :: int where "ENOMEM = 12"
definition ENODEV :: int where "ENODEV = 19"
definition EINVAL :: int where "EINVAL = 22"
definition ERANGE :: int where "ERANGE = 34"
definition ENOSYS :: int where "ENOSYS = 38"
definition ETIMEDOUT :: int where "ETIMEDOUT = 110"
definition EPROBE_DEFER :: int where "EPROBE_DEFER = 517"

lemmas errno_defs = ENOMEM_def ENODEV_def EINVAL_def ERANGE_def ENOSYS_def ETIMEDOUT_def
  EPROBE_DEFER_def

section \<open>Bit-field macros\<close>

definition BIT :: "nat \<Rightarrow> u32" where
  "BIT n = push_bit n 1"

definition GENMASK :: "nat \<Rightarrow> nat \<Rightarrow> u32" where
  "GENMASK h l = push_bit l (mask (Suc h - l))"

text \<open>\<open>__bf_shf\<close>: the index of the lowest bit set in the mask.\<close>

definition bf_shf :: "u32 \<Rightarrow> nat" where
  "bf_shf m = length (takeWhile (\<lambda>n. \<not> bit m n) [0..<32])"

definition FIELD_PREP :: "u32 \<Rightarrow> u32 \<Rightarrow> u32" where
  "FIELD_PREP m v = push_bit (bf_shf m) v AND m"

definition FIELD_GET :: "u32 \<Rightarrow> u32 \<Rightarrow> u32" where
  "FIELD_GET m r = drop_bit (bf_shf m) (r AND m)"

definition lower_32_bits :: "u64 \<Rightarrow> u32" where
  "lower_32_bits a = ucast a"

text \<open>\<open>ALIGN(x, a)\<close> as the kernel computes it, for any \<open>a\<close>.\<close>

definition ALIGN :: "u32 \<Rightarrow> u32 \<Rightarrow> u32" where
  "ALIGN x a = (x + (a - 1)) AND NOT (a - 1)"

section \<open>Lemmas on C integers\<close>

lemma wrap32_id [c_int]: "is_s32 x \<Longrightarrow> wrap32 x = x"
  unfolding wrap32_def is_s32_def by (rule signed_take_bit_int_eq_self) simp_all

lemma wrap32_range: "is_s32 (wrap32 x)"
  using signed_take_bit_int_greater_eq_minus_exp [of 31 x] signed_take_bit_int_less_exp [of 31 x]
  by (simp add: wrap32_def is_s32_def)

lemma wrap32_idem [simp]: "wrap32 (wrap32 x) = wrap32 x"
  by (simp add: wrap32_id wrap32_range)

lemma wrap32_cong_mod: "x mod 2 ^ 32 = y mod 2 ^ 32 \<Longrightarrow> wrap32 x = wrap32 y"
  unfolding wrap32_def
  using signed_take_bit_eq_iff_take_bit_eq [of 31 x y] by (simp add: take_bit_eq_mod)

lemma wrap32_mod: "wrap32 x mod 2 ^ 32 = x mod 2 ^ 32"
proof -
  have "take_bit (Suc 31) (wrap32 x) = take_bit (Suc 31) x"
    unfolding wrap32_def by (rule take_bit_signed_take_bit) simp
  then show ?thesis by (simp add: take_bit_eq_mod)
qed

lemma wrap32_diff_wrap: "wrap32 (a - wrap32 b) = wrap32 (a - b)"
proof (rule wrap32_cong_mod)
  have "(a - wrap32 b) mod 2 ^ 32 = (a - wrap32 b mod 2 ^ 32) mod 2 ^ 32" by (simp only: mod_simps)
  also have "\<dots> = (a - b) mod 2 ^ 32" by (simp only: wrap32_mod mod_simps)
  finally show "(a - wrap32 b) mod 2 ^ 32 = (a - b) mod 2 ^ 32" .
qed

lemma wrap32_wrap_diff: "wrap32 (wrap32 a - b) = wrap32 (a - b)"
proof (rule wrap32_cong_mod)
  have "(wrap32 a - b) mod 2 ^ 32 = (wrap32 a mod 2 ^ 32 - b) mod 2 ^ 32" by (simp only: mod_simps)
  also have "\<dots> = (a - b) mod 2 ^ 32" by (simp only: wrap32_mod mod_simps)
  finally show "(wrap32 a - b) mod 2 ^ 32 = (a - b) mod 2 ^ 32" .
qed

lemma wrap32_high: "2 ^ 31 \<le> x \<Longrightarrow> x < 2 ^ 32 \<Longrightarrow> wrap32 x = x - 2 ^ 32"
  using wrap32_cong_mod [of x "x - 2 ^ 32"] wrap32_id [of "x - 2 ^ 32"] by (simp add: is_s32_def)

lemma to_u32_id [c_int]: "0 \<le> x \<Longrightarrow> x < 2 ^ 32 \<Longrightarrow> to_u32 x = x"
  by (simp add: to_u32_def)

lemma c_div_nonneg [c_int]: "0 \<le> a \<Longrightarrow> 0 \<le> b \<Longrightarrow> c_div a b = a div b"
  by (simp add: c_div_def)

text \<open>Rounded quotients, bounded by the exact ones.\<close>

lemma floor_div_le: "0 < d \<Longrightarrow> t \<le> s * d \<Longrightarrow> t div d \<le> s" for d t s :: int
  using zdiv_mono1 [of t "s * d" d] by simp

lemma ceil_div_le: "0 < d \<Longrightarrow> t \<le> s * d \<Longrightarrow> (t + d - 1) div d \<le> s" for d t s :: int
proof -
  assume d: "0 < d" and t: "t \<le> s * d"
  have "(t + d - 1) div d \<le> (s * d + (d - 1)) div d" using d t by (intro zdiv_mono1) auto
  also have "\<dots> = s" using d by (simp add: div_mult_self3 div_pos_pos_trivial)
  finally show ?thesis .
qed

lemma ceil_div_ge: "0 < d \<Longrightarrow> s * d \<le> t \<Longrightarrow> s \<le> (t + d - 1) div d" for d t s :: int
proof -
  assume d: "0 < d" and t: "s * d \<le> t"
  have "s = s * d div d" using d by simp
  also have "\<dots> \<le> (t + d - 1) div d" using d t by (intro zdiv_mono1) auto
  finally show ?thesis .
qed

lemma floor_div_ge: "0 < d \<Longrightarrow> s * d \<le> t \<Longrightarrow> s \<le> t div d" for d t s :: int
  using zdiv_mono1 [of "s * d" t d] by simp

section \<open>Lemmas on fields\<close>

lemma bit_BIT [regfield]: "bit (BIT k) n \<longleftrightarrow> n = k \<and> n < 32"
  by (auto simp: BIT_def bit_exp_iff)

lemma bit_GENMASK [regfield]: "bit (GENMASK h l) n \<longleftrightarrow> l \<le> n \<and> n \<le> h \<and> n < 32"
  by (auto simp: GENMASK_def bit_push_bit_iff bit_mask_iff)

lemma bf_shf_GENMASK [simp]:
  assumes "l \<le> h" "h < 32"
  shows "bf_shf (GENMASK h l) = l"
proof -
  have "[0..<32] = [0..<l] @ l # [Suc l..<32]"
    using assms upt_add_eq_append [of 0 l "32 - l"] by (simp add: upt_rec [of l])
  moreover have "takeWhile (\<lambda>n. \<not> bit (GENMASK h l) n) ([0..<l] @ l # [Suc l..<32]) = [0..<l]"
    using assms by (subst takeWhile_append2) (auto simp: bit_GENMASK)
  ultimately show ?thesis by (simp add: bf_shf_def)
qed

lemma bit_FIELD_PREP [regfield]:
  assumes "l \<le> h" "h < 32"
  shows "bit (FIELD_PREP (GENMASK h l) v) n \<longleftrightarrow> l \<le> n \<and> n \<le> h \<and> bit v (n - l)"
  using assms by (auto simp: FIELD_PREP_def bit_and_iff bit_push_bit_iff bit_GENMASK)

lemma bit_FIELD_GET [regfield]:
  assumes "l \<le> h" "h < 32"
  shows "bit (FIELD_GET (GENMASK h l) r) n \<longleftrightarrow> n + l \<le> h \<and> bit r (n + l)"
  using assms by (auto simp: FIELD_GET_def bit_and_iff bit_drop_bit_eq bit_GENMASK add.commute)

lemmas [regfield] = bit_or_iff bit_and_iff bit_not_iff bit_xor_iff bit_push_bit_iff
  bit_take_bit_iff bit_drop_bit_eq bit_mask_iff bit_unsigned_iff

text \<open>The field of a value assembled from that field and bits outside it.\<close>

lemma FIELD_GET_PREP_or:
  assumes "l \<le> h" "h < 32" and "r AND GENMASK h l = 0"
  shows "FIELD_GET (GENMASK h l) (FIELD_PREP (GENMASK h l) v OR r) = take_bit (Suc h - l) v"
proof (rule bit_word_eqI)
  fix n :: nat assume n: "n < LENGTH(32)"
  have "\<not> bit r (n + l)" if "n + l \<le> h"
  proof
    assume "bit r (n + l)"
    with that assms(2) have "bit (r AND GENMASK h l) (n + l)" by (simp add: regfield)
    with assms(3) show False by simp
  qed
  with assms(1,2) n show "bit (FIELD_GET (GENMASK h l) (FIELD_PREP (GENMASK h l) v OR r)) n
      \<longleftrightarrow> bit (take_bit (Suc h - l) v) n"
    by (auto simp: regfield)
qed

lemma take_bit_u32_small: "unat v < 2 ^ k \<Longrightarrow> take_bit k v = v" for v :: u32
  by (metis unsigned_take_bit_eq take_bit_nat_eq_self unsigned_word_eqI)

end
