(* ===== verification/Board_Api.thy ===== *)
theory Board_Api
  imports Kernel_Prelude
begin

text \<open>
  The kernel interfaces the drivers call and whose code is not part of this repository:
  \<^item> regmap: \<open>regmap_read\<close>, \<open>regmap_write\<close>, \<open>regmap_update_bits\<close> and its set, clear and
    assign variants, \<open>regmap_read_poll_timeout\<close>;
  \<^item> clk: \<open>clk_prepare_enable\<close>, \<open>clk_disable_unprepare\<close>, \<open>clk_round_rate\<close>, \<open>clk_set_rate\<close>.

  Each interface is a record of functions over an abstract machine state \<open>'w\<close>, so that a driver
  function takes the record as an argument and calls its fields as the C calls the functions.
  What the drivers rely on is the documented behaviour, stated as the assumptions of the locales
  \<open>regmap_laws\<close>, \<open>clk_laws\<close> and \<open>board_laws\<close> over the register contents \<open>regs\<close> and the enable
  counts \<open>clk_count\<close>. The section at the end gives a machine, \<open>board\<close>, with a register file and
  counted clocks, and interprets the locales on it.
\<close>

section \<open>Interfaces\<close>

type_synonym clk = nat

record 'w regmap_api =
  regmap_read :: "'w \<Rightarrow> u32 \<Rightarrow> u32 \<times> 'w"
  regmap_write :: "'w \<Rightarrow> u32 \<Rightarrow> u32 \<Rightarrow> 'w"
  regmap_update_bits :: "'w \<Rightarrow> u32 \<Rightarrow> u32 \<Rightarrow> u32 \<Rightarrow> 'w"
  regmap_set_bits :: "'w \<Rightarrow> u32 \<Rightarrow> u32 \<Rightarrow> 'w"
  regmap_clear_bits :: "'w \<Rightarrow> u32 \<Rightarrow> u32 \<Rightarrow> 'w"
  regmap_assign_bits :: "'w \<Rightarrow> u32 \<Rightarrow> u32 \<Rightarrow> bool \<Rightarrow> 'w"
  regmap_read_poll_timeout :: "'w \<Rightarrow> u32 \<Rightarrow> (u32 \<Rightarrow> bool) \<Rightarrow> nat \<Rightarrow> nat \<Rightarrow> int \<times> u32 \<times> 'w"

record 'w clk_api =
  clk_prepare_enable :: "'w \<Rightarrow> clk \<Rightarrow> int \<times> 'w"
  clk_disable_unprepare :: "'w \<Rightarrow> clk \<Rightarrow> 'w"
  clk_round_rate :: "'w \<Rightarrow> clk \<Rightarrow> int \<Rightarrow> int"
  clk_set_rate :: "'w \<Rightarrow> clk \<Rightarrow> int \<Rightarrow> int \<times> 'w"

section \<open>Documented behaviour\<close>

text \<open>
  A read returns the register and may clear it, and leaves the others alone. A write stores the
  value. \<open>regmap_update_bits\<close> is a read/modify/write of the masked bits. A poll that returns 0
  read a value that satisfies the condition; otherwise it returns \<open>-ETIMEDOUT\<close>.
\<close>

locale regmap_laws =
  fixes rm :: "'w regmap_api" and regs :: "'w \<Rightarrow> u32 \<Rightarrow> u32"
  assumes read_value: "fst (regmap_read rm w r) = regs w r"
    and read_frame: "r' \<noteq> r \<Longrightarrow> regs (snd (regmap_read rm w r)) r' = regs w r'"
    and regs_write: "regs (regmap_write rm w r v) = (regs w)(r := v)"
    and regs_update_bits:
      "regs (regmap_update_bits rm w r m v) = (regs w)(r := (regs w r AND NOT m) OR (v AND m))"
    and regs_set_bits: "regs (regmap_set_bits rm w r b) = (regs w)(r := regs w r OR b)"
    and regs_clear_bits: "regs (regmap_clear_bits rm w r b) = (regs w)(r := regs w r AND NOT b)"
    and regs_assign_bits: "regs (regmap_assign_bits rm w r b on) =
      (regs w)(r := if on then regs w r OR b else regs w r AND NOT b)"
    and poll_ret: "fst (regmap_read_poll_timeout rm w r c s t) \<in> {0, - ETIMEDOUT}"
    and poll_cond: "regmap_read_poll_timeout rm w r c s t = (0, v, w') \<Longrightarrow> c v"
    and poll_frame: "regmap_read_poll_timeout rm w r c s t = (e, v, w') \<Longrightarrow> r' \<noteq> r \<Longrightarrow>
      regs w' r' = regs w r'"
begin

lemmas regs_simps = read_value regs_write regs_update_bits regs_set_bits regs_clear_bits
  regs_assign_bits

text \<open>Bits outside the mask of an update keep their value.\<close>

lemma update_bits_keep: "\<not> bit m n \<Longrightarrow>
    bit (regs (regmap_update_bits rm w r m v) r') n = bit (regs w r') n"
  by (auto simp: regs_update_bits bit_or_iff bit_and_iff bit_not_iff dest: bit_imp_le_length)

end

text \<open>
  Enabling a clock counts one use when it succeeds and none when it fails; disabling releases one
  use; setting a rate does not change the use count. No clock operation writes a device register.
\<close>

locale clk_laws =
  fixes ck :: "'w clk_api" and clk_count :: "'w \<Rightarrow> clk \<Rightarrow> nat"
  assumes enable_ok: "clk_prepare_enable ck w c = (0, w') \<Longrightarrow>
      clk_count w' = (clk_count w)(c := Suc (clk_count w c))"
    and enable_fail: "clk_prepare_enable ck w c = (e, w') \<Longrightarrow> e \<noteq> 0 \<Longrightarrow> clk_count w' = clk_count w"
    and disable: "clk_count (clk_disable_unprepare ck w c) =
      (clk_count w)(c := clk_count w c - 1)"
    and set_rate: "clk_count (snd (clk_set_rate ck w c f)) = clk_count w"

locale board_laws = regmap_laws rm regs + clk_laws ck clk_count
  for rm :: "'w regmap_api" and regs and ck :: "'w clk_api" and clk_count +
  assumes enable_regs: "regs (snd (clk_prepare_enable ck w c)) = regs w"
    and disable_regs: "regs (clk_disable_unprepare ck w c) = regs w"
    and set_rate_regs: "regs (snd (clk_set_rate ck w c f)) = regs w"
    and write_clk: "clk_count (regmap_write rm w r v) = clk_count w"
    and update_bits_clk: "clk_count (regmap_update_bits rm w r m v) = clk_count w"
    and set_bits_clk: "clk_count (regmap_set_bits rm w r b) = clk_count w"
    and clear_bits_clk: "clk_count (regmap_clear_bits rm w r b) = clk_count w"
    and assign_bits_clk: "clk_count (regmap_assign_bits rm w r b on) = clk_count w"
    and read_clk: "clk_count (snd (regmap_read rm w r)) = clk_count w"
    and poll_clk: "clk_count (snd (snd (regmap_read_poll_timeout rm w r P s t))) = clk_count w"

section \<open>A machine\<close>

text \<open>
  A register file with a set of registers a read clears, a stuck-at pattern the hardware returns
  for a polled register, and counted clocks with a maximum rate (0 when there is none).
\<close>

record board =
  bd_regs :: "u32 \<Rightarrow> u32"
  bd_clear_on_read :: "u32 set"
  bd_clk :: "clk \<Rightarrow> nat"
  bd_clk_fail :: "clk \<Rightarrow> int"
  bd_rate :: "clk \<Rightarrow> int"
  bd_max_rate :: "clk \<Rightarrow> int"
  bd_poll_or :: "u32 \<Rightarrow> u32"

definition bd_set :: "board \<Rightarrow> u32 \<Rightarrow> u32 \<Rightarrow> board" where
  "bd_set w r v = w\<lparr>bd_regs := (bd_regs w)(r := v)\<rparr>"

definition board_regmap :: "board regmap_api" where
  "board_regmap = \<lparr>
     regmap_read = (\<lambda>w r. (bd_regs w r, if r \<in> bd_clear_on_read w then bd_set w r 0 else w)),
     regmap_write = bd_set,
     regmap_update_bits = (\<lambda>w r m v. bd_set w r ((bd_regs w r AND NOT m) OR (v AND m))),
     regmap_set_bits = (\<lambda>w r b. bd_set w r (bd_regs w r OR b)),
     regmap_clear_bits = (\<lambda>w r b. bd_set w r (bd_regs w r AND NOT b)),
     regmap_assign_bits = (\<lambda>w r b on.
        bd_set w r (if on then bd_regs w r OR b else bd_regs w r AND NOT b)),
     regmap_read_poll_timeout = (\<lambda>w r c s t.
        let v = bd_regs w r OR bd_poll_or w r; w' = bd_set w r v
        in if c v then (0, v, w') else (- ETIMEDOUT, v, w'))\<rparr>"

definition board_clk :: "board clk_api" where
  "board_clk = \<lparr>
     clk_prepare_enable = (\<lambda>w c. if bd_clk_fail w c = 0
        then (0, w\<lparr>bd_clk := (bd_clk w)(c := Suc (bd_clk w c))\<rparr>) else (bd_clk_fail w c, w)),
     clk_disable_unprepare = (\<lambda>w c. w\<lparr>bd_clk := (bd_clk w)(c := bd_clk w c - 1)\<rparr>),
     clk_round_rate = (\<lambda>w c f. if bd_max_rate w c = 0 then - EINVAL else min f (bd_max_rate w c)),
     clk_set_rate = (\<lambda>w c f. (0, w\<lparr>bd_rate := (bd_rate w)(c := f)\<rparr>))\<rparr>"

definition board_init :: board where
  "board_init = \<lparr>bd_regs = (\<lambda>_. 0), bd_clear_on_read = {}, bd_clk = (\<lambda>_. 0),
     bd_clk_fail = (\<lambda>_. 0), bd_rate = (\<lambda>_. 0), bd_max_rate = (\<lambda>_. 300000000),
     bd_poll_or = (\<lambda>_. 0)\<rparr>"

interpretation bd: board_laws board_regmap bd_regs board_clk bd_clk
  by unfold_locales
    (auto simp: board_regmap_def board_clk_def bd_set_def Let_def ETIMEDOUT_def split: if_splits)

lemmas board_eval = board_regmap_def board_clk_def board_init_def bd_set_def

end
