(* ===== verification/Vs_Regs.thy ===== *)
theory Vs_Regs
  imports Board_Api
begin

text \<open>
  The register map of the Verisilicon display controllers (\<open>drm/verisilicon/*_regs.h\<close>): addresses as
  functions of the output number, masks and field values as words. Values are the words a C \<open>int\<close>
  expression converts to when it is written to a register.
\<close>

section \<open>vs_dc_top_regs.h\<close>

definition VSDC_TOP_IRQ_ACK :: u32 where "VSDC_TOP_IRQ_ACK = 0x0010"
definition VSDC_TOP_IRQ_VSYNC :: "nat \<Rightarrow> u32" where "VSDC_TOP_IRQ_VSYNC n = BIT n"
definition VSDC_TOP_IRQ_EN :: u32 where "VSDC_TOP_IRQ_EN = 0x0014"
definition VSDC_TOP_CHIP_MODEL :: u32 where "VSDC_TOP_CHIP_MODEL = 0x0020"
definition VSDC_TOP_CHIP_REV :: u32 where "VSDC_TOP_CHIP_REV = 0x0024"
definition VSDC_TOP_CHIP_CUSTOMER_ID :: u32 where "VSDC_TOP_CHIP_CUSTOMER_ID = 0x0030"

section \<open>vs_crtc_regs.h\<close>

definition VSDC_DISP_HSIZE :: "nat \<Rightarrow> u32" where "VSDC_DISP_HSIZE n = 0x1430 + 0x4 * of_nat n"
definition VSDC_DISP_HSIZE_DISP_MASK :: u32 where "VSDC_DISP_HSIZE_DISP_MASK = GENMASK 14 0"
definition VSDC_DISP_HSIZE_DISP :: "u16 \<Rightarrow> u32" where "VSDC_DISP_HSIZE_DISP v = push_bit 0 (ucast v)"
definition VSDC_DISP_HSIZE_TOTAL_MASK :: u32 where "VSDC_DISP_HSIZE_TOTAL_MASK = GENMASK 30 16"
definition VSDC_DISP_HSIZE_TOTAL :: "u16 \<Rightarrow> u32" where "VSDC_DISP_HSIZE_TOTAL v = push_bit 16 (ucast v)"
definition VSDC_DISP_HSYNC :: "nat \<Rightarrow> u32" where "VSDC_DISP_HSYNC n = 0x1438 + 0x4 * of_nat n"
definition VSDC_DISP_HSYNC_START_MASK :: u32 where "VSDC_DISP_HSYNC_START_MASK = GENMASK 14 0"
definition VSDC_DISP_HSYNC_START :: "u16 \<Rightarrow> u32" where "VSDC_DISP_HSYNC_START v = push_bit 0 (ucast v)"
definition VSDC_DISP_HSYNC_END_MASK :: u32 where "VSDC_DISP_HSYNC_END_MASK = GENMASK 29 15"
definition VSDC_DISP_HSYNC_END :: "u16 \<Rightarrow> u32" where "VSDC_DISP_HSYNC_END v = push_bit 15 (ucast v)"
definition VSDC_DISP_HSYNC_EN :: u32 where "VSDC_DISP_HSYNC_EN = BIT 30"
definition VSDC_DISP_HSYNC_POL :: u32 where "VSDC_DISP_HSYNC_POL = BIT 31"
definition VSDC_DISP_VSIZE :: "nat \<Rightarrow> u32" where "VSDC_DISP_VSIZE n = 0x1440 + 0x4 * of_nat n"
definition VSDC_DISP_VSIZE_DISP_MASK :: u32 where "VSDC_DISP_VSIZE_DISP_MASK = GENMASK 14 0"
definition VSDC_DISP_VSIZE_DISP :: "u16 \<Rightarrow> u32" where "VSDC_DISP_VSIZE_DISP v = push_bit 0 (ucast v)"
definition VSDC_DISP_VSIZE_TOTAL_MASK :: u32 where "VSDC_DISP_VSIZE_TOTAL_MASK = GENMASK 30 16"
definition VSDC_DISP_VSIZE_TOTAL :: "u16 \<Rightarrow> u32" where "VSDC_DISP_VSIZE_TOTAL v = push_bit 16 (ucast v)"
definition VSDC_DISP_VSYNC :: "nat \<Rightarrow> u32" where "VSDC_DISP_VSYNC n = 0x1448 + 0x4 * of_nat n"
definition VSDC_DISP_VSYNC_START_MASK :: u32 where "VSDC_DISP_VSYNC_START_MASK = GENMASK 14 0"
definition VSDC_DISP_VSYNC_START :: "u16 \<Rightarrow> u32" where "VSDC_DISP_VSYNC_START v = push_bit 0 (ucast v)"
definition VSDC_DISP_VSYNC_END_MASK :: u32 where "VSDC_DISP_VSYNC_END_MASK = GENMASK 29 15"
definition VSDC_DISP_VSYNC_END :: "u16 \<Rightarrow> u32" where "VSDC_DISP_VSYNC_END v = push_bit 15 (ucast v)"
definition VSDC_DISP_VSYNC_EN :: u32 where "VSDC_DISP_VSYNC_EN = BIT 30"
definition VSDC_DISP_VSYNC_POL :: u32 where "VSDC_DISP_VSYNC_POL = BIT 31"
definition VSDC_DISP_IRQ_STA :: u32 where "VSDC_DISP_IRQ_STA = 0x147C"
definition VSDC_DISP_IRQ_VSYNC :: "nat \<Rightarrow> u32" where "VSDC_DISP_IRQ_VSYNC n = BIT n"
definition VSDC_DISP_IRQ_EN :: u32 where "VSDC_DISP_IRQ_EN = 0x1480"

section \<open>vs_primary_plane_regs.h\<close>

definition VSDC_FB_ADDRESS :: "nat \<Rightarrow> u32" where "VSDC_FB_ADDRESS n = 0x1400 + 0x4 * of_nat n"
definition VSDC_FB_STRIDE :: "nat \<Rightarrow> u32" where "VSDC_FB_STRIDE n = 0x1408 + 0x4 * of_nat n"
definition VSDC_FB_CONFIG :: "nat \<Rightarrow> u32" where "VSDC_FB_CONFIG n = 0x1518 + 0x4 * of_nat n"
definition VSDC_FB_CONFIG_ENABLE :: u32 where "VSDC_FB_CONFIG_ENABLE = BIT 0"
definition VSDC_FB_CONFIG_VALID :: u32 where "VSDC_FB_CONFIG_VALID = BIT 3"
definition VSDC_FB_CONFIG_RESET :: u32 where "VSDC_FB_CONFIG_RESET = BIT 4"
definition VSDC_FB_CONFIG_TILE_MODE_MASK :: u32 where "VSDC_FB_CONFIG_TILE_MODE_MASK = GENMASK 21 17"
definition VSDC_FB_CONFIG_TILE_MODE :: "u32 \<Rightarrow> u32" where "VSDC_FB_CONFIG_TILE_MODE v = push_bit 14 v"
definition VSDC_FB_CONFIG_SWIZZLE_MASK :: u32 where "VSDC_FB_CONFIG_SWIZZLE_MASK = GENMASK 24 23"
definition VSDC_FB_CONFIG_SWIZZLE :: "u32 \<Rightarrow> u32" where "VSDC_FB_CONFIG_SWIZZLE v = push_bit 23 v"
definition VSDC_FB_CONFIG_UV_SWIZZLE_EN :: u32 where "VSDC_FB_CONFIG_UV_SWIZZLE_EN = BIT 25"
definition VSDC_FB_CONFIG_FMT_MASK :: u32 where "VSDC_FB_CONFIG_FMT_MASK = GENMASK 31 26"
definition VSDC_FB_CONFIG_FMT :: "u32 \<Rightarrow> u32" where "VSDC_FB_CONFIG_FMT v = push_bit 26 v"
definition VSDC_FB_SIZE :: "nat \<Rightarrow> u32" where "VSDC_FB_SIZE n = 0x1810 + 0x4 * of_nat n"
definition VSDC_FB_CONFIG_EX :: "nat \<Rightarrow> u32" where "VSDC_FB_CONFIG_EX n = 0x1CC0 + 0x4 * of_nat n"
definition VSDC_FB_CONFIG_EX_COMMIT :: u32 where "VSDC_FB_CONFIG_EX_COMMIT = BIT 12"
definition VSDC_FB_CONFIG_EX_FB_EN :: u32 where "VSDC_FB_CONFIG_EX_FB_EN = BIT 13"
definition VSDC_FB_CONFIG_EX_DISPLAY_ID_MASK :: u32 where
  "VSDC_FB_CONFIG_EX_DISPLAY_ID_MASK = GENMASK 19 19"
definition VSDC_FB_CONFIG_EX_DISPLAY_ID :: "nat \<Rightarrow> u32" where
  "VSDC_FB_CONFIG_EX_DISPLAY_ID v = push_bit 19 (of_nat v)"
definition VSDC_FB_TOP_LEFT :: "nat \<Rightarrow> u32" where "VSDC_FB_TOP_LEFT n = 0x24D8 + 0x4 * of_nat n"
definition VSDC_FB_BOTTOM_RIGHT :: "nat \<Rightarrow> u32" where "VSDC_FB_BOTTOM_RIGHT n = 0x24E0 + 0x4 * of_nat n"
definition VSDC_FB_BLEND_CONFIG :: "nat \<Rightarrow> u32" where "VSDC_FB_BLEND_CONFIG n = 0x2510 + 0x4 * of_nat n"
definition VSDC_FB_BLEND_CONFIG_BLEND_DISABLE :: u32 where "VSDC_FB_BLEND_CONFIG_BLEND_DISABLE = BIT 1"

section \<open>vs_cursor_plane_regs.h\<close>

definition VSDC_CURSOR_CONFIG :: "nat \<Rightarrow> u32" where "VSDC_CURSOR_CONFIG n = 0x1468 + 0x1080 * of_nat n"
definition VSDC_CURSOR_CONFIG_FMT_MASK :: u32 where "VSDC_CURSOR_CONFIG_FMT_MASK = GENMASK 1 0"
definition VSDC_CURSOR_CONFIG_FMT_ARGB8888 :: u32 where "VSDC_CURSOR_CONFIG_FMT_ARGB8888 = push_bit 0 2"
definition VSDC_CURSOR_CONFIG_FMT_OFF :: u32 where "VSDC_CURSOR_CONFIG_FMT_OFF = push_bit 0 0"
definition VSDC_CURSOR_CONFIG_IMG_UPDATE :: u32 where "VSDC_CURSOR_CONFIG_IMG_UPDATE = BIT 2"
definition VSDC_CURSOR_CONFIG_COMMIT :: u32 where "VSDC_CURSOR_CONFIG_COMMIT = BIT 3"
definition VSDC_CURSOR_CONFIG_SIZE_MASK :: u32 where "VSDC_CURSOR_CONFIG_SIZE_MASK = GENMASK 7 5"
definition VSDC_CURSOR_CONFIG_SIZE_32 :: u32 where "VSDC_CURSOR_CONFIG_SIZE_32 = push_bit 5 0"
definition VSDC_CURSOR_CONFIG_SIZE_64 :: u32 where "VSDC_CURSOR_CONFIG_SIZE_64 = push_bit 5 1"
definition VSDC_CURSOR_CONFIG_SIZE_128 :: u32 where "VSDC_CURSOR_CONFIG_SIZE_128 = push_bit 5 2"
definition VSDC_CURSOR_CONFIG_SIZE_256 :: u32 where "VSDC_CURSOR_CONFIG_SIZE_256 = push_bit 5 3"
definition VSDC_CURSOR_CONFIG_Y_OFF_MASK :: u32 where "VSDC_CURSOR_CONFIG_Y_OFF_MASK = GENMASK 12 8"
definition VSDC_CURSOR_CONFIG_X_OFF_MASK :: u32 where "VSDC_CURSOR_CONFIG_X_OFF_MASK = GENMASK 20 16"
definition VSDC_CURSOR_ADDRESS :: "nat \<Rightarrow> u32" where "VSDC_CURSOR_ADDRESS n = 0x146C + 0x1080 * of_nat n"
definition VSDC_CURSOR_LOCATION :: "nat \<Rightarrow> u32" where "VSDC_CURSOR_LOCATION n = 0x1470 + 0x1080 * of_nat n"
definition VSDC_CURSOR_LOCATION_X_MASK :: u32 where "VSDC_CURSOR_LOCATION_X_MASK = GENMASK 14 0"
definition VSDC_CURSOR_LOCATION_X :: "u32 \<Rightarrow> u32" where "VSDC_CURSOR_LOCATION_X v = push_bit 0 v"
definition VSDC_CURSOR_LOCATION_Y_MASK :: u32 where "VSDC_CURSOR_LOCATION_Y_MASK = GENMASK 30 16"
definition VSDC_CURSOR_LOCATION_Y :: "u32 \<Rightarrow> u32" where "VSDC_CURSOR_LOCATION_Y v = push_bit 16 v"

section \<open>vs_bridge_regs.h\<close>

definition VSDC_DISP_PANEL_CONFIG :: "nat \<Rightarrow> u32" where "VSDC_DISP_PANEL_CONFIG n = 0x1418 + 0x4 * of_nat n"
definition VSDC_DISP_PANEL_CONFIG_DE_EN :: u32 where "VSDC_DISP_PANEL_CONFIG_DE_EN = BIT 0"
definition VSDC_DISP_PANEL_CONFIG_DE_POL :: u32 where "VSDC_DISP_PANEL_CONFIG_DE_POL = BIT 1"
definition VSDC_DISP_PANEL_CONFIG_DAT_EN :: u32 where "VSDC_DISP_PANEL_CONFIG_DAT_EN = BIT 4"
definition VSDC_DISP_PANEL_CONFIG_DAT_POL :: u32 where "VSDC_DISP_PANEL_CONFIG_DAT_POL = BIT 5"
definition VSDC_DISP_PANEL_CONFIG_CLK_EN :: u32 where "VSDC_DISP_PANEL_CONFIG_CLK_EN = BIT 8"
definition VSDC_DISP_PANEL_CONFIG_CLK_POL :: u32 where "VSDC_DISP_PANEL_CONFIG_CLK_POL = BIT 9"
definition VSDC_DISP_PANEL_CONFIG_RUNNING :: u32 where "VSDC_DISP_PANEL_CONFIG_RUNNING = BIT 12"
definition VSDC_DISP_PANEL_CONFIG_YUV :: u32 where "VSDC_DISP_PANEL_CONFIG_YUV = BIT 16"
definition VSDC_DISP_DPI_CONFIG :: "nat \<Rightarrow> u32" where "VSDC_DISP_DPI_CONFIG n = 0x14B8 + 0x4 * of_nat n"
definition VSDC_DISP_DPI_CONFIG_FMT_RGB888 :: u32 where "VSDC_DISP_DPI_CONFIG_FMT_RGB888 = 5"
definition VSDC_DISP_PANEL_START :: u32 where "VSDC_DISP_PANEL_START = 0x1CCC"
definition VSDC_DISP_PANEL_START_RUNNING :: "nat \<Rightarrow> u32" where "VSDC_DISP_PANEL_START_RUNNING n = BIT n"
definition VSDC_DISP_PANEL_START_MULTI_DISP_SYNC :: u32 where
  "VSDC_DISP_PANEL_START_MULTI_DISP_SYNC = BIT 3"
definition VSDC_DISP_DP_CONFIG :: "nat \<Rightarrow> u32" where "VSDC_DISP_DP_CONFIG n = 0x1CD0 + 0x4 * of_nat n"
definition VSDC_DISP_DP_CONFIG_DP_EN :: u32 where "VSDC_DISP_DP_CONFIG_DP_EN = BIT 3"
definition VSDC_DISP_DP_CONFIG_FMT_MASK :: u32 where "VSDC_DISP_DP_CONFIG_FMT_MASK = GENMASK 2 0"
definition VSDC_DISP_DP_CONFIG_FMT_RGB565 :: u32 where "VSDC_DISP_DP_CONFIG_FMT_RGB565 = 0"
definition VSDC_DISP_DP_CONFIG_FMT_RGB666 :: u32 where "VSDC_DISP_DP_CONFIG_FMT_RGB666 = 1"
definition VSDC_DISP_DP_CONFIG_FMT_RGB888 :: u32 where "VSDC_DISP_DP_CONFIG_FMT_RGB888 = 2"
definition VSDC_DISP_DP_CONFIG_FMT_RGB101010 :: u32 where "VSDC_DISP_DP_CONFIG_FMT_RGB101010 = 3"
definition VSDC_DISP_DP_CONFIG_YUV_FMT_MASK :: u32 where "VSDC_DISP_DP_CONFIG_YUV_FMT_MASK = GENMASK 7 4"
definition VSDC_DISP_DP_CONFIG_YUV_FMT_UYVY8 :: u32 where "VSDC_DISP_DP_CONFIG_YUV_FMT_UYVY8 = push_bit 4 2"
definition VSDC_DISP_DP_CONFIG_YUV_FMT_YUV8 :: u32 where "VSDC_DISP_DP_CONFIG_YUV_FMT_YUV8 = push_bit 4 4"
definition VSDC_DISP_DP_CONFIG_YUV_FMT_UYVY10 :: u32 where "VSDC_DISP_DP_CONFIG_YUV_FMT_UYVY10 = push_bit 4 8"
definition VSDC_DISP_DP_CONFIG_YUV_FMT_YUV10 :: u32 where "VSDC_DISP_DP_CONFIG_YUV_FMT_YUV10 = push_bit 4 10"
definition VSDC_DISP_DP_CONFIG_YUV_FMT_UYYVYY8 :: u32 where "VSDC_DISP_DP_CONFIG_YUV_FMT_UYYVYY8 = push_bit 4 12"
definition VSDC_DISP_DP_CONFIG_YUV_FMT_UYYVYY10 :: u32 where "VSDC_DISP_DP_CONFIG_YUV_FMT_UYYVYY10 = push_bit 4 13"
definition VSDC_DISP_PANEL_CONFIG_EX :: "nat \<Rightarrow> u32" where "VSDC_DISP_PANEL_CONFIG_EX n = 0x2518 + 0x4 * of_nat n"
definition VSDC_DISP_PANEL_CONFIG_EX_COMMIT :: u32 where "VSDC_DISP_PANEL_CONFIG_EX_COMMIT = BIT 0"

section \<open>Unified interrupt bits (vs_drm.h)\<close>

definition VSDC_IRQ_VSYNC :: "nat \<Rightarrow> u32" where "VSDC_IRQ_VSYNC n = BIT n"

section \<open>Lemmas\<close>

named_theorems vs_addr \<open>register addresses\<close>
named_theorems vs_field \<open>masks and field values\<close>

lemmas [vs_addr] = VSDC_TOP_IRQ_ACK_def VSDC_TOP_IRQ_EN_def VSDC_TOP_CHIP_MODEL_def
  VSDC_TOP_CHIP_REV_def VSDC_TOP_CHIP_CUSTOMER_ID_def VSDC_DISP_HSIZE_def VSDC_DISP_HSYNC_def
  VSDC_DISP_VSIZE_def VSDC_DISP_VSYNC_def VSDC_DISP_IRQ_STA_def VSDC_DISP_IRQ_EN_def
  VSDC_FB_ADDRESS_def VSDC_FB_STRIDE_def VSDC_FB_CONFIG_def VSDC_FB_SIZE_def VSDC_FB_CONFIG_EX_def
  VSDC_FB_TOP_LEFT_def VSDC_FB_BOTTOM_RIGHT_def VSDC_FB_BLEND_CONFIG_def VSDC_CURSOR_CONFIG_def
  VSDC_CURSOR_ADDRESS_def VSDC_CURSOR_LOCATION_def VSDC_DISP_PANEL_CONFIG_def
  VSDC_DISP_DPI_CONFIG_def VSDC_DISP_PANEL_START_def VSDC_DISP_DP_CONFIG_def
  VSDC_DISP_PANEL_CONFIG_EX_def

lemmas [vs_field] = VSDC_TOP_IRQ_VSYNC_def VSDC_DISP_HSIZE_DISP_MASK_def VSDC_DISP_HSIZE_DISP_def
  VSDC_DISP_HSIZE_TOTAL_MASK_def VSDC_DISP_HSIZE_TOTAL_def VSDC_DISP_HSYNC_START_MASK_def
  VSDC_DISP_HSYNC_START_def VSDC_DISP_HSYNC_END_MASK_def VSDC_DISP_HSYNC_END_def
  VSDC_DISP_HSYNC_EN_def VSDC_DISP_HSYNC_POL_def VSDC_DISP_VSIZE_DISP_MASK_def
  VSDC_DISP_VSIZE_DISP_def VSDC_DISP_VSIZE_TOTAL_MASK_def VSDC_DISP_VSIZE_TOTAL_def
  VSDC_DISP_VSYNC_START_MASK_def VSDC_DISP_VSYNC_START_def VSDC_DISP_VSYNC_END_MASK_def
  VSDC_DISP_VSYNC_END_def VSDC_DISP_VSYNC_EN_def VSDC_DISP_VSYNC_POL_def VSDC_DISP_IRQ_VSYNC_def
  VSDC_FB_CONFIG_ENABLE_def VSDC_FB_CONFIG_VALID_def VSDC_FB_CONFIG_RESET_def
  VSDC_FB_CONFIG_TILE_MODE_MASK_def VSDC_FB_CONFIG_TILE_MODE_def VSDC_FB_CONFIG_SWIZZLE_MASK_def
  VSDC_FB_CONFIG_SWIZZLE_def VSDC_FB_CONFIG_UV_SWIZZLE_EN_def VSDC_FB_CONFIG_FMT_MASK_def
  VSDC_FB_CONFIG_FMT_def VSDC_FB_CONFIG_EX_COMMIT_def VSDC_FB_CONFIG_EX_FB_EN_def
  VSDC_FB_CONFIG_EX_DISPLAY_ID_MASK_def VSDC_FB_CONFIG_EX_DISPLAY_ID_def
  VSDC_FB_BLEND_CONFIG_BLEND_DISABLE_def VSDC_CURSOR_CONFIG_FMT_MASK_def
  VSDC_CURSOR_CONFIG_FMT_ARGB8888_def VSDC_CURSOR_CONFIG_FMT_OFF_def
  VSDC_CURSOR_CONFIG_IMG_UPDATE_def VSDC_CURSOR_CONFIG_COMMIT_def VSDC_CURSOR_CONFIG_SIZE_MASK_def
  VSDC_CURSOR_CONFIG_SIZE_32_def VSDC_CURSOR_CONFIG_SIZE_64_def VSDC_CURSOR_CONFIG_SIZE_128_def
  VSDC_CURSOR_CONFIG_SIZE_256_def VSDC_CURSOR_CONFIG_Y_OFF_MASK_def
  VSDC_CURSOR_CONFIG_X_OFF_MASK_def VSDC_CURSOR_LOCATION_X_MASK_def VSDC_CURSOR_LOCATION_X_def
  VSDC_CURSOR_LOCATION_Y_MASK_def VSDC_CURSOR_LOCATION_Y_def VSDC_DISP_PANEL_CONFIG_DE_EN_def
  VSDC_DISP_PANEL_CONFIG_DE_POL_def VSDC_DISP_PANEL_CONFIG_DAT_EN_def
  VSDC_DISP_PANEL_CONFIG_DAT_POL_def VSDC_DISP_PANEL_CONFIG_CLK_EN_def
  VSDC_DISP_PANEL_CONFIG_CLK_POL_def VSDC_DISP_PANEL_CONFIG_RUNNING_def
  VSDC_DISP_PANEL_CONFIG_YUV_def VSDC_DISP_DPI_CONFIG_FMT_RGB888_def
  VSDC_DISP_PANEL_START_RUNNING_def VSDC_DISP_PANEL_START_MULTI_DISP_SYNC_def
  VSDC_DISP_DP_CONFIG_DP_EN_def VSDC_DISP_DP_CONFIG_FMT_MASK_def VSDC_DISP_DP_CONFIG_FMT_RGB565_def
  VSDC_DISP_DP_CONFIG_FMT_RGB666_def VSDC_DISP_DP_CONFIG_FMT_RGB888_def
  VSDC_DISP_DP_CONFIG_FMT_RGB101010_def VSDC_DISP_DP_CONFIG_YUV_FMT_MASK_def
  VSDC_DISP_DP_CONFIG_YUV_FMT_UYVY8_def VSDC_DISP_DP_CONFIG_YUV_FMT_YUV8_def
  VSDC_DISP_DP_CONFIG_YUV_FMT_UYVY10_def VSDC_DISP_DP_CONFIG_YUV_FMT_YUV10_def
  VSDC_DISP_DP_CONFIG_YUV_FMT_UYYVYY8_def VSDC_DISP_DP_CONFIG_YUV_FMT_UYYVYY10_def
  VSDC_DISP_PANEL_CONFIG_EX_COMMIT_def VSDC_IRQ_VSYNC_def

end
