(* ===== verification/Drm_Rect.thy ===== *)
theory Drm_Rect
  imports Kernel_Prelude
begin

text \<open>
  The rectangle library, \<open>drm/drm_rect.c\<close>: intersection, scaled clipping, scale factors, rotation
  and its inverse. A rectangle is the half-open box \<open>[x1, x2) \<times> [y1, y2)\<close> of C \<open>int\<close> coordinates,
  every arithmetic step wraps as the C does.

  The inline accessors \<open>drm_rect_width\<close>, \<open>drm_rect_height\<close>, \<open>drm_rect_visible\<close> and
  \<open>drm_rect_equals\<close> come from a header that is not in the repository: they are the fields of
  \<open>drm_rect_h\<close>, an argument of the functions that call them, with their documented meaning as the
  locale \<open>rect_laws\<close>. A rotation is decoded into what the code tests of it: the rotation
  angle (the switch on \<open>rotation & DRM_MODE_ROTATE_MASK\<close>) and the two reflection bits.
\<close>

section \<open>Data\<close>

record drm_rect =
  x1 :: int
  y1 :: int
  x2 :: int
  y2 :: int

record drm_rect_h =
  drm_rect_width :: "drm_rect \<Rightarrow> int"
  drm_rect_height :: "drm_rect \<Rightarrow> int"
  drm_rect_visible :: "drm_rect \<Rightarrow> bool"
  drm_rect_equals :: "drm_rect \<Rightarrow> drm_rect \<Rightarrow> bool"

datatype rotate_angle = DRM_MODE_ROTATE_0 | DRM_MODE_ROTATE_90 | DRM_MODE_ROTATE_180
  | DRM_MODE_ROTATE_270 | DRM_MODE_ROTATE_OTHER

record drm_rotation =
  rot_angle :: rotate_angle
  reflect_x :: bool
  reflect_y :: bool

section \<open>Operations\<close>

definition drm_rect_intersect :: "drm_rect_h \<Rightarrow> drm_rect \<Rightarrow> drm_rect \<Rightarrow> bool \<times> drm_rect" where
  "drm_rect_intersect h r1 r2 =
     (let r = r1\<lparr>x1 := max (x1 r1) (x1 r2), y1 := max (y1 r1) (y1 r2),
                x2 := min (x2 r1) (x2 r2), y2 := min (y2 r1) (y2 r2)\<rparr>
      in (drm_rect_visible h r, r))"

text \<open>
  \<open>clip_scaled\<close> returns the new source length and the clip amount it reduced in place. The
  product is the 64-bit \<open>mul_u32_u32\<close>, the division \<open>do_div\<close> by a 32-bit divisor, the result
  truncated to \<open>u32\<close>.
\<close>

definition clip_scaled :: "int \<Rightarrow> int \<Rightarrow> int \<Rightarrow> int \<times> int" where
  "clip_scaled src dst clip =
     (if dst = 0 then (0, clip)
      else
        let clip = min clip dst;
            tmp = to_u32 src * to_u32 (wrap32 (dst - clip))
        in if src < wrap32 (dst * 2 ^ 16)
           then (to_u32 ((tmp + dst - 1) mod 2 ^ 64 div to_u32 dst), clip)
           else (to_u32 (tmp div to_u32 dst), clip))"

definition clip_left :: "drm_rect_h \<Rightarrow> drm_rect \<Rightarrow> drm_rect \<Rightarrow> drm_rect \<Rightarrow> drm_rect \<times> drm_rect" where
  "clip_left h src dst clip =
     (let diff = wrap32 (x1 clip - x1 dst)
      in if diff > 0 then
           let (new_src_w, diff) = clip_scaled (drm_rect_width h src) (drm_rect_width h dst) diff
           in (src\<lparr>x1 := wrap32 (x2 src - new_src_w)\<rparr>, dst\<lparr>x1 := wrap32 (x1 dst + diff)\<rparr>)
         else (src, dst))"

definition clip_top :: "drm_rect_h \<Rightarrow> drm_rect \<Rightarrow> drm_rect \<Rightarrow> drm_rect \<Rightarrow> drm_rect \<times> drm_rect" where
  "clip_top h src dst clip =
     (let diff = wrap32 (y1 clip - y1 dst)
      in if diff > 0 then
           let (new_src_h, diff) = clip_scaled (drm_rect_height h src) (drm_rect_height h dst) diff
           in (src\<lparr>y1 := wrap32 (y2 src - new_src_h)\<rparr>, dst\<lparr>y1 := wrap32 (y1 dst + diff)\<rparr>)
         else (src, dst))"

definition clip_right :: "drm_rect_h \<Rightarrow> drm_rect \<Rightarrow> drm_rect \<Rightarrow> drm_rect \<Rightarrow> drm_rect \<times> drm_rect" where
  "clip_right h src dst clip =
     (let diff = wrap32 (x2 dst - x2 clip)
      in if diff > 0 then
           let (new_src_w, diff) = clip_scaled (drm_rect_width h src) (drm_rect_width h dst) diff
           in (src\<lparr>x2 := wrap32 (x1 src + new_src_w)\<rparr>, dst\<lparr>x2 := wrap32 (x2 dst - diff)\<rparr>)
         else (src, dst))"

definition clip_bottom :: "drm_rect_h \<Rightarrow> drm_rect \<Rightarrow> drm_rect \<Rightarrow> drm_rect \<Rightarrow> drm_rect \<times> drm_rect" where
  "clip_bottom h src dst clip =
     (let diff = wrap32 (y2 dst - y2 clip)
      in if diff > 0 then
           let (new_src_h, diff) = clip_scaled (drm_rect_height h src) (drm_rect_height h dst) diff
           in (src\<lparr>y2 := wrap32 (y1 src + new_src_h)\<rparr>, dst\<lparr>y2 := wrap32 (y2 dst - diff)\<rparr>)
         else (src, dst))"

definition drm_rect_clip_scaled ::
    "drm_rect_h \<Rightarrow> drm_rect \<Rightarrow> drm_rect \<Rightarrow> drm_rect \<Rightarrow> bool \<times> drm_rect \<times> drm_rect" where
  "drm_rect_clip_scaled h src dst clip =
     (let (src, dst) = clip_left h src dst clip;
          (src, dst) = clip_top h src dst clip;
          (src, dst) = clip_right h src dst clip;
          (src, dst) = clip_bottom h src dst clip
      in (drm_rect_visible h dst, src, dst))"

definition drm_calc_scale :: "int \<Rightarrow> int \<Rightarrow> int" where
  "drm_calc_scale src dst =
     (if src < 0 \<or> dst < 0 then - EINVAL
      else if dst = 0 then 0
      else if src > wrap32 (dst * 2 ^ 16) then c_div (wrap32 (wrap32 (src + dst) - 1)) dst
      else c_div src dst)"

definition drm_rect_calc_hscale :: "drm_rect_h \<Rightarrow> drm_rect \<Rightarrow> drm_rect \<Rightarrow> int \<Rightarrow> int \<Rightarrow> int" where
  "drm_rect_calc_hscale h src dst min_hscale max_hscale =
     (let src_w = drm_rect_width h src;
          dst_w = drm_rect_width h dst;
          hscale = drm_calc_scale src_w dst_w
      in if hscale < 0 \<or> dst_w = 0 then hscale
         else if hscale < min_hscale \<or> hscale > max_hscale then - ERANGE
         else hscale)"

definition drm_rect_calc_vscale :: "drm_rect_h \<Rightarrow> drm_rect \<Rightarrow> drm_rect \<Rightarrow> int \<Rightarrow> int \<Rightarrow> int" where
  "drm_rect_calc_vscale h src dst min_vscale max_vscale =
     (let src_h = drm_rect_height h src;
          dst_h = drm_rect_height h dst;
          vscale = drm_calc_scale src_h dst_h
      in if vscale < 0 \<or> dst_h = 0 then vscale
         else if vscale < min_vscale \<or> vscale > max_vscale then - ERANGE
         else vscale)"

definition drm_rect_reflect :: "drm_rect \<Rightarrow> int \<Rightarrow> int \<Rightarrow> drm_rotation \<Rightarrow> drm_rect" where
  "drm_rect_reflect r width height rotation =
     (if reflect_x rotation \<or> reflect_y rotation then
        let tmp = r;
            r = (if reflect_x rotation
                 then r\<lparr>x1 := wrap32 (width - x2 tmp), x2 := wrap32 (width - x1 tmp)\<rparr> else r)
        in if reflect_y rotation
           then r\<lparr>y1 := wrap32 (height - y2 tmp), y2 := wrap32 (height - y1 tmp)\<rparr> else r
      else r)"

definition drm_rect_rotate :: "drm_rect \<Rightarrow> int \<Rightarrow> int \<Rightarrow> drm_rotation \<Rightarrow> drm_rect" where
  "drm_rect_rotate r width height rotation =
     (let tmp = drm_rect_reflect r width height rotation
      in case rot_angle rotation of
           DRM_MODE_ROTATE_0 \<Rightarrow> tmp
         | DRM_MODE_ROTATE_90 \<Rightarrow>
             tmp\<lparr>x1 := y1 tmp, x2 := y2 tmp,
                 y1 := wrap32 (width - x2 tmp), y2 := wrap32 (width - x1 tmp)\<rparr>
         | DRM_MODE_ROTATE_180 \<Rightarrow>
             tmp\<lparr>x1 := wrap32 (width - x2 tmp), x2 := wrap32 (width - x1 tmp),
                 y1 := wrap32 (height - y2 tmp), y2 := wrap32 (height - y1 tmp)\<rparr>
         | DRM_MODE_ROTATE_270 \<Rightarrow>
             tmp\<lparr>x1 := wrap32 (height - y2 tmp), x2 := wrap32 (height - y1 tmp),
                 y1 := x1 tmp, y2 := x2 tmp\<rparr>
         | DRM_MODE_ROTATE_OTHER \<Rightarrow> tmp)"

definition drm_rect_rotate_inv :: "drm_rect \<Rightarrow> int \<Rightarrow> int \<Rightarrow> drm_rotation \<Rightarrow> drm_rect" where
  "drm_rect_rotate_inv tmp width height rotation =
     (let r = (case rot_angle rotation of
           DRM_MODE_ROTATE_0 \<Rightarrow> tmp
         | DRM_MODE_ROTATE_90 \<Rightarrow>
             tmp\<lparr>x1 := wrap32 (width - y2 tmp), x2 := wrap32 (width - y1 tmp),
                 y1 := x1 tmp, y2 := x2 tmp\<rparr>
         | DRM_MODE_ROTATE_180 \<Rightarrow>
             tmp\<lparr>x1 := wrap32 (width - x2 tmp), x2 := wrap32 (width - x1 tmp),
                 y1 := wrap32 (height - y2 tmp), y2 := wrap32 (height - y1 tmp)\<rparr>
         | DRM_MODE_ROTATE_270 \<Rightarrow>
             tmp\<lparr>x1 := y1 tmp, x2 := y2 tmp,
                 y1 := wrap32 (height - x2 tmp), y2 := wrap32 (height - x1 tmp)\<rparr>
         | DRM_MODE_ROTATE_OTHER \<Rightarrow> tmp)
      in drm_rect_reflect r width height rotation)"

section \<open>The accessors of the header\<close>

locale rect_laws =
  fixes h :: drm_rect_h
  assumes width: "drm_rect_width h r = wrap32 (x2 r - x1 r)"
    and height: "drm_rect_height h r = wrap32 (y2 r - y1 r)"
    and visible: "drm_rect_visible h r \<longleftrightarrow> 0 < drm_rect_width h r \<and> 0 < drm_rect_height h r"
    and equals: "drm_rect_equals h r s \<longleftrightarrow>
      x1 r = x1 s \<and> y1 r = y1 s \<and> x2 r = x2 s \<and> y2 r = y2 s"

definition rect_h :: drm_rect_h where
  "rect_h = \<lparr>drm_rect_width = (\<lambda>r. wrap32 (x2 r - x1 r)),
     drm_rect_height = (\<lambda>r. wrap32 (y2 r - y1 r)),
     drm_rect_visible = (\<lambda>r. 0 < wrap32 (x2 r - x1 r) \<and> 0 < wrap32 (y2 r - y1 r)),
     drm_rect_equals = (\<lambda>r s. x1 r = x1 s \<and> y1 r = y1 s \<and> x2 r = x2 s \<and> y2 r = y2 s)\<rparr>"

interpretation rect_h: rect_laws rect_h
  by unfold_locales (simp_all add: rect_h_def)

section \<open>Ranges and the one-dimensional clip\<close>

text \<open>
  \<open>rect_s32\<close> is what the C type guarantees. \<open>clip_ok\<close> is the range in which scaled clipping is
  exact: destination and clip coordinates of 31 bits, a destination of less than $2^{15}$ pixels
  in each direction, a source of less than $2^{15}$ pixels in 16.16 fixed point, and
  neither the source, the destination nor the clip inverted. \<open>clip_lo\<close> and \<open>clip_hi\<close> are the
  low and high step on one axis without wrap-around.
\<close>

definition is_s31 :: "int \<Rightarrow> bool" where
  "is_s31 x \<longleftrightarrow> - (2 ^ 30) \<le> x \<and> x < 2 ^ 30"

definition rect_s32 :: "drm_rect \<Rightarrow> bool" where
  "rect_s32 r \<longleftrightarrow> is_s32 (x1 r) \<and> is_s32 (y1 r) \<and> is_s32 (x2 r) \<and> is_s32 (y2 r)"

definition clip_lo :: "int \<Rightarrow> int \<Rightarrow> int \<Rightarrow> int \<Rightarrow> int \<Rightarrow> int \<times> int" where
  "clip_lo s1 s2 d1 d2 c1 =
     (if 0 < c1 - d1 then let (n, c) = clip_scaled (s2 - s1) (d2 - d1) (c1 - d1) in (s2 - n, d1 + c)
      else (s1, d1))"

definition clip_hi :: "int \<Rightarrow> int \<Rightarrow> int \<Rightarrow> int \<Rightarrow> int \<Rightarrow> int \<times> int" where
  "clip_hi s1 s2 d1 d2 c2 =
     (if 0 < d2 - c2 then let (n, c) = clip_scaled (s2 - s1) (d2 - d1) (d2 - c2) in (s1 + n, d2 - c)
      else (s2, d2))"

definition axis_ok :: "int \<Rightarrow> int \<Rightarrow> int \<Rightarrow> int \<Rightarrow> int \<Rightarrow> int \<Rightarrow> bool" where
  "axis_ok s1 s2 d1 d2 c1 c2 \<longleftrightarrow> is_s32 s1 \<and> is_s32 s2 \<and> 0 \<le> s2 - s1 \<and> s2 - s1 < 2 ^ 31 \<and>
     is_s31 d1 \<and> is_s31 d2 \<and> is_s31 c1 \<and> is_s31 c2 \<and>
     0 \<le> d2 - d1 \<and> d2 - d1 < 2 ^ 15 \<and> c1 \<le> c2"

definition clip_ok :: "drm_rect \<Rightarrow> drm_rect \<Rightarrow> drm_rect \<Rightarrow> bool" where
  "clip_ok src dst clip \<longleftrightarrow>
     axis_ok (x1 src) (x2 src) (x1 dst) (x2 dst) (x1 clip) (x2 clip) \<and>
     axis_ok (y1 src) (y2 src) (y1 dst) (y2 dst) (y1 clip) (y2 clip)"

section \<open>Rotation\<close>

lemma wrap32_mirror: "is_s32 x \<Longrightarrow> wrap32 (w - wrap32 (w - x)) = x"
  by (simp add: wrap32_diff_wrap wrap32_id)

lemma reflect_reflect: "rect_s32 r \<Longrightarrow>
    drm_rect_reflect (drm_rect_reflect r w h rot) w h rot = r"
  by (simp add: drm_rect_reflect_def rect_s32_def wrap32_mirror Let_def)

lemma reflect_s32: "rect_s32 r \<Longrightarrow> rect_s32 (drm_rect_reflect r w h rot)"
  by (simp add: drm_rect_reflect_def rect_s32_def wrap32_range Let_def)



section \<open>Clipping\<close>

lemma clip_scaled_eq:
  assumes "0 < dst" "dst < 2 ^ 15" "0 \<le> src" "src < 2 ^ 31" "0 \<le> clip"
  shows "clip_scaled src dst clip =
    (let c = min clip dst; t = src * (dst - c)
     in (if src < dst * 2 ^ 16 then (t + dst - 1) div dst else t div dst, c))"
proof -
  define c where "c = min clip dst"
  define t where "t = src * (dst - c)"
  have c: "0 \<le> c" "c \<le> dst" using assms by (auto simp: c_def)
  have t0: "0 \<le> t" using c assms by (simp add: t_def)
  have tb: "t \<le> src * dst" using c assms by (simp add: t_def mult_left_mono)
  have "src * dst < 2 ^ 31 * 2 ^ 15" using assms by (intro mult_strict_mono) auto
  with tb have tm: "t < 2 ^ 46" by simp
  have "t div dst \<le> src" using tb assms(1) by (rule floor_div_le [rotated])
  then have f: "to_u32 (t div dst) = t div dst"
    using assms t0 by (intro to_u32_id) (auto simp: pos_imp_zdiv_nonneg_iff)
  have "(t + dst - 1) div dst \<le> src" using tb assms(1) by (rule ceil_div_le [rotated])
  then have g: "to_u32 ((t + dst - 1) div dst) = (t + dst - 1) div dst"
    using assms t0 by (intro to_u32_id) (auto simp: pos_imp_zdiv_nonneg_iff)
  have m: "(t + dst - 1) mod 2 ^ 64 = t + dst - 1" using t0 tm assms by simp
  have w: "wrap32 (dst - c) = dst - c" "wrap32 (dst * 2 ^ 16) = dst * 2 ^ 16"
    using assms c by (simp_all add: wrap32_id is_s32_def is_s31_def)
  have u: "to_u32 src = src" "to_u32 (dst - c) = dst - c" "to_u32 dst = dst"
    using assms c by (simp_all add: to_u32_id)
  show ?thesis
    using assms(1) unfolding clip_scaled_def Let_def c_def [symmetric] w u t_def [symmetric] m f g
    by simp
qed

text \<open>Unscaled: the source shrinks by exactly the clipped amount.\<close>

lemma clip_scaled_unscaled:
  assumes "0 < dst" "dst < 2 ^ 15" "0 \<le> clip"
  shows "clip_scaled (dst * 2 ^ 16) dst clip = ((dst - min clip dst) * 2 ^ 16, min clip dst)"
proof -
  have "dst * 65536 * (dst - min clip dst) div dst = (dst - min clip dst) * 65536"
    using assms(1) by (simp add: mult.assoc mult.commute)
  then show ?thesis
    using assms by (simp add: clip_scaled_eq Let_def)
qed


lemma clip_scaled_bounds:
  assumes "0 \<le> dst" "dst < 2 ^ 15" "0 \<le> src" "src < 2 ^ 31" "0 \<le> clip"
  shows "0 \<le> fst (clip_scaled src dst clip)" "fst (clip_scaled src dst clip) \<le> src"
    "snd (clip_scaled src dst clip) = (if dst = 0 then clip else min clip dst)"
proof -
  define c t where "c = min clip dst" and "t = src * (dst - c)"
  have t: "t \<le> src * dst" "0 \<le> t"
    using assms by (auto simp: c_def t_def mult_left_mono)
  have eq: "clip_scaled src dst clip =
      (if src < dst * 2 ^ 16 then (t + dst - 1) div dst else t div dst, c)" if "dst \<noteq> 0"
    using assms that by (simp add: clip_scaled_eq Let_def c_def t_def)
  have z: "clip_scaled src 0 clip = (0, clip)" by (simp add: clip_scaled_def)
  show "0 \<le> fst (clip_scaled src dst clip)"
    using assms t eq z by (cases "dst = 0") (auto simp: pos_imp_zdiv_nonneg_iff)
  show "fst (clip_scaled src dst clip) \<le> src"
    using assms t eq z floor_div_le [of dst t src] ceil_div_le [of dst t src]
    by (cases "dst = 0") auto
  show "snd (clip_scaled src dst clip) = (if dst = 0 then clip else min clip dst)"
    using eq z by (simp add: c_def)
qed

lemma clip_axis:
  assumes d: "0 \<le> d2 - d1" "d2 - d1 < 2 ^ 15" and s: "0 \<le> s2 - s1" "s2 - s1 < 2 ^ 31"
    and c: "c1 \<le> c2"
    and lo: "clip_lo s1 s2 d1 d2 c1 = (s1', d1')" and hi: "clip_hi s1' s2 d1' d2 c2 = (s2', d2')"
  shows "s1 \<le> s1'" "s1' \<le> s2'" "s2' \<le> s2" "d1 \<le> d1'" "d2' \<le> d2" "min d1 c2 \<le> d2'" "d1' \<le> max d1 c1"
    "0 < d2' - d1' \<longleftrightarrow> max d1 c1 < min d2 c2"
    "0 < d2' - d1' \<Longrightarrow> d1' = max d1 c1 \<and> d2' = min d2 c2"
proof -
  note b = clip_scaled_bounds
  have L: "s1 \<le> s1'" "s1' \<le> s2" "d1 \<le> d1'" "d1' \<le> max d1 c1"
    "d1' = (if d1 = d2 then max d1 c1 else min (max d1 c1) d2)"
    using lo d s b [of "d2 - d1" "s2 - s1" "c1 - d1"]
    by (auto simp: clip_lo_def split: prod.splits if_splits)
  have H: "s1' \<le> s2'" "s2' \<le> s2" "d2' \<le> d2"
    "d2' = (if d2 \<le> c2 then d2 else if d1' = d2 then c2 else max c2 d1')"
    using hi d s c L b [of "d2 - d1'" "s2 - s1'" "d2 - c2"]
    by (auto simp: clip_hi_def split: prod.splits if_splits)
  show "s1 \<le> s1'" "s1' \<le> s2'" "s2' \<le> s2" "d1 \<le> d1'" "d2' \<le> d2" "min d1 c2 \<le> d2'"
      "d1' \<le> max d1 c1"
    using L H d c by (auto split: if_splits)
  show "0 < d2' - d1' \<longleftrightarrow> max d1 c1 < min d2 c2"
    using L(5) H(4) d c by (auto split: if_splits)
  show "0 < d2' - d1' \<Longrightarrow> d1' = max d1 c1 \<and> d2' = min d2 c2"
    using L(5) H(4) d c by (auto split: if_splits)
qed

lemma clip_axis_unscaled:
  assumes d: "0 \<le> d2 - d1" "d2 - d1 < 2 ^ 15" and s: "s2 - s1 = (d2 - d1) * 2 ^ 16"
    and c: "c1 \<le> c2"
    and lo: "clip_lo s1 s2 d1 d2 c1 = (s1', d1')" and hi: "clip_hi s1' s2 d1' d2 c2 = (s2', d2')"
    and vis: "0 < d2' - d1'"
  shows "s1' = s1 + (d1' - d1) * 2 ^ 16" "s2' = s2 - (d2 - d2') * 2 ^ 16"
proof -
  have s31: "0 \<le> s2 - s1" "s2 - s1 < 2 ^ 31" using d s by auto
  note ax = clip_axis [OF d s31 c lo hi]
  have v: "d1' = max d1 c1" "d2' = min d2 c2" "max d1 c1 < min d2 c2"
    using ax(8,9) vis by auto
  then have w: "0 < d2 - d1" "c1 - d1 < d2 - d1" by auto
  show 1: "s1' = s1 + (d1' - d1) * 2 ^ 16"
  proof (cases "0 < c1 - d1")
    case True
    then have "(s1', d1') = (s2 - (d2 - c1) * 2 ^ 16, c1)"
      using lo w d s clip_scaled_unscaled [of "d2 - d1" "c1 - d1"] by (simp add: clip_lo_def)
    then show ?thesis using s by (simp add: algebra_simps)
  qed (use lo in \<open>simp add: clip_lo_def\<close>)
  have s': "s2 - s1' = (d2 - d1') * 2 ^ 16" using 1 s by (simp add: algebra_simps)
  show "s2' = s2 - (d2 - d2') * 2 ^ 16"
  proof (cases "0 < d2 - c2")
    case True
    then have "clip_scaled (s2 - s1') (d2 - d1') (d2 - c2) = ((c2 - d1') * 2 ^ 16, d2 - c2)"
      using v d s' clip_scaled_unscaled [of "d2 - d1'" "d2 - c2"] by (simp add: min_def split: if_splits)
    then have "(s2', d2') = (s1' + (c2 - d1') * 2 ^ 16, c2)"
      using hi True by (simp add: clip_hi_def)
    then show ?thesis using s' by (simp add: algebra_simps)
  qed (use hi in \<open>simp add: clip_hi_def\<close>)
qed


lemma clip_lo_range:
  assumes "axis_ok s1 s2 d1 d2 c1 c2" "0 < c1 - d1"
  shows "case clip_scaled (s2 - s1) (d2 - d1) (c1 - d1) of (n, c) \<Rightarrow>
    wrap32 (s2 - n) = s2 - n \<and> wrap32 (d1 + c) = d1 + c"
  using assms clip_scaled_bounds [of "d2 - d1" "s2 - s1" "c1 - d1"]
  by (auto simp: axis_ok_def is_s32_def is_s31_def min_def intro!: wrap32_id split: prod.splits if_splits)

lemma clip_hi_range:
  assumes "axis_ok s1 s2 d1 d2 c1 c2" "0 < d2 - c2" "s1 \<le> s1'" "s1' \<le> s2" "d1 \<le> d1'" "d1' \<le> d2"
  shows "case clip_scaled (s2 - s1') (d2 - d1') (d2 - c2) of (n, c) \<Rightarrow>
    wrap32 (s1' + n) = s1' + n \<and> wrap32 (d2 - c) = d2 - c"
  using assms clip_scaled_bounds [of "d2 - d1'" "s2 - s1'" "d2 - c2"]
  by (auto simp: axis_ok_def is_s32_def is_s31_def min_def intro!: wrap32_id split: prod.splits if_splits)

lemma axis_wrap:
  assumes "axis_ok s1 s2 d1 d2 c1 c2"
  shows "wrap32 (s2 - s1) = s2 - s1" "wrap32 (d2 - d1) = d2 - d1"
    "wrap32 (c1 - d1) = c1 - d1" "wrap32 (d2 - c2) = d2 - c2"
  using assms by (auto simp: axis_ok_def is_s32_def is_s31_def intro!: wrap32_id)

lemma axis_mid:
  assumes "axis_ok s1 s2 d1 d2 c1 c2" "clip_lo s1 s2 d1 d2 c1 = (s1', d1')"
  shows "s1 \<le> s1'" "s1' \<le> s2" "d1 \<le> d1'" "d1' \<le> max d1 c1" "0 < d2 - c2 \<Longrightarrow> d1' \<le> d2"
    "wrap32 (s2 - s1') = s2 - s1'" "wrap32 (d2 - d1') = d2 - d1'" "wrap32 (d2 - c2) = d2 - c2"
proof -
  obtain s2' d2' where hi: "clip_hi s1' s2 d1' d2 c2 = (s2', d2')" by fastforce
  note ax = clip_axis [OF _ _ _ _ _ assms(2) hi]
  show s: "s1 \<le> s1'" "s1' \<le> s2" and d: "d1 \<le> d1'" "d1' \<le> max d1 c1"
    using ax assms(1) by (auto simp: axis_ok_def)
  show "0 < d2 - c2 \<Longrightarrow> d1' \<le> d2"
    using assms clip_scaled_bounds [of "d2 - d1" "s2 - s1" "c1 - d1"]
    by (auto simp: axis_ok_def clip_lo_def split: prod.splits if_splits)
  show "wrap32 (s2 - s1') = s2 - s1'" "wrap32 (d2 - d1') = d2 - d1'" "wrap32 (d2 - c2) = d2 - c2"
    using s d assms(1) by (auto simp: axis_ok_def is_s32_def is_s31_def intro!: wrap32_id)
qed

text \<open>The four steps, from the accessors' laws, are the two steps on each axis.\<close>

context rect_laws
begin

lemma clip_left_eq:
  assumes "axis_ok (x1 src) (x2 src) (x1 dst) (x2 dst) (x1 clip) (x2 clip)"
  shows "clip_left h src dst clip =
    (case clip_lo (x1 src) (x2 src) (x1 dst) (x2 dst) (x1 clip) of (s, d) \<Rightarrow>
      (src\<lparr>x1 := s\<rparr>, dst\<lparr>x1 := d\<rparr>))"
  using clip_lo_range [OF assms] axis_wrap [OF assms]
  by (auto simp: clip_left_def clip_lo_def width Let_def split: prod.splits)

lemma clip_top_eq:
  assumes "axis_ok (y1 src) (y2 src) (y1 dst) (y2 dst) (y1 clip) (y2 clip)"
  shows "clip_top h src dst clip =
    (case clip_lo (y1 src) (y2 src) (y1 dst) (y2 dst) (y1 clip) of (s, d) \<Rightarrow>
      (src\<lparr>y1 := s\<rparr>, dst\<lparr>y1 := d\<rparr>))"
  using clip_lo_range [OF assms] axis_wrap [OF assms]
  by (auto simp: clip_top_def clip_lo_def height Let_def split: prod.splits)

lemma clip_right_eq:
  assumes "axis_ok s1 (x2 src) d1 (x2 dst) (x1 clip) (x2 clip)"
    and "clip_lo s1 (x2 src) d1 (x2 dst) (x1 clip) = (x1 src, x1 dst)"
  shows "clip_right h src dst clip =
    (case clip_hi (x1 src) (x2 src) (x1 dst) (x2 dst) (x2 clip) of (s, d) \<Rightarrow>
      (src\<lparr>x2 := s\<rparr>, dst\<lparr>x2 := d\<rparr>))"
proof (cases "0 < x2 dst - x2 clip")
  case True
  note mid = axis_mid [OF assms]
  obtain n c where nc: "clip_scaled (x2 src - x1 src) (x2 dst - x1 dst) (x2 dst - x2 clip) = (n, c)"
    by fastforce
  have "wrap32 (x1 src + n) = x1 src + n \<and> wrap32 (x2 dst - c) = x2 dst - c"
    using clip_hi_range [OF assms(1) True mid(1-3) mid(5) [OF True]] by (simp add: nc)
  with True show ?thesis
    by (simp add: clip_right_def clip_hi_def width mid(6-8) nc)
next
  case False
  then show ?thesis by (simp add: clip_right_def clip_hi_def axis_mid(8) [OF assms])
qed

lemma clip_bottom_eq:
  assumes "axis_ok s1 (y2 src) d1 (y2 dst) (y1 clip) (y2 clip)"
    and "clip_lo s1 (y2 src) d1 (y2 dst) (y1 clip) = (y1 src, y1 dst)"
  shows "clip_bottom h src dst clip =
    (case clip_hi (y1 src) (y2 src) (y1 dst) (y2 dst) (y2 clip) of (s, d) \<Rightarrow>
      (src\<lparr>y2 := s\<rparr>, dst\<lparr>y2 := d\<rparr>))"
proof (cases "0 < y2 dst - y2 clip")
  case True
  note mid = axis_mid [OF assms]
  obtain n c where nc: "clip_scaled (y2 src - y1 src) (y2 dst - y1 dst) (y2 dst - y2 clip) = (n, c)"
    by fastforce
  have "wrap32 (y1 src + n) = y1 src + n \<and> wrap32 (y2 dst - c) = y2 dst - c"
    using clip_hi_range [OF assms(1) True mid(1-3) mid(5) [OF True]] by (simp add: nc)
  with True show ?thesis
    by (simp add: clip_bottom_def clip_hi_def height mid(6-8) nc)
next
  case False
  then show ?thesis by (simp add: clip_bottom_def clip_hi_def axis_mid(8) [OF assms])
qed

lemma clip_scaled_axes:
  assumes "clip_ok src dst clip"
    and "clip_lo (x1 src) (x2 src) (x1 dst) (x2 dst) (x1 clip) = (sx1, dx1)"
    and "clip_hi sx1 (x2 src) dx1 (x2 dst) (x2 clip) = (sx2, dx2)"
    and "clip_lo (y1 src) (y2 src) (y1 dst) (y2 dst) (y1 clip) = (sy1, dy1)"
    and "clip_hi sy1 (y2 src) dy1 (y2 dst) (y2 clip) = (sy2, dy2)"
  shows "drm_rect_clip_scaled h src dst clip =
    (let d = dst\<lparr>x1 := dx1, y1 := dy1, x2 := dx2, y2 := dy2\<rparr>
     in (drm_rect_visible h d, src\<lparr>x1 := sx1, y1 := sy1, x2 := sx2, y2 := sy2\<rparr>, d))"
proof -
  have x: "axis_ok (x1 src) (x2 src) (x1 dst) (x2 dst) (x1 clip) (x2 clip)"
    and y: "axis_ok (y1 src) (y2 src) (y1 dst) (y2 dst) (y1 clip) (y2 clip)"
    using assms(1) by (auto simp: clip_ok_def)
  have 1: "clip_left h src dst clip = (src\<lparr>x1 := sx1\<rparr>, dst\<lparr>x1 := dx1\<rparr>)"
    using clip_left_eq [OF x] assms(2) by simp
  have 2: "clip_top h (src\<lparr>x1 := sx1\<rparr>) (dst\<lparr>x1 := dx1\<rparr>) clip =
      (src\<lparr>x1 := sx1, y1 := sy1\<rparr>, dst\<lparr>x1 := dx1, y1 := dy1\<rparr>)"
    using clip_top_eq [of "src\<lparr>x1 := sx1\<rparr>" "dst\<lparr>x1 := dx1\<rparr>" clip] y assms(4) by simp
  have 3: "clip_right h (src\<lparr>x1 := sx1, y1 := sy1\<rparr>) (dst\<lparr>x1 := dx1, y1 := dy1\<rparr>) clip =
      (src\<lparr>x1 := sx1, y1 := sy1, x2 := sx2\<rparr>, dst\<lparr>x1 := dx1, y1 := dy1, x2 := dx2\<rparr>)"
    using clip_right_eq [of "x1 src" "src\<lparr>x1 := sx1, y1 := sy1\<rparr>" "x1 dst"
        "dst\<lparr>x1 := dx1, y1 := dy1\<rparr>" clip] x assms(2,3) by simp
  have 4: "clip_bottom h (src\<lparr>x1 := sx1, y1 := sy1, x2 := sx2\<rparr>)
        (dst\<lparr>x1 := dx1, y1 := dy1, x2 := dx2\<rparr>) clip =
      (src\<lparr>x1 := sx1, y1 := sy1, x2 := sx2, y2 := sy2\<rparr>,
       dst\<lparr>x1 := dx1, y1 := dy1, x2 := dx2, y2 := dy2\<rparr>)"
    using clip_bottom_eq [of "y1 src" "src\<lparr>x1 := sx1, y1 := sy1, x2 := sx2\<rparr>" "y1 dst"
        "dst\<lparr>x1 := dx1, y1 := dy1, x2 := dx2\<rparr>" clip] y assms(4,5) by simp
  show ?thesis by (simp add: drm_rect_clip_scaled_def 1 2 3 4 Let_def)
qed

lemma clip_scaled_correct:
  assumes ok: "clip_ok src dst clip"
    and cs: "drm_rect_clip_scaled h src dst clip = (vis, src', dst')"
  shows "vis = fst (drm_rect_intersect h dst clip)"
    and "vis \<Longrightarrow> dst' = snd (drm_rect_intersect h dst clip)"
    and "x1 src \<le> x1 src'" "x1 src' \<le> x2 src'" "x2 src' \<le> x2 src"
    and "y1 src \<le> y1 src'" "y1 src' \<le> y2 src'" "y2 src' \<le> y2 src"
    and "vis \<Longrightarrow> x2 src - x1 src = (x2 dst - x1 dst) * 2 ^ 16 \<Longrightarrow>
      x1 src' = x1 src + (x1 dst' - x1 dst) * 2 ^ 16 \<and>
      x2 src' = x2 src - (x2 dst - x2 dst') * 2 ^ 16"
    and "vis \<Longrightarrow> y2 src - y1 src = (y2 dst - y1 dst) * 2 ^ 16 \<Longrightarrow>
      y1 src' = y1 src + (y1 dst' - y1 dst) * 2 ^ 16 \<and>
      y2 src' = y2 src - (y2 dst - y2 dst') * 2 ^ 16"
proof -
  obtain sx1 dx1 where lx: "clip_lo (x1 src) (x2 src) (x1 dst) (x2 dst) (x1 clip) = (sx1, dx1)"
    by fastforce
  obtain sx2 dx2 where hx: "clip_hi sx1 (x2 src) dx1 (x2 dst) (x2 clip) = (sx2, dx2)" by fastforce
  obtain sy1 dy1 where ly: "clip_lo (y1 src) (y2 src) (y1 dst) (y2 dst) (y1 clip) = (sy1, dy1)"
    by fastforce
  obtain sy2 dy2 where hy: "clip_hi sy1 (y2 src) dy1 (y2 dst) (y2 clip) = (sy2, dy2)" by fastforce
  have d': "dst' = dst\<lparr>x1 := dx1, y1 := dy1, x2 := dx2, y2 := dy2\<rparr>"
    and s': "src' = src\<lparr>x1 := sx1, y1 := sy1, x2 := sx2, y2 := sy2\<rparr>"
    and v: "vis = drm_rect_visible h dst'"
    using cs clip_scaled_axes [OF ok lx hx ly hy] by (auto simp: Let_def)
  have x: "0 \<le> x2 dst - x1 dst" "x2 dst - x1 dst < 2 ^ 15" "0 \<le> x2 src - x1 src"
      "x2 src - x1 src < 2 ^ 31" "x1 clip \<le> x2 clip"
    and y: "0 \<le> y2 dst - y1 dst" "y2 dst - y1 dst < 2 ^ 15" "0 \<le> y2 src - y1 src"
      "y2 src - y1 src < 2 ^ 31" "y1 clip \<le> y2 clip"
    using ok by (auto simp: clip_ok_def axis_ok_def)
  note ax = clip_axis [OF x lx hx] and ay = clip_axis [OF y ly hy]
  have wx: "wrap32 (dx2 - dx1) = dx2 - dx1" and wy: "wrap32 (dy2 - dy1) = dy2 - dy1"
    using ok ax(4-7) ay(4-7)
    by (auto simp: clip_ok_def axis_ok_def is_s32_def is_s31_def max_def min_def
        intro!: wrap32_id split: if_splits)
  have mx: "wrap32 (min (x2 dst) (x2 clip) - max (x1 dst) (x1 clip)) =
      min (x2 dst) (x2 clip) - max (x1 dst) (x1 clip)"
    and my: "wrap32 (min (y2 dst) (y2 clip) - max (y1 dst) (y1 clip)) =
      min (y2 dst) (y2 clip) - max (y1 dst) (y1 clip)"
    using ok by (auto simp: clip_ok_def axis_ok_def is_s32_def is_s31_def max_def min_def
        intro!: wrap32_id)
  have V: "vis \<longleftrightarrow> 0 < dx2 - dx1 \<and> 0 < dy2 - dy1"
    by (simp add: v d' visible width height wx wy)
  show "vis = fst (drm_rect_intersect h dst clip)"
    using V ax(8) ay(8) by (simp add: drm_rect_intersect_def visible width height mx my)
  show "vis \<Longrightarrow> dst' = snd (drm_rect_intersect h dst clip)"
    using V ax(9) ay(9) by (simp add: drm_rect_intersect_def d' Let_def)
  show "x1 src \<le> x1 src'" "x1 src' \<le> x2 src'" "x2 src' \<le> x2 src"
    "y1 src \<le> y1 src'" "y1 src' \<le> y2 src'" "y2 src' \<le> y2 src"
    using ax(1-3) ay(1-3) by (simp_all add: s')
  show "vis \<Longrightarrow> x2 src - x1 src = (x2 dst - x1 dst) * 2 ^ 16 \<Longrightarrow>
      x1 src' = x1 src + (x1 dst' - x1 dst) * 2 ^ 16 \<and>
      x2 src' = x2 src - (x2 dst - x2 dst') * 2 ^ 16"
    using V clip_axis_unscaled [OF x(1,2) _ x(5) lx hx] by (simp add: s' d')
  show "vis \<Longrightarrow> y2 src - y1 src = (y2 dst - y1 dst) * 2 ^ 16 \<Longrightarrow>
      y1 src' = y1 src + (y1 dst' - y1 dst) * 2 ^ 16 \<and>
      y2 src' = y2 src - (y2 dst - y2 dst') * 2 ^ 16"
    using V clip_axis_unscaled [OF y(1,2) _ y(5) ly hy] by (simp add: s' d')
qed

end

lemma c_div_one_to_one:
  assumes "c_div n d = 2 ^ 16" "0 < d"
  shows "0 \<le> n" "n div d = 2 ^ 16" "d * 2 ^ 16 \<le> n"
proof -
  have "\<not> n < 0"
  proof
    assume "n < 0"
    then have "0 \<le> (- n) div d" using assms(2) by (simp add: pos_imp_zdiv_nonneg_iff)
    with \<open>n < 0\<close> assms show False by (simp add: c_div_def)
  qed
  then show n: "0 \<le> n" by simp
  with assms show q: "n div d = 2 ^ 16" by (simp add: c_div_def)
  have "d * (n div d) \<le> n" using mult_div_mod_eq [of d n] pos_mod_sign [OF assms(2), of n] by linarith
  then show "d * 2 ^ 16 \<le> n" unfolding q .
qed

lemma drm_calc_scale_unscaled:
  assumes "is_s32 src" "is_s32 dst" "drm_calc_scale src dst = 2 ^ 16"
  shows "0 < dst" "dst < 2 ^ 15" "src = dst * 2 ^ 16"
proof -
  have r: "0 \<le> src" "0 < dst" "src < 2 ^ 31" "dst < 2 ^ 31"
    using assms by (auto simp: drm_calc_scale_def EINVAL_def is_s32_def split: if_splits)
  define n where "n = (if src > wrap32 (dst * 2 ^ 16) then wrap32 (wrap32 (src + dst) - 1) else src)"
  have nd: "c_div n dst = 2 ^ 16"
    using assms r by (auto simp: drm_calc_scale_def n_def split: if_splits)
  note q = c_div_one_to_one [OF nd r(2)]
  have "n < 2 ^ 31"
    using wrap32_range [of "wrap32 (src + dst) - 1"] assms(1) by (auto simp: n_def is_s32_def)
  with q(3) have small: "dst < 2 ^ 15" by simp
  show "0 < dst" "dst < 2 ^ 15" using r small by auto
  have w: "wrap32 (dst * 2 ^ 16) = dst * 2 ^ 16"
    using r small by (auto simp: is_s32_def intro!: wrap32_id)
  show "src = dst * 2 ^ 16"
  proof (cases "src > dst * 2 ^ 16")
    case False
    with q(3) show ?thesis unfolding n_def w by simp
  next
    case True
    then have n: "n = wrap32 (src + dst - 1)" unfolding n_def w by (simp add: wrap32_wrap_diff)
    have "n = src + dst - 1"
    proof (rule ccontr)
      assume "n \<noteq> src + dst - 1"
      then have "\<not> is_s32 (src + dst - 1)" using n wrap32_id by metis
      then have "2 ^ 31 \<le> src + dst - 1" using r by (auto simp: is_s32_def)
      then have "n = src + dst - 1 - 2 ^ 32" unfolding n using r by (intro wrap32_high) auto
      with q(1) r show False by simp
    qed
    with True have "(2 ^ 16 + 1) * dst \<le> n" by simp
    then have "2 ^ 16 + 1 \<le> n div dst" using r(2) by (intro floor_div_ge)
    with q(2) show ?thesis by simp
  qed
qed

section \<open>Properties\<close>

text \<open>C12: applying \<open>drm_rect_rotate\<close> and then \<open>drm_rect_rotate_inv\<close> with the same coordinate space
  and rotation gives back the original rectangle, for every angle, every combination of
  reflections and every rectangle of C ints, also where the intermediate coordinates wrap.\<close>

theorem drm_rect_rotate_inv_rotate:
  assumes "rect_s32 r"
  shows "drm_rect_rotate_inv (drm_rect_rotate r width height rotation) width height rotation = r"
proof -
  let ?t = "drm_rect_reflect r width height rotation"
  have s: "rect_s32 ?t" using assms by (rule reflect_s32)
  have "drm_rect_rotate_inv (drm_rect_rotate r width height rotation) width height rotation =
      drm_rect_reflect ?t width height rotation"
    using s by (simp add: drm_rect_rotate_inv_def drm_rect_rotate_def Let_def wrap32_mirror
        rect_s32_def split: rotate_angle.split)
  then show ?thesis using assms by (simp add: reflect_reflect)
qed

theorem drm_rect_rotate_inv_rotate_witness:
  "drm_rect_rotate_inv (drm_rect_rotate \<lparr>x1 = 1, y1 = 2, x2 = 30, y2 = 40\<rparr> 100 200
     \<lparr>rot_angle = DRM_MODE_ROTATE_90, reflect_x = True, reflect_y = False\<rparr>) 100 200
     \<lparr>rot_angle = DRM_MODE_ROTATE_90, reflect_x = True, reflect_y = False\<rparr> =
   \<lparr>x1 = 1, y1 = 2, x2 = 30, y2 = 40\<rparr>"
  by (rule drm_rect_rotate_inv_rotate) (simp add: rect_s32_def is_s32_def)

text \<open>C2: within range, \<open>drm_rect_clip_scaled\<close> leaves the destination visible exactly when it
  intersects the clip rectangle, and then the clipped destination is that intersection; the clipped source always
  lies inside the source.\<close>

theorem drm_rect_clip_scaled_intersect:
  assumes "rect_laws h" "clip_ok src dst clip"
    and "drm_rect_clip_scaled h src dst clip = (vis, src', dst')"
  shows "vis = fst (drm_rect_intersect h dst clip) \<and>
    (vis \<longrightarrow> dst' = snd (drm_rect_intersect h dst clip)) \<and>
    x1 src \<le> x1 src' \<and> x1 src' \<le> x2 src' \<and> x2 src' \<le> x2 src \<and>
    y1 src \<le> y1 src' \<and> y1 src' \<le> y2 src' \<and> y2 src' \<le> y2 src"
  using rect_laws.clip_scaled_correct(1-8) [OF assms] by blast

theorem drm_rect_clip_scaled_intersect_witness:
  "drm_rect_clip_scaled rect_h \<lparr>x1 = 0, y1 = 0, x2 = 6553600, y2 = 6553600\<rparr>
       \<lparr>x1 = -10, y1 = 0, x2 = 40, y2 = 50\<rparr> \<lparr>x1 = 0, y1 = 0, x2 = 30, y2 = 60\<rparr> =
     (True, \<lparr>x1 = 1310720, y1 = 0, x2 = 5242880, y2 = 6553600\<rparr>,
      \<lparr>x1 = 0, y1 = 0, x2 = 30, y2 = 50\<rparr>) \<and>
   True = fst (drm_rect_intersect rect_h \<lparr>x1 = -10, y1 = 0, x2 = 40, y2 = 50\<rparr>
     \<lparr>x1 = 0, y1 = 0, x2 = 30, y2 = 60\<rparr>)"
proof -
  have e: "drm_rect_clip_scaled rect_h \<lparr>x1 = 0, y1 = 0, x2 = 6553600, y2 = 6553600\<rparr>
       \<lparr>x1 = -10, y1 = 0, x2 = 40, y2 = 50\<rparr> \<lparr>x1 = 0, y1 = 0, x2 = 30, y2 = 60\<rparr> =
     (True, \<lparr>x1 = 1310720, y1 = 0, x2 = 5242880, y2 = 6553600\<rparr>,
      \<lparr>x1 = 0, y1 = 0, x2 = 30, y2 = 50\<rparr>)"
    by code_simp
  have ok: "clip_ok \<lparr>x1 = 0, y1 = 0, x2 = 6553600, y2 = 6553600\<rparr>
       \<lparr>x1 = -10, y1 = 0, x2 = 40, y2 = 50\<rparr> \<lparr>x1 = 0, y1 = 0, x2 = 30, y2 = 60\<rparr>"
    by code_simp
  show ?thesis
    using e drm_rect_clip_scaled_intersect [OF rect_h.rect_laws_axioms ok e] by blast
qed

text \<open>an unscaled source (exactly 65536 fixed-point units per destination pixel) is clipped by
  exactly the amount the destination is clipped on each side, so that the picture does not shift or
  rescale.\<close>

theorem drm_rect_clip_scaled_unscaled:
  assumes "rect_laws h" "clip_ok src dst clip"
    and "drm_rect_clip_scaled h src dst clip = (True, src', dst')"
    and "x2 src - x1 src = (x2 dst - x1 dst) * 2 ^ 16"
    and "y2 src - y1 src = (y2 dst - y1 dst) * 2 ^ 16"
  shows "x1 src' - x1 src = (x1 dst' - x1 dst) * 2 ^ 16 \<and>
    x2 src - x2 src' = (x2 dst - x2 dst') * 2 ^ 16 \<and>
    y1 src' - y1 src = (y1 dst' - y1 dst) * 2 ^ 16 \<and>
    y2 src - y2 src' = (y2 dst - y2 dst') * 2 ^ 16"
  using rect_laws.clip_scaled_correct(9,10) [OF assms(1-3)] assms(4,5) by simp

theorem drm_rect_clip_scaled_unscaled_witness:
  "drm_rect_clip_scaled rect_h \<lparr>x1 = 0, y1 = 0, x2 = 3276800, y2 = 3276800\<rparr>
       \<lparr>x1 = -10, y1 = 0, x2 = 40, y2 = 50\<rparr> \<lparr>x1 = 0, y1 = 0, x2 = 30, y2 = 60\<rparr> =
     (True, \<lparr>x1 = 655360, y1 = 0, x2 = 2621440, y2 = 3276800\<rparr>,
      \<lparr>x1 = 0, y1 = 0, x2 = 30, y2 = 50\<rparr>) \<and> (655360::int) - 0 = (0 - (-10)) * 2 ^ 16"
proof -
  have e: "drm_rect_clip_scaled rect_h \<lparr>x1 = 0, y1 = 0, x2 = 3276800, y2 = 3276800\<rparr>
       \<lparr>x1 = -10, y1 = 0, x2 = 40, y2 = 50\<rparr> \<lparr>x1 = 0, y1 = 0, x2 = 30, y2 = 60\<rparr> =
     (True, \<lparr>x1 = 655360, y1 = 0, x2 = 2621440, y2 = 3276800\<rparr>,
      \<lparr>x1 = 0, y1 = 0, x2 = 30, y2 = 50\<rparr>)"
    by code_simp
  have ok: "clip_ok \<lparr>x1 = 0, y1 = 0, x2 = 3276800, y2 = 3276800\<rparr>
       \<lparr>x1 = -10, y1 = 0, x2 = 40, y2 = 50\<rparr> \<lparr>x1 = 0, y1 = 0, x2 = 30, y2 = 60\<rparr>"
    by code_simp
  show ?thesis
    using e drm_rect_clip_scaled_unscaled [OF rect_h.rect_laws_axioms ok e] by simp
qed

end
