(* ===== verification/Drm_Modes.thy ===== *)
theory Drm_Modes
  imports Kernel_Prelude
begin

text \<open>
  The display modes of \<open>drm/drm_modes.c\<close> as far as the drivers use them: the mode itself,
  \<open>drm_mode_set_crtcinfo\<close>, which derives the hardware timings from the user timings,
  \<open>drm_mode_copy\<close>, \<open>drm_mode_init\<close> and \<open>drm_mode_get_hv_timing\<close>.

  Timings are 16-bit words and wrap as in C, clocks are C ints in kHz. Flag words are sets of the
  symbolic flags the code tests and of numbered other ones; the stereo layout, a multi-bit field of the flag word, is a field of its own.
  The header constant \<open>CRTC_STEREO_DOUBLE_ONLY\<close> is an argument.
\<close>

section \<open>Division\<close>

text \<open>\<open>DIV_ROUND_CLOSEST_ULL\<close>: the divisor is narrowed to 32 bits by \<open>do_div\<close>.\<close>

definition DIV_ROUND_CLOSEST_ULL :: "u64 \<Rightarrow> int \<Rightarrow> u64" where
  "DIV_ROUND_CLOSEST_ULL x d = (x + word_of_int (c_div d 2)) div ucast (word_of_int d :: u32)"

section \<open>Data\<close>

datatype mode_flag = DRM_MODE_FLAG_PHSYNC | DRM_MODE_FLAG_NHSYNC | DRM_MODE_FLAG_PVSYNC
  | DRM_MODE_FLAG_NVSYNC | DRM_MODE_FLAG_INTERLACE | DRM_MODE_FLAG_DBLSCAN | DRM_MODE_FLAG_other nat

datatype stereo_layout = DRM_MODE_FLAG_3D_NONE | DRM_MODE_FLAG_3D_FRAME_PACKING
  | DRM_MODE_FLAG_3D_OTHER nat

datatype crtc_adjust = CRTC_INTERLACE_HALVE_V | CRTC_STEREO_DOUBLE | CRTC_NO_DBLSCAN | CRTC_NO_VSCAN

record drm_display_mode =
  clock :: int
  hdisplay :: u16
  hsync_start :: u16
  hsync_end :: u16
  htotal :: u16
  hskew :: u16
  vdisplay :: u16
  vsync_start :: u16
  vsync_end :: u16
  vtotal :: u16
  vscan :: u16
  flags :: "mode_flag set"
  stereo :: stereo_layout
  crtc_clock :: int
  crtc_hdisplay :: u16
  crtc_hblank_start :: u16
  crtc_hblank_end :: u16
  crtc_hsync_start :: u16
  crtc_hsync_end :: u16
  crtc_htotal :: u16
  crtc_hskew :: u16
  crtc_vdisplay :: u16
  crtc_vblank_start :: u16
  crtc_vblank_end :: u16
  crtc_vsync_start :: u16
  crtc_vsync_end :: u16
  crtc_vtotal :: u16

text \<open>The verdict on a mode, and the limits of a device.\<close>

datatype drm_mode_status = MODE_OK | MODE_BAD_HVALUE | MODE_BAD_VVALUE | MODE_CLOCK_RANGE | MODE_CLOCK_HIGH
  | MODE_NO_INTERLACE | MODE_H_ILLEGAL | MODE_V_ILLEGAL | MODE_CLOCK_LOW | MODE_VIRTUAL_X | MODE_VIRTUAL_Y
  | MODE_NO_DBLESCAN | MODE_NO_STEREO | MODE_NO_420 | MODE_STALE | MODE_BAD | MODE_ERROR

record mode_config =
  min_width :: int
  min_height :: int
  max_width :: int
  max_height :: int
  cursor_width :: u32
  cursor_height :: u32
  preferred_depth :: u32

text \<open>Timings that fit the fields: the totals are below $2^{15}$ and bound the other timings.\<close>

definition timing_ok :: "drm_display_mode \<Rightarrow> bool" where
  "timing_ok m \<longleftrightarrow> uint (htotal m) < 2 ^ 15 \<and> uint (vtotal m) < 2 ^ 15 \<and>
     hdisplay m \<le> htotal m \<and> hsync_start m \<le> htotal m \<and> hsync_end m \<le> htotal m \<and>
     vdisplay m \<le> vtotal m \<and> vsync_start m \<le> vtotal m \<and> vsync_end m \<le> vtotal m"

section \<open>Operations\<close>

definition crtcinfo_copy :: "drm_display_mode \<Rightarrow> drm_display_mode" where
  "crtcinfo_copy p = p\<lparr>crtc_clock := clock p, crtc_hdisplay := hdisplay p,
     crtc_hsync_start := hsync_start p, crtc_hsync_end := hsync_end p, crtc_htotal := htotal p,
     crtc_hskew := hskew p, crtc_vdisplay := vdisplay p, crtc_vsync_start := vsync_start p,
     crtc_vsync_end := vsync_end p, crtc_vtotal := vtotal p\<rparr>"

definition scale_vert :: "(u16 \<Rightarrow> u16) \<Rightarrow> drm_display_mode \<Rightarrow> drm_display_mode" where
  "scale_vert f p = p\<lparr>crtc_vdisplay := f (crtc_vdisplay p), crtc_vsync_start := f (crtc_vsync_start p),
     crtc_vsync_end := f (crtc_vsync_end p), crtc_vtotal := f (crtc_vtotal p)\<rparr>"

definition crtcinfo_stereo :: "drm_display_mode \<Rightarrow> drm_display_mode" where
  "crtcinfo_stereo p = (case stereo p of
     DRM_MODE_FLAG_3D_FRAME_PACKING \<Rightarrow>
       p\<lparr>crtc_clock := wrap32 (crtc_clock p * 2), crtc_vdisplay := crtc_vdisplay p + crtc_vtotal p,
         crtc_vsync_start := crtc_vsync_start p + crtc_vtotal p,
         crtc_vsync_end := crtc_vsync_end p + crtc_vtotal p,
         crtc_vtotal := crtc_vtotal p + crtc_vtotal p\<rparr>
   | _ \<Rightarrow> p)"

definition crtcinfo_blank :: "drm_display_mode \<Rightarrow> drm_display_mode" where
  "crtcinfo_blank p = p\<lparr>crtc_vblank_start := min (crtc_vsync_start p) (crtc_vdisplay p),
     crtc_vblank_end := max (crtc_vsync_end p) (crtc_vtotal p),
     crtc_hblank_start := min (crtc_hsync_start p) (crtc_hdisplay p),
     crtc_hblank_end := max (crtc_hsync_end p) (crtc_htotal p)\<rparr>"

definition drm_mode_set_crtcinfo :: "drm_display_mode \<Rightarrow> crtc_adjust set \<Rightarrow> drm_display_mode" where
  "drm_mode_set_crtcinfo p adjust_flags =
     (let p = crtcinfo_copy p;
          p = (if DRM_MODE_FLAG_INTERLACE \<in> flags p \<and> CRTC_INTERLACE_HALVE_V \<in> adjust_flags
               then scale_vert (\<lambda>v. v div 2) p else p);
          p = (if CRTC_NO_DBLSCAN \<notin> adjust_flags \<and> DRM_MODE_FLAG_DBLSCAN \<in> flags p
               then scale_vert (\<lambda>v. v * 2) p else p);
          p = (if CRTC_NO_VSCAN \<notin> adjust_flags \<and> vscan p > 1
               then scale_vert (\<lambda>v. v * vscan p) p else p);
          p = (if CRTC_STEREO_DOUBLE \<in> adjust_flags then crtcinfo_stereo p else p)
      in crtcinfo_blank p)"

text \<open>The list head a mode sits in is not part of the record, so the copy is the whole source.\<close>

definition drm_mode_copy :: "drm_display_mode \<Rightarrow> drm_display_mode \<Rightarrow> drm_display_mode" where
  "drm_mode_copy dst src = src"

definition drm_mode_init :: "drm_display_mode \<Rightarrow> drm_display_mode \<Rightarrow> drm_display_mode" where
  "drm_mode_init dst src = drm_mode_copy dst src"

definition drm_mode_get_hv_timing :: "crtc_adjust set \<Rightarrow> drm_display_mode \<Rightarrow> int \<times> int" where
  "drm_mode_get_hv_timing stereo_double_only mode =
     (let adjusted = drm_mode_set_crtcinfo (drm_mode_init mode mode) stereo_double_only
      in (uint (crtc_hdisplay adjusted), uint (crtc_vdisplay adjusted)))"

section \<open>Lemmas\<close>

lemmas crtcinfo_steps = crtcinfo_copy_def scale_vert_def crtcinfo_stereo_def crtcinfo_blank_def

text \<open>The user timings are inputs only: no adjustment changes them.\<close>

definition user_timings :: "drm_display_mode \<Rightarrow> u16 list \<times> int \<times> mode_flag set" where
  "user_timings p = ([hdisplay p, hsync_start p, hsync_end p, htotal p, vdisplay p, vsync_start p,
     vsync_end p, vtotal p, vscan p], clock p, flags p)"

lemma step_user_timings:
  "user_timings (crtcinfo_copy p) = user_timings p"
  "user_timings (scale_vert f p) = user_timings p"
  "user_timings (crtcinfo_stereo p) = user_timings p"
  "user_timings (crtcinfo_blank p) = user_timings p"
  by (simp_all add: user_timings_def crtcinfo_steps split: stereo_layout.split)

lemma set_crtcinfo_user: "user_timings (drm_mode_set_crtcinfo p a) = user_timings p"
  by (simp add: drm_mode_set_crtcinfo_def step_user_timings Let_def)

lemma step_hdisplay:
  "crtc_hdisplay (crtcinfo_copy p) = hdisplay p"
  "crtc_hdisplay (scale_vert f p) = crtc_hdisplay p"
  "crtc_hdisplay (crtcinfo_stereo p) = crtc_hdisplay p"
  "crtc_hdisplay (crtcinfo_blank p) = crtc_hdisplay p"
  by (simp_all add: crtcinfo_steps split: stereo_layout.split)

lemma set_crtcinfo_hdisplay [simp]: "crtc_hdisplay (drm_mode_set_crtcinfo p a) = hdisplay p"
  by (simp add: drm_mode_set_crtcinfo_def step_hdisplay Let_def)

lemma step_clock:
  "crtc_clock (crtcinfo_copy p) = clock p"
  "crtc_clock (scale_vert f p) = crtc_clock p"
  "crtc_clock (crtcinfo_blank p) = crtc_clock p"
  by (simp_all add: crtcinfo_steps)

lemma set_crtcinfo_plain_clock:
  "CRTC_STEREO_DOUBLE \<notin> a \<Longrightarrow> crtc_clock (drm_mode_set_crtcinfo p a) = clock p"
  by (simp add: drm_mode_set_crtcinfo_def step_clock Let_def)

lemma u16_range: "0 \<le> uint v" "uint v < 65536" for v :: u16
  using uint_lt2p [of v] by auto

lemma hv_timing_range:
  assumes "drm_mode_get_hv_timing s m = (w, vd)"
  shows "0 \<le> w" "w < 65536" "0 \<le> vd" "vd < 65536"
  using assms by (auto simp: drm_mode_get_hv_timing_def Let_def u16_range)

end
