(* ===== verification/Drm_Plane.thy ===== *)
theory Drm_Plane
  imports Drm_Rect Drm_Modes
begin

text \<open>
  Framebuffers, plane states and their checks in the DRM core:
  \<^item> \<open>drm/drm_fourcc.c\<close>: block sizes, bits per pixel and minimum pitch of a format;
  \<^item> \<open>drm/drm_gem_framebuffer_helper.c\<close>, \<open>drm/drm_fb_dma_helper.c\<close>: the buffer object of a plane and the
    bus address scanout starts at;
  \<^item> \<open>drm/drm_plane.c\<close>: \<open>drm_plane_has_format\<close>;
  \<^item> \<open>drm/drm_atomic.c\<close>: \<open>drm_atomic_plane_check\<close>, the core's sanity checks of a plane state;
  \<^item> \<open>drm/drm_atomic_helper.c\<close>: \<open>drm_atomic_helper_check_plane_state\<close>, which every plane of both
    display drivers calls.

  Header inlines and constants the code uses are the fields of \<open>plane_hdr\<close>, an argument; their documented
  meaning is the locale \<open>plane_laws\<close>. Formats are symbolic: the fourcc codes are header constants the
  code only compares.
\<close>

section \<open>Data\<close>

datatype drm_format =
    DRM_FORMAT_XRGB4444 | DRM_FORMAT_XBGR4444 | DRM_FORMAT_RGBX4444 | DRM_FORMAT_BGRX4444
  | DRM_FORMAT_ARGB4444 | DRM_FORMAT_ABGR4444 | DRM_FORMAT_RGBA4444 | DRM_FORMAT_BGRA4444
  | DRM_FORMAT_XRGB1555 | DRM_FORMAT_XBGR1555 | DRM_FORMAT_RGBX5551 | DRM_FORMAT_BGRX5551
  | DRM_FORMAT_ARGB1555 | DRM_FORMAT_ABGR1555 | DRM_FORMAT_RGBA5551 | DRM_FORMAT_BGRA5551
  | DRM_FORMAT_RGB565 | DRM_FORMAT_BGR565
  | DRM_FORMAT_XRGB8888 | DRM_FORMAT_XBGR8888 | DRM_FORMAT_RGBX8888 | DRM_FORMAT_BGRX8888
  | DRM_FORMAT_ARGB8888 | DRM_FORMAT_ABGR8888 | DRM_FORMAT_RGBA8888 | DRM_FORMAT_BGRA8888
  | DRM_FORMAT_ARGB2101010 | DRM_FORMAT_ABGR2101010 | DRM_FORMAT_RGBA1010102
  | DRM_FORMAT_BGRA1010102
  | DRM_FORMAT_YUYV | DRM_FORMAT_UYVY | DRM_FORMAT_YVU420 | DRM_FORMAT_NV12 | DRM_FORMAT_NV16
  | DRM_FORMAT_P010
  | DRM_FORMAT_C1 | DRM_FORMAT_C2 | DRM_FORMAT_C4 | DRM_FORMAT_C8 | DRM_FORMAT_RGB888 | DRM_FORMAT_BGR888
  | DRM_FORMAT_XRGB2101010 | DRM_FORMAT_XBGR2101010 | DRM_FORMAT_RGBX1010102 | DRM_FORMAT_BGRX1010102
  | DRM_FORMAT_other nat

record drm_format_info =
  fi_format :: drm_format
  num_planes :: nat
  char_per_block :: "nat list"
  block_w :: "nat list"
  block_h :: "nat list"
  hsub :: nat
  vsub :: nat

type_synonym dma_obj = u64

record drm_framebuffer =
  fb_id :: nat
  fb_format :: drm_format_info
  fb_modifier :: u64
  fb_width :: u32
  fb_height :: u32
  pitches :: "u32 list"
  offsets :: "u32 list"
  fb_obj :: "dma_obj option list"

record drm_mode_rect =
  mr_x1 :: int
  mr_y1 :: int
  mr_x2 :: int
  mr_y2 :: int

record drm_plane_state =
  crtc :: "nat option"
  fb :: "drm_framebuffer option"
  crtc_x :: int
  crtc_y :: int
  crtc_w :: u32
  crtc_h :: u32
  src_x :: u32
  src_y :: u32
  src_w :: u32
  src_h :: u32
  hotspot_x :: int
  hotspot_y :: int
  alpha :: u16
  pixel_blend_mode :: u16
  rotation :: drm_rotation
  zpos :: u32
  normalized_zpos :: u32
  color_encoding :: u32
  color_range :: u32
  color_pipeline :: "nat option"
  fence :: "nat option"
  commit :: "nat option"
  fb_damage_clips :: "(nat \<times> drm_mode_rect list) option"
  color_mgmt_changed :: bool
  src :: drm_rect
  dst :: drm_rect
  visible :: bool

record drm_crtc_state =
  enable :: bool
  mode :: drm_display_mode

datatype drm_plane_type = DRM_PLANE_TYPE_OVERLAY | DRM_PLANE_TYPE_PRIMARY | DRM_PLANE_TYPE_CURSOR

record drm_plane =
  plane_type :: drm_plane_type
  possible_crtcs :: "nat set"
  format_types :: "drm_format list"
  modifiers :: "u64 list"
  format_mod_supported :: "(drm_format \<Rightarrow> u64 \<Rightarrow> bool) option"

record plane_hdr =
  rect_api :: drm_rect_h
  drm_plane_state_src :: "drm_plane_state \<Rightarrow> drm_rect"
  drm_plane_state_dest :: "drm_plane_state \<Rightarrow> drm_rect"
  CRTC_STEREO_DOUBLE_ONLY :: "crtc_adjust set"

text \<open>\<open>DRM_PLANE_NO_SCALING\<close>: a scale of one in 16.16 fixed point.\<close>

abbreviation DRM_PLANE_NO_SCALING :: int where
  "DRM_PLANE_NO_SCALING \<equiv> 2 ^ 16"

definition ENOSPC :: int where "ENOSPC = 28"

section \<open>Formats\<close>

text \<open>
  A format description holds one entry per plane in each array (entry 0 of \<open>block_w\<close> means one pixel);
  a plane index is checked against \<open>num_planes\<close> before an array is read.
\<close>

definition drm_format_info_block_width :: "drm_format_info option \<Rightarrow> nat \<Rightarrow> nat" where
  "drm_format_info_block_width info plane = (case info of None \<Rightarrow> 0 | Some i \<Rightarrow>
     if plane \<ge> num_planes i then 0 else if block_w i ! plane = 0 then 1 else block_w i ! plane)"

definition drm_format_info_block_height :: "drm_format_info option \<Rightarrow> nat \<Rightarrow> nat" where
  "drm_format_info_block_height info plane = (case info of None \<Rightarrow> 0 | Some i \<Rightarrow>
     if plane \<ge> num_planes i then 0 else if block_h i ! plane = 0 then 1 else block_h i ! plane)"

definition drm_format_info_bpp :: "drm_format_info option \<Rightarrow> nat \<Rightarrow> nat" where
  "drm_format_info_bpp info plane = (case info of None \<Rightarrow> 0 | Some i \<Rightarrow>
     if plane \<ge> num_planes i then 0
     else let block_size = drm_format_info_block_width info plane * drm_format_info_block_height info plane
          in if char_per_block i ! plane * 8 mod block_size \<noteq> 0 then 0
             else char_per_block i ! plane * 8 div block_size)"

definition drm_format_info_min_pitch :: "drm_format_info option \<Rightarrow> nat \<Rightarrow> u32 \<Rightarrow> u64" where
  "drm_format_info_min_pitch info plane buffer_width = (case info of None \<Rightarrow> 0 | Some i \<Rightarrow>
     if plane \<ge> num_planes i then 0
     else let d = drm_format_info_block_width info plane * drm_format_info_block_height info plane
          in of_nat ((unat buffer_width * char_per_block i ! plane + d - 1) div d))"

section \<open>Buffer objects and bus addresses\<close>

definition drm_gem_fb_get_obj :: "drm_framebuffer \<Rightarrow> nat \<Rightarrow> dma_obj option" where
  "drm_gem_fb_get_obj f plane =
     (if plane \<ge> length (fb_obj f) then None
      else case fb_obj f ! plane of None \<Rightarrow> None | Some obj \<Rightarrow> Some obj)"

definition drm_fb_dma_get_gem_obj :: "drm_framebuffer \<Rightarrow> nat \<Rightarrow> dma_obj option" where
  "drm_fb_dma_get_gem_obj f plane =
     (case drm_gem_fb_get_obj f plane of None \<Rightarrow> None | Some gem \<Rightarrow> Some gem)"

definition drm_fb_dma_get_gem_addr :: "drm_framebuffer \<Rightarrow> drm_plane_state \<Rightarrow> nat \<Rightarrow> u64" where
  "drm_fb_dma_get_gem_addr f state plane =
     (let bw = of_nat (drm_format_info_block_width (Some (fb_format f)) plane) :: u32;
          bh = of_nat (drm_format_info_block_height (Some (fb_format f)) plane) :: u32;
          block_size = of_nat (char_per_block (fb_format f) ! plane) :: u32
      in case drm_fb_dma_get_gem_obj f plane of None \<Rightarrow> 0 | Some obj \<Rightarrow>
         let dma_addr = obj + ucast (offsets f ! plane);
             h_div = (if plane > 0 then of_nat (hsub (fb_format f)) else 1) :: u32;
             v_div = (if plane > 0 then of_nat (vsub (fb_format f)) else 1) :: u32;
             sample_x = drop_bit 16 (src_x state) div h_div;
             sample_y = drop_bit 16 (src_y state) div v_div;
             block_start_y = (sample_y div bh) * bh;
             num_hblocks = sample_x div bw;
             dma_addr = dma_addr + ucast (pitches f ! plane * block_start_y)
         in dma_addr + ucast (block_size * num_hblocks))"

section \<open>Checks of a plane state\<close>

definition drm_plane_has_format :: "drm_plane \<Rightarrow> drm_format \<Rightarrow> u64 \<Rightarrow> bool" where
  "drm_plane_has_format plane format modifier =
     (if format \<notin> set (format_types plane) then False
      else case format_mod_supported plane of
             Some f \<Rightarrow> f format modifier
           | None \<Rightarrow> if modifiers plane = [] then True else modifier \<in> set (modifiers plane))"

definition plane_switching_crtc :: "drm_plane_state \<Rightarrow> drm_plane_state \<Rightarrow> bool" where
  "plane_switching_crtc old_plane_state new_plane_state =
     (if crtc old_plane_state = None \<or> crtc new_plane_state = None then False
      else if crtc old_plane_state = crtc new_plane_state then False
      else True)"

definition drm_plane_damage_clips :: "drm_plane_state \<Rightarrow> drm_mode_rect list" where
  "drm_plane_damage_clips st = (case fb_damage_clips st of None \<Rightarrow> [] | Some (_, clips) \<Rightarrow> clips)"

fun damage_clips_ok :: "u32 \<Rightarrow> u32 \<Rightarrow> drm_mode_rect list \<Rightarrow> bool" where
  "damage_clips_ok w h [] = True"
| "damage_clips_ok w h (c # clips) =
     (if mr_x1 c \<ge> mr_x2 c \<or> mr_y1 c \<ge> mr_y2 c \<or> mr_x1 c < 0 \<or> mr_y1 c < 0 \<or>
         to_u32 (mr_x2 c) > uint w \<or> to_u32 (mr_y2 c) > uint h
      then False else damage_clips_ok w h clips)"

definition drm_atomic_plane_check :: "drm_plane \<Rightarrow> drm_plane_state \<Rightarrow> drm_plane_state \<Rightarrow> int" where
  "drm_atomic_plane_check plane old_plane_state st =
     (case (crtc st, fb st) of
        (Some _, None) \<Rightarrow> - EINVAL
      | (None, Some _) \<Rightarrow> - EINVAL
      | (None, None) \<Rightarrow> 0
      | (Some c, Some f) \<Rightarrow>
          if c \<notin> possible_crtcs plane then - EINVAL
          else if \<not> drm_plane_has_format plane (fi_format (fb_format f)) (fb_modifier f) then - EINVAL
          else if uint (crtc_w st) > 2 ^ 31 - 1 \<or>
                  crtc_x st > wrap32 (2 ^ 31 - 1 - wrap32 (uint (crtc_w st))) \<or>
                  uint (crtc_h st) > 2 ^ 31 - 1 \<or>
                  crtc_y st > wrap32 (2 ^ 31 - 1 - wrap32 (uint (crtc_h st))) then - ERANGE
          else
            let fbw = push_bit 16 (fb_width f);
                fbh = push_bit 16 (fb_height f)
            in if src_w st > fbw \<or> src_x st > fbw - src_w st \<or>
                  src_h st > fbh \<or> src_y st > fbh - src_h st then - ENOSPC
               else if \<not> damage_clips_ok fbw fbh (drm_plane_damage_clips st) then - EINVAL
               else if plane_switching_crtc old_plane_state st then - EINVAL
               else 0)"

definition drm_atomic_helper_check_plane_state ::
    "plane_hdr \<Rightarrow> drm_plane_state \<Rightarrow> drm_crtc_state \<Rightarrow> int \<Rightarrow> int \<Rightarrow> bool \<Rightarrow> bool \<Rightarrow>
     int \<times> drm_plane_state" where
  "drm_atomic_helper_check_plane_state hdr st crtc_state min_scale max_scale can_position
     can_update_disabled =
     (let h = rect_api hdr;
          rot = rotation st;
          st = st\<lparr>src := drm_plane_state_src hdr st, dst := drm_plane_state_dest hdr st\<rparr>
      in case fb st of
           None \<Rightarrow> (0, st\<lparr>visible := False\<rparr>)
         | Some f \<Rightarrow>
           if crtc st = None then (0, st\<lparr>visible := False\<rparr>)
           else if \<not> enable crtc_state \<and> \<not> can_update_disabled then (- EINVAL, st)
           else
             let fbw = wrap32 (uint (push_bit 16 (fb_width f)));
                 fbh = wrap32 (uint (push_bit 16 (fb_height f)));
                 st = st\<lparr>src := drm_rect_rotate (src st) fbw fbh rot\<rparr>;
                 hscale = drm_rect_calc_hscale h (src st) (dst st) min_scale max_scale;
                 vscale = drm_rect_calc_vscale h (src st) (dst st) min_scale max_scale
             in if hscale < 0 \<or> vscale < 0 then (- ERANGE, st)
                else
                  let (cx, cy) = (if enable crtc_state
                        then drm_mode_get_hv_timing (CRTC_STEREO_DOUBLE_ONLY hdr) (mode crtc_state)
                        else (0, 0));
                      clip = \<lparr>x1 = 0, y1 = 0, x2 = cx, y2 = cy\<rparr>;
                      (vis, s, d) = drm_rect_clip_scaled h (src st) (dst st) clip;
                      st = st\<lparr>visible := vis, dst := d, src := drm_rect_rotate_inv s fbw fbh rot\<rparr>
                  in if \<not> vis then (0, st)
                     else if \<not> can_position \<and> \<not> drm_rect_equals h (dst st) clip then (- EINVAL, st)
                     else (0, st))"

section \<open>The header's inlines\<close>

locale plane_laws =
  fixes hdr :: plane_hdr
  assumes rect: "rect_laws (rect_api hdr)"
    and state_src: "drm_plane_state_src hdr st =
      \<lparr>x1 = wrap32 (uint (src_x st)), y1 = wrap32 (uint (src_y st)),
       x2 = wrap32 (uint (src_x st + src_w st)), y2 = wrap32 (uint (src_y st + src_h st))\<rparr>"
    and state_dest: "drm_plane_state_dest hdr st =
      \<lparr>x1 = crtc_x st, y1 = crtc_y st,
       x2 = wrap32 (crtc_x st + uint (crtc_w st)), y2 = wrap32 (crtc_y st + uint (crtc_h st))\<rparr>"

definition plane_hdr_c :: plane_hdr where
  "plane_hdr_c = \<lparr>rect_api = rect_h,
     drm_plane_state_src = (\<lambda>st.
       \<lparr>x1 = wrap32 (uint (src_x st)), y1 = wrap32 (uint (src_y st)),
        x2 = wrap32 (uint (src_x st + src_w st)), y2 = wrap32 (uint (src_y st + src_h st))\<rparr>),
     drm_plane_state_dest = (\<lambda>st. \<lparr>x1 = crtc_x st, y1 = crtc_y st,
       x2 = wrap32 (crtc_x st + uint (crtc_w st)), y2 = wrap32 (crtc_y st + uint (crtc_h st))\<rparr>),
     CRTC_STEREO_DOUBLE_ONLY = {CRTC_STEREO_DOUBLE, CRTC_NO_DBLSCAN, CRTC_NO_VSCAN}\<rparr>"

interpretation hc: plane_laws plane_hdr_c
  by unfold_locales (simp_all add: plane_hdr_c_def rect_h.width rect_h.height rect_h.visible
      rect_h.equals)

section \<open>Boxes and rotation\<close>

text \<open>\<open>in_box w h r\<close>: the rectangle is not inverted and lies within \<open>[0, w] \<times> [0, h]\<close>.\<close>

definition in_box :: "int \<Rightarrow> int \<Rightarrow> drm_rect \<Rightarrow> bool" where
  "in_box w h r \<longleftrightarrow> 0 \<le> x1 r \<and> x1 r \<le> x2 r \<and> x2 r \<le> w \<and> 0 \<le> y1 r \<and> y1 r \<le> y2 r \<and> y2 r \<le> h"

text \<open>The space a rotation maps the \<open>w\<close> by \<open>h\<close> space to.\<close>

definition rot_dims :: "drm_rotation \<Rightarrow> int \<Rightarrow> int \<Rightarrow> int \<times> int" where
  "rot_dims rot w h = (case rot_angle rot of
     DRM_MODE_ROTATE_90 \<Rightarrow> (h, w) | DRM_MODE_ROTATE_270 \<Rightarrow> (h, w) | _ \<Rightarrow> (w, h))"

lemma in_box_s32: "in_box w h r \<Longrightarrow> w < 2 ^ 31 \<Longrightarrow> h < 2 ^ 31 \<Longrightarrow> rect_s32 r"
  by (auto simp: in_box_def rect_s32_def is_s32_def)

lemma box_mirror [c_int]: "0 \<le> a \<Longrightarrow> a \<le> w \<Longrightarrow> w < 2 ^ 31 \<Longrightarrow> wrap32 (w - a) = w - a"
  by (intro wrap32_id) (auto simp: is_s32_def)

lemma in_box_reflect:
  "in_box w h r \<Longrightarrow> w < 2 ^ 31 \<Longrightarrow> h < 2 ^ 31 \<Longrightarrow> in_box w h (drm_rect_reflect r w h rot)"
  by (auto simp: in_box_def drm_rect_reflect_def Let_def box_mirror)

lemma in_box_rotate:
  assumes "in_box w h r" "w < 2 ^ 31" "h < 2 ^ 31" "rot_dims rot w h = (w', h')"
  shows "in_box w' h' (drm_rect_rotate r w h rot)"
  using in_box_reflect [OF assms(1-3), of rot] assms(2-4)
  by (auto simp: drm_rect_rotate_def rot_dims_def in_box_def Let_def box_mirror
      split: rotate_angle.splits)

lemma in_box_rotate_inv:
  assumes "in_box w' h' r" "w < 2 ^ 31" "h < 2 ^ 31" "rot_dims rot w h = (w', h')"
  shows "in_box w h (drm_rect_rotate_inv r w h rot)"
  unfolding drm_rect_rotate_inv_def Let_def
  using assms by (intro in_box_reflect)
    (auto simp: rot_dims_def in_box_def box_mirror split: rotate_angle.splits)

section \<open>What the core's check gives\<close>

lemma fb_size_shift:
  assumes "uint w < 2 ^ 15"
  shows "uint (push_bit 16 (w :: u32)) = uint w * 2 ^ 16"
    and "wrap32 (uint (push_bit 16 w)) = uint w * 2 ^ 16"
proof -
  show 1: "uint (push_bit 16 w) = uint w * 2 ^ 16"
    using assms unsigned_push_bit_eq [of 16 w, where 'a = int]
    by (simp only: take_bit_eq_mod push_bit_eq_mult) simp
  show "wrap32 (uint (push_bit 16 w)) = uint w * 2 ^ 16"
  proof -
    have "0 \<le> uint w * 2 ^ 16" "uint w * 2 ^ 16 < 2 ^ 31" using assms by simp_all
    then show ?thesis unfolding 1 by (intro wrap32_id, unfold is_s32_def) linarith
  qed
qed

lemma u32_fits:
  assumes "s \<le> m" "x \<le> m - s" "uint (m :: u32) < 2 ^ 31"
  shows "uint x + uint s \<le> uint m" "wrap32 (uint x) = uint x" "wrap32 (uint (x + s)) = uint x + uint s"
proof -
  have "uint x \<le> uint m - uint s"
    using assms(1,2) by (simp add: word_le_def uint_sub_lem [THEN iffD1])
  then show le: "uint x + uint s \<le> uint m" by simp
  have s: "uint (x + s) = uint x + uint s"
    using le assms(3) by (simp add: uint_add_lem [THEN iffD1])
  show "wrap32 (uint x) = uint x"
    using le assms(3) uint_ge_0 [of s] uint_ge_0 [of x]
    by (intro wrap32_id, unfold is_s32_def) linarith
  show "wrap32 (uint (x + s)) = uint x + uint s"
    unfolding s using le assms(3) uint_ge_0 [of s] uint_ge_0 [of x]
    by (intro wrap32_id, unfold is_s32_def) linarith
qed

lemma plane_check_src:
  assumes "drm_atomic_plane_check plane old st = 0" "crtc st = Some c" "fb st = Some f"
  shows "src_w st \<le> push_bit 16 (fb_width f)" "src_x st \<le> push_bit 16 (fb_width f) - src_w st"
    "src_h st \<le> push_bit 16 (fb_height f)" "src_y st \<le> push_bit 16 (fb_height f) - src_h st"
  using assms by (auto simp: drm_atomic_plane_check_def errno_defs ENOSPC_def Let_def not_less
      split: if_splits)

lemma plane_check_box:
  assumes "plane_laws hdr" "drm_atomic_plane_check plane old st = 0" "crtc st = Some c"
    "fb st = Some f" "uint (fb_width f) < 2 ^ 15" "uint (fb_height f) < 2 ^ 15"
  shows "in_box (uint (fb_width f) * 2 ^ 16) (uint (fb_height f) * 2 ^ 16)
      (drm_plane_state_src hdr st)"
proof -
  note le = plane_check_src [OF assms(2-4)]
  note w = fb_size_shift [OF assms(5)] and h = fb_size_shift [OF assms(6)]
  have "uint (push_bit 16 (fb_width f)) < 2 ^ 31" "uint (push_bit 16 (fb_height f)) < 2 ^ 31"
    using assms(5,6) w(1) h(1) by simp_all
  note x = u32_fits [OF le(1,2) this(1)] and y = u32_fits [OF le(3,4) this(2)]
  show ?thesis
    unfolding plane_laws.state_src [OF assms(1)] in_box_def
    using x y w(1) h(1) by simp
qed

section \<open>What the helper's check gives without scaling\<close>

context rect_laws
begin

lemma hscale_one:
  assumes "0 \<le> drm_rect_calc_hscale h s d DRM_PLANE_NO_SCALING DRM_PLANE_NO_SCALING"
  shows "drm_rect_width h d = 0 \<or> 0 < drm_rect_width h d \<and> drm_rect_width h d < 2 ^ 15 \<and>
    drm_rect_width h s = drm_rect_width h d * 2 ^ 16"
  using assms drm_calc_scale_unscaled [of "drm_rect_width h s" "drm_rect_width h d"]
  by (auto simp: drm_rect_calc_hscale_def Let_def ERANGE_def width wrap32_range split: if_splits)

lemma vscale_one:
  assumes "0 \<le> drm_rect_calc_vscale h s d DRM_PLANE_NO_SCALING DRM_PLANE_NO_SCALING"
  shows "drm_rect_height h d = 0 \<or> 0 < drm_rect_height h d \<and> drm_rect_height h d < 2 ^ 15 \<and>
    drm_rect_height h s = drm_rect_height h d * 2 ^ 16"
  using assms drm_calc_scale_unscaled [of "drm_rect_height h s" "drm_rect_height h d"]
  by (auto simp: drm_rect_calc_vscale_def Let_def ERANGE_def height wrap32_range split: if_splits)

end

text \<open>The range of the display coordinates in which the clip does not wrap.\<close>

definition crtc_range :: "drm_plane_state \<Rightarrow> bool" where
  "crtc_range st \<longleftrightarrow> \<bar>crtc_x st\<bar> < 2 ^ 29 \<and> \<bar>crtc_y st\<bar> < 2 ^ 29"

definition crtc_clip :: "plane_hdr \<Rightarrow> drm_crtc_state \<Rightarrow> drm_rect" where
  "crtc_clip hdr cs = (let (w, h) = if enable cs
       then drm_mode_get_hv_timing (CRTC_STEREO_DOUBLE_ONLY hdr) (mode cs) else (0, 0)
     in \<lparr>x1 = 0, y1 = 0, x2 = w, y2 = h\<rparr>)"

lemma crtc_clip_range:
  "x1 (crtc_clip hdr cs) = 0" "y1 (crtc_clip hdr cs) = 0"
  "0 \<le> x2 (crtc_clip hdr cs)" "x2 (crtc_clip hdr cs) < 65536"
  "0 \<le> y2 (crtc_clip hdr cs)" "y2 (crtc_clip hdr cs) < 65536"
  using hv_timing_range
  by (auto simp: crtc_clip_def Let_def split: prod.split)

lemma dest_extent:
  assumes "uint w \<le> 2 ^ 31 - 1" "\<bar>x\<bar> < 2 ^ 29" "wrap32 (wrap32 (x + uint (w :: u32)) - x) = d"
    "d = 0 \<or> 0 < d \<and> d < 2 ^ 15"
  shows "wrap32 (x + uint w) = x + d" "d = uint w" "is_s31 x" "is_s31 (x + d)"
proof -
  have "wrap32 (wrap32 (x + uint w) - x) = wrap32 (uint w)" by (simp add: wrap32_wrap_diff)
  also have "\<dots> = uint w" using assms(1) uint_ge_0 [of w]
    by (intro wrap32_id, unfold is_s32_def) linarith
  finally show d: "d = uint w" using assms(3) by simp
  show "wrap32 (x + uint w) = x + d"
    unfolding d [symmetric] using assms(2,4) by (intro wrap32_id) (auto simp: is_s32_def)
  show "is_s31 x" "is_s31 (x + d)" using assms(2,4) by (auto simp: is_s31_def)
qed

lemma plane_check_size:
  assumes "drm_atomic_plane_check plane old st = 0" "crtc st = Some c" "fb st = Some f"
  shows "uint (crtc_w st) \<le> 2 ^ 31 - 1" "uint (crtc_h st) \<le> 2 ^ 31 - 1"
  using assms by (auto simp: drm_atomic_plane_check_def errno_defs ENOSPC_def Let_def not_less
      split: if_splits)

text \<open>A successful check that leaves the plane visible passed through every step.\<close>

lemma check_plane_state_visible:
  assumes "drm_atomic_helper_check_plane_state hdr st cs lo hi can_position cud = (0, st')"
    "visible st'"
  obtains f c fbw fbh s1 s' where "fb st = Some f" "crtc st = Some c"
    "fbw = wrap32 (uint (push_bit 16 (fb_width f)))" "fbh = wrap32 (uint (push_bit 16 (fb_height f)))"
    "s1 = drm_rect_rotate (drm_plane_state_src hdr st) fbw fbh (rotation st)"
    "0 \<le> drm_rect_calc_hscale (rect_api hdr) s1 (drm_plane_state_dest hdr st) lo hi"
    "0 \<le> drm_rect_calc_vscale (rect_api hdr) s1 (drm_plane_state_dest hdr st) lo hi"
    "drm_rect_clip_scaled (rect_api hdr) s1 (drm_plane_state_dest hdr st) (crtc_clip hdr cs) =
       (True, s', dst st')"
    "src st' = drm_rect_rotate_inv s' fbw fbh (rotation st)"
    "can_position \<or> drm_rect_equals (rect_api hdr) (dst st') (crtc_clip hdr cs)"
  using assms unfolding drm_atomic_helper_check_plane_state_def crtc_clip_def
  by (auto simp: errno_defs Let_def split: option.splits if_splits prod.splits)

lemma clip_ok_intro:
  assumes hdr: "plane_laws hdr" and chk: "drm_atomic_plane_check plane old st = 0"
    and fc: "fb st = Some f" "crtc st = Some c" and rng: "crtc_range st"
    and box: "in_box w h s" "w < 2 ^ 31" "h < 2 ^ 31"
    and scale: "0 \<le> drm_rect_calc_hscale (rect_api hdr) s (drm_plane_state_dest hdr st)
        DRM_PLANE_NO_SCALING DRM_PLANE_NO_SCALING"
      "0 \<le> drm_rect_calc_vscale (rect_api hdr) s (drm_plane_state_dest hdr st)
        DRM_PLANE_NO_SCALING DRM_PLANE_NO_SCALING"
  shows "clip_ok s (drm_plane_state_dest hdr st) (crtc_clip hdr cs)"
    "drm_plane_state_dest hdr st = \<lparr>x1 = crtc_x st, y1 = crtc_y st,
      x2 = crtc_x st + uint (crtc_w st), y2 = crtc_y st + uint (crtc_h st)\<rparr>"
    "uint (crtc_w st) = 0 \<or> x2 s - x1 s = uint (crtc_w st) * 2 ^ 16"
    "uint (crtc_h st) = 0 \<or> y2 s - y1 s = uint (crtc_h st) * 2 ^ 16"
proof -
  note rl = plane_laws.rect [OF hdr]
  let ?d = "drm_plane_state_dest hdr st" and ?c = "crtc_clip hdr cs"
  note d = plane_laws.state_dest [OF hdr, of st]
  have w: "drm_rect_width (rect_api hdr) ?d = wrap32 (wrap32 (crtc_x st + uint (crtc_w st)) - crtc_x st)"
    and h: "drm_rect_height (rect_api hdr) ?d = wrap32 (wrap32 (crtc_y st + uint (crtc_h st)) - crtc_y st)"
    by (simp_all add: rect_laws.width [OF rl] rect_laws.height [OF rl] d)
  have r: "\<bar>crtc_x st\<bar> < 2 ^ 29" "\<bar>crtc_y st\<bar> < 2 ^ 29" using rng by (auto simp: crtc_range_def)
  note hs = rect_laws.hscale_one [OF rl scale(1)] and vs = rect_laws.vscale_one [OF rl scale(2)]
  note sz = plane_check_size [OF chk fc(2,1)]
  note X = dest_extent [OF sz(1) r(1) w [symmetric]] and Y = dest_extent [OF sz(2) r(2) h [symmetric]]
  have sw: "drm_rect_width (rect_api hdr) s = x2 s - x1 s" "drm_rect_height (rect_api hdr) s = y2 s - y1 s"
    using box by (auto simp: rect_laws.width [OF rl] rect_laws.height [OF rl] in_box_def is_s32_def
        intro!: wrap32_id)
  have s32: "is_s32 (x1 s)" "is_s32 (x2 s)" "is_s32 (y1 s)" "is_s32 (y2 s)"
    using in_box_s32 [OF box] by (simp_all add: rect_s32_def)
  have x: "wrap32 (crtc_x st + uint (crtc_w st)) = crtc_x st + uint (crtc_w st)"
      "is_s31 (crtc_x st)" "is_s31 (crtc_x st + uint (crtc_w st))" "uint (crtc_w st) < 2 ^ 15"
    and y: "wrap32 (crtc_y st + uint (crtc_h st)) = crtc_y st + uint (crtc_h st)"
      "is_s31 (crtc_y st)" "is_s31 (crtc_y st + uint (crtc_h st))" "uint (crtc_h st) < 2 ^ 15"
    using X Y hs vs by auto
  have c31: "is_s31 0" "is_s31 (x2 ?c)" "is_s31 (y2 ?c)"
    using crtc_clip_range [of hdr cs] by (auto simp: is_s31_def)
  show d': "?d = \<lparr>x1 = crtc_x st, y1 = crtc_y st,
      x2 = crtc_x st + uint (crtc_w st), y2 = crtc_y st + uint (crtc_h st)\<rparr>"
    by (simp add: d x y)
  show "clip_ok s ?d ?c"
    unfolding clip_ok_def axis_ok_def d' crtc_clip_range(1,2)
    using s32 x y c31 crtc_clip_range [of hdr cs] box by (simp add: in_box_def)
  show "uint (crtc_w st) = 0 \<or> x2 s - x1 s = uint (crtc_w st) * 2 ^ 16"
    "uint (crtc_h st) = 0 \<or> y2 s - y1 s = uint (crtc_h st) * 2 ^ 16"
    using hs vs X(2) Y(2) sw by auto
qed

lemma in_box_sub:
  "in_box w h s \<Longrightarrow> x1 s \<le> x1 s' \<Longrightarrow> x1 s' \<le> x2 s' \<Longrightarrow> x2 s' \<le> x2 s \<Longrightarrow>
   y1 s \<le> y1 s' \<Longrightarrow> y1 s' \<le> y2 s' \<Longrightarrow> y2 s' \<le> y2 s \<Longrightarrow> in_box w h s'"
  by (auto simp: in_box_def)

lemma clip_visible_nonempty:
  assumes "plane_laws hdr" "clip_ok s d c" "drm_rect_clip_scaled (rect_api hdr) s d c = (True, s', d')"
  shows "0 < x2 d - x1 d" "0 < y2 d - y1 d" "0 < x2 d' - x1 d'" "0 < y2 d' - y1 d'"
proof -
  note rl = plane_laws.rect [OF assms(1)]
  have "fst (drm_rect_intersect (rect_api hdr) d c)"
    using rect_laws.clip_scaled_correct(1) [OF rl assms(2,3)] by simp
  then have "0 < wrap32 (min (x2 d) (x2 c) - max (x1 d) (x1 c))"
    "0 < wrap32 (min (y2 d) (y2 c) - max (y1 d) (y1 c))"
    by (simp_all add: drm_rect_intersect_def Let_def rect_laws.visible [OF rl] rect_laws.width [OF rl]
        rect_laws.height [OF rl])
  moreover have "wrap32 (min (x2 d) (x2 c) - max (x1 d) (x1 c)) = min (x2 d) (x2 c) - max (x1 d) (x1 c)"
    "wrap32 (min (y2 d) (y2 c) - max (y1 d) (y1 c)) = min (y2 d) (y2 c) - max (y1 d) (y1 c)"
    using assms(2) by (auto simp: clip_ok_def axis_ok_def is_s32_def is_s31_def max_def min_def
        intro!: wrap32_id)
  moreover have "d' = snd (drm_rect_intersect (rect_api hdr) d c)"
    using rect_laws.clip_scaled_correct(2) [OF rl assms(2,3)] by simp
  ultimately show "0 < x2 d - x1 d" "0 < y2 d - y1 d" "0 < x2 d' - x1 d'" "0 < y2 d' - y1 d'"
    by (auto simp: drm_rect_intersect_def Let_def)
qed

lemma plane_check_origin:
  assumes "plane_laws hdr" "drm_atomic_plane_check plane old st = 0" "crtc st = Some c"
    "fb st = Some f" "uint (fb_width f) < 2 ^ 15" "uint (fb_height f) < 2 ^ 15"
  shows "x1 (drm_plane_state_src hdr st) = uint (src_x st) \<and>
    y1 (drm_plane_state_src hdr st) = uint (src_y st)"
proof -
  note le = plane_check_src [OF assms(2-4)]
  have "uint (push_bit 16 (fb_width f)) < 2 ^ 31" "uint (push_bit 16 (fb_height f)) < 2 ^ 31"
    using assms(5,6) fb_size_shift(1) [OF assms(5)] fb_size_shift(1) [OF assms(6)] by simp_all
  note x = u32_fits(2) [OF le(1,2) this(1)] and y = u32_fits(2) [OF le(3,4) this(2)]
  show ?thesis by (simp add: plane_laws.state_src [OF assms(1)] x y)
qed

text \<open>
  The assumptions under which the check is exact, and what it then gives: the clipped source, the clipped
  destination and, for an unrotated plane, their exact relation.
\<close>

definition plane_checked :: "plane_hdr \<Rightarrow> drm_plane \<Rightarrow> drm_plane_state \<Rightarrow> drm_plane_state \<Rightarrow>
    drm_crtc_state \<Rightarrow> bool \<Rightarrow> bool \<Rightarrow> drm_framebuffer \<Rightarrow> drm_plane_state \<Rightarrow> bool" where
  "plane_checked hdr plane old st cs can_position cud f st' \<longleftrightarrow>
     drm_atomic_plane_check plane old st = 0 \<and>
     drm_atomic_helper_check_plane_state hdr st cs DRM_PLANE_NO_SCALING DRM_PLANE_NO_SCALING
       can_position cud = (0, st') \<and> visible st' \<and> fb st = Some f \<and>
     uint (fb_width f) < 2 ^ 15 \<and> uint (fb_height f) < 2 ^ 15 \<and> crtc_range st"

lemma checked_clip:
  assumes "plane_laws hdr" "plane_checked hdr plane old st cs can_position cud f st'"
  shows "in_box (uint (fb_width f) * 2 ^ 16) (uint (fb_height f) * 2 ^ 16) (src st')"
    and "dst st' = snd (drm_rect_intersect (rect_api hdr) (drm_plane_state_dest hdr st) (crtc_clip hdr cs))"
    and "can_position \<or> dst st' = crtc_clip hdr cs"
    and "0 < x2 (dst st') - x1 (dst st')" "0 < y2 (dst st') - y1 (dst st')"
proof -
  let ?w = "uint (fb_width f) * 2 ^ 16" and ?h = "uint (fb_height f) * 2 ^ 16"
  have chk: "drm_atomic_plane_check plane old st = 0" and vis: "visible st'" and f: "fb st = Some f"
    and fw: "uint (fb_width f) < 2 ^ 15" and fh: "uint (fb_height f) < 2 ^ 15" and rng: "crtc_range st"
    and chk2: "drm_atomic_helper_check_plane_state hdr st cs DRM_PLANE_NO_SCALING DRM_PLANE_NO_SCALING
      can_position cud = (0, st')"
    using assms(2) by (simp_all only: plane_checked_def)
  note wh = fb_size_shift(2) [OF fw] fb_size_shift(2) [OF fh]
  have lim: "?w < 2 ^ 31" "?h < 2 ^ 31" using fw fh by simp_all
  obtain c s1 s' where c: "crtc st = Some c"
    and s1: "s1 = drm_rect_rotate (drm_plane_state_src hdr st) ?w ?h (rotation st)"
    and sc: "0 \<le> drm_rect_calc_hscale (rect_api hdr) s1 (drm_plane_state_dest hdr st)
          DRM_PLANE_NO_SCALING DRM_PLANE_NO_SCALING"
        "0 \<le> drm_rect_calc_vscale (rect_api hdr) s1 (drm_plane_state_dest hdr st)
          DRM_PLANE_NO_SCALING DRM_PLANE_NO_SCALING"
    and cl: "drm_rect_clip_scaled (rect_api hdr) s1 (drm_plane_state_dest hdr st) (crtc_clip hdr cs) =
       (True, s', dst st')"
    and s': "src st' = drm_rect_rotate_inv s' ?w ?h (rotation st)"
    and pos: "can_position \<or> drm_rect_equals (rect_api hdr) (dst st') (crtc_clip hdr cs)"
    using check_plane_state_visible [OF chk2 vis] f wh by (metis option.inject)
  obtain w' h' where rd: "rot_dims (rotation st) ?w ?h = (w', h')" by fastforce
  then have lim': "w' < 2 ^ 31" "h' < 2 ^ 31" using lim by (auto simp: rot_dims_def split: rotate_angle.splits)
  have b1: "in_box w' h' s1"
    unfolding s1 by (rule in_box_rotate [OF plane_check_box lim rd]) (use assms(1) chk f fw fh c in auto)
  note ok = clip_ok_intro(1) [OF assms(1) chk f c rng b1 lim' sc]
  note cs = rect_laws.clip_scaled_correct [OF plane_laws.rect [OF assms(1)] ok cl]
  show "in_box ?w ?h (src st')"
    unfolding s' by (rule in_box_rotate_inv [OF in_box_sub [OF b1 cs(3-8)] lim rd])
  show "dst st' = snd (drm_rect_intersect (rect_api hdr) (drm_plane_state_dest hdr st) (crtc_clip hdr cs))"
    using cs(2) by simp
  show "can_position \<or> dst st' = crtc_clip hdr cs"
    using pos by (auto simp: rect_laws.equals [OF plane_laws.rect [OF assms(1)]])
  show "0 < x2 (dst st') - x1 (dst st')" "0 < y2 (dst st') - y1 (dst st')"
    using clip_visible_nonempty(3,4) [OF assms(1) ok cl] .
qed

definition rot_0 :: drm_rotation where
  "rot_0 = \<lparr>rot_angle = DRM_MODE_ROTATE_0, reflect_x = False, reflect_y = False\<rparr>"

lemma checked_offset:
  assumes "plane_laws hdr" "plane_checked hdr plane old st cs can_position cud f st'" "rotation st = rot_0"
  shows "src st' = \<lparr>x1 = uint (src_x st) + (x1 (dst st') - crtc_x st) * 2 ^ 16,
    y1 = uint (src_y st) + (y1 (dst st') - crtc_y st) * 2 ^ 16,
    x2 = uint (src_x st) + (x2 (dst st') - crtc_x st) * 2 ^ 16,
    y2 = uint (src_y st) + (y2 (dst st') - crtc_y st) * 2 ^ 16\<rparr>"
    and "drm_plane_state_dest hdr st = \<lparr>x1 = crtc_x st, y1 = crtc_y st,
      x2 = crtc_x st + uint (crtc_w st), y2 = crtc_y st + uint (crtc_h st)\<rparr>"
    and "uint (crtc_w st) < 2 ^ 15" "uint (crtc_h st) < 2 ^ 15"
    and "uint (src_x st) + uint (crtc_w st) * 2 ^ 16 \<le> uint (fb_width f) * 2 ^ 16"
    and "uint (src_y st) + uint (crtc_h st) * 2 ^ 16 \<le> uint (fb_height f) * 2 ^ 16"
proof -
  let ?w = "uint (fb_width f) * 2 ^ 16" and ?h = "uint (fb_height f) * 2 ^ 16"
  let ?s = "drm_plane_state_src hdr st" and ?d = "drm_plane_state_dest hdr st"
  have chk: "drm_atomic_plane_check plane old st = 0" and vis: "visible st'" and f: "fb st = Some f"
    and fw: "uint (fb_width f) < 2 ^ 15" and fh: "uint (fb_height f) < 2 ^ 15" and rng: "crtc_range st"
    and chk2: "drm_atomic_helper_check_plane_state hdr st cs DRM_PLANE_NO_SCALING DRM_PLANE_NO_SCALING
      can_position cud = (0, st')"
    using assms(2) by (simp_all only: plane_checked_def)
  note wh = fb_size_shift(2) [OF fw] fb_size_shift(2) [OF fh]
  have lim: "?w < 2 ^ 31" "?h < 2 ^ 31" using fw fh by simp_all
  have rot: "drm_rect_rotate r a b rot_0 = r" "drm_rect_rotate_inv r a b rot_0 = r" for r a b
    by (simp_all add: rot_0_def drm_rect_rotate_def drm_rect_rotate_inv_def drm_rect_reflect_def)
  obtain c where c: "crtc st = Some c"
    and sc: "0 \<le> drm_rect_calc_hscale (rect_api hdr) ?s ?d DRM_PLANE_NO_SCALING DRM_PLANE_NO_SCALING"
        "0 \<le> drm_rect_calc_vscale (rect_api hdr) ?s ?d DRM_PLANE_NO_SCALING DRM_PLANE_NO_SCALING"
    and cl: "drm_rect_clip_scaled (rect_api hdr) ?s ?d (crtc_clip hdr cs) = (True, src st', dst st')"
    using check_plane_state_visible [OF chk2 vis] f assms(3) wh rot by metis
  have b: "in_box ?w ?h ?s" by (rule plane_check_box [OF assms(1) chk c f fw fh])
  note ok1 = clip_ok_intro(1) [OF assms(1) chk f c rng b lim sc, of cs]
  note ok = clip_ok_intro(2-4) [OF assms(1) chk f c rng b lim sc]
  note cs = rect_laws.clip_scaled_correct [OF plane_laws.rect [OF assms(1)] ok1 cl]
  have pos: "0 < uint (crtc_w st)" "0 < uint (crtc_h st)"
    using clip_visible_nonempty [OF assms(1) ok1 cl] ok(1) by simp_all
  have x: "x2 ?s - x1 ?s = uint (crtc_w st) * 2 ^ 16" "y2 ?s - y1 ?s = uint (crtc_h st) * 2 ^ 16"
    using ok pos by auto
  have o: "x1 ?s = uint (src_x st)" "y1 ?s = uint (src_y st)"
    using plane_check_origin [OF assms(1) chk c f fw fh] by auto
  show "src st' = \<lparr>x1 = uint (src_x st) + (x1 (dst st') - crtc_x st) * 2 ^ 16,
    y1 = uint (src_y st) + (y1 (dst st') - crtc_y st) * 2 ^ 16,
    x2 = uint (src_x st) + (x2 (dst st') - crtc_x st) * 2 ^ 16,
    y2 = uint (src_y st) + (y2 (dst st') - crtc_y st) * 2 ^ 16\<rparr>"
    using cs(9,10) x o ok(1) by (simp add: algebra_simps)
  show "?d = \<lparr>x1 = crtc_x st, y1 = crtc_y st,
      x2 = crtc_x st + uint (crtc_w st), y2 = crtc_y st + uint (crtc_h st)\<rparr>" by (rule ok(1))
  show "uint (crtc_w st) < 2 ^ 15" "uint (crtc_h st) < 2 ^ 15"
    using ok1 ok(1) by (simp_all add: clip_ok_def axis_ok_def)
  show "uint (src_x st) + uint (crtc_w st) * 2 ^ 16 \<le> ?w" "uint (src_y st) + uint (crtc_h st) * 2 ^ 16 \<le> ?h"
    using b x o by (simp_all add: in_box_def)
qed

section \<open>Properties\<close>

text \<open>C11: a plane state that passes \<open>drm_atomic_plane_check\<close> and then
  \<open>drm_atomic_helper_check_plane_state\<close> without scaling, as every plane of both display drivers is
  checked, and that is left visible, scans out of the framebuffer only: whatever the rotation and however the
  plane overlaps the display, the clipped source lies inside the framebuffer and the clipped
  destination is the part of the plane that lies on the CRTC (all of the CRTC when the plane cannot be
  positioned).\<close>

theorem check_plane_state_scanout:
  assumes "plane_laws hdr" "plane_checked hdr plane old st cs can_position cud f st'"
  shows "in_box (uint (fb_width f) * 2 ^ 16) (uint (fb_height f) * 2 ^ 16) (src st') \<and>
    dst st' = snd (drm_rect_intersect (rect_api hdr) (drm_plane_state_dest hdr st) (crtc_clip hdr cs)) \<and>
    (\<not> can_position \<longrightarrow> dst st' = crtc_clip hdr cs)"
  using checked_clip [OF assms] by blast

text \<open>An example: a 100 by 50 buffer shown at (-10, 20) of a 640 by 480 display, turned by 180 degrees.\<close>

definition xrgb_info :: drm_format_info where
  "xrgb_info = \<lparr>fi_format = DRM_FORMAT_XRGB8888, num_planes = 1, char_per_block = [4], block_w = [1],
     block_h = [1], hsub = 1, vsub = 1\<rparr>"

definition example_fb :: drm_framebuffer where
  "example_fb = \<lparr>fb_id = 1, fb_format = xrgb_info, fb_modifier = 0, fb_width = 100, fb_height = 50,
     pitches = [400], offsets = [0], fb_obj = [Some 0x80000000]\<rparr>"

definition example_mode :: drm_display_mode where
  "example_mode = \<lparr>clock = 25175, hdisplay = 640, hsync_start = 656, hsync_end = 752, htotal = 800,
     hskew = 0, vdisplay = 480, vsync_start = 490, vsync_end = 492, vtotal = 525, vscan = 0,
     flags = {}, stereo = DRM_MODE_FLAG_3D_NONE, crtc_clock = 25175, crtc_hdisplay = 640,
     crtc_hblank_start = 640, crtc_hblank_end = 800, crtc_hsync_start = 656, crtc_hsync_end = 752,
     crtc_htotal = 800, crtc_hskew = 0, crtc_vdisplay = 480, crtc_vblank_start = 480,
     crtc_vblank_end = 525, crtc_vsync_start = 490, crtc_vsync_end = 492, crtc_vtotal = 525\<rparr>"

definition rect_0 :: drm_rect where
  "rect_0 = \<lparr>x1 = 0, y1 = 0, x2 = 0, y2 = 0\<rparr>"

definition example_state :: drm_plane_state where
  "example_state = \<lparr>crtc = Some 0, fb = Some example_fb, crtc_x = -10, crtc_y = 20, crtc_w = 100,
     crtc_h = 50, src_x = 0, src_y = 0, src_w = 6553600, src_h = 3276800, hotspot_x = 0,
     hotspot_y = 0, alpha = 0xFFFF, pixel_blend_mode = 0, rotation = rot_0, zpos = 0,
     normalized_zpos = 0, color_encoding = 0, color_range = 0, color_pipeline = None, fence = None, commit = None, fb_damage_clips = None,
     color_mgmt_changed = False, src = rect_0, dst = rect_0, visible = False\<rparr>"

definition rot_180 :: drm_rotation where
  "rot_180 = \<lparr>rot_angle = DRM_MODE_ROTATE_180, reflect_x = False, reflect_y = False\<rparr>"

definition example_plane :: drm_plane where
  "example_plane = \<lparr>plane_type = DRM_PLANE_TYPE_OVERLAY, possible_crtcs = {0},
     format_types = [DRM_FORMAT_XRGB8888], modifiers = [], format_mod_supported = None\<rparr>"

definition example_crtc_state :: drm_crtc_state where
  "example_crtc_state = \<lparr>enable = True, mode = example_mode\<rparr>"

definition check_example :: "drm_plane_state \<Rightarrow> bool \<Rightarrow> int \<times> drm_plane_state" where
  "check_example st can_position = drm_atomic_helper_check_plane_state plane_hdr_c st
     example_crtc_state DRM_PLANE_NO_SCALING DRM_PLANE_NO_SCALING can_position False"

lemma example_checks:
  "drm_atomic_plane_check example_plane example_state (example_state\<lparr>rotation := rot\<rparr>) = 0"
  by (simp add: drm_atomic_plane_check_def example_plane_def example_state_def example_fb_def
      xrgb_info_def drm_plane_has_format_def drm_plane_damage_clips_def plane_switching_crtc_def wrap32_id is_s32_def
      push_bit_eq_mult Let_def)

lemma example_ranges: "fb (example_state\<lparr>rotation := rot\<rparr>) = Some example_fb"
  "uint (fb_width example_fb) < 2 ^ 15" "uint (fb_height example_fb) < 2 ^ 15"
  "crtc_range (example_state\<lparr>rotation := rot\<rparr>)"
  by (simp_all add: example_state_def example_fb_def crtc_range_def)

lemma example_checked:
  assumes "drm_atomic_plane_check plane old st = 0"
    and "drm_atomic_helper_check_plane_state hdr st cs DRM_PLANE_NO_SCALING DRM_PLANE_NO_SCALING
      can_position cud = (0, st')" "visible st'"
    and "fb st = Some f" "uint (fb_width f) < 2 ^ 15" "uint (fb_height f) < 2 ^ 15" "crtc_range st"
  shows "plane_checked hdr plane old st cs can_position cud f st'"
  unfolding plane_checked_def using assms by blast

theorem check_plane_state_scanout_witness:
  "src (snd (check_example (example_state\<lparr>rotation := rot_180\<rparr>) True)) =
     \<lparr>x1 = 0, y1 = 0, x2 = 90 * 2 ^ 16, y2 = 50 * 2 ^ 16\<rparr> \<and>
   in_box (100 * 2 ^ 16) (50 * 2 ^ 16) (src (snd (check_example (example_state\<lparr>rotation := rot_180\<rparr>) True)))"
proof -
  let ?s = "example_state\<lparr>rotation := rot_180\<rparr>"
  have v: "fst (check_example ?s True) = 0" "visible (snd (check_example ?s True))"
    "src (snd (check_example ?s True)) = \<lparr>x1 = 0, y1 = 0, x2 = 90 * 2 ^ 16, y2 = 50 * 2 ^ 16\<rparr>"
    by code_simp+
  have c: "drm_atomic_helper_check_plane_state plane_hdr_c ?s example_crtc_state DRM_PLANE_NO_SCALING
      DRM_PLANE_NO_SCALING True False = (0, snd (check_example ?s True))"
    using v(1) by (simp add: check_example_def prod_eq_iff)
  show ?thesis
    using v(3) check_plane_state_scanout [OF hc.plane_laws_axioms
        example_checked [OF example_checks c v(2) example_ranges]]
    by (simp add: example_fb_def)
qed

text \<open>C13: for an unrotated plane the clipped source follows the clipped destination exactly: its origin is
  the requested origin plus the pixels cut off on the left and top, and its size is the size shown, in 16.16
  fixed point, so that what is shown is the picture the client asked for, neither shifted nor scaled.\<close>

theorem check_plane_state_offset:
  assumes "plane_laws hdr" "plane_checked hdr plane old st cs can_position cud f st'" "rotation st = rot_0"
  shows "src st' = \<lparr>x1 = uint (src_x st) + (x1 (dst st') - crtc_x st) * 2 ^ 16,
    y1 = uint (src_y st) + (y1 (dst st') - crtc_y st) * 2 ^ 16,
    x2 = uint (src_x st) + (x2 (dst st') - crtc_x st) * 2 ^ 16,
    y2 = uint (src_y st) + (y2 (dst st') - crtc_y st) * 2 ^ 16\<rparr>"
  using checked_offset(1) [OF assms] .

theorem check_plane_state_offset_witness:
  "dst (snd (check_example example_state True)) = \<lparr>x1 = 0, y1 = 20, x2 = 90, y2 = 70\<rparr> \<and>
   src (snd (check_example example_state True)) = \<lparr>x1 = 10 * 2 ^ 16, y1 = 0, x2 = 100 * 2 ^ 16, y2 = 50 * 2 ^ 16\<rparr>"
proof -
  have v: "fst (check_example example_state True) = 0" "visible (snd (check_example example_state True))"
    "dst (snd (check_example example_state True)) = \<lparr>x1 = 0, y1 = 20, x2 = 90, y2 = 70\<rparr>"
    by code_simp+
  have c: "drm_atomic_helper_check_plane_state plane_hdr_c example_state example_crtc_state DRM_PLANE_NO_SCALING
      DRM_PLANE_NO_SCALING True False = (0, snd (check_example example_state True))"
    using v(1) by (simp add: check_example_def prod_eq_iff)
  have r: "example_state\<lparr>rotation := rot_0\<rparr> = example_state" "rotation example_state = rot_0"
    by (simp_all add: example_state_def)
  note e = example_checks [of rot_0, unfolded r] example_ranges(1) [of rot_0, unfolded r]
    example_ranges(2,3) example_ranges(4) [of rot_0, unfolded r]
  show ?thesis
    using v(3) check_plane_state_offset [OF hc.plane_laws_axioms
        example_checked [OF e(1) c v(2) e(2-5)] r(2)]
    by (simp add: example_state_def)
qed

end
