(* ===== verification/Vs_Hwdb.thy ===== *)
theory Vs_Hwdb
  imports Vs_Regs Drm_Plane
begin

text \<open>
  The table of known display controllers and the identification of the one found
  (\<open>drm/verisilicon/vs_hwdb.c\<close>, \<open>vs_hwdb.h\<close>). Identification reads three registers and takes the first
  matching entry; an entry whose customer id is all ones matches every customer.
\<close>

section \<open>Data\<close>

datatype vs_dc_generation = VSDC_GEN_DC8000 | VSDC_GEN_DC8200

record vs_formats =
  array :: "drm_format list"
  num :: nat

record vs_chip_identity =
  model :: u32
  revision :: u32
  customer_id :: u32
  generation :: vs_dc_generation
  display_count :: u32
  max_cursor_size :: int
  formats :: vs_formats

definition vs_formats_array_no_yuv444 :: "drm_format list" where
  "vs_formats_array_no_yuv444 = [
     DRM_FORMAT_XRGB4444, DRM_FORMAT_XBGR4444, DRM_FORMAT_RGBX4444, DRM_FORMAT_BGRX4444,
     DRM_FORMAT_ARGB4444, DRM_FORMAT_ABGR4444, DRM_FORMAT_RGBA4444, DRM_FORMAT_BGRA4444,
     DRM_FORMAT_XRGB1555, DRM_FORMAT_XBGR1555, DRM_FORMAT_RGBX5551, DRM_FORMAT_BGRX5551,
     DRM_FORMAT_ARGB1555, DRM_FORMAT_ABGR1555, DRM_FORMAT_RGBA5551, DRM_FORMAT_BGRA5551,
     DRM_FORMAT_RGB565, DRM_FORMAT_BGR565,
     DRM_FORMAT_XRGB8888, DRM_FORMAT_XBGR8888, DRM_FORMAT_RGBX8888, DRM_FORMAT_BGRX8888,
     DRM_FORMAT_ARGB8888, DRM_FORMAT_ABGR8888, DRM_FORMAT_RGBA8888, DRM_FORMAT_BGRA8888,
     DRM_FORMAT_ARGB2101010, DRM_FORMAT_ABGR2101010, DRM_FORMAT_RGBA1010102,
     DRM_FORMAT_BGRA1010102]"

definition vs_formats_array_with_yuv444 :: "drm_format list" where
  "vs_formats_array_with_yuv444 = [
     DRM_FORMAT_XRGB4444, DRM_FORMAT_XBGR4444, DRM_FORMAT_RGBX4444, DRM_FORMAT_BGRX4444,
     DRM_FORMAT_ARGB4444, DRM_FORMAT_ABGR4444, DRM_FORMAT_RGBA4444, DRM_FORMAT_BGRA4444,
     DRM_FORMAT_XRGB1555, DRM_FORMAT_XBGR1555, DRM_FORMAT_RGBX5551, DRM_FORMAT_BGRX5551,
     DRM_FORMAT_ARGB1555, DRM_FORMAT_ABGR1555, DRM_FORMAT_RGBA5551, DRM_FORMAT_BGRA5551,
     DRM_FORMAT_RGB565, DRM_FORMAT_BGR565,
     DRM_FORMAT_XRGB8888, DRM_FORMAT_XBGR8888, DRM_FORMAT_RGBX8888, DRM_FORMAT_BGRX8888,
     DRM_FORMAT_ARGB8888, DRM_FORMAT_ABGR8888, DRM_FORMAT_RGBA8888, DRM_FORMAT_BGRA8888,
     DRM_FORMAT_ARGB2101010, DRM_FORMAT_ABGR2101010, DRM_FORMAT_RGBA1010102,
     DRM_FORMAT_BGRA1010102]"

definition vs_formats_no_yuv444 :: vs_formats where
  "vs_formats_no_yuv444 = \<lparr>array = vs_formats_array_no_yuv444, num = length vs_formats_array_no_yuv444\<rparr>"

definition vs_formats_with_yuv444 :: vs_formats where
  "vs_formats_with_yuv444 =
     \<lparr>array = vs_formats_array_with_yuv444, num = length vs_formats_array_with_yuv444\<rparr>"

definition vs_chip_identities :: "vs_chip_identity list" where
  "vs_chip_identities = [
     \<lparr>model = 0x8200, revision = 0x5720, customer_id = NOT 0, generation = VSDC_GEN_DC8200,
      display_count = 2, max_cursor_size = 64, formats = vs_formats_no_yuv444\<rparr>,
     \<lparr>model = 0x8200, revision = 0x5721, customer_id = 0x30B, generation = VSDC_GEN_DC8200,
      display_count = 2, max_cursor_size = 64, formats = vs_formats_no_yuv444\<rparr>,
     \<lparr>model = 0x8200, revision = 0x5720, customer_id = 0x310, generation = VSDC_GEN_DC8200,
      display_count = 2, max_cursor_size = 64, formats = vs_formats_with_yuv444\<rparr>,
     \<lparr>model = 0x8200, revision = 0x5720, customer_id = 0x311, generation = VSDC_GEN_DC8200,
      display_count = 2, max_cursor_size = 64, formats = vs_formats_no_yuv444\<rparr>,
     \<lparr>model = 0x0, revision = 0x5560, customer_id = 0x305, generation = VSDC_GEN_DC8000,
      display_count = 1, max_cursor_size = 32, formats = vs_formats_no_yuv444\<rparr>]"

section \<open>Identification\<close>

text \<open>The loop over the table, returning the entry it stops at.\<close>

fun vs_find_identity :: "u32 \<Rightarrow> u32 \<Rightarrow> u32 \<Rightarrow> vs_chip_identity list \<Rightarrow> vs_chip_identity option" where
  "vs_find_identity m r c [] = None"
| "vs_find_identity m r c (e # es) =
     (if model e = m \<and> revision e = r \<and> (customer_id e = c \<or> customer_id e = NOT 0)
      then Some e else vs_find_identity m r c es)"

definition vs_fill_chip_identity ::
    "'w regmap_api \<Rightarrow> vs_chip_identity \<Rightarrow> 'w \<Rightarrow> int \<times> vs_chip_identity \<times> 'w" where
  "vs_fill_chip_identity rm ident w =
     (let (m, w) = regmap_read rm w VSDC_TOP_CHIP_MODEL;
          (r, w) = regmap_read rm w VSDC_TOP_CHIP_REV;
          (c, w) = regmap_read rm w VSDC_TOP_CHIP_CUSTOMER_ID
      in case vs_find_identity m r c vs_chip_identities of
           Some e \<Rightarrow> (0, e\<lparr>customer_id := c\<rparr>, w)
         | None \<Rightarrow> (- EINVAL, ident, w))"

section \<open>Lemmas\<close>

lemma find_identity_cases:
  assumes "vs_find_identity m r c vs_chip_identities = Some e"
  obtains "e = vs_chip_identities ! 0" "m = 0x8200" "r = 0x5720"
  | "e = vs_chip_identities ! 1" "m = 0x8200" "r = 0x5721" "c = 0x30B"
  | "e = vs_chip_identities ! 4" "m = 0" "r = 0x5560" "c = 0x305"
  using assms by (auto simp: vs_chip_identities_def split: if_splits)

lemma find_identity_props:
  assumes "vs_find_identity m r c vs_chip_identities = Some e"
  shows "model e = m" "revision e = r" "formats e = vs_formats_no_yuv444"
    "display_count e \<in> {1, 2}" "max_cursor_size e \<in> {32, 64}"
    "display_count e = (case generation e of VSDC_GEN_DC8000 \<Rightarrow> 1 | VSDC_GEN_DC8200 \<Rightarrow> 2)"
  using assms by (cases rule: find_identity_cases; simp add: vs_chip_identities_def)+

text \<open>The three identification registers as one read, when a read leaves the other registers alone.\<close>

lemma fill_chip_identity_eq:
  assumes "regmap_laws rm regs"
  shows "\<exists>w'. vs_fill_chip_identity rm ident w =
    (case vs_find_identity (regs w VSDC_TOP_CHIP_MODEL) (regs w VSDC_TOP_CHIP_REV)
        (regs w VSDC_TOP_CHIP_CUSTOMER_ID) vs_chip_identities of
       Some e \<Rightarrow> (0, e\<lparr>customer_id := regs w VSDC_TOP_CHIP_CUSTOMER_ID\<rparr>, w')
     | None \<Rightarrow> (- EINVAL, ident, w'))"
proof -
  obtain m w1 where 1: "regmap_read rm w VSDC_TOP_CHIP_MODEL = (m, w1)" by fastforce
  obtain r w2 where 2: "regmap_read rm w1 VSDC_TOP_CHIP_REV = (r, w2)" by fastforce
  obtain c w3 where 3: "regmap_read rm w2 VSDC_TOP_CHIP_CUSTOMER_ID = (c, w3)" by fastforce
  note rv = regmap_laws.read_value [OF assms] and rf = regmap_laws.read_frame [OF assms]
  have f1: "regs w1 a = regs w a" if "a \<noteq> VSDC_TOP_CHIP_MODEL" for a
    using rf [OF that, of w] 1 by simp
  have f2: "regs w2 a = regs w1 a" if "a \<noteq> VSDC_TOP_CHIP_REV" for a
    using rf [OF that, of w1] 2 by simp
  have "m = regs w VSDC_TOP_CHIP_MODEL" using rv [of w VSDC_TOP_CHIP_MODEL] 1 by simp
  moreover have "r = regs w VSDC_TOP_CHIP_REV"
    using rv [of w1 VSDC_TOP_CHIP_REV] 2 f1 by (simp add: vs_addr)
  moreover have "c = regs w VSDC_TOP_CHIP_CUSTOMER_ID"
    using rv [of w2 VSDC_TOP_CHIP_CUSTOMER_ID] 3 f1 f2 by (simp add: vs_addr)
  ultimately show ?thesis by (intro exI [of _ w3]) (simp add: vs_fill_chip_identity_def 1 2 3)
qed

end
