(* ===== verification/Drm_State.thy ===== *)
theory Drm_State
  imports Drm_Plane
begin

text \<open>
  The lifecycle of plane states (\<open>drm/drm_atomic_state_helper.c\<close>): reset, duplication and destruction,
  and the references a state holds on its framebuffer, fence, commit and damage blob.

  The reference counting primitives (\<open>drm_framebuffer_get\<close> and the put functions) are header inlines:
  they are the record \<open>ref_api\<close> over an abstract world, with the counts as the observation
  of the locale \<open>ref_laws\<close>. The \<open>plane\<close> back pointer of a state is not part of the model. A property of a plane that exists has a default value, \<open>None\<close> when the property does not
  exist or its default cannot be read.
\<close>

section \<open>References\<close>

datatype obj_ref = FbRef nat | FenceRef nat | CommitRef nat | BlobRef nat

record 'w ref_api =
  drm_framebuffer_get :: "nat \<Rightarrow> 'w \<Rightarrow> 'w"
  drm_framebuffer_put :: "nat \<Rightarrow> 'w \<Rightarrow> 'w"
  dma_fence_put :: "nat \<Rightarrow> 'w \<Rightarrow> 'w"
  drm_crtc_commit_put :: "nat \<Rightarrow> 'w \<Rightarrow> 'w"
  drm_property_blob_put :: "nat option \<Rightarrow> 'w \<Rightarrow> 'w"

text \<open>
  A get adds one reference and a put releases one of the given object and no other.
  \<open>drm_property_blob_put\<close> accepts a null pointer.
\<close>

locale ref_laws =
  fixes api :: "'w ref_api" and refs :: "'w \<Rightarrow> obj_ref \<Rightarrow> int"
  assumes fb_get: "refs (drm_framebuffer_get api i w) = (refs w)(FbRef i := refs w (FbRef i) + 1)"
    and fb_put: "refs (drm_framebuffer_put api i w) = (refs w)(FbRef i := refs w (FbRef i) - 1)"
    and fence_put: "refs (dma_fence_put api i w) = (refs w)(FenceRef i := refs w (FenceRef i) - 1)"
    and commit_put: "refs (drm_crtc_commit_put api i w) = (refs w)(CommitRef i := refs w (CommitRef i) - 1)"
    and blob_put: "refs (drm_property_blob_put api b w) = (case b of None \<Rightarrow> refs w
      | Some i \<Rightarrow> (refs w)(BlobRef i := refs w (BlobRef i) - 1))"

section \<open>Operations\<close>

record plane_defaults =
  color_encoding_default :: "u64 option"
  color_range_default :: "u64 option"
  color_pipeline_property :: bool
  zpos_default :: "u64 option"
  hotspot_x_default :: "u64 option"
  hotspot_y_default :: "u64 option"

definition plane_state_0 :: drm_plane_state where
  "plane_state_0 = \<lparr>crtc = None, fb = None, crtc_x = 0, crtc_y = 0, crtc_w = 0, crtc_h = 0, src_x = 0,
     src_y = 0, src_w = 0, src_h = 0, hotspot_x = 0, hotspot_y = 0, alpha = 0, pixel_blend_mode = 0,
     rotation = rot_0, zpos = 0, normalized_zpos = 0, color_encoding = 0, color_range = 0, color_pipeline = None, fence = None, commit = None,
     fb_damage_clips = None, color_mgmt_changed = False, src = rect_0, dst = rect_0, visible = False\<rparr>"

text \<open>\<open>DRM_BLEND_ALPHA_OPAQUE\<close> and \<open>DRM_MODE_BLEND_PREMULTI\<close> are header constants.\<close>

definition drm_atomic_helper_plane_state_reset ::
    "u16 \<Rightarrow> u16 \<Rightarrow> plane_defaults \<Rightarrow> drm_plane_state \<Rightarrow> drm_plane_state" where
  "drm_atomic_helper_plane_state_reset alpha_opaque blend_premulti d st =
     (let st = st\<lparr>rotation := rot_0, alpha := alpha_opaque, pixel_blend_mode := blend_premulti\<rparr>;
          st = (case color_encoding_default d of None \<Rightarrow> st | Some v \<Rightarrow> st\<lparr>color_encoding := ucast v\<rparr>);
          st = (case color_range_default d of None \<Rightarrow> st | Some v \<Rightarrow> st\<lparr>color_range := ucast v\<rparr>);
          st = (if color_pipeline_property d then st\<lparr>color_pipeline := None\<rparr> else st);
          st = (case zpos_default d of None \<Rightarrow> st
                | Some v \<Rightarrow> st\<lparr>zpos := ucast v, normalized_zpos := ucast v\<rparr>);
          st = (case hotspot_x_default d of None \<Rightarrow> st | Some v \<Rightarrow> st\<lparr>hotspot_x := wrap32 (uint v)\<rparr>)
      in case hotspot_y_default d of None \<Rightarrow> st | Some v \<Rightarrow> st\<lparr>hotspot_y := wrap32 (uint v)\<rparr>)"

text \<open>The copy of the current state, with the framebuffer's new reference.\<close>

definition drm_atomic_helper_plane_duplicate_base ::
    "'w ref_api \<Rightarrow> drm_plane_state \<Rightarrow> 'w \<Rightarrow> drm_plane_state \<times> 'w" where
  "drm_atomic_helper_plane_duplicate_base api plane_state w =
     (let state = plane_state;
          w = (case fb state of None \<Rightarrow> w | Some f \<Rightarrow> drm_framebuffer_get api (fb_id f) w)
      in (state\<lparr>fence := None, commit := None, fb_damage_clips := None, color_mgmt_changed := False\<rparr>, w))"

definition drm_atomic_helper_plane_destroy_base ::
    "'w ref_api \<Rightarrow> drm_plane_state \<Rightarrow> 'w \<Rightarrow> 'w" where
  "drm_atomic_helper_plane_destroy_base api state w =
     (let w = (case fb state of None \<Rightarrow> w | Some f \<Rightarrow> drm_framebuffer_put api (fb_id f) w);
          w = (case fence state of None \<Rightarrow> w | Some f \<Rightarrow> dma_fence_put api f w);
          w = (case commit state of None \<Rightarrow> w | Some c \<Rightarrow> drm_crtc_commit_put api c w)
      in drm_property_blob_put api (map_option fst (fb_damage_clips state)) w)"

text \<open>
  The hooks of a driver with no state of its own. \<open>alloc\<close> says whether the allocation succeeds; a plane
  state pointer is an option.
\<close>

definition drm_atomic_helper_plane_reset ::
    "'w ref_api \<Rightarrow> u16 \<Rightarrow> u16 \<Rightarrow> plane_defaults \<Rightarrow> bool \<Rightarrow> drm_plane_state option \<Rightarrow> 'w \<Rightarrow>
     drm_plane_state option \<times> 'w" where
  "drm_atomic_helper_plane_reset api alpha_opaque blend_premulti d alloc st w =
     (let w = (case st of None \<Rightarrow> w | Some s \<Rightarrow> drm_atomic_helper_plane_destroy_base api s w)
      in if alloc
         then (Some (drm_atomic_helper_plane_state_reset alpha_opaque blend_premulti d plane_state_0), w)
         else (None, w))"

definition drm_atomic_helper_plane_duplicate_state ::
    "'w ref_api \<Rightarrow> bool \<Rightarrow> drm_plane_state option \<Rightarrow> 'w \<Rightarrow> drm_plane_state option \<times> 'w" where
  "drm_atomic_helper_plane_duplicate_state api alloc st w = (case st of None \<Rightarrow> (None, w)
     | Some s \<Rightarrow> if alloc then let (s', w) = drm_atomic_helper_plane_duplicate_base api s w in (Some s', w)
                 else (None, w))"

definition drm_atomic_helper_plane_destroy_state ::
    "'w ref_api \<Rightarrow> drm_plane_state \<Rightarrow> 'w \<Rightarrow> 'w" where
  "drm_atomic_helper_plane_destroy_state api st w = drm_atomic_helper_plane_destroy_base api st w"

section \<open>Lemmas\<close>

text \<open>What a state holds: one reference per pointer that is set.\<close>

definition holds :: "drm_plane_state \<Rightarrow> obj_ref \<Rightarrow> int" where
  "holds st r = (case r of
     FbRef i \<Rightarrow> if map_option fb_id (fb st) = Some i then 1 else 0
   | FenceRef i \<Rightarrow> if fence st = Some i then 1 else 0
   | CommitRef i \<Rightarrow> if commit st = Some i then 1 else 0
   | BlobRef i \<Rightarrow> if map_option fst (fb_damage_clips st) = Some i then 1 else 0)"

context ref_laws
begin

lemma destroy_releases:
  "refs (drm_atomic_helper_plane_destroy_base api st w) r = refs w r - holds st r"
  by (cases "fb st"; cases "fence st"; cases "commit st"; cases "fb_damage_clips st"; cases r)
    (auto simp: drm_atomic_helper_plane_destroy_base_def holds_def fb_put fence_put commit_put blob_put
      Let_def)

lemma duplicate_acquires:
  assumes "drm_atomic_helper_plane_duplicate_base api st w = (st', w')"
  shows "refs w' r = refs w r + holds st' r"
  using assms by (cases "fb st"; cases r)
    (auto simp: drm_atomic_helper_plane_duplicate_base_def holds_def fb_get Let_def)

end

text \<open>A world that is the reference counts.\<close>

definition count_refs :: "(obj_ref \<Rightarrow> int) ref_api" where
  "count_refs = \<lparr>
     drm_framebuffer_get = (\<lambda>i w. w(FbRef i := w (FbRef i) + 1)),
     drm_framebuffer_put = (\<lambda>i w. w(FbRef i := w (FbRef i) - 1)),
     dma_fence_put = (\<lambda>i w. w(FenceRef i := w (FenceRef i) - 1)),
     drm_crtc_commit_put = (\<lambda>i w. w(CommitRef i := w (CommitRef i) - 1)),
     drm_property_blob_put = (\<lambda>b w. case b of None \<Rightarrow> w | Some i \<Rightarrow> w(BlobRef i := w (BlobRef i) - 1))\<rparr>"

interpretation cr: ref_laws count_refs "\<lambda>w. w"
  by unfold_locales (simp_all add: count_refs_def split: option.split)

end
