(* ===== verification/Vs_Plane.thy ===== *)
theory Vs_Plane
  imports Vs_Hwdb Drm_State
begin

text \<open>
  What the planes of the Verisilicon driver share (\<open>drm/verisilicon/vs_plane.c\<close>, \<open>vs_plane.h\<close>): the
  conversion of a DRM format to the hardware's, the bus address of the displayed part of a buffer,
  the plane state with its cached hardware format, and the packing of sizes and positions.
\<close>

section \<open>Data\<close>

definition VSDC_MAKE_PLANE_SIZE :: "u32 \<Rightarrow> u32 \<Rightarrow> u32" where
  "VSDC_MAKE_PLANE_SIZE w h = (w AND 0x7fff) OR push_bit 15 (h AND 0x7fff)"

definition VSDC_MAKE_PLANE_POS :: "u32 \<Rightarrow> u32 \<Rightarrow> u32" where
  "VSDC_MAKE_PLANE_POS x y = (x AND 0x7fff) OR push_bit 15 (y AND 0x7fff)"

datatype vs_color_format =
    VSDC_COLOR_FORMAT_X4R4G4B4 | VSDC_COLOR_FORMAT_A4R4G4B4 | VSDC_COLOR_FORMAT_X1R5G5B5
  | VSDC_COLOR_FORMAT_A1R5G5B5 | VSDC_COLOR_FORMAT_R5G6B5 | VSDC_COLOR_FORMAT_X8R8G8B8
  | VSDC_COLOR_FORMAT_A8R8G8B8 | VSDC_COLOR_FORMAT_YUY2 | VSDC_COLOR_FORMAT_UYVY
  | VSDC_COLOR_FORMAT_INDEX8 | VSDC_COLOR_FORMAT_MONOCHROME | VSDC_COLOR_FORMAT_YV12
  | VSDC_COLOR_FORMAT_A8 | VSDC_COLOR_FORMAT_NV12 | VSDC_COLOR_FORMAT_NV16 | VSDC_COLOR_FORMAT_RG16
  | VSDC_COLOR_FORMAT_R8 | VSDC_COLOR_FORMAT_NV12_10BIT | VSDC_COLOR_FORMAT_A2R10G10B10
  | VSDC_COLOR_FORMAT_NV16_10BIT | VSDC_COLOR_FORMAT_INDEX1 | VSDC_COLOR_FORMAT_INDEX2
  | VSDC_COLOR_FORMAT_INDEX4 | VSDC_COLOR_FORMAT_P010 | VSDC_COLOR_FORMAT_YUV444
  | VSDC_COLOR_FORMAT_YUV444_10BIT

fun vs_color_format_val :: "vs_color_format \<Rightarrow> u32" where
  "vs_color_format_val VSDC_COLOR_FORMAT_X4R4G4B4 = 0"
| "vs_color_format_val VSDC_COLOR_FORMAT_A4R4G4B4 = 1"
| "vs_color_format_val VSDC_COLOR_FORMAT_X1R5G5B5 = 2"
| "vs_color_format_val VSDC_COLOR_FORMAT_A1R5G5B5 = 3"
| "vs_color_format_val VSDC_COLOR_FORMAT_R5G6B5 = 4"
| "vs_color_format_val VSDC_COLOR_FORMAT_X8R8G8B8 = 5"
| "vs_color_format_val VSDC_COLOR_FORMAT_A8R8G8B8 = 6"
| "vs_color_format_val VSDC_COLOR_FORMAT_YUY2 = 7"
| "vs_color_format_val VSDC_COLOR_FORMAT_UYVY = 8"
| "vs_color_format_val VSDC_COLOR_FORMAT_INDEX8 = 9"
| "vs_color_format_val VSDC_COLOR_FORMAT_MONOCHROME = 10"
| "vs_color_format_val VSDC_COLOR_FORMAT_YV12 = 0xf"
| "vs_color_format_val VSDC_COLOR_FORMAT_A8 = 0x10"
| "vs_color_format_val VSDC_COLOR_FORMAT_NV12 = 0x11"
| "vs_color_format_val VSDC_COLOR_FORMAT_NV16 = 0x12"
| "vs_color_format_val VSDC_COLOR_FORMAT_RG16 = 0x13"
| "vs_color_format_val VSDC_COLOR_FORMAT_R8 = 0x14"
| "vs_color_format_val VSDC_COLOR_FORMAT_NV12_10BIT = 0x15"
| "vs_color_format_val VSDC_COLOR_FORMAT_A2R10G10B10 = 0x16"
| "vs_color_format_val VSDC_COLOR_FORMAT_NV16_10BIT = 0x17"
| "vs_color_format_val VSDC_COLOR_FORMAT_INDEX1 = 0x18"
| "vs_color_format_val VSDC_COLOR_FORMAT_INDEX2 = 0x19"
| "vs_color_format_val VSDC_COLOR_FORMAT_INDEX4 = 0x1a"
| "vs_color_format_val VSDC_COLOR_FORMAT_P010 = 0x1b"
| "vs_color_format_val VSDC_COLOR_FORMAT_YUV444 = 0x1c"
| "vs_color_format_val VSDC_COLOR_FORMAT_YUV444_10BIT = 0x1d"

datatype vs_swizzle = VSDC_SWIZZLE_ARGB | VSDC_SWIZZLE_RGBA | VSDC_SWIZZLE_ABGR | VSDC_SWIZZLE_BGRA

fun vs_swizzle_val :: "vs_swizzle \<Rightarrow> u32" where
  "vs_swizzle_val VSDC_SWIZZLE_ARGB = 0"
| "vs_swizzle_val VSDC_SWIZZLE_RGBA = 1"
| "vs_swizzle_val VSDC_SWIZZLE_ABGR = 2"
| "vs_swizzle_val VSDC_SWIZZLE_BGRA = 3"

record vs_format =
  color :: vs_color_format
  swizzle :: vs_swizzle
  uv_swizzle :: bool

record vs_plane_state =
  base :: drm_plane_state
  format :: vs_format

section \<open>Format conversion\<close>

text \<open>The two switches of \<open>drm_format_to_vs_format\<close>; \<open>None\<close> is the first one's default.\<close>

definition vs_color_of :: "drm_format \<Rightarrow> vs_color_format option" where
  "vs_color_of drm_format =
     (if drm_format \<in> {DRM_FORMAT_XRGB4444, DRM_FORMAT_RGBX4444, DRM_FORMAT_XBGR4444,
          DRM_FORMAT_BGRX4444} then Some VSDC_COLOR_FORMAT_X4R4G4B4
      else if drm_format \<in> {DRM_FORMAT_ARGB4444, DRM_FORMAT_RGBA4444, DRM_FORMAT_ABGR4444,
          DRM_FORMAT_BGRA4444} then Some VSDC_COLOR_FORMAT_A4R4G4B4
      else if drm_format \<in> {DRM_FORMAT_XRGB1555, DRM_FORMAT_RGBX5551, DRM_FORMAT_XBGR1555,
          DRM_FORMAT_BGRX5551} then Some VSDC_COLOR_FORMAT_X1R5G5B5
      else if drm_format \<in> {DRM_FORMAT_ARGB1555, DRM_FORMAT_RGBA5551, DRM_FORMAT_ABGR1555,
          DRM_FORMAT_BGRA5551} then Some VSDC_COLOR_FORMAT_A1R5G5B5
      else if drm_format \<in> {DRM_FORMAT_RGB565, DRM_FORMAT_BGR565} then Some VSDC_COLOR_FORMAT_R5G6B5
      else if drm_format \<in> {DRM_FORMAT_XRGB8888, DRM_FORMAT_RGBX8888, DRM_FORMAT_XBGR8888,
          DRM_FORMAT_BGRX8888} then Some VSDC_COLOR_FORMAT_X8R8G8B8
      else if drm_format \<in> {DRM_FORMAT_ARGB8888, DRM_FORMAT_RGBA8888, DRM_FORMAT_ABGR8888,
          DRM_FORMAT_BGRA8888} then Some VSDC_COLOR_FORMAT_A8R8G8B8
      else if drm_format \<in> {DRM_FORMAT_ARGB2101010, DRM_FORMAT_RGBA1010102, DRM_FORMAT_ABGR2101010,
          DRM_FORMAT_BGRA1010102} then Some VSDC_COLOR_FORMAT_A2R10G10B10
      else None)"

definition vs_swizzle_of :: "drm_format \<Rightarrow> vs_swizzle" where
  "vs_swizzle_of drm_format =
     (if drm_format \<in> {DRM_FORMAT_RGBX4444, DRM_FORMAT_RGBA4444, DRM_FORMAT_RGBX5551,
          DRM_FORMAT_RGBA5551, DRM_FORMAT_RGBX8888, DRM_FORMAT_RGBA8888, DRM_FORMAT_RGBA1010102}
      then VSDC_SWIZZLE_RGBA
      else if drm_format \<in> {DRM_FORMAT_XBGR4444, DRM_FORMAT_ABGR4444, DRM_FORMAT_XBGR1555,
          DRM_FORMAT_ABGR1555, DRM_FORMAT_BGR565, DRM_FORMAT_XBGR8888, DRM_FORMAT_ABGR8888,
          DRM_FORMAT_ABGR2101010} then VSDC_SWIZZLE_ABGR
      else if drm_format \<in> {DRM_FORMAT_BGRX4444, DRM_FORMAT_BGRA4444, DRM_FORMAT_BGRX5551,
          DRM_FORMAT_BGRA5551, DRM_FORMAT_BGRX8888, DRM_FORMAT_BGRA8888, DRM_FORMAT_BGRA1010102}
      then VSDC_SWIZZLE_BGRA
      else VSDC_SWIZZLE_ARGB)"

definition drm_format_to_vs_format :: "drm_format \<Rightarrow> vs_format \<Rightarrow> int \<times> vs_format" where
  "drm_format_to_vs_format drm_format vs_format =
     (case vs_color_of drm_format of
        None \<Rightarrow> (- EINVAL, vs_format)
      | Some c \<Rightarrow> (0, vs_format\<lparr>color := c, swizzle := vs_swizzle_of drm_format, uv_swizzle := False\<rparr>))"

section \<open>Scanout address\<close>

text \<open>
  \<open>None\<close> is the null dereference of a framebuffer without a buffer object. The pixel coordinates are
  the source rectangle's, arithmetically shifted; the line offset is a 32-bit product.
\<close>

definition vs_fb_get_dma_addr :: "drm_framebuffer \<Rightarrow> drm_rect \<Rightarrow> u64 option" where
  "vs_fb_get_dma_addr f src_rect =
     (case drm_fb_dma_get_gem_obj f 0 of
        None \<Rightarrow> None
      | Some gem \<Rightarrow>
          let dma_addr = gem + ucast (offsets f ! 0);
              dma_addr = dma_addr + drm_format_info_min_pitch (Some (fb_format f)) 0
                           (word_of_int (drop_bit 16 (x1 src_rect)));
              dma_addr = dma_addr + ucast (word_of_int (drop_bit 16 (y1 src_rect)) * pitches f ! 0 :: u32)
          in Some dma_addr)"

section \<open>State hooks\<close>

definition vs_format_0 :: vs_format where
  "vs_format_0 = \<lparr>color = VSDC_COLOR_FORMAT_X4R4G4B4, swizzle = VSDC_SWIZZLE_ARGB, uv_swizzle = False\<rparr>"

definition vs_plane_duplicate_state ::
    "'w ref_api \<Rightarrow> bool \<Rightarrow> vs_plane_state option \<Rightarrow> 'w \<Rightarrow> vs_plane_state option \<times> 'w" where
  "vs_plane_duplicate_state api alloc plane_state w =
     (case plane_state of
        None \<Rightarrow> (None, w)
      | Some vs_state_old \<Rightarrow>
          if \<not> alloc then (None, w)
          else let (b, w) = drm_atomic_helper_plane_duplicate_base api (base vs_state_old) w
               in (Some \<lparr>base = b, format = format vs_state_old\<rparr>, w))"

definition vs_plane_destroy_state :: "'w ref_api \<Rightarrow> vs_plane_state \<Rightarrow> 'w \<Rightarrow> 'w" where
  "vs_plane_destroy_state api state w = drm_atomic_helper_plane_destroy_base api (base state) w"

definition vs_plane_reset ::
    "'w ref_api \<Rightarrow> u16 \<Rightarrow> u16 \<Rightarrow> plane_defaults \<Rightarrow> bool \<Rightarrow> vs_plane_state option \<Rightarrow> 'w \<Rightarrow>
     vs_plane_state option \<times> 'w" where
  "vs_plane_reset api alpha_opaque blend_premulti d alloc plane_state w =
     (let w = (case plane_state of None \<Rightarrow> w
               | Some s \<Rightarrow> drm_atomic_helper_plane_destroy_base api (base s) w)
      in if \<not> alloc then (None, w)
         else (Some \<lparr>base = drm_atomic_helper_plane_state_reset alpha_opaque blend_premulti d plane_state_0,
                     format = vs_format_0\<rparr>, w))"

section \<open>Lemmas\<close>

lemmas vs_format_conv = vs_color_of_def vs_swizzle_of_def

lemma vs_color_supported: "f \<in> set vs_formats_array_no_yuv444 \<longleftrightarrow> vs_color_of f \<noteq> None"
  by (cases f) (simp_all add: vs_formats_array_no_yuv444_def vs_color_of_def)

text \<open>
  A linear single-plane framebuffer in the 32-bit bus space: one pixel per block of \<open>c\<close> bytes, lines at
  least as long as the pixels need, and all lines within the four gigabytes above the object's address.
\<close>

definition fb_linear :: "drm_framebuffer \<Rightarrow> dma_obj \<Rightarrow> nat \<Rightarrow> bool" where
  "fb_linear f gem c \<longleftrightarrow> drm_fb_dma_get_gem_obj f 0 = Some gem \<and> 0 < num_planes (fb_format f) \<and>
     block_w (fb_format f) ! 0 \<in> {0, 1} \<and> block_h (fb_format f) ! 0 \<in> {0, 1} \<and>
     char_per_block (fb_format f) ! 0 = c \<and> int c * uint (fb_width f) \<le> uint (pitches f ! 0) \<and>
     uint (offsets f ! 0) + uint (pitches f ! 0) * uint (fb_height f) < 2 ^ 32 \<and>
     uint gem + 2 ^ 32 \<le> 2 ^ 64"

definition fb_end :: "drm_framebuffer \<Rightarrow> dma_obj \<Rightarrow> int" where
  "fb_end f gem = uint gem + uint (offsets f ! 0) + uint (pitches f ! 0) * uint (fb_height f)"

lemma linear_min_pitch:
  assumes "fb_linear f gem c"
  shows "drm_format_info_min_pitch (Some (fb_format f)) 0 x = of_nat (unat x * c)"
  using assms by (auto simp: fb_linear_def drm_format_info_min_pitch_def drm_format_info_block_width_def
      drm_format_info_block_height_def)

lemma fixed_shift: "0 \<le> a \<Longrightarrow> a \<le> w * 2 ^ 16 \<Longrightarrow> 0 \<le> drop_bit 16 a \<and> drop_bit 16 a \<le> w" for a w :: int
  unfolding drop_bit_eq_div using floor_div_le [of "2 ^ 16" a w] by (simp add: pos_imp_zdiv_nonneg_iff)

lemma uint_word_of_int_small: "0 \<le> a \<Longrightarrow> a < 2 ^ 32 \<Longrightarrow> uint (word_of_int a :: u32) = a"
  by (simp add: uint_word_of_int)

lemma uint_word_of_int_small64: "0 \<le> a \<Longrightarrow> a < 2 ^ 64 \<Longrightarrow> uint (word_of_int a :: u64) = a"
  by (simp add: uint_word_of_int)

text \<open>The address the driver programs, without wrap-around.\<close>

lemma vs_dma_addr_value:
  assumes f: "fb_linear f gem c" and box: "in_box (uint (fb_width f) * 2 ^ 16) (uint (fb_height f) * 2 ^ 16) r"
    and y: "drop_bit 16 (y1 r) < uint (fb_height f)"
  obtains a where "vs_fb_get_dma_addr f r = Some a"
    "uint a = uint gem + uint (offsets f ! 0) + drop_bit 16 (y1 r) * uint (pitches f ! 0)
      + drop_bit 16 (x1 r) * int c"
proof -
  let ?x = "drop_bit 16 (x1 r)" and ?y = "drop_bit 16 (y1 r)"
  let ?p = "uint (pitches f ! 0)" and ?h = "uint (fb_height f)" and ?w = "uint (fb_width f)"
  have x: "0 \<le> ?x" "?x \<le> ?w" and y0: "0 \<le> ?y"
    using box fixed_shift [of "x1 r" ?w] fixed_shift [of "y1 r" ?h] by (auto simp: in_box_def)
  have cw: "int c * ?w \<le> ?p" and sz: "uint (offsets f ! 0) + ?p * ?h < 2 ^ 32"
    and g: "uint gem + 2 ^ 32 \<le> 2 ^ 64" and obj: "drm_fb_dma_get_gem_obj f 0 = Some gem"
    using f by (auto simp: fb_linear_def)
  have xc: "?x * int c \<le> ?p" using x cw mult_left_mono [OF x(2), of "int c"] by (simp add: mult.commute)
  have "(?y + 1) * ?p \<le> ?h * ?p" using y by (intro mult_right_mono) auto
  then have tot: "?y * ?p + ?x * int c \<le> ?p * ?h" using xc by (simp add: algebra_simps)
  have yp: "0 \<le> ?y * ?p" "0 \<le> ?x * int c" using y0 x by simp_all
  have "?y * ?p < 2 ^ 32" using tot sz yp uint_ge_0 [of "offsets f ! 0"] by linarith
  then have lim: "?y * ?p < 2 ^ 32" "?x < 2 ^ 32" "?y < 2 ^ 32"
    using x y uint_lt2p [of "fb_width f"] uint_lt2p [of "fb_height f"] by auto
  have wx: "unat (word_of_int ?x :: u32) = nat ?x"
    using x lim by (simp add: uint_word_of_int_small flip: nat_uint_eq)
  have wy: "uint (word_of_int ?y * pitches f ! 0 :: u32) = ?y * ?p"
    using y0 lim yp by (simp add: uint_word_ariths uint_word_of_int_small)
  define a :: u64 where "a = gem + ucast (offsets f ! 0) + of_nat (nat ?x * c)
      + ucast (word_of_int ?y * pitches f ! 0 :: u32)"
  have conv: "word_of_int (uint gem) = gem" "word_of_int (uint (offsets f ! 0)) = (ucast (offsets f ! 0) :: u64)"
    "word_of_int (?x * int c) = (of_nat (nat ?x * c) :: u64)"
    "word_of_int (?y * ?p) = (ucast (word_of_int ?y * pitches f ! 0 :: u32) :: u64)"
    using x by (simp_all only: word_of_int_uint ucast_eq wy of_nat_mult of_int_mult of_nat_nat of_int_of_nat_eq)
  have aw: "a = word_of_int (uint gem + uint (offsets f ! 0) + ?x * int c + ?y * ?p)"
    unfolding of_int_add conv a_def ..
  have "0 \<le> uint gem + uint (offsets f ! 0) + ?x * int c + ?y * ?p"
      "uint gem + uint (offsets f ! 0) + ?x * int c + ?y * ?p < 2 ^ 64"
    using tot yp sz g uint_ge_0 [of gem] uint_ge_0 [of "offsets f ! 0"] by linarith+
  then have "uint a = uint gem + uint (offsets f ! 0) + ?x * int c + ?y * ?p"
    unfolding aw by (rule uint_word_of_int_small64)
  moreover have "vs_fb_get_dma_addr f r = Some a"
    by (simp add: vs_fb_get_dma_addr_def obj linear_min_pitch [OF f] wx a_def Let_def)
  ultimately show thesis by (intro that) (auto simp: algebra_simps)
qed

section \<open>Properties\<close>

text \<open>the formats \<open>drm_format_to_vs_format\<close> accepts are exactly those of the table the planes
  advertise, so the check that follows a plane's format check never fails; every other format is
  refused with \<open>-EINVAL\<close> and leaves the cached format alone; and different formats are programmed
  differently, as a hardware format and swizzle that fit their 6- and 2-bit fields.\<close>

theorem drm_format_to_vs_format_exact:
  "(fst (drm_format_to_vs_format f v) = 0 \<longleftrightarrow> f \<in> set (array (formats ident))) \<and>
   (f \<notin> set (array (formats ident)) \<longrightarrow> drm_format_to_vs_format f v = (- EINVAL, v)) \<and>
   (f \<in> set (array (formats ident)) \<and> g \<in> set (array (formats ident)) \<and>
      vs_color_format_val (color (snd (drm_format_to_vs_format f v))) =
        vs_color_format_val (color (snd (drm_format_to_vs_format g v))) \<and>
      vs_swizzle_val (swizzle (snd (drm_format_to_vs_format f v))) =
        vs_swizzle_val (swizzle (snd (drm_format_to_vs_format g v))) \<longrightarrow> f = g) \<and>
   vs_color_format_val (color (snd (drm_format_to_vs_format f v))) < 64 \<and>
   vs_swizzle_val (swizzle (snd (drm_format_to_vs_format f v))) < 4"
  if "vs_find_identity m r c vs_chip_identities = Some ident"
proof -
  have set: "set (array (formats ident)) = {f. vs_color_of f \<noteq> None}"
    using find_identity_props(3) [OF that] vs_color_supported by (auto simp: vs_formats_no_yuv444_def)
  have inj: "f = g" if "vs_color_of f = Some a" "vs_color_of g = Some a" "vs_swizzle_of f = vs_swizzle_of g"
    for f g a
    using that by (cases f; cases g) (simp_all add: vs_format_conv split: if_splits)
  have cinj: "a = b" if "vs_color_format_val a = vs_color_format_val b" for a b
    using that by (cases a; cases b) simp_all
  have sinj: "a = b" if "vs_swizzle_val a = vs_swizzle_val b" for a b
    using that by (cases a; cases b) simp_all
  have 1: "fst (drm_format_to_vs_format f v) = 0 \<longleftrightarrow> f \<in> set (array (formats ident))"
    unfolding set by (auto simp: drm_format_to_vs_format_def EINVAL_def split: option.split)
  have 2: "f \<notin> set (array (formats ident)) \<longrightarrow> drm_format_to_vs_format f v = (- EINVAL, v)"
    unfolding set by (simp add: drm_format_to_vs_format_def)
  have 3: "f = g" if "f \<in> set (array (formats ident))" "g \<in> set (array (formats ident))"
      "vs_color_format_val (color (snd (drm_format_to_vs_format f v))) =
        vs_color_format_val (color (snd (drm_format_to_vs_format g v)))"
      "vs_swizzle_val (swizzle (snd (drm_format_to_vs_format f v))) =
        vs_swizzle_val (swizzle (snd (drm_format_to_vs_format g v)))"
    using that inj unfolding set
    by (auto simp: drm_format_to_vs_format_def dest!: cinj sinj)
  have "vs_color_format_val (color (snd (drm_format_to_vs_format f v))) < 64"
    by (cases "color (snd (drm_format_to_vs_format f v))") simp_all
  moreover have "vs_swizzle_val (swizzle (snd (drm_format_to_vs_format f v))) < 4"
    by (cases "swizzle (snd (drm_format_to_vs_format f v))") simp_all
  ultimately show ?thesis using 1 2 3 by blast
qed

theorem drm_format_to_vs_format_exact_witness:
  "fst (drm_format_to_vs_format DRM_FORMAT_ABGR2101010 vs_format_0) = 0 \<and>
   drm_format_to_vs_format DRM_FORMAT_NV12 vs_format_0 = (- EINVAL, vs_format_0)"
proof -
  have i: "vs_find_identity 0 0x5560 0x305 vs_chip_identities = Some (vs_chip_identities ! 4)"
    by (simp add: vs_chip_identities_def)
  have f: "DRM_FORMAT_ABGR2101010 \<in> set (array (formats (vs_chip_identities ! 4)))"
    "DRM_FORMAT_NV12 \<notin> set (array (formats (vs_chip_identities ! 4)))"
    by (simp_all add: vs_chip_identities_def vs_formats_no_yuv444_def vs_formats_array_no_yuv444_def)
  show ?thesis
    using f drm_format_to_vs_format_exact [OF i, of DRM_FORMAT_ABGR2101010 vs_format_0]
      drm_format_to_vs_format_exact [OF i, of DRM_FORMAT_NV12 vs_format_0] by blast
qed

text \<open>C18: for a linear framebuffer and a source rectangle inside it, \<open>vs_fb_get_dma_addr\<close> returns the
  address of the rectangle's first pixel, and every pixel of the rectangle, read at the framebuffer's pitch from there,
  lies between the start and the end of the framebuffer: the controller never fetches outside the buffer.\<close>

theorem vs_fb_get_dma_addr_in_buffer:
  assumes "fb_linear f gem c"
    and "in_box (uint (fb_width f) * 2 ^ 16) (uint (fb_height f) * 2 ^ 16) r"
    and "drop_bit 16 (y1 r) < drop_bit 16 (y2 r)"
  shows "\<exists>a. vs_fb_get_dma_addr f r = Some a \<and>
    uint a = uint gem + uint (offsets f ! 0) + drop_bit 16 (y1 r) * uint (pitches f ! 0)
      + drop_bit 16 (x1 r) * int c \<and>
    (\<forall>row col. 0 \<le> row \<and> row < drop_bit 16 (y2 r) - drop_bit 16 (y1 r) \<and>
       0 \<le> col \<and> col < drop_bit 16 (x2 r) - drop_bit 16 (x1 r) \<longrightarrow>
       uint gem + uint (offsets f ! 0) \<le> uint a + row * uint (pitches f ! 0) + col * int c \<and>
       uint a + row * uint (pitches f ! 0) + (col + 1) * int c \<le> fb_end f gem)"
proof -
  let ?p = "uint (pitches f ! 0)" and ?h = "uint (fb_height f)" and ?w = "uint (fb_width f)"
  let ?x = "drop_bit 16 (x1 r)" and ?y = "drop_bit 16 (y1 r)"
  have xr: "0 \<le> ?x" "0 \<le> ?y" "drop_bit 16 (x2 r) \<le> ?w" "drop_bit 16 (y2 r) \<le> ?h"
    using assms(2) fixed_shift [of "x1 r" ?w] fixed_shift [of "y1 r" ?h] fixed_shift [of "x2 r" ?w]
      fixed_shift [of "y2 r" ?h] by (auto simp: in_box_def)
  have cw: "int c * ?w \<le> ?p" using assms(1) by (simp add: fb_linear_def)
  obtain a where a: "vs_fb_get_dma_addr f r = Some a"
    "uint a = uint gem + uint (offsets f ! 0) + ?y * ?p + ?x * int c"
    using vs_dma_addr_value [OF assms(1,2)] assms(3) xr(4) by auto
  have "uint gem + uint (offsets f ! 0) \<le> uint a + row * ?p + col * int c \<and>
      uint a + row * ?p + (col + 1) * int c \<le> fb_end f gem"
    if rc: "0 \<le> row" "row < drop_bit 16 (y2 r) - ?y" "0 \<le> col" "col < drop_bit 16 (x2 r) - ?x" for row col
  proof
    have "0 \<le> ?y * ?p" "0 \<le> ?x * int c" "0 \<le> row * ?p" "0 \<le> col * int c" using xr rc by simp_all
    then show "uint gem + uint (offsets f ! 0) \<le> uint a + row * ?p + col * int c"
      using a(2) by linarith
    have "(?x + col + 1) * int c \<le> ?w * int c" using rc xr by (intro mult_right_mono) auto
    then have 1: "(?x + col + 1) * int c \<le> ?p" using cw by (simp add: mult.commute)
    have "(?y + row + 1) * ?p \<le> ?h * ?p" using rc xr by (intro mult_right_mono) auto
    then have "(?y + row) * ?p + (?x + col + 1) * int c \<le> ?p * ?h"
      using 1 by (simp add: algebra_simps)
    then show "uint a + row * ?p + (col + 1) * int c \<le> fb_end f gem"
      using a(2) by (simp add: fb_end_def algebra_simps)
  qed
  then show ?thesis using a by blast
qed

theorem vs_fb_get_dma_addr_in_buffer_witness:
  "vs_fb_get_dma_addr example_fb \<lparr>x1 = 655360, y1 = 131072, x2 = 6553600, y2 = 3276800\<rparr> = Some 0x80000348 \<and>
   uint (0x80000348 :: u64) + 47 * 400 + 90 * 4 \<le> fb_end example_fb 0x80000000"
proof -
  let ?r = "\<lparr>x1 = 655360, y1 = 131072, x2 = 6553600, y2 = 3276800\<rparr>"
  have l: "fb_linear example_fb 0x80000000 4"
    by (simp add: fb_linear_def example_fb_def xrgb_info_def drm_fb_dma_get_gem_obj_def drm_gem_fb_get_obj_def)
  have b: "in_box (uint (fb_width example_fb) * 2 ^ 16) (uint (fb_height example_fb) * 2 ^ 16) ?r"
    by (simp add: in_box_def example_fb_def)
  have s: "drop_bit 16 (y1 ?r) = 2" "drop_bit 16 (y2 ?r) = 50" "drop_bit 16 (x1 ?r) = 10"
    "drop_bit 16 (x2 ?r) = 100" by (simp_all add: drop_bit_eq_div)
  have p: "uint (pitches example_fb ! 0) = 400" by (simp add: example_fb_def)
  obtain a where a: "vs_fb_get_dma_addr example_fb ?r = Some a"
    and h: "\<forall>row col. 0 \<le> row \<and> row < 48 \<and> 0 \<le> col \<and> col < 90 \<longrightarrow>
       uint a + row * 400 + (col + 1) * int 4 \<le> fb_end example_fb 0x80000000"
    using vs_fb_get_dma_addr_in_buffer [OF l b] unfolding s p by auto
  have "vs_fb_get_dma_addr example_fb ?r = Some 0x80000348" by code_simp
  then show ?thesis using a h [rule_format, of 47 89] by simp
qed

text \<open>C17: the plane state hooks keep the reference counts balanced. Duplicating a state takes exactly the references
  the copy holds, so destroying the copy restores every count; the copy keeps the framebuffer, the
  geometry and the cached hardware format and drops the per-commit fence, commit and damage. A reset releases exactly what the old
  state held, whether or not the new allocation succeeds.\<close>

theorem vs_plane_state_balanced:
  assumes "ref_laws api refs"
    and "vs_plane_duplicate_state api True (Some s) w = (Some s', w')"
    and "vs_plane_reset api ao bp d alloc (Some s) w = (rs, w'')"
  shows "refs (vs_plane_destroy_state api s' w') = refs w \<and>
    base s' = (base s)\<lparr>fence := None, commit := None, fb_damage_clips := None, color_mgmt_changed := False\<rparr> \<and>
    format s' = format s \<and>
    refs w'' = (\<lambda>r. refs w r - holds (base s) r) \<and> (rs = None \<longleftrightarrow> \<not> alloc)"
proof -
  obtain b where b: "drm_atomic_helper_plane_duplicate_base api (base s) w = (b, w')"
    and s': "s' = \<lparr>base = b, format = format s\<rparr>"
    using assms(2) by (auto simp: vs_plane_duplicate_state_def split: prod.splits)
  have "refs (vs_plane_destroy_state api s' w') r = refs w r" for r
    using ref_laws.duplicate_acquires [OF assms(1) b, of r] ref_laws.destroy_releases [OF assms(1)]
    by (simp add: vs_plane_destroy_state_def s')
  moreover have "refs w'' r = refs w r - holds (base s) r" for r
    using assms(3) ref_laws.destroy_releases [OF assms(1), of "base s" w r]
    by (auto simp: vs_plane_reset_def Let_def split: if_splits)
  moreover have "rs = None \<longleftrightarrow> \<not> alloc"
    using assms(3) by (auto simp: vs_plane_reset_def Let_def split: if_splits)
  ultimately show ?thesis
    using b s' by (auto simp: drm_atomic_helper_plane_duplicate_base_def Let_def fun_eq_iff)
qed

theorem vs_plane_state_balanced_witness:
  "let s = \<lparr>base = example_state\<lparr>fence := Some 7\<rparr>, format = vs_format_0\<rparr>;
       (s', w') = vs_plane_duplicate_state count_refs True (Some s) (\<lambda>_. 1)
   in w' (FbRef 1) = 2 \<and> vs_plane_destroy_state count_refs (the s') w' = (\<lambda>_. 1)"
proof -
  let ?s = "\<lparr>base = example_state\<lparr>fence := Some 7\<rparr>, format = vs_format_0\<rparr>"
  obtain s' w' where d: "vs_plane_duplicate_state count_refs True (Some ?s) (\<lambda>_. 1) = (Some s', w')"
    and v: "w' (FbRef 1) = 2"
    by (simp add: vs_plane_duplicate_state_def drm_atomic_helper_plane_duplicate_base_def count_refs_def
        example_state_def example_fb_def)
  obtain rs w'' where r: "vs_plane_reset count_refs 0 0
      \<lparr>color_encoding_default = None, color_range_default = None, color_pipeline_property = False, zpos_default = None, hotspot_x_default = None, hotspot_y_default = None\<rparr> True (Some ?s) (\<lambda>_. 1) = (rs, w'')"
    by fastforce
  show ?thesis using vs_plane_state_balanced [OF cr.ref_laws_axioms d r] d v by simp
qed

end
