(* ===== verification/Reg_Fields.thy ===== *)
theory Reg_Fields
  imports Board_Api
begin

text \<open>
  The algebra of register fields under read-modify-write: what a field holds after an update, a set or a
  clear of itself or of another field. These are the lemmas through which the drivers' register programming
  is read back; \<open>field_get\<close> collects them.
\<close>

named_theorems field_get \<open>fields after register updates\<close>

lemma FIELD_GET_update [field_get]:
  assumes "l \<le> h" "h < 32"
  shows "FIELD_GET (GENMASK h l) ((r AND NOT (GENMASK h l)) OR (push_bit l v AND GENMASK h l)) =
    take_bit (Suc h - l) v"
  by (rule bit_word_eqI) (use assms in \<open>auto simp: regfield dest: bit_imp_le_length\<close>)

lemma FIELD_GET_update_prep [field_get]:
  assumes "l \<le> h" "h < 32"
  shows "FIELD_GET (GENMASK h l) ((r AND NOT (GENMASK h l)) OR (FIELD_PREP (GENMASK h l) v AND GENMASK h l)) =
    take_bit (Suc h - l) v"
  by (rule bit_word_eqI) (use assms in \<open>auto simp: regfield dest: bit_imp_le_length\<close>)

lemma FIELD_GET_update_0 [field_get]:
  assumes "h < 32"
  shows "FIELD_GET (GENMASK h 0) ((r AND NOT (GENMASK h 0)) OR (v AND GENMASK h 0)) = take_bit (Suc h) v"
  using FIELD_GET_update [of 0 h r v] assms by simp

lemma FIELD_GET_other [field_get]:
  assumes "l \<le> h" "h < 32" "h < l' \<or> h' < l"
  shows "FIELD_GET (GENMASK h l) ((r AND NOT (GENMASK h' l')) OR (v AND GENMASK h' l')) =
    FIELD_GET (GENMASK h l) r"
  by (rule bit_word_eqI) (use assms in \<open>auto simp: regfield dest: bit_imp_le_length\<close>)

lemma FIELD_GET_or_BIT [field_get]:
  assumes "l \<le> h" "h < 32" "k < l \<or> h < k"
  shows "FIELD_GET (GENMASK h l) (r OR BIT k) = FIELD_GET (GENMASK h l) r"
  by (rule bit_word_eqI) (use assms in \<open>auto simp: regfield dest: bit_imp_le_length\<close>)

lemma FIELD_GET_clear_BIT [field_get]:
  assumes "l \<le> h" "h < 32" "k < l \<or> h < k"
  shows "FIELD_GET (GENMASK h l) (r AND NOT (BIT k)) = FIELD_GET (GENMASK h l) r"
  by (rule bit_word_eqI) (use assms in \<open>auto simp: regfield dest: bit_imp_le_length\<close>)

lemma FIELD_GET_update_zero [field_get]:
  assumes "l \<le> h" "h < 32"
  shows "FIELD_GET (GENMASK h l) (r AND NOT (GENMASK h l)) = 0"
  using FIELD_GET_update [OF assms, of r 0] by simp

lemma FIELD_GET_clear_other [field_get]:
  assumes "l \<le> h" "h < 32" "h < l' \<or> h' < l"
  shows "FIELD_GET (GENMASK h l) (r AND NOT (GENMASK h' l')) = FIELD_GET (GENMASK h l) r"
  using FIELD_GET_other [OF assms, of r 0] by simp

text \<open>The test of one bit.\<close>

lemma and_BIT_iff: "x AND BIT i \<noteq> 0 \<longleftrightarrow> i < 32 \<and> bit x i" for x :: u32
proof
  assume "x AND BIT i \<noteq> 0"
  then obtain n where "bit (x AND BIT i) n" by (metis bit_eq_iff bit_0_eq bot_apply bot_bool_def)
  then show "i < 32 \<and> bit x i" by (auto simp: regfield)
next
  assume "i < 32 \<and> bit x i"
  then have "bit (x AND BIT i) i" by (auto simp: regfield)
  then show "x AND BIT i \<noteq> 0" by auto
qed

text \<open>Values that fit their field.\<close>

lemma bit_small: "unat v < 2 ^ k \<Longrightarrow> bit v n \<Longrightarrow> n < k" for v :: u32
  by (metis take_bit_u32_small bit_take_bit_iff)

lemma FIELD_GET_pair:
  assumes "unat a < 2 ^ Suc h" "h < l'" "l' \<le> h'" "h' < 32" "unat b < 2 ^ (Suc h' - l')"
  shows "FIELD_GET (GENMASK h 0) (a OR push_bit l' b) = a"
    and "FIELD_GET (GENMASK h' l') (a OR push_bit l' b) = b"
proof -
  have a: "n \<le> h" if "bit a n" for n using bit_small [OF assms(1) that] by simp
  have b: "n + l' \<le> h'" if "bit b n" for n using bit_small [OF assms(5) that] by simp
  show "FIELD_GET (GENMASK h 0) (a OR push_bit l' b) = a"
    by (rule bit_word_eqI) (use assms a in \<open>auto simp: regfield\<close>)
  show "FIELD_GET (GENMASK h' l') (a OR push_bit l' b) = b"
    by (rule bit_word_eqI) (use assms a b in \<open>fastforce simp: regfield\<close>)
qed

lemma uint_u16_u32 [simp]: "uint (ucast (v :: u16) :: u32) = uint v"
  by (rule uint_up_ucast) (simp add: is_up)

lemma u16_u32_small: "uint (v :: u16) < 2 ^ k \<Longrightarrow> unat (ucast v :: u32) < 2 ^ k"
proof -
  assume "uint v < 2 ^ k"
  then have "int (unat (ucast v :: u32)) < int (2 ^ k)"
    using uint_u16_u32 [of v] by (simp only: of_nat_unat ucast_id of_nat_power of_nat_numeral)
  then show ?thesis by (simp only: of_nat_less_iff)
qed

text \<open>The timing registers: two 15-bit values in a word.\<close>

lemma FIELD_GET_sync:
  assumes "unat a < 2 ^ 15" "unat b < 2 ^ 15"
  shows "FIELD_GET (GENMASK 14 0) (a OR push_bit 15 b OR BIT 30) = a"
    "FIELD_GET (GENMASK 29 15) (a OR push_bit 15 b OR BIT 30) = b"
    "bit (a OR push_bit 15 b OR BIT 30) 30" "\<not> bit (a OR push_bit 15 b OR BIT 30) 31"
proof -
  have o: "a OR push_bit 15 b OR BIT 30 = (a OR push_bit 15 b) OR BIT 30" by (simp add: or.assoc)
  show "FIELD_GET (GENMASK 14 0) (a OR push_bit 15 b OR BIT 30) = a"
    "FIELD_GET (GENMASK 29 15) (a OR push_bit 15 b OR BIT 30) = b"
    unfolding o using FIELD_GET_pair [of a 14 15 29 b] assms by (simp_all add: field_get)
  show "bit (a OR push_bit 15 b OR BIT 30) 30" by (simp add: regfield)
  show "\<not> bit (a OR push_bit 15 b OR BIT 30) 31"
    using bit_small [OF assms(1), of 31] bit_small [OF assms(2), of 16] by (auto simp: regfield)
qed

lemma FIELD_GET_total:
  assumes "unat a < 2 ^ 15" "unat b < 2 ^ 15"
  shows "FIELD_GET (GENMASK 14 0) (a OR push_bit 16 b) = a"
    "FIELD_GET (GENMASK 30 16) (a OR push_bit 16 b) = b"
  using FIELD_GET_pair [of a 14 16 30 b] assms by simp_all

lemma timing_small: "a \<le> t \<Longrightarrow> uint t < 2 ^ 15 \<Longrightarrow> unat (ucast (a :: u16) :: u32) < 2 ^ 15"
  by (intro u16_u32_small) (simp add: word_le_def)

end
