(* ===== verification/Vs_Dc.thy ===== *)
theory Vs_Dc
  imports Vs_Plane Reg_Fields
begin

text \<open>
  The display controller object and the operations that differ between its generations
  (\<open>drm/verisilicon/vs_dc.h\<close>, \<open>vs_dc8000.c\<close>, \<open>vs_dc8200.c\<close>).

  A hook of \<open>vs_dc_funcs\<close> takes the register map of the controller (all it uses of the \<open>struct vs_dc\<close> it is
  passed), the output number and the machine state. Hooks the callers test for null are options; the ones they call
  unconditionally are functions. The locale \<open>vblank_ops\<close> is the contract of the interrupt hooks that the
  CRTC and the interrupt handler rely on; both generations are interpretations of it.
\<close>

section \<open>Data\<close>

definition VSDC_MAX_OUTPUTS :: nat where "VSDC_MAX_OUTPUTS = 2"
definition VSDC_RESET_COUNT :: nat where "VSDC_RESET_COUNT = 3"

record 'w vs_dc_funcs =
  panel_enable_ex :: "'w regmap_api \<Rightarrow> nat \<Rightarrow> 'w \<Rightarrow> 'w"
  panel_disable_ex :: "'w regmap_api \<Rightarrow> nat \<Rightarrow> 'w \<Rightarrow> 'w"
  crtc_begin :: "('w regmap_api \<Rightarrow> nat \<Rightarrow> 'w \<Rightarrow> 'w) option"
  crtc_flush :: "('w regmap_api \<Rightarrow> nat \<Rightarrow> 'w \<Rightarrow> 'w) option"
  crtc_enable_ex :: "('w regmap_api \<Rightarrow> nat \<Rightarrow> 'w \<Rightarrow> 'w) option"
  crtc_disable_ex :: "('w regmap_api \<Rightarrow> nat \<Rightarrow> 'w \<Rightarrow> 'w) option"
  enable_vblank :: "'w regmap_api \<Rightarrow> nat \<Rightarrow> 'w \<Rightarrow> 'w"
  disable_vblank :: "'w regmap_api \<Rightarrow> nat \<Rightarrow> 'w \<Rightarrow> 'w"
  primary_plane_enable_ex :: "('w regmap_api \<Rightarrow> nat \<Rightarrow> 'w \<Rightarrow> 'w) option"
  primary_plane_disable_ex :: "('w regmap_api \<Rightarrow> nat \<Rightarrow> 'w \<Rightarrow> 'w) option"
  primary_plane_update_ex :: "('w regmap_api \<Rightarrow> nat \<Rightarrow> drm_plane_state \<Rightarrow> 'w \<Rightarrow> 'w) option"
  irq_ack :: "'w regmap_api \<Rightarrow> 'w \<Rightarrow> u32 \<times> 'w"

record vs_crtc =
  vcrtc_id :: nat

record vs_drm_dev =
  crtcs :: "vs_crtc option list"

record 'w vs_dc =
  dc_regs :: "'w regmap_api"
  core_clk :: clk
  axi_clk :: clk
  ahb_clk :: clk
  pix_clk :: "clk list"
  drm_dev :: "vs_drm_dev option"
  identity :: vs_chip_identity
  funcs :: "'w vs_dc_funcs"

section \<open>DC8000\<close>

definition vs_dc8000_panel_enable_ex :: "'w regmap_api \<Rightarrow> nat \<Rightarrow> 'w \<Rightarrow> 'w" where
  "vs_dc8000_panel_enable_ex rm output w =
     regmap_set_bits rm w (VSDC_FB_CONFIG output) VSDC_FB_CONFIG_RESET"

definition vs_dc8000_panel_disable_ex :: "'w regmap_api \<Rightarrow> nat \<Rightarrow> 'w \<Rightarrow> 'w" where
  "vs_dc8000_panel_disable_ex rm output w =
     regmap_clear_bits rm w (VSDC_FB_CONFIG output) VSDC_FB_CONFIG_RESET"

definition vs_dc8000_crtc_begin :: "'w regmap_api \<Rightarrow> nat \<Rightarrow> 'w \<Rightarrow> 'w" where
  "vs_dc8000_crtc_begin rm output w =
     regmap_set_bits rm w (VSDC_FB_CONFIG output) VSDC_FB_CONFIG_VALID"

definition vs_dc8000_crtc_flush :: "'w regmap_api \<Rightarrow> nat \<Rightarrow> 'w \<Rightarrow> 'w" where
  "vs_dc8000_crtc_flush rm output w =
     regmap_clear_bits rm w (VSDC_FB_CONFIG output) VSDC_FB_CONFIG_VALID"

definition vs_dc8000_crtc_enable_ex :: "'w regmap_api \<Rightarrow> nat \<Rightarrow> 'w \<Rightarrow> 'w" where
  "vs_dc8000_crtc_enable_ex rm output w =
     regmap_set_bits rm w (VSDC_FB_CONFIG output) VSDC_FB_CONFIG_ENABLE"

definition vs_dc8000_crtc_disable_ex :: "'w regmap_api \<Rightarrow> nat \<Rightarrow> 'w \<Rightarrow> 'w" where
  "vs_dc8000_crtc_disable_ex rm output w =
     regmap_clear_bits rm w (VSDC_FB_CONFIG output) VSDC_FB_CONFIG_ENABLE"

definition vs_dc8000_enable_vblank :: "'w regmap_api \<Rightarrow> nat \<Rightarrow> 'w \<Rightarrow> 'w" where
  "vs_dc8000_enable_vblank rm output w =
     regmap_set_bits rm w VSDC_DISP_IRQ_EN (VSDC_DISP_IRQ_VSYNC output)"

definition vs_dc8000_disable_vblank :: "'w regmap_api \<Rightarrow> nat \<Rightarrow> 'w \<Rightarrow> 'w" where
  "vs_dc8000_disable_vblank rm output w =
     regmap_clear_bits rm w VSDC_DISP_IRQ_EN (VSDC_DISP_IRQ_VSYNC output)"

text \<open>The warning about unknown bits only logs.\<close>

definition vs_dc8000_irq_ack :: "'w regmap_api \<Rightarrow> 'w \<Rightarrow> u32 \<times> 'w" where
  "vs_dc8000_irq_ack rm w =
     (let (hw_irqs, w) = regmap_read rm w VSDC_DISP_IRQ_STA;
          unified = fold (\<lambda>i unified. if hw_irqs AND VSDC_DISP_IRQ_VSYNC i \<noteq> 0
                                      then unified OR VSDC_IRQ_VSYNC i else unified)
                      [0..<VSDC_MAX_OUTPUTS] 0
      in (unified, w))"

definition vs_dc8000_funcs :: "'w vs_dc_funcs" where
  "vs_dc8000_funcs = \<lparr>
     panel_enable_ex = vs_dc8000_panel_enable_ex,
     panel_disable_ex = vs_dc8000_panel_disable_ex,
     crtc_begin = Some vs_dc8000_crtc_begin,
     crtc_flush = Some vs_dc8000_crtc_flush,
     crtc_enable_ex = Some vs_dc8000_crtc_enable_ex,
     crtc_disable_ex = Some vs_dc8000_crtc_disable_ex,
     enable_vblank = vs_dc8000_enable_vblank,
     disable_vblank = vs_dc8000_disable_vblank,
     primary_plane_enable_ex = None,
     primary_plane_disable_ex = None,
     primary_plane_update_ex = None,
     irq_ack = vs_dc8000_irq_ack\<rparr>"

section \<open>DC8200\<close>

definition vs_dc8200_panel_enable_ex :: "'w regmap_api \<Rightarrow> nat \<Rightarrow> 'w \<Rightarrow> 'w" where
  "vs_dc8200_panel_enable_ex rm output w =
     (let w = regmap_set_bits rm w (VSDC_DISP_PANEL_CONFIG output) VSDC_DISP_PANEL_CONFIG_RUNNING;
          w = regmap_clear_bits rm w VSDC_DISP_PANEL_START VSDC_DISP_PANEL_START_MULTI_DISP_SYNC;
          w = regmap_set_bits rm w VSDC_DISP_PANEL_START (VSDC_DISP_PANEL_START_RUNNING output)
      in regmap_set_bits rm w (VSDC_DISP_PANEL_CONFIG_EX output) VSDC_DISP_PANEL_CONFIG_EX_COMMIT)"

definition vs_dc8200_panel_disable_ex :: "'w regmap_api \<Rightarrow> nat \<Rightarrow> 'w \<Rightarrow> 'w" where
  "vs_dc8200_panel_disable_ex rm output w =
     (let w = regmap_clear_bits rm w (VSDC_DISP_PANEL_CONFIG output) VSDC_DISP_PANEL_CONFIG_RUNNING;
          w = regmap_clear_bits rm w VSDC_DISP_PANEL_START
                (VSDC_DISP_PANEL_START_MULTI_DISP_SYNC OR VSDC_DISP_PANEL_START_RUNNING output)
      in regmap_set_bits rm w (VSDC_DISP_PANEL_CONFIG_EX output) VSDC_DISP_PANEL_CONFIG_EX_COMMIT)"

definition vs_dc8200_enable_vblank :: "'w regmap_api \<Rightarrow> nat \<Rightarrow> 'w \<Rightarrow> 'w" where
  "vs_dc8200_enable_vblank rm output w =
     regmap_set_bits rm w VSDC_TOP_IRQ_EN (VSDC_TOP_IRQ_VSYNC output)"

definition vs_dc8200_disable_vblank :: "'w regmap_api \<Rightarrow> nat \<Rightarrow> 'w \<Rightarrow> 'w" where
  "vs_dc8200_disable_vblank rm output w =
     regmap_clear_bits rm w VSDC_TOP_IRQ_EN (VSDC_TOP_IRQ_VSYNC output)"

definition vs_dc8200_plane_commit :: "'w regmap_api \<Rightarrow> nat \<Rightarrow> 'w \<Rightarrow> 'w" where
  "vs_dc8200_plane_commit rm output w =
     regmap_set_bits rm w (VSDC_FB_CONFIG_EX output) VSDC_FB_CONFIG_EX_COMMIT"

definition vs_dc8200_primary_plane_enable_ex :: "'w regmap_api \<Rightarrow> nat \<Rightarrow> 'w \<Rightarrow> 'w" where
  "vs_dc8200_primary_plane_enable_ex rm output w =
     (let w = regmap_set_bits rm w (VSDC_FB_CONFIG_EX output) VSDC_FB_CONFIG_EX_FB_EN;
          w = regmap_update_bits rm w (VSDC_FB_CONFIG_EX output) VSDC_FB_CONFIG_EX_DISPLAY_ID_MASK
                (VSDC_FB_CONFIG_EX_DISPLAY_ID output)
      in vs_dc8200_plane_commit rm output w)"

definition vs_dc8200_primary_plane_disable_ex :: "'w regmap_api \<Rightarrow> nat \<Rightarrow> 'w \<Rightarrow> 'w" where
  "vs_dc8200_primary_plane_disable_ex rm output w =
     (let w = regmap_set_bits rm w (VSDC_FB_CONFIG_EX output) VSDC_FB_CONFIG_EX_FB_EN
      in vs_dc8200_plane_commit rm output w)"

definition vs_dc8200_primary_plane_update_ex ::
    "'w regmap_api \<Rightarrow> nat \<Rightarrow> drm_plane_state \<Rightarrow> 'w \<Rightarrow> 'w" where
  "vs_dc8200_primary_plane_update_ex rm output state w =
     (let x = word_of_int (crtc_x state); y = word_of_int (crtc_y state);
          w = regmap_write rm w (VSDC_FB_TOP_LEFT output) (VSDC_MAKE_PLANE_POS x y);
          w = regmap_write rm w (VSDC_FB_BOTTOM_RIGHT output)
                (VSDC_MAKE_PLANE_POS (x + crtc_w state) (y + crtc_h state));
          w = regmap_write rm w (VSDC_FB_BLEND_CONFIG output) VSDC_FB_BLEND_CONFIG_BLEND_DISABLE
      in vs_dc8200_plane_commit rm output w)"

definition vs_dc8200_irq_ack :: "'w regmap_api \<Rightarrow> 'w \<Rightarrow> u32 \<times> 'w" where
  "vs_dc8200_irq_ack rm w =
     (let (hw_irqs, w) = regmap_read rm w VSDC_TOP_IRQ_ACK;
          unified = fold (\<lambda>i unified. if hw_irqs AND VSDC_TOP_IRQ_VSYNC i \<noteq> 0
                                      then unified OR VSDC_IRQ_VSYNC i else unified)
                      [0..<VSDC_MAX_OUTPUTS] 0
      in (unified, w))"

definition vs_dc8200_funcs :: "'w vs_dc_funcs" where
  "vs_dc8200_funcs = \<lparr>
     panel_enable_ex = vs_dc8200_panel_enable_ex,
     panel_disable_ex = vs_dc8200_panel_disable_ex,
     crtc_begin = None,
     crtc_flush = None,
     crtc_enable_ex = None,
     crtc_disable_ex = None,
     enable_vblank = vs_dc8200_enable_vblank,
     disable_vblank = vs_dc8200_disable_vblank,
     primary_plane_enable_ex = Some vs_dc8200_primary_plane_enable_ex,
     primary_plane_disable_ex = Some vs_dc8200_primary_plane_disable_ex,
     primary_plane_update_ex = Some vs_dc8200_primary_plane_update_ex,
     irq_ack = vs_dc8200_irq_ack\<rparr>"

section \<open>The interrupt hooks' contract\<close>

text \<open>
  Enabling or disabling the vertical blanking interrupt changes one bit of the enable register;
  acknowledging reads the status register once and returns exactly the pending vertical sync bits of the
  possible outputs.
\<close>

locale vblank_ops =
  fixes ops :: "'w vs_dc_funcs" and irq_en :: u32 and irq_sta :: u32
  assumes en_sta: "irq_en \<noteq> irq_sta"
    and enable_regs: "regmap_laws rm rf \<Longrightarrow>
      rf (enable_vblank ops rm i w) = (rf w)(irq_en := rf w irq_en OR BIT i)"
    and disable_regs: "regmap_laws rm rf \<Longrightarrow>
      rf (disable_vblank ops rm i w) = (rf w)(irq_en := rf w irq_en AND NOT (BIT i))"
    and ack_bits: "regmap_laws rm rf \<Longrightarrow>
      bit (fst (irq_ack ops rm w)) i \<longleftrightarrow> i < VSDC_MAX_OUTPUTS \<and> bit (rf w irq_sta) i"
    and ack_world: "snd (irq_ack ops rm w) = snd (regmap_read rm w irq_sta)"
begin

lemma enable_bit:
  assumes "regmap_laws rm rf" "i < VSDC_MAX_OUTPUTS"
  shows "bit (rf (enable_vblank ops rm i w) irq_en) j \<longleftrightarrow> j = i \<or> bit (rf w irq_en) j"
  using assms by (auto simp: enable_regs [OF assms(1)] VSDC_MAX_OUTPUTS_def regfield)

lemma disable_bit:
  assumes "regmap_laws rm rf"
  shows "bit (rf (disable_vblank ops rm i w) irq_en) j \<longleftrightarrow> j \<noteq> i \<and> bit (rf w irq_en) j"
  by (auto simp: disable_regs [OF assms] regfield dest: bit_imp_le_length)

lemma disable_enable:
  assumes "regmap_laws rm rf" "i < VSDC_MAX_OUTPUTS" "\<not> bit (rf w irq_en) i"
  shows "rf (disable_vblank ops rm i (enable_vblank ops rm i w)) = rf w"
proof (rule ext)
  fix a
  have "(rf w irq_en OR BIT i) AND NOT (BIT i) = rf w irq_en"
    by (rule bit_word_eqI) (use assms(3) in \<open>auto simp: regfield\<close>)
  then show "rf (disable_vblank ops rm i (enable_vblank ops rm i w)) a = rf w a"
    by (simp add: disable_regs [OF assms(1)] enable_regs [OF assms(1)])
qed

end

lemma irq_unify_bits:
  "bit (fold (\<lambda>i u. if hw AND BIT i \<noteq> 0 then u OR BIT i else u) [0..<VSDC_MAX_OUTPUTS] (0 :: u32)) i \<longleftrightarrow>
   i < VSDC_MAX_OUTPUTS \<and> bit (hw :: u32) i"
proof -
  have "[0..<VSDC_MAX_OUTPUTS] = [0, 1]" by (simp add: VSDC_MAX_OUTPUTS_def upt_rec)
  then show ?thesis
    by (cases "i = 0"; cases "i = 1") (auto simp: VSDC_MAX_OUTPUTS_def and_BIT_iff regfield)
qed

lemma ack_status:
  assumes "regmap_laws rm rf" "regmap_read rm w r = (v, w')"
  shows "v = rf w r"
  using regmap_laws.read_value [OF assms(1), of w r] assms(2) by simp

lemmas dc8000_defs = vs_dc8000_funcs_def vs_dc8000_enable_vblank_def vs_dc8000_disable_vblank_def
  vs_dc8000_irq_ack_def VSDC_DISP_IRQ_VSYNC_def VSDC_IRQ_VSYNC_def

lemmas dc8200_defs = vs_dc8200_funcs_def vs_dc8200_enable_vblank_def vs_dc8200_disable_vblank_def
  vs_dc8200_irq_ack_def VSDC_TOP_IRQ_VSYNC_def VSDC_IRQ_VSYNC_def

interpretation dc8000: vblank_ops vs_dc8000_funcs VSDC_DISP_IRQ_EN VSDC_DISP_IRQ_STA
proof (unfold_locales, goal_cases)
  case (4 rm rf w i)
  obtain v w' where r: "regmap_read rm w VSDC_DISP_IRQ_STA = (v, w')" by fastforce
  show ?case using irq_unify_bits [of v i] ack_status [OF 4 r] by (simp add: dc8000_defs r cong: if_cong)
qed (simp_all add: dc8000_defs vs_addr regmap_laws.regs_simps fun_eq_iff split: prod.split)

interpretation dc8200: vblank_ops vs_dc8200_funcs VSDC_TOP_IRQ_EN VSDC_TOP_IRQ_ACK
proof (unfold_locales, goal_cases)
  case (4 rm rf w i)
  obtain v w' where r: "regmap_read rm w VSDC_TOP_IRQ_ACK = (v, w')" by fastforce
  show ?case using irq_unify_bits [of v i] ack_status [OF 4 r] by (simp add: dc8200_defs r cong: if_cong)
qed (simp_all add: dc8200_defs vs_addr regmap_laws.regs_simps fun_eq_iff split: prod.split)

end
