(* ===== verification/Vs_Primary.thy ===== *)
theory Vs_Primary
  imports Vs_Dc
begin

text \<open>
  The primary plane of the Verisilicon driver (\<open>drm/verisilicon/vs_primary_plane.c\<close>): check, enable,
  disable, update and creation.

  The CRTC a plane state points to is given by its output number (\<open>vcrtc->id\<close>). A hook that would dereference a null
  CRTC, framebuffer or buffer object returns \<open>None\<close>. The creation functions take the outcome of the DRM
  allocation as an argument.
\<close>

section \<open>Operations\<close>

text \<open>
  The framebuffer is dereferenced only for a visible plane, and a visible plane has one
  (\<open>check_visible_fb\<close> below).
\<close>

definition vs_primary_plane_atomic_check ::
    "plane_hdr \<Rightarrow> vs_plane_state \<Rightarrow> drm_crtc_state \<Rightarrow> int \<times> vs_plane_state" where
  "vs_primary_plane_atomic_check hdr new_vs_plane_state crtc_state =
     (let (ret, b) = drm_atomic_helper_check_plane_state hdr (base new_vs_plane_state) crtc_state
            DRM_PLANE_NO_SCALING DRM_PLANE_NO_SCALING False True;
          st = new_vs_plane_state\<lparr>base := b\<rparr>
      in if ret \<noteq> 0 then (ret, st)
         else if \<not> visible b then (0, st)
         else case fb b of
                None \<Rightarrow> (0, st)
              | Some f \<Rightarrow>
                  let (ret, fmt) = drm_format_to_vs_format (fi_format (fb_format f)) (format st)
                  in (ret, st\<lparr>format := fmt\<rparr>))"

definition vs_primary_plane_atomic_enable :: "'w vs_dc \<Rightarrow> vs_plane_state \<Rightarrow> 'w \<Rightarrow> 'w option" where
  "vs_primary_plane_atomic_enable dc new_state w =
     (case crtc (base new_state) of
        None \<Rightarrow> None
      | Some output \<Rightarrow> Some (case primary_plane_enable_ex (funcs dc) of
            None \<Rightarrow> w | Some f \<Rightarrow> f (dc_regs dc) output w))"

definition vs_primary_plane_atomic_disable :: "'w vs_dc \<Rightarrow> vs_plane_state \<Rightarrow> 'w \<Rightarrow> 'w option" where
  "vs_primary_plane_atomic_disable dc old_state w =
     (case crtc (base old_state) of
        None \<Rightarrow> None
      | Some output \<Rightarrow> Some (case primary_plane_disable_ex (funcs dc) of
            None \<Rightarrow> w | Some f \<Rightarrow> f (dc_regs dc) output w))"

definition vs_primary_plane_atomic_update ::
    "'w vs_dc \<Rightarrow> vs_plane_state \<Rightarrow> vs_plane_state \<Rightarrow> 'w \<Rightarrow> 'w option" where
  "vs_primary_plane_atomic_update dc old_state vs_state w =
     (let state = base vs_state; rm = dc_regs dc
      in if \<not> visible state then vs_primary_plane_atomic_disable dc old_state w
         else case (crtc state, fb state) of
           (Some output, Some f) \<Rightarrow>
             let w = regmap_update_bits rm w (VSDC_FB_CONFIG output) VSDC_FB_CONFIG_FMT_MASK
                       (VSDC_FB_CONFIG_FMT (vs_color_format_val (color (format vs_state))));
                 w = regmap_update_bits rm w (VSDC_FB_CONFIG output) VSDC_FB_CONFIG_SWIZZLE_MASK
                       (VSDC_FB_CONFIG_SWIZZLE (vs_swizzle_val (swizzle (format vs_state))));
                 w = regmap_assign_bits rm w (VSDC_FB_CONFIG output) VSDC_FB_CONFIG_UV_SWIZZLE_EN
                       (uv_swizzle (format vs_state))
             in (case vs_fb_get_dma_addr f (src state) of
                   None \<Rightarrow> None
                 | Some dma_addr \<Rightarrow>
                     let w = regmap_write rm w (VSDC_FB_ADDRESS output) (lower_32_bits dma_addr);
                         w = regmap_write rm w (VSDC_FB_STRIDE output) (pitches f ! 0);
                         w = regmap_write rm w (VSDC_FB_SIZE output)
                               (VSDC_MAKE_PLANE_SIZE (crtc_w state) (crtc_h state))
                     in Some (case primary_plane_update_ex (funcs dc) of
                          None \<Rightarrow> w | Some u \<Rightarrow> u rm output state w))
         | _ \<Rightarrow> None)"

text \<open>
  \<open>drmm_universal_plane_alloc\<close> either fails with an error pointer or gives a plane with the arguments' type
  and formats; no CRTC is possible until the CRTC is created.
\<close>

definition vs_primary_plane_init ::
    "(drm_plane \<Rightarrow> int + drm_plane) \<Rightarrow> 'w vs_dc \<Rightarrow> int + drm_plane" where
  "vs_primary_plane_init drmm_universal_plane_alloc dc =
     drmm_universal_plane_alloc \<lparr>plane_type = DRM_PLANE_TYPE_PRIMARY, possible_crtcs = {},
       format_types = take (num (formats (identity dc))) (array (formats (identity dc))),
       modifiers = [], format_mod_supported = None\<rparr>"

section \<open>Lemmas\<close>

lemma check_visible_fb:
  assumes "drm_atomic_helper_check_plane_state hdr st cs lo hi cp cud = (0, st')" "visible st'"
  shows "fb st' = fb st" "fb st \<noteq> None" "crtc st' = crtc st" "crtc st \<noteq> None"
  using assms unfolding drm_atomic_helper_check_plane_state_def
  by (auto simp: errno_defs Let_def split: option.splits if_splits prod.splits)

lemma check_frame:
  assumes "drm_atomic_helper_check_plane_state hdr st cs lo hi cp cud = (ret, st')"
  shows "crtc_x st' = crtc_x st \<and> crtc_y st' = crtc_y st \<and> crtc_w st' = crtc_w st \<and>
    crtc_h st' = crtc_h st \<and> fb st' = fb st \<and> crtc st' = crtc st"
  using assms unfolding drm_atomic_helper_check_plane_state_def
  by (auto simp: Let_def split: option.splits if_splits prod.splits)

lemma FIELD_GET_size:
  assumes "unat w < 2 ^ 15" "unat h < 2 ^ 15"
  shows "FIELD_GET (GENMASK 14 0) (VSDC_MAKE_PLANE_SIZE w h) = w"
    "FIELD_GET (GENMASK 29 15) (VSDC_MAKE_PLANE_SIZE w h) = h"
    "VSDC_MAKE_PLANE_POS w h = VSDC_MAKE_PLANE_SIZE w h"
proof -
  have m: "(0x7fff :: u32) = mask 15" by (simp add: mask_eq_exp_minus_1)
  have "VSDC_MAKE_PLANE_SIZE w h = w OR push_bit 15 h"
    using assms unfolding VSDC_MAKE_PLANE_SIZE_def m
    by (simp only: flip: take_bit_eq_mask) (simp only: take_bit_u32_small)
  then show "FIELD_GET (GENMASK 14 0) (VSDC_MAKE_PLANE_SIZE w h) = w"
    "FIELD_GET (GENMASK 29 15) (VSDC_MAKE_PLANE_SIZE w h) = h"
    using FIELD_GET_pair [of w 14 15 29 h] assms by simp_all
  show "VSDC_MAKE_PLANE_POS w h = VSDC_MAKE_PLANE_SIZE w h"
    by (simp add: VSDC_MAKE_PLANE_POS_def VSDC_MAKE_PLANE_SIZE_def)
qed

text \<open>The configuration word an update leaves.\<close>

definition fb_config_word :: "u32 \<Rightarrow> vs_format \<Rightarrow> u32" where
  "fb_config_word r f =
     (let r = (r AND NOT VSDC_FB_CONFIG_FMT_MASK) OR
            (VSDC_FB_CONFIG_FMT (vs_color_format_val (color f)) AND VSDC_FB_CONFIG_FMT_MASK);
          r = (r AND NOT VSDC_FB_CONFIG_SWIZZLE_MASK) OR
            (VSDC_FB_CONFIG_SWIZZLE (vs_swizzle_val (swizzle f)) AND VSDC_FB_CONFIG_SWIZZLE_MASK)
      in if uv_swizzle f then r OR VSDC_FB_CONFIG_UV_SWIZZLE_EN
         else r AND NOT VSDC_FB_CONFIG_UV_SWIZZLE_EN)"

lemma color_val_small: "unat (vs_color_format_val c) < 2 ^ 6"
  by (cases c) simp_all

lemma swizzle_val_small: "unat (vs_swizzle_val c) < 2 ^ 2"
  by (cases c) simp_all

lemma fb_config_word_fields:
  "FIELD_GET VSDC_FB_CONFIG_FMT_MASK (fb_config_word r f) = vs_color_format_val (color f)"
  "FIELD_GET VSDC_FB_CONFIG_SWIZZLE_MASK (fb_config_word r f) = vs_swizzle_val (swizzle f)"
  "bit (fb_config_word r f) 25 = uv_swizzle f"
  "n < 23 \<Longrightarrow> bit (fb_config_word r f) n = bit r n"
  using take_bit_u32_small [OF color_val_small, of "color f"]
    take_bit_u32_small [OF swizzle_val_small, of "swizzle f"]
  by (simp_all add: fb_config_word_def vs_field field_get Let_def) (auto simp: regfield)

lemma primary_update_regs:
  assumes rl: "regmap_laws (dc_regs dc) regs"
    and st: "visible (base s)" "crtc (base s) = Some output" "fb (base s) = Some f"
      "vs_fb_get_dma_addr f (src (base s)) = Some a"
  obtains w0 where "vs_primary_plane_atomic_update dc old s w = Some
      (case primary_plane_update_ex (funcs dc) of None \<Rightarrow> w0 | Some u \<Rightarrow> u (dc_regs dc) output (base s) w0)"
    "regs w0 = (regs w)(VSDC_FB_CONFIG output := fb_config_word (regs w (VSDC_FB_CONFIG output)) (format s),
      VSDC_FB_ADDRESS output := lower_32_bits a, VSDC_FB_STRIDE output := pitches f ! 0,
      VSDC_FB_SIZE output := VSDC_MAKE_PLANE_SIZE (crtc_w (base s)) (crtc_h (base s)))"
proof -
  define w0 where "w0 = (let rm = dc_regs dc;
    w = regmap_update_bits rm w (VSDC_FB_CONFIG output) VSDC_FB_CONFIG_FMT_MASK
          (VSDC_FB_CONFIG_FMT (vs_color_format_val (color (format s))));
    w = regmap_update_bits rm w (VSDC_FB_CONFIG output) VSDC_FB_CONFIG_SWIZZLE_MASK
          (VSDC_FB_CONFIG_SWIZZLE (vs_swizzle_val (swizzle (format s))));
    w = regmap_assign_bits rm w (VSDC_FB_CONFIG output) VSDC_FB_CONFIG_UV_SWIZZLE_EN
          (uv_swizzle (format s));
    w = regmap_write rm w (VSDC_FB_ADDRESS output) (lower_32_bits a);
    w = regmap_write rm w (VSDC_FB_STRIDE output) (pitches f ! 0)
    in regmap_write rm w (VSDC_FB_SIZE output) (VSDC_MAKE_PLANE_SIZE (crtc_w (base s)) (crtc_h (base s))))"
  show thesis
  proof (rule that)
    show "vs_primary_plane_atomic_update dc old s w = Some
      (case primary_plane_update_ex (funcs dc) of None \<Rightarrow> w0 | Some u \<Rightarrow> u (dc_regs dc) output (base s) w0)"
      using st by (simp add: vs_primary_plane_atomic_update_def w0_def Let_def split: option.split)
    show "regs w0 = (regs w)(VSDC_FB_CONFIG output := fb_config_word (regs w (VSDC_FB_CONFIG output)) (format s),
      VSDC_FB_ADDRESS output := lower_32_bits a, VSDC_FB_STRIDE output := pitches f ! 0,
      VSDC_FB_SIZE output := VSDC_MAKE_PLANE_SIZE (crtc_w (base s)) (crtc_h (base s)))"
      by (simp add: w0_def regmap_laws.regs_simps [OF rl] fb_config_word_def Let_def)
  qed
qed

text \<open>Neither generation's own step touches the registers the common part programs.\<close>

lemma update_ex_frame:
  assumes "regmap_laws rm regs" "output < VSDC_MAX_OUTPUTS"
    and "r \<in> {VSDC_FB_CONFIG output, VSDC_FB_ADDRESS output, VSDC_FB_STRIDE output, VSDC_FB_SIZE output}"
  shows "regs (vs_dc8200_primary_plane_update_ex rm output st w) r = regs w r"
proof -
  have "output = 0 \<or> output = 1" using assms(2) by (auto simp: VSDC_MAX_OUTPUTS_def)
  then show ?thesis
    using assms(3)
    by (auto simp: vs_dc8200_primary_plane_update_ex_def vs_dc8200_plane_commit_def Let_def
        regmap_laws.regs_simps [OF assms(1)] vs_addr)
qed

definition known_funcs :: "'w vs_dc_funcs \<Rightarrow> bool" where
  "known_funcs ops \<longleftrightarrow> ops = vs_dc8000_funcs \<or> ops = vs_dc8200_funcs"

lemma primary_update_fields:
  assumes rl: "regmap_laws (dc_regs dc) regs" and out: "output < VSDC_MAX_OUTPUTS"
    and fn: "known_funcs (funcs dc)"
    and st: "visible (base s)" "crtc (base s) = Some output" "fb (base s) = Some f"
      "vs_fb_get_dma_addr f (src (base s)) = Some a"
  obtains w' where "vs_primary_plane_atomic_update dc old s w = Some w'"
    "regs w' (VSDC_FB_CONFIG output) = fb_config_word (regs w (VSDC_FB_CONFIG output)) (format s)"
    "regs w' (VSDC_FB_ADDRESS output) = lower_32_bits a" "regs w' (VSDC_FB_STRIDE output) = pitches f ! 0"
    "regs w' (VSDC_FB_SIZE output) = VSDC_MAKE_PLANE_SIZE (crtc_w (base s)) (crtc_h (base s))"
proof -
  obtain w0 where u: "vs_primary_plane_atomic_update dc old s w = Some
      (case primary_plane_update_ex (funcs dc) of None \<Rightarrow> w0 | Some u \<Rightarrow> u (dc_regs dc) output (base s) w0)"
    and r0: "regs w0 = (regs w)(VSDC_FB_CONFIG output := fb_config_word (regs w (VSDC_FB_CONFIG output)) (format s),
      VSDC_FB_ADDRESS output := lower_32_bits a, VSDC_FB_STRIDE output := pitches f ! 0,
      VSDC_FB_SIZE output := VSDC_MAKE_PLANE_SIZE (crtc_w (base s)) (crtc_h (base s)))"
    using primary_update_regs [OF rl st] by blast
  have o: "output = 0 \<or> output = 1" using out by (auto simp: VSDC_MAX_OUTPUTS_def)
  have r1: "regs w0 (VSDC_FB_CONFIG output) = fb_config_word (regs w (VSDC_FB_CONFIG output)) (format s)"
    "regs w0 (VSDC_FB_ADDRESS output) = lower_32_bits a" "regs w0 (VSDC_FB_STRIDE output) = pitches f ! 0"
    "regs w0 (VSDC_FB_SIZE output) = VSDC_MAKE_PLANE_SIZE (crtc_w (base s)) (crtc_h (base s))"
    using o by (auto simp: r0 vs_addr)
  note fr = update_ex_frame [OF rl out, of _ "base s" w0]
  show thesis
  proof (cases "funcs dc = vs_dc8000_funcs")
    case True
    then show thesis using u r1 by (intro that [of w0]) (simp_all add: vs_dc8000_funcs_def)
  next
    case False
    then have "funcs dc = vs_dc8200_funcs" using fn by (simp add: known_funcs_def)
    then show thesis
      using u r1 fr by (intro that [of "vs_dc8200_primary_plane_update_ex (dc_regs dc) output (base s) w0"])
        (simp_all add: vs_dc8200_funcs_def)
  qed
qed

section \<open>Properties\<close>


text \<open>A controller of each generation on the example board.\<close>

definition example_dc :: "nat \<Rightarrow> board vs_dc_funcs \<Rightarrow> board vs_dc" where
  "example_dc i ops = \<lparr>dc_regs = board_regmap, core_clk = 0, axi_clk = 1, ahb_clk = 2, pix_clk = [3, 4],
     drm_dev = None, identity = vs_chip_identities ! i, funcs = ops\<rparr>"

definition example_vs_state :: vs_plane_state where
  "example_vs_state = \<lparr>base = example_state\<lparr>src := \<lparr>x1 = 655360, y1 = 0, x2 = 6553600, y2 = 3276800\<rparr>,
     visible := True\<rparr>, format = \<lparr>color = VSDC_COLOR_FORMAT_X8R8G8B8, swizzle = VSDC_SWIZZLE_ABGR,
     uv_swizzle = False\<rparr>\<rparr>"


text \<open>
  The part of the buffer the controller fetches, from the contents of its registers: \<open>h\<close> lines of \<open>w\<close>
  pixels of \<open>c\<close> bytes, at the programmed pitch.
\<close>

definition fetch_within :: "(u32 \<Rightarrow> u32) \<Rightarrow> nat \<Rightarrow> nat \<Rightarrow> int \<Rightarrow> int \<Rightarrow> bool" where
  "fetch_within rf output c lo hi \<longleftrightarrow>
     (\<forall>row col. 0 \<le> row \<and> row < uint (FIELD_GET (GENMASK 29 15) (rf (VSDC_FB_SIZE output))) \<and>
        0 \<le> col \<and> col < uint (FIELD_GET (GENMASK 14 0) (rf (VSDC_FB_SIZE output))) \<longrightarrow>
        lo \<le> uint (rf (VSDC_FB_ADDRESS output)) + row * uint (rf (VSDC_FB_STRIDE output)) + col * int c \<and>
        uint (rf (VSDC_FB_ADDRESS output)) + row * uint (rf (VSDC_FB_STRIDE output)) + (col + 1) * int c \<le> hi)"

lemma unat_less_of_uint: "uint (v :: u32) < 2 ^ k \<Longrightarrow> unat v < 2 ^ k"
proof -
  assume "uint v < 2 ^ k"
  then have "int (unat v) < int (2 ^ k)" by (simp only: of_nat_unat ucast_id of_nat_power of_nat_numeral)
  then show ?thesis by (simp only: of_nat_less_iff)
qed

lemma lower_32_bits_small: "uint a < 2 ^ 32 \<Longrightarrow> uint (lower_32_bits a) = uint a"
  by (simp add: lower_32_bits_def unsigned_ucast_eq take_bit_int_eq_self)

text \<open>
  The accepted states: through the core's check, the plane's own check, with a linear framebuffer below
  four gigabytes (the probe sets a 32-bit DMA mask), not rotated.
\<close>

lemma primary_fetch:
  assumes f: "fb_linear f gem c" "fb_end f gem < 2 ^ 32"
    and box: "in_box (uint (fb_width f) * 2 ^ 16) (uint (fb_height f) * 2 ^ 16) (src (base s))"
    and xw: "x1 (src (base s)) + uint (crtc_w (base s)) * 2 ^ 16 \<le> uint (fb_width f) * 2 ^ 16"
    and yh: "y1 (src (base s)) + uint (crtc_h (base s)) * 2 ^ 16 \<le> uint (fb_height f) * 2 ^ 16"
    and sz: "0 < uint (crtc_w (base s))" "0 < uint (crtc_h (base s))" "uint (crtc_w (base s)) < 2 ^ 15"
      "uint (crtc_h (base s)) < 2 ^ 15"
    and rl: "regmap_laws (dc_regs dc) regs" and out: "output < VSDC_MAX_OUTPUTS"
    and fn: "known_funcs (funcs dc)"
    and st: "visible (base s)" "crtc (base s) = Some output" "fb (base s) = Some f"
  obtains w' where "vs_primary_plane_atomic_update dc old s w = Some w'"
    "fetch_within (regs w') output c (uint gem + uint (offsets f ! 0)) (fb_end f gem)"
proof -
  let ?x = "drop_bit 16 (x1 (src (base s)))" and ?y = "drop_bit 16 (y1 (src (base s)))"
  let ?w = "uint (crtc_w (base s))" and ?h = "uint (crtc_h (base s))" and ?p = "uint (pitches f ! 0)"
  have shift: "drop_bit 16 a + n \<le> m" if "a + n * 2 ^ 16 \<le> m * 2 ^ 16" for a n m :: int
    unfolding drop_bit_eq_div using floor_div_le [of "2 ^ 16" a "m - n"] that by (simp add: algebra_simps)
  have x: "?x + ?w \<le> uint (fb_width f)" and y: "?y + ?h \<le> uint (fb_height f)"
    using shift [OF xw] shift [OF yh] .
  have nn: "0 \<le> ?x" "0 \<le> ?y" using box by (simp_all add: in_box_def)
  obtain a where a: "vs_fb_get_dma_addr f (src (base s)) = Some a"
    "uint a = uint gem + uint (offsets f ! 0) + ?y * ?p + ?x * int c"
    using vs_dma_addr_value [OF f(1) box] y sz(2) by auto
  have cw: "int c * uint (fb_width f) \<le> ?p" using f(1) by (simp add: fb_linear_def)
  have in_buf: "uint gem + uint (offsets f ! 0) \<le> uint a + row * ?p + col * int c \<and>
      uint a + row * ?p + (col + 1) * int c \<le> fb_end f gem"
    if rc: "0 \<le> row" "row < ?h" "0 \<le> col" "col < ?w" for row col
  proof
    have "0 \<le> ?y * ?p" "0 \<le> ?x * int c" "0 \<le> row * ?p" "0 \<le> col * int c" using nn rc by simp_all
    then show "uint gem + uint (offsets f ! 0) \<le> uint a + row * ?p + col * int c"
      using a(2) by linarith
    have "(?x + col + 1) * int c \<le> uint (fb_width f) * int c" using rc x by (intro mult_right_mono) auto
    then have 1: "(?x + col + 1) * int c \<le> ?p" using cw by (simp add: mult.commute)
    have "(?y + row + 1) * ?p \<le> uint (fb_height f) * ?p" using rc y by (intro mult_right_mono) auto
    then have "(?y + row) * ?p + (?x + col + 1) * int c \<le> ?p * uint (fb_height f)"
      using 1 by (simp add: algebra_simps)
    then show "uint a + row * ?p + (col + 1) * int c \<le> fb_end f gem"
      using a(2) by (simp add: fb_end_def algebra_simps)
  qed
  have "uint a + 1 * int c \<le> fb_end f gem" using in_buf [of 0 0] sz by simp
  then have a32: "uint (lower_32_bits a) = uint a" using f(2) by (intro lower_32_bits_small) linarith
  have un: "unat (crtc_w (base s)) < 2 ^ 15" "unat (crtc_h (base s)) < 2 ^ 15"
    using unat_less_of_uint [OF sz(3)] unat_less_of_uint [OF sz(4)] .
  obtain w' where w': "vs_primary_plane_atomic_update dc old s w = Some w'"
    "regs w' (VSDC_FB_ADDRESS output) = lower_32_bits a" "regs w' (VSDC_FB_STRIDE output) = pitches f ! 0"
    "regs w' (VSDC_FB_SIZE output) = VSDC_MAKE_PLANE_SIZE (crtc_w (base s)) (crtc_h (base s))"
    using primary_update_fields [OF rl out fn st a(1)] by blast
  show thesis
    by (rule that [OF w'(1)]) (use in_buf in \<open>simp add: fetch_within_def w' FIELD_GET_size [OF un] a32\<close>)
qed

lemma primary_check_state:
  assumes "vs_primary_plane_atomic_check hdr st cs = (0, st')" "visible (base st')"
  shows "drm_atomic_helper_check_plane_state hdr (base st) cs DRM_PLANE_NO_SCALING DRM_PLANE_NO_SCALING
      False True = (0, base st')"
    "fst (drm_format_to_vs_format (fi_format (fb_format (the (fb (base st'))))) (format st)) = 0"
    "format st' = snd (drm_format_to_vs_format (fi_format (fb_format (the (fb (base st'))))) (format st))"
    "crtc (base st') = crtc (base st)" "fb (base st') = fb (base st)"
    "crtc_w (base st') = crtc_w (base st)" "crtc_h (base st') = crtc_h (base st)"
proof -
  obtain ret b where b: "drm_atomic_helper_check_plane_state hdr (base st) cs DRM_PLANE_NO_SCALING
      DRM_PLANE_NO_SCALING False True = (ret, b)" by fastforce
  have 1: "ret = 0" "base st' = b"
    using assms unfolding vs_primary_plane_atomic_check_def b
    by (auto simp: Let_def split: if_splits option.splits prod.splits)
  then show 2: "drm_atomic_helper_check_plane_state hdr (base st) cs DRM_PLANE_NO_SCALING DRM_PLANE_NO_SCALING
      False True = (0, base st')" using b by simp
  note v = check_visible_fb [OF 2 assms(2)]
  then show "crtc (base st') = crtc (base st)" "fb (base st') = fb (base st)" by simp_all
  show "fst (drm_format_to_vs_format (fi_format (fb_format (the (fb (base st'))))) (format st)) = 0"
    "format st' = snd (drm_format_to_vs_format (fi_format (fb_format (the (fb (base st'))))) (format st))"
    using assms v 1 unfolding vs_primary_plane_atomic_check_def b
    by (auto simp: Let_def split: if_splits option.splits prod.splits
        dest: arg_cong [where f = format])
  show "crtc_w (base st') = crtc_w (base st)" "crtc_h (base st') = crtc_h (base st)"
    using check_frame [OF 2] by simp_all
qed

text \<open>C1: from the two checks to the registers: a primary plane state that passes the core's check and the plane's own check, and whose plane does not start
  left of or above the display, is programmed by the update so that everything the
  controller fetches (size, pitch and address registers) lies inside the framebuffer.\<close>

theorem vs_primary_plane_fetch_safe:
  assumes "plane_laws hdr" "drm_atomic_plane_check plane (base old) (base st) = 0"
    and "vs_primary_plane_atomic_check hdr st cs = (0, st')" "visible (base st')"
    and "fb (base st) = Some f" "uint (fb_width f) < 2 ^ 15" "uint (fb_height f) < 2 ^ 15"
    and "crtc_range (base st)" "rotation (base st) = rot_0" "0 \<le> crtc_x (base st)" "0 \<le> crtc_y (base st)"
    and "fb_linear f gem c" "fb_end f gem < 2 ^ 32"
    and "regmap_laws (dc_regs dc) regs" "known_funcs (funcs dc)"
    and "crtc (base st) = Some output" "output < VSDC_MAX_OUTPUTS"
  shows "\<exists>w'. vs_primary_plane_atomic_update dc old st' w = Some w' \<and>
    fetch_within (regs w') output c (uint gem + uint (offsets f ! 0)) (fb_end f gem)"
proof -
  note pc = primary_check_state [OF assms(3,4)]
  have chk: "plane_checked hdr plane (base old) (base st) cs False True f (base st')"
    unfolding plane_checked_def using assms(2,4-8) pc(1) by blast
  note cl = checked_clip [OF assms(1) chk] and off = checked_offset [OF assms(1) chk assms(9)]
  have clip: "dst (base st') = crtc_clip hdr cs" using cl(3) by simp
  have vis: "0 < x2 (dst (base st')) - x1 (dst (base st'))" "0 < y2 (dst (base st')) - y1 (dst (base st'))"
    using cl(4,5) .
  have "x1 (dst (base st')) = max (crtc_x (base st)) 0" "y1 (dst (base st')) = max (crtc_y (base st)) 0"
    "x2 (dst (base st')) \<le> crtc_x (base st) + uint (crtc_w (base st))"
    "y2 (dst (base st')) \<le> crtc_y (base st) + uint (crtc_h (base st))"
    unfolding cl(2) off(2) by (simp_all add: drm_rect_intersect_def Let_def crtc_clip_range)
  then have x: "x1 (dst (base st')) = crtc_x (base st)" "y1 (dst (base st')) = crtc_y (base st)"
    "0 < uint (crtc_w (base st'))" "0 < uint (crtc_h (base st'))"
    using assms(10,11) vis by (simp_all add: pc(6,7))
  have s: "x1 (src (base st')) = uint (src_x (base st))" "y1 (src (base st')) = uint (src_y (base st))"
    unfolding off(1) using x(1,2) by simp_all
  have st': "crtc (base st') = Some output" "fb (base st') = Some f" using pc(4,5) assms(5,16) by simp_all
  obtain w' where "vs_primary_plane_atomic_update dc old st' w = Some w'"
    "fetch_within (regs w') output c (uint gem + uint (offsets f ! 0)) (fb_end f gem)"
    by (rule primary_fetch [OF assms(12,13) cl(1) _ _ x(3,4) _ _ assms(14,17,15) assms(4) st'])
      (use off(3-6) s in \<open>simp_all only: pc(6,7)\<close>)
  then show ?thesis by blast
qed

text \<open>A display-sized plane and a plane that starts twenty pixels left of the display.\<close>

definition screen_fb :: "u32 \<Rightarrow> drm_framebuffer" where
  "screen_fb wd = \<lparr>fb_id = 2, fb_format = xrgb_info, fb_modifier = 0, fb_width = wd, fb_height = 480,
     pitches = [4 * wd], offsets = [0], fb_obj = [Some 0x80000000]\<rparr>"

definition screen_state :: "int \<Rightarrow> u32 \<Rightarrow> vs_plane_state" where
  "screen_state x wd = \<lparr>base = example_state\<lparr>fb := Some (screen_fb wd), crtc_x := x, crtc_y := 0, crtc_w := wd,
     crtc_h := 480, src_w := push_bit 16 wd, src_h := push_bit 16 480\<rparr>, format = vs_format_0\<rparr>"

definition screen_check :: "int \<Rightarrow> u32 \<Rightarrow> int \<times> vs_plane_state" where
  "screen_check x wd = vs_primary_plane_atomic_check plane_hdr_c (screen_state x wd) example_crtc_state"

definition screen_regs :: "board option \<Rightarrow> u32 \<times> u32 \<times> u32" where
  "screen_regs w = (case w of None \<Rightarrow> (0, 0, 0)
     | Some w \<Rightarrow> (bd_regs w (VSDC_FB_ADDRESS 0), bd_regs w (VSDC_FB_STRIDE 0), bd_regs w (VSDC_FB_SIZE 0)))"

theorem vs_primary_plane_fetch_safe_witness:
  "\<exists>w'. vs_primary_plane_atomic_update (example_dc 4 vs_dc8000_funcs) (screen_state 0 640)
      (snd (screen_check 0 640)) board_init = Some w' \<and>
    fetch_within (bd_regs w') 0 4 0x80000000 (0x80000000 + 480 * 2560)"
proof -
  let ?dc = "example_dc 4 vs_dc8000_funcs" and ?st = "screen_state 0 640"
  have c: "drm_atomic_plane_check example_plane (base ?st) (base ?st) = 0"
    "fst (screen_check 0 640) = 0" "visible (base (snd (screen_check 0 640)))" by code_simp+
  have p: "vs_primary_plane_atomic_check plane_hdr_c ?st example_crtc_state = (0, snd (screen_check 0 640))"
    using c(2) by (simp add: screen_check_def prod_eq_iff)
  have f: "fb (base ?st) = Some (screen_fb 640)" "uint (fb_width (screen_fb 640)) < 2 ^ 15"
    "uint (fb_height (screen_fb 640)) < 2 ^ 15" "crtc_range (base ?st)" "rotation (base ?st) = rot_0"
    "0 \<le> crtc_x (base ?st)" "0 \<le> crtc_y (base ?st)" "fb_linear (screen_fb 640) 0x80000000 4"
    "fb_end (screen_fb 640) 0x80000000 < 2 ^ 32" "crtc (base ?st) = Some 0"
    by (simp_all add: screen_state_def example_state_def screen_fb_def crtc_range_def fb_linear_def
        xrgb_info_def drm_fb_dma_get_gem_obj_def drm_gem_fb_get_obj_def fb_end_def)
  have rl: "regmap_laws (dc_regs ?dc) bd_regs" using bd.regmap_laws_axioms by (simp add: example_dc_def)
  have k: "known_funcs (funcs ?dc)" "(0::nat) < VSDC_MAX_OUTPUTS"
    by (simp_all add: known_funcs_def example_dc_def VSDC_MAX_OUTPUTS_def)
  have e: "uint (0x80000000 :: u64) + uint (offsets (screen_fb 640) ! 0) = 0x80000000"
    "fb_end (screen_fb 640) 0x80000000 = 0x80000000 + 480 * 2560"
    by (simp_all add: screen_fb_def fb_end_def)
  show ?thesis
    using vs_primary_plane_fetch_safe [OF hc.plane_laws_axioms c(1) p c(3) f(1-9) rl k(1) f(10) k(2),
        where w = board_init] unfolding e by simp
qed

text \<open>without that restriction the property fails. The update programs the unclipped width
  together with the address of the clipped source, so a 660 pixel wide plane at x = -20 of a 640 pixel wide display, which every check
  accepts, makes the controller fetch eighty bytes past the end of the framebuffer.\<close>

theorem vs_primary_plane_overfetch:
  "drm_atomic_plane_check example_plane (base (screen_state (-20) 660)) (base (screen_state (-20) 660)) = 0 \<and>
   fst (screen_check (-20) 660) = 0 \<and> visible (base (snd (screen_check (-20) 660))) \<and>
   (\<exists>w'. vs_primary_plane_atomic_update (example_dc 4 vs_dc8000_funcs) (screen_state (-20) 660)
      (snd (screen_check (-20) 660)) board_init = Some w' \<and>
    \<not> fetch_within (bd_regs w') 0 4 0x80000000 (fb_end (screen_fb 660) 0x80000000))"
proof -
  let ?u = "vs_primary_plane_atomic_update (example_dc 4 vs_dc8000_funcs) (screen_state (-20) 660)
      (snd (screen_check (-20) 660)) board_init"
  have c: "drm_atomic_plane_check example_plane (base (screen_state (-20) 660)) (base (screen_state (-20) 660)) = 0"
    "fst (screen_check (-20) 660) = 0" "visible (base (snd (screen_check (-20) 660)))" by code_simp+
  have s: "screen_regs ?u = (0x80000050, 2640, 0xF00294)" by code_simp
  then obtain w' where w: "?u = Some w'" "bd_regs w' (VSDC_FB_ADDRESS 0) = 0x80000050"
    "bd_regs w' (VSDC_FB_STRIDE 0) = 2640" "bd_regs w' (VSDC_FB_SIZE 0) = 0xF00294"
    by (auto simp: screen_regs_def split: option.splits)
  have z: "uint (FIELD_GET (GENMASK 29 15) 0xF00294) = 480" "uint (FIELD_GET (GENMASK 14 0) 0xF00294) = 660"
    by code_simp+
  have "\<not> fetch_within (bd_regs w') 0 4 0x80000000 (fb_end (screen_fb 660) 0x80000000)"
    unfolding fetch_within_def w(2-4) z
    by (rule notI, drule spec [of _ 479], drule spec [of _ 659]) (simp add: fb_end_def screen_fb_def)
  with c w(1) show ?thesis by blast
qed

text \<open>Disabling the primary plane of a DC8200 leaves its framebuffer fetch enabled: the hook sets
  the enable bit it should clear, so after disabling, as after enabling, the plane is on.\<close>

theorem vs_dc8200_primary_disable_keeps_enabled:
  assumes "regmap_laws (dc_regs dc) regs" "funcs dc = vs_dc8200_funcs" "crtc (base old) = Some output"
  shows "\<exists>w'. vs_primary_plane_atomic_disable dc old w = Some w' \<and>
    bit (regs w' (VSDC_FB_CONFIG_EX output)) 13 \<and> bit (regs w' (VSDC_FB_CONFIG_EX output)) 12"
  using assms(2,3)
  by (simp add: vs_primary_plane_atomic_disable_def vs_dc8200_funcs_def
      vs_dc8200_primary_plane_disable_ex_def vs_dc8200_plane_commit_def regmap_laws.regs_simps [OF assms(1)]
      vs_field regfield)

theorem vs_dc8200_primary_disable_keeps_enabled_witness:
  "\<exists>w'. vs_primary_plane_atomic_disable (example_dc 0 vs_dc8200_funcs) example_vs_state board_init = Some w' \<and>
     bit (bd_regs w' (VSDC_FB_CONFIG_EX 0)) 13"
proof -
  let ?dc = "example_dc 0 vs_dc8200_funcs"
  have rl: "regmap_laws (dc_regs ?dc) bd_regs" using bd.regmap_laws_axioms by (simp add: example_dc_def)
  have "funcs ?dc = vs_dc8200_funcs" "crtc (base example_vs_state) = Some 0"
    by (simp_all add: example_dc_def example_vs_state_def example_state_def)
  then show ?thesis using vs_dc8200_primary_disable_keeps_enabled [OF rl, where w = board_init] by blast
qed

end
