(* ===== verification/Vs_Cursor.thy ===== *)
theory Vs_Cursor
  imports Vs_Primary
begin

text \<open>
  The cursor plane of the Verisilicon driver (\<open>drm/verisilicon/vs_cursor_plane.c\<close>): check, enable,
  disable, update and creation. The header inline \<open>is_power_of_2\<close> is an argument of the check; its
  documented meaning is the hypothesis \<open>power_of_2_law\<close>.
\<close>

section \<open>Operations\<close>

definition VSDC_MIN_CURSOR_SIZE :: int where "VSDC_MIN_CURSOR_SIZE = 32"
definition VSDC_MAX_CURSOR_SIZE :: int where "VSDC_MAX_CURSOR_SIZE = 256"
definition VSDC_CURSOR_LOCATION_MAX_POSITIVE :: int where "VSDC_CURSOR_LOCATION_MAX_POSITIVE = 2 ^ 15"
definition VSDC_CURSOR_LOCATION_MAX_NEGATIVE :: int where "VSDC_CURSOR_LOCATION_MAX_NEGATIVE = 2 ^ 5"

text \<open>The bounds are unsigned longs, to which the \<open>int\<close> operand is converted.\<close>

definition vs_cursor_plane_check_coord :: "int \<Rightarrow> bool" where
  "vs_cursor_plane_check_coord coord =
     (if coord \<ge> 0 then coord \<le> VSDC_CURSOR_LOCATION_MAX_POSITIVE
      else wrap32 (- coord) mod 2 ^ 64 \<le> VSDC_CURSOR_LOCATION_MAX_NEGATIVE)"

definition vs_cursor_plane_atomic_check ::
    "(u32 \<Rightarrow> bool) \<Rightarrow> plane_hdr \<Rightarrow> 'w vs_dc \<Rightarrow> drm_plane_state \<Rightarrow> drm_crtc_state \<Rightarrow> int \<times> drm_plane_state" where
  "vs_cursor_plane_atomic_check is_power_of_2 hdr dc new_plane_state crtc_state =
     (let (ret, st) = drm_atomic_helper_check_plane_state hdr new_plane_state crtc_state
            DRM_PLANE_NO_SCALING DRM_PLANE_NO_SCALING True True
      in if ret \<noteq> 0 then (ret, st)
         else if \<not> visible st then (0, st)
         else if \<not> is_power_of_2 (crtc_w st) \<or> uint (crtc_w st) < VSDC_MIN_CURSOR_SIZE \<or>
                 uint (crtc_w st) > to_u32 (max_cursor_size (identity dc)) then (- EINVAL, st)
         else if crtc_w st \<noteq> crtc_h st then (- EINVAL, st)
         else if \<not> vs_cursor_plane_check_coord (crtc_x st) \<or> \<not> vs_cursor_plane_check_coord (crtc_y st)
         then (- EINVAL, st)
         else case fb st of
                None \<Rightarrow> (0, st)
              | Some f \<Rightarrow>
                  if ucast (pitches f ! 0) \<noteq> drm_format_info_min_pitch (Some (fb_format f)) 0 (crtc_w st)
                  then (- EINVAL, st) else (0, st))"

definition vs_cursor_plane_commit :: "'w vs_dc \<Rightarrow> nat \<Rightarrow> 'w \<Rightarrow> 'w" where
  "vs_cursor_plane_commit dc output w =
     regmap_set_bits (dc_regs dc) w (VSDC_CURSOR_CONFIG output)
       (VSDC_CURSOR_CONFIG_COMMIT OR VSDC_CURSOR_CONFIG_IMG_UPDATE)"

definition vs_cursor_plane_atomic_enable :: "'w vs_dc \<Rightarrow> drm_plane_state \<Rightarrow> 'w \<Rightarrow> 'w option" where
  "vs_cursor_plane_atomic_enable dc new_state w = (case crtc new_state of
      None \<Rightarrow> None
    | Some output \<Rightarrow>
        let w = regmap_update_bits (dc_regs dc) w (VSDC_CURSOR_CONFIG output) VSDC_CURSOR_CONFIG_FMT_MASK
                  VSDC_CURSOR_CONFIG_FMT_ARGB8888
        in Some (vs_cursor_plane_commit dc output w))"

definition vs_cursor_plane_hw_disable :: "'w vs_dc \<Rightarrow> nat \<Rightarrow> 'w \<Rightarrow> 'w" where
  "vs_cursor_plane_hw_disable dc output w =
     (let w = regmap_update_bits (dc_regs dc) w (VSDC_CURSOR_CONFIG output) VSDC_CURSOR_CONFIG_FMT_MASK
                VSDC_CURSOR_CONFIG_FMT_OFF
      in vs_cursor_plane_commit dc output w)"

definition vs_cursor_plane_atomic_disable :: "'w vs_dc \<Rightarrow> drm_plane_state \<Rightarrow> 'w \<Rightarrow> 'w option" where
  "vs_cursor_plane_atomic_disable dc old_state w = (case crtc old_state of
      None \<Rightarrow> None | Some output \<Rightarrow> Some (vs_cursor_plane_hw_disable dc output w))"

text \<open>The switch on the cursor's width.\<close>

definition vs_cursor_set_size :: "'w regmap_api \<Rightarrow> nat \<Rightarrow> u32 \<Rightarrow> 'w \<Rightarrow> 'w" where
  "vs_cursor_set_size rm output wd w =
     (if wd = 32 then regmap_update_bits rm w (VSDC_CURSOR_CONFIG output) VSDC_CURSOR_CONFIG_SIZE_MASK
        VSDC_CURSOR_CONFIG_SIZE_32
      else if wd = 64 then regmap_update_bits rm w (VSDC_CURSOR_CONFIG output) VSDC_CURSOR_CONFIG_SIZE_MASK
        VSDC_CURSOR_CONFIG_SIZE_64
      else if wd = 128 then regmap_update_bits rm w (VSDC_CURSOR_CONFIG output) VSDC_CURSOR_CONFIG_SIZE_MASK
        VSDC_CURSOR_CONFIG_SIZE_128
      else if wd = 256 then regmap_update_bits rm w (VSDC_CURSOR_CONFIG output) VSDC_CURSOR_CONFIG_SIZE_MASK
        VSDC_CURSOR_CONFIG_SIZE_256
      else w)"

text \<open>The two coordinate blocks, as they are written: the negative offset is not shifted into its field.\<close>

definition vs_cursor_set_x :: "'w regmap_api \<Rightarrow> nat \<Rightarrow> int \<Rightarrow> 'w \<Rightarrow> 'w" where
  "vs_cursor_set_x rm output x w =
     (if x \<ge> 0 then
        let w = regmap_update_bits rm w (VSDC_CURSOR_CONFIG output) VSDC_CURSOR_CONFIG_X_OFF_MASK 0
        in regmap_update_bits rm w (VSDC_CURSOR_LOCATION output) VSDC_CURSOR_LOCATION_X_MASK
             (VSDC_CURSOR_LOCATION_X (word_of_int x))
      else
        let w = regmap_update_bits rm w (VSDC_CURSOR_CONFIG output) VSDC_CURSOR_CONFIG_X_OFF_MASK
                  (word_of_int (- x))
        in regmap_update_bits rm w (VSDC_CURSOR_LOCATION output) VSDC_CURSOR_LOCATION_X_MASK 0)"

definition vs_cursor_set_y :: "'w regmap_api \<Rightarrow> nat \<Rightarrow> int \<Rightarrow> 'w \<Rightarrow> 'w" where
  "vs_cursor_set_y rm output y w =
     (if y \<ge> 0 then
        let w = regmap_update_bits rm w (VSDC_CURSOR_CONFIG output) VSDC_CURSOR_CONFIG_Y_OFF_MASK 0
        in regmap_update_bits rm w (VSDC_CURSOR_LOCATION output) VSDC_CURSOR_LOCATION_Y_MASK
             (VSDC_CURSOR_LOCATION_Y (word_of_int y))
      else
        let w = regmap_update_bits rm w (VSDC_CURSOR_CONFIG output) VSDC_CURSOR_CONFIG_Y_OFF_MASK
                  (word_of_int (- y))
        in regmap_update_bits rm w (VSDC_CURSOR_LOCATION output) VSDC_CURSOR_LOCATION_Y_MASK 0)"

definition vs_cursor_plane_atomic_update :: "'w vs_dc \<Rightarrow> drm_plane_state \<Rightarrow> 'w \<Rightarrow> 'w option" where
  "vs_cursor_plane_atomic_update dc state w = (case crtc state of
      None \<Rightarrow> None
    | Some output \<Rightarrow>
        if \<not> visible state then Some (vs_cursor_plane_hw_disable dc output w)
        else
          let rm = dc_regs dc; w = vs_cursor_set_size rm output (crtc_w state) w
          in case fb state of
               None \<Rightarrow> None
             | Some f \<Rightarrow> (case vs_fb_get_dma_addr f (src state) of
                 None \<Rightarrow> None
               | Some dma_addr \<Rightarrow>
                   let w = regmap_write rm w (VSDC_CURSOR_ADDRESS output) (lower_32_bits dma_addr);
                       w = vs_cursor_set_x rm output (crtc_x state) w;
                       w = vs_cursor_set_y rm output (crtc_y state) w
                   in Some (vs_cursor_plane_commit dc output w)))"

text \<open>\<open>DRM_FORMAT_MOD_LINEAR\<close> is 0; the list ends at the sentinel.\<close>

definition vs_cursor_plane_formats :: "drm_format list" where
  "vs_cursor_plane_formats = [DRM_FORMAT_ARGB8888]"

definition vs_cursor_plane_modifiers :: "u64 list" where
  "vs_cursor_plane_modifiers = [0]"

definition vs_cursor_plane_init ::
    "(drm_plane \<Rightarrow> int + drm_plane) \<Rightarrow> 'w vs_dc \<Rightarrow> int + drm_plane" where
  "vs_cursor_plane_init drmm_universal_plane_alloc dc =
     (let s = max_cursor_size (identity dc)
      in if s < VSDC_MIN_CURSOR_SIZE \<or> s > VSDC_MAX_CURSOR_SIZE then Inl (- EINVAL)
         else drmm_universal_plane_alloc \<lparr>plane_type = DRM_PLANE_TYPE_CURSOR, possible_crtcs = {},
           format_types = vs_cursor_plane_formats, modifiers = vs_cursor_plane_modifiers,
           format_mod_supported = None\<rparr>)"

section \<open>Lemmas\<close>

definition power_of_2_law :: "(u32 \<Rightarrow> bool) \<Rightarrow> bool" where
  "power_of_2_law p \<longleftrightarrow> (\<forall>n. p n \<longleftrightarrow> (\<exists>k<32. uint n = 2 ^ k))"

lemma pow2_between:
  assumes "power_of_2_law p" "p n" "32 \<le> uint n" "uint n \<le> 256"
  shows "n \<in> {32, 64, 128, 256}"
proof -
  obtain k :: nat where k: "uint n = 2 ^ k" using assms(1,2) by (auto simp: power_of_2_law_def)
  have "k \<le> 8"
  proof (rule ccontr)
    assume "\<not> k \<le> 8"
    then have "(2 :: int) ^ 9 \<le> 2 ^ k" by (intro power_increasing) auto
    then show False using k assms(4) by simp
  qed
  moreover have "5 \<le> k"
  proof (rule ccontr)
    assume "\<not> 5 \<le> k"
    then have "(2 :: int) ^ k \<le> 2 ^ 4" by (intro power_increasing) auto
    then show False using k assms(3) by simp
  qed
  ultimately have "k \<in> {5, 6, 7, 8}" by auto
  then have "uint n \<in> {32, 64, 128, 256}" using k by auto
  moreover have "n = word_of_int (uint n)" by simp
  ultimately have "n = word_of_int 32 \<or> n = word_of_int 64 \<or> n = word_of_int 128 \<or> n = word_of_int 256"
    by (metis insertE singletonD)
  then show ?thesis by simp
qed

definition cursor_size_code :: "u32 \<Rightarrow> u32" where
  "cursor_size_code wd = (if wd = 32 then 0 else if wd = 64 then 1 else if wd = 128 then 2 else 3)"

lemma cursor_check_accepts:
  assumes "vs_cursor_plane_atomic_check p hdr dc st cs = (0, st')" "visible st'"
    and "power_of_2_law p" "0 \<le> max_cursor_size (identity dc)" "max_cursor_size (identity dc) \<le> 256"
  shows "crtc_w st' \<in> {32, 64, 128, 256}" "crtc_h st' = crtc_w st'"
    "uint (crtc_w st') \<le> max_cursor_size (identity dc)"
    "vs_cursor_plane_check_coord (crtc_x st')" "vs_cursor_plane_check_coord (crtc_y st')"
    "drm_atomic_helper_check_plane_state hdr st cs DRM_PLANE_NO_SCALING DRM_PLANE_NO_SCALING True True = (0, st')"
    "ucast (pitches (the (fb st')) ! 0) = drm_format_info_min_pitch (Some (fb_format (the (fb st')))) 0 (crtc_w st')"
proof -
  obtain ret b where b: "drm_atomic_helper_check_plane_state hdr st cs DRM_PLANE_NO_SCALING
      DRM_PLANE_NO_SCALING True True = (ret, b)" by fastforce
  have acc: "ret = 0" "st' = b" "p (crtc_w b)" "32 \<le> uint (crtc_w b)"
      "uint (crtc_w b) \<le> to_u32 (max_cursor_size (identity dc))" "crtc_h b = crtc_w b"
      "vs_cursor_plane_check_coord (crtc_x b)" "vs_cursor_plane_check_coord (crtc_y b)"
      "fb b \<noteq> None \<longrightarrow> ucast (pitches (the (fb b)) ! 0) =
        drm_format_info_min_pitch (Some (fb_format (the (fb b)))) 0 (crtc_w b)"
    using assms(1,2) unfolding vs_cursor_plane_atomic_check_def b
    by (auto simp: Let_def errno_defs VSDC_MIN_CURSOR_SIZE_def split: if_splits option.splits)
  have m: "to_u32 (max_cursor_size (identity dc)) = max_cursor_size (identity dc)"
    using assms(4,5) by (intro to_u32_id) simp_all
  show c: "drm_atomic_helper_check_plane_state hdr st cs DRM_PLANE_NO_SCALING DRM_PLANE_NO_SCALING True True = (0, st')"
    using b acc by simp
  show "crtc_h st' = crtc_w st'" "uint (crtc_w st') \<le> max_cursor_size (identity dc)"
    "vs_cursor_plane_check_coord (crtc_x st')" "vs_cursor_plane_check_coord (crtc_y st')"
    using acc m by simp_all
  then show "crtc_w st' \<in> {32, 64, 128, 256}"
    using pow2_between [OF assms(3), of "crtc_w b"] acc assms(5) by simp
  show "ucast (pitches (the (fb st')) ! 0) = drm_format_info_min_pitch (Some (fb_format (the (fb st')))) 0 (crtc_w st')"
    using check_visible_fb [OF c assms(2)] acc(2,9) by simp
qed

text \<open>The two registers after an update.\<close>

definition cursor_config_word :: "u32 \<Rightarrow> drm_plane_state \<Rightarrow> u32" where
  "cursor_config_word r st =
     (let r = (r AND NOT (GENMASK 7 5)) OR (push_bit 5 (cursor_size_code (crtc_w st)) AND GENMASK 7 5);
          r = (r AND NOT (GENMASK 20 16)) OR
                ((if 0 \<le> crtc_x st then 0 else word_of_int (- crtc_x st)) AND GENMASK 20 16);
          r = (r AND NOT (GENMASK 12 8)) OR
                ((if 0 \<le> crtc_y st then 0 else word_of_int (- crtc_y st)) AND GENMASK 12 8)
      in r OR (BIT 3 OR BIT 2))"

definition cursor_location_word :: "u32 \<Rightarrow> drm_plane_state \<Rightarrow> u32" where
  "cursor_location_word r st =
     (let r = (r AND NOT (GENMASK 14 0)) OR
                ((if 0 \<le> crtc_x st then push_bit 0 (word_of_int (crtc_x st)) else 0) AND GENMASK 14 0)
      in (r AND NOT (GENMASK 30 16)) OR
           ((if 0 \<le> crtc_y st then push_bit 16 (word_of_int (crtc_y st)) else 0) AND GENMASK 30 16))"

lemma cursor_update_regs:
  assumes rl: "regmap_laws (dc_regs dc) regs" and out: "output < VSDC_MAX_OUTPUTS"
    and st: "visible st" "crtc st = Some output" "fb st = Some f" "vs_fb_get_dma_addr f (src st) = Some a"
      "crtc_w st \<in> {32, 64, 128, 256}"
  obtains w' where "vs_cursor_plane_atomic_update dc st w = Some w'"
    "regs w' (VSDC_CURSOR_CONFIG output) = cursor_config_word (regs w (VSDC_CURSOR_CONFIG output)) st"
    "regs w' (VSDC_CURSOR_LOCATION output) = cursor_location_word (regs w (VSDC_CURSOR_LOCATION output)) st"
    "regs w' (VSDC_CURSOR_ADDRESS output) = lower_32_bits a"
proof -
  have ne: "VSDC_CURSOR_CONFIG output \<noteq> VSDC_CURSOR_LOCATION output"
    "VSDC_CURSOR_CONFIG output \<noteq> VSDC_CURSOR_ADDRESS output"
    "VSDC_CURSOR_LOCATION output \<noteq> VSDC_CURSOR_ADDRESS output"
    by (simp_all add: vs_addr)
  note simps = regmap_laws.regs_simps [OF rl] vs_field
  let ?C = "VSDC_CURSOR_CONFIG output" and ?L = "VSDC_CURSOR_LOCATION output" and ?rm = "dc_regs dc"
  have size: "regs (vs_cursor_set_size ?rm output (crtc_w st) w) = (regs w)(?C :=
      (regs w ?C AND NOT (GENMASK 7 5)) OR (push_bit 5 (cursor_size_code (crtc_w st)) AND GENMASK 7 5))" for w
    using st(5) by (auto simp: vs_cursor_set_size_def cursor_size_code_def simps)
  have x: "regs (vs_cursor_set_x ?rm output (crtc_x st) w) = (regs w)(
      ?C := (regs w ?C AND NOT (GENMASK 20 16)) OR
        ((if 0 \<le> crtc_x st then 0 else word_of_int (- crtc_x st)) AND GENMASK 20 16),
      ?L := (regs w ?L AND NOT (GENMASK 14 0)) OR
        ((if 0 \<le> crtc_x st then push_bit 0 (word_of_int (crtc_x st)) else 0) AND GENMASK 14 0))" for w
    using ne by (simp add: vs_cursor_set_x_def simps)
  have y: "regs (vs_cursor_set_y ?rm output (crtc_y st) w) = (regs w)(
      ?C := (regs w ?C AND NOT (GENMASK 12 8)) OR
        ((if 0 \<le> crtc_y st then 0 else word_of_int (- crtc_y st)) AND GENMASK 12 8),
      ?L := (regs w ?L AND NOT (GENMASK 30 16)) OR
        ((if 0 \<le> crtc_y st then push_bit 16 (word_of_int (crtc_y st)) else 0) AND GENMASK 30 16))" for w
    using ne by (simp add: vs_cursor_set_y_def simps)
  have c: "regs (vs_cursor_plane_commit dc output w) = (regs w)(?C := regs w ?C OR (BIT 3 OR BIT 2))" for w
    by (simp add: vs_cursor_plane_commit_def simps)
  define w1 where "w1 = vs_cursor_set_size ?rm output (crtc_w st) w"
  define w2 where "w2 = regmap_write ?rm w1 (VSDC_CURSOR_ADDRESS output) (lower_32_bits a)"
  define w3 where "w3 = vs_cursor_set_y ?rm output (crtc_y st) (vs_cursor_set_x ?rm output (crtc_x st) w2)"
  show thesis
  proof (rule that [of "vs_cursor_plane_commit dc output w3"])
    show "vs_cursor_plane_atomic_update dc st w = Some (vs_cursor_plane_commit dc output w3)"
      using st by (simp add: vs_cursor_plane_atomic_update_def w1_def w2_def w3_def Let_def)
    show "regs (vs_cursor_plane_commit dc output w3) ?C = cursor_config_word (regs w ?C) st"
      "regs (vs_cursor_plane_commit dc output w3) ?L = cursor_location_word (regs w ?L) st"
      "regs (vs_cursor_plane_commit dc output w3) (VSDC_CURSOR_ADDRESS output) = lower_32_bits a"
      using ne by (simp_all add: c w3_def x y w2_def regmap_laws.regs_write [OF rl] w1_def size
          cursor_config_word_def cursor_location_word_def Let_def)
  qed
qed

lemma cursor_size_fits: "take_bit 3 (cursor_size_code wd) = cursor_size_code wd"
  by (simp add: cursor_size_code_def take_bit_eq_mod)

lemma FIELD_GET_set_32:
  assumes "l \<le> h" "h < 32" "3 < l"
  shows "FIELD_GET (GENMASK h l) (r OR (BIT 3 OR BIT 2)) = FIELD_GET (GENMASK h l) r"
  using FIELD_GET_or_BIT [OF assms(1,2), of 3 r] FIELD_GET_or_BIT [OF assms(1,2), of 2 "r OR BIT 3"] assms(3)
  by (simp add: or.assoc)

lemma uint_take_15: "0 \<le> x \<Longrightarrow> x < 2 ^ 15 \<Longrightarrow> take_bit 15 (word_of_int x :: u32) = word_of_int x"
  by (intro take_bit_u32_small unat_less_of_uint) (simp add: uint_word_of_int_small)

lemma cursor_words_fields:
  assumes "0 \<le> crtc_x st" "crtc_x st < 2 ^ 15" "0 \<le> crtc_y st" "crtc_y st < 2 ^ 15"
  shows "FIELD_GET (GENMASK 7 5) (cursor_config_word r st) = cursor_size_code (crtc_w st)"
    "FIELD_GET (GENMASK 20 16) (cursor_config_word r st) = 0"
    "FIELD_GET (GENMASK 12 8) (cursor_config_word r st) = 0"
    "bit (cursor_config_word r st) 2" "bit (cursor_config_word r st) 3"
    "n < 2 \<Longrightarrow> bit (cursor_config_word r st) n = bit r n"
    "FIELD_GET (GENMASK 14 0) (cursor_location_word q st) = word_of_int (crtc_x st)"
    "FIELD_GET (GENMASK 30 16) (cursor_location_word q st) = word_of_int (crtc_y st)"
proof -
  note d = cursor_config_word_def cursor_location_word_def Let_def
  show "FIELD_GET (GENMASK 7 5) (cursor_config_word r st) = cursor_size_code (crtc_w st)"
    using cursor_size_fits assms by (simp add: d FIELD_GET_set_32 field_get)
  show "FIELD_GET (GENMASK 20 16) (cursor_config_word r st) = 0"
    "FIELD_GET (GENMASK 12 8) (cursor_config_word r st) = 0"
    using assms by (simp_all add: d FIELD_GET_set_32 field_get)
  show "bit (cursor_config_word r st) 2" "bit (cursor_config_word r st) 3"
    by (simp_all add: d regfield)
  show "n < 2 \<Longrightarrow> bit (cursor_config_word r st) n = bit r n"
    by (auto simp: d regfield)
  show "FIELD_GET (GENMASK 14 0) (cursor_location_word q st) = word_of_int (crtc_x st)"
    "FIELD_GET (GENMASK 30 16) (cursor_location_word q st) = word_of_int (crtc_y st)"
    using assms uint_take_15 [of "crtc_x st"] uint_take_15 [of "crtc_y st"]
      FIELD_GET_update_0 [of 14 q "word_of_int (crtc_x st)"]
    by (simp_all add: d field_get)
qed

section \<open>Properties\<close>

text \<open>C20: a cursor the check accepts is square, of a power-of-two size the controller has, and the update programs it: size code, address, position in the two location fields with no image
  offset, the commit and image update bits set, and the format field left as enabling set it.\<close>

theorem vs_cursor_plane_update_programs:
  assumes "regmap_laws (dc_regs dc) regs" "output < VSDC_MAX_OUTPUTS" "power_of_2_law p"
    and "vs_find_identity m r c vs_chip_identities = Some (identity dc)"
    and "vs_cursor_plane_atomic_check p hdr dc st cs = (0, st')" "visible st'"
    and "crtc st = Some output" "fb st = Some f" "vs_fb_get_dma_addr f (src st') = Some a"
    and "0 \<le> crtc_x st'" "crtc_x st' < 2 ^ 15" "0 \<le> crtc_y st'" "crtc_y st' < 2 ^ 15"
  shows "crtc_h st' = crtc_w st' \<and> uint (crtc_w st') \<le> max_cursor_size (identity dc) \<and>
    crtc_w st' = push_bit (5 + unat (cursor_size_code (crtc_w st'))) 1 \<and>
    (\<exists>w'. vs_cursor_plane_atomic_update dc st' w = Some w' \<and>
      FIELD_GET VSDC_CURSOR_CONFIG_SIZE_MASK (regs w' (VSDC_CURSOR_CONFIG output)) = cursor_size_code (crtc_w st') \<and>
      FIELD_GET VSDC_CURSOR_CONFIG_X_OFF_MASK (regs w' (VSDC_CURSOR_CONFIG output)) = 0 \<and>
      FIELD_GET VSDC_CURSOR_CONFIG_Y_OFF_MASK (regs w' (VSDC_CURSOR_CONFIG output)) = 0 \<and>
      bit (regs w' (VSDC_CURSOR_CONFIG output)) 2 \<and> bit (regs w' (VSDC_CURSOR_CONFIG output)) 3 \<and>
      (\<forall>n<2. bit (regs w' (VSDC_CURSOR_CONFIG output)) n = bit (regs w (VSDC_CURSOR_CONFIG output)) n) \<and>
      FIELD_GET VSDC_CURSOR_LOCATION_X_MASK (regs w' (VSDC_CURSOR_LOCATION output)) = word_of_int (crtc_x st') \<and>
      FIELD_GET VSDC_CURSOR_LOCATION_Y_MASK (regs w' (VSDC_CURSOR_LOCATION output)) = word_of_int (crtc_y st') \<and>
      regs w' (VSDC_CURSOR_ADDRESS output) = lower_32_bits a)"
proof -
  have mx: "0 \<le> max_cursor_size (identity dc)" "max_cursor_size (identity dc) \<le> 256"
    using find_identity_props(5) [OF assms(4)] by auto
  note acc = cursor_check_accepts [OF assms(5,6,3) mx]
  have st': "crtc st' = Some output" "fb st' = Some f"
    using check_visible_fb [OF acc(6) assms(6)] assms(7,8) by simp_all
  obtain w' where w': "vs_cursor_plane_atomic_update dc st' w = Some w'"
    "regs w' (VSDC_CURSOR_CONFIG output) = cursor_config_word (regs w (VSDC_CURSOR_CONFIG output)) st'"
    "regs w' (VSDC_CURSOR_LOCATION output) = cursor_location_word (regs w (VSDC_CURSOR_LOCATION output)) st'"
    "regs w' (VSDC_CURSOR_ADDRESS output) = lower_32_bits a"
    using cursor_update_regs [OF assms(1,2,6) st' assms(9) acc(1)] by blast
  have "crtc_w st' = push_bit (5 + unat (cursor_size_code (crtc_w st'))) 1"
    using acc(1) by (auto simp: cursor_size_code_def push_bit_eq_mult)
  then show ?thesis
    using acc(2,3) w' cursor_words_fields [OF assms(10-13)] by (auto simp: vs_field)
qed

definition pow2_ref :: "u32 \<Rightarrow> bool" where
  "pow2_ref n = (n \<in> set (map (\<lambda>k. push_bit k 1) [0..<32]))"

lemma pow2_ref_law: "power_of_2_law pow2_ref"
proof -
  have u: "uint (push_bit k 1 :: u32) = 2 ^ k" if "k < 32" for k
  proof -
    have "(2 :: int) ^ k < 2 ^ 32" using that by (intro power_strict_increasing) auto
    then show ?thesis using unsigned_push_bit_eq [of k "1 :: u32", where 'a = int]
      by (simp only: unsigned_1 push_bit_of_1 take_bit_eq_mod) simp
  qed
  have "pow2_ref n \<longleftrightarrow> (\<exists>k<32. uint n = 2 ^ k)" for n
  proof
    assume "pow2_ref n" then show "\<exists>k<32. uint n = 2 ^ k" using u by (auto simp: pow2_ref_def)
  next
    assume "\<exists>k<32. uint n = 2 ^ k"
    then obtain k :: nat where "k < 32" "n = push_bit k 1" using u by (metis word_uint_eq_iff)
    then show "pow2_ref n" by (auto simp: pow2_ref_def)
  qed
  then show ?thesis by (simp add: power_of_2_law_def)
qed

definition cursor_fb :: drm_framebuffer where
  "cursor_fb = \<lparr>fb_id = 3, fb_format = xrgb_info\<lparr>fi_format := DRM_FORMAT_ARGB8888\<rparr>, fb_modifier = 0,
     fb_width = 32, fb_height = 32, pitches = [128], offsets = [0], fb_obj = [Some 0x90000000]\<rparr>"

definition cursor_state :: "int \<Rightarrow> int \<Rightarrow> drm_plane_state" where
  "cursor_state x y = example_state\<lparr>fb := Some cursor_fb, crtc_x := x, crtc_y := y, crtc_w := 32, crtc_h := 32,
     src_w := push_bit 16 32, src_h := push_bit 16 32\<rparr>"

definition cursor_check :: "int \<Rightarrow> int \<Rightarrow> int \<times> drm_plane_state" where
  "cursor_check x y = vs_cursor_plane_atomic_check pow2_ref plane_hdr_c (example_dc 4 vs_dc8000_funcs)
     (cursor_state x y) example_crtc_state"

theorem vs_cursor_plane_update_programs_witness:
  "\<exists>w'. vs_cursor_plane_atomic_update (example_dc 4 vs_dc8000_funcs) (snd (cursor_check 5 7)) board_init = Some w' \<and>
     FIELD_GET VSDC_CURSOR_LOCATION_X_MASK (bd_regs w' (VSDC_CURSOR_LOCATION 0)) = 5 \<and>
     FIELD_GET VSDC_CURSOR_LOCATION_Y_MASK (bd_regs w' (VSDC_CURSOR_LOCATION 0)) = 7"
proof -
  let ?dc = "example_dc 4 vs_dc8000_funcs" and ?s = "snd (cursor_check 5 7)"
  have v: "fst (cursor_check 5 7) = 0" "visible ?s" "crtc_x ?s = 5" "crtc_y ?s = 7"
    "vs_fb_get_dma_addr cursor_fb (src ?s) = Some 0x90000000"
    by code_simp+
  have c: "vs_cursor_plane_atomic_check pow2_ref plane_hdr_c ?dc (cursor_state 5 7) example_crtc_state = (0, ?s)"
    using v(1) by (simp add: cursor_check_def prod_eq_iff)
  have rl: "regmap_laws (dc_regs ?dc) bd_regs" using bd.regmap_laws_axioms by (simp add: example_dc_def)
  have i: "vs_find_identity 0 0x5560 0x305 vs_chip_identities = Some (identity ?dc)"
    by (simp add: vs_chip_identities_def example_dc_def)
  have s: "crtc (cursor_state 5 7) = Some 0" "fb (cursor_state 5 7) = Some cursor_fb" "(0::nat) < VSDC_MAX_OUTPUTS"
    by (simp_all add: cursor_state_def example_state_def VSDC_MAX_OUTPUTS_def)
  show ?thesis
    using vs_cursor_plane_update_programs [OF rl s(3) pow2_ref_law i c v(2) s(1,2) v(5), where w = board_init]
      v(3,4) by auto
qed

lemma negative_coord:
  assumes "vs_cursor_plane_check_coord x" "x < 0" "is_s32 x"
  shows "- 32 \<le> x"
proof (rule ccontr)
  assume "\<not> - 32 \<le> x"
  then have x: "32 < - x" by simp
  show False
  proof (cases "x = - (2 ^ 31)")
    case True
    then have "wrap32 (- x) = - (2 ^ 31)" using wrap32_high [of "2 ^ 31"] by simp
    then show False
      using assms(1,2) by (simp add: vs_cursor_plane_check_coord_def VSDC_CURSOR_LOCATION_MAX_NEGATIVE_def)
  next
    case False
    then have "wrap32 (- x) = - x" using assms(2,3) by (intro wrap32_id) (auto simp: is_s32_def)
    moreover have "(- x) mod 2 ^ 64 = - x" using assms(2,3) by (simp add: is_s32_def)
    ultimately show False using assms(1,2) x
      by (simp add: vs_cursor_plane_check_coord_def VSDC_CURSOR_LOCATION_MAX_NEGATIVE_def)
  qed
qed

lemma offset_outside_field:
  assumes "0 < n" "n \<le> 32" "8 \<le> l"
  shows "(word_of_int n :: u32) AND GENMASK h l = 0"
proof (rule bit_word_eqI)
  fix k :: nat assume "k < LENGTH(32)"
  have "unat (word_of_int n :: u32) < 2 ^ 6"
    using assms by (intro unat_less_of_uint) (simp add: uint_word_of_int_small)
  then have "k < 6" if "bit (word_of_int n :: u32) k" using bit_small that by blast
  then show "bit ((word_of_int n :: u32) AND GENMASK h l) k = bit (0 :: u32) k"
    using assms(3) by (auto simp: regfield)
qed

text \<open>The offset of a cursor that is partly left of or above the display is lost. The driver writes the offset
  into its field without shifting it there, so every accepted negative coordinate programs the same registers as
  coordinate 0; and the largest coordinate the check accepts, 32768, does not fit the 15-bit location field and is programmed as 0
  too.\<close>

theorem vs_cursor_plane_offset_lost:
  assumes "regmap_laws (dc_regs dc) regs" "output < VSDC_MAX_OUTPUTS"
    and "visible st" "crtc st = Some output" "fb st = Some f" "vs_fb_get_dma_addr f (src st) = Some a"
    and "crtc_w st \<in> {32, 64, 128, 256}"
    and "vs_cursor_plane_check_coord x" "is_s32 x" "x < 0 \<or> x = 32768"
  shows "\<exists>w' w0. vs_cursor_plane_atomic_update dc (st\<lparr>crtc_x := x\<rparr>) w = Some w' \<and>
    vs_cursor_plane_atomic_update dc (st\<lparr>crtc_x := 0\<rparr>) w = Some w0 \<and>
    regs w' (VSDC_CURSOR_CONFIG output) = regs w0 (VSDC_CURSOR_CONFIG output) \<and>
    regs w' (VSDC_CURSOR_LOCATION output) = regs w0 (VSDC_CURSOR_LOCATION output)"
proof -
  have big: "(word_of_int 32768 :: u32) AND GENMASK 14 0 = 0" by code_simp
  have off: "(word_of_int (- x) :: u32) AND GENMASK 20 16 = 0" if "x < 0"
    using negative_coord [OF assms(8) that assms(9)] that by (intro offset_outside_field) auto
  have cw: "cursor_config_word r (st\<lparr>crtc_x := x\<rparr>) = cursor_config_word r (st\<lparr>crtc_x := 0\<rparr>)" for r
    using assms(10) off by (auto simp: cursor_config_word_def)
  have lw: "cursor_location_word r (st\<lparr>crtc_x := x\<rparr>) = cursor_location_word r (st\<lparr>crtc_x := 0\<rparr>)" for r
    using assms(10) big by (auto simp: cursor_location_word_def)
  have 1: "\<exists>w'. vs_cursor_plane_atomic_update dc (st\<lparr>crtc_x := v\<rparr>) w = Some w' \<and>
      regs w' (VSDC_CURSOR_CONFIG output) =
        cursor_config_word (regs w (VSDC_CURSOR_CONFIG output)) (st\<lparr>crtc_x := v\<rparr>) \<and>
      regs w' (VSDC_CURSOR_LOCATION output) =
        cursor_location_word (regs w (VSDC_CURSOR_LOCATION output)) (st\<lparr>crtc_x := v\<rparr>)" for v
    by (rule cursor_update_regs [OF assms(1,2), of "st\<lparr>crtc_x := v\<rparr>" f a w]) (use assms(3-7) in auto)
  show ?thesis using 1 [of x] 1 [of 0] cw lw by auto
qed

theorem vs_cursor_plane_offset_lost_witness:
  "\<exists>w' w0. vs_cursor_plane_atomic_update (example_dc 4 vs_dc8000_funcs)
       ((cursor_state 0 7)\<lparr>visible := True, crtc_x := -5\<rparr>) board_init = Some w' \<and>
     vs_cursor_plane_atomic_update (example_dc 4 vs_dc8000_funcs)
       ((cursor_state 0 7)\<lparr>visible := True, crtc_x := 0\<rparr>) board_init = Some w0 \<and>
     bd_regs w' (VSDC_CURSOR_CONFIG 0) = bd_regs w0 (VSDC_CURSOR_CONFIG 0)"
proof -
  let ?s = "(cursor_state 0 7)\<lparr>visible := True\<rparr>"
  have rl: "regmap_laws (dc_regs (example_dc 4 vs_dc8000_funcs)) bd_regs"
    using bd.regmap_laws_axioms by (simp add: example_dc_def)
  have a: "vs_fb_get_dma_addr cursor_fb (src ?s) = Some 0x90000000" by code_simp
  have s: "visible ?s" "crtc ?s = Some 0" "fb ?s = Some cursor_fb" "crtc_w ?s \<in> {32, 64, 128, 256}"
    "(0::nat) < VSDC_MAX_OUTPUTS" "vs_cursor_plane_check_coord (-5)" "is_s32 (-5)" "(-5::int) < 0 \<or> -5 = (32768::int)"
    by (simp_all add: cursor_state_def example_state_def VSDC_MAX_OUTPUTS_def vs_cursor_plane_check_coord_def
        VSDC_CURSOR_LOCATION_MAX_NEGATIVE_def is_s32_def wrap32_id)
  show ?thesis
    using vs_cursor_plane_offset_lost [OF rl s(5,1-3) a s(4,6-8), where w = board_init] by auto
qed

end
