(* ===== verification/Vblank_Api.thy ===== *)
theory Vblank_Api
  imports Board_Api
begin

text \<open>
  The vertical blanking services of the DRM core that both display drivers call (\<open>drm_crtc_vblank_on\<close>,
  \<open>drm_crtc_vblank_off\<close>, \<open>drm_crtc_vblank_atomic_flush\<close>, \<open>drm_crtc_handle_vblank\<close>), as an interface over the
  machine state. What the drivers rely on is that these services reach the hardware only through the driver's own
  hooks, which write the interrupt registers \<open>irqs\<close>, and that they do not use clocks. The theory \<open>Drm_Vblank\<close> models
  the services themselves and shows that they keep these laws.
\<close>

record 'w vblank_api =
  crtc_vblank_on :: "nat \<Rightarrow> 'w \<Rightarrow> 'w"
  crtc_vblank_off :: "nat \<Rightarrow> 'w \<Rightarrow> 'w"
  crtc_vblank_atomic_flush :: "nat \<Rightarrow> 'w \<Rightarrow> 'w"
  crtc_handle_vblank :: "nat \<Rightarrow> 'w \<Rightarrow> 'w"

locale vblank_laws =
  fixes vb :: "'w vblank_api" and regs :: "'w \<Rightarrow> u32 \<Rightarrow> u32" and clk_count :: "'w \<Rightarrow> clk \<Rightarrow> nat"
    and irqs :: "u32 set"
  assumes vb_regs: "r \<notin> irqs \<Longrightarrow> regs (crtc_vblank_on vb i w) r = regs w r"
      "r \<notin> irqs \<Longrightarrow> regs (crtc_vblank_off vb i w) r = regs w r"
      "r \<notin> irqs \<Longrightarrow> regs (crtc_vblank_atomic_flush vb i w) r = regs w r"
      "r \<notin> irqs \<Longrightarrow> regs (crtc_handle_vblank vb i w) r = regs w r"
    and vb_clk: "clk_count (crtc_vblank_on vb i w) = clk_count w"
      "clk_count (crtc_vblank_off vb i w) = clk_count w"
      "clk_count (crtc_vblank_atomic_flush vb i w) = clk_count w"
      "clk_count (crtc_handle_vblank vb i w) = clk_count w"

text \<open>On the example board: turning vertical blanking on and off sets and clears bit \<open>i\<close> of the enable register.\<close>

definition board_vblank :: "u32 \<Rightarrow> board vblank_api" where
  "board_vblank irq_en = \<lparr>
     crtc_vblank_on = (\<lambda>i w. regmap_set_bits board_regmap w irq_en (BIT i)),
     crtc_vblank_off = (\<lambda>i w. regmap_clear_bits board_regmap w irq_en (BIT i)),
     crtc_vblank_atomic_flush = (\<lambda>i w. w),
     crtc_handle_vblank = (\<lambda>i w. w)\<rparr>"

interpretation bv: vblank_laws "board_vblank irq_en" bd_regs bd_clk "{irq_en}" for irq_en
  by unfold_locales (simp_all add: board_vblank_def board_eval)

end
