(* ===== verification/Vs_Crtc.thy ===== *)
theory Vs_Crtc
  imports Vs_Cursor Vblank_Api
begin

text \<open>
  The CRTC of the Verisilicon driver (\<open>drm/verisilicon/vs_crtc.c\<close>, \<open>vs_crtc.h\<close>): the timing programming,
  mode validation and fixup, enabling and disabling with the pixel clock, vertical blanking, creation.
  A CRTC is its output number together with the controller object.
\<close>

section \<open>Operations\<close>

definition VSDC_DISP_TIMING_VALUE_MAX :: int where "VSDC_DISP_TIMING_VALUE_MAX = 2 ^ 15"

definition vs_crtc_atomic_begin :: "'w vs_dc \<Rightarrow> nat \<Rightarrow> 'w \<Rightarrow> 'w" where
  "vs_crtc_atomic_begin dc output w =
     (case crtc_begin (funcs dc) of None \<Rightarrow> w | Some f \<Rightarrow> f (dc_regs dc) output w)"

definition vs_crtc_atomic_flush :: "'w vblank_api \<Rightarrow> 'w vs_dc \<Rightarrow> nat \<Rightarrow> 'w \<Rightarrow> 'w" where
  "vs_crtc_atomic_flush vb dc output w =
     (let w = (case crtc_flush (funcs dc) of None \<Rightarrow> w | Some f \<Rightarrow> f (dc_regs dc) output w)
      in crtc_vblank_atomic_flush vb output w)"

definition vs_crtc_atomic_disable :: "'w vblank_api \<Rightarrow> 'w clk_api \<Rightarrow> 'w vs_dc \<Rightarrow> nat \<Rightarrow> 'w \<Rightarrow> 'w" where
  "vs_crtc_atomic_disable vb ck dc output w =
     (let w = crtc_vblank_off vb output w;
          w = clk_disable_unprepare ck w (pix_clk dc ! output)
      in case crtc_disable_ex (funcs dc) of None \<Rightarrow> w | Some f \<Rightarrow> f (dc_regs dc) output w)"

text \<open>A clock that fails to start only produces a warning.\<close>

definition vs_crtc_atomic_enable :: "'w vblank_api \<Rightarrow> 'w clk_api \<Rightarrow> 'w vs_dc \<Rightarrow> nat \<Rightarrow> 'w \<Rightarrow> 'w" where
  "vs_crtc_atomic_enable vb ck dc output w =
     (let (_, w) = clk_prepare_enable ck w (pix_clk dc ! output);
          w = (case crtc_enable_ex (funcs dc) of None \<Rightarrow> w | Some f \<Rightarrow> f (dc_regs dc) output w)
      in crtc_vblank_on vb output w)"

definition vs_crtc_mode_set_nofb ::
    "'w clk_api \<Rightarrow> 'w vs_dc \<Rightarrow> nat \<Rightarrow> drm_display_mode \<Rightarrow> 'w \<Rightarrow> 'w" where
  "vs_crtc_mode_set_nofb ck dc output m w =
     (let rm = dc_regs dc;
          w = regmap_write rm w (VSDC_DISP_HSIZE output)
                (VSDC_DISP_HSIZE_DISP (hdisplay m) OR VSDC_DISP_HSIZE_TOTAL (htotal m));
          w = regmap_write rm w (VSDC_DISP_VSIZE output)
                (VSDC_DISP_VSIZE_DISP (vdisplay m) OR VSDC_DISP_VSIZE_TOTAL (vtotal m));
          w = regmap_write rm w (VSDC_DISP_HSYNC output)
                (VSDC_DISP_HSYNC_START (hsync_start m) OR VSDC_DISP_HSYNC_END (hsync_end m) OR
                 VSDC_DISP_HSYNC_EN);
          w = (if DRM_MODE_FLAG_PHSYNC \<notin> flags m
               then regmap_set_bits rm w (VSDC_DISP_HSYNC output) VSDC_DISP_HSYNC_POL else w);
          w = regmap_write rm w (VSDC_DISP_VSYNC output)
                (VSDC_DISP_VSYNC_START (vsync_start m) OR VSDC_DISP_VSYNC_END (vsync_end m) OR
                 VSDC_DISP_VSYNC_EN);
          w = (if DRM_MODE_FLAG_PVSYNC \<notin> flags m
               then regmap_set_bits rm w (VSDC_DISP_VSYNC output) VSDC_DISP_VSYNC_POL else w)
      in snd (clk_set_rate ck w (pix_clk dc ! output) (wrap32 (crtc_clock m * 1000))))"

text \<open>\<open>HZ_PER_KHZ\<close> is an unsigned long, so the products are taken modulo $2^{64}$.\<close>

definition vs_crtc_mode_valid ::
    "'w clk_api \<Rightarrow> 'w vs_dc \<Rightarrow> nat \<Rightarrow> drm_display_mode \<Rightarrow> 'w \<Rightarrow> drm_mode_status" where
  "vs_crtc_mode_valid ck dc output m w =
     (if uint (htotal m) > VSDC_DISP_TIMING_VALUE_MAX then MODE_BAD_HVALUE
      else if uint (vtotal m) > VSDC_DISP_TIMING_VALUE_MAX then MODE_BAD_VVALUE
      else let rate = clk_round_rate ck w (pix_clk dc ! output) ((clock m * 1000) mod 2 ^ 64)
           in if rate \<le> 0 then MODE_CLOCK_RANGE else MODE_OK)"

definition vs_crtc_mode_fixup ::
    "'w clk_api \<Rightarrow> 'w vs_dc \<Rightarrow> nat \<Rightarrow> drm_display_mode \<Rightarrow> 'w \<Rightarrow> bool \<times> drm_display_mode" where
  "vs_crtc_mode_fixup ck dc output adjusted_mode w =
     (let m = drm_mode_set_crtcinfo adjusted_mode {};
          clk_rate = clk_round_rate ck w (pix_clk dc ! output) ((crtc_clock m * 1000) mod 2 ^ 64)
      in if clk_rate \<le> 0 then (False, m)
         else (True, m\<lparr>crtc_clock := wrap32 (clk_rate div 1000)\<rparr>))"

definition vs_crtc_enable_vblank :: "'w vs_dc \<Rightarrow> nat \<Rightarrow> 'w \<Rightarrow> int \<times> 'w" where
  "vs_crtc_enable_vblank dc output w = (0, enable_vblank (funcs dc) (dc_regs dc) output w)"

definition vs_crtc_disable_vblank :: "'w vs_dc \<Rightarrow> nat \<Rightarrow> 'w \<Rightarrow> 'w" where
  "vs_crtc_disable_vblank dc output w = disable_vblank (funcs dc) (dc_regs dc) output w"

text \<open>
  Creation: the outcomes of the allocations are arguments (\<open>drmm_crtc_init_with_planes\<close> is given the two
  planes); resources are device managed, so a failure needs no unwinding.
\<close>

definition vs_crtc_init ::
    "bool \<Rightarrow> (drm_plane \<Rightarrow> int + drm_plane) \<Rightarrow> (drm_plane \<Rightarrow> drm_plane \<Rightarrow> int) \<Rightarrow> 'w vs_dc \<Rightarrow> nat \<Rightarrow>
     int + vs_crtc" where
  "vs_crtc_init drmm_kzalloc plane_alloc drmm_crtc_init_with_planes dc output =
     (if \<not> drmm_kzalloc then Inl (- ENOMEM)
      else case vs_primary_plane_init plane_alloc dc of
        Inl e \<Rightarrow> Inl e
      | Inr primary \<Rightarrow> (case vs_cursor_plane_init plane_alloc dc of
            Inl e \<Rightarrow> Inl e
          | Inr cursor \<Rightarrow>
              let ret = drmm_crtc_init_with_planes primary cursor
              in if ret \<noteq> 0 then Inl ret else Inr \<lparr>vcrtc_id = output\<rparr>))"

section \<open>Lemmas\<close>

lemma mode_set_regs:
  assumes bl: "board_laws (dc_regs dc) regs ck clk_count" and out: "output < VSDC_MAX_OUTPUTS"
  shows "regs (vs_crtc_mode_set_nofb ck dc output m w) = (regs w)(
    VSDC_DISP_HSIZE output := ucast (hdisplay m) OR push_bit 16 (ucast (htotal m)),
    VSDC_DISP_VSIZE output := ucast (vdisplay m) OR push_bit 16 (ucast (vtotal m)),
    VSDC_DISP_HSYNC output := (ucast (hsync_start m) OR push_bit 15 (ucast (hsync_end m)) OR BIT 30) OR
      (if DRM_MODE_FLAG_PHSYNC \<in> flags m then 0 else BIT 31),
    VSDC_DISP_VSYNC output := (ucast (vsync_start m) OR push_bit 15 (ucast (vsync_end m)) OR BIT 30) OR
      (if DRM_MODE_FLAG_PVSYNC \<in> flags m then 0 else BIT 31))"
proof -
  note rl = board_laws.axioms(1) [OF bl]
  show ?thesis
    unfolding vs_crtc_mode_set_nofb_def Let_def board_laws.set_rate_regs [OF bl]
    by (simp add: regmap_laws.regs_simps [OF rl] vs_field)
qed

section \<open>Properties\<close>



text \<open>The limit \<open>vs_crtc_mode_valid\<close> enforces is one too large. A mode whose horizontal total is 32768
  is accepted, but the total does not fit its 15-bit field, which is programmed as 0, and so is the sync end when it
  equals the total.\<close>

theorem vs_crtc_mode_valid_limit:
  "let m = example_mode\<lparr>htotal := 0x8000, hsync_end := 0x8000\<rparr>;
       w = vs_crtc_mode_set_nofb board_clk (example_dc 4 vs_dc8000_funcs) 0 m board_init
   in vs_crtc_mode_valid board_clk (example_dc 4 vs_dc8000_funcs) 0 m board_init = MODE_OK \<and>
      FIELD_GET VSDC_DISP_HSIZE_TOTAL_MASK (bd_regs w (VSDC_DISP_HSIZE 0)) = 0 \<and>
      FIELD_GET VSDC_DISP_HSYNC_END_MASK (bd_regs w (VSDC_DISP_HSYNC 0)) = 0"
  by code_simp

lemma crtc_hooks_clk:
  assumes "board_laws (dc_regs dc) regs ck clk_count" "known_funcs (funcs dc)"
  shows "crtc_enable_ex (funcs dc) = Some f \<Longrightarrow> clk_count (f (dc_regs dc) output w) = clk_count w"
    "crtc_disable_ex (funcs dc) = Some f \<Longrightarrow> clk_count (f (dc_regs dc) output w) = clk_count w"
  using assms(2) by (auto simp: known_funcs_def vs_dc8000_funcs_def vs_dc8200_funcs_def
      vs_dc8000_crtc_enable_ex_def vs_dc8000_crtc_disable_ex_def board_laws.set_bits_clk [OF assms(1)]
      board_laws.clear_bits_clk [OF assms(1)])

lemma crtc_enable_clk:
  assumes "board_laws (dc_regs dc) regs ck clk_count" "known_funcs (funcs dc)"
    and "vblank_laws vb regs clk_count irqs"
  shows "clk_count (vs_crtc_atomic_enable vb ck dc output w) =
      clk_count (snd (clk_prepare_enable ck w (pix_clk dc ! output)))"
    "clk_count (vs_crtc_atomic_disable vb ck dc output w) = (clk_count w)
      (pix_clk dc ! output := clk_count w (pix_clk dc ! output) - 1)"
proof -
  note h = crtc_hooks_clk [OF assms(1,2)] and v = vblank_laws.vb_clk [OF assms(3)]
  show "clk_count (vs_crtc_atomic_enable vb ck dc output w) =
      clk_count (snd (clk_prepare_enable ck w (pix_clk dc ! output)))"
    using h(1) by (simp add: vs_crtc_atomic_enable_def v split: prod.split option.split)
  show "clk_count (vs_crtc_atomic_disable vb ck dc output w) = (clk_count w)
      (pix_clk dc ! output := clk_count w (pix_clk dc ! output) - 1)"
    using h(2) clk_laws.disable [OF board_laws.axioms(2) [OF assms(1)]]
    by (simp add: vs_crtc_atomic_disable_def Let_def v split: option.split)
qed

lemma crtc_enable_regs:
  assumes "board_laws (dc_regs dc) regs ck clk_count" "vblank_laws vb regs clk_count irqs"
    and "funcs dc = vs_dc8000_funcs" "VSDC_FB_CONFIG output \<notin> irqs"
  shows "regs (vs_crtc_atomic_enable vb ck dc output w) (VSDC_FB_CONFIG output) =
      regs w (VSDC_FB_CONFIG output) OR BIT 0"
    "regs (vs_crtc_atomic_disable vb ck dc output w) (VSDC_FB_CONFIG output) =
      regs w (VSDC_FB_CONFIG output) AND NOT (BIT 0)"
proof -
  note v = vblank_laws.vb_regs [OF assms(2,4)] and rl = regmap_laws.regs_simps [OF board_laws.axioms(1) [OF assms(1)]]
  show "regs (vs_crtc_atomic_enable vb ck dc output w) (VSDC_FB_CONFIG output) =
      regs w (VSDC_FB_CONFIG output) OR BIT 0"
    using board_laws.enable_regs [OF assms(1), of w "pix_clk dc ! output"]
    by (auto simp: vs_crtc_atomic_enable_def v assms(3) vs_dc8000_funcs_def vs_dc8000_crtc_enable_ex_def rl vs_field
        split: prod.split)
  show "regs (vs_crtc_atomic_disable vb ck dc output w) (VSDC_FB_CONFIG output) =
      regs w (VSDC_FB_CONFIG output) AND NOT (BIT 0)"
    using board_laws.disable_regs [OF assms(1)]
    by (simp add: vs_crtc_atomic_disable_def Let_def v assms(3) vs_dc8000_funcs_def vs_dc8000_crtc_disable_ex_def rl
        vs_field)
qed



text \<open>mode fixup accepts a mode exactly when the pixel clock can be provided; it then reports the clock the
  hardware will run at, the rounded rate in kHz, in \<open>crtc_clock\<close>, and changes nothing the client set (timings, flags, clock) in
  either case. Every mode that mode validation accepts passes the
  fixup: both ask for the same rate.\<close>

theorem vs_crtc_mode_fixup_clock:
  "user_timings (snd (vs_crtc_mode_fixup ck dc output m w)) = user_timings m \<and>
   (fst (vs_crtc_mode_fixup ck dc output m w) \<longleftrightarrow>
      0 < clk_round_rate ck w (pix_clk dc ! output) ((clock m * 1000) mod 2 ^ 64)) \<and>
   (fst (vs_crtc_mode_fixup ck dc output m w) \<longrightarrow>
      crtc_clock (snd (vs_crtc_mode_fixup ck dc output m w)) =
        wrap32 (clk_round_rate ck w (pix_clk dc ! output) ((clock m * 1000) mod 2 ^ 64) div 1000)) \<and>
   (vs_crtc_mode_valid ck dc output m w = MODE_OK \<longrightarrow> fst (vs_crtc_mode_fixup ck dc output m w))"
proof -
  have c: "crtc_clock (drm_mode_set_crtcinfo m {}) = clock m" by (rule set_crtcinfo_plain_clock) simp
  have u: "user_timings (drm_mode_set_crtcinfo m {}\<lparr>crtc_clock := v\<rparr>) = user_timings m" for v
    using set_crtcinfo_user [of m "{}"] by (simp add: user_timings_def)
  show ?thesis
    using u set_crtcinfo_user [of m "{}"]
    by (auto simp: vs_crtc_mode_fixup_def vs_crtc_mode_valid_def c Let_def split: if_splits)
qed

theorem vs_crtc_mode_fixup_clock_witness:
  "vs_crtc_mode_valid board_clk (example_dc 4 vs_dc8000_funcs) 0 example_mode board_init = MODE_OK \<and>
   fst (vs_crtc_mode_fixup board_clk (example_dc 4 vs_dc8000_funcs) 0 example_mode board_init) \<and>
   crtc_clock (snd (vs_crtc_mode_fixup board_clk (example_dc 4 vs_dc8000_funcs) 0 example_mode board_init)) = 25175"
proof -
  have v: "vs_crtc_mode_valid board_clk (example_dc 4 vs_dc8000_funcs) 0 example_mode board_init = MODE_OK"
    by code_simp
  have r: "wrap32 (clk_round_rate board_clk board_init (pix_clk (example_dc 4 vs_dc8000_funcs) ! 0)
      ((clock example_mode * 1000) mod 2 ^ 64) div 1000) = 25175" by code_simp
  show ?thesis
    using v vs_crtc_mode_fixup_clock [of board_clk "example_dc 4 vs_dc8000_funcs" 0 example_mode board_init]
    unfolding r by blast
qed

end
