(* ===== verification/Drm_Bus.thy ===== *)
theory Drm_Bus
  imports Kernel_Prelude
begin

text \<open>
  What the display drivers see of a bridge: the media bus formats and bus flags they compare (symbolic, the header
  constants are never computed with), the bus configuration of a bridge state, and the default format
  negotiation step of \<open>drm/drm_atomic_helper.c\<close>.
\<close>

datatype media_bus_fmt = MEDIA_BUS_FMT_FIXED | MEDIA_BUS_FMT_RGB888_1X24 | MEDIA_BUS_FMT_RGB565_1X16
  | MEDIA_BUS_FMT_RGB666_1X18 | MEDIA_BUS_FMT_RGB101010_1X30 | MEDIA_BUS_FMT_UYVY8_1X16
  | MEDIA_BUS_FMT_UYVY10_1X20 | MEDIA_BUS_FMT_YUV8_1X24 | MEDIA_BUS_FMT_YUV10_1X30
  | MEDIA_BUS_FMT_UYYVYY8_0_5X24 | MEDIA_BUS_FMT_UYYVYY10_0_5X30 | MEDIA_BUS_FMT_other nat

datatype bus_flag = DRM_BUS_FLAG_DE_LOW | DRM_BUS_FLAG_PIXDATA_DRIVE_NEGEDGE | DRM_BUS_FLAG_other nat

record drm_bus_cfg =
  bus_format :: media_bus_fmt
  bus_flags :: "bus_flag set"

record drm_bridge_state =
  input_bus_cfg :: drm_bus_cfg
  output_bus_cfg :: drm_bus_cfg

text \<open>The formats and their number; \<open>alloc\<close> says whether the allocation succeeds.\<close>

definition drm_atomic_helper_bridge_propagate_bus_fmt ::
    "bool \<Rightarrow> media_bus_fmt \<Rightarrow> media_bus_fmt list option \<times> nat" where
  "drm_atomic_helper_bridge_propagate_bus_fmt alloc output_fmt =
     (if \<not> alloc then (None, 0) else (Some [output_fmt], 1))"

end
