(* ===== verification/Vs_Bridge.thy ===== *)
theory Vs_Bridge
  imports Vs_Crtc Drm_Bus
begin

text \<open>
  The bridge of each output of the Verisilicon driver (\<open>drm/verisilicon/vs_bridge.c\<close>, \<open>vs_bridge.h\<close>): the
  DP format table, format negotiation, enabling for DPI and DP, disabling, detection of the output interface
  and creation. The device tree, the allocations and the bridge core are the fields of \<open>bridge_env\<close>,
  whose values are what those calls return.
\<close>

section \<open>Format negotiation\<close>

record vsdc_dp_format =
  linux_fmt :: media_bus_fmt
  is_yuv :: bool
  vsdc_fmt :: u32

definition vsdc_dp_supported_fmts :: "vsdc_dp_format list" where
  "vsdc_dp_supported_fmts = [
     \<lparr>linux_fmt = MEDIA_BUS_FMT_FIXED, is_yuv = False, vsdc_fmt = VSDC_DISP_DP_CONFIG_FMT_RGB888\<rparr>,
     \<lparr>linux_fmt = MEDIA_BUS_FMT_RGB888_1X24, is_yuv = False, vsdc_fmt = VSDC_DISP_DP_CONFIG_FMT_RGB888\<rparr>,
     \<lparr>linux_fmt = MEDIA_BUS_FMT_RGB565_1X16, is_yuv = False, vsdc_fmt = VSDC_DISP_DP_CONFIG_FMT_RGB565\<rparr>,
     \<lparr>linux_fmt = MEDIA_BUS_FMT_RGB666_1X18, is_yuv = False, vsdc_fmt = VSDC_DISP_DP_CONFIG_FMT_RGB666\<rparr>,
     \<lparr>linux_fmt = MEDIA_BUS_FMT_RGB101010_1X30, is_yuv = False, vsdc_fmt = VSDC_DISP_DP_CONFIG_FMT_RGB101010\<rparr>,
     \<lparr>linux_fmt = MEDIA_BUS_FMT_UYVY8_1X16, is_yuv = True, vsdc_fmt = VSDC_DISP_DP_CONFIG_YUV_FMT_UYVY8\<rparr>,
     \<lparr>linux_fmt = MEDIA_BUS_FMT_UYVY10_1X20, is_yuv = True, vsdc_fmt = VSDC_DISP_DP_CONFIG_YUV_FMT_UYVY10\<rparr>,
     \<lparr>linux_fmt = MEDIA_BUS_FMT_YUV8_1X24, is_yuv = True, vsdc_fmt = VSDC_DISP_DP_CONFIG_YUV_FMT_YUV8\<rparr>,
     \<lparr>linux_fmt = MEDIA_BUS_FMT_YUV10_1X30, is_yuv = True, vsdc_fmt = VSDC_DISP_DP_CONFIG_YUV_FMT_YUV10\<rparr>,
     \<lparr>linux_fmt = MEDIA_BUS_FMT_UYYVYY8_0_5X24, is_yuv = True, vsdc_fmt = VSDC_DISP_DP_CONFIG_YUV_FMT_UYYVYY8\<rparr>,
     \<lparr>linux_fmt = MEDIA_BUS_FMT_UYYVYY10_0_5X30, is_yuv = True,
      vsdc_fmt = VSDC_DISP_DP_CONFIG_YUV_FMT_UYYVYY10\<rparr>]"

definition vs_bridge_atomic_get_output_bus_fmts_dpi :: "bool \<Rightarrow> media_bus_fmt list option \<times> nat" where
  "vs_bridge_atomic_get_output_bus_fmts_dpi alloc =
     (if \<not> alloc then (None, 2) else (Some [MEDIA_BUS_FMT_RGB888_1X24, MEDIA_BUS_FMT_FIXED], 2))"

definition vs_bridge_atomic_get_output_bus_fmts_dp :: "bool \<Rightarrow> media_bus_fmt list option \<times> nat" where
  "vs_bridge_atomic_get_output_bus_fmts_dp alloc =
     (let n = length vsdc_dp_supported_fmts
      in if \<not> alloc then (None, n) else (Some (map linux_fmt vsdc_dp_supported_fmts), n))"

definition vs_bridge_out_dp_fmt_supported :: "media_bus_fmt \<Rightarrow> bool" where
  "vs_bridge_out_dp_fmt_supported out_fmt =
     list_ex (\<lambda>e. linux_fmt e = out_fmt) vsdc_dp_supported_fmts"

definition vs_bridge_atomic_get_input_bus_fmts_dp ::
    "bool \<Rightarrow> media_bus_fmt \<Rightarrow> media_bus_fmt list option \<times> nat" where
  "vs_bridge_atomic_get_input_bus_fmts_dp alloc output_fmt =
     (if \<not> vs_bridge_out_dp_fmt_supported output_fmt then (None, 0)
      else drm_atomic_helper_bridge_propagate_bus_fmt alloc output_fmt)"

definition vs_bridge_atomic_check_dp :: "drm_bridge_state \<Rightarrow> int" where
  "vs_bridge_atomic_check_dp bridge_state =
     (if \<not> vs_bridge_out_dp_fmt_supported (bus_format (output_bus_cfg bridge_state)) then - EINVAL else 0)"

section \<open>Enabling and disabling\<close>

definition vs_bridge_enable_common :: "'w vs_dc \<Rightarrow> nat \<Rightarrow> drm_bridge_state \<Rightarrow> 'w \<Rightarrow> 'w" where
  "vs_bridge_enable_common dc output br_state w =
     (let rm = dc_regs dc; fl = bus_flags (output_bus_cfg br_state);
          w = regmap_clear_bits rm w (VSDC_DISP_PANEL_CONFIG output) VSDC_DISP_PANEL_CONFIG_DAT_POL;
          w = regmap_assign_bits rm w (VSDC_DISP_PANEL_CONFIG output) VSDC_DISP_PANEL_CONFIG_DE_POL
                (DRM_BUS_FLAG_DE_LOW \<in> fl);
          w = regmap_assign_bits rm w (VSDC_DISP_PANEL_CONFIG output) VSDC_DISP_PANEL_CONFIG_CLK_POL
                (DRM_BUS_FLAG_PIXDATA_DRIVE_NEGEDGE \<in> fl);
          w = regmap_set_bits rm w (VSDC_DISP_PANEL_CONFIG output)
                (VSDC_DISP_PANEL_CONFIG_DE_EN OR VSDC_DISP_PANEL_CONFIG_DAT_EN OR
                 VSDC_DISP_PANEL_CONFIG_CLK_EN)
      in panel_enable_ex (funcs dc) rm output w)"

definition vs_bridge_atomic_enable_dpi :: "'w vs_dc \<Rightarrow> nat \<Rightarrow> drm_bridge_state \<Rightarrow> 'w \<Rightarrow> 'w" where
  "vs_bridge_atomic_enable_dpi dc output br_state w =
     (let rm = dc_regs dc;
          w = regmap_clear_bits rm w (VSDC_DISP_DP_CONFIG output) VSDC_DISP_DP_CONFIG_DP_EN;
          w = regmap_write rm w (VSDC_DISP_DPI_CONFIG output) VSDC_DISP_DPI_CONFIG_FMT_RGB888
      in vs_bridge_enable_common dc output br_state w)"

text \<open>The search stops at the first entry with the format; without one the function only warns.\<close>

definition vs_bridge_atomic_enable_dp :: "'w vs_dc \<Rightarrow> nat \<Rightarrow> drm_bridge_state \<Rightarrow> 'w \<Rightarrow> 'w" where
  "vs_bridge_atomic_enable_dp dc output br_state w =
     (case find (\<lambda>e. linux_fmt e = bus_format (output_bus_cfg br_state)) vsdc_dp_supported_fmts of
        None \<Rightarrow> w
      | Some e \<Rightarrow>
          let rm = dc_regs dc;
              dp_fmt = vsdc_fmt e OR VSDC_DISP_DP_CONFIG_DP_EN;
              w = regmap_write rm w (VSDC_DISP_DP_CONFIG output) dp_fmt;
              w = regmap_assign_bits rm w (VSDC_DISP_PANEL_CONFIG output) VSDC_DISP_PANEL_CONFIG_YUV (is_yuv e)
          in vs_bridge_enable_common dc output br_state w)"

definition vs_bridge_atomic_disable :: "'w vs_dc \<Rightarrow> nat \<Rightarrow> 'w \<Rightarrow> 'w" where
  "vs_bridge_atomic_disable dc output w = panel_disable_ex (funcs dc) (dc_regs dc) output w"

section \<open>Creation\<close>

datatype vs_bridge_output_interface = VSDC_OUTPUT_INTERFACE_DPI | VSDC_OUTPUT_INTERFACE_DP

fun intf_endpoint :: "vs_bridge_output_interface \<Rightarrow> nat" where
  "intf_endpoint VSDC_OUTPUT_INTERFACE_DPI = 0"
| "intf_endpoint VSDC_OUTPUT_INTERFACE_DP = 1"

datatype encoder_type = DRM_MODE_ENCODER_NONE | DRM_MODE_ENCODER_DPI

record bridge_env =
  of_graph_get_remote_node :: "nat \<Rightarrow> nat \<Rightarrow> bool"
  devm_drm_of_get_bridge :: "nat \<Rightarrow> nat \<Rightarrow> int + nat"
  devm_drm_bridge_alloc :: int
  drmm_plain_encoder_alloc :: "encoder_type \<Rightarrow> int"
  devm_drm_bridge_add :: int
  drm_bridge_attach :: int
  drm_bridge_connector_init :: int

record vs_bridge =
  br_crtc :: nat
  next_bridge :: nat
  intf :: vs_bridge_output_interface
  enc_type :: encoder_type
  enc_possible_crtcs :: "nat set"

text \<open>\<open>vs_bridge_attach\<close> passes its encoder on to the next bridge.\<close>

definition vs_bridge_attach :: "(nat \<Rightarrow> int) \<Rightarrow> vs_bridge \<Rightarrow> int" where
  "vs_bridge_attach attach_next vbridge = attach_next (next_bridge vbridge)"

definition vs_bridge_detect_output_interface :: "bridge_env \<Rightarrow> nat \<Rightarrow> int + vs_bridge_output_interface" where
  "vs_bridge_detect_output_interface env output =
     (if of_graph_get_remote_node env output (intf_endpoint VSDC_OUTPUT_INTERFACE_DPI)
      then Inr VSDC_OUTPUT_INTERFACE_DPI
      else if of_graph_get_remote_node env output (intf_endpoint VSDC_OUTPUT_INTERFACE_DP)
      then Inr VSDC_OUTPUT_INTERFACE_DP
      else Inl (- ENODEV))"

text \<open>\<open>Inr None\<close> is the null pointer of an output that is not connected.\<close>

definition vs_bridge_init :: "bridge_env \<Rightarrow> vs_crtc \<Rightarrow> int + vs_bridge option" where
  "vs_bridge_init env vcrtc =
     (let output = vcrtc_id vcrtc
      in case vs_bridge_detect_output_interface env output of
           Inl _ \<Rightarrow> Inr None
         | Inr i \<Rightarrow> (case devm_drm_of_get_bridge env output (intf_endpoint i) of
               Inl ret \<Rightarrow> Inl ret
             | Inr nxt \<Rightarrow>
                 if devm_drm_bridge_alloc env \<noteq> 0 then Inl (devm_drm_bridge_alloc env)
                 else
                   let enctype = (if i = VSDC_OUTPUT_INTERFACE_DPI then DRM_MODE_ENCODER_DPI
                                  else DRM_MODE_ENCODER_NONE)
                   in if drmm_plain_encoder_alloc env enctype \<noteq> 0
                      then Inl (drmm_plain_encoder_alloc env enctype)
                      else if devm_drm_bridge_add env \<noteq> 0 then Inl (devm_drm_bridge_add env)
                      else if drm_bridge_attach env \<noteq> 0 then Inl (drm_bridge_attach env)
                      else if drm_bridge_connector_init env \<noteq> 0 then Inl (drm_bridge_connector_init env)
                      else Inr (Some \<lparr>br_crtc = output, next_bridge = nxt, intf = i, enc_type = enctype,
                                      enc_possible_crtcs = {output}\<rparr>)))"

section \<open>Lemmas\<close>

lemma dp_supported_find:
  "vs_bridge_out_dp_fmt_supported f \<longleftrightarrow> find (\<lambda>e. linux_fmt e = f) vsdc_dp_supported_fmts \<noteq> None"
  by (auto simp: vs_bridge_out_dp_fmt_supported_def list_ex_iff find_None_iff)

text \<open>The panel configuration the common part leaves, before the generation's own step.\<close>

definition panel_word :: "u32 \<Rightarrow> drm_bridge_state \<Rightarrow> u32" where
  "panel_word r br =
     (let fl = bus_flags (output_bus_cfg br);
          r = r AND NOT (BIT 5);
          r = (if DRM_BUS_FLAG_DE_LOW \<in> fl then r OR BIT 1 else r AND NOT (BIT 1));
          r = (if DRM_BUS_FLAG_PIXDATA_DRIVE_NEGEDGE \<in> fl then r OR BIT 9 else r AND NOT (BIT 9))
      in r OR (BIT 0 OR BIT 4 OR BIT 8))"

lemma panel_word_bits:
  "bit (panel_word r br) 0" "bit (panel_word r br) 4" "bit (panel_word r br) 8" "\<not> bit (panel_word r br) 5"
  "bit (panel_word r br) 1 \<longleftrightarrow> DRM_BUS_FLAG_DE_LOW \<in> bus_flags (output_bus_cfg br)"
  "bit (panel_word r br) 9 \<longleftrightarrow> DRM_BUS_FLAG_PIXDATA_DRIVE_NEGEDGE \<in> bus_flags (output_bus_cfg br)"
  "n \<notin> {0, 1, 4, 5, 8, 9} \<Longrightarrow> bit (panel_word r br) n = bit r n"
  by (auto simp: panel_word_def Let_def regfield dest: bit_imp_le_length)

lemma enable_common_regs:
  assumes "regmap_laws (dc_regs dc) regs"
  obtains w0 where "vs_bridge_enable_common dc output br w = panel_enable_ex (funcs dc) (dc_regs dc) output w0"
    "regs w0 = (regs w)(VSDC_DISP_PANEL_CONFIG output := panel_word (regs w (VSDC_DISP_PANEL_CONFIG output)) br)"
proof -
  define w0 where "w0 = (let rm = dc_regs dc; fl = bus_flags (output_bus_cfg br);
      w = regmap_clear_bits rm w (VSDC_DISP_PANEL_CONFIG output) VSDC_DISP_PANEL_CONFIG_DAT_POL;
      w = regmap_assign_bits rm w (VSDC_DISP_PANEL_CONFIG output) VSDC_DISP_PANEL_CONFIG_DE_POL
            (DRM_BUS_FLAG_DE_LOW \<in> fl);
      w = regmap_assign_bits rm w (VSDC_DISP_PANEL_CONFIG output) VSDC_DISP_PANEL_CONFIG_CLK_POL
            (DRM_BUS_FLAG_PIXDATA_DRIVE_NEGEDGE \<in> fl)
      in regmap_set_bits rm w (VSDC_DISP_PANEL_CONFIG output)
            (VSDC_DISP_PANEL_CONFIG_DE_EN OR VSDC_DISP_PANEL_CONFIG_DAT_EN OR VSDC_DISP_PANEL_CONFIG_CLK_EN))"
  show thesis
  proof (rule that [of w0])
    show "vs_bridge_enable_common dc output br w = panel_enable_ex (funcs dc) (dc_regs dc) output w0"
      by (simp add: vs_bridge_enable_common_def w0_def Let_def)
    show "regs w0 = (regs w)(VSDC_DISP_PANEL_CONFIG output := panel_word (regs w (VSDC_DISP_PANEL_CONFIG output)) br)"
      by (simp add: w0_def Let_def regmap_laws.regs_simps [OF assms] panel_word_def vs_field)
  qed
qed

text \<open>The generations' panel hooks, register by register.\<close>

lemma panel_hooks_regs:
  assumes "regmap_laws rm regs" "output < VSDC_MAX_OUTPUTS"
  shows "regs (vs_dc8200_panel_enable_ex rm output w) = (regs w)(
      VSDC_DISP_PANEL_CONFIG output := regs w (VSDC_DISP_PANEL_CONFIG output) OR BIT 12,
      VSDC_DISP_PANEL_START := (regs w VSDC_DISP_PANEL_START AND NOT (BIT 3)) OR BIT output,
      VSDC_DISP_PANEL_CONFIG_EX output := regs w (VSDC_DISP_PANEL_CONFIG_EX output) OR BIT 0)"
    and "regs (vs_dc8200_panel_disable_ex rm output w) = (regs w)(
      VSDC_DISP_PANEL_CONFIG output := regs w (VSDC_DISP_PANEL_CONFIG output) AND NOT (BIT 12),
      VSDC_DISP_PANEL_START := regs w VSDC_DISP_PANEL_START AND NOT (BIT 3 OR BIT output),
      VSDC_DISP_PANEL_CONFIG_EX output := regs w (VSDC_DISP_PANEL_CONFIG_EX output) OR BIT 0)"
    and "regs (vs_dc8000_panel_enable_ex rm output w) = (regs w)(
      VSDC_FB_CONFIG output := regs w (VSDC_FB_CONFIG output) OR BIT 4)"
    and "regs (vs_dc8000_panel_disable_ex rm output w) = (regs w)(
      VSDC_FB_CONFIG output := regs w (VSDC_FB_CONFIG output) AND NOT (BIT 4))"
proof -
  have o: "output = 0 \<or> output = 1" using assms(2) by (auto simp: VSDC_MAX_OUTPUTS_def)
  note s = regmap_laws.regs_simps [OF assms(1)] vs_addr vs_field Let_def
  show "regs (vs_dc8200_panel_enable_ex rm output w) = (regs w)(
      VSDC_DISP_PANEL_CONFIG output := regs w (VSDC_DISP_PANEL_CONFIG output) OR BIT 12,
      VSDC_DISP_PANEL_START := (regs w VSDC_DISP_PANEL_START AND NOT (BIT 3)) OR BIT output,
      VSDC_DISP_PANEL_CONFIG_EX output := regs w (VSDC_DISP_PANEL_CONFIG_EX output) OR BIT 0)"
    using o by (auto simp: vs_dc8200_panel_enable_ex_def s fun_eq_iff)
  show "regs (vs_dc8200_panel_disable_ex rm output w) = (regs w)(
      VSDC_DISP_PANEL_CONFIG output := regs w (VSDC_DISP_PANEL_CONFIG output) AND NOT (BIT 12),
      VSDC_DISP_PANEL_START := regs w VSDC_DISP_PANEL_START AND NOT (BIT 3 OR BIT output),
      VSDC_DISP_PANEL_CONFIG_EX output := regs w (VSDC_DISP_PANEL_CONFIG_EX output) OR BIT 0)"
    using o by (auto simp: vs_dc8200_panel_disable_ex_def s fun_eq_iff)
  show "regs (vs_dc8000_panel_enable_ex rm output w) = (regs w)(
      VSDC_FB_CONFIG output := regs w (VSDC_FB_CONFIG output) OR BIT 4)"
    "regs (vs_dc8000_panel_disable_ex rm output w) = (regs w)(
      VSDC_FB_CONFIG output := regs w (VSDC_FB_CONFIG output) AND NOT (BIT 4))"
    by (simp_all add: vs_dc8000_panel_enable_ex_def vs_dc8000_panel_disable_ex_def
        regmap_laws.regs_simps [OF assms(1)] vs_field)
qed

lemma enable_common_bits:
  assumes "regmap_laws (dc_regs dc) regs" "output < VSDC_MAX_OUTPUTS" "known_funcs (funcs dc)"
    and w'_def: "w' = vs_bridge_enable_common dc output br w"
  shows "n \<noteq> 12 \<Longrightarrow> bit (regs w' (VSDC_DISP_PANEL_CONFIG output)) n =
      bit (panel_word (regs w (VSDC_DISP_PANEL_CONFIG output)) br) n"
    "regs w' (VSDC_DISP_DP_CONFIG output) = regs w (VSDC_DISP_DP_CONFIG output)"
    "regs w' (VSDC_DISP_DPI_CONFIG output) = regs w (VSDC_DISP_DPI_CONFIG output)"
    "funcs dc = vs_dc8200_funcs \<Longrightarrow> bit (regs w' (VSDC_DISP_PANEL_CONFIG output)) 12 \<and>
      bit (regs w' VSDC_DISP_PANEL_START) output"
    "funcs dc = vs_dc8000_funcs \<Longrightarrow> bit (regs w' (VSDC_FB_CONFIG output)) 4"
proof -
  obtain w0 where e: "w' = panel_enable_ex (funcs dc) (dc_regs dc) output w0"
    and r: "regs w0 = (regs w)(VSDC_DISP_PANEL_CONFIG output := panel_word (regs w (VSDC_DISP_PANEL_CONFIG output)) br)"
    using enable_common_regs [OF assms(1)] unfolding w'_def by blast
  have o: "output = 0 \<or> output = 1" using assms(2) by (auto simp: VSDC_MAX_OUTPUTS_def)
  have ops: "panel_enable_ex (funcs dc) = vs_dc8000_panel_enable_ex \<or>
      panel_enable_ex (funcs dc) = vs_dc8200_panel_enable_ex"
    using assms(3) by (auto simp: known_funcs_def vs_dc8000_funcs_def vs_dc8200_funcs_def)
  note h = panel_hooks_regs [OF assms(1,2), where w = w0]
  have R: "regs w' = regs (vs_dc8000_panel_enable_ex (dc_regs dc) output w0) \<or>
      regs w' = regs (vs_dc8200_panel_enable_ex (dc_regs dc) output w0)"
    using ops by (auto simp: e)
  show "n \<noteq> 12 \<Longrightarrow> bit (regs w' (VSDC_DISP_PANEL_CONFIG output)) n =
      bit (panel_word (regs w (VSDC_DISP_PANEL_CONFIG output)) br) n"
    using R o unfolding h r by (auto simp: vs_addr regfield)
  show "regs w' (VSDC_DISP_DP_CONFIG output) = regs w (VSDC_DISP_DP_CONFIG output)"
    "regs w' (VSDC_DISP_DPI_CONFIG output) = regs w (VSDC_DISP_DPI_CONFIG output)"
    using R o unfolding h r by (auto simp: vs_addr)
  show "bit (regs w' (VSDC_DISP_PANEL_CONFIG output)) 12 \<and> bit (regs w' VSDC_DISP_PANEL_START) output"
    if "funcs dc = vs_dc8200_funcs"
  proof -
    have "regs w' = regs (vs_dc8200_panel_enable_ex (dc_regs dc) output w0)"
      using that by (simp add: e vs_dc8200_funcs_def)
    then show ?thesis using o unfolding h r by (auto simp: vs_addr regfield)
  qed
  show "bit (regs w' (VSDC_FB_CONFIG output)) 4" if "funcs dc = vs_dc8000_funcs"
  proof -
    have "regs w' = regs (vs_dc8000_panel_enable_ex (dc_regs dc) output w0)"
      using that by (simp add: e vs_dc8000_funcs_def)
    then show ?thesis using o unfolding h r by (auto simp: vs_addr regfield)
  qed
qed

section \<open>Properties\<close>

text \<open>C21: a bridge state that passes \<open>vs_bridge_atomic_check_dp\<close> is always programmed when the bridge is enabled for DP: the
  configuration register holds the format's code and the enable bit, the panel is configured with data, clock and data
  enable on, the polarities the bus flags ask for, YUV exactly for the YUV formats, and the generation's own start bit
  is set. An unsupported format is refused with \<open>-EINVAL\<close>, and every format offered to the negotiation is
  accepted.\<close>

theorem vs_bridge_enable_dp_programs:
  assumes "regmap_laws (dc_regs dc) regs" "output < VSDC_MAX_OUTPUTS" "known_funcs (funcs dc)"
    and "vs_bridge_atomic_check_dp br = 0"
  shows "let w' = vs_bridge_atomic_enable_dp dc output br w in
    \<exists>e\<in>set vsdc_dp_supported_fmts. linux_fmt e = bus_format (output_bus_cfg br) \<and>
    regs w' (VSDC_DISP_DP_CONFIG output) = vsdc_fmt e OR BIT 3 \<and>
    (bit (regs w' (VSDC_DISP_PANEL_CONFIG output)) 16 \<longleftrightarrow> is_yuv e) \<and>
    (\<forall>n\<in>{0, 4, 8}. bit (regs w' (VSDC_DISP_PANEL_CONFIG output)) n) \<and>
    (bit (regs w' (VSDC_DISP_PANEL_CONFIG output)) 1 \<longleftrightarrow> DRM_BUS_FLAG_DE_LOW \<in> bus_flags (output_bus_cfg br)) \<and>
    (bit (regs w' (VSDC_DISP_PANEL_CONFIG output)) 9 \<longleftrightarrow>
      DRM_BUS_FLAG_PIXDATA_DRIVE_NEGEDGE \<in> bus_flags (output_bus_cfg br)) \<and>
    (funcs dc = vs_dc8200_funcs \<longrightarrow> bit (regs w' VSDC_DISP_PANEL_START) output) \<and>
    (funcs dc = vs_dc8000_funcs \<longrightarrow> bit (regs w' (VSDC_FB_CONFIG output)) 4)"
proof -
  have sup: "vs_bridge_out_dp_fmt_supported (bus_format (output_bus_cfg br))"
    using assms(4) by (auto simp: vs_bridge_atomic_check_dp_def EINVAL_def split: if_splits)
  then obtain e where e: "find (\<lambda>e. linux_fmt e = bus_format (output_bus_cfg br)) vsdc_dp_supported_fmts = Some e"
    using dp_supported_find by blast
  then have em: "e \<in> set vsdc_dp_supported_fmts" "linux_fmt e = bus_format (output_bus_cfg br)"
    by (auto simp: find_Some_iff)
  define w1 where "w1 = regmap_assign_bits (dc_regs dc)
      (regmap_write (dc_regs dc) w (VSDC_DISP_DP_CONFIG output) (vsdc_fmt e OR VSDC_DISP_DP_CONFIG_DP_EN))
      (VSDC_DISP_PANEL_CONFIG output) VSDC_DISP_PANEL_CONFIG_YUV (is_yuv e)"
  have w': "vs_bridge_atomic_enable_dp dc output br w = vs_bridge_enable_common dc output br w1"
    by (simp add: vs_bridge_atomic_enable_dp_def e w1_def Let_def)
  have o: "output = 0 \<or> output = 1" using assms(2) by (auto simp: VSDC_MAX_OUTPUTS_def)
  have r1: "regs w1 (VSDC_DISP_DP_CONFIG output) = vsdc_fmt e OR BIT 3"
    "bit (regs w1 (VSDC_DISP_PANEL_CONFIG output)) 16 \<longleftrightarrow> is_yuv e"
    using o by (auto simp: w1_def regmap_laws.regs_simps [OF assms(1)] vs_addr vs_field regfield)
  note c = enable_common_bits [OF assms(1-3) refl, where br = br and w = w1]
  show ?thesis
    unfolding Let_def w' by (rule bexI [OF _ em(1)]) (use em(2) r1 c panel_word_bits in simp)
qed

theorem vs_bridge_enable_dp_programs_witness:
  "let br = \<lparr>input_bus_cfg = \<lparr>bus_format = MEDIA_BUS_FMT_YUV8_1X24, bus_flags = {}\<rparr>, output_bus_cfg = \<lparr>bus_format = MEDIA_BUS_FMT_YUV8_1X24, bus_flags = {DRM_BUS_FLAG_DE_LOW}\<rparr>\<rparr>;
       w' = vs_bridge_atomic_enable_dp (example_dc 0 vs_dc8200_funcs) 1 br board_init
   in bd_regs w' (VSDC_DISP_DP_CONFIG 1) = 0x48 \<and> bit (bd_regs w' VSDC_DISP_PANEL_START) 1"
proof -
  let ?br = "\<lparr>input_bus_cfg = \<lparr>bus_format = MEDIA_BUS_FMT_YUV8_1X24, bus_flags = {}\<rparr>, output_bus_cfg = \<lparr>bus_format = MEDIA_BUS_FMT_YUV8_1X24, bus_flags = {DRM_BUS_FLAG_DE_LOW}\<rparr>\<rparr>"
  let ?dc = "example_dc 0 vs_dc8200_funcs"
  have rl: "regmap_laws (dc_regs ?dc) bd_regs" using bd.regmap_laws_axioms by (simp add: example_dc_def)
  have k: "known_funcs (funcs ?dc)" "(1::nat) < VSDC_MAX_OUTPUTS" "vs_bridge_atomic_check_dp ?br = 0"
    "funcs ?dc = vs_dc8200_funcs"
    by (simp_all add: known_funcs_def example_dc_def VSDC_MAX_OUTPUTS_def vs_bridge_atomic_check_dp_def
        vs_bridge_out_dp_fmt_supported_def vsdc_dp_supported_fmts_def)
  obtain e where e: "e \<in> set vsdc_dp_supported_fmts" "linux_fmt e = MEDIA_BUS_FMT_YUV8_1X24"
    "bd_regs (vs_bridge_atomic_enable_dp ?dc 1 ?br board_init) (VSDC_DISP_DP_CONFIG 1) = vsdc_fmt e OR BIT 3"
    "bit (bd_regs (vs_bridge_atomic_enable_dp ?dc 1 ?br board_init) VSDC_DISP_PANEL_START) 1"
    using vs_bridge_enable_dp_programs [OF rl k(2,1,3), where w = board_init] k(4) by (auto simp: Let_def)
  have "vsdc_fmt e OR BIT 3 = 0x48"
    using e(1,2) by (auto simp: vsdc_dp_supported_fmts_def vs_field BIT_def push_bit_eq_mult)
  then show ?thesis using e(3,4) by (simp add: Let_def)
qed



end
