(* ===== verification/Drm_Fourcc.thy ===== *)
theory Drm_Fourcc
  imports Drm_Plane
begin

text \<open>
  \<open>drm/drm_fourcc.c\<close>: the table of formats and the legacy color modes. The table holds one group of
  entries per run of consecutive lines of the source; entries for formats without a constructor of their
  own (and the formats a big-endian build adds) are an argument of the lookup. Of an entry the geometry is
  kept: planes, bytes and pixels per block, subsampling. \<open>DRM_FORMAT_INVALID\<close> is \<open>None\<close>.
\<close>

section \<open>The format table\<close>

definition format_entry ::
    "drm_format \<Rightarrow> nat \<Rightarrow> nat list \<Rightarrow> nat list \<Rightarrow> nat list \<Rightarrow> nat \<Rightarrow> nat \<Rightarrow> drm_format_info" where
  "format_entry f n cpp bw bh hs vs = \<lparr>fi_format = f, num_planes = n, char_per_block = cpp,
     block_w = bw, block_h = bh, hsub = hs, vsub = vs\<rparr>"

definition formats_indexed :: "drm_format_info list" where
  "formats_indexed = [
     format_entry DRM_FORMAT_C1 1 [1, 0, 0] [8, 0, 0] [1, 0, 0] 1 1,
     format_entry DRM_FORMAT_C2 1 [1, 0, 0] [4, 0, 0] [1, 0, 0] 1 1,
     format_entry DRM_FORMAT_C4 1 [1, 0, 0] [2, 0, 0] [1, 0, 0] 1 1,
     format_entry DRM_FORMAT_C8 1 [1, 0, 0] [0, 0, 0] [0, 0, 0] 1 1]"

definition formats_16bpp :: "drm_format_info list" where
  "formats_16bpp = [
     format_entry DRM_FORMAT_XRGB4444 1 [2, 0, 0] [0, 0, 0] [0, 0, 0] 1 1,
     format_entry DRM_FORMAT_XBGR4444 1 [2, 0, 0] [0, 0, 0] [0, 0, 0] 1 1,
     format_entry DRM_FORMAT_RGBX4444 1 [2, 0, 0] [0, 0, 0] [0, 0, 0] 1 1,
     format_entry DRM_FORMAT_BGRX4444 1 [2, 0, 0] [0, 0, 0] [0, 0, 0] 1 1,
     format_entry DRM_FORMAT_ARGB4444 1 [2, 0, 0] [0, 0, 0] [0, 0, 0] 1 1,
     format_entry DRM_FORMAT_ABGR4444 1 [2, 0, 0] [0, 0, 0] [0, 0, 0] 1 1,
     format_entry DRM_FORMAT_RGBA4444 1 [2, 0, 0] [0, 0, 0] [0, 0, 0] 1 1,
     format_entry DRM_FORMAT_BGRA4444 1 [2, 0, 0] [0, 0, 0] [0, 0, 0] 1 1,
     format_entry DRM_FORMAT_XRGB1555 1 [2, 0, 0] [0, 0, 0] [0, 0, 0] 1 1,
     format_entry DRM_FORMAT_XBGR1555 1 [2, 0, 0] [0, 0, 0] [0, 0, 0] 1 1,
     format_entry DRM_FORMAT_RGBX5551 1 [2, 0, 0] [0, 0, 0] [0, 0, 0] 1 1,
     format_entry DRM_FORMAT_BGRX5551 1 [2, 0, 0] [0, 0, 0] [0, 0, 0] 1 1,
     format_entry DRM_FORMAT_ARGB1555 1 [2, 0, 0] [0, 0, 0] [0, 0, 0] 1 1,
     format_entry DRM_FORMAT_ABGR1555 1 [2, 0, 0] [0, 0, 0] [0, 0, 0] 1 1,
     format_entry DRM_FORMAT_RGBA5551 1 [2, 0, 0] [0, 0, 0] [0, 0, 0] 1 1,
     format_entry DRM_FORMAT_BGRA5551 1 [2, 0, 0] [0, 0, 0] [0, 0, 0] 1 1,
     format_entry DRM_FORMAT_RGB565 1 [2, 0, 0] [0, 0, 0] [0, 0, 0] 1 1,
     format_entry DRM_FORMAT_BGR565 1 [2, 0, 0] [0, 0, 0] [0, 0, 0] 1 1]"

definition formats_24bpp :: "drm_format_info list" where
  "formats_24bpp = [
     format_entry DRM_FORMAT_RGB888 1 [3, 0, 0] [0, 0, 0] [0, 0, 0] 1 1,
     format_entry DRM_FORMAT_BGR888 1 [3, 0, 0] [0, 0, 0] [0, 0, 0] 1 1,
     format_entry DRM_FORMAT_XRGB8888 1 [4, 0, 0] [0, 0, 0] [0, 0, 0] 1 1,
     format_entry DRM_FORMAT_XBGR8888 1 [4, 0, 0] [0, 0, 0] [0, 0, 0] 1 1,
     format_entry DRM_FORMAT_RGBX8888 1 [4, 0, 0] [0, 0, 0] [0, 0, 0] 1 1,
     format_entry DRM_FORMAT_BGRX8888 1 [4, 0, 0] [0, 0, 0] [0, 0, 0] 1 1]"

definition formats_30bpp :: "drm_format_info list" where
  "formats_30bpp = [
     format_entry DRM_FORMAT_XRGB2101010 1 [4, 0, 0] [0, 0, 0] [0, 0, 0] 1 1,
     format_entry DRM_FORMAT_XBGR2101010 1 [4, 0, 0] [0, 0, 0] [0, 0, 0] 1 1,
     format_entry DRM_FORMAT_RGBX1010102 1 [4, 0, 0] [0, 0, 0] [0, 0, 0] 1 1,
     format_entry DRM_FORMAT_BGRX1010102 1 [4, 0, 0] [0, 0, 0] [0, 0, 0] 1 1,
     format_entry DRM_FORMAT_ARGB2101010 1 [4, 0, 0] [0, 0, 0] [0, 0, 0] 1 1,
     format_entry DRM_FORMAT_ABGR2101010 1 [4, 0, 0] [0, 0, 0] [0, 0, 0] 1 1,
     format_entry DRM_FORMAT_RGBA1010102 1 [4, 0, 0] [0, 0, 0] [0, 0, 0] 1 1,
     format_entry DRM_FORMAT_BGRA1010102 1 [4, 0, 0] [0, 0, 0] [0, 0, 0] 1 1]"

definition formats_32bpp :: "drm_format_info list" where
  "formats_32bpp = [
     format_entry DRM_FORMAT_ARGB8888 1 [4, 0, 0] [0, 0, 0] [0, 0, 0] 1 1,
     format_entry DRM_FORMAT_ABGR8888 1 [4, 0, 0] [0, 0, 0] [0, 0, 0] 1 1,
     format_entry DRM_FORMAT_RGBA8888 1 [4, 0, 0] [0, 0, 0] [0, 0, 0] 1 1,
     format_entry DRM_FORMAT_BGRA8888 1 [4, 0, 0] [0, 0, 0] [0, 0, 0] 1 1]"

definition formats_YVU420 :: "drm_format_info list" where
  "formats_YVU420 = [
     format_entry DRM_FORMAT_YVU420 3 [1, 1, 1] [0, 0, 0] [0, 0, 0] 2 2]"

definition formats_NV12 :: "drm_format_info list" where
  "formats_NV12 = [
     format_entry DRM_FORMAT_NV12 2 [1, 2, 0] [0, 0, 0] [0, 0, 0] 2 2]"

definition formats_NV16 :: "drm_format_info list" where
  "formats_NV16 = [
     format_entry DRM_FORMAT_NV16 2 [1, 2, 0] [0, 0, 0] [0, 0, 0] 2 1]"

definition formats_YUYV :: "drm_format_info list" where
  "formats_YUYV = [
     format_entry DRM_FORMAT_YUYV 1 [2, 0, 0] [0, 0, 0] [0, 0, 0] 2 1]"

definition formats_UYVY :: "drm_format_info list" where
  "formats_UYVY = [
     format_entry DRM_FORMAT_UYVY 1 [2, 0, 0] [0, 0, 0] [0, 0, 0] 2 1]"

definition formats_P010 :: "drm_format_info list" where
  "formats_P010 = [
     format_entry DRM_FORMAT_P010 2 [2, 4, 0] [1, 1, 0] [1, 1, 0] 2 2]"

definition drm_formats :: "drm_format_info list" where
  "drm_formats = formats_indexed @ formats_16bpp @ formats_24bpp @ formats_30bpp @ formats_32bpp @
     formats_YVU420 @ formats_NV12 @ formats_NV16 @ formats_YUYV @ formats_UYVY @ formats_P010"

fun format_find :: "drm_format \<Rightarrow> drm_format_info list \<Rightarrow> drm_format_info option" where
  "format_find f [] = None"
| "format_find f (i # is) = (if fi_format i = f then Some i else format_find f is)"

definition drm_format_info_of :: "drm_format_info list \<Rightarrow> drm_format \<Rightarrow> drm_format_info option" where
  "drm_format_info_of others f = format_find f (drm_formats @ others)"

text \<open>\<open>drm_get_format_info\<close>: a driver's hook goes first, the table second.\<close>

definition drm_get_format_info ::
    "drm_format_info list \<Rightarrow> (drm_format \<Rightarrow> u64 \<Rightarrow> drm_format_info option) option \<Rightarrow> drm_format \<Rightarrow> u64 \<Rightarrow>
     drm_format_info option" where
  "drm_get_format_info others get_format_info pixel_format modifier =
     (let info = (case get_format_info of None \<Rightarrow> None | Some g \<Rightarrow> g pixel_format modifier)
      in case info of None \<Rightarrow> drm_format_info_of others pixel_format | Some i \<Rightarrow> Some i)"

section \<open>Legacy color modes\<close>

definition drm_mode_legacy_fb_format :: "u32 \<Rightarrow> u32 \<Rightarrow> drm_format option" where
  "drm_mode_legacy_fb_format bpp depth =
     (if bpp = 1 then if depth = 1 then Some DRM_FORMAT_C1 else None
      else if bpp = 2 then if depth = 2 then Some DRM_FORMAT_C2 else None
      else if bpp = 4 then if depth = 4 then Some DRM_FORMAT_C4 else None
      else if bpp = 8 then if depth = 8 then Some DRM_FORMAT_C8 else None
      else if bpp = 16 then
        if depth = 15 then Some DRM_FORMAT_XRGB1555
        else if depth = 16 then Some DRM_FORMAT_RGB565 else None
      else if bpp = 24 then if depth = 24 then Some DRM_FORMAT_RGB888 else None
      else if bpp = 32 then
        if depth = 24 then Some DRM_FORMAT_XRGB8888
        else if depth = 30 then Some DRM_FORMAT_XRGB2101010
        else if depth = 32 then Some DRM_FORMAT_ARGB8888 else None
      else None)"

text \<open>
  The fields of \<open>drm_mode_config\<close> the driver variant reads; \<open>host_order\<close> stands for the header constants
  \<open>DRM_FORMAT_HOST_*\<close>, the variant of a format in the byte order of the machine.
\<close>

record fourcc_config =
  quirk_addfb_prefer_host_byte_order :: bool
  quirk_addfb_prefer_xbgr_30bpp :: bool
  host_order :: "drm_format \<Rightarrow> drm_format"

definition drm_driver_legacy_fb_format :: "fourcc_config \<Rightarrow> u32 \<Rightarrow> u32 \<Rightarrow> drm_format option" where
  "drm_driver_legacy_fb_format cfg bpp depth =
     (let fmt = drm_mode_legacy_fb_format bpp depth;
          to_host = (\<lambda>f fmt. if fmt = Some f then Some (host_order cfg f) else fmt);
          fmt = (if quirk_addfb_prefer_host_byte_order cfg
                 then let fmt = to_host DRM_FORMAT_XRGB8888 fmt;
                          fmt = to_host DRM_FORMAT_ARGB8888 fmt;
                          fmt = to_host DRM_FORMAT_RGB565 fmt
                      in to_host DRM_FORMAT_XRGB1555 fmt
                 else fmt)
      in if quirk_addfb_prefer_xbgr_30bpp cfg \<and> fmt = Some DRM_FORMAT_XRGB2101010
         then Some DRM_FORMAT_XBGR2101010 else fmt)"

definition drm_driver_color_mode_format :: "fourcc_config \<Rightarrow> u32 \<Rightarrow> drm_format option" where
  "drm_driver_color_mode_format cfg color_mode =
     (if color_mode = 15 then drm_driver_legacy_fb_format cfg 16 15
      else if color_mode = 32 then drm_driver_legacy_fb_format cfg 32 24
      else drm_driver_legacy_fb_format cfg color_mode color_mode)"

section \<open>The table is well formed\<close>

lemma format_find_append:
  "format_find f (xs @ ys) = (case format_find f xs of None \<Rightarrow> format_find f ys | Some i \<Rightarrow> Some i)"
  by (induction xs) auto

lemma format_find_format: "format_find f is = Some i \<Longrightarrow> fi_format i = f \<and> i \<in> set is"
  by (induction "is") (auto split: if_splits)

lemmas format_tables = formats_indexed_def formats_16bpp_def formats_24bpp_def formats_30bpp_def
  formats_32bpp_def formats_YVU420_def formats_NV12_def formats_NV16_def formats_YUYV_def
  formats_UYVY_def formats_P010_def

text \<open>An entry with an array element per plane, at least one byte in each block of a plane in use.\<close>

definition format_info_ok :: "drm_format_info \<Rightarrow> bool" where
  "format_info_ok i \<longleftrightarrow> 0 < num_planes i \<and> num_planes i \<le> 3 \<and> length (char_per_block i) = 3 \<and>
     length (block_w i) = 3 \<and> length (block_h i) = 3 \<and> 0 < hsub i \<and> 0 < vsub i \<and>
     list_all (\<lambda>p. 0 < char_per_block i ! p) [0..<num_planes i]"

lemma formats_ok: "list_all format_info_ok drm_formats"
  by code_simp

lemma drm_formats_total: "(\<forall>n. f \<noteq> DRM_FORMAT_other n) \<Longrightarrow> format_find f drm_formats \<noteq> None"
  by (cases f) (simp_all add: drm_formats_def format_tables format_entry_def)



section \<open>Color modes have the bits they ask for\<close>

text \<open>With the formats in the machine's own byte order unchanged (a little-endian build).\<close>

lemma color_mode_cases:
  assumes "drm_driver_color_mode_format cfg bpp = Some f" "host_order cfg = id"
  shows "(bpp, f) \<in> {(1, DRM_FORMAT_C1), (2, DRM_FORMAT_C2), (4, DRM_FORMAT_C4), (8, DRM_FORMAT_C8),
     (15, DRM_FORMAT_XRGB1555), (16, DRM_FORMAT_RGB565), (24, DRM_FORMAT_RGB888),
     (32, DRM_FORMAT_XRGB8888)}"
  using assms unfolding drm_driver_color_mode_format_def drm_driver_legacy_fb_format_def
    drm_mode_legacy_fb_format_def Let_def
  by (auto split: if_splits)

end
