(* ===== verification/Drm_Dumb.thy ===== *)
theory Drm_Dumb
  imports Drm_Fourcc
begin

text \<open>
  Dumb buffers: \<open>drm/drm_dumb_buffers.c\<close> (sizes and the ioctls) and the allocation paths of
  \<open>drm/drm_gem_dma_helper.c\<close>. \<open>unsigned int\<close> and \<open>u32\<close> are 32-bit words, \<open>unsigned long\<close> and \<open>u64\<close> 64-bit
  words, so that every wrap-around of the code is in the model. The GEM core, the DMA allocator and the page
  size are arguments; the locale \<open>gem_laws\<close> says what the code relies on. An \<open>ERR_PTR\<close> is \<open>Inl\<close>.
\<close>

section \<open>Data\<close>

record drm_mode_create_dumb_args =
  cd_height :: u32
  cd_width :: u32
  cd_bpp :: u32
  cd_handle :: u32
  cd_pitch :: u32
  cd_size :: u64

record drm_mode_map_dumb_args =
  md_handle :: u32
  md_offset :: u64

type_synonym gem_id = nat

text \<open>
  The calls of the GEM core and the DMA layer: objects are identities, a result other than 0 is an error.
  \<open>gem_create_object\<close> is the driver's optional hook, \<open>map_noncoherent\<close> the flag it may set.
\<close>

record 'w gem_api =
  gem_create_object :: "(u64 \<Rightarrow> 'w \<Rightarrow> (int + gem_id) \<times> 'w) option"
  kzalloc_dma_obj :: "'w \<Rightarrow> gem_id option \<times> 'w"
  map_noncoherent :: "'w \<Rightarrow> gem_id \<Rightarrow> bool"
  map_writecombine :: "gem_id \<Rightarrow> 'w \<Rightarrow> 'w"
  drm_gem_private_object_init :: "gem_id \<Rightarrow> u64 \<Rightarrow> 'w \<Rightarrow> 'w"
  drm_gem_object_init :: "gem_id \<Rightarrow> u64 \<Rightarrow> 'w \<Rightarrow> int \<times> 'w"
  drm_gem_create_mmap_offset :: "gem_id \<Rightarrow> 'w \<Rightarrow> int \<times> 'w"
  drm_gem_object_release :: "gem_id \<Rightarrow> 'w \<Rightarrow> 'w"
  kfree_dma_obj :: "gem_id \<Rightarrow> 'w \<Rightarrow> 'w"
  dma_alloc :: "bool \<Rightarrow> gem_id \<Rightarrow> u64 \<Rightarrow> 'w \<Rightarrow> bool \<times> 'w"
  drm_gem_handle_create :: "gem_id \<Rightarrow> 'w \<Rightarrow> (int + u32) \<times> 'w"
  drm_gem_object_put :: "gem_id \<Rightarrow> 'w \<Rightarrow> 'w"
  drm_gem_handle_delete :: "u32 \<Rightarrow> 'w \<Rightarrow> int \<times> 'w"
  drm_gem_dumb_map_offset :: "u32 \<Rightarrow> 'w \<Rightarrow> (int + u64) \<times> 'w"

section \<open>Sizes\<close>

text \<open>\<open>roundup(x, y)\<close> and \<open>round_up(x, y)\<close> on \<open>unsigned long\<close>.\<close>

definition roundup64 :: "u64 \<Rightarrow> u64 \<Rightarrow> u64" where
  "roundup64 x y = ((x + (y - 1)) div y) * y"

definition round_up64 :: "u64 \<Rightarrow> u64 \<Rightarrow> u64" where
  "round_up64 x y = ((x - 1) OR (y - 1)) + 1"

definition DIV_ROUND_UP :: "u32 \<Rightarrow> u32 \<Rightarrow> u32" where
  "DIV_ROUND_UP n d = (n + d - 1) div d"

definition drm_mode_align_dumb ::
    "u64 \<Rightarrow> drm_mode_create_dumb_args \<Rightarrow> u64 \<Rightarrow> u64 \<Rightarrow> int \<times> drm_mode_create_dumb_args" where
  "drm_mode_align_dumb PAGE_SIZE args hw_pitch_align hw_size_align =
     (let pitch = cd_pitch args
      in if pitch = 0 then (- EINVAL, args)
         else
           let pitch = (if hw_pitch_align \<noteq> 0 then ucast (roundup64 (ucast pitch) hw_pitch_align) else pitch)
           in if hw_size_align \<noteq> 0 \<and> hw_size_align AND (PAGE_SIZE - 1) \<noteq> 0 then (- EINVAL, args)
              else
                let hw_size_align = (if hw_size_align = 0 then PAGE_SIZE else hw_size_align)
                in if uint (cd_height args) * uint pitch \<ge> 2 ^ 32 then (- EINVAL, args)
                   else
                     let s = ALIGN (cd_height args * pitch) (ucast hw_size_align)
                     in if s = 0 then (- EINVAL, args)
                        else (0, args\<lparr>cd_pitch := pitch, cd_size := ucast s\<rparr>))"

definition drm_mode_size_dumb ::
    "u64 \<Rightarrow> drm_format_info list \<Rightarrow> fourcc_config \<Rightarrow> drm_mode_create_dumb_args \<Rightarrow> u64 \<Rightarrow> u64 \<Rightarrow>
     int \<times> drm_mode_create_dumb_args" where
  "drm_mode_size_dumb PAGE_SIZE others cfg args hw_pitch_align hw_size_align =
     (let finish = (\<lambda>pitch :: u64. if pitch = 0 \<or> uint pitch > 2 ^ 32 - 1 then (- EINVAL, args)
            else drm_mode_align_dumb PAGE_SIZE (args\<lparr>cd_pitch := ucast pitch\<rparr>) hw_pitch_align hw_size_align)
      in case drm_driver_color_mode_format cfg (cd_bpp args) of
           Some fourcc \<Rightarrow>
             (case drm_format_info_of others fourcc of
                None \<Rightarrow> (- EINVAL, args)
              | Some info \<Rightarrow> finish (drm_format_info_min_pitch (Some info) 0 (cd_width args)))
         | None \<Rightarrow>
             if cd_bpp args \<noteq> 0 then finish (ucast (cd_width args * DIV_ROUND_UP (cd_bpp args) 8))
             else finish 0)"

section \<open>The ioctls\<close>

type_synonym 'w dumb_create_fn = "drm_mode_create_dumb_args \<Rightarrow> 'w \<Rightarrow> int \<times> drm_mode_create_dumb_args \<times> 'w"

definition drm_mode_create_dumb :: "u64 \<Rightarrow> 'w dumb_create_fn option \<Rightarrow> 'w dumb_create_fn" where
  "drm_mode_create_dumb PAGE_SIZE driver args w =
     (case driver of
        None \<Rightarrow> (- ENOSYS, args, w)
      | Some dumb_create \<Rightarrow>
        if cd_width args = 0 \<or> cd_height args = 0 \<or> cd_bpp args = 0 then (- EINVAL, args, w)
        else if uint (cd_bpp args) > 2 ^ 32 - 1 - 8 then (- EINVAL, args, w)
        else
          let cpp = DIV_ROUND_UP (cd_bpp args) 8
          in if uint cpp > (2 ^ 32 - 1) div uint (cd_width args) then (- EINVAL, args, w)
             else
               let stride = cpp * cd_width args
               in if uint (cd_height args) > (2 ^ 32 - 1) div uint stride then (- EINVAL, args, w)
                  else if ALIGN (cd_height args * stride) (ucast PAGE_SIZE) = 0 then (- EINVAL, args, w)
                  else dumb_create (args\<lparr>cd_handle := 0, cd_pitch := 0, cd_size := 0\<rparr>) w)"

definition drm_mode_create_dumb_ioctl :: "u64 \<Rightarrow> 'w dumb_create_fn option \<Rightarrow> 'w dumb_create_fn" where
  "drm_mode_create_dumb_ioctl PAGE_SIZE driver args w =
     (let (err, args, w) = drm_mode_create_dumb PAGE_SIZE driver args w
      in if err \<noteq> 0 then (err, args\<lparr>cd_handle := 0, cd_pitch := 0, cd_size := 0\<rparr>, w) else (err, args, w))"

text \<open>\<open>drv_map\<close> is the driver's \<open>dumb_map_offset\<close>, a failing call of which leaves the offset as it was.\<close>

definition drm_mode_mmap_dumb ::
    "'w gem_api \<Rightarrow> bool \<Rightarrow> (u32 \<Rightarrow> 'w \<Rightarrow> (int + u64) \<times> 'w) option \<Rightarrow> drm_mode_map_dumb_args \<Rightarrow> 'w \<Rightarrow>
     int \<times> drm_mode_map_dumb_args \<times> 'w" where
  "drm_mode_mmap_dumb g has_dumb_create drv_map args w =
     (if \<not> has_dumb_create then (- ENOSYS, args, w)
      else
        let (r, w) = (case drv_map of Some f \<Rightarrow> f (md_handle args) w
                                    | None \<Rightarrow> drm_gem_dumb_map_offset g (md_handle args) w)
        in case r of Inl err \<Rightarrow> (err, args, w) | Inr off \<Rightarrow> (0, args\<lparr>md_offset := off\<rparr>, w))"

definition drm_mode_mmap_dumb_ioctl ::
    "'w gem_api \<Rightarrow> bool \<Rightarrow> (u32 \<Rightarrow> 'w \<Rightarrow> (int + u64) \<times> 'w) option \<Rightarrow> drm_mode_map_dumb_args \<Rightarrow> 'w \<Rightarrow>
     int \<times> drm_mode_map_dumb_args \<times> 'w" where
  "drm_mode_mmap_dumb_ioctl g has_dumb_create drv_map args w =
     (let (err, args, w) = drm_mode_mmap_dumb g has_dumb_create drv_map args w
      in if err \<noteq> 0 then (err, args\<lparr>md_offset := 0\<rparr>, w) else (err, args, w))"

definition drm_mode_destroy_dumb :: "'w gem_api \<Rightarrow> bool \<Rightarrow> u32 \<Rightarrow> 'w \<Rightarrow> int \<times> 'w" where
  "drm_mode_destroy_dumb g has_dumb_create handle w =
     (if \<not> has_dumb_create then (- ENOSYS, w) else drm_gem_handle_delete g handle w)"

section \<open>Allocation\<close>

text \<open>\<open>__drm_gem_dma_create\<close>\<close>

definition drm_gem_dma_create_obj :: "'w gem_api \<Rightarrow> u64 \<Rightarrow> bool \<Rightarrow> 'w \<Rightarrow> (int + gem_id) \<times> 'w" where
  "drm_gem_dma_create_obj g sz private w =
     (let (r, w) = (case gem_create_object g of
            Some f \<Rightarrow> f sz w
          | None \<Rightarrow> (case kzalloc_dma_obj g w of
                      (None, w) \<Rightarrow> (Inl (- ENOMEM), w) | (Some obj, w) \<Rightarrow> (Inr obj, w)))
      in case r of
           Inl e \<Rightarrow> (Inl e, w)
         | Inr obj \<Rightarrow>
           let (ret, w) = (if private
                 then (0, map_writecombine g obj (drm_gem_private_object_init g obj sz w))
                 else drm_gem_object_init g obj sz w)
           in if ret \<noteq> 0 then (Inl ret, kfree_dma_obj g obj w)
              else
                let (ret, w) = drm_gem_create_mmap_offset g obj w
                in if ret \<noteq> 0 then (Inl ret, kfree_dma_obj g obj (drm_gem_object_release g obj w))
                   else (Inr obj, w))"

definition drm_gem_dma_create :: "'w gem_api \<Rightarrow> u64 \<Rightarrow> u64 \<Rightarrow> 'w \<Rightarrow> (int + gem_id) \<times> 'w" where
  "drm_gem_dma_create g PAGE_SIZE sz w =
     (let sz = round_up64 sz PAGE_SIZE;
          (r, w) = drm_gem_dma_create_obj g sz False w
      in case r of
           Inl e \<Rightarrow> (Inl e, w)
         | Inr obj \<Rightarrow>
           let (vaddr, w) = dma_alloc g (map_noncoherent g w obj) obj sz w
           in if \<not> vaddr then (Inl (- ENOMEM), drm_gem_object_put g obj w) else (Inr obj, w))"

definition drm_gem_dma_create_with_handle ::
    "'w gem_api \<Rightarrow> u64 \<Rightarrow> u64 \<Rightarrow> 'w \<Rightarrow> (int + gem_id \<times> u32) \<times> 'w" where
  "drm_gem_dma_create_with_handle g PAGE_SIZE sz w =
     (let (r, w) = drm_gem_dma_create g PAGE_SIZE sz w
      in case r of
           Inl e \<Rightarrow> (Inl e, w)
         | Inr obj \<Rightarrow>
           let (h, w) = drm_gem_handle_create g obj w;
               w = drm_gem_object_put g obj w
           in case h of Inl e \<Rightarrow> (Inl e, w) | Inr handle \<Rightarrow> (Inr (obj, handle), w))"

definition drm_gem_dma_dumb_create_internal :: "'w gem_api \<Rightarrow> u64 \<Rightarrow> 'w dumb_create_fn" where
  "drm_gem_dma_dumb_create_internal g PAGE_SIZE args w =
     (let min_pitch = DIV_ROUND_UP (cd_width args * cd_bpp args) 8;
          args = (if cd_pitch args < min_pitch then args\<lparr>cd_pitch := min_pitch\<rparr> else args);
          args = (if cd_size args < ucast (cd_pitch args * cd_height args)
                  then args\<lparr>cd_size := ucast (cd_pitch args * cd_height args)\<rparr> else args);
          (r, w) = drm_gem_dma_create_with_handle g PAGE_SIZE (cd_size args) w
      in case r of Inl e \<Rightarrow> (e, args, w) | Inr (obj, handle) \<Rightarrow> (0, args\<lparr>cd_handle := handle\<rparr>, w))"

definition drm_gem_dma_dumb_create ::
    "'w gem_api \<Rightarrow> u64 \<Rightarrow> drm_format_info list \<Rightarrow> fourcc_config \<Rightarrow> 'w dumb_create_fn" where
  "drm_gem_dma_dumb_create g PAGE_SIZE others cfg args w =
     (let (ret, args) = drm_mode_size_dumb PAGE_SIZE others cfg args 0 0
      in if ret \<noteq> 0 then (ret, args, w)
         else
           let (r, w) = drm_gem_dma_create_with_handle g PAGE_SIZE (cd_size args) w
           in case r of Inl e \<Rightarrow> (e, args, w) | Inr (obj, handle) \<Rightarrow> (0, args\<lparr>cd_handle := handle\<rparr>, w))"

section \<open>What the code relies on\<close>

text \<open>
  A fresh object has no reference; initialising it takes the first one and records its size; a handle takes
  one more; \<open>drm_gem_object_put\<close> drops one and keeps the object while another is left; freeing leaves
  none. A failing call changes no reference. Neither display driver sets \<open>gem_create_object\<close>.
\<close>

locale gem_laws =
  fixes g :: "'w gem_api" and refs :: "'w \<Rightarrow> gem_id \<Rightarrow> nat" and osize :: "'w \<Rightarrow> gem_id \<Rightarrow> u64"
    and handles :: "'w \<Rightarrow> u32 \<Rightarrow> gem_id option"
  assumes no_hook: "gem_create_object g = None"
    and alloc_refs: "kzalloc_dma_obj g w = (r, w') \<Longrightarrow> refs w' = refs w \<and> handles w' = handles w"
    and alloc_fresh: "kzalloc_dma_obj g w = (Some obj, w') \<Longrightarrow> refs w obj = 0"
    and init_ok: "drm_gem_object_init g obj s w = (0, w') \<Longrightarrow>
      refs w' = (refs w)(obj := 1) \<and> osize w' obj = s \<and> handles w' = handles w"
    and init_fail: "drm_gem_object_init g obj s w = (e, w') \<Longrightarrow> e \<noteq> 0 \<Longrightarrow>
      refs w' = refs w \<and> handles w' = handles w"
    and mmap_offset: "drm_gem_create_mmap_offset g obj w = (e, w') \<Longrightarrow>
      refs w' = refs w \<and> osize w' = osize w \<and> handles w' = handles w"
    and release: "refs (drm_gem_object_release g obj w) = refs w \<and>
      handles (drm_gem_object_release g obj w) = handles w"
    and kfree: "refs (kfree_dma_obj g obj w) = (refs w)(obj := 0) \<and>
      handles (kfree_dma_obj g obj w) = handles w"
    and dma: "dma_alloc g nc obj s w = (b, w') \<Longrightarrow>
      refs w' = refs w \<and> osize w' = osize w \<and> handles w' = handles w"
    and handle_ok: "drm_gem_handle_create g obj w = (Inr h, w') \<Longrightarrow>
      refs w' = (refs w)(obj := Suc (refs w obj)) \<and> osize w' = osize w \<and>
      handles w' = (handles w)(h \<mapsto> obj) \<and> h \<noteq> 0"
    and handle_fail: "drm_gem_handle_create g obj w = (Inl e, w') \<Longrightarrow>
      refs w' = refs w \<and> handles w' = handles w \<and> e \<noteq> 0"
    and put: "refs (drm_gem_object_put g obj w) = (refs w)(obj := refs w obj - 1) \<and>
      handles (drm_gem_object_put g obj w) = handles w"
    and put_size: "1 < refs w obj \<Longrightarrow> osize (drm_gem_object_put g obj w) = osize w"
begin

lemma create_obj_ok:
  assumes "drm_gem_dma_create_obj g s False w = (Inr obj, w')"
  shows "refs w obj = 0" "refs w' = (refs w)(obj := 1)" "osize w' obj = s" "handles w' = handles w"
proof -
  obtain w1 w2 where 1: "kzalloc_dma_obj g w = (Some obj, w1)"
    and 2: "drm_gem_object_init g obj s w1 = (0, w2)"
    and 3: "drm_gem_create_mmap_offset g obj w2 = (0, w')"
    using assms by (auto simp: drm_gem_dma_create_obj_def no_hook Let_def split: prod.splits option.splits if_splits)
  note a = alloc_refs [OF 1] alloc_fresh [OF 1] init_ok [OF 2] mmap_offset [OF 3]
  show "refs w obj = 0" "refs w' = (refs w)(obj := 1)" "osize w' obj = s" "handles w' = handles w"
    using a by simp_all
qed

lemma create_obj_fail:
  assumes "drm_gem_dma_create_obj g s False w = (Inl e, w')"
  shows "refs w' = refs w" "handles w' = handles w" "e \<noteq> 0"
proof -
  obtain r w1 where 1: "kzalloc_dma_obj g w = (r, w1)" by fastforce
  note a = alloc_refs [OF 1]
  show "refs w' = refs w" "handles w' = handles w" "e \<noteq> 0"
  proof (atomize (full), cases r)
    case None
    then show "refs w' = refs w \<and> handles w' = handles w \<and> e \<noteq> 0"
      using assms 1 a by (auto simp: drm_gem_dma_create_obj_def no_hook errno_defs)
  next
    case (Some obj)
    obtain ret w2 where 2: "drm_gem_object_init g obj s w1 = (ret, w2)" by fastforce
    obtain ret' w3 where 3: "drm_gem_create_mmap_offset g obj w2 = (ret', w3)" by fastforce
    have f: "refs w1 obj = 0" using alloc_fresh [of w obj w1] 1 Some a by simp
    show "refs w' = refs w \<and> handles w' = handles w \<and> e \<noteq> 0"
    proof (cases "ret = 0")
      case True
      have b: "refs w2 = (refs w1)(obj := 1) \<and> osize w2 obj = s \<and> handles w2 = handles w1"
        using init_ok 2 True by simp
      show ?thesis
        using assms 1 2 3 Some True a b f mmap_offset [OF 3] release [of obj w3]
          kfree [of obj "drm_gem_object_release g obj w3"]
        by (auto simp: drm_gem_dma_create_obj_def no_hook Let_def fun_eq_iff split: if_splits)
    next
      case False
      show ?thesis
        using assms 1 2 Some False a f init_fail [OF 2 False] kfree [of obj w2]
        by (auto simp: drm_gem_dma_create_obj_def no_hook Let_def fun_eq_iff split: if_splits)
    qed
  qed
qed

lemma dma_create_ok:
  assumes "drm_gem_dma_create g P s w = (Inr obj, w')"
  shows "refs w obj = 0" "refs w' = (refs w)(obj := 1)" "osize w' obj = round_up64 s P"
    "handles w' = handles w"
proof -
  obtain w1 b where 1: "drm_gem_dma_create_obj g (round_up64 s P) False w = (Inr obj, w1)"
    and 2: "dma_alloc g (map_noncoherent g w1 obj) obj (round_up64 s P) w1 = (b, w')"
    using assms by (auto simp: drm_gem_dma_create_def Let_def split: prod.splits sum.splits if_splits)
  note dma [OF 2] and create_obj_ok [OF 1]
  then show "refs w obj = 0" "refs w' = (refs w)(obj := 1)" "osize w' obj = round_up64 s P"
    "handles w' = handles w" by simp_all
qed

lemma dma_create_fail:
  assumes "drm_gem_dma_create g P s w = (Inl e, w')"
  shows "refs w' = refs w" "handles w' = handles w" "e \<noteq> 0"
proof -
  obtain r w1 where 1: "drm_gem_dma_create_obj g (round_up64 s P) False w = (r, w1)" by fastforce
  show "refs w' = refs w" "handles w' = handles w" "e \<noteq> 0"
  proof (atomize (full), cases r)
    case (Inl x)
    then show "refs w' = refs w \<and> handles w' = handles w \<and> e \<noteq> 0"
      using assms 1 create_obj_fail [of "round_up64 s P" w x w1] by (auto simp: drm_gem_dma_create_def)
  next
    case (Inr obj)
    obtain b w2 where 2: "dma_alloc g (map_noncoherent g w1 obj) obj (round_up64 s P) w1 = (b, w2)"
      by fastforce
    have a: "refs w obj = 0" "refs w1 = (refs w)(obj := 1)" "handles w1 = handles w"
      using create_obj_ok 1 Inr by blast+
    show "refs w' = refs w \<and> handles w' = handles w \<and> e \<noteq> 0"
      using assms 1 2 Inr a dma [OF 2] put [of obj w2]
      by (auto simp: drm_gem_dma_create_def fun_eq_iff errno_defs split: if_splits)
  qed
qed

text \<open>A handle is the only owner of a new buffer; a failure leaves no owner behind.\<close>

lemma with_handle_ok:
  assumes "drm_gem_dma_create_with_handle g P s w = (Inr (obj, h), w')"
  shows "refs w obj = 0" "refs w' = (refs w)(obj := 1)" "osize w' obj = round_up64 s P"
    "handles w' = (handles w)(h \<mapsto> obj)" "h \<noteq> 0"
proof -
  obtain w1 w2 where 1: "drm_gem_dma_create g P s w = (Inr obj, w1)"
    and 2: "drm_gem_handle_create g obj w1 = (Inr h, w2)" and 3: "w' = drm_gem_object_put g obj w2"
    using assms by (auto simp: drm_gem_dma_create_with_handle_def Let_def split: prod.splits sum.splits)
  note a = dma_create_ok [OF 1] and b = handle_ok [OF 2] and c = put [of obj w2] put_size [of w2 obj]
  show "refs w obj = 0" "refs w' = (refs w)(obj := 1)" "osize w' obj = round_up64 s P"
    "handles w' = (handles w)(h \<mapsto> obj)" "h \<noteq> 0"
    using a b c 3 by simp_all
qed

lemma with_handle_fail:
  assumes "drm_gem_dma_create_with_handle g P s w = (Inl e, w')"
  shows "refs w' = refs w" "handles w' = handles w" "e \<noteq> 0"
proof -
  obtain r w1 where 1: "drm_gem_dma_create g P s w = (r, w1)" by fastforce
  show "refs w' = refs w" "handles w' = handles w" "e \<noteq> 0"
  proof (atomize (full), cases r)
    case (Inl x)
    then show "refs w' = refs w \<and> handles w' = handles w \<and> e \<noteq> 0"
      using assms 1 dma_create_fail [of P s w x w1] by (auto simp: drm_gem_dma_create_with_handle_def)
  next
    case (Inr obj)
    obtain k w2 where 2: "drm_gem_handle_create g obj w1 = (k, w2)" by fastforce
    have a: "refs w obj = 0" "refs w1 = (refs w)(obj := 1)" "handles w1 = handles w"
      using dma_create_ok 1 Inr by blast+
    show "refs w' = refs w \<and> handles w' = handles w \<and> e \<noteq> 0"
      using assms 1 2 Inr a handle_fail [of obj w1 _ w2] put [of obj w2]
      by (auto simp: drm_gem_dma_create_with_handle_def Let_def fun_eq_iff split: sum.splits)
  qed
qed

end

section \<open>A GEM world\<close>

text \<open>Reference counts, sizes and a handle table; the sets of failing operations are part of the world.\<close>

record gem_world =
  gw_refs :: "gem_id \<Rightarrow> nat"
  gw_size :: "gem_id \<Rightarrow> u64"
  gw_handles :: "u32 \<Rightarrow> gem_id option"
  gw_next :: gem_id
  gw_limit :: u64
  gw_no_handles :: bool

definition count_gem :: "gem_world gem_api" where
  "count_gem = \<lparr>
     gem_create_object = None,
     kzalloc_dma_obj = (\<lambda>w. if gw_refs w (gw_next w) = 0 then (Some (gw_next w), w\<lparr>gw_next := Suc (gw_next w)\<rparr>)
                             else (None, w)),
     map_noncoherent = (\<lambda>w obj. False),
     map_writecombine = (\<lambda>obj w. w),
     drm_gem_private_object_init = (\<lambda>obj s w.
        w\<lparr>gw_refs := (gw_refs w)(obj := 1), gw_size := (gw_size w)(obj := s)\<rparr>),
     drm_gem_object_init = (\<lambda>obj s w.
        (0, w\<lparr>gw_refs := (gw_refs w)(obj := 1), gw_size := (gw_size w)(obj := s)\<rparr>)),
     drm_gem_create_mmap_offset = (\<lambda>obj w. (0, w)),
     drm_gem_object_release = (\<lambda>obj w. w),
     kfree_dma_obj = (\<lambda>obj w. w\<lparr>gw_refs := (gw_refs w)(obj := 0)\<rparr>),
     dma_alloc = (\<lambda>nc obj s w. (s \<le> gw_limit w, w)),
     drm_gem_handle_create = (\<lambda>obj w. if gw_no_handles w then (Inl (- ENOMEM), w)
        else (Inr (of_nat obj OR 1), w\<lparr>gw_refs := (gw_refs w)(obj := Suc (gw_refs w obj)),
                            gw_handles := (gw_handles w)(of_nat obj OR 1 \<mapsto> obj)\<rparr>)),
     drm_gem_object_put = (\<lambda>obj w. w\<lparr>gw_refs := (gw_refs w)(obj := gw_refs w obj - 1)\<rparr>),
     drm_gem_handle_delete = (\<lambda>h w. case gw_handles w h of None \<Rightarrow> (- EINVAL, w)
        | Some obj \<Rightarrow> (0, w\<lparr>gw_refs := (gw_refs w)(obj := gw_refs w obj - 1),
                          gw_handles := (gw_handles w)(h := None)\<rparr>)),
     drm_gem_dumb_map_offset = (\<lambda>h w. case gw_handles w h of None \<Rightarrow> (Inl (- EINVAL), w)
        | Some obj \<Rightarrow> (Inr (of_nat obj * 0x100000000), w))\<rparr>"

definition gem_world_0 :: gem_world where
  "gem_world_0 = \<lparr>gw_refs = (\<lambda>_. 0), gw_size = (\<lambda>_. 0), gw_handles = (\<lambda>_. None), gw_next = 1,
     gw_limit = 0x1000000, gw_no_handles = False\<rparr>"

lemma or_1_nonzero: "w OR 1 \<noteq> (0 :: u32)"
proof
  assume "w OR 1 = 0"
  then have "bit (w OR 1) 0 = bit (0 :: u32) 0" by simp
  then show False by (simp add: bit_or_iff)
qed

interpretation cg: gem_laws count_gem gw_refs gw_size gw_handles
  by unfold_locales (auto simp: count_gem_def or_1_nonzero errno_defs split: if_splits)

section \<open>Rounding\<close>

lemma and_not_mask: "uint (w AND NOT (mask k)) = (uint w div 2 ^ k) * 2 ^ k" for w :: u32
proof -
  have "w AND NOT (mask k) = push_bit k (drop_bit k w)"
    by (rule bit_word_eqI) (auto simp: bit_and_iff bit_not_iff bit_mask_iff bit_push_bit_iff bit_drop_bit_eq)
  moreover have "uint (push_bit k (drop_bit k w)) = uint w div 2 ^ k * 2 ^ k"
  proof -
    have le: "uint w div 2 ^ k * 2 ^ k \<le> uint w" by (simp add: minus_mod_eq_div_mult [symmetric])
    have "uint w < 2 ^ 32" using uint_lt2p [of w] by simp
    moreover have "0 \<le> uint w div 2 ^ k * 2 ^ k" by (intro mult_nonneg_nonneg) (simp_all add: pos_imp_zdiv_nonneg_iff)
    ultimately have "take_bit 32 (uint w div 2 ^ k * 2 ^ k) = uint w div 2 ^ k * 2 ^ k"
      using le by (intro take_bit_int_eq_self) linarith+
    moreover have "take_bit LENGTH(32) (uint w) = uint w" using uint_lt2p [of w] by (simp add: take_bit_int_eq_self)
    ultimately show ?thesis
      by (simp only: unsigned_push_bit_eq unsigned_drop_bit_eq) (simp add: push_bit_eq_mult drop_bit_eq_div)
  qed
  ultimately show ?thesis by simp
qed

text \<open>Aligning to a power of two gives the next multiple, or 0 where that does not fit.\<close>

lemma ALIGN_pow2:
  assumes k: "k < 32" and nz: "ALIGN x (2 ^ k) \<noteq> 0"
  shows "uint x \<le> uint (ALIGN x (2 ^ k))" "2 ^ k dvd uint (ALIGN x (2 ^ k))"
    "uint (ALIGN x (2 ^ k)) < uint x + 2 ^ k"
proof -
  let ?m = "mask k :: u32"
  have a: "ALIGN x (2 ^ k) = (x + ?m) AND NOT ?m" by (simp add: ALIGN_def mask_eq_exp_minus_1)
  have k32: "(2 :: int) ^ k \<le> 2 ^ 31" using k by (intro power_increasing) auto
  have "?m = word_of_int (2 ^ k - 1)" by (simp add: mask_eq_exp_minus_1)
  then have "uint ?m = (2 ^ k - 1) mod 2 ^ 32" by (simp only: uint_word_of_int) simp
  then have m: "uint ?m = 2 ^ k - 1" using k32 by simp
  have v: "uint (ALIGN x (2 ^ k)) = uint (x + ?m) div 2 ^ k * 2 ^ k" unfolding a and_not_mask by simp
  have x: "uint x < 2 ^ 32" using uint_lt2p [of x] by simp
  have s: "uint (x + ?m) = uint x + 2 ^ k - 1"
  proof (rule ccontr)
    assume n: "\<not> ?thesis"
    then have o: "2 ^ 32 \<le> uint x + 2 ^ k - 1"
      using m uint_add_lem [of x ?m] by (simp add: not_le)
    have "uint (x + ?m) = (uint x + (2 ^ k - 1)) mod 2 ^ 32" by (simp add: uint_word_ariths m)
    also have "\<dots> = uint x + 2 ^ k - 1 - 2 ^ 32"
      using o x k32 by (subst mod_pos_geq) (auto intro!: mod_pos_pos_trivial)
    finally have "uint (x + ?m) = uint x + 2 ^ k - 1 - 2 ^ 32" .
    then have "uint (x + ?m) < 2 ^ k" using x by linarith
    then have "uint (ALIGN x (2 ^ k)) = 0" unfolding v by (simp add: div_pos_pos_trivial)
    with nz show False by (simp add: uint_0_iff)
  qed
  have v': "uint (ALIGN x (2 ^ k)) = uint x + 2 ^ k - 1 - (uint x + 2 ^ k - 1) mod 2 ^ k"
    unfolding v s by (simp add: minus_mod_eq_div_mult)
  have "(uint x + 2 ^ k - 1) mod 2 ^ k < 2 ^ k" "0 \<le> (uint x + 2 ^ k - 1) mod 2 ^ k" by simp_all
  then show "uint x \<le> uint (ALIGN x (2 ^ k))" "uint (ALIGN x (2 ^ k)) < uint x + 2 ^ k"
    unfolding v' by linarith+
  show "2 ^ k dvd uint (ALIGN x (2 ^ k))" unfolding v by simp
qed

lemma roundup64_value:
  assumes x: "uint x < 2 ^ 32" and y: "0 < uint y" "uint y \<le> 2 ^ 32"
  shows "uint (roundup64 x y) = (uint x + uint y - 1) div uint y * uint y"
proof -
  have y1: "uint (y - 1) = uint y - 1" using y(1) uint_sub_lem [of 1 y] by simp
  have s: "uint (x + (y - 1)) = uint x + uint y - 1"
    using x y y1 uint_add_lem [of x "y - 1"] by simp
  have d: "uint ((x + (y - 1)) div y) = (uint x + uint y - 1) div uint y"
    by (simp add: uint_div_distrib s)
  have "(uint x + uint y - 1) div uint y * uint y \<le> uint x + uint y - 1"
    unfolding minus_mod_eq_div_mult [symmetric] using pos_mod_sign [OF y(1), of "uint x + uint y - 1"] by linarith
  then show ?thesis
    using x y d uint_mult_lem [of "(x + (y - 1)) div y" y] by (simp add: roundup64_def)
qed

text \<open>The pitch rounded up to a hardware alignment that divides \<open>2 ^ 32\<close>, cut to 32 bits.\<close>

lemma roundup_pitch:
  fixes p :: u32
  assumes y: "uint y dvd 2 ^ 32" and nz: "ucast (roundup64 (ucast p) y) \<noteq> (0 :: u32)"
  shows "uint p \<le> uint (ucast (roundup64 (ucast p) y) :: u32)"
    "uint y dvd uint (ucast (roundup64 (ucast p) y) :: u32)"
proof -
  have p: "uint (ucast p :: u64) = uint p" "uint p < 2 ^ 32"
    using uint_lt2p [of p] by (simp_all add: unsigned_ucast_eq take_bit_int_eq_self)
  have y0: "0 < uint y" using y by (metis dvd_0_left_iff linorder_neqE_linordered_idom not_less power_not_zero uint_ge_0 zero_neq_numeral)
  have yle: "uint y \<le> 2 ^ 32" using y by (rule zdvd_imp_le) simp
  obtain q where q: "2 ^ 32 = uint y * q" using y by blast
  let ?d = "(uint p + uint y - 1) div uint y"
  have v: "uint (roundup64 (ucast p) y) = ?d * uint y"
    using roundup64_value [of "ucast p" y] p y0 yle by simp
  have "?d \<le> q" using p(2) y0 q by (intro ceil_div_le) (auto simp: mult.commute)
  then have le: "?d * uint y \<le> 2 ^ 32" unfolding q using y0 by (simp add: mult.commute)
  have t: "uint (ucast (roundup64 (ucast p) y) :: u32) = (?d * uint y) mod 2 ^ 32"
    using v by (simp add: unsigned_ucast_eq take_bit_eq_mod)
  have ne: "?d * uint y \<noteq> 2 ^ 32"
  proof
    assume "?d * uint y = 2 ^ 32"
    then have "uint (ucast (roundup64 (ucast p) y) :: u32) = 0" unfolding t by simp
    with nz show False by (simp add: uint_0_iff)
  qed
  have "0 \<le> uint p + uint y - 1" using y0 uint_ge_0 [of p] by linarith
  then have "0 \<le> ?d" using y0 by (simp add: pos_imp_zdiv_nonneg_iff)
  then have t': "uint (ucast (roundup64 (ucast p) y) :: u32) = ?d * uint y"
    unfolding t using le ne y0 by (intro mod_pos_pos_trivial) auto
  have "uint p \<le> ?d * uint y"
    using minus_mod_eq_div_mult [of "uint p + uint y - 1" "uint y"] pos_mod_bound [OF y0, of "uint p + uint y - 1"]
    by linarith
  then show "uint p \<le> uint (ucast (roundup64 (ucast p) y) :: u32)" unfolding t' .
  show "uint y dvd uint (ucast (roundup64 (ucast p) y) :: u32)" unfolding t' by simp
qed

section \<open>Sizes of dumb buffers\<close>

text \<open>What both ways to compute sizes promise of the result.\<close>

definition dumb_ok :: "nat \<Rightarrow> u64 \<Rightarrow> drm_mode_create_dumb_args \<Rightarrow> drm_mode_create_dumb_args \<Rightarrow> bool" where
  "dumb_ok k a args args' \<longleftrightarrow>
     cd_width args' = cd_width args \<and> cd_height args' = cd_height args \<and> cd_bpp args' = cd_bpp args \<and>
     (a \<noteq> 0 \<longrightarrow> uint a dvd uint (cd_pitch args')) \<and> 2 ^ k dvd uint (cd_size args') \<and>
     0 < uint (cd_size args') \<and> uint (cd_size args') < 2 ^ 32 \<and>
     uint (cd_pitch args') * uint (cd_height args') \<le> uint (cd_size args')"

lemma uint_ucast_up: "uint (ucast (x :: u32) :: u64) = uint x"
  using uint_lt2p [of x] by (simp add: unsigned_ucast_eq take_bit_int_eq_self)

lemma page_ucast: "k < 32 \<Longrightarrow> ucast ((2 :: u64) ^ k) = (2 :: u32) ^ k"
  by (rule bit_word_eqI) (auto simp: bit_unsigned_iff bit_exp_iff)

lemma page_nonzero: "k < 32 \<Longrightarrow> (2 :: u64) ^ k \<noteq> 0"
  by (simp add: exp_eq_zero_iff)

lemma align_dumb_ok:
  assumes k: "k < 32" and a: "a = 0 \<or> uint a dvd 2 ^ 32"
    and r: "drm_mode_align_dumb (2 ^ k) args a 0 = (0, args')"
  shows "dumb_ok k a args args'" "uint (cd_pitch args) \<le> uint (cd_pitch args')" "0 < uint (cd_pitch args')"
proof -
  let ?p = "if a \<noteq> 0 then ucast (roundup64 (ucast (cd_pitch args)) a) else cd_pitch args"
  let ?s = "ALIGN (cd_height args * ?p) (2 ^ k)"
  have fit: "uint (cd_height args) * uint ?p < 2 ^ 32" and nz: "?s \<noteq> 0"
    and args': "args' = args\<lparr>cd_pitch := ?p, cd_size := ucast ?s\<rparr>"
    using r unfolding drm_mode_align_dumb_def Let_def
    by (auto simp: errno_defs page_ucast [OF k] split: if_splits)
  note al = ALIGN_pow2 [OF k nz]
  have m: "uint (cd_height args * ?p) = uint (cd_height args) * uint ?p"
    using fit uint_mult_lem [of "cd_height args" ?p] by simp
  have p0: "?p \<noteq> 0"
  proof
    assume z: "?p = 0"
    have "?s = 0" unfolding z using and_not_mask [of "mask k" k] k
      by (auto simp: ALIGN_def mask_eq_exp_minus_1 [symmetric])
    with nz show False ..
  qed
  have pp: "uint (cd_pitch args) \<le> uint ?p \<and> (a \<noteq> 0 \<longrightarrow> uint a dvd uint ?p)"
    using a p0 roundup_pitch [of a "cd_pitch args"] by (cases "a = 0") auto
  have s0: "0 < uint ?s" using nz by (metis linorder_neqE_linordered_idom not_less uint_0_iff uint_ge_0)
  have s32: "uint ?s < 2 ^ 32" using uint_lt2p [of ?s] by simp
  show "dumb_ok k a args args'" unfolding dumb_ok_def args'
    using pp al m s0 s32 by (simp add: uint_ucast_up mult.commute)
  show "uint (cd_pitch args) \<le> uint (cd_pitch args')" unfolding args' using pp by simp
  show "0 < uint (cd_pitch args')"
    unfolding args' using p0 by (simp add: word_gt_0 [symmetric] del: word_gt_0) (metis linorder_neqE_linordered_idom not_less uint_0_iff uint_ge_0)
qed

lemma color_mode_entry:
  assumes "drm_driver_color_mode_format cfg bpp = Some f" "host_order cfg = id"
    "drm_format_info_of others f = Some i"
    "d = drm_format_info_block_width (Some i) 0 * drm_format_info_block_height (Some i) 0"
  shows "0 < num_planes i" "0 < d" "d \<le> 8" "char_per_block i ! 0 \<le> 4"
    "uint bpp * int d \<le> 8 * int (char_per_block i ! 0)"
  using color_mode_cases [OF assms(1,2)] assms(3,4)
  by (auto simp: drm_format_info_of_def drm_formats_def format_tables format_entry_def
      drm_format_info_block_width_def drm_format_info_block_height_def)

lemma uint_of_nat_u64: "n < 2 ^ 64 \<Longrightarrow> uint (of_nat n :: u64) = int n"
proof -
  assume "n < 2 ^ 64"
  then have "take_bit 64 n = n" by (rule take_bit_nat_eq_self)
  then show ?thesis by (simp add: unsigned_of_nat)
qed

lemma min_pitch_color_mode:
  assumes "drm_driver_color_mode_format cfg bpp = Some f" "host_order cfg = id"
    "drm_format_info_of others f = Some i"
  shows "uint w * uint bpp \<le> 8 * uint (drm_format_info_min_pitch (Some i) 0 w)"
proof -
  define d where "d = drm_format_info_block_width (Some i) 0 * drm_format_info_block_height (Some i) 0"
  define c where "c = char_per_block i ! 0"
  note e = color_mode_entry [OF assms d_def, folded c_def]
  let ?q = "(unat w * c + d - 1) div d"
  have w: "unat w < 2 ^ 32" using unsigned_less [where 'a = nat, of w] by simp
  have "?q \<le> unat w * c + d - 1" by (rule div_le_dividend)
  also have "\<dots> \<le> 2 ^ 32 * 4 + 8"
    using mult_le_mono [of "unat w" "2 ^ 32" c 4] w e(3,4) by linarith
  finally have "?q < 2 ^ 64" by simp
  then have q: "uint (drm_format_info_min_pitch (Some i) 0 w) = int ?q"
    unfolding drm_format_info_min_pitch_def using e(1) by (simp add: d_def c_def Let_def uint_of_nat_u64)
  have "unat w * c \<le> ?q * d"
    using minus_mod_eq_div_mult [of "unat w * c + d - 1" d] e(2) mod_less_divisor [OF e(2), of "unat w * c + d - 1"]
    by linarith
  then have "int (unat w * c) \<le> int (?q * d)" by (simp only: of_nat_le_iff)
  then have le: "uint w * int c \<le> int ?q * int d" by simp
  have "(uint w * uint bpp) * int d \<le> uint w * (8 * int c)"
    using mult_left_mono [OF e(5), of "uint w"] by (simp add: mult.assoc)
  also have "\<dots> \<le> 8 * (int ?q * int d)" using le by linarith
  finally have "(uint w * uint bpp) * int d \<le> (8 * int ?q) * int d" by (simp only: mult.assoc)
  then show ?thesis unfolding q using e(2) by (simp only: mult_le_cancel_right_pos of_nat_0_less_iff)
qed

lemma min_pitch_guess:
  assumes "uint (DIV_ROUND_UP bpp 8) * uint w < 2 ^ 32" "uint bpp \<le> 2 ^ 32 - 1 - 8"
  shows "uint w * uint bpp \<le> 8 * uint (w * DIV_ROUND_UP bpp 8)"
proof -
  have u7: "uint (7 :: u32) = 7" by simp
  have "uint (bpp + 7) = uint bpp + 7"
    using assms(2) uint_add_lem [of bpp 7] unfolding u7 by simp
  then have "uint (bpp + 8 - 1) = uint bpp + 7" by (simp add: add_diff_eq [symmetric])
  then have d: "uint (DIV_ROUND_UP bpp 8) = (uint bpp + 7) div 8"
    by (simp add: DIV_ROUND_UP_def uint_div_distrib)
  have "uint bpp \<le> 8 * ((uint bpp + 7) div 8)" by linarith
  from mult_left_mono [OF this, of "uint w"] have "uint w * uint bpp \<le> 8 * (uint w * uint (DIV_ROUND_UP bpp 8))"
    unfolding d by (simp add: mult.left_commute)
  moreover have "uint (w * DIV_ROUND_UP bpp 8) = uint w * uint (DIV_ROUND_UP bpp 8)"
    using assms(1) uint_mult_lem [of w "DIV_ROUND_UP bpp 8"] by (simp add: mult.commute)
  ultimately show ?thesis by simp
qed

text \<open>The overflow checks the create ioctl makes before it calls the driver.\<close>

definition dumb_args_ok :: "drm_mode_create_dumb_args \<Rightarrow> bool" where
  "dumb_args_ok args \<longleftrightarrow> uint (cd_bpp args) \<le> 2 ^ 32 - 1 - 8 \<and>
     uint (DIV_ROUND_UP (cd_bpp args) 8) * uint (cd_width args) < 2 ^ 32"

lemma size_dumb_ok:
  assumes k: "k < 32" and a: "a = 0 \<or> uint a dvd 2 ^ 32" and args: "dumb_args_ok args"
    and host: "host_order cfg = id"
    and r: "drm_mode_size_dumb (2 ^ k) others cfg args a 0 = (0, args')"
  shows "dumb_ok k a args args'" "uint (cd_width args) * uint (cd_bpp args) \<le> 8 * uint (cd_pitch args')"
proof -
  have small: "uint (ucast p :: u32) = uint p" if "uint p \<le> 2 ^ 32 - 1" for p :: u64
    using that by (simp add: unsigned_ucast_eq take_bit_int_eq_self)
  obtain p :: u64 where p: "uint (cd_width args) * uint (cd_bpp args) \<le> 8 * uint p" "uint p \<le> 2 ^ 32 - 1"
    and al: "drm_mode_align_dumb (2 ^ k) (args\<lparr>cd_pitch := ucast p\<rparr>) a 0 = (0, args')"
  proof (cases "drm_driver_color_mode_format cfg (cd_bpp args)")
    case None
    let ?p = "ucast (cd_width args * DIV_ROUND_UP (cd_bpp args) 8) :: u64"
    show ?thesis
      using that [of ?p] r None min_pitch_guess [of "cd_bpp args" "cd_width args"] args
      by (auto simp: drm_mode_size_dumb_def Let_def dumb_args_ok_def uint_ucast_up errno_defs split: if_splits)
  next
    case (Some f)
    then show ?thesis
      using that r min_pitch_color_mode [OF Some host, of others _ "cd_width args"]
      by (auto simp: drm_mode_size_dumb_def Let_def errno_defs split: if_splits option.splits)
  qed
  note r = align_dumb_ok [OF k a al]
  show "dumb_ok k a args args'" using r(1) by (auto simp: dumb_ok_def)
  show "uint (cd_width args) * uint (cd_bpp args) \<le> 8 * uint (cd_pitch args')"
    using r(2) p small [OF p(2)] by simp
qed

lemma round_up64_ge:
  assumes "k < 32" "0 < uint s" "uint s < 2 ^ 32"
  shows "uint s \<le> uint (round_up64 s (2 ^ k))"
proof -
  let ?m = "(2 :: u64) ^ k - 1"
  have s1: "uint (s - 1) = uint s - 1" using assms(2) uint_sub_lem [of 1 s] by simp
  have "(2 :: int) ^ k \<le> 2 ^ 31" using assms(1) by (intro power_increasing) auto
  moreover have "?m = word_of_int (2 ^ k - 1)" by simp
  then have "uint ?m = (2 ^ k - 1) mod 2 ^ 64" by (simp only: uint_word_of_int) simp
  ultimately have m: "0 \<le> uint ?m" "uint ?m < 2 ^ 32" by simp_all
  have ge: "uint s - 1 \<le> uint ((s - 1) OR ?m)"
    unfolding uint_or s1 by (rule or_greater_eq) (rule m(1))
  have lt: "uint ((s - 1) OR ?m) < 2 ^ 32"
    unfolding uint_or s1 using assms(2,3) m by (intro OR_upper) auto
  have "uint (((s - 1) OR ?m) + 1) = uint ((s - 1) OR ?m) + 1"
    using lt uint_add_lem [of "(s - 1) OR ?m" 1] by simp
  then show ?thesis unfolding round_up64_def using ge by linarith
qed

text \<open>
  The contract of a driver's \<open>dumb_create\<close>: on success the sizes fit the request and a new object of at
  least that size is owned by the handle returned and by nothing else; on failure nothing is left behind.
\<close>

definition dumb_contract ::
    "nat \<Rightarrow> u64 \<Rightarrow> ('w \<Rightarrow> gem_id \<Rightarrow> nat) \<Rightarrow> ('w \<Rightarrow> gem_id \<Rightarrow> u64) \<Rightarrow> ('w \<Rightarrow> u32 \<Rightarrow> gem_id option) \<Rightarrow>
     drm_mode_create_dumb_args \<Rightarrow> 'w \<Rightarrow> int \<times> drm_mode_create_dumb_args \<times> 'w \<Rightarrow> bool" where
  "dumb_contract k a refs osize handles args w r = (case r of (e, args', w') \<Rightarrow>
     if e = 0
     then dumb_ok k a args args' \<and> uint (cd_width args) * uint (cd_bpp args) \<le> 8 * uint (cd_pitch args') \<and>
       cd_handle args' \<noteq> 0 \<and>
       (\<exists>obj. refs w obj = 0 \<and> refs w' = (refs w)(obj := 1) \<and>
          handles w' = (handles w)(cd_handle args' \<mapsto> obj) \<and> uint (cd_size args') \<le> uint (osize w' obj))
     else refs w' = refs w \<and> handles w' = handles w)"

locale dumb_driver =
  fixes create :: "'w dumb_create_fn" and k :: nat and a :: u64 and refs :: "'w \<Rightarrow> gem_id \<Rightarrow> nat"
    and osize :: "'w \<Rightarrow> gem_id \<Rightarrow> u64" and handles :: "'w \<Rightarrow> u32 \<Rightarrow> gem_id option"
  assumes page: "k < 32"
    and create: "dumb_args_ok args \<Longrightarrow> dumb_contract k a refs osize handles args w (create args w)"
begin

lemma checked_args:
  assumes "drm_mode_create_dumb P (Some create) args w = (e, args', w')"
  obtains (rejected) "e = - EINVAL" "args' = args" "w' = w"
  | (passed) "dumb_args_ok args"
      "create (args\<lparr>cd_handle := 0, cd_pitch := 0, cd_size := 0\<rparr>) w = (e, args', w')"
proof -
  have fit: "uint c * uint x < 2 ^ 32" if "uint c \<le> (2 ^ 32 - 1) div uint x" "x \<noteq> 0" for c x :: u32
  proof -
    have "uint c * uint x \<le> (2 ^ 32 - 1) div uint x * uint x"
      using that(1) by (intro mult_right_mono) auto
    also have "\<dots> \<le> 2 ^ 32 - 1"
      unfolding minus_mod_eq_div_mult [symmetric]
      using that(2) pos_mod_sign [of "uint x" "2 ^ 32 - 1"] by (simp add: word_neq_0_conv word_less_def)
    finally show ?thesis by simp
  qed
  have "e = - EINVAL \<and> args' = args \<and> w' = w \<or> cd_width args \<noteq> 0 \<and> uint (cd_bpp args) \<le> 2 ^ 32 - 1 - 8 \<and>
      uint (DIV_ROUND_UP (cd_bpp args) 8) \<le> (2 ^ 32 - 1) div uint (cd_width args) \<and>
      create (args\<lparr>cd_handle := 0, cd_pitch := 0, cd_size := 0\<rparr>) w = (e, args', w')"
    using assms unfolding drm_mode_create_dumb_def Let_def by (auto split: if_splits)
  then show thesis
    using rejected passed fit [of "DIV_ROUND_UP (cd_bpp args) 8" "cd_width args"]
    unfolding dumb_args_ok_def by blast
qed

lemma create_ioctl:
  assumes "drm_mode_create_dumb_ioctl P (Some create) args w = (e, args', w')"
  shows "dumb_contract k a refs osize handles args w (e, args', w')"
    "e \<noteq> 0 \<Longrightarrow> cd_handle args' = 0 \<and> cd_pitch args' = 0 \<and> cd_size args' = 0"
proof -
  let ?args = "args\<lparr>cd_handle := 0, cd_pitch := 0, cd_size := 0\<rparr>"
  obtain args1 where c: "drm_mode_create_dumb P (Some create) args w = (e, args1, w')"
    and args': "args' = (if e \<noteq> 0 then args1\<lparr>cd_handle := 0, cd_pitch := 0, cd_size := 0\<rparr> else args1)"
    using assms by (auto simp: drm_mode_create_dumb_ioctl_def split: prod.splits if_splits)
  show "e \<noteq> 0 \<Longrightarrow> cd_handle args' = 0 \<and> cd_pitch args' = 0 \<and> cd_size args' = 0" using args' by simp
  from c show "dumb_contract k a refs osize handles args w (e, args', w')"
  proof (cases rule: checked_args)
    case rejected
    then show ?thesis by (simp add: dumb_contract_def errno_defs)
  next
    case passed
    have "dumb_contract k a refs osize handles ?args w (e, args1, w')"
      using create [of ?args w] passed by (simp add: dumb_args_ok_def)
    then show ?thesis
      by (auto simp: dumb_contract_def dumb_ok_def args')
  qed
qed

end

context gem_laws
begin

text \<open>Allocating what the size computation asked for fulfils the contract.\<close>

lemma contract_with_handle:
  assumes k: "k < 32" and ok: "dumb_ok k a args args1"
    and bytes: "uint (cd_width args) * uint (cd_bpp args) \<le> 8 * uint (cd_pitch args1)"
    and r: "drm_gem_dma_create_with_handle g (2 ^ k) (cd_size args1) w = (r, w')"
  shows "dumb_contract k a refs osize handles args w
    (case r of Inl e \<Rightarrow> (e, args1, w') | Inr (obj, h) \<Rightarrow> (0, args1\<lparr>cd_handle := h\<rparr>, w'))"
proof (cases r)
  case (Inl e)
  then show ?thesis using with_handle_fail r by (auto simp: dumb_contract_def)
next
  case (Inr x)
  then obtain obj h where x: "r = Inr (obj, h)" by (cases x) auto
  note w = with_handle_ok [OF r [unfolded x]]
  have "uint (cd_size args1) \<le> uint (osize w' obj)"
    unfolding w(3) using ok k by (intro round_up64_ge) (auto simp: dumb_ok_def)
  then show ?thesis
    using w ok bytes unfolding x by (auto simp: dumb_contract_def dumb_ok_def)
qed

lemma dma_dumb_create_contract:
  assumes k: "k < 32" and host: "host_order cfg = id"
  shows "dumb_driver (drm_gem_dma_dumb_create g (2 ^ k) others cfg) k 0 refs osize handles"
proof
  show "k < 32" by (rule k)
  fix args w assume args: "dumb_args_ok args"
  obtain ret args1 where s: "drm_mode_size_dumb (2 ^ k) others cfg args 0 0 = (ret, args1)" by fastforce
  obtain r w' where h: "drm_gem_dma_create_with_handle g (2 ^ k) (cd_size args1) w = (r, w')" by fastforce
  show "dumb_contract k 0 refs osize handles args w (drm_gem_dma_dumb_create g (2 ^ k) others cfg args w)"
  proof (cases "ret = 0")
    case True
    note ok = size_dumb_ok [OF k disjI1 [OF refl] args host s [unfolded True]]
    show ?thesis
      using contract_with_handle [OF k ok h] s h True by (simp add: drm_gem_dma_dumb_create_def)
  next
    case False
    then show ?thesis using s by (simp add: drm_gem_dma_dumb_create_def dumb_contract_def)
  qed
qed

text \<open>The internal helper keeps sizes that are large enough already.\<close>

lemma dumb_create_internal_keeps:
  assumes k: "k < 32" and ok: "dumb_ok k a args args1"
    and bytes: "uint (cd_width args) * uint (cd_bpp args) \<le> 8 * uint (cd_pitch args1)"
    and r: "drm_gem_dma_create_with_handle g (2 ^ k) (cd_size args1) w = (r, w')"
  shows "drm_gem_dma_dumb_create_internal g (2 ^ k) args1 w =
    (case r of Inl e \<Rightarrow> (e, args1, w') | Inr (obj, h) \<Rightarrow> (0, args1\<lparr>cd_handle := h\<rparr>, w'))"
proof -
  have "uint (cd_width args1 * cd_bpp args1) \<le> uint (cd_width args) * uint (cd_bpp args)"
    using ok by (simp add: dumb_ok_def uint_word_ariths zmod_le_nonneg_dividend)
  with bytes have le: "uint (cd_width args1 * cd_bpp args1) \<le> 8 * uint (cd_pitch args1)" by simp
  have "uint (DIV_ROUND_UP n 8) \<le> (uint n + 7) div 8" for n
  proof -
    have "uint (n + 7) = (uint n + uint (7 :: u32)) mod 2 ^ LENGTH(32)" by (rule uint_word_ariths)
    then have "uint (n + 8 - 1) = (uint n + 7) mod 2 ^ 32" by (simp add: add_diff_eq [symmetric])
    also have "\<dots> \<le> uint n + 7" by (intro zmod_le_nonneg_dividend) simp
    finally show ?thesis by (simp add: DIV_ROUND_UP_def uint_div_distrib zdiv_mono1)
  qed
  from this [of "cd_width args1 * cd_bpp args1"] le
  have p: "\<not> cd_pitch args1 < DIV_ROUND_UP (cd_width args1 * cd_bpp args1) 8"
    unfolding word_less_def by linarith
  have "uint (cd_pitch args1 * cd_height args1) \<le> uint (cd_pitch args1) * uint (cd_height args1)"
    by (simp add: uint_word_ariths zmod_le_nonneg_dividend)
  then have s: "\<not> cd_size args1 < ucast (cd_pitch args1 * cd_height args1)"
    using ok unfolding word_less_def uint_ucast_up dumb_ok_def by linarith
  show ?thesis
    unfolding drm_gem_dma_dumb_create_internal_def Let_def using p s r by simp
qed

end

text \<open>A little-endian configuration without quirks, and the helper as a driver's callback.\<close>

definition fourcc_config_0 :: fourcc_config where
  "fourcc_config_0 = \<lparr>quirk_addfb_prefer_host_byte_order = False, quirk_addfb_prefer_xbgr_30bpp = False,
     host_order = id\<rparr>"

interpretation dma: dumb_driver "drm_gem_dma_dumb_create count_gem (2 ^ 12) others fourcc_config_0" 12 0
  gw_refs gw_size gw_handles for others
  by (rule cg.dma_dumb_create_contract) (simp_all add: fourcc_config_0_def)

end
