(* ===== verification/Vs_Drm.thy ===== *)
theory Vs_Drm
  imports Vs_Bridge Drm_Dumb
begin

text \<open>
  The DRM device of the Verisilicon driver (\<open>drm/verisilicon/vs_drm.c\<close>): dumb buffers, creation and removal
  of the device, dispatch of interrupts. What the driver changes outside its own structures is the record
  \<open>vs_sys\<close>: the reset lines, the interrupt, the driver data, connector polling, whether
  \<open>drm_mode_config_reset\<close> has given every object its initial state, and registration. The
  outcomes of calls into the device model and the DRM core are the fields of \<open>vs_env\<close>.
\<close>

section \<open>Data\<close>

record 'w vs_sys =
  hw :: 'w
  rst_asserted :: bool
  irq_requested :: bool
  drvdata :: "'w vs_dc option"
  mode_cfg :: mode_config
  poll_active :: bool
  states_reset :: bool
  registered :: bool
  client_ready :: bool
  crtcs_on :: bool

record vs_env =
  devm_drm_dev_alloc :: int
  drmm_mode_config_init :: int
  aperture_remove_all_conflicting_devices :: int
  env_drmm_kzalloc :: "nat \<Rightarrow> bool"
  env_plane_alloc :: "nat \<Rightarrow> drm_plane \<Rightarrow> int + drm_plane"
  env_crtc_init :: "nat \<Rightarrow> drm_plane \<Rightarrow> drm_plane \<Rightarrow> int"
  env_bridge :: "nat \<Rightarrow> bridge_env"
  drm_vblank_init :: int
  drm_dev_register :: int

section \<open>Operations\<close>

definition vs_gem_dumb_create ::
    "'w gem_api \<Rightarrow> u64 \<Rightarrow> drm_format_info list \<Rightarrow> fourcc_config \<Rightarrow> 'w dumb_create_fn" where
  "vs_gem_dumb_create g PAGE_SIZE others cfg args w =
     (let (ret, args) = drm_mode_size_dumb PAGE_SIZE others cfg args 128 0
      in if ret \<noteq> 0 then (ret, args, w) else drm_gem_dma_dumb_create_internal g PAGE_SIZE args w)"

definition vs_mode_config_init :: "mode_config \<Rightarrow> mode_config" where
  "vs_mode_config_init mc = mc\<lparr>min_width := 0, min_height := 0, max_width := 8192, max_height := 8192\<rparr>"

text \<open>The loop of \<open>vs_drm_initialize\<close> over the outputs; \<open>crtcs\<close> is the array it fills.\<close>

fun vs_init_outputs ::
    "vs_env \<Rightarrow> 'w vs_dc \<Rightarrow> nat list \<Rightarrow> vs_crtc option list \<Rightarrow> int \<times> vs_crtc option list" where
  "vs_init_outputs env dc [] cs = (0, cs)"
| "vs_init_outputs env dc (i # is) cs =
     (case vs_crtc_init (env_drmm_kzalloc env i) (env_plane_alloc env i) (env_crtc_init env i) dc i of
        Inl e \<Rightarrow> (e, cs)
      | Inr vcrtc \<Rightarrow>
          (case vs_bridge_init (env_bridge env i) vcrtc of
             Inl e \<Rightarrow> (e, cs)
           | Inr _ \<Rightarrow> vs_init_outputs env dc is (cs[i := Some vcrtc])))"

definition vs_drm_initialize :: "vs_env \<Rightarrow> 'w vs_dc \<Rightarrow> 'w vs_sys \<Rightarrow> int \<times> 'w vs_dc \<times> 'w vs_sys" where
  "vs_drm_initialize env dc s =
     (if devm_drm_dev_alloc env \<noteq> 0 then (devm_drm_dev_alloc env, dc, s)
      else
        let cs = replicate VSDC_MAX_OUTPUTS None;
            dc = dc\<lparr>drm_dev := Some \<lparr>crtcs = cs\<rparr>\<rparr>
        in if drmm_mode_config_init env \<noteq> 0 then (drmm_mode_config_init env, dc, s)
           else if aperture_remove_all_conflicting_devices env \<noteq> 0
           then (aperture_remove_all_conflicting_devices env, dc, s)
           else
             let (ret, cs) = vs_init_outputs env dc [0..<unat (display_count (identity dc))] cs;
                 dc = dc\<lparr>drm_dev := Some \<lparr>crtcs = cs\<rparr>\<rparr>
             in if ret \<noteq> 0 then (ret, dc, s)
                else if drm_vblank_init env \<noteq> 0 then (drm_vblank_init env, dc, s)
                else
                  let mc = vs_mode_config_init (mode_cfg s);
                      mc = mc\<lparr>cursor_width := word_of_int (max_cursor_size (identity dc)),
                              cursor_height := word_of_int (max_cursor_size (identity dc))\<rparr>;
                      s = s\<lparr>mode_cfg := mc, poll_active := True\<rparr>;
                      s = s\<lparr>states_reset := True\<rparr>
                  in if drm_dev_register env \<noteq> 0 then (drm_dev_register env, dc, s\<lparr>poll_active := False\<rparr>)
                     else (0, dc, s\<lparr>registered := True, client_ready := True\<rparr>))"

text \<open>\<open>drm_atomic_helper_shutdown\<close> turns all CRTCs off.\<close>

definition vs_drm_finalize :: "'w vs_dc \<Rightarrow> 'w vs_sys \<Rightarrow> 'w vs_dc \<times> 'w vs_sys" where
  "vs_drm_finalize dc s =
     (let s = s\<lparr>registered := False\<rparr>;
          s = s\<lparr>poll_active := False\<rparr>;
          s = s\<lparr>crtcs_on := False\<rparr>
      in (dc\<lparr>drm_dev := None\<rparr>, s))"

definition vs_drm_shutdown_handler :: "'w vs_sys \<Rightarrow> 'w vs_sys" where
  "vs_drm_shutdown_handler s = s\<lparr>crtcs_on := False\<rparr>"

text \<open>
  Dispatch of an interrupt: the outputs whose CRTC gets \<open>crtc_handle_vblank\<close>, in order, and the bits left
  over, which are only logged. \<open>None\<close> is the access through a null \<open>drm_dev\<close>.
\<close>

definition vs_handle_output ::
    "'w vs_dc \<Rightarrow> nat \<Rightarrow> (nat list \<times> u32) option \<Rightarrow> (nat list \<times> u32) option" where
  "vs_handle_output dc i acc = (case acc of
     None \<Rightarrow> None
   | Some (done, irqs) \<Rightarrow>
       if irqs AND VSDC_IRQ_VSYNC i \<noteq> 0
       then (case drm_dev dc of
               None \<Rightarrow> None
             | Some vdrm \<Rightarrow> Some (case crtcs vdrm ! i of None \<Rightarrow> done | Some vcrtc \<Rightarrow> done @ [vcrtc_id vcrtc],
                                 irqs AND NOT (VSDC_IRQ_VSYNC i)))
       else Some (done, irqs))"

definition vs_drm_handle_irq :: "'w vs_dc \<Rightarrow> u32 \<Rightarrow> (nat list \<times> u32) option" where
  "vs_drm_handle_irq dc irqs =
     fold (vs_handle_output dc) [0..<unat (display_count (identity dc))] (Some ([], irqs))"

section \<open>Dumb buffers\<close>

context gem_laws
begin

lemma vs_dumb_create_contract:
  assumes k: "k < 32" and host: "host_order cfg = id"
  shows "dumb_driver (vs_gem_dumb_create g (2 ^ k) others cfg) k 128 refs osize handles"
proof
  show "k < 32" by (rule k)
  fix args w assume args: "dumb_args_ok args"
  obtain ret args1 where s: "drm_mode_size_dumb (2 ^ k) others cfg args 128 0 = (ret, args1)" by fastforce
  obtain r w' where h: "drm_gem_dma_create_with_handle g (2 ^ k) (cd_size args1) w = (r, w')" by fastforce
  show "dumb_contract k 128 refs osize handles args w (vs_gem_dumb_create g (2 ^ k) others cfg args w)"
  proof (cases "ret = 0")
    case True
    have "uint (128 :: u64) dvd 2 ^ 32" by simp
    note ok = size_dumb_ok [OF k disjI2 [OF this] args host s [unfolded True]]
    show ?thesis
      using contract_with_handle [OF k ok h] dumb_create_internal_keeps [OF k ok h] s True
      by (simp add: vs_gem_dumb_create_def)
  next
    case False
    then show ?thesis using s by (simp add: vs_gem_dumb_create_def dumb_contract_def)
  qed
qed

end

interpretation vsd: dumb_driver "vs_gem_dumb_create count_gem (2 ^ 12) others fourcc_config_0" 12 128
  gw_refs gw_size gw_handles for others
  by (rule cg.vs_dumb_create_contract) (simp_all add: fourcc_config_0_def)

text \<open>C3: A dumb buffer created through the ioctl of the Verisilicon driver: when it succeeds, the pitch is a
  multiple of the 128 bytes the hardware wants and holds a line of pixels, the size is a multiple of the page
  size and holds all lines, and the handle names a new object of at least that size which nothing else owns;
  when it fails, no object, reference or handle is left and the output parameters are zero. No computation
  wraps around, whatever the caller passes.\<close>

theorem vs_dumb_create_ioctl_fits:
  assumes "gem_laws g refs osize handles" "k < 32" "host_order cfg = id"
    and "drm_mode_create_dumb_ioctl (2 ^ k) (Some (vs_gem_dumb_create g (2 ^ k) others cfg)) args w =
      (e, args', w')"
  shows "if e = 0
    then 128 dvd uint (cd_pitch args') \<and> 2 ^ k dvd uint (cd_size args') \<and>
      uint (cd_width args) * uint (cd_bpp args) \<le> 8 * uint (cd_pitch args') \<and>
      uint (cd_pitch args') * uint (cd_height args) \<le> uint (cd_size args') \<and>
      (\<exists>obj. refs w obj = 0 \<and> refs w' = (refs w)(obj := 1) \<and>
        handles w' = (handles w)(cd_handle args' \<mapsto> obj) \<and> uint (cd_size args') \<le> uint (osize w' obj))
    else refs w' = refs w \<and> handles w' = handles w \<and> cd_handle args' = 0 \<and> cd_pitch args' = 0 \<and>
      cd_size args' = 0"
proof -
  have d: "dumb_driver (vs_gem_dumb_create g (2 ^ k) others cfg) k 128 refs osize handles"
    by (rule gem_laws.vs_dumb_create_contract [OF assms(1-3)])
  note r = dumb_driver.create_ioctl [OF d assms(4)]
  show ?thesis using r by (auto simp: dumb_contract_def dumb_ok_def)
qed

theorem vs_dumb_create_ioctl_fits_witness:
  "gem_laws count_gem gw_refs gw_size gw_handles \<and>
   (let args = \<lparr>cd_height = 30, cd_width = 40, cd_bpp = 32, cd_handle = 7, cd_pitch = 9, cd_size = 9\<rparr>
    in case drm_mode_create_dumb_ioctl (2 ^ 12)
         (Some (vs_gem_dumb_create count_gem (2 ^ 12) [] fourcc_config_0)) args gem_world_0 of
       (e, args', w') \<Rightarrow> e = 0 \<and> cd_pitch args' = 256 \<and> cd_size args' = 8192 \<and> cd_handle args' = 1 \<and>
         128 dvd uint (cd_pitch args') \<and>
         (\<exists>obj. gw_refs gem_world_0 obj = 0 \<and> gw_refs w' = (gw_refs gem_world_0)(obj := 1) \<and>
           gw_handles w' = (gw_handles gem_world_0)(cd_handle args' \<mapsto> obj) \<and>
           uint (cd_size args') \<le> uint (gw_size w' obj)))"
proof -
  let ?args = "\<lparr>cd_height = 30, cd_width = 40, cd_bpp = 32, cd_handle = 7, cd_pitch = 9, cd_size = 9\<rparr>"
  let ?r = "drm_mode_create_dumb_ioctl (2 ^ 12)
         (Some (vs_gem_dumb_create count_gem (2 ^ 12) [] fourcc_config_0)) ?args gem_world_0"
  have v: "fst ?r = 0 \<and> cd_pitch (fst (snd ?r)) = 256 \<and> cd_size (fst (snd ?r)) = 8192 \<and>
      cd_handle (fst (snd ?r)) = 1"
    by code_simp
  obtain e args' w' where r: "?r = (e, args', w')" by (cases ?r) auto
  have "host_order fourcc_config_0 = id" by (simp add: fourcc_config_0_def)
  note t = vs_dumb_create_ioctl_fits [OF cg.gem_laws_axioms _ this r]
  show ?thesis unfolding Let_def r using v [unfolded r] t cg.gem_laws_axioms by simp
qed

section \<open>Interrupts\<close>

text \<open>The outputs handled are those pending, below the number of displays, with a CRTC.\<close>

definition vsync_outputs :: "vs_drm_dev \<Rightarrow> u32 \<Rightarrow> nat \<Rightarrow> nat list" where
  "vsync_outputs vdrm irqs n =
     map (\<lambda>i. vcrtc_id (the (crtcs vdrm ! i))) (filter (\<lambda>i. bit irqs i \<and> crtcs vdrm ! i \<noteq> None) [0..<n])"

lemma handle_irq_fold:
  assumes "drm_dev dc = Some vdrm" "n \<le> 32"
  shows "fold (vs_handle_output dc) [0..<n] (Some ([], irqs)) =
    Some (vsync_outputs vdrm irqs n, irqs AND NOT (mask n))"
  using assms(2)
proof (induction n)
  case (Suc n)
  have m: "irqs AND NOT (mask n) AND NOT (BIT n) = irqs AND NOT (mask (Suc n))"
    using Suc.prems by (intro bit_word_eqI) (auto simp: regfield less_Suc_eq)
  have b: "(irqs AND NOT (mask n)) AND BIT n \<noteq> 0 \<longleftrightarrow> bit irqs n"
    using Suc.prems unfolding and_BIT_iff by (auto simp: regfield)
  have nb: "irqs AND NOT (mask (Suc n)) = irqs AND NOT (mask n)" if "\<not> bit irqs n"
    using that by (intro bit_word_eqI) (auto simp: regfield less_Suc_eq)
  show ?case
    using Suc m b nb assms(1)
    by (simp add: vs_handle_output_def vsync_outputs_def VSDC_IRQ_VSYNC_def and.assoc split: option.split)
qed (simp add: vsync_outputs_def)

end
