(* ===== verification/Vs_Probe.thy ===== *)
theory Vs_Probe
  imports Vs_Drm
begin

text \<open>
  The platform driver (\<open>drm/verisilicon/vs_dc.c\<close>): probe, remove, shutdown and the interrupt handler. Every
  call of the probe into the device model is a field of \<open>vs_probe_env\<close>: its result, an errno other than 0 (or
  \<open>Inl\<close>) being the error. Device-managed resources (clocks, mappings, the interrupt) are released by the
  device model when a probe fails, so that only the reset lines need unwinding.
\<close>

section \<open>Operations\<close>

record 'w vs_probe_env = vs_env +
  of_node :: bool
  of_graph_get_port_count :: nat
  dma_set_mask_and_coherent :: int
  devm_kzalloc :: bool
  devm_reset_control_bulk_get :: int
  devm_clk_get_enabled :: "string \<Rightarrow> int + clk"
  platform_get_irq :: int
  reset_control_bulk_deassert :: int
  devm_ioremap :: int
  devm_regmap_init_mmio :: "int + 'w regmap_api"
  devm_clk_get_pix :: "nat \<Rightarrow> int + clk"
  devm_request_irq :: int

definition vs_dc_irq_handler :: "'w vs_dc \<Rightarrow> 'w \<Rightarrow> ((nat list \<times> u32) \<times> 'w) option" where
  "vs_dc_irq_handler dc w =
     (let (irqs, w) = irq_ack (funcs dc) (dc_regs dc) w
      in case vs_drm_handle_irq dc irqs of None \<Rightarrow> None | Some r \<Rightarrow> Some (r, w))"

text \<open>The loop that looks up the pixel clocks.\<close>

fun vs_get_pix_clks :: "(nat \<Rightarrow> int + clk) \<Rightarrow> nat list \<Rightarrow> clk list \<Rightarrow> int + clk list" where
  "vs_get_pix_clks get [] cs = Inr cs"
| "vs_get_pix_clks get (i # is) cs =
     (case get i of Inl e \<Rightarrow> Inl e | Inr c \<Rightarrow> vs_get_pix_clks get is (cs[i := c]))"

text \<open>The part of the probe after the reset lines are released, up to the label that asserts them again.\<close>

text \<open>Driver data is the pointer to the controller, so that what the initialisation stores in it is seen there.\<close>

definition vs_dc_probe_hw ::
    "'w vs_probe_env \<Rightarrow> clk \<times> clk \<times> clk \<Rightarrow> vs_chip_identity \<Rightarrow> 'w vs_sys \<Rightarrow> int \<times> 'w vs_dc option \<times> 'w vs_sys" where
  "vs_dc_probe_hw env clks ident0 s =
     (if devm_ioremap env \<noteq> 0 then (devm_ioremap env, None, s)
      else case devm_regmap_init_mmio env of
        Inl e \<Rightarrow> (e, None, s)
      | Inr rm \<Rightarrow>
        let (ret, ident, w) = vs_fill_chip_identity rm ident0 (hw s);
            s = s\<lparr>hw := w\<rparr>
        in if ret \<noteq> 0 then (ret, None, s)
           else
             let fs = (if generation ident = VSDC_GEN_DC8200 then vs_dc8200_funcs else vs_dc8000_funcs)
             in if of_graph_get_port_count env > unat (display_count ident) then (- EINVAL, None, s)
                else case vs_get_pix_clks (devm_clk_get_pix env) [0..<unat (display_count ident)]
                            (replicate VSDC_MAX_OUTPUTS 0) of
                  Inl e \<Rightarrow> (e, None, s)
                | Inr pix \<Rightarrow>
                  if devm_request_irq env \<noteq> 0 then (devm_request_irq env, None, s)
                  else
                    let dc = \<lparr>dc_regs = rm, core_clk = fst clks, axi_clk = fst (snd clks),
                              ahb_clk = snd (snd clks), pix_clk = pix, drm_dev = None, identity = ident,
                              funcs = fs\<rparr>;
                        s = s\<lparr>irq_requested := True\<rparr>;
                        s = s\<lparr>drvdata := Some dc\<rparr>;
                        (ret, dc, s) = vs_drm_initialize (vs_env.truncate env) dc s
                    in (ret, Some dc, s\<lparr>drvdata := Some dc\<rparr>))"

definition vs_dc_probe :: "'w vs_probe_env \<Rightarrow> vs_chip_identity \<Rightarrow> 'w vs_sys \<Rightarrow> int \<times> 'w vs_dc option \<times> 'w vs_sys" where
  "vs_dc_probe env ident0 s =
     (if \<not> of_node env then (- ENODEV, None, s)
      else if of_graph_get_port_count env = 0 then (- ENODEV, None, s)
      else if of_graph_get_port_count env > VSDC_MAX_OUTPUTS then (- EINVAL, None, s)
      else if dma_set_mask_and_coherent env \<noteq> 0 then (dma_set_mask_and_coherent env, None, s)
      else if \<not> devm_kzalloc env then (- ENOMEM, None, s)
      else if devm_reset_control_bulk_get env \<noteq> 0 then (devm_reset_control_bulk_get env, None, s)
      else case devm_clk_get_enabled env ''core'' of Inl e \<Rightarrow> (e, None, s) | Inr core \<Rightarrow>
           (case devm_clk_get_enabled env ''axi'' of Inl e \<Rightarrow> (e, None, s) | Inr axi \<Rightarrow>
           (case devm_clk_get_enabled env ''ahb'' of Inl e \<Rightarrow> (e, None, s) | Inr ahb \<Rightarrow>
              if platform_get_irq env < 0 then (platform_get_irq env, None, s)
              else if reset_control_bulk_deassert env \<noteq> 0 then (reset_control_bulk_deassert env, None, s)
              else
                let (ret, dc, s) = vs_dc_probe_hw env (core, axi, ahb) ident0 (s\<lparr>rst_asserted := False\<rparr>)
                in if ret \<noteq> 0 then (ret, dc, s\<lparr>rst_asserted := True\<rparr>) else (0, dc, s))))"

definition vs_dc_remove :: "'w vs_sys \<Rightarrow> 'w vs_sys option" where
  "vs_dc_remove s = (case drvdata s of
     None \<Rightarrow> None
   | Some dc \<Rightarrow>
       let (dc, s) = vs_drm_finalize dc s;
           s = s\<lparr>drvdata := None\<rparr>
       in Some (s\<lparr>rst_asserted := True\<rparr>))"

definition vs_dc_shutdown :: "'w vs_sys \<Rightarrow> 'w vs_sys option" where
  "vs_dc_shutdown s = (case drvdata s of None \<Rightarrow> None | Some dc \<Rightarrow> Some (vs_drm_shutdown_handler s))"

section \<open>Lemmas\<close>

text \<open>An error pointer never encodes 0: \<open>IS_ERR\<close> holds for -4095 to -1 only.\<close>

definition env_errs :: "'w vs_probe_env \<Rightarrow> bool" where
  "env_errs env \<longleftrightarrow> (\<forall>i p. env_plane_alloc env i p \<noteq> Inl 0) \<and>
     (\<forall>i j e. devm_drm_of_get_bridge (env_bridge env i) j e \<noteq> Inl 0) \<and>
     (\<forall>n. devm_clk_get_enabled env n \<noteq> Inl 0) \<and> (\<forall>i. devm_clk_get_pix env i \<noteq> Inl 0) \<and>
     devm_regmap_init_mmio env \<noteq> Inl 0"

lemma crtc_init_id: "vs_crtc_init kz pa ci dc i = Inr c \<Longrightarrow> vcrtc_id c = i"
  by (auto simp: vs_crtc_init_def Let_def split: if_splits sum.splits)

lemma crtc_init_err: "(\<And>p. pa p \<noteq> Inl 0) \<Longrightarrow> vs_crtc_init kz pa ci dc i \<noteq> Inl 0"
  by (auto simp: vs_crtc_init_def vs_primary_plane_init_def vs_cursor_plane_init_def Let_def errno_defs
      split: if_splits sum.splits)

lemma bridge_init_err: "(\<And>j e. devm_drm_of_get_bridge env j e \<noteq> Inl 0) \<Longrightarrow> vs_bridge_init env c \<noteq> Inl 0"
  by (auto simp: vs_bridge_init_def Let_def split: if_splits sum.splits)

lemma init_outputs_filled:
  assumes "vs_init_outputs (vs_env.truncate env) dc is cs = (0, cs')" "env_errs env"
    "\<forall>i \<in> set is. i < length cs" "distinct is"
  shows "length cs' = length cs \<and> (\<forall>i \<in> set is. \<exists>c. cs' ! i = Some c \<and> vcrtc_id c = i) \<and>
    (\<forall>i. i \<notin> set is \<longrightarrow> cs' ! i = cs ! i)"
  using assms
proof (induction "is" arbitrary: cs)
  case (Cons i "is")
  have pa: "env_plane_alloc env i p \<noteq> Inl 0" for p using Cons.prems(2) by (simp add: env_errs_def)
  have br: "devm_drm_of_get_bridge (env_bridge env i) j e \<noteq> Inl 0" for j e
    using Cons.prems(2) by (simp add: env_errs_def)
  obtain c where c: "vs_crtc_init (env_drmm_kzalloc env i) (env_plane_alloc env i) (env_crtc_init env i) dc i = Inr c"
    and r: "vs_init_outputs (vs_env.truncate env) dc is (cs[i := Some c]) = (0, cs')"
    using Cons.prems(1) crtc_init_err [where pa = "env_plane_alloc env i", OF pa]
      bridge_init_err [where env = "env_bridge env i", OF br]
    by (auto simp: vs_env.truncate_def split: sum.splits)
  have h: "length cs' = length cs \<and> (\<forall>i \<in> set is. \<exists>c. cs' ! i = Some c \<and> vcrtc_id c = i) \<and>
      (\<forall>k. k \<notin> set is \<longrightarrow> cs' ! k = cs[i := Some c] ! k)"
    using Cons.IH [OF r] Cons.prems by simp
  show ?case
    using h Cons.prems(3,4) crtc_init_id [OF c] by (auto simp: nth_list_update)
qed simp

text \<open>A device whose CRTCs are all there.\<close>

definition dc_ready :: "'w vs_dc \<Rightarrow> bool" where
  "dc_ready dc \<longleftrightarrow> unat (display_count (identity dc)) \<le> VSDC_MAX_OUTPUTS \<and>
     (\<exists>vdrm. drm_dev dc = Some vdrm \<and> length (crtcs vdrm) = VSDC_MAX_OUTPUTS \<and>
       (\<forall>i < unat (display_count (identity dc)). crtcs vdrm ! i = Some \<lparr>vcrtc_id = i\<rparr>))"

lemma drm_initialize_ok:
  assumes "vs_drm_initialize (vs_env.truncate env) dc s = (0, dc', s')" "env_errs env"
    "unat (display_count (identity dc)) \<le> VSDC_MAX_OUTPUTS"
  shows "dc_ready dc' \<and> (\<exists>v. dc' = dc\<lparr>drm_dev := v\<rparr>) \<and> registered s' \<and> poll_active s' \<and> states_reset s' \<and>
    rst_asserted s' = rst_asserted s \<and> irq_requested s' = irq_requested s \<and> hw s' = hw s \<and>
    max_width (mode_cfg s') = 8192 \<and> max_height (mode_cfg s') = 8192"
proof -
  let ?dc = "dc\<lparr>drm_dev := Some \<lparr>crtcs = replicate VSDC_MAX_OUTPUTS None\<rparr>\<rparr>"
  let ?is = "[0..<unat (display_count (identity dc))]"
  obtain ret cs where r: "vs_init_outputs (vs_env.truncate env) ?dc ?is (replicate VSDC_MAX_OUTPUTS None) = (ret, cs)"
    by fastforce
  have 0: "ret = 0" and dc': "dc' = dc\<lparr>drm_dev := Some \<lparr>crtcs = cs\<rparr>\<rparr>" and
    s': "registered s'" "poll_active s'" "states_reset s'" "rst_asserted s' = rst_asserted s" "irq_requested s' = irq_requested s"
      "hw s' = hw s" "max_width (mode_cfg s') = 8192" "max_height (mode_cfg s') = 8192"
    using assms(1) r unfolding vs_drm_initialize_def
    by (auto simp: Let_def vs_mode_config_init_def split: if_splits)
  have "\<forall>i \<in> set ?is. i < length (replicate VSDC_MAX_OUTPUTS (None :: vs_crtc option))"
    using assms(3) by auto
  note f = init_outputs_filled [OF r [unfolded 0] assms(2) this distinct_upt]
  have "cs ! i = Some \<lparr>vcrtc_id = i\<rparr>" if "i < unat (display_count (identity dc))" for i
  proof -
    have "i \<in> set ?is" using that by simp
    with f obtain c where "cs ! i = Some c" "vcrtc_id c = i" by blast
    then show ?thesis by simp
  qed
  then have "dc_ready dc'" using f assms(3) by (simp add: dc_ready_def dc')
  then show ?thesis using dc' s' by blast
qed

lemma drm_initialize_fail:
  assumes "vs_drm_initialize env dc s = (ret, dc', s')" "ret \<noteq> 0" "\<not> registered s" "\<not> poll_active s"
  shows "\<not> registered s' \<and> \<not> poll_active s'"
  using assms unfolding vs_drm_initialize_def by (auto simp: Let_def split: if_splits prod.splits)

lemma fill_identity_ok:
  assumes "vs_fill_chip_identity rm ident0 w = (0, ident, w')"
  shows "unat (display_count ident) \<le> VSDC_MAX_OUTPUTS" "0 < unat (display_count ident)"
proof -
  obtain e m r c where e: "vs_find_identity m r c vs_chip_identities = Some e" and i: "ident = e\<lparr>customer_id := c\<rparr>"
    using assms by (auto simp: vs_fill_chip_identity_def errno_defs split: prod.splits option.splits)
  show "unat (display_count ident) \<le> VSDC_MAX_OUTPUTS" "0 < unat (display_count ident)"
    using find_identity_props(4) [OF e] by (auto simp: i VSDC_MAX_OUTPUTS_def)
qed

lemma get_pix_clks_err: "(\<And>i. get i \<noteq> Inl 0) \<Longrightarrow> vs_get_pix_clks get is cs \<noteq> Inl 0"
  by (induction "is" arbitrary: cs) (auto split: sum.splits)

lemma probe_hw_ok:
  assumes "vs_dc_probe_hw env clks ident0 s = (0, dc, s')" "env_errs env"
  obtains d where "dc = Some d" "drvdata s' = Some d" "dc_ready d" "rst_asserted s' = rst_asserted s"
    "registered s'" "poll_active s'" "states_reset s'" "irq_requested s'"
    "of_graph_get_port_count env \<le> unat (display_count (identity d))"
    "funcs d = (if generation (identity d) = VSDC_GEN_DC8200 then vs_dc8200_funcs else vs_dc8000_funcs)"
proof -
  obtain rm where rm: "devm_regmap_init_mmio env = Inr rm"
    using assms by (auto simp: vs_dc_probe_hw_def env_errs_def split: if_splits sum.splits)
  obtain ret ident w where f: "vs_fill_chip_identity rm ident0 (hw s) = (ret, ident, w)" by (cases "vs_fill_chip_identity rm ident0 (hw s)") auto
  have pixerr: "vs_get_pix_clks (devm_clk_get_pix env) is cs \<noteq> Inl 0" for "is" cs
    using assms(2) by (intro get_pix_clks_err) (simp add: env_errs_def)
  let ?fs = "if generation ident = VSDC_GEN_DC8200 then vs_dc8200_funcs else vs_dc8000_funcs"
  have ret: "ret = 0" and pc: "of_graph_get_port_count env \<le> unat (display_count ident)"
    using assms rm f by (auto simp: vs_dc_probe_hw_def Let_def env_errs_def errno_defs split: if_splits)
  note n = fill_identity_ok [OF f [unfolded ret]]
  obtain pix where pix: "vs_get_pix_clks (devm_clk_get_pix env) [0..<unat (display_count ident)]
      (replicate VSDC_MAX_OUTPUTS 0) = Inr pix"
    using assms rm f ret pc pixerr by (auto simp: vs_dc_probe_hw_def Let_def split: if_splits sum.splits)
  let ?dc = "\<lparr>dc_regs = rm, core_clk = fst clks, axi_clk = fst (snd clks), ahb_clk = snd (snd clks), pix_clk = pix,
      drm_dev = None, identity = ident, funcs = ?fs\<rparr>"
  let ?s = "s\<lparr>hw := w, irq_requested := True, drvdata := Some ?dc\<rparr>"
  obtain d s1 where i: "vs_drm_initialize (vs_env.truncate env) ?dc ?s = (0, d, s1)"
    and dc: "dc = Some d" and s': "s' = s1\<lparr>drvdata := Some d\<rparr>"
    using assms(1) rm f ret pc pix by (auto simp: vs_dc_probe_hw_def Let_def split: if_splits prod.splits)
  have "unat (display_count (identity ?dc)) \<le> VSDC_MAX_OUTPUTS" using n by simp
  from drm_initialize_ok [OF i assms(2) this]
  show thesis using that [of d] dc s' pc by auto
qed

lemma probe_hw_fail:
  assumes "vs_dc_probe_hw env clks ident0 s = (ret, dc, s')" "ret \<noteq> 0" "\<not> registered s" "\<not> poll_active s"
  shows "\<not> registered s' \<and> \<not> poll_active s'"
  using assms drm_initialize_fail
  by (fastforce simp: vs_dc_probe_hw_def Let_def split: if_splits prod.splits sum.splits)

section \<open>Properties\<close>

text \<open>C4: The life of the controller: a probe that succeeds leaves the reset lines released, the device
  registered and polled with the initial states in place, the hooks of the chip's generation in place, no more ports than displays, and one CRTC
  per display in the driver data; removing it asserts the resets, unregisters and stops polling. A probe that
  fails, at whatever step, leaves the resets asserted, nothing registered and no polling.\<close>

theorem vs_dc_probe_lifecycle:
  assumes "env_errs env" "rst_asserted s" "\<not> registered s" "\<not> poll_active s"
    and "vs_dc_probe env ident0 s = (ret, dc, s')"
  shows "if ret = 0
    then \<not> rst_asserted s' \<and> registered s' \<and> poll_active s' \<and> states_reset s' \<and> irq_requested s' \<and>
      (\<exists>d. dc = Some d \<and> drvdata s' = Some d \<and> dc_ready d \<and>
        of_graph_get_port_count env \<le> unat (display_count (identity d)) \<and>
        funcs d = (if generation (identity d) = VSDC_GEN_DC8200 then vs_dc8200_funcs else vs_dc8000_funcs)) \<and>
      (\<exists>s''. vs_dc_remove s' = Some s'' \<and> rst_asserted s'' \<and> \<not> registered s'' \<and> \<not> poll_active s'' \<and>
        drvdata s'' = None)
    else rst_asserted s' \<and> \<not> registered s' \<and> \<not> poll_active s'"
proof -
  let ?s = "s\<lparr>rst_asserted := False\<rparr>"
  consider (early) "ret \<noteq> 0" "s' = s"
    | (late) clks r d s1 where "vs_dc_probe_hw env clks ident0 ?s = (r, d, s1)"
        "(ret, dc, s') = (if r \<noteq> 0 then (r, d, s1\<lparr>rst_asserted := True\<rparr>) else (0, d, s1))"
  proof -
    have clk: "devm_clk_get_enabled env n \<noteq> Inl 0" for n using assms(1) by (simp add: env_errs_def)
    show thesis
      using assms(5) early late clk [of "''core''"] clk [of "''axi''"] clk [of "''ahb''"] unfolding vs_dc_probe_def
      by (auto simp: errno_defs split: if_splits sum.splits prod.splits)
  qed
  then show ?thesis
  proof cases
    case early
    then show ?thesis using assms by simp
  next
    case late
    show ?thesis
    proof (cases "r = 0")
      case True
      from late(1) [unfolded True] assms(1) show ?thesis
        by (rule probe_hw_ok) (use late(2) True in \<open>auto simp: vs_dc_remove_def vs_drm_finalize_def\<close>)
    next
      case False
      then show ?thesis using probe_hw_fail [OF late(1) False] late(2) assms by auto
    qed
  qed
qed

text \<open>A machine with a DC8200, one connected port and a panel on it.\<close>

definition probe_env_0 :: "board vs_probe_env" where
  "probe_env_0 = \<lparr>devm_drm_dev_alloc = 0, drmm_mode_config_init = 0,
     aperture_remove_all_conflicting_devices = 0, env_drmm_kzalloc = (\<lambda>i. True),
     env_plane_alloc = (\<lambda>i p. Inr p), env_crtc_init = (\<lambda>i p c. 0),
     env_bridge = (\<lambda>i. \<lparr>of_graph_get_remote_node = (\<lambda>o' e. o' = 0), devm_drm_of_get_bridge = (\<lambda>o' e. Inr 7),
        devm_drm_bridge_alloc = 0, drmm_plain_encoder_alloc = (\<lambda>t. 0), devm_drm_bridge_add = 0,
        drm_bridge_attach = 0, drm_bridge_connector_init = 0\<rparr>),
     drm_vblank_init = 0, drm_dev_register = 0, of_node = True, of_graph_get_port_count = 1,
     dma_set_mask_and_coherent = 0, devm_kzalloc = True, devm_reset_control_bulk_get = 0,
     devm_clk_get_enabled = (\<lambda>n. Inr 5), platform_get_irq = 33, reset_control_bulk_deassert = 0,
     devm_ioremap = 0, devm_regmap_init_mmio = Inr board_regmap, devm_clk_get_pix = (\<lambda>i. Inr i),
     devm_request_irq = 0\<rparr>"

definition dc8200_board :: board where
  "dc8200_board = board_init\<lparr>bd_regs := (\<lambda>_. 0)(VSDC_TOP_CHIP_MODEL := 0x8200, VSDC_TOP_CHIP_REV := 0x5720,
     VSDC_TOP_CHIP_CUSTOMER_ID := 0x30B, VSDC_TOP_IRQ_ACK := 3)\<rparr>"

definition sys_0 :: "board vs_sys" where
  "sys_0 = \<lparr>hw = dc8200_board, rst_asserted = True, irq_requested = False, drvdata = None,
     mode_cfg = \<lparr>min_width = 0, min_height = 0, max_width = 0, max_height = 0, cursor_width = 0,
       cursor_height = 0, preferred_depth = 0\<rparr>, poll_active = False, states_reset = False, registered = False, client_ready = False, crtcs_on = False\<rparr>"

definition ident_0 :: vs_chip_identity where
  "ident_0 = vs_chip_identities ! 0"

theorem vs_dc_probe_lifecycle_witness:
  "env_errs probe_env_0 \<and> rst_asserted sys_0 \<and> \<not> registered sys_0 \<and> \<not> poll_active sys_0 \<and>
   (case vs_dc_probe probe_env_0 ident_0 sys_0 of (ret, dc, s') \<Rightarrow> ret = 0 \<and> \<not> rst_asserted s' \<and>
      (\<exists>d. dc = Some d \<and> dc_ready d) \<and> (\<exists>s''. vs_dc_remove s' = Some s'' \<and> rst_asserted s'')) \<and>
   (case vs_dc_probe (probe_env_0\<lparr>drm_dev_register := - ENOMEM\<rparr>) ident_0 sys_0 of (ret, dc, s') \<Rightarrow>
      ret = - ENOMEM \<and> rst_asserted s' \<and> \<not> poll_active s')"
proof -
  let ?f = "probe_env_0\<lparr>drm_dev_register := - ENOMEM\<rparr>"
  have e: "env_errs probe_env_0" "env_errs ?f" by (simp_all add: env_errs_def probe_env_0_def)
  have s: "rst_asserted sys_0" "\<not> registered sys_0" "\<not> poll_active sys_0" by (simp_all add: sys_0_def)
  obtain r1 d1 s1 where 1: "vs_dc_probe probe_env_0 ident_0 sys_0 = (r1, d1, s1)"
    by (cases "vs_dc_probe probe_env_0 ident_0 sys_0") auto
  obtain r2 d2 s2 where 2: "vs_dc_probe ?f ident_0 sys_0 = (r2, d2, s2)"
    by (cases "vs_dc_probe ?f ident_0 sys_0") auto
  have v1: "fst (vs_dc_probe probe_env_0 ident_0 sys_0) = 0" by code_simp
  have v2: "fst (vs_dc_probe ?f ident_0 sys_0) = - ENOMEM" by code_simp
  note t1 = vs_dc_probe_lifecycle [OF e(1) s 1] and t2 = vs_dc_probe_lifecycle [OF e(2) s 2]
  show ?thesis using e s t1 t2 v1 v2 unfolding 1 2 by (auto simp: errno_defs)
qed

text \<open>C15: The interrupt handler of a probed controller, of either generation: it never follows a null pointer,
  reads the status register once, and reports a vertical blank for exactly the displays whose sync bit is
  pending, in order; what it leaves over are bits above the number of displays.\<close>

theorem vs_dc_irq_handler_dispatch:
  assumes "dc_ready dc" "regmap_laws (dc_regs dc) rf"
    and "(funcs dc, sta) \<in> {(vs_dc8200_funcs, VSDC_TOP_IRQ_ACK), (vs_dc8000_funcs, VSDC_DISP_IRQ_STA)}"
  shows "\<exists>rest. vs_dc_irq_handler dc w =
      Some ((filter (bit (rf w sta)) [0..<unat (display_count (identity dc))], rest),
        snd (regmap_read (dc_regs dc) w sta)) \<and>
    (\<forall>i. bit rest i \<longrightarrow> unat (display_count (identity dc)) \<le> i \<and> i < VSDC_MAX_OUTPUTS \<and> bit (rf w sta) i)"
proof -
  let ?n = "unat (display_count (identity dc))"
  obtain vdrm where v: "drm_dev dc = Some vdrm" "\<forall>i < ?n. crtcs vdrm ! i = Some \<lparr>vcrtc_id = i\<rparr>" and n: "?n \<le> 2"
    using assms(1) by (auto simp: dc_ready_def VSDC_MAX_OUTPUTS_def)
  have ack: "\<forall>i. bit (fst (irq_ack (funcs dc) (dc_regs dc) w)) i \<longleftrightarrow> i < VSDC_MAX_OUTPUTS \<and> bit (rf w sta) i"
    "snd (irq_ack (funcs dc) (dc_regs dc) w) = snd (regmap_read (dc_regs dc) w sta)"
    using assms(3) dc8200.ack_bits [OF assms(2)] dc8200.ack_world dc8000.ack_bits [OF assms(2)] dc8000.ack_world
    by auto
  obtain irqs w' where r: "irq_ack (funcs dc) (dc_regs dc) w = (irqs, w')" by fastforce
  have out: "vsync_outputs vdrm irqs ?n = filter (bit (rf w sta)) [0..<?n]"
  proof -
    have "filter (\<lambda>i. bit irqs i \<and> crtcs vdrm ! i \<noteq> None) [0..<?n] = filter (bit (rf w sta)) [0..<?n]"
      using ack(1) r v(2) n by (intro filter_cong) (auto simp: VSDC_MAX_OUTPUTS_def)
    then show ?thesis
      unfolding vsync_outputs_def using v(2) by (auto intro!: map_idI)
  qed
  have "vs_dc_irq_handler dc w = Some ((filter (bit (rf w sta)) [0..<?n], irqs AND NOT (mask ?n)), w')"
    using handle_irq_fold [OF v(1), of ?n irqs] n out by (simp add: vs_dc_irq_handler_def r vs_drm_handle_irq_def)
  moreover have "w' = snd (regmap_read (dc_regs dc) w sta)" using ack(2) r by simp
  moreover have "?n \<le> i \<and> i < VSDC_MAX_OUTPUTS \<and> bit (rf w sta) i" if "bit (irqs AND NOT (mask ?n)) i" for i
  proof -
    have "bit irqs i" "\<not> bit (mask ?n :: u32) i" using that unfolding bit_and_iff bit_not_iff by blast+
    moreover have "bit irqs i \<longleftrightarrow> i < VSDC_MAX_OUTPUTS \<and> bit (rf w sta) i"
      using spec [OF ack(1), of i] unfolding r by simp
    ultimately show ?thesis by (simp add: bit_mask_iff VSDC_MAX_OUTPUTS_def)
  qed
  ultimately show ?thesis by blast
qed

definition ready_dc :: "board vs_dc_funcs \<Rightarrow> vs_drm_dev option \<Rightarrow> board vs_dc" where
  "ready_dc fs v = \<lparr>dc_regs = board_regmap, core_clk = 5, axi_clk = 5, ahb_clk = 5, pix_clk = [0, 1],
     drm_dev = v, identity = ident_0, funcs = fs\<rparr>"

theorem vs_dc_irq_handler_dispatch_witness:
  "let dc = ready_dc vs_dc8200_funcs (Some \<lparr>crtcs = [Some \<lparr>vcrtc_id = 0\<rparr>, Some \<lparr>vcrtc_id = 1\<rparr>]\<rparr>)
   in dc_ready dc \<and> regmap_laws (dc_regs dc) bd_regs \<and>
     (\<exists>rest w'. vs_dc_irq_handler dc dc8200_board = Some (([0, 1], rest), w') \<and> \<not> bit rest 0)"
proof -
  let ?dc = "ready_dc vs_dc8200_funcs (Some \<lparr>crtcs = [Some \<lparr>vcrtc_id = 0\<rparr>, Some \<lparr>vcrtc_id = 1\<rparr>]\<rparr>)"
  have n: "unat (display_count (identity ?dc)) = 2" by (simp add: ready_dc_def ident_0_def vs_chip_identities_def)
  have r: "dc_ready ?dc"
    using n by (auto simp: dc_ready_def VSDC_MAX_OUTPUTS_def ready_dc_def less_2_cases_iff)
  have l: "regmap_laws (dc_regs ?dc) bd_regs" by (simp add: ready_dc_def bd.regmap_laws_axioms)
  have p: "filter (bit (bd_regs dc8200_board VSDC_TOP_IRQ_ACK)) [0..<2] = [0, 1]" by code_simp
  show ?thesis
    using vs_dc_irq_handler_dispatch [OF r l, of VSDC_TOP_IRQ_ACK dc8200_board] r l n p
    by (auto simp: Let_def ready_dc_def)
qed

text \<open>The probe requests the interrupt before the DRM device exists: a vertical sync that is already
  pending then makes the handler follow the null \<open>drm_dev\<close>, with either generation's hooks.\<close>

theorem vs_dc_irq_before_drm:
  assumes "drm_dev dc = None" "regmap_laws (dc_regs dc) rf" "0 < unat (display_count (identity dc))"
    and "(funcs dc, sta) \<in> {(vs_dc8200_funcs, VSDC_TOP_IRQ_ACK), (vs_dc8000_funcs, VSDC_DISP_IRQ_STA)}"
    and "bit (rf w sta) 0"
  shows "vs_dc_irq_handler dc w = None"
proof -
  have none: "fold (vs_handle_output dc) is None = None" for "is"
    by (induction "is") (simp_all add: vs_handle_output_def)
  have "bit (fst (irq_ack (funcs dc) (dc_regs dc) w)) 0"
    using assms(4,5) dc8200.ack_bits [OF assms(2)] dc8000.ack_bits [OF assms(2)]
    by (auto simp: VSDC_MAX_OUTPUTS_def)
  then have "vs_handle_output dc 0 (Some ([], fst (irq_ack (funcs dc) (dc_regs dc) w))) = None"
    using assms(1) by (simp add: vs_handle_output_def VSDC_IRQ_VSYNC_def and_BIT_iff)
  then show ?thesis
    using assms(3) none
    by (cases "irq_ack (funcs dc) (dc_regs dc) w")
      (simp add: vs_dc_irq_handler_def vs_drm_handle_irq_def upt_conv_Cons)
qed

theorem vs_dc_irq_before_drm_witness:
  "let dc = ready_dc vs_dc8200_funcs None
   in drm_dev dc = None \<and> bit (bd_regs dc8200_board VSDC_TOP_IRQ_ACK) 0 \<and>
     vs_dc_irq_handler dc dc8200_board = None"
proof -
  let ?dc = "ready_dc vs_dc8200_funcs None"
  have n: "drm_dev ?dc = None" "0 < unat (display_count (identity ?dc))"
    "(funcs ?dc, VSDC_TOP_IRQ_ACK) \<in> {(vs_dc8200_funcs, VSDC_TOP_IRQ_ACK), (vs_dc8000_funcs, VSDC_DISP_IRQ_STA)}"
    by (simp_all add: ready_dc_def ident_0_def vs_chip_identities_def)
  have l: "regmap_laws (dc_regs ?dc) bd_regs" by (simp add: ready_dc_def bd.regmap_laws_axioms)
  have p: "bit (bd_regs dc8200_board VSDC_TOP_IRQ_ACK) 0" by code_simp
  show ?thesis using vs_dc_irq_before_drm [OF n(1) l n(2,3) p] n(1) p by (simp add: Let_def)
qed

end
