(* ===== verification/Ma35_Regs.thy ===== *)
theory Ma35_Regs
  imports Reg_Fields
begin

text \<open>
  Registers, masks and constants of the MA35 display controller that the driver uses
  (\<open>drm/nuvoton/ma35_regs.h\<close>, \<open>ma35_plane.h\<close>, \<open>ma35_crtc.h\<close>, \<open>ma35_drm.h\<close>).
\<close>

section \<open>Addresses\<close>

definition MA35_FRAMEBUFFER_CONFIG :: u32 where "MA35_FRAMEBUFFER_CONFIG = 0x1518"
definition MA35_FRAMEBUFFER_ADDRESS :: u32 where "MA35_FRAMEBUFFER_ADDRESS = 0x1400"
definition MA35_FRAMEBUFFER_STRIDE :: u32 where "MA35_FRAMEBUFFER_STRIDE = 0x1408"
definition MA35_HDISPLAY :: u32 where "MA35_HDISPLAY = 0x1430"
definition MA35_HSYNC :: u32 where "MA35_HSYNC = 0x1438"
definition MA35_VDISPLAY :: u32 where "MA35_VDISPLAY = 0x1440"
definition MA35_VSYNC :: u32 where "MA35_VSYNC = 0x1448"
definition MA35_PANEL_CONFIG :: u32 where "MA35_PANEL_CONFIG = 0x1418"
definition MA35_DPI_CONFIG :: u32 where "MA35_DPI_CONFIG = 0x14B8"
definition MA35_CURSOR_ADDRESS :: u32 where "MA35_CURSOR_ADDRESS = 0x146C"
definition MA35_CURSOR_CONFIG :: u32 where "MA35_CURSOR_CONFIG = 0x1468"
definition MA35_CURSOR_LOCATION :: u32 where "MA35_CURSOR_LOCATION = 0x1470"
definition MA35_FRAMEBUFFER_UPLANAR_ADDRESS :: u32 where "MA35_FRAMEBUFFER_UPLANAR_ADDRESS = 0x1530"
definition MA35_FRAMEBUFFER_VPLANAR_ADDRESS :: u32 where "MA35_FRAMEBUFFER_VPLANAR_ADDRESS = 0x1538"
definition MA35_FRAMEBUFFER_USTRIDE :: u32 where "MA35_FRAMEBUFFER_USTRIDE = 0x1800"
definition MA35_FRAMEBUFFER_VSTRIDE :: u32 where "MA35_FRAMEBUFFER_VSTRIDE = 0x1808"
definition MA35_FRAMEBUFFER_SIZE :: u32 where "MA35_FRAMEBUFFER_SIZE = 0x1810"
definition MA35_FRAMEBUFFER_CLEARVALUE :: u32 where "MA35_FRAMEBUFFER_CLEARVALUE = 0x1A18"
definition MA35_DISPLAY_INTRENABLE :: u32 where "MA35_DISPLAY_INTRENABLE = 0x1480"
definition MA35_INT_STATE :: u32 where "MA35_INT_STATE = 0x147C"
definition MA35_OVERLAY_CONFIG :: u32 where "MA35_OVERLAY_CONFIG = 0x1540"
definition MA35_OVERLAY_STRIDE :: u32 where "MA35_OVERLAY_STRIDE = 0x1600"
definition MA35_OVERLAY_USTRIDE :: u32 where "MA35_OVERLAY_USTRIDE = 0x18C0"
definition MA35_OVERLAY_VSTRIDE :: u32 where "MA35_OVERLAY_VSTRIDE = 0x1900"
definition MA35_OVERLAY_TL :: u32 where "MA35_OVERLAY_TL = 0x1640"
definition MA35_OVERLAY_BR :: u32 where "MA35_OVERLAY_BR = 0x1680"
definition MA35_OVERLAY_ALPHA_BLEND_CONFIG :: u32 where "MA35_OVERLAY_ALPHA_BLEND_CONFIG = 0x1580"
definition MA35_OVERLAY_CLEAR_VALUE :: u32 where "MA35_OVERLAY_CLEAR_VALUE = 0x1940"
definition MA35_OVERLAY_SIZE :: u32 where "MA35_OVERLAY_SIZE = 0x17C0"
definition MA35_OVERLAY_ADDRESS :: u32 where "MA35_OVERLAY_ADDRESS = 0x15C0"
definition MA35_OVERLAY_UPLANAR_ADDRESS :: u32 where "MA35_OVERLAY_UPLANAR_ADDRESS = 0x1840"
definition MA35_OVERLAY_VPLANAR_ADDRESS :: u32 where "MA35_OVERLAY_VPLANAR_ADDRESS = 0x1880"
definition MA35_GAMMA_INDEX :: u32 where "MA35_GAMMA_INDEX = 0x1458"
definition MA35_GAMMA_DATA :: u32 where "MA35_GAMMA_DATA = 0x1460"
definition MA35_DISPLAY_DITHER_TABLE_LOW :: u32 where "MA35_DISPLAY_DITHER_TABLE_LOW = 0x1420"
definition MA35_DISPLAY_DITHER_TABLE_HIGH :: u32 where "MA35_DISPLAY_DITHER_TABLE_HIGH = 0x1428"
definition MA35_DISPLAY_DITHER_CONFIG :: u32 where "MA35_DISPLAY_DITHER_CONFIG = 0x1410"
definition MA35_DISPLAY_CURRENT_LOCATION :: u32 where "MA35_DISPLAY_CURRENT_LOCATION = 0x1450"

section \<open>Masks and values\<close>

definition MA35_ALPHA_BLEND_DISABLE :: u32 where "MA35_ALPHA_BLEND_DISABLE = BIT 1"
definition MA35_ALPHA_BLEND_ONE :: u32 where "MA35_ALPHA_BLEND_ONE = 1"
definition MA35_ALPHA_BLEND_INVERSED :: u32 where "MA35_ALPHA_BLEND_INVERSED = 3"
definition MA35_SRC_BLENDING_MODE :: u32 where "MA35_SRC_BLENDING_MODE = GENMASK 7 5"
definition MA35_DST_BLENDING_MODE :: u32 where "MA35_DST_BLENDING_MODE = GENMASK 14 12"
definition MA35_BLEND_MODE_SRC_OVER :: u32 where
  "MA35_BLEND_MODE_SRC_OVER =
     FIELD_PREP MA35_SRC_BLENDING_MODE MA35_ALPHA_BLEND_ONE
     OR FIELD_PREP MA35_DST_BLENDING_MODE MA35_ALPHA_BLEND_INVERSED"
definition MA35_SRC_ALPHA_FACTOR_EN :: u32 where "MA35_SRC_ALPHA_FACTOR_EN = BIT 8"
definition MA35_CURSOR_SIZE :: u32 where "MA35_CURSOR_SIZE = 32"
definition MA35_CURSOR_HOTSPOT_X_MASK :: u32 where "MA35_CURSOR_HOTSPOT_X_MASK = GENMASK 20 16"
definition MA35_CURSOR_HOTSPOT_Y_MASK :: u32 where "MA35_CURSOR_HOTSPOT_Y_MASK = GENMASK 12 8"
definition MA35_CURSOR_FORMAT_MASK :: u32 where "MA35_CURSOR_FORMAT_MASK = GENMASK 1 0"
definition MA35_CURSOR_X_MASK :: u32 where "MA35_CURSOR_X_MASK = GENMASK 14 0"
definition MA35_CURSOR_Y_MASK :: u32 where "MA35_CURSOR_Y_MASK = GENMASK 30 16"
definition MA35_PRIMARY_ENABLE :: u32 where "MA35_PRIMARY_ENABLE = BIT 0"
definition MA35_PRIMARY_GAMMA :: u32 where "MA35_PRIMARY_GAMMA = BIT 2"
definition MA35_PRIMARY_RESET :: u32 where "MA35_PRIMARY_RESET = BIT 4"
definition MA35_PRIMARY_CLEAR :: u32 where "MA35_PRIMARY_CLEAR = BIT 8"
definition MA35_PRIMARY_FORMAT_MASK :: u32 where "MA35_PRIMARY_FORMAT_MASK = GENMASK 31 26"
definition MA35_OVERLAY_ENABLE :: u32 where "MA35_OVERLAY_ENABLE = BIT 24"
definition MA35_OVERLAY_CLEAR :: u32 where "MA35_OVERLAY_CLEAR = BIT 25"
definition MA35_OVERLAY_FORMAT_MASK :: u32 where "MA35_OVERLAY_FORMAT_MASK = GENMASK 21 16"
definition MA35_LAYER_FB_HEIGHT :: u32 where "MA35_LAYER_FB_HEIGHT = GENMASK 29 15"
definition MA35_LAYER_FB_WIDTH :: u32 where "MA35_LAYER_FB_WIDTH = GENMASK 14 0"
definition MA35_OVERLAY_POSITION_Y_MASK :: u32 where "MA35_OVERLAY_POSITION_Y_MASK = MA35_LAYER_FB_HEIGHT"
definition MA35_OVERLAY_POSITION_X_MASK :: u32 where "MA35_OVERLAY_POSITION_X_MASK = MA35_LAYER_FB_WIDTH"
definition MA35_DPI_D24 :: u32 where "MA35_DPI_D24 = 5"
definition MA35_DPI_FORMAT_MASK :: u32 where "MA35_DPI_FORMAT_MASK = GENMASK 2 0"
definition MA35_DEFAULT_CRTC_ID :: nat where "MA35_DEFAULT_CRTC_ID = 0"
definition MA35_MAX_PIXEL_CLK :: int where "MA35_MAX_PIXEL_CLK = 150000"
definition MA35_GAMMA_TABLE_SIZE :: u32 where "MA35_GAMMA_TABLE_SIZE = 256"
definition MA35_GAMMA_RED_MASK :: u32 where "MA35_GAMMA_RED_MASK = GENMASK 29 20"
definition MA35_GAMMA_GREEN_MASK :: u32 where "MA35_GAMMA_GREEN_MASK = GENMASK 19 10"
definition MA35_GAMMA_BLUE_MASK :: u32 where "MA35_GAMMA_BLUE_MASK = GENMASK 9 0"
definition MA35_DITHER_TABLE_ENTRY :: nat where "MA35_DITHER_TABLE_ENTRY = 16"
definition MA35_DITHER_ENABLE :: u32 where "MA35_DITHER_ENABLE = BIT 31"
definition MA35_DITHER_TABLE_MASK :: u32 where "MA35_DITHER_TABLE_MASK = GENMASK 3 0"
definition MA35_CRTC_VBLANK :: u32 where "MA35_CRTC_VBLANK = BIT 0"
definition MA35_DEBUG_COUNTER_MASK :: u32 where "MA35_DEBUG_COUNTER_MASK = GENMASK 31 0"
definition MA35_PANEL_DATA_ENABLE_ENABLE :: u32 where "MA35_PANEL_DATA_ENABLE_ENABLE = BIT 0"
definition MA35_PANEL_DATA_ENABLE_POLARITY :: u32 where "MA35_PANEL_DATA_ENABLE_POLARITY = BIT 1"
definition MA35_PANEL_DATA_ENABLE :: u32 where "MA35_PANEL_DATA_ENABLE = BIT 4"
definition MA35_PANEL_DATA_POLARITY :: u32 where "MA35_PANEL_DATA_POLARITY = BIT 5"
definition MA35_PANEL_DATA_CLOCK_ENABLE :: u32 where "MA35_PANEL_DATA_CLOCK_ENABLE = BIT 8"
definition MA35_PANEL_DATA_CLOCK_POLARITY :: u32 where "MA35_PANEL_DATA_CLOCK_POLARITY = BIT 9"
definition MA35_DISPLAY_TOTAL_MASK :: u32 where "MA35_DISPLAY_TOTAL_MASK = GENMASK 30 16"
definition MA35_DISPLAY_ACTIVE_MASK :: u32 where "MA35_DISPLAY_ACTIVE_MASK = GENMASK 14 0"
definition MA35_SYNC_POLARITY_BIT :: u32 where "MA35_SYNC_POLARITY_BIT = BIT 31"
definition MA35_SYNC_PULSE_ENABLE :: u32 where "MA35_SYNC_PULSE_ENABLE = BIT 30"
definition MA35_SYNC_END_MASK :: u32 where "MA35_SYNC_END_MASK = GENMASK 29 15"
definition MA35_SYNC_START_MASK :: u32 where "MA35_SYNC_START_MASK = GENMASK 14 0"
definition MA35_DISPLAY_CURRENT_X :: u32 where "MA35_DISPLAY_CURRENT_X = GENMASK 15 0"
definition MA35_DISPLAY_CURRENT_Y :: u32 where "MA35_DISPLAY_CURRENT_Y = GENMASK 31 16"
definition MA35_INT_STATE_DISP0 :: u32 where "MA35_INT_STATE_DISP0 = BIT 0"
definition MA35_DISPLAY_ALIGN_PIXELS :: u32 where "MA35_DISPLAY_ALIGN_PIXELS = 32"
definition MA35_CURSOR_WIDTH :: u32 where "MA35_CURSOR_WIDTH = 32"
definition MA35_CURSOR_HEIGHT :: u32 where "MA35_CURSOR_HEIGHT = 32"

section \<open>Collections\<close>

named_theorems ma_addr \<open>register addresses\<close>
named_theorems ma_field \<open>masks and field values\<close>

lemmas [ma_addr] =
  MA35_FRAMEBUFFER_CONFIG_def MA35_FRAMEBUFFER_ADDRESS_def MA35_FRAMEBUFFER_STRIDE_def MA35_HDISPLAY_def
  MA35_HSYNC_def MA35_VDISPLAY_def MA35_VSYNC_def MA35_PANEL_CONFIG_def MA35_DPI_CONFIG_def
  MA35_CURSOR_ADDRESS_def MA35_CURSOR_CONFIG_def MA35_CURSOR_LOCATION_def
  MA35_FRAMEBUFFER_UPLANAR_ADDRESS_def MA35_FRAMEBUFFER_VPLANAR_ADDRESS_def MA35_FRAMEBUFFER_USTRIDE_def
  MA35_FRAMEBUFFER_VSTRIDE_def MA35_FRAMEBUFFER_SIZE_def MA35_FRAMEBUFFER_CLEARVALUE_def
  MA35_DISPLAY_INTRENABLE_def MA35_INT_STATE_def MA35_OVERLAY_CONFIG_def MA35_OVERLAY_STRIDE_def
  MA35_OVERLAY_USTRIDE_def MA35_OVERLAY_VSTRIDE_def MA35_OVERLAY_TL_def MA35_OVERLAY_BR_def
  MA35_OVERLAY_ALPHA_BLEND_CONFIG_def MA35_OVERLAY_CLEAR_VALUE_def MA35_OVERLAY_SIZE_def
  MA35_OVERLAY_ADDRESS_def MA35_OVERLAY_UPLANAR_ADDRESS_def MA35_OVERLAY_VPLANAR_ADDRESS_def
  MA35_GAMMA_INDEX_def MA35_GAMMA_DATA_def MA35_DISPLAY_DITHER_TABLE_LOW_def
  MA35_DISPLAY_DITHER_TABLE_HIGH_def MA35_DISPLAY_DITHER_CONFIG_def MA35_DISPLAY_CURRENT_LOCATION_def

lemmas [ma_field] =
  MA35_ALPHA_BLEND_DISABLE_def MA35_ALPHA_BLEND_ONE_def MA35_ALPHA_BLEND_INVERSED_def
  MA35_SRC_BLENDING_MODE_def MA35_DST_BLENDING_MODE_def MA35_BLEND_MODE_SRC_OVER_def
  MA35_SRC_ALPHA_FACTOR_EN_def MA35_CURSOR_SIZE_def MA35_CURSOR_HOTSPOT_X_MASK_def
  MA35_CURSOR_HOTSPOT_Y_MASK_def MA35_CURSOR_FORMAT_MASK_def MA35_CURSOR_X_MASK_def
  MA35_CURSOR_Y_MASK_def MA35_PRIMARY_ENABLE_def MA35_PRIMARY_GAMMA_def MA35_PRIMARY_RESET_def
  MA35_PRIMARY_CLEAR_def MA35_PRIMARY_FORMAT_MASK_def MA35_OVERLAY_ENABLE_def MA35_OVERLAY_CLEAR_def
  MA35_OVERLAY_FORMAT_MASK_def MA35_LAYER_FB_HEIGHT_def MA35_LAYER_FB_WIDTH_def
  MA35_OVERLAY_POSITION_Y_MASK_def MA35_OVERLAY_POSITION_X_MASK_def MA35_DPI_D24_def
  MA35_DPI_FORMAT_MASK_def MA35_DEFAULT_CRTC_ID_def MA35_MAX_PIXEL_CLK_def MA35_GAMMA_TABLE_SIZE_def
  MA35_GAMMA_RED_MASK_def MA35_GAMMA_GREEN_MASK_def MA35_GAMMA_BLUE_MASK_def MA35_DITHER_TABLE_ENTRY_def
  MA35_DITHER_ENABLE_def MA35_DITHER_TABLE_MASK_def MA35_CRTC_VBLANK_def MA35_DEBUG_COUNTER_MASK_def
  MA35_PANEL_DATA_ENABLE_ENABLE_def MA35_PANEL_DATA_ENABLE_POLARITY_def MA35_PANEL_DATA_ENABLE_def
  MA35_PANEL_DATA_POLARITY_def MA35_PANEL_DATA_CLOCK_ENABLE_def MA35_PANEL_DATA_CLOCK_POLARITY_def
  MA35_DISPLAY_TOTAL_MASK_def MA35_DISPLAY_ACTIVE_MASK_def MA35_SYNC_POLARITY_BIT_def
  MA35_SYNC_PULSE_ENABLE_def MA35_SYNC_END_MASK_def MA35_SYNC_START_MASK_def MA35_DISPLAY_CURRENT_X_def
  MA35_DISPLAY_CURRENT_Y_def MA35_INT_STATE_DISP0_def MA35_DISPLAY_ALIGN_PIXELS_def MA35_CURSOR_WIDTH_def
  MA35_CURSOR_HEIGHT_def

end
