(* ===== verification/Ma35_Plane.thy ===== *)
theory Ma35_Plane
  imports Ma35_Regs Drm_State
begin

text \<open>
  The planes of the MA35 display driver (\<open>drm/nuvoton/ma35_plane.c\<close>): primary, overlay and cursor. A layer
  keeps its plane and the last bus addresses. \<open>None\<close> as the result of an operation is the access through a
  null framebuffer (or the use of a format code that was never set). The blend mode constants are values of a
  header, an argument.
\<close>

section \<open>Data\<close>

datatype ma35_format_enum =
    MA35_FORMAT_X4R4G4B4 | MA35_FORMAT_A4R4G4B4 | MA35_FORMAT_X1R5G5B5 | MA35_FORMAT_A1R5G5B5
  | MA35_FORMAT_R5G6B5 | MA35_FORMAT_X8R8G8B8 | MA35_FORMAT_A8R8G8B8 | MA35_FORMAT_YUY2
  | MA35_FORMAT_UYVY | MA35_FORMAT_INDEX8 | MA35_FORMAT_MONOCHROME | MA35_FORMAT_YV12 | MA35_FORMAT_A8
  | MA35_FORMAT_NV12 | MA35_FORMAT_NV16 | MA35_FORMAT_RG16 | MA35_FORMAT_R8 | MA35_FORMAT_NV12_10BIT
  | MA35_FORMAT_A2R10G10B10 | MA35_FORMAT_NV16_10BIT | MA35_FORMAT_INDEX1 | MA35_FORMAT_INDEX2
  | MA35_FORMAT_INDEX4 | MA35_FORMAT_P010 | MA35_FORMAT_NV12_10BIT_L1 | MA35_FORMAT_NV16_10BIT_L1

fun ma35_format_val :: "ma35_format_enum \<Rightarrow> u32" where
  "ma35_format_val MA35_FORMAT_X4R4G4B4 = 0"
| "ma35_format_val MA35_FORMAT_A4R4G4B4 = 1"
| "ma35_format_val MA35_FORMAT_X1R5G5B5 = 2"
| "ma35_format_val MA35_FORMAT_A1R5G5B5 = 3"
| "ma35_format_val MA35_FORMAT_R5G6B5 = 4"
| "ma35_format_val MA35_FORMAT_X8R8G8B8 = 5"
| "ma35_format_val MA35_FORMAT_A8R8G8B8 = 6"
| "ma35_format_val MA35_FORMAT_YUY2 = 7"
| "ma35_format_val MA35_FORMAT_UYVY = 8"
| "ma35_format_val MA35_FORMAT_INDEX8 = 9"
| "ma35_format_val MA35_FORMAT_MONOCHROME = 10"
| "ma35_format_val MA35_FORMAT_YV12 = 11"
| "ma35_format_val MA35_FORMAT_A8 = 12"
| "ma35_format_val MA35_FORMAT_NV12 = 13"
| "ma35_format_val MA35_FORMAT_NV16 = 14"
| "ma35_format_val MA35_FORMAT_RG16 = 15"
| "ma35_format_val MA35_FORMAT_R8 = 16"
| "ma35_format_val MA35_FORMAT_NV12_10BIT = 17"
| "ma35_format_val MA35_FORMAT_A2R10G10B10 = 18"
| "ma35_format_val MA35_FORMAT_NV16_10BIT = 19"
| "ma35_format_val MA35_FORMAT_INDEX1 = 20"
| "ma35_format_val MA35_FORMAT_INDEX2 = 21"
| "ma35_format_val MA35_FORMAT_INDEX4 = 22"
| "ma35_format_val MA35_FORMAT_P010 = 23"
| "ma35_format_val MA35_FORMAT_NV12_10BIT_L1 = 24"
| "ma35_format_val MA35_FORMAT_NV16_10BIT_L1 = 25"

record ma35_plane_property =
  fb_addr :: "u32 list"
  fb_stride :: "u32 list"
  prop_alpha :: bool

record ma35_layer =
  lay_plane :: drm_plane
  lay_zpos :: u32
  fb_base :: "u64 list"

record blend_hdr =
  DRM_MODE_BLEND_PREMULTI :: u16
  DRM_MODE_BLEND_COVERAGE :: u16

definition ma35_layer_formats :: "drm_format list" where
  "ma35_layer_formats = [DRM_FORMAT_ARGB8888, DRM_FORMAT_XRGB8888, DRM_FORMAT_ARGB2101010, DRM_FORMAT_XRGB4444,
     DRM_FORMAT_ARGB4444, DRM_FORMAT_XRGB1555, DRM_FORMAT_ARGB1555, DRM_FORMAT_RGB565,
     DRM_FORMAT_YUYV, DRM_FORMAT_UYVY, DRM_FORMAT_YVU420, DRM_FORMAT_NV12,
     DRM_FORMAT_NV16, DRM_FORMAT_P010]"

definition ma35_cursor_formats :: "drm_format list" where
  "ma35_cursor_formats = [DRM_FORMAT_XRGB8888]"

fun ma35_plane_properties :: "drm_plane_type \<Rightarrow> ma35_plane_property" where
  "ma35_plane_properties DRM_PLANE_TYPE_OVERLAY = \<lparr>
     fb_addr = [MA35_OVERLAY_ADDRESS, MA35_OVERLAY_UPLANAR_ADDRESS, MA35_OVERLAY_VPLANAR_ADDRESS],
     fb_stride = [MA35_OVERLAY_STRIDE, MA35_OVERLAY_USTRIDE, MA35_OVERLAY_VSTRIDE],
     prop_alpha = True\<rparr>"
| "ma35_plane_properties DRM_PLANE_TYPE_PRIMARY = \<lparr>
     fb_addr = [MA35_FRAMEBUFFER_ADDRESS, MA35_FRAMEBUFFER_UPLANAR_ADDRESS,
                MA35_FRAMEBUFFER_VPLANAR_ADDRESS],
     fb_stride = [MA35_FRAMEBUFFER_STRIDE, MA35_FRAMEBUFFER_USTRIDE, MA35_FRAMEBUFFER_VSTRIDE],
     prop_alpha = False\<rparr>"
| "ma35_plane_properties DRM_PLANE_TYPE_CURSOR = \<lparr>
     fb_addr = [0, 0, 0], fb_stride = [0, 0, 0], prop_alpha = False\<rparr>"

section \<open>Checks\<close>

definition ma35_layer_format_of :: "drm_format \<Rightarrow> ma35_format_enum option" where
  "ma35_layer_format_of fourcc = (case fourcc of
      DRM_FORMAT_XRGB4444 \<Rightarrow> Some MA35_FORMAT_X4R4G4B4
      | DRM_FORMAT_ARGB4444 \<Rightarrow> Some MA35_FORMAT_A4R4G4B4
      | DRM_FORMAT_XRGB1555 \<Rightarrow> Some MA35_FORMAT_X1R5G5B5
      | DRM_FORMAT_ARGB1555 \<Rightarrow> Some MA35_FORMAT_A1R5G5B5
      | DRM_FORMAT_RGB565 \<Rightarrow> Some MA35_FORMAT_R5G6B5
      | DRM_FORMAT_XRGB8888 \<Rightarrow> Some MA35_FORMAT_X8R8G8B8
      | DRM_FORMAT_ARGB8888 \<Rightarrow> Some MA35_FORMAT_A8R8G8B8
      | DRM_FORMAT_ARGB2101010 \<Rightarrow> Some MA35_FORMAT_A2R10G10B10
      | DRM_FORMAT_YUYV \<Rightarrow> Some MA35_FORMAT_YUY2
      | DRM_FORMAT_UYVY \<Rightarrow> Some MA35_FORMAT_UYVY
      | DRM_FORMAT_YVU420 \<Rightarrow> Some MA35_FORMAT_YV12
      | DRM_FORMAT_NV12 \<Rightarrow> Some MA35_FORMAT_NV12
      | DRM_FORMAT_NV16 \<Rightarrow> Some MA35_FORMAT_NV16
      | DRM_FORMAT_P010 \<Rightarrow> Some MA35_FORMAT_P010
      | _ \<Rightarrow> None)"

definition ma35_layer_format_validate :: "drm_format \<Rightarrow> int \<times> u32 option" where
  "ma35_layer_format_validate fourcc = (case ma35_layer_format_of fourcc of
     None \<Rightarrow> (- EINVAL, None) | Some e \<Rightarrow> (0, Some (ma35_format_val e)))"

text \<open>\<open>cs\<close> is the result of \<open>drm_atomic_get_crtc_state\<close>.\<close>

definition ma35_plane_atomic_check ::
    "plane_hdr \<Rightarrow> drm_plane \<Rightarrow> int + drm_crtc_state \<Rightarrow> drm_plane_state \<Rightarrow> (int \<times> drm_plane_state) option" where
  "ma35_plane_atomic_check hdr plane cs new_state =
     (if crtc new_state = None then Some (0, new_state)
      else case cs of
        Inl e \<Rightarrow> Some (e, new_state)
      | Inr crtc_state \<Rightarrow>
        if crtc_x new_state < 0 \<or> crtc_y new_state < 0 then Some (- EINVAL, new_state)
        else case fb new_state of
          None \<Rightarrow> None
        | Some f \<Rightarrow>
          if fst (ma35_layer_format_validate (fi_format (fb_format f))) < 0 then Some (- EINVAL, new_state)
          else
            let can_position = (plane_type plane \<noteq> DRM_PLANE_TYPE_PRIMARY)
            in Some (drm_atomic_helper_check_plane_state hdr new_state crtc_state
                       DRM_PLANE_NO_SCALING DRM_PLANE_NO_SCALING can_position True))"

definition ma35_cursor_plane_atomic_check ::
    "plane_hdr \<Rightarrow> int + drm_crtc_state \<Rightarrow> drm_plane_state \<Rightarrow> int \<times> drm_plane_state" where
  "ma35_cursor_plane_atomic_check hdr cs new_state = (case fb new_state of
     None \<Rightarrow> (0, new_state)
   | Some f \<Rightarrow>
     if crtc new_state = None then (- EINVAL, new_state)
     else case cs of
       Inl e \<Rightarrow> (e, new_state)
     | Inr crtc_state \<Rightarrow>
       if fi_format (fb_format f) \<noteq> DRM_FORMAT_XRGB8888 then (- EINVAL, new_state)
       else if crtc_w new_state \<noteq> MA35_CURSOR_SIZE \<or> crtc_h new_state \<noteq> MA35_CURSOR_SIZE
       then (- EINVAL, new_state)
       else if hotspot_x new_state \<ge> 32 \<or> hotspot_x new_state < 0 \<or>
               hotspot_y new_state \<ge> 32 \<or> hotspot_y new_state < 0 then (- EINVAL, new_state)
       else drm_atomic_helper_check_plane_state hdr new_state crtc_state
              DRM_PLANE_NO_SCALING DRM_PLANE_NO_SCALING True True)"

definition ma35_cursor_plane_atomic_async_check ::
    "plane_hdr \<Rightarrow> int + drm_crtc_state \<Rightarrow> drm_plane_state \<Rightarrow> bool \<Rightarrow> int \<times> drm_plane_state" where
  "ma35_cursor_plane_atomic_async_check hdr cs new_state flip =
     ma35_cursor_plane_atomic_check hdr cs new_state"

section \<open>Updates\<close>

definition clamp0 :: "int \<Rightarrow> int" where
  "clamp0 x = (if x < 0 then 0 else x)"

definition ma35_overlay_position_update ::
    "'w regmap_api \<Rightarrow> int \<Rightarrow> int \<Rightarrow> u32 \<Rightarrow> u32 \<Rightarrow> 'w \<Rightarrow> 'w" where
  "ma35_overlay_position_update rm x y wd ht w =
     (let right = wrap32 (uint (word_of_int x + wd));
          bottom = wrap32 (uint (word_of_int y + ht));
          x = clamp0 x;
          y = clamp0 y;
          right = clamp0 right;
          bottom = clamp0 bottom;
          w = regmap_write rm w MA35_OVERLAY_TL
                (FIELD_PREP MA35_OVERLAY_POSITION_X_MASK (word_of_int x) OR
                 FIELD_PREP MA35_OVERLAY_POSITION_Y_MASK (word_of_int y))
      in regmap_write rm w MA35_OVERLAY_BR
           (FIELD_PREP MA35_OVERLAY_POSITION_X_MASK (word_of_int right) OR
            FIELD_PREP MA35_OVERLAY_POSITION_Y_MASK (word_of_int bottom)))"

text \<open>One turn of the loop that programs the memory planes.\<close>

definition ma35_write_plane ::
    "'w regmap_api \<Rightarrow> ma35_plane_property \<Rightarrow> drm_framebuffer \<Rightarrow> drm_plane_state \<Rightarrow> nat \<Rightarrow>
     ma35_layer \<times> 'w \<Rightarrow> ma35_layer \<times> 'w" where
  "ma35_write_plane rm p f new_state i lw =
     (let (layer, w) = lw;
          layer = layer\<lparr>fb_base := (fb_base layer)[i := drm_fb_dma_get_gem_addr f new_state i]\<rparr>;
          w = regmap_write rm w (fb_addr p ! i) (ucast (fb_base layer ! i));
          w = regmap_write rm w (fb_stride p ! i) (pitches f ! i)
      in (layer, w))"

definition ma35_layer_size :: "drm_framebuffer \<Rightarrow> u32" where
  "ma35_layer_size f = FIELD_PREP MA35_LAYER_FB_HEIGHT (fb_height f) OR
     FIELD_PREP MA35_LAYER_FB_WIDTH (fb_width f)"

definition ma35_primary_update :: "'w regmap_api \<Rightarrow> u32 \<Rightarrow> drm_framebuffer \<Rightarrow> 'w \<Rightarrow> 'w" where
  "ma35_primary_update rm format f w =
     (let reg = FIELD_PREP MA35_PRIMARY_FORMAT_MASK format OR MA35_PRIMARY_RESET OR MA35_PRIMARY_ENABLE;
          w = regmap_write rm w MA35_FRAMEBUFFER_CONFIG reg;
          reg = ma35_layer_size f;
          w = regmap_write rm w MA35_FRAMEBUFFER_SIZE reg
      in regmap_write rm w MA35_FRAMEBUFFER_CLEARVALUE 0)"

text \<open>The overlay's variable \<open>reg\<close> still holds the size where no blend mode is chosen.\<close>

definition ma35_overlay_update ::
    "blend_hdr \<Rightarrow> 'w regmap_api \<Rightarrow> u32 \<Rightarrow> drm_framebuffer \<Rightarrow> drm_plane_state \<Rightarrow> 'w \<Rightarrow> 'w" where
  "ma35_overlay_update bh rm format f new_state w =
     (let reg = FIELD_PREP MA35_OVERLAY_FORMAT_MASK format OR MA35_OVERLAY_ENABLE;
          w = regmap_write rm w MA35_OVERLAY_CONFIG reg;
          reg = ma35_layer_size f;
          w = regmap_write rm w MA35_OVERLAY_SIZE reg;
          w = ma35_overlay_position_update rm (crtc_x new_state) (crtc_y new_state) (crtc_w new_state)
                (crtc_h new_state) w;
          w = (if fi_format (fb_format f) = DRM_FORMAT_ARGB8888
               then
                 let reg = (if pixel_blend_mode new_state AND
                                (DRM_MODE_BLEND_PREMULTI bh OR DRM_MODE_BLEND_COVERAGE bh) \<noteq> 0
                            then MA35_BLEND_MODE_SRC_OVER else reg);
                     reg = (if pixel_blend_mode new_state AND DRM_MODE_BLEND_COVERAGE bh \<noteq> 0
                            then reg OR MA35_SRC_ALPHA_FACTOR_EN else reg)
                 in regmap_write rm w MA35_OVERLAY_ALPHA_BLEND_CONFIG reg
               else regmap_update_bits rm w MA35_OVERLAY_ALPHA_BLEND_CONFIG MA35_ALPHA_BLEND_DISABLE
                      MA35_ALPHA_BLEND_DISABLE)
      in regmap_write rm w MA35_OVERLAY_CLEAR_VALUE 0)"

definition ma35_plane_atomic_update ::
    "blend_hdr \<Rightarrow> 'w regmap_api \<Rightarrow> ma35_layer \<Rightarrow> drm_plane_state \<Rightarrow> 'w \<Rightarrow> (ma35_layer \<times> 'w) option" where
  "ma35_plane_atomic_update bh rm layer new_state w = (case fb new_state of
     None \<Rightarrow> None
   | Some f \<Rightarrow> (case snd (ma35_layer_format_validate (fi_format (fb_format f))) of
       None \<Rightarrow> None
     | Some format \<Rightarrow>
         let type = plane_type (lay_plane layer);
             w = (if type = DRM_PLANE_TYPE_PRIMARY then ma35_primary_update rm format f w
                  else if type = DRM_PLANE_TYPE_OVERLAY then ma35_overlay_update bh rm format f new_state w
                  else w)
         in Some (fold (ma35_write_plane rm (ma35_plane_properties type) f new_state)
                    [0..<num_planes (fb_format f)] (layer, w))))"

definition ma35_plane_atomic_disable :: "'w regmap_api \<Rightarrow> 'w \<Rightarrow> 'w" where
  "ma35_plane_atomic_disable rm w =
     regmap_update_bits rm w MA35_FRAMEBUFFER_CONFIG MA35_PRIMARY_ENABLE 0"

section \<open>The cursor\<close>

datatype ma35_cursor_formats_enum =
  MA35_CURSOR_FORMAT_DISABLE | MA35_CURSOR_FORMAT_MASKED | MA35_CURSOR_FORMAT_A8R8G8B8

fun ma35_cursor_format_val :: "ma35_cursor_formats_enum \<Rightarrow> u32" where
  "ma35_cursor_format_val MA35_CURSOR_FORMAT_DISABLE = 0"
| "ma35_cursor_format_val MA35_CURSOR_FORMAT_MASKED = 1"
| "ma35_cursor_format_val MA35_CURSOR_FORMAT_A8R8G8B8 = 2"

definition ma35_cursor_plane_atomic_disable :: "'w regmap_api \<Rightarrow> 'w \<Rightarrow> 'w" where
  "ma35_cursor_plane_atomic_disable rm w =
     regmap_update_bits rm w MA35_CURSOR_CONFIG MA35_CURSOR_FORMAT_MASK
       (ma35_cursor_format_val MA35_CURSOR_FORMAT_DISABLE)"

definition ma35_cursor_position_update :: "'w regmap_api \<Rightarrow> int \<Rightarrow> int \<Rightarrow> 'w \<Rightarrow> 'w" where
  "ma35_cursor_position_update rm x y w =
     (let x = clamp0 x;
          y = clamp0 y
      in regmap_write rm w MA35_CURSOR_LOCATION
           (FIELD_PREP MA35_CURSOR_X_MASK (word_of_int x) OR FIELD_PREP MA35_CURSOR_Y_MASK (word_of_int y)))"

definition ma35_cursor_hotspot :: "drm_plane_state \<Rightarrow> u32" where
  "ma35_cursor_hotspot new_state = ma35_cursor_format_val MA35_CURSOR_FORMAT_A8R8G8B8 OR
     FIELD_PREP MA35_CURSOR_HOTSPOT_X_MASK (word_of_int (hotspot_x new_state)) OR
     FIELD_PREP MA35_CURSOR_HOTSPOT_Y_MASK (word_of_int (hotspot_y new_state))"

text \<open>The part both updates share: \<open>old_fb\<close> and \<open>new_fb\<close> are the local variables of those names.\<close>

definition ma35_cursor_program ::
    "'w regmap_api \<Rightarrow> drm_framebuffer option \<Rightarrow> drm_framebuffer option \<Rightarrow> drm_plane_state \<Rightarrow> drm_plane_state \<Rightarrow>
     ma35_layer \<Rightarrow> 'w \<Rightarrow> (ma35_layer \<times> 'w) option" where
  "ma35_cursor_program rm old_fb new_fb old_state new_state layer w =
     (let w = ma35_cursor_position_update rm (crtc_x new_state) (crtc_y new_state) w;
          r = (if old_fb = None \<or> map_option fb_id old_fb \<noteq> map_option fb_id new_fb
               then (case new_fb of
                  None \<Rightarrow> None
                | Some f \<Rightarrow>
                    let layer = layer\<lparr>fb_base := (fb_base layer)[0 := drm_fb_dma_get_gem_addr f new_state 0]\<rparr>;
                        w = regmap_write rm w MA35_CURSOR_ADDRESS (ucast (fb_base layer ! 0));
                        w = regmap_update_bits rm w MA35_CURSOR_CONFIG MA35_CURSOR_FORMAT_MASK
                              (ma35_cursor_format_val MA35_CURSOR_FORMAT_A8R8G8B8)
                    in Some (layer, w))
               else Some (layer, w))
      in case r of
           None \<Rightarrow> None
         | Some (layer, w) \<Rightarrow>
             if hotspot_x old_state \<noteq> hotspot_x new_state \<or> hotspot_y old_state \<noteq> hotspot_y new_state
             then Some (layer, regmap_write rm w MA35_CURSOR_CONFIG (ma35_cursor_hotspot new_state))
             else Some (layer, w))"

definition ma35_cursor_plane_atomic_update ::
    "'w regmap_api \<Rightarrow> ma35_layer \<Rightarrow> drm_plane_state \<Rightarrow> drm_plane_state \<Rightarrow> 'w \<Rightarrow> (ma35_layer \<times> 'w) option" where
  "ma35_cursor_plane_atomic_update rm layer old_state new_state w =
     (if \<not> visible new_state then Some (layer, ma35_cursor_plane_atomic_disable rm w)
      else ma35_cursor_program rm (fb old_state) (fb new_state) old_state new_state layer w)"

text \<open>The asynchronous update changes the current state in place and swaps its two local pointers.\<close>

definition ma35_cursor_plane_atomic_async_update ::
    "'w regmap_api \<Rightarrow> ma35_layer \<Rightarrow> drm_plane_state \<Rightarrow> drm_plane_state \<Rightarrow> 'w \<Rightarrow>
     (drm_plane_state \<times> ma35_layer \<times> 'w) option" where
  "ma35_cursor_plane_atomic_async_update rm layer old_state new_state w =
     (let (old_fb, new_fb) = (fb old_state, fb new_state);
          old_state = old_state\<lparr>crtc_x := crtc_x new_state, crtc_y := crtc_y new_state,
            crtc_h := crtc_h new_state, crtc_w := crtc_w new_state, src_x := src_x new_state,
            src_y := src_y new_state, src_h := src_h new_state, src_w := src_w new_state\<rparr>;
          (old_fb, new_fb) = (new_fb, old_fb)
      in if \<not> visible new_state then Some (old_state, layer, ma35_cursor_plane_atomic_disable rm w)
         else case ma35_cursor_program rm old_fb new_fb old_state new_state layer w of
                None \<Rightarrow> None
              | Some (layer, w) \<Rightarrow>
                  Some (if hotspot_x old_state \<noteq> hotspot_x new_state \<or> hotspot_y old_state \<noteq> hotspot_y new_state
                        then old_state\<lparr>hotspot_x := hotspot_x new_state, hotspot_y := hotspot_y new_state\<rparr>
                        else old_state, layer, w))"

text \<open>
  The loop body of \<open>drm_atomic_helper_async_commit\<close>, with the driver's hook as an argument: the new current
  state and whether one of the warnings of the core about it fires.
\<close>

definition drm_atomic_helper_async_commit_plane ::
    "(drm_plane_state \<Rightarrow> drm_plane_state \<Rightarrow> 'w \<Rightarrow> (drm_plane_state \<times> drm_plane_state \<times> 'w) option) \<Rightarrow>
     drm_plane_state \<Rightarrow> drm_plane_state \<Rightarrow> 'w \<Rightarrow> (bool \<times> drm_plane_state \<times> 'w) option" where
  "drm_atomic_helper_async_commit_plane hook cur plane_state w =
     (let new_fb = map_option fb_id (fb plane_state);
          old_fb = map_option fb_id (fb cur)
      in case hook cur plane_state w of
           None \<Rightarrow> None
         | Some (cur, plane_state, w) \<Rightarrow>
             Some (map_option fb_id (fb cur) \<noteq> new_fb \<or> crtc_x cur \<noteq> crtc_x plane_state \<or>
                   crtc_y cur \<noteq> crtc_y plane_state \<or> src_x cur \<noteq> src_x plane_state \<or>
                   src_y cur \<noteq> src_y plane_state \<or> map_option fb_id (fb plane_state) \<noteq> old_fb, cur, w))"

section \<open>Properties and creation\<close>

datatype plane_prop = HOTSPOT_X | HOTSPOT_Y | PROP_other nat

definition ma35_plane_set_property :: "drm_plane_state \<Rightarrow> plane_prop \<Rightarrow> u64 \<Rightarrow> int \<times> drm_plane_state" where
  "ma35_plane_set_property state property val =
     (if property = HOTSPOT_X then (0, state\<lparr>hotspot_x := wrap32 (uint val)\<rparr>)
      else if property = HOTSPOT_Y then (0, state\<lparr>hotspot_y := wrap32 (uint val)\<rparr>)
      else (- EINVAL, state))"

definition ma35_plane_get_property :: "drm_plane_state \<Rightarrow> plane_prop \<Rightarrow> int + u64" where
  "ma35_plane_get_property state property =
     (if property = HOTSPOT_X then Inr (word_of_int (hotspot_x state))
      else if property = HOTSPOT_Y then Inr (word_of_int (hotspot_y state))
      else Inl (- EINVAL))"

text \<open>\<open>blend_ret\<close> is the result of creating the blend mode property.\<close>

definition ma35_layer_create_properties :: "int \<Rightarrow> drm_plane_type \<Rightarrow> int" where
  "ma35_layer_create_properties blend_ret type = (if prop_alpha (ma35_plane_properties type) then blend_ret else 0)"

fun ma35_layer_get_from_type :: "ma35_layer list \<Rightarrow> drm_plane_type \<Rightarrow> ma35_layer option" where
  "ma35_layer_get_from_type [] type = None"
| "ma35_layer_get_from_type (l # ls) type =
     (if plane_type (lay_plane l) = type then Some l else ma35_layer_get_from_type ls type)"

text \<open>Creating a layer: \<open>alloc\<close> and \<open>init\<close> are the outcomes of the allocation and of the plane's registration.\<close>

definition ma35_layer_create ::
    "(drm_plane_type \<Rightarrow> bool) \<Rightarrow> (drm_plane_type \<Rightarrow> int) \<Rightarrow> ma35_layer list \<Rightarrow> u32 \<Rightarrow> drm_plane_type \<Rightarrow>
     int \<times> ma35_layer list" where
  "ma35_layer_create alloc init layers index type =
     (if \<not> alloc type then (- ENOMEM, layers)
      else if init type \<noteq> 0 then (init type, layers)
      else
        let fmts = (if type = DRM_PLANE_TYPE_CURSOR then ma35_cursor_formats else ma35_layer_formats)
        in (0, layers @ [\<lparr>lay_plane = \<lparr>plane_type = type, possible_crtcs = {MA35_DEFAULT_CRTC_ID},
                             format_types = fmts, modifiers = [], format_mod_supported = None\<rparr>,
                           lay_zpos = index, fb_base = [0, 0, 0]\<rparr>]))"

definition ma35_overlay_attach_crtc :: "nat \<Rightarrow> ma35_layer list \<Rightarrow> ma35_layer list" where
  "ma35_overlay_attach_crtc crtc_index layers =
     map (\<lambda>l. if plane_type (lay_plane l) \<noteq> DRM_PLANE_TYPE_OVERLAY then l
              else l\<lparr>lay_plane := (lay_plane l)\<lparr>possible_crtcs := {crtc_index}\<rparr>\<rparr>) layers"

definition ma35_plane_init ::
    "(drm_plane_type \<Rightarrow> bool) \<Rightarrow> (drm_plane_type \<Rightarrow> int) \<Rightarrow> ma35_layer list \<Rightarrow> int \<times> ma35_layer list" where
  "ma35_plane_init alloc init layers =
     (let (ret, layers) = ma35_layer_create alloc init layers 0 DRM_PLANE_TYPE_PRIMARY
      in if ret \<noteq> 0 then (ret, layers)
         else
           let (ret, layers) = ma35_layer_create alloc init layers 1 DRM_PLANE_TYPE_OVERLAY
           in if ret \<noteq> 0 then (ret, layers)
              else ma35_layer_create alloc init layers 2 DRM_PLANE_TYPE_CURSOR)"

section \<open>Lemmas\<close>

lemma FIELD_PREP_pair:
  assumes "h < l'" "l' \<le> h'" "h' < 32" "unat a < 2 ^ Suc h" "unat b < 2 ^ (Suc h' - l')"
  shows "FIELD_PREP (GENMASK h 0) a OR FIELD_PREP (GENMASK h' l') b = a OR push_bit l' b"
    "FIELD_PREP (GENMASK h' l') b OR FIELD_PREP (GENMASK h 0) a = a OR push_bit l' b"
proof -
  have a: "n \<le> h" if "bit a n" for n using bit_small [OF assms(4) that] by simp
  have b: "n + l' \<le> h'" if "bit b n" for n using bit_small [OF assms(5) that] by simp
  have b': "n \<le> h'" if "bit b (n - l')" "l' \<le> n" for n using b [OF that(1)] that(2) by simp
  show "FIELD_PREP (GENMASK h 0) a OR FIELD_PREP (GENMASK h' l') b = a OR push_bit l' b"
    by (rule bit_word_eqI) (use assms a b' in \<open>auto simp: regfield\<close>)
  then show "FIELD_PREP (GENMASK h' l') b OR FIELD_PREP (GENMASK h 0) a = a OR push_bit l' b"
    by (simp add: or.commute)
qed

lemma layer_size_fields:
  assumes "uint (fb_width f) < 2 ^ 15" "uint (fb_height f) < 2 ^ 15"
  shows "FIELD_GET MA35_LAYER_FB_WIDTH (ma35_layer_size f) = fb_width f"
    "FIELD_GET MA35_LAYER_FB_HEIGHT (ma35_layer_size f) = fb_height f"
proof -
  have "unat (fb_width f) < 2 ^ 15" "unat (fb_height f) < 2 ^ 15"
    using assms by (simp_all add: unat_eq_nat_uint nat_less_iff del: nat_uint_eq)
  then show "FIELD_GET MA35_LAYER_FB_WIDTH (ma35_layer_size f) = fb_width f"
    "FIELD_GET MA35_LAYER_FB_HEIGHT (ma35_layer_size f) = fb_height f"
    using FIELD_PREP_pair [of 14 15 29 "fb_width f" "fb_height f"] FIELD_GET_pair [of "fb_width f" 14 15 29 "fb_height f"]
    by (simp_all add: ma35_layer_size_def ma_field)
qed

text \<open>The registers of the memory planes: addresses and strides, all different.\<close>

lemma plane_regs_distinct:
  "t \<noteq> DRM_PLANE_TYPE_CURSOR \<Longrightarrow>
   distinct (fb_addr (ma35_plane_properties t) @ fb_stride (ma35_plane_properties t))"
  by (cases t) (simp_all add: ma_addr)

lemma plane_regs_length: "length (fb_addr (ma35_plane_properties t)) = 3" "length (fb_stride (ma35_plane_properties t)) = 3"
  by (cases t; simp)+

lemma fold_write_planes:
  assumes rm: "regmap_laws rm regs" and d: "distinct (fb_addr p @ fb_stride p)"
    and l: "length (fb_addr p) = 3" "length (fb_stride p) = 3" "length (fb_base layer) = 3" and n: "n \<le> 3"
    and r: "fold (ma35_write_plane rm p f st) [0..<n] (layer, w) = (layer', w')"
  shows "(\<forall>i < n. regs w' (fb_addr p ! i) = ucast (drm_fb_dma_get_gem_addr f st i) \<and>
      regs w' (fb_stride p ! i) = pitches f ! i \<and> fb_base layer' ! i = drm_fb_dma_get_gem_addr f st i) \<and>
    (\<forall>a. a \<notin> set (fb_addr p) \<union> set (fb_stride p) \<longrightarrow> regs w' a = regs w a) \<and>
    lay_plane layer' = lay_plane layer \<and> length (fb_base layer') = 3"
  using n r
proof (induction n arbitrary: layer' w')
  case (Suc n)
  obtain l1 w1 where 1: "fold (ma35_write_plane rm p f st) [0..<n] (layer, w) = (l1, w1)" by fastforce
  note ih = Suc.IH [OF _ 1] and W = regmap_laws.regs_write [OF rm]
  let ?a = "drm_fb_dma_get_gem_addr f st n"
  have step: "ma35_write_plane rm p f st n (l1, w1) = (layer', w')" using Suc.prems(2) 1 by simp
  have s: "layer' = l1\<lparr>fb_base := (fb_base l1)[n := ?a]\<rparr>"
    "regs w' = (regs w1)(fb_addr p ! n := ucast ?a, fb_stride p ! n := pitches f ! n)"
    using step ih Suc.prems(1) by (auto simp: ma35_write_plane_def Let_def W)
  have ne: "fb_addr p ! i \<noteq> fb_stride p ! j" if "i < 3" "j < 3" for i j
    using d l(1,2) that nth_mem [of i "fb_addr p"] nth_mem [of j "fb_stride p"]
    by (metis disjoint_iff distinct_append)
  have nea: "fb_addr p ! i \<noteq> fb_addr p ! n \<and> fb_stride p ! i \<noteq> fb_stride p ! n" if "i < n" for i
    using d l(1,2) that Suc.prems(1) by (simp add: nth_eq_iff_index_eq)
  have mem: "fb_addr p ! n \<in> set (fb_addr p)" "fb_stride p ! n \<in> set (fb_stride p)"
    using l Suc.prems(1) by simp_all
  show ?case
    unfolding s using ih Suc.prems(1) ne [of n n] ne [of _ n] ne [of n, symmetric] nea mem
    by (auto simp: less_Suc_eq nth_list_update)
qed (use l in auto)

section \<open>Formats\<close>

lemma format_validate_cases:
  "ma35_layer_format_validate f = (r, c) \<Longrightarrow>
   (r = 0 \<and> f \<in> set ma35_layer_formats \<and> (\<exists>e. ma35_layer_format_of f = Some e \<and> c = Some (ma35_format_val e))) \<or>
   (r = - EINVAL \<and> c = None \<and> f \<notin> set ma35_layer_formats)"
  by (cases f) (auto simp: ma35_layer_format_validate_def ma35_layer_format_of_def ma35_layer_formats_def)

lemma format_val_small: "unat (ma35_format_val e) < 2 ^ 6"
  by (cases e) simp_all

lemma format_val_inj: "ma35_format_val a = ma35_format_val b \<Longrightarrow> a = b"
  by (cases a; cases b; simp)

lemma format_of_inj: "ma35_layer_format_of f = Some e \<Longrightarrow> ma35_layer_format_of g = Some e \<Longrightarrow> f = g"
  by (cases e; cases f; simp add: ma35_layer_format_of_def; cases g; simp)

lemma ma35_format_code_small: "ma35_layer_format_validate f = (0, Some c) \<Longrightarrow> unat c < 2 ^ 6"
  using format_validate_cases [of f 0 "Some c"] format_val_small by (auto simp: errno_defs)

text \<open>The formats of the MA35 driver: the validation accepts exactly the formats the planes advertise, every
  accepted format has a code that fits the six-bit fields of both layers, and different formats have different
  codes.\<close>

theorem ma35_format_validate_exact:
  "(fst (ma35_layer_format_validate f) = 0 \<longleftrightarrow> f \<in> set ma35_layer_formats) \<and>
   (\<forall>c. ma35_layer_format_validate f = (0, Some c) \<longrightarrow>
      unat c < 2 ^ 6 \<and> (ma35_layer_format_validate g = (0, Some c) \<longrightarrow> f = g))"
proof -
  obtain r c where v: "ma35_layer_format_validate f = (r, c)" by fastforce
  obtain r' c' where v': "ma35_layer_format_validate g = (r', c')" by fastforce
  show ?thesis
    using format_validate_cases [OF v] format_validate_cases [OF v'] v v' format_val_small
    by (auto simp: errno_defs dest!: format_val_inj dest: format_of_inj)
qed

theorem ma35_format_validate_exact_witness:
  "ma35_layer_format_validate DRM_FORMAT_NV12 = (0, Some 13) \<and> unat (13 :: u32) < 2 ^ 6 \<and>
   DRM_FORMAT_NV12 \<in> set ma35_layer_formats"
proof -
  have "ma35_layer_format_validate DRM_FORMAT_NV12 = (0, Some 13)" by code_simp
  then show ?thesis using ma35_format_validate_exact [of DRM_FORMAT_NV12 DRM_FORMAT_NV12] by simp
qed

section \<open>Primary and overlay\<close>

text \<open>The registers an update of a layer may write.\<close>

definition ma35_layer_regs :: "drm_plane_type \<Rightarrow> u32 set" where
  "ma35_layer_regs t = set (fb_addr (ma35_plane_properties t)) \<union> set (fb_stride (ma35_plane_properties t)) \<union>
     (case t of
        DRM_PLANE_TYPE_PRIMARY \<Rightarrow> {MA35_FRAMEBUFFER_CONFIG, MA35_FRAMEBUFFER_SIZE, MA35_FRAMEBUFFER_CLEARVALUE}
      | DRM_PLANE_TYPE_OVERLAY \<Rightarrow> {MA35_OVERLAY_CONFIG, MA35_OVERLAY_SIZE, MA35_OVERLAY_TL, MA35_OVERLAY_BR,
          MA35_OVERLAY_ALPHA_BLEND_CONFIG, MA35_OVERLAY_CLEAR_VALUE}
      | DRM_PLANE_TYPE_CURSOR \<Rightarrow> {})"

lemma layer_regs_disjoint:
  "ma35_layer_regs DRM_PLANE_TYPE_PRIMARY \<inter> ma35_layer_regs DRM_PLANE_TYPE_OVERLAY = {}"
  by (simp add: ma35_layer_regs_def ma_addr)

lemma ma35_primary_update_regs:
  assumes "regmap_laws rm regs"
  shows "regs (ma35_primary_update rm format f w) = (regs w)(
     MA35_FRAMEBUFFER_CONFIG := FIELD_PREP MA35_PRIMARY_FORMAT_MASK format OR MA35_PRIMARY_RESET OR
       MA35_PRIMARY_ENABLE,
     MA35_FRAMEBUFFER_SIZE := ma35_layer_size f, MA35_FRAMEBUFFER_CLEARVALUE := 0)"
  by (simp add: ma35_primary_update_def Let_def regmap_laws.regs_write [OF assms])

lemma ma35_overlay_update_regs:
  assumes "regmap_laws rm regs"
  shows "regs (ma35_overlay_update bh rm format f st w) MA35_OVERLAY_CONFIG =
      FIELD_PREP MA35_OVERLAY_FORMAT_MASK format OR MA35_OVERLAY_ENABLE"
    "regs (ma35_overlay_update bh rm format f st w) MA35_OVERLAY_SIZE = ma35_layer_size f"
    "a \<notin> ma35_layer_regs DRM_PLANE_TYPE_OVERLAY \<Longrightarrow> regs (ma35_overlay_update bh rm format f st w) a = regs w a"
  by (simp_all add: ma35_overlay_update_def ma35_overlay_position_update_def Let_def
      regmap_laws.regs_write [OF assms] regmap_laws.regs_update_bits [OF assms] ma35_layer_regs_def)
    (simp_all add: ma_addr)

lemma prep_or_bits:
  assumes "l \<le> h" "h < 32" "unat v < 2 ^ (Suc h - l)" "i < l \<or> h < i" "j < l \<or> h < j" "i < 32" "j < 32"
  shows "FIELD_GET (GENMASK h l) (FIELD_PREP (GENMASK h l) v OR BIT i OR BIT j) = v"
    "bit (FIELD_PREP (GENMASK h l) v OR BIT i OR BIT j) j"
proof -
  have "FIELD_GET (GENMASK h l) (FIELD_PREP (GENMASK h l) v OR (BIT i OR BIT j)) = take_bit (Suc h - l) v"
    by (rule FIELD_GET_PREP_or [OF assms(1,2)], rule bit_word_eqI) (use assms(4,5) in \<open>auto simp: regfield\<close>)
  then show "FIELD_GET (GENMASK h l) (FIELD_PREP (GENMASK h l) v OR BIT i OR BIT j) = v"
    using take_bit_u32_small [OF assms(3)] by (simp add: or.assoc)
  show "bit (FIELD_PREP (GENMASK h l) v OR BIT i OR BIT j) j" using assms by (simp add: regfield)
qed

text \<open>The configuration register of a layer, the mask of its format field and its enable bit.\<close>

definition ma35_layer_config :: "drm_plane_type \<Rightarrow> u32 \<times> u32 \<times> nat \<times> u32" where
  "ma35_layer_config t = (if t = DRM_PLANE_TYPE_PRIMARY
     then (MA35_FRAMEBUFFER_CONFIG, MA35_PRIMARY_FORMAT_MASK, 0, MA35_FRAMEBUFFER_SIZE)
     else (MA35_OVERLAY_CONFIG, MA35_OVERLAY_FORMAT_MASK, 24, MA35_OVERLAY_SIZE))"

text \<open>What an update leaves: the fixed part of the layer first, then one address and stride per memory plane.\<close>

lemma plane_update_parts:
  assumes rm: "regmap_laws rm regs" and ty: "plane_type (lay_plane layer) = t" "t \<noteq> DRM_PLANE_TYPE_CURSOR"
    and f: "fb st = Some f" "ma35_layer_format_validate (fi_format (fb_format f)) = (0, Some c)"
    and n: "num_planes (fb_format f) \<le> 3" "length (fb_base layer) = 3"
  obtains layer' w1 w' where "ma35_plane_atomic_update bh rm layer st w = Some (layer', w')"
    "w1 = (if t = DRM_PLANE_TYPE_PRIMARY then ma35_primary_update rm c f w else ma35_overlay_update bh rm c f st w)"
    "\<forall>i < num_planes (fb_format f).
       regs w' (fb_addr (ma35_plane_properties t) ! i) = ucast (drm_fb_dma_get_gem_addr f st i) \<and>
       regs w' (fb_stride (ma35_plane_properties t) ! i) = pitches f ! i \<and>
       fb_base layer' ! i = drm_fb_dma_get_gem_addr f st i"
    "\<And>a. a \<notin> set (fb_addr (ma35_plane_properties t)) \<union> set (fb_stride (ma35_plane_properties t)) \<Longrightarrow>
       regs w' a = regs w1 a"
proof -
  define w1 where "w1 = (if t = DRM_PLANE_TYPE_PRIMARY then ma35_primary_update rm c f w
    else ma35_overlay_update bh rm c f st w)"
  obtain layer' w' where r: "fold (ma35_write_plane rm (ma35_plane_properties t) f st)
      [0..<num_planes (fb_format f)] (layer, w1) = (layer', w')" by fastforce
  have t: "t = DRM_PLANE_TYPE_PRIMARY \<or> t = DRM_PLANE_TYPE_OVERLAY" using ty(2) by (cases t) auto
  have u: "ma35_plane_atomic_update bh rm layer st w = Some (layer', w')"
    using r f t ty(1) by (auto simp: ma35_plane_atomic_update_def w1_def Let_def)
  note fp = fold_write_planes [OF rm plane_regs_distinct [OF ty(2)] plane_regs_length n(2,1) r]
  show thesis by (rule that [OF u w1_def]) (use fp in blast)+
qed

text \<open>C24: An update of the primary or the overlay layer with a format that passed validation: the format code and
  the enable bit are in the layer's configuration, the framebuffer's size in its size register, and for every
  memory plane of the format the (32-bit) bus address and the pitch are in that plane's registers and the
  address is remembered; no register outside the layer's own is written.\<close>

theorem ma35_plane_update_programs:
  assumes "regmap_laws rm regs" "plane_type (lay_plane layer) = t" "t \<noteq> DRM_PLANE_TYPE_CURSOR"
    and "fb st = Some f" "ma35_layer_format_validate (fi_format (fb_format f)) = (0, Some c)"
    and "num_planes (fb_format f) \<le> 3" "length (fb_base layer) = 3"
    and "uint (fb_width f) < 2 ^ 15" "uint (fb_height f) < 2 ^ 15"
    and "ma35_layer_config t = (cfg, m, en, sz)"
  shows "\<exists>layer' w'. ma35_plane_atomic_update bh rm layer st w = Some (layer', w') \<and>
    FIELD_GET m (regs w' cfg) = c \<and> bit (regs w' cfg) en \<and>
    FIELD_GET MA35_LAYER_FB_WIDTH (regs w' sz) = fb_width f \<and>
    FIELD_GET MA35_LAYER_FB_HEIGHT (regs w' sz) = fb_height f \<and>
    (\<forall>i < num_planes (fb_format f).
       regs w' (fb_addr (ma35_plane_properties t) ! i) = ucast (drm_fb_dma_get_gem_addr f st i) \<and>
       regs w' (fb_stride (ma35_plane_properties t) ! i) = pitches f ! i \<and>
       fb_base layer' ! i = drm_fb_dma_get_gem_addr f st i) \<and>
    (\<forall>a. a \<notin> ma35_layer_regs t \<longrightarrow> regs w' a = regs w a)"
proof -
  obtain layer' w1 w' where u: "ma35_plane_atomic_update bh rm layer st w = Some (layer', w')"
    and w1: "w1 = (if t = DRM_PLANE_TYPE_PRIMARY then ma35_primary_update rm c f w
      else ma35_overlay_update bh rm c f st w)"
    and pl: "\<forall>i < num_planes (fb_format f).
       regs w' (fb_addr (ma35_plane_properties t) ! i) = ucast (drm_fb_dma_get_gem_addr f st i) \<and>
       regs w' (fb_stride (ma35_plane_properties t) ! i) = pitches f ! i \<and>
       fb_base layer' ! i = drm_fb_dma_get_gem_addr f st i"
    and fr: "\<And>a. a \<notin> set (fb_addr (ma35_plane_properties t)) \<union> set (fb_stride (ma35_plane_properties t)) \<Longrightarrow>
       regs w' a = regs w1 a"
    by (rule plane_update_parts [OF assms(1-7), where bh = bh and w = w]) (rule that)
  have c: "unat c < 2 ^ 6" using ma35_format_code_small [OF assms(5)] .
  note s = layer_size_fields [OF assms(8,9)]
  have cfg: "FIELD_GET m (regs w' cfg) = c \<and> bit (regs w' cfg) en \<and> regs w' sz = ma35_layer_size f \<and>
      (\<forall>a. a \<notin> ma35_layer_regs t \<longrightarrow> regs w1 a = regs w a)"
  proof (cases t)
    case DRM_PLANE_TYPE_PRIMARY
    have "regs w' MA35_FRAMEBUFFER_CONFIG = regs w1 MA35_FRAMEBUFFER_CONFIG"
      "regs w' MA35_FRAMEBUFFER_SIZE = regs w1 MA35_FRAMEBUFFER_SIZE"
      by (rule fr, simp add: DRM_PLANE_TYPE_PRIMARY ma_addr)+
    then show ?thesis
      using assms(10) w1 prep_or_bits [of 26 31 c 4 0] c
      by (auto simp: DRM_PLANE_TYPE_PRIMARY ma35_layer_config_def ma35_primary_update_regs [OF assms(1)] ma_field
          ma35_layer_regs_def) (auto simp: ma_addr)
  next
    case DRM_PLANE_TYPE_OVERLAY
    have "regs w' MA35_OVERLAY_CONFIG = regs w1 MA35_OVERLAY_CONFIG"
      "regs w' MA35_OVERLAY_SIZE = regs w1 MA35_OVERLAY_SIZE"
      by (rule fr, simp add: DRM_PLANE_TYPE_OVERLAY ma_addr)+
    then show ?thesis
      using assms(10) w1 prep_or_bits [of 16 21 c 24 24] c
      by (auto simp: DRM_PLANE_TYPE_OVERLAY ma35_layer_config_def ma35_overlay_update_regs [OF assms(1)] ma_field)
  qed (use assms(3) in simp)
  have "regs w' a = regs w a" if "a \<notin> ma35_layer_regs t" for a
    using fr [of a] cfg that by (auto simp: ma35_layer_regs_def)
  then show ?thesis using u cfg pl s by auto
qed

definition ma35_test_layer :: "drm_plane_type \<Rightarrow> ma35_layer" where
  "ma35_test_layer t = \<lparr>lay_plane = \<lparr>plane_type = t, possible_crtcs = {0}, format_types = ma35_layer_formats,
     modifiers = [], format_mod_supported = None\<rparr>, lay_zpos = 0, fb_base = [0, 0, 0]\<rparr>"

definition blend_hdr_c :: blend_hdr where
  "blend_hdr_c = \<lparr>DRM_MODE_BLEND_PREMULTI = 0, DRM_MODE_BLEND_COVERAGE = 1\<rparr>"

theorem ma35_plane_update_programs_witness:
  "\<exists>layer' w'. ma35_plane_atomic_update blend_hdr_c board_regmap (ma35_test_layer DRM_PLANE_TYPE_PRIMARY)
      (example_state\<lparr>fb := Some example_fb\<rparr>) board_init = Some (layer', w') \<and>
    FIELD_GET MA35_PRIMARY_FORMAT_MASK (bd_regs w' MA35_FRAMEBUFFER_CONFIG) = 5 \<and>
    bd_regs w' MA35_FRAMEBUFFER_STRIDE = 400 \<and>
    bd_regs w' MA35_OVERLAY_CONFIG = bd_regs board_init MA35_OVERLAY_CONFIG"
proof -
  let ?l = "ma35_test_layer DRM_PLANE_TYPE_PRIMARY" and ?st = "example_state\<lparr>fb := Some example_fb\<rparr>"
  have 1: "plane_type (lay_plane ?l) = DRM_PLANE_TYPE_PRIMARY" "length (fb_base ?l) = 3"
    by (simp_all add: ma35_test_layer_def)
  have 2: "fb ?st = Some example_fb" by simp
  have 3: "ma35_layer_format_validate (fi_format (fb_format example_fb)) = (0, Some 5)" by code_simp
  have 4: "num_planes (fb_format example_fb) \<le> 3" "uint (fb_width example_fb) < 2 ^ 15"
    "uint (fb_height example_fb) < 2 ^ 15" "num_planes (fb_format example_fb) = 1" "pitches example_fb ! 0 = 400"
    by (simp_all add: example_fb_def xrgb_info_def)
  have o: "MA35_OVERLAY_CONFIG \<notin> ma35_layer_regs DRM_PLANE_TYPE_PRIMARY"
    by (simp add: ma35_layer_regs_def ma_addr)
  have c: "ma35_layer_config DRM_PLANE_TYPE_PRIMARY =
    (MA35_FRAMEBUFFER_CONFIG, MA35_PRIMARY_FORMAT_MASK, 0, MA35_FRAMEBUFFER_SIZE)"
    by (simp add: ma35_layer_config_def)
  show ?thesis
    using ma35_plane_update_programs [OF bd.regmap_laws_axioms 1(1) _ 2 3 4(1) 1(2) 4(2,3) c, of blend_hdr_c board_init]
      4(4,5) o by auto
qed

text \<open>
  The disable hook of both layers clears the enable bit of the primary: an overlay that is turned off stays
  enabled and the primary goes dark.
\<close>

lemma ma35_overlay_disable_wrong_layer:
  assumes rm: "regmap_laws rm regs" and "plane_type (lay_plane layer) = DRM_PLANE_TYPE_OVERLAY"
    and "fb st = Some f" "ma35_layer_format_validate (fi_format (fb_format f)) = (0, Some c)"
    and "num_planes (fb_format f) \<le> 3" "length (fb_base layer) = 3"
    and u: "ma35_plane_atomic_update bh rm layer st w = Some (layer', w')"
  shows "bit (regs (ma35_plane_atomic_disable rm w') MA35_OVERLAY_CONFIG) 24"
    "\<not> bit (regs (ma35_plane_atomic_disable rm w') MA35_FRAMEBUFFER_CONFIG) 0"
proof -
  obtain w1 where w1: "w1 = ma35_overlay_update bh rm c f st w"
    and fr: "a \<notin> set (fb_addr (ma35_plane_properties DRM_PLANE_TYPE_OVERLAY)) \<union>
       set (fb_stride (ma35_plane_properties DRM_PLANE_TYPE_OVERLAY)) \<Longrightarrow> regs w' a = regs w1 a" for a
  proof (rule plane_update_parts [OF assms(1,2) _ assms(3-6), where bh = bh and w = w])
  qed (use u that in auto)
  have "regs w' MA35_OVERLAY_CONFIG = regs w1 MA35_OVERLAY_CONFIG" by (rule fr) (simp add: ma_addr)
  then show "bit (regs (ma35_plane_atomic_disable rm w') MA35_OVERLAY_CONFIG) 24"
    using ma35_overlay_update_regs(1) [OF rm, of bh c f st w]
    by (simp add: ma35_plane_atomic_disable_def regmap_laws.regs_update_bits [OF rm] w1 ma_addr ma_field bit_or_iff bit_BIT)
  show "\<not> bit (regs (ma35_plane_atomic_disable rm w') MA35_FRAMEBUFFER_CONFIG) 0"
    by (simp add: ma35_plane_atomic_disable_def regmap_laws.regs_update_bits [OF rm] ma_field bit_and_iff bit_not_iff bit_BIT)
qed

text \<open>
  The blend mode values are numbers, not bits: with the values the header documents (0 and 1) the default mode of
  an overlay, pre-multiplied, matches no bit, and the blend register is given the framebuffer's size.
\<close>

lemma ma35_overlay_premulti_blend:
  assumes rm: "regmap_laws rm regs" and "DRM_MODE_BLEND_PREMULTI bh = 0" "DRM_MODE_BLEND_COVERAGE bh = 1"
    and "pixel_blend_mode st = DRM_MODE_BLEND_PREMULTI bh" "fi_format (fb_format f) = DRM_FORMAT_ARGB8888"
  shows "regs (ma35_overlay_update bh rm c f st w) MA35_OVERLAY_ALPHA_BLEND_CONFIG = ma35_layer_size f"
  using assms
  by (simp add: ma35_overlay_update_def Let_def regmap_laws.regs_write [OF rm] ma_addr)

section \<open>Cursor\<close>

lemma cursor_location_fields:
  assumes "0 \<le> x" "x < 2 ^ 15" "0 \<le> y" "y < 2 ^ 15"
  shows "FIELD_GET MA35_CURSOR_X_MASK (FIELD_PREP MA35_CURSOR_X_MASK (word_of_int x) OR
      FIELD_PREP MA35_CURSOR_Y_MASK (word_of_int y)) = word_of_int x"
    "FIELD_GET MA35_CURSOR_Y_MASK (FIELD_PREP MA35_CURSOR_X_MASK (word_of_int x) OR
      FIELD_PREP MA35_CURSOR_Y_MASK (word_of_int y)) = word_of_int y"
proof -
  have s: "unat (word_of_int z :: u32) < 2 ^ 15" if "0 \<le> z" "z < 2 ^ 15" for z
  proof -
    have "uint (word_of_int z :: u32) = z" using that by (simp add: uint_word_of_int)
    then show ?thesis using that by (simp add: unat_eq_nat_uint nat_less_iff del: nat_uint_eq)
  qed
  note xy = s [OF assms(1,2)] s [OF assms(3,4)]
  show "FIELD_GET MA35_CURSOR_X_MASK (FIELD_PREP MA35_CURSOR_X_MASK (word_of_int x) OR
      FIELD_PREP MA35_CURSOR_Y_MASK (word_of_int y)) = word_of_int x"
    "FIELD_GET MA35_CURSOR_Y_MASK (FIELD_PREP MA35_CURSOR_X_MASK (word_of_int x) OR
      FIELD_PREP MA35_CURSOR_Y_MASK (word_of_int y)) = word_of_int y"
    using FIELD_PREP_pair(1) [of 14 16 30 "word_of_int x" "word_of_int y"] FIELD_GET_pair [of "word_of_int x" 14 16 30 "word_of_int y"] xy
    by (simp_all add: ma_field)
qed

text \<open>
  The cursor registers show a state: its position, the address of its framebuffer, its hotspot, and the
  format that turns the cursor on.
\<close>

definition ma35_cursor_hot :: "(u32 \<Rightarrow> u32) \<Rightarrow> drm_plane_state \<Rightarrow> bool" where
  "ma35_cursor_hot r st \<longleftrightarrow>
     FIELD_GET MA35_CURSOR_HOTSPOT_X_MASK (r MA35_CURSOR_CONFIG) = word_of_int (hotspot_x st) \<and>
     FIELD_GET MA35_CURSOR_HOTSPOT_Y_MASK (r MA35_CURSOR_CONFIG) = word_of_int (hotspot_y st)"

definition ma35_cursor_on :: "(u32 \<Rightarrow> u32) \<Rightarrow> drm_framebuffer \<Rightarrow> drm_plane_state \<Rightarrow> bool" where
  "ma35_cursor_on r f st \<longleftrightarrow> r MA35_CURSOR_ADDRESS = ucast (drm_fb_dma_get_gem_addr f st 0) \<and>
     FIELD_GET MA35_CURSOR_FORMAT_MASK (r MA35_CURSOR_CONFIG) =
       ma35_cursor_format_val MA35_CURSOR_FORMAT_A8R8G8B8"

definition ma35_cursor_at :: "(u32 \<Rightarrow> u32) \<Rightarrow> drm_plane_state \<Rightarrow> bool" where
  "ma35_cursor_at r st \<longleftrightarrow>
     FIELD_GET MA35_CURSOR_X_MASK (r MA35_CURSOR_LOCATION) = word_of_int (crtc_x st) \<and>
     FIELD_GET MA35_CURSOR_Y_MASK (r MA35_CURSOR_LOCATION) = word_of_int (crtc_y st)"

lemma word_of_int_unat_small: "0 \<le> z \<Longrightarrow> z < 2 ^ k \<Longrightarrow> k \<le> 31 \<Longrightarrow> unat (word_of_int z :: u32) < 2 ^ k"
proof -
  assume z: "0 \<le> z" "z < 2 ^ k" "k \<le> 31"
  have "(2 :: int) ^ k \<le> 2 ^ 31" using z(3) by (intro power_increasing) auto
  with z have "uint (word_of_int z :: u32) = z" by (simp add: uint_word_of_int)
  then have "int (unat (word_of_int z :: u32)) < int (2 ^ k)" using z(2) by simp
  then show ?thesis by (simp only: of_nat_less_iff)
qed

lemma cursor_hotspot_fields:
  assumes "0 \<le> hotspot_x st" "hotspot_x st < 32" "0 \<le> hotspot_y st" "hotspot_y st < 32"
  shows "FIELD_GET MA35_CURSOR_HOTSPOT_X_MASK (ma35_cursor_hotspot st) = word_of_int (hotspot_x st)"
    "FIELD_GET MA35_CURSOR_HOTSPOT_Y_MASK (ma35_cursor_hotspot st) = word_of_int (hotspot_y st)"
    "FIELD_GET MA35_CURSOR_FORMAT_MASK (ma35_cursor_hotspot st) = 2"
proof -
  let ?x = "word_of_int (hotspot_x st) :: u32" and ?y = "word_of_int (hotspot_y st) :: u32"
  have s: "unat ?x < 2 ^ 5" "unat ?y < 2 ^ 5"
    using word_of_int_unat_small [of "hotspot_x st" 5] word_of_int_unat_small [of "hotspot_y st" 5] assms by simp_all
  have 2: "(2 :: u32) = BIT 1" by (simp add: BIT_def)
  have eq: "ma35_cursor_hotspot st = FIELD_PREP (GENMASK 20 16) ?x OR (BIT 1 OR FIELD_PREP (GENMASK 12 8) ?y)"
    "ma35_cursor_hotspot st = FIELD_PREP (GENMASK 12 8) ?y OR (BIT 1 OR FIELD_PREP (GENMASK 20 16) ?x)"
    by (simp_all add: ma35_cursor_hotspot_def ma_field 2 or.assoc or.left_commute or.commute)
  show "FIELD_GET MA35_CURSOR_HOTSPOT_X_MASK (ma35_cursor_hotspot st) = ?x"
    unfolding eq(1) ma_field using take_bit_u32_small [OF s(1)]
    by (subst FIELD_GET_PREP_or) (simp_all, rule bit_word_eqI, auto simp: regfield)
  show "FIELD_GET MA35_CURSOR_HOTSPOT_Y_MASK (ma35_cursor_hotspot st) = ?y"
    unfolding eq(2) ma_field using take_bit_u32_small [OF s(2)]
    by (subst FIELD_GET_PREP_or) (simp_all, rule bit_word_eqI, auto simp: regfield)
  show "FIELD_GET MA35_CURSOR_FORMAT_MASK (ma35_cursor_hotspot st) = 2"
    unfolding eq(1) 2 ma_field by (rule bit_word_eqI) (auto simp: regfield)
qed


definition cursor_test_state :: "int \<Rightarrow> drm_plane_state" where
  "cursor_test_state x = example_state\<lparr>fb := Some example_fb, crtc_x := x, crtc_y := 7, crtc_w := 32, crtc_h := 32,
     src_x := 0, src_y := 0, hotspot_x := 3, hotspot_y := 4, visible := True\<rparr>"


text \<open>
  The address and format are written only when the framebuffer changes, and hiding the cursor clears the format:
  a cursor that leaves the screen and comes back with the same image and hotspot stays off.
\<close>

lemma ma35_cursor_reappears_dark:
  assumes rm: "regmap_laws rm regs" and "fb hidden = Some f" "\<not> visible hidden" "fb shown = Some f" "visible shown"
    and "hotspot_x shown = hotspot_x hidden" "hotspot_y shown = hotspot_y hidden"
    and "ma35_cursor_plane_atomic_update rm layer old hidden w = Some (layer1, w1)"
    and "ma35_cursor_plane_atomic_update rm layer1 hidden shown w1 = Some (layer2, w2)"
  shows "FIELD_GET MA35_CURSOR_FORMAT_MASK (regs w2 MA35_CURSOR_CONFIG) =
    ma35_cursor_format_val MA35_CURSOR_FORMAT_DISABLE"
proof -
  have "w1 = ma35_cursor_plane_atomic_disable rm w" "w2 = ma35_cursor_position_update rm (crtc_x shown) (crtc_y shown) w1"
    using assms by (auto simp: ma35_cursor_plane_atomic_update_def ma35_cursor_program_def)
  then show ?thesis
    by (simp add: ma35_cursor_plane_atomic_disable_def ma35_cursor_position_update_def Let_def
        regmap_laws.regs_write [OF rm] regmap_laws.regs_update_bits [OF rm] ma_addr ma_field field_get)
qed

text \<open>
  The asynchronous update swaps two local pointers instead of the framebuffers of the states: it programs the
  address of the framebuffer that was shown before, and the core's check of the result fires.
\<close>

lemma ma35_cursor_async_old_fb:
  assumes rm: "regmap_laws rm regs" and "visible new" "fb cur = Some g" "fb new = Some f" "fb_id f \<noteq> fb_id g"
    and "length (fb_base layer) = 3"
    and u: "ma35_cursor_plane_atomic_async_update rm layer cur new w = Some (cur', layer', w')"
  shows "regs w' MA35_CURSOR_ADDRESS = ucast (drm_fb_dma_get_gem_addr g new 0)" "fb cur' = Some g"
    "drm_atomic_helper_async_commit_plane
       (\<lambda>c s w. map_option (\<lambda>(c', l, w'). (c', s, w')) (ma35_cursor_plane_atomic_async_update rm layer c s w))
       cur new w = Some (True, cur', w')"
  using assms(2-6) u
  by (auto simp: ma35_cursor_plane_atomic_async_update_def ma35_cursor_program_def Let_def
      drm_atomic_helper_async_commit_plane_def regmap_laws.regs_write [OF rm] regmap_laws.regs_update_bits [OF rm]
      ma_addr split: if_splits)

section \<open>Creation\<close>

lemma ma35_plane_init_layers:
  assumes "ma35_plane_init alloc init [] = (0, layers)"
  shows "map (plane_type \<circ> lay_plane) layers =
      [DRM_PLANE_TYPE_PRIMARY, DRM_PLANE_TYPE_OVERLAY, DRM_PLANE_TYPE_CURSOR]"
    "map lay_zpos layers = [0, 1, 2]"
    "ma35_layer_get_from_type layers DRM_PLANE_TYPE_PRIMARY \<noteq> None"
    "ma35_layer_get_from_type layers DRM_PLANE_TYPE_CURSOR \<noteq> None"
  using assms by (auto simp: ma35_plane_init_def ma35_layer_create_def Let_def errno_defs split: if_splits)

lemma ma35_hotspot_property_roundtrip:
  assumes "p \<in> {HOTSPOT_X, HOTSPOT_Y}" "ma35_plane_set_property st p val = (r, st')" "uint val < 2 ^ 31"
  shows "ma35_plane_get_property st' p = Inr val"
proof -
  have "wrap32 (uint val) = uint val" using assms(3) uint_ge_0 [of val] by (intro wrap32_id, unfold is_s32_def) linarith
  then show ?thesis using assms by (auto simp: ma35_plane_set_property_def ma35_plane_get_property_def)
qed

end
