(* ===== verification/Drm_Vblank.thy ===== *)
theory Drm_Vblank
  imports Drm_Modes Vblank_Api
begin

text \<open>
  Vertical blanking of the DRM core: \<open>drm/drm_vblank.c\<close>, the work items of \<open>drm/drm_vblank_work.c\<close> and the
  helpers of \<open>drm/drm_vblank_helper.c\<close>. A device keeps, per CRTC, a 64-bit count derived from the hardware's
  counter, a reference count of the users of the interrupt, and lists of events and work items that wait for a
  count.

  The hooks of the driver, the clock and the module parameters are the record \<open>vblank_env\<close>; hooks act on the
  hardware state \<open>hw\<close>. A time is a 64-bit word (\<open>ktime_t\<close>, nanoseconds). Events delivered to user space are
  appended to \<open>delivered\<close>, work items handed to the worker thread to \<open>work_queue\<close>. Warnings only log. Every
  operation runs under the locks it takes, so it is one step of the state.
\<close>

section \<open>Data\<close>

type_synonym ktime = u64

datatype event_type = DRM_EVENT_VBLANK | DRM_EVENT_FLIP_COMPLETE | DRM_EVENT_CRTC_SEQUENCE | DRM_EVENT_other

record drm_pending_vblank_event =
  ev_id :: nat
  ev_pipe :: nat
  ev_sequence :: u64
  ev_type :: event_type
  vbl_sequence :: u32
  vbl_tv_sec :: int
  vbl_tv_usec :: int
  seq_sequence :: u64
  seq_time_ns :: ktime

record drm_vblank_work =
  work_id :: nat
  work_count :: u64
  cancelling :: int

record drm_vblank_crtc =
  vc_time :: ktime
  vc_count :: u64
  vc_refcount :: int
  vc_last :: u32
  vc_max_vblank_count :: u32
  vc_inmodeset :: u32
  vc_framedur_ns :: int
  vc_linedur_ns :: int
  vc_hwmode :: drm_display_mode
  vc_offdelay_ms :: int
  vc_disable_immediate :: bool
  vc_enabled :: bool
  vc_disable_timer :: bool
  vc_pending_work :: "drm_vblank_work list"

record 'w vblank_dev =
  hw :: 'w
  vblank :: "drm_vblank_crtc list"
  max_vblank_count :: u32
  vblank_disable_immediate :: bool
  vblank_event_list :: "drm_pending_vblank_event list"
  crtc_event :: "nat \<Rightarrow> drm_pending_vblank_event option"
  delivered :: "drm_pending_vblank_event list"
  work_queue :: "nat list"

record 'w vblank_env =
  feature_modeset :: bool
  feature_atomic :: bool
  crtc_from_index :: "nat \<Rightarrow> bool"
  hook_enable_vblank :: "nat \<Rightarrow> ('w \<Rightarrow> int \<times> 'w) option"
  hook_disable_vblank :: "nat \<Rightarrow> ('w \<Rightarrow> 'w) option"
  hook_get_vblank_counter :: "nat \<Rightarrow> ('w \<Rightarrow> u32 \<times> 'w) option"
  hook_get_vblank_timestamp :: "nat \<Rightarrow> (drm_vblank_crtc \<Rightarrow> int \<Rightarrow> bool \<Rightarrow> 'w \<Rightarrow> bool \<times> ktime \<times> 'w) option"
  ktime_get :: "'w \<Rightarrow> ktime \<times> 'w"
  ktime_to_timespec64 :: "ktime \<Rightarrow> int \<times> int"
  drm_timestamp_precision :: u32
  drm_vblank_offdelay :: int

abbreviation num_crtcs :: "'w vblank_dev \<Rightarrow> nat" where
  "num_crtcs dev \<equiv> length (vblank dev)"

definition DRM_TIMESTAMP_MAXRETRIES :: nat where "DRM_TIMESTAMP_MAXRETRIES = 3"

definition drm_vblank_passed :: "u64 \<Rightarrow> u64 \<Rightarrow> bool" where
  "drm_vblank_passed seq ref \<longleftrightarrow> seq - ref \<le> 2 ^ 23"

text \<open>\<open>drm_vblank_crtc\<close> returns the address of an array element: a write through it updates the array.\<close>

definition upd_vblank :: "nat \<Rightarrow> (drm_vblank_crtc \<Rightarrow> drm_vblank_crtc) \<Rightarrow> 'w vblank_dev \<Rightarrow> 'w vblank_dev" where
  "upd_vblank pipe f dev = dev\<lparr>vblank := (vblank dev)[pipe := f (vblank dev ! pipe)]\<rparr>"

section \<open>The counter\<close>

definition store_vblank :: "nat \<Rightarrow> u32 \<Rightarrow> ktime \<Rightarrow> u32 \<Rightarrow> 'w vblank_dev \<Rightarrow> 'w vblank_dev" where
  "store_vblank pipe vblank_count_inc t_vblank last_vblank dev =
     upd_vblank pipe (\<lambda>v. v\<lparr>vc_last := last_vblank, vc_time := t_vblank,
                            vc_count := vc_count v + ucast vblank_count_inc\<rparr>) dev"

definition drm_max_vblank_count :: "'w vblank_dev \<Rightarrow> nat \<Rightarrow> u32" where
  "drm_max_vblank_count dev pipe =
     (if vc_max_vblank_count (vblank dev ! pipe) \<noteq> 0 then vc_max_vblank_count (vblank dev ! pipe)
      else max_vblank_count dev)"

definition drm_vblank_no_hw_counter :: u32 where
  "drm_vblank_no_hw_counter = 0"

definition get_vblank_counter :: "'w vblank_env \<Rightarrow> nat \<Rightarrow> 'w vblank_dev \<Rightarrow> u32 \<times> 'w vblank_dev" where
  "get_vblank_counter env pipe dev =
     (if feature_modeset env \<and> \<not> crtc_from_index env pipe then (0, dev)
      else case (if feature_modeset env then hook_get_vblank_counter env pipe else None) of
        Some f \<Rightarrow> let (c, w) = f (hw dev) in (c, dev\<lparr>hw := w\<rparr>)
      | None \<Rightarrow> (drm_vblank_no_hw_counter, dev))"

definition drm_crtc_get_last_vbltimestamp ::
    "'w vblank_env \<Rightarrow> nat \<Rightarrow> bool \<Rightarrow> 'w vblank_dev \<Rightarrow> bool \<times> ktime \<times> 'w vblank_dev" where
  "drm_crtc_get_last_vbltimestamp env pipe in_vblank_irq dev =
     (let max_error = wrap32 (wrap32 (uint (drm_timestamp_precision env)) * 1000);
          (ret, tvblank, w) =
            (case (if crtc_from_index env pipe \<and> max_error > 0 then hook_get_vblank_timestamp env pipe else None) of
               Some f \<Rightarrow> f (vblank dev ! pipe) max_error in_vblank_irq (hw dev)
             | None \<Rightarrow> (False, 0, hw dev))
      in if ret then (True, tvblank, dev\<lparr>hw := w\<rparr>)
         else let (tvblank, w) = ktime_get env w in (False, tvblank, dev\<lparr>hw := w\<rparr>))"

definition drm_get_last_vbltimestamp ::
    "'w vblank_env \<Rightarrow> nat \<Rightarrow> bool \<Rightarrow> 'w vblank_dev \<Rightarrow> bool \<times> ktime \<times> 'w vblank_dev" where
  "drm_get_last_vbltimestamp env pipe in_vblank_irq dev =
     drm_crtc_get_last_vbltimestamp env pipe in_vblank_irq dev"

text \<open>The loop of \<open>get_vblank_counter_and_timestamp\<close>: the argument counts the retries that are left.\<close>

primrec counter_and_timestamp_loop ::
    "nat \<Rightarrow> 'w vblank_env \<Rightarrow> nat \<Rightarrow> bool \<Rightarrow> 'w vblank_dev \<Rightarrow> bool \<times> u32 \<times> ktime \<times> 'w vblank_dev" where
  "counter_and_timestamp_loop 0 env pipe in_vblank_irq dev =
     (let (cur_vblank, dev) = get_vblank_counter env pipe dev;
          (rc, t_vblank, dev) = drm_get_last_vbltimestamp env pipe in_vblank_irq dev;
          (again, dev) = get_vblank_counter env pipe dev
      in (rc, cur_vblank, t_vblank, dev))"
| "counter_and_timestamp_loop (Suc n) env pipe in_vblank_irq dev =
     (let (cur_vblank, dev) = get_vblank_counter env pipe dev;
          (rc, t_vblank, dev) = drm_get_last_vbltimestamp env pipe in_vblank_irq dev;
          (again, dev) = get_vblank_counter env pipe dev
      in if cur_vblank \<noteq> again then counter_and_timestamp_loop n env pipe in_vblank_irq dev
         else (rc, cur_vblank, t_vblank, dev))"

definition get_vblank_counter_and_timestamp ::
    "'w vblank_env \<Rightarrow> nat \<Rightarrow> bool \<Rightarrow> 'w vblank_dev \<Rightarrow> bool \<times> u32 \<times> ktime \<times> 'w vblank_dev" where
  "get_vblank_counter_and_timestamp env pipe in_vblank_irq dev =
     counter_and_timestamp_loop (DRM_TIMESTAMP_MAXRETRIES - 1) env pipe in_vblank_irq dev"

definition drm_reset_vblank_timestamp :: "'w vblank_env \<Rightarrow> nat \<Rightarrow> 'w vblank_dev \<Rightarrow> 'w vblank_dev" where
  "drm_reset_vblank_timestamp env pipe dev =
     (let (rc, cur_vblank, t_vblank, dev) = get_vblank_counter_and_timestamp env pipe False dev;
          t_vblank = (if rc then t_vblank else 0)
      in store_vblank pipe 1 t_vblank cur_vblank dev)"

definition drm_update_vblank_count :: "'w vblank_env \<Rightarrow> nat \<Rightarrow> bool \<Rightarrow> 'w vblank_dev \<Rightarrow> 'w vblank_dev" where
  "drm_update_vblank_count env pipe in_vblank_irq dev =
     (let framedur_ns = vc_framedur_ns (vblank dev ! pipe);
          max_count = drm_max_vblank_count dev pipe;
          (rc, cur_vblank, t_vblank, dev) = get_vblank_counter_and_timestamp env pipe in_vblank_irq dev;
          v = vblank dev ! pipe;
          diff = (if max_count \<noteq> 0 then (cur_vblank - vc_last v) AND max_count
                  else if rc \<and> framedur_ns \<noteq> 0
                  then ucast (DIV_ROUND_CLOSEST_ULL (t_vblank - vc_time v) framedur_ns)
                  else if in_vblank_irq then 1 else 0);
          diff = (if diff > 1 \<and> vc_inmodeset v AND 2 \<noteq> 0 then 1 else diff)
      in if diff = 0 then dev
         else
           let t_vblank = (if \<not> rc \<and> \<not> in_vblank_irq then 0 else t_vblank)
           in store_vblank pipe diff t_vblank cur_vblank dev)"

definition drm_vblank_count :: "'w vblank_dev \<Rightarrow> nat \<Rightarrow> u64" where
  "drm_vblank_count dev pipe = (if pipe \<ge> num_crtcs dev then 0 else vc_count (vblank dev ! pipe))"

definition drm_crtc_accurate_vblank_count :: "'w vblank_env \<Rightarrow> nat \<Rightarrow> 'w vblank_dev \<Rightarrow> u64 \<times> 'w vblank_dev" where
  "drm_crtc_accurate_vblank_count env pipe dev =
     (let dev = drm_update_vblank_count env pipe False dev
      in (drm_vblank_count dev pipe, dev))"

definition drm_vblank_count_and_time :: "'w vblank_dev \<Rightarrow> nat \<Rightarrow> u64 \<times> ktime" where
  "drm_vblank_count_and_time dev pipe =
     (if pipe \<ge> num_crtcs dev then (0, 0)
      else (vc_count (vblank dev ! pipe), vc_time (vblank dev ! pipe)))"

section \<open>References\<close>

definition disable_vblank_hook :: "'w vblank_env \<Rightarrow> nat \<Rightarrow> 'w vblank_dev \<Rightarrow> 'w vblank_dev" where
  "disable_vblank_hook env pipe dev =
     (if feature_modeset env then
        if \<not> crtc_from_index env pipe then dev
        else case hook_disable_vblank env pipe of
               Some f \<Rightarrow> dev\<lparr>hw := f (hw dev)\<rparr>
             | None \<Rightarrow> dev
      else dev)"

definition drm_vblank_disable_and_save :: "'w vblank_env \<Rightarrow> nat \<Rightarrow> 'w vblank_dev \<Rightarrow> 'w vblank_dev" where
  "drm_vblank_disable_and_save env pipe dev =
     (if \<not> vc_enabled (vblank dev ! pipe) then dev
      else
        let dev = drm_update_vblank_count env pipe False dev;
            dev = disable_vblank_hook env pipe dev
        in upd_vblank pipe (\<lambda>v. v\<lparr>vc_enabled := False\<rparr>) dev)"

definition vblank_disable_fn :: "'w vblank_env \<Rightarrow> nat \<Rightarrow> 'w vblank_dev \<Rightarrow> 'w vblank_dev" where
  "vblank_disable_fn env pipe dev =
     (if vc_refcount (vblank dev ! pipe) = 0 \<and> vc_enabled (vblank dev ! pipe)
      then drm_vblank_disable_and_save env pipe dev else dev)"

definition enable_vblank_hook :: "'w vblank_env \<Rightarrow> nat \<Rightarrow> 'w vblank_dev \<Rightarrow> int \<times> 'w vblank_dev" where
  "enable_vblank_hook env pipe dev =
     (if feature_modeset env \<and> \<not> crtc_from_index env pipe then (0, dev)
      else case (if feature_modeset env then hook_enable_vblank env pipe else None) of
        Some f \<Rightarrow> let (ret, w) = f (hw dev) in (ret, dev\<lparr>hw := w\<rparr>)
      | None \<Rightarrow> (- EINVAL, dev))"

definition drm_vblank_enable :: "'w vblank_env \<Rightarrow> nat \<Rightarrow> 'w vblank_dev \<Rightarrow> int \<times> 'w vblank_dev" where
  "drm_vblank_enable env pipe dev =
     (if \<not> vc_enabled (vblank dev ! pipe) then
        let (ret, dev) = enable_vblank_hook env pipe dev
        in if ret \<noteq> 0 then (ret, upd_vblank pipe (\<lambda>v. v\<lparr>vc_refcount := vc_refcount v - 1\<rparr>) dev)
           else
             let dev = drm_update_vblank_count env pipe False dev
             in (ret, upd_vblank pipe (\<lambda>v. v\<lparr>vc_enabled := True\<rparr>) dev)
      else (0, dev))"

definition drm_vblank_get :: "'w vblank_env \<Rightarrow> nat \<Rightarrow> 'w vblank_dev \<Rightarrow> int \<times> 'w vblank_dev" where
  "drm_vblank_get env pipe dev =
     (if num_crtcs dev = 0 then (- EINVAL, dev)
      else if pipe \<ge> num_crtcs dev then (- EINVAL, dev)
      else
        let dev = upd_vblank pipe (\<lambda>v. v\<lparr>vc_refcount := vc_refcount v + 1\<rparr>) dev
        in if vc_refcount (vblank dev ! pipe) = 1 then drm_vblank_enable env pipe dev
           else if \<not> vc_enabled (vblank dev ! pipe)
           then (- EINVAL, upd_vblank pipe (\<lambda>v. v\<lparr>vc_refcount := vc_refcount v - 1\<rparr>) dev)
           else (0, dev))"

definition drm_vblank_put :: "'w vblank_env \<Rightarrow> nat \<Rightarrow> 'w vblank_dev \<Rightarrow> 'w vblank_dev" where
  "drm_vblank_put env pipe dev =
     (let vblank_offdelay = vc_offdelay_ms (vblank dev ! pipe)
      in if pipe \<ge> num_crtcs dev then dev
         else if vc_refcount (vblank dev ! pipe) = 0 then dev
         else
           let dev = upd_vblank pipe (\<lambda>v. v\<lparr>vc_refcount := vc_refcount v - 1\<rparr>) dev
           in if vc_refcount (vblank dev ! pipe) = 0 then
                if vblank_offdelay = 0 then dev
                else if vblank_offdelay < 0 then vblank_disable_fn env pipe dev
                else if \<not> vc_disable_immediate (vblank dev ! pipe)
                then upd_vblank pipe (\<lambda>v. v\<lparr>vc_disable_timer := True\<rparr>) dev
                else dev
              else dev)"

section \<open>Events\<close>

definition send_vblank_event ::
    "'w vblank_env \<Rightarrow> drm_pending_vblank_event \<Rightarrow> u64 \<Rightarrow> ktime \<Rightarrow> 'w vblank_dev \<Rightarrow> 'w vblank_dev" where
  "send_vblank_event env e seq now dev =
     (let e = (case ev_type e of
          DRM_EVENT_CRTC_SEQUENCE \<Rightarrow>
            (if seq \<noteq> 0 then e\<lparr>seq_sequence := seq\<rparr> else e)\<lparr>seq_time_ns := now\<rparr>
        | DRM_EVENT_other \<Rightarrow> e
        | _ \<Rightarrow>
            let (tv_sec, tv_nsec) = ktime_to_timespec64 env now
            in e\<lparr>vbl_sequence := ucast seq, vbl_tv_sec := to_u32 tv_sec, vbl_tv_usec := to_u32 (tv_nsec div 1000)\<rparr>)
      in dev\<lparr>delivered := delivered dev @ [e]\<rparr>)"

definition drm_crtc_arm_vblank_event ::
    "'w vblank_env \<Rightarrow> nat \<Rightarrow> drm_pending_vblank_event \<Rightarrow> 'w vblank_dev \<Rightarrow> 'w vblank_dev" where
  "drm_crtc_arm_vblank_event env pipe e dev =
     (let (seq, dev) = drm_crtc_accurate_vblank_count env pipe dev;
          e = e\<lparr>ev_pipe := pipe, ev_sequence := seq + 1\<rparr>
      in dev\<lparr>vblank_event_list := vblank_event_list dev @ [e]\<rparr>)"

definition drm_crtc_send_vblank_event ::
    "'w vblank_env \<Rightarrow> nat \<Rightarrow> drm_pending_vblank_event \<Rightarrow> 'w vblank_dev \<Rightarrow> 'w vblank_dev" where
  "drm_crtc_send_vblank_event env pipe e dev =
     (if num_crtcs dev \<noteq> 0 then
        let (seq, now) = drm_vblank_count_and_time dev pipe
        in send_vblank_event env (e\<lparr>ev_pipe := pipe\<rparr>) seq now dev
      else
        let (now, w) = ktime_get env (hw dev)
        in send_vblank_event env (e\<lparr>ev_pipe := pipe\<rparr>) 0 now (dev\<lparr>hw := w\<rparr>))"

text \<open>
  The loops over the event list: each event that satisfies the condition is unlinked, its reference dropped
  and the event sent; \<open>kept\<close> collects the others in order. Dropping a reference and sending do not look at the
  list.
\<close>

primrec deliver_events ::
    "'w vblank_env \<Rightarrow> nat \<Rightarrow> u64 \<Rightarrow> ktime \<Rightarrow> (drm_pending_vblank_event \<Rightarrow> bool) \<Rightarrow>
     drm_pending_vblank_event list \<Rightarrow> drm_pending_vblank_event list \<Rightarrow> 'w vblank_dev \<Rightarrow> 'w vblank_dev" where
  "deliver_events env pipe seq now P kept [] dev = dev\<lparr>vblank_event_list := kept\<rparr>"
| "deliver_events env pipe seq now P kept (e # es) dev =
     (if P e then
        let dev = drm_vblank_put env pipe dev;
            dev = send_vblank_event env e seq now dev
        in deliver_events env pipe seq now P kept es dev
      else deliver_events env pipe seq now P (kept @ [e]) es dev)"

text \<open>The same for the work items of a CRTC; \<open>run\<close> says whether an item is handed to the worker or dropped.\<close>

primrec take_works ::
    "'w vblank_env \<Rightarrow> nat \<Rightarrow> bool \<Rightarrow> (drm_vblank_work \<Rightarrow> bool) \<Rightarrow> drm_vblank_work list \<Rightarrow> drm_vblank_work list \<Rightarrow>
     'w vblank_dev \<Rightarrow> 'w vblank_dev" where
  "take_works env pipe run P kept [] dev = upd_vblank pipe (\<lambda>v. v\<lparr>vc_pending_work := kept\<rparr>) dev"
| "take_works env pipe run P kept (k # ks) dev =
     (if P k then
        let dev = drm_vblank_put env pipe dev;
            dev = (if run then dev\<lparr>work_queue := work_queue dev @ [work_id k]\<rparr> else dev)
        in take_works env pipe run P kept ks dev
      else take_works env pipe run P (kept @ [k]) ks dev)"

definition drm_handle_vblank_works :: "'w vblank_env \<Rightarrow> nat \<Rightarrow> 'w vblank_dev \<Rightarrow> 'w vblank_dev" where
  "drm_handle_vblank_works env pipe dev =
     (let count = vc_count (vblank dev ! pipe)
      in take_works env pipe True (\<lambda>k. drm_vblank_passed count (work_count k)) []
           (vc_pending_work (vblank dev ! pipe)) dev)"

definition drm_vblank_cancel_pending_works :: "'w vblank_env \<Rightarrow> nat \<Rightarrow> 'w vblank_dev \<Rightarrow> 'w vblank_dev" where
  "drm_vblank_cancel_pending_works env pipe dev =
     take_works env pipe False (\<lambda>k. True) [] (vc_pending_work (vblank dev ! pipe)) dev"

definition drm_handle_vblank_events :: "'w vblank_env \<Rightarrow> nat \<Rightarrow> 'w vblank_dev \<Rightarrow> 'w vblank_dev" where
  "drm_handle_vblank_events env pipe dev =
     (let (seq, now) = drm_vblank_count_and_time dev pipe
      in deliver_events env pipe seq now (\<lambda>e. ev_pipe e = pipe \<and> drm_vblank_passed seq (ev_sequence e)) []
           (vblank_event_list dev) dev)"

section \<open>Interrupts and modesets\<close>

definition drm_handle_vblank :: "'w vblank_env \<Rightarrow> nat \<Rightarrow> 'w vblank_dev \<Rightarrow> bool \<times> 'w vblank_dev" where
  "drm_handle_vblank env pipe dev =
     (if num_crtcs dev = 0 then (False, dev)
      else if pipe \<ge> num_crtcs dev then (False, dev)
      else if \<not> vc_enabled (vblank dev ! pipe) then (False, dev)
      else
        let dev = drm_update_vblank_count env pipe True dev;
            v = vblank dev ! pipe;
            disable_irq = (vc_disable_immediate v \<and> vc_offdelay_ms v > 0 \<and> vc_refcount v = 0);
            dev = drm_handle_vblank_events env pipe dev;
            dev = drm_handle_vblank_works env pipe dev;
            dev = (if disable_irq then vblank_disable_fn env pipe dev else dev)
        in (True, dev))"

definition enter_modeset :: "nat \<Rightarrow> 'w vblank_dev \<Rightarrow> 'w vblank_dev" where
  "enter_modeset pipe dev =
     (if vc_inmodeset (vblank dev ! pipe) = 0
      then upd_vblank pipe (\<lambda>v. v\<lparr>vc_refcount := vc_refcount v + 1, vc_inmodeset := 1\<rparr>) dev else dev)"

definition drm_crtc_vblank_off :: "'w vblank_env \<Rightarrow> nat \<Rightarrow> 'w vblank_dev \<Rightarrow> 'w vblank_dev" where
  "drm_crtc_vblank_off env pipe dev =
     (if pipe \<ge> num_crtcs dev then dev
      else
        let dev = (if feature_atomic env \<or> vc_inmodeset (vblank dev ! pipe) = 0
                   then drm_vblank_disable_and_save env pipe dev else dev);
            dev = enter_modeset pipe dev;
            (seq, now) = drm_vblank_count_and_time dev pipe;
            dev = deliver_events env pipe seq now (\<lambda>e. ev_pipe e = pipe) [] (vblank_event_list dev) dev;
            dev = drm_vblank_cancel_pending_works env pipe dev
        in upd_vblank pipe (\<lambda>v. v\<lparr>vc_hwmode := (vc_hwmode v)\<lparr>crtc_clock := 0\<rparr>\<rparr>) dev)"

definition drm_crtc_vblank_reset :: "nat \<Rightarrow> 'w vblank_dev \<Rightarrow> 'w vblank_dev" where
  "drm_crtc_vblank_reset pipe dev = enter_modeset pipe dev"

definition drm_crtc_set_max_vblank_count :: "nat \<Rightarrow> u32 \<Rightarrow> 'w vblank_dev \<Rightarrow> 'w vblank_dev" where
  "drm_crtc_set_max_vblank_count pipe m dev = upd_vblank pipe (\<lambda>v. v\<lparr>vc_max_vblank_count := m\<rparr>) dev"

definition drm_crtc_vblank_on_config ::
    "'w vblank_env \<Rightarrow> nat \<Rightarrow> int \<times> bool \<Rightarrow> 'w vblank_dev \<Rightarrow> 'w vblank_dev" where
  "drm_crtc_vblank_on_config env pipe config dev =
     (if pipe \<ge> num_crtcs dev then dev
      else
        let dev = upd_vblank pipe (\<lambda>v. v\<lparr>vc_offdelay_ms := fst config, vc_disable_immediate := snd config\<rparr>) dev;
            dev = (if vc_inmodeset (vblank dev ! pipe) \<noteq> 0
                   then upd_vblank pipe (\<lambda>v. v\<lparr>vc_refcount := vc_refcount v - 1, vc_inmodeset := 0\<rparr>) dev else dev);
            dev = drm_reset_vblank_timestamp env pipe dev
        in if vc_refcount (vblank dev ! pipe) \<noteq> 0 \<or> vc_offdelay_ms (vblank dev ! pipe) = 0
           then snd (drm_vblank_enable env pipe dev) else dev)"

definition drm_crtc_vblank_on :: "'w vblank_env \<Rightarrow> nat \<Rightarrow> 'w vblank_dev \<Rightarrow> 'w vblank_dev" where
  "drm_crtc_vblank_on env pipe dev =
     drm_crtc_vblank_on_config env pipe (drm_vblank_offdelay env, vblank_disable_immediate dev) dev"

definition drm_crtc_vblank_atomic_flush :: "'w vblank_env \<Rightarrow> nat \<Rightarrow> 'w vblank_dev \<Rightarrow> 'w vblank_dev" where
  "drm_crtc_vblank_atomic_flush env pipe dev =
     (let event = crtc_event dev pipe;
          dev = dev\<lparr>crtc_event := (crtc_event dev)(pipe := None)\<rparr>
      in case event of
           None \<Rightarrow> dev
         | Some e \<Rightarrow>
             let (ret, dev) = drm_vblank_get env pipe dev
             in if ret = 0 then drm_crtc_arm_vblank_event env pipe e dev
                else drm_crtc_send_vblank_event env pipe e dev)"

definition drm_crtc_vblank_atomic_enable :: "'w vblank_env \<Rightarrow> nat \<Rightarrow> 'w vblank_dev \<Rightarrow> 'w vblank_dev" where
  "drm_crtc_vblank_atomic_enable env pipe dev = drm_crtc_vblank_on env pipe dev"

definition drm_crtc_vblank_atomic_disable :: "'w vblank_env \<Rightarrow> nat \<Rightarrow> 'w vblank_dev \<Rightarrow> 'w vblank_dev" where
  "drm_crtc_vblank_atomic_disable env pipe dev = drm_crtc_vblank_off env pipe dev"

section \<open>Initialisation\<close>

definition mode_zero :: drm_display_mode where
  "mode_zero = \<lparr>clock = 0, hdisplay = 0, hsync_start = 0, hsync_end = 0, htotal = 0, hskew = 0, vdisplay = 0,
     vsync_start = 0, vsync_end = 0, vtotal = 0, vscan = 0, flags = {}, stereo = DRM_MODE_FLAG_3D_NONE, crtc_clock = 0,
     crtc_hdisplay = 0, crtc_hblank_start = 0, crtc_hblank_end = 0, crtc_hsync_start = 0, crtc_hsync_end = 0,
     crtc_htotal = 0, crtc_hskew = 0, crtc_vdisplay = 0, crtc_vblank_start = 0, crtc_vblank_end = 0,
     crtc_vsync_start = 0, crtc_vsync_end = 0, crtc_vtotal = 0\<rparr>"

definition vblank_zero :: drm_vblank_crtc where
  "vblank_zero = \<lparr>vc_time = 0, vc_count = 0, vc_refcount = 0, vc_last = 0, vc_max_vblank_count = 0, vc_inmodeset = 0,
     vc_framedur_ns = 0, vc_linedur_ns = 0, vc_hwmode = mode_zero, vc_offdelay_ms = 0, vc_disable_immediate = False,
     vc_enabled = False, vc_disable_timer = False, vc_pending_work = []\<rparr>"

text \<open>
  The array is allocated zeroed; \<open>setup i\<close> is the first error of registering the release action of CRTC \<open>i\<close> and of
  starting its worker (0 for none).
\<close>

primrec vblank_init_loop :: "(nat \<Rightarrow> int) \<Rightarrow> nat \<Rightarrow> nat \<Rightarrow> int" where
  "vblank_init_loop setup i 0 = 0"
| "vblank_init_loop setup i (Suc n) = (if setup i \<noteq> 0 then setup i else vblank_init_loop setup (Suc i) n)"

definition drm_vblank_init :: "bool \<Rightarrow> (nat \<Rightarrow> int) \<Rightarrow> nat \<Rightarrow> 'w vblank_dev \<Rightarrow> int \<times> 'w vblank_dev" where
  "drm_vblank_init alloc setup num dev =
     (if \<not> alloc then (- ENOMEM, dev)
      else
        let dev = dev\<lparr>vblank := replicate num vblank_zero\<rparr>
        in (vblank_init_loop setup 0 num, dev))"

section \<open>What an operation changes\<close>

lemma upd_vblank_simps [simp]:
  "length (vblank (upd_vblank p f dev)) = length (vblank dev)"
  "p < length (vblank dev) \<Longrightarrow> vblank (upd_vblank p f dev) ! p = f (vblank dev ! p)"
  "q \<noteq> p \<Longrightarrow> vblank (upd_vblank p f dev) ! q = vblank dev ! q"
  "hw (upd_vblank p f dev) = hw dev" "max_vblank_count (upd_vblank p f dev) = max_vblank_count dev"
  "vblank_disable_immediate (upd_vblank p f dev) = vblank_disable_immediate dev"
  "vblank_event_list (upd_vblank p f dev) = vblank_event_list dev"
  "crtc_event (upd_vblank p f dev) = crtc_event dev" "delivered (upd_vblank p f dev) = delivered dev"
  "work_queue (upd_vblank p f dev) = work_queue dev"
  by (simp_all add: upd_vblank_def)

text \<open>Reading the counter and the time changes the hardware state only.\<close>

lemma get_counter_hw: obtains c w where "get_vblank_counter env p dev = (c, dev\<lparr>hw := w\<rparr>)"
proof -
  have "\<exists>c w. get_vblank_counter env p dev = (c, dev\<lparr>hw := w\<rparr>)"
  proof -
    have "\<exists>w. dev = dev\<lparr>hw := w\<rparr>" by (rule exI [of _ "hw dev"]) simp
    then show ?thesis by (auto simp: get_vblank_counter_def split: option.split prod.split)
  qed
  then show thesis using that by blast
qed

lemma last_timestamp_hw: obtains rc t w where "drm_get_last_vbltimestamp env p irq dev = (rc, t, dev\<lparr>hw := w\<rparr>)"
proof -
  have "\<exists>rc t w. drm_get_last_vbltimestamp env p irq dev = (rc, t, dev\<lparr>hw := w\<rparr>)"
    by (auto simp: drm_get_last_vbltimestamp_def drm_crtc_get_last_vbltimestamp_def Let_def
        split: option.split prod.split if_split)
  then show thesis using that by blast
qed

lemma counter_loop_hw: "\<exists>rc c t w. counter_and_timestamp_loop n env p irq dev = (rc, c, t, dev\<lparr>hw := w\<rparr>)"
proof (induction n arbitrary: dev)
  case 0
  obtain c w where 1: "get_vblank_counter env p dev = (c, dev\<lparr>hw := w\<rparr>)" by (rule get_counter_hw)
  obtain rc t w2 where 2: "drm_get_last_vbltimestamp env p irq (dev\<lparr>hw := w\<rparr>) = (rc, t, dev\<lparr>hw := w2\<rparr>)"
    by (rule last_timestamp_hw [of env p irq "dev\<lparr>hw := w\<rparr>"]) simp
  obtain c2 w3 where 3: "get_vblank_counter env p (dev\<lparr>hw := w2\<rparr>) = (c2, dev\<lparr>hw := w3\<rparr>)"
    by (rule get_counter_hw [of env p "dev\<lparr>hw := w2\<rparr>"]) simp
  show ?case by (simp add: 1 2 3) blast
next
  case (Suc n)
  obtain c w where 1: "get_vblank_counter env p dev = (c, dev\<lparr>hw := w\<rparr>)" by (rule get_counter_hw)
  obtain rc t w2 where 2: "drm_get_last_vbltimestamp env p irq (dev\<lparr>hw := w\<rparr>) = (rc, t, dev\<lparr>hw := w2\<rparr>)"
    by (rule last_timestamp_hw [of env p irq "dev\<lparr>hw := w\<rparr>"]) simp
  obtain c2 w3 where 3: "get_vblank_counter env p (dev\<lparr>hw := w2\<rparr>) = (c2, dev\<lparr>hw := w3\<rparr>)"
    by (rule get_counter_hw [of env p "dev\<lparr>hw := w2\<rparr>"]) simp
  show ?case using Suc [of "dev\<lparr>hw := w3\<rparr>"] by (auto simp: 1 2 3)
qed

lemma counter_and_timestamp_hw:
  obtains rc c t w where "get_vblank_counter_and_timestamp env p irq dev = (rc, c, t, dev\<lparr>hw := w\<rparr>)"
  using that counter_loop_hw [of "DRM_TIMESTAMP_MAXRETRIES - 1" env p irq dev]
  unfolding get_vblank_counter_and_timestamp_def by blast

text \<open>
  \<open>count_rel p d d'\<close>: the device differs from before at most in the hardware state and the counter of one CRTC.
\<close>

definition vc_ctl :: "drm_vblank_crtc \<Rightarrow> drm_vblank_crtc" where
  "vc_ctl v = v\<lparr>vc_time := 0, vc_count := 0, vc_last := 0\<rparr>"

definition count_rel :: "nat \<Rightarrow> 'w vblank_dev \<Rightarrow> 'w vblank_dev \<Rightarrow> bool" where
  "count_rel p d d' \<longleftrightarrow> length (vblank d') = length (vblank d) \<and> vc_ctl (vblank d' ! p) = vc_ctl (vblank d ! p) \<and>
     d'\<lparr>hw := hw d, vblank := (vblank d')[p := vblank d ! p]\<rparr> = d"

lemma count_rel_hw: "count_rel p d (d\<lparr>hw := w\<rparr>)"
  by (simp add: count_rel_def)

lemma count_rel_store: "count_rel p d (store_vblank p i t l (d\<lparr>hw := w\<rparr>))"
proof (cases "p < length (vblank d)")
  case True
  then show ?thesis by (simp add: count_rel_def store_vblank_def upd_vblank_def vc_ctl_def)
next
  case False
  then show ?thesis by (simp add: count_rel_def store_vblank_def upd_vblank_def list_update_beyond)
qed

lemma count_rel_update: "count_rel p d (drm_update_vblank_count env p irq d)"
proof -
  obtain rc c t w where g: "get_vblank_counter_and_timestamp env p irq d = (rc, c, t, d\<lparr>hw := w\<rparr>)"
    by (rule counter_and_timestamp_hw)
  show ?thesis
    by (simp add: drm_update_vblank_count_def g Let_def count_rel_hw count_rel_store split: if_split)
qed

lemma count_rel_reset_timestamp: "count_rel p d (drm_reset_vblank_timestamp env p d)"
proof -
  obtain rc c t w where g: "get_vblank_counter_and_timestamp env p False d = (rc, c, t, d\<lparr>hw := w\<rparr>)"
    by (rule counter_and_timestamp_hw)
  show ?thesis by (simp add: drm_reset_vblank_timestamp_def g Let_def count_rel_store)
qed

lemma vc_ctl_eqD:
  assumes "vc_ctl v = vc_ctl v'"
  shows "vc_refcount v = vc_refcount v'" "vc_inmodeset v = vc_inmodeset v'" "vc_enabled v = vc_enabled v'"
    "vc_pending_work v = vc_pending_work v'" "vc_offdelay_ms v = vc_offdelay_ms v'"
    "vc_disable_immediate v = vc_disable_immediate v'" "vc_max_vblank_count v = vc_max_vblank_count v'"
    "vc_disable_timer v = vc_disable_timer v'"
  using assms by (cases v; cases v'; simp add: vc_ctl_def)+

lemma count_relD:
  assumes "count_rel p d d'"
  shows "length (vblank d') = length (vblank d)" "vc_ctl (vblank d' ! p) = vc_ctl (vblank d ! p)"
    "q \<noteq> p \<Longrightarrow> vblank d' ! q = vblank d ! q" "vblank_event_list d' = vblank_event_list d"
    "delivered d' = delivered d" "crtc_event d' = crtc_event d" "work_queue d' = work_queue d"
    "max_vblank_count d' = max_vblank_count d" "vblank_disable_immediate d' = vblank_disable_immediate d"
proof -
  note a = assms [unfolded count_rel_def]
  show "length (vblank d') = length (vblank d)" "vc_ctl (vblank d' ! p) = vc_ctl (vblank d ! p)" using a by auto
  have v: "(vblank d')[p := vblank d ! p] = vblank d" using a by (metis vblank_dev.ext_inject vblank_dev.surjective
      vblank_dev.update_convs(1,2))
  show "q \<noteq> p \<Longrightarrow> vblank d' ! q = vblank d ! q" using v by (metis nth_list_update_neq)
  show "vblank_event_list d' = vblank_event_list d"
    "delivered d' = delivered d" "crtc_event d' = crtc_event d" "work_queue d' = work_queue d"
    "max_vblank_count d' = max_vblank_count d" "vblank_disable_immediate d' = vblank_disable_immediate d"
    using a by (cases d; cases d'; simp)+
qed

text \<open>
  \<open>refs_rel p m d d'\<close>: \<open>m\<close> references to the interrupt of one CRTC were dropped; the interrupt is on as before unless
  the last reference is gone.
\<close>

definition dev_lists :: "'w vblank_dev \<Rightarrow> drm_pending_vblank_event list \<times> drm_pending_vblank_event list \<times>
    (nat \<Rightarrow> drm_pending_vblank_event option) \<times> nat list" where
  "dev_lists d = (vblank_event_list d, delivered d, crtc_event d, work_queue d)"

definition refs_rel :: "nat \<Rightarrow> nat \<Rightarrow> 'w vblank_dev \<Rightarrow> 'w vblank_dev \<Rightarrow> bool" where
  "refs_rel p m d d' \<longleftrightarrow> length (vblank d') = length (vblank d) \<and> (\<forall>q. q \<noteq> p \<longrightarrow> vblank d' ! q = vblank d ! q) \<and>
     vc_refcount (vblank d' ! p) = vc_refcount (vblank d ! p) - int m \<and>
     vc_inmodeset (vblank d' ! p) = vc_inmodeset (vblank d ! p) \<and>
     vc_pending_work (vblank d' ! p) = vc_pending_work (vblank d ! p) \<and>
     (vc_enabled (vblank d' ! p) \<longrightarrow> vc_enabled (vblank d ! p)) \<and>
     (vc_refcount (vblank d' ! p) \<noteq> 0 \<longrightarrow> vc_enabled (vblank d' ! p) = vc_enabled (vblank d ! p))"

lemma refs_rel_refl: "refs_rel p 0 d d"
  by (simp add: refs_rel_def)

lemma refs_rel_trans:
  "refs_rel p m d d' \<Longrightarrow> refs_rel p k d' d'' \<Longrightarrow> int (m + k) \<le> vc_refcount (vblank d ! p) \<Longrightarrow>
   refs_rel p (m + k) d d''"
  by (auto simp: refs_rel_def)

lemma disable_hook_frame [simp]:
  "vblank (disable_vblank_hook env p d) = vblank d" "dev_lists (disable_vblank_hook env p d) = dev_lists d"
  by (simp_all add: disable_vblank_hook_def dev_lists_def split: option.split)

lemma count_rel_lists: "count_rel p d d' \<Longrightarrow> dev_lists d' = dev_lists d"
  by (simp add: dev_lists_def count_relD(4-7))

lemma upd_lists [simp]: "dev_lists (upd_vblank p f d) = dev_lists d"
  by (simp add: dev_lists_def)

lemma disable_and_save:
  assumes "p < length (vblank d)"
  shows "length (vblank (drm_vblank_disable_and_save env p d)) = length (vblank d)"
    "q \<noteq> p \<Longrightarrow> vblank (drm_vblank_disable_and_save env p d) ! q = vblank d ! q"
    "vc_refcount (vblank (drm_vblank_disable_and_save env p d) ! p) = vc_refcount (vblank d ! p)"
    "vc_inmodeset (vblank (drm_vblank_disable_and_save env p d) ! p) = vc_inmodeset (vblank d ! p)"
    "vc_pending_work (vblank (drm_vblank_disable_and_save env p d) ! p) = vc_pending_work (vblank d ! p)"
    "vc_offdelay_ms (vblank (drm_vblank_disable_and_save env p d) ! p) = vc_offdelay_ms (vblank d ! p)"
    "\<not> vc_enabled (vblank (drm_vblank_disable_and_save env p d) ! p)"
    "dev_lists (drm_vblank_disable_and_save env p d) = dev_lists d"
proof -
  let ?u = "drm_update_vblank_count env p False d"
  note r = count_rel_update [of p d env False] and r' = count_relD [OF count_rel_update [of p d env False]]
  note c = vc_ctl_eqD [OF r'(2)]
  show "length (vblank (drm_vblank_disable_and_save env p d)) = length (vblank d)"
    "q \<noteq> p \<Longrightarrow> vblank (drm_vblank_disable_and_save env p d) ! q = vblank d ! q"
    "vc_refcount (vblank (drm_vblank_disable_and_save env p d) ! p) = vc_refcount (vblank d ! p)"
    "vc_inmodeset (vblank (drm_vblank_disable_and_save env p d) ! p) = vc_inmodeset (vblank d ! p)"
    "vc_pending_work (vblank (drm_vblank_disable_and_save env p d) ! p) = vc_pending_work (vblank d ! p)"
    "vc_offdelay_ms (vblank (drm_vblank_disable_and_save env p d) ! p) = vc_offdelay_ms (vblank d ! p)"
    "\<not> vc_enabled (vblank (drm_vblank_disable_and_save env p d) ! p)"
    "dev_lists (drm_vblank_disable_and_save env p d) = dev_lists d"
    using assms r' c count_rel_lists [OF r] by (simp_all add: drm_vblank_disable_and_save_def Let_def)
qed

lemma disable_fn_rel:
  assumes "p < length (vblank d)"
  shows "refs_rel p 0 d (vblank_disable_fn env p d)" "dev_lists (vblank_disable_fn env p d) = dev_lists d"
  using disable_and_save [OF assms, where env = env] by (auto simp: vblank_disable_fn_def refs_rel_def)

lemma put_rel:
  assumes "p < length (vblank d)" "0 < vc_refcount (vblank d ! p)"
  shows "refs_rel p 1 d (drm_vblank_put env p d)" "dev_lists (drm_vblank_put env p d) = dev_lists d"
proof -
  let ?d = "upd_vblank p (\<lambda>v. v\<lparr>vc_refcount := vc_refcount v - 1\<rparr>) d"
  have 1: "refs_rel p 1 d ?d" "p < length (vblank ?d)" using assms by (simp_all add: refs_rel_def)
  have 2: "refs_rel p 1 d (vblank_disable_fn env p ?d)"
    using refs_rel_trans [OF 1(1) disable_fn_rel(1) [OF 1(2), of env]] assms(2) by simp
  have 3: "refs_rel p 1 d (upd_vblank p (\<lambda>v. v\<lparr>vc_disable_timer := True\<rparr>) ?d)"
    using assms by (simp add: refs_rel_def)
  show "refs_rel p 1 d (drm_vblank_put env p d)"
    unfolding drm_vblank_put_def Let_def using assms 1 2 3 by (simp split: if_split)
  show "dev_lists (drm_vblank_put env p d) = dev_lists d"
    unfolding drm_vblank_put_def Let_def using disable_fn_rel(2) [OF 1(2)] by (simp split: if_split)
qed

lemma send_frame [simp]:
  "vblank (send_vblank_event env e seq now d) = vblank d"
  "vblank_event_list (send_vblank_event env e seq now d) = vblank_event_list d"
  "crtc_event (send_vblank_event env e seq now d) = crtc_event d"
  "map ev_id (delivered (send_vblank_event env e seq now d)) = map ev_id (delivered d) @ [ev_id e]"
  by (simp_all add: send_vblank_event_def Let_def split: event_type.split prod.split)

text \<open>The loops over events and work items.\<close>

lemma deliver_rel:
  assumes "p < length (vblank d)" "int (length (filter P es)) \<le> vc_refcount (vblank d ! p)"
  shows "refs_rel p (length (filter P es)) d (deliver_events env p seq now P kept es d) \<and>
    vblank_event_list (deliver_events env p seq now P kept es d) = kept @ filter (\<lambda>e. \<not> P e) es \<and>
    map ev_id (delivered (deliver_events env p seq now P kept es d)) =
      map ev_id (delivered d) @ map ev_id (filter P es) \<and>
    crtc_event (deliver_events env p seq now P kept es d) = crtc_event d"
  using assms
proof (induction es arbitrary: kept d)
  case Nil
  then show ?case by (simp add: refs_rel_def)
next
  case (Cons e es)
  show ?case
  proof (cases "P e")
    case True
    let ?d = "send_vblank_event env e seq now (drm_vblank_put env p d)"
    have pos: "0 < vc_refcount (vblank d ! p)" using Cons.prems(2) True by simp
    have put: "refs_rel p 1 d ?d" using put_rel(1) [OF Cons.prems(1) pos, of env] by (simp add: refs_rel_def)
    have lists: "dev_lists (drm_vblank_put env p d) = dev_lists d" by (rule put_rel(2) [OF Cons.prems(1) pos])
    have "p < length (vblank ?d)" "int (length (filter P es)) \<le> vc_refcount (vblank ?d ! p)"
      using put Cons.prems True by (auto simp: refs_rel_def)
    from Cons.IH [OF this, of kept] put lists refs_rel_trans [OF put, of "length (filter P es)"] True Cons.prems(2)
    show ?thesis by (simp add: Let_def dev_lists_def add.commute)
  next
    case False
    then show ?thesis using Cons.IH [of d "kept @ [e]"] Cons.prems by simp
  qed
qed

lemma take_works_rel:
  assumes "p < length (vblank d)" "int (length (filter P ks)) \<le> vc_refcount (vblank d ! p)"
  shows "refs_rel p (length (filter P ks)) d
      (upd_vblank p (\<lambda>v. v\<lparr>vc_pending_work := vc_pending_work (vblank d ! p)\<rparr>) (take_works env p run P kept ks d)) \<and>
    vc_pending_work (vblank (take_works env p run P kept ks d) ! p) = kept @ filter (\<lambda>k. \<not> P k) ks \<and>
    vblank_event_list (take_works env p run P kept ks d) = vblank_event_list d \<and>
    delivered (take_works env p run P kept ks d) = delivered d \<and>
    crtc_event (take_works env p run P kept ks d) = crtc_event d"
  using assms
proof (induction ks arbitrary: kept d)
  case Nil
  then show ?case by (simp add: refs_rel_def)
next
  case (Cons k ks)
  show ?case
  proof (cases "P k")
    case True
    define d1 where "d1 = drm_vblank_put env p d"
    define d2 where "d2 = (if run then d1\<lparr>work_queue := work_queue d1 @ [work_id k]\<rparr> else d1)"
    have pos: "0 < vc_refcount (vblank d ! p)" using Cons.prems(2) True by simp
    have "refs_rel p 1 d d1" and lists: "dev_lists d1 = dev_lists d"
      using put_rel [OF Cons.prems(1) pos, of env] by (simp_all add: d1_def)
    then have put: "refs_rel p 1 d d2" by (simp add: d2_def refs_rel_def)
    have l: "vblank_event_list d2 = vblank_event_list d" "delivered d2 = delivered d" "crtc_event d2 = crtc_event d"
      using lists by (simp_all add: d2_def dev_lists_def)
    have w: "vc_pending_work (vblank d2 ! p) = vc_pending_work (vblank d ! p)" using put by (simp add: refs_rel_def)
    have "p < length (vblank d2)" "int (length (filter P ks)) \<le> vc_refcount (vblank d2 ! p)"
      using put Cons.prems True by (auto simp: refs_rel_def)
    from Cons.IH [OF this, of kept] l refs_rel_trans [OF put, of "length (filter P ks)"] True Cons.prems(2)
    show ?thesis by (simp add: Let_def d1_def [symmetric] d2_def [symmetric] w del: upd_vblank_simps)
  next
    case False
    then show ?thesis using Cons.IH [of d "kept @ [k]"] Cons.prems by simp
  qed
qed

end
