(* ===== verification/Drm_Vblank_Ioctl.thy ===== *)
theory Drm_Vblank_Ioctl
  imports Drm_Vblank
begin

text \<open>
  The clients of vertical blanking: the wait and sequence requests of user space (\<open>drm/drm_vblank.c\<close>) and the
  work items of \<open>drm/drm_vblank_work.c\<close>.

  Header constants are the record \<open>vblank_hdr\<close>. The outcome of services outside this code (allocation, event
  reservation in the client's file, the sleep on the wait queue, the worker thread) is an argument; the sleep
  returns the state other users left. Request and reply of the wait request share their type and sequence, as the
  C union does.
\<close>

section \<open>Data\<close>

record vblank_hdr =
  DRM_VBLANK_ABSOLUTE :: u32
  DRM_VBLANK_RELATIVE :: u32
  DRM_VBLANK_TYPES_MASK :: u32
  DRM_VBLANK_FLAGS_MASK :: u32
  DRM_VBLANK_HIGH_CRTC_MASK :: u32
  DRM_VBLANK_HIGH_CRTC_SHIFT :: nat
  DRM_VBLANK_EVENT :: u32
  DRM_VBLANK_NEXTONMISS :: u32
  DRM_VBLANK_SECONDARY :: u32
  DRM_VBLANK_SIGNAL :: u32
  DRM_CRTC_SEQUENCE_RELATIVE :: u32
  DRM_CRTC_SEQUENCE_NEXT_ON_MISS :: u32

record drm_wait_vblank =
  wv_type :: u32
  wv_sequence :: u32
  wv_tval_sec :: int
  wv_tval_usec :: int

text \<open>What a request that queues an event gets from outside.\<close>

record event_services =
  event_alloc :: bool
  event_new_id :: nat
  event_reserve :: int

record drm_crtc_queue_sequence =
  qs_flags :: u32
  qs_sequence :: u64

definition EBUSY :: int where "EBUSY = 16"
definition EINTR :: int where "EINTR = 4"
definition ENOENT :: int where "ENOENT = 2"
definition EOPNOTSUPP :: int where "EOPNOTSUPP = 95"
definition ERESTARTSYS :: int where "ERESTARTSYS = 512"

definition new_event :: "nat \<Rightarrow> event_type \<Rightarrow> nat \<Rightarrow> drm_pending_vblank_event" where
  "new_event i t pipe = \<lparr>ev_id = i, ev_pipe = pipe, ev_sequence = 0, ev_type = t, vbl_sequence = 0, vbl_tv_sec = 0,
     vbl_tv_usec = 0, seq_sequence = 0, seq_time_ns = 0\<rparr>"

section \<open>Waiting and queueing\<close>

definition widen_32_to_64 :: "u32 \<Rightarrow> u64 \<Rightarrow> u64" where
  "widen_32_to_64 narrow near = near + scast (ucast (ucast narrow - near) :: u32)"

definition drm_queue_vblank_event ::
    "'w vblank_env \<Rightarrow> event_services \<Rightarrow> nat \<Rightarrow> u64 \<Rightarrow> drm_wait_vblank \<Rightarrow> 'w vblank_dev \<Rightarrow>
     int \<times> drm_wait_vblank \<times> 'w vblank_dev" where
  "drm_queue_vblank_event env sv pipe req_seq vblwait dev =
     (if \<not> event_alloc sv then (- ENOMEM, vblwait, drm_vblank_put env pipe dev)
      else
        let e = new_event (event_new_id sv) DRM_EVENT_VBLANK pipe
        in if \<not> vc_enabled (vblank dev ! pipe) then (- EINVAL, vblwait, drm_vblank_put env pipe dev)
           else if event_reserve sv \<noteq> 0 then (event_reserve sv, vblwait, drm_vblank_put env pipe dev)
           else
             let (seq, now) = drm_vblank_count_and_time dev pipe;
                 e = e\<lparr>ev_sequence := req_seq\<rparr>
             in if drm_vblank_passed seq req_seq then
                  let dev = drm_vblank_put env pipe dev;
                      dev = send_vblank_event env e seq now dev
                  in (0, vblwait\<lparr>wv_sequence := ucast seq\<rparr>, dev)
                else (0, vblwait\<lparr>wv_sequence := ucast req_seq\<rparr>,
                      dev\<lparr>vblank_event_list := vblank_event_list dev @ [e]\<rparr>))"

definition drm_wait_vblank_is_query :: "vblank_hdr \<Rightarrow> drm_wait_vblank \<Rightarrow> bool" where
  "drm_wait_vblank_is_query h vblwait =
     (if wv_sequence vblwait \<noteq> 0 then False
      else DRM_VBLANK_RELATIVE h =
           (wv_type vblwait AND (DRM_VBLANK_TYPES_MASK h OR DRM_VBLANK_EVENT h OR DRM_VBLANK_NEXTONMISS h)))"

definition drm_wait_vblank_reply ::
    "'w vblank_env \<Rightarrow> nat \<Rightarrow> drm_wait_vblank \<Rightarrow> 'w vblank_dev \<Rightarrow> drm_wait_vblank" where
  "drm_wait_vblank_reply env pipe reply dev =
     (let (seq, now) = drm_vblank_count_and_time dev pipe;
          (tv_sec, tv_nsec) = ktime_to_timespec64 env now
      in reply\<lparr>wv_sequence := ucast seq, wv_tval_sec := to_u32 tv_sec, wv_tval_usec := c_div tv_nsec 1000\<rparr>)"

text \<open>The index of the CRTC a client means: the \<open>pipe_index\<close>-th of those leased to it (\<open>held\<close>, in order).\<close>

fun leased_pipe :: "bool list \<Rightarrow> nat \<Rightarrow> nat \<Rightarrow> nat" where
  "leased_pipe [] pipe_index pipe = pipe"
| "leased_pipe (held # rest) pipe_index pipe =
     (if held then
        if pipe_index = 0 then pipe else leased_pipe rest (pipe_index - 1) (Suc pipe)
      else leased_pipe rest pipe_index (Suc pipe))"

text \<open>The sequence a wait request asks for, and the request updated; \<open>None\<close> is an unknown type.\<close>

definition wait_vblank_target :: "vblank_hdr \<Rightarrow> u64 \<Rightarrow> drm_wait_vblank \<Rightarrow> (u64 \<times> drm_wait_vblank) option" where
  "wait_vblank_target h seq vblwait =
     (let flags = wv_type vblwait AND DRM_VBLANK_FLAGS_MASK h;
          t = wv_type vblwait AND DRM_VBLANK_TYPES_MASK h;
          r = (if t = DRM_VBLANK_RELATIVE h then
                 let req_seq = seq + ucast (wv_sequence vblwait)
                 in Some (req_seq, vblwait\<lparr>wv_sequence := ucast req_seq,
                      wv_type := wv_type vblwait AND NOT (DRM_VBLANK_RELATIVE h)\<rparr>)
               else if t = DRM_VBLANK_ABSOLUTE h then Some (widen_32_to_64 (wv_sequence vblwait) seq, vblwait)
               else None)
      in case r of
           None \<Rightarrow> None
         | Some (req_seq, vblwait) \<Rightarrow>
             if flags AND DRM_VBLANK_NEXTONMISS h \<noteq> 0 \<and> drm_vblank_passed seq req_seq
             then Some (seq + 1, vblwait\<lparr>wv_type := wv_type vblwait AND NOT (DRM_VBLANK_NEXTONMISS h),
                                         wv_sequence := ucast (seq + 1)\<rparr>)
             else Some (req_seq, vblwait))"

definition drm_wait_vblank_ioctl ::
    "vblank_hdr \<Rightarrow> 'w vblank_env \<Rightarrow> event_services \<Rightarrow> bool list \<Rightarrow> ('w vblank_dev \<Rightarrow> int \<times> 'w vblank_dev) \<Rightarrow>
     drm_wait_vblank \<Rightarrow> 'w vblank_dev \<Rightarrow> int \<times> drm_wait_vblank \<times> 'w vblank_dev" where
  "drm_wait_vblank_ioctl h env sv held wait vblwait dev =
     (if num_crtcs dev = 0 then (- EOPNOTSUPP, vblwait, dev)
      else if wv_type vblwait AND DRM_VBLANK_SIGNAL h \<noteq> 0 then (- EINVAL, vblwait, dev)
      else if wv_type vblwait AND
                NOT (DRM_VBLANK_TYPES_MASK h OR DRM_VBLANK_FLAGS_MASK h OR DRM_VBLANK_HIGH_CRTC_MASK h) \<noteq> 0
      then (- EINVAL, vblwait, dev)
      else
        let flags = wv_type vblwait AND DRM_VBLANK_FLAGS_MASK h;
            high_pipe = wv_type vblwait AND DRM_VBLANK_HIGH_CRTC_MASK h;
            pipe_index = (if high_pipe \<noteq> 0 then unat (drop_bit (DRM_VBLANK_HIGH_CRTC_SHIFT h) high_pipe)
                          else if flags AND DRM_VBLANK_SECONDARY h \<noteq> 0 then 1 else 0);
            pipe = (if feature_modeset env then leased_pipe held pipe_index 0 else pipe_index)
        in if pipe \<ge> num_crtcs dev then (- EINVAL, vblwait, dev)
           else if vc_disable_immediate (vblank dev ! pipe) \<and> drm_wait_vblank_is_query h vblwait \<and>
                   vc_enabled (vblank dev ! pipe)
           then (0, drm_wait_vblank_reply env pipe vblwait dev, dev)
           else
             let (ret, dev) = drm_vblank_get env pipe dev
             in if ret \<noteq> 0 then (ret, vblwait, dev)
                else
                  let seq = drm_vblank_count dev pipe
                  in case wait_vblank_target h seq vblwait of
                       None \<Rightarrow> (- EINVAL, vblwait, drm_vblank_put env pipe dev)
                     | Some (req_seq, vblwait) \<Rightarrow>
                         if flags AND DRM_VBLANK_EVENT h \<noteq> 0
                         then drm_queue_vblank_event env sv pipe req_seq vblwait dev
                         else
                           let (ret, dev) =
                                 (if req_seq \<noteq> seq then
                                    let (wt, dev) = wait dev
                                    in (if wt = 0 then - EBUSY else if wt = - ERESTARTSYS then - EINTR else 0, dev)
                                  else (0, dev));
                               vblwait = (if ret \<noteq> - EINTR then drm_wait_vblank_reply env pipe vblwait dev else vblwait)
                           in (ret, vblwait, drm_vblank_put env pipe dev))"

text \<open>\<open>found\<close> is the result of looking the CRTC up; \<open>active\<close> what its state says.\<close>

definition drm_crtc_get_sequence_ioctl ::
    "'w vblank_env \<Rightarrow> nat option \<Rightarrow> bool \<Rightarrow> 'w vblank_dev \<Rightarrow> int \<times> (bool \<times> u64 \<times> ktime) option \<times> 'w vblank_dev" where
  "drm_crtc_get_sequence_ioctl env found active dev =
     (if \<not> feature_modeset env then (- EOPNOTSUPP, None, dev)
      else if num_crtcs dev = 0 then (- EOPNOTSUPP, None, dev)
      else case found of
        None \<Rightarrow> (- ENOENT, None, dev)
      | Some pipe \<Rightarrow>
          let vblank_enabled = vc_disable_immediate (vblank dev ! pipe) \<and> vc_enabled (vblank dev ! pipe);
              (ret, dev) = (if \<not> vblank_enabled then drm_vblank_get env pipe dev else (0, dev))
          in if ret \<noteq> 0 then (ret, None, dev)
             else
               let (seq, now) = drm_vblank_count_and_time dev pipe;
                   dev = (if \<not> vblank_enabled then drm_vblank_put env pipe dev else dev)
               in (0, Some (active, seq, now), dev))"

definition drm_crtc_queue_sequence_ioctl ::
    "vblank_hdr \<Rightarrow> 'w vblank_env \<Rightarrow> event_services \<Rightarrow> nat option \<Rightarrow> drm_crtc_queue_sequence \<Rightarrow> 'w vblank_dev \<Rightarrow>
     int \<times> drm_crtc_queue_sequence \<times> 'w vblank_dev" where
  "drm_crtc_queue_sequence_ioctl h env sv found queue_seq dev =
     (if \<not> feature_modeset env then (- EOPNOTSUPP, queue_seq, dev)
      else if num_crtcs dev = 0 then (- EOPNOTSUPP, queue_seq, dev)
      else case found of
        None \<Rightarrow> (- ENOENT, queue_seq, dev)
      | Some pipe \<Rightarrow>
        if qs_flags queue_seq AND NOT (DRM_CRTC_SEQUENCE_RELATIVE h OR DRM_CRTC_SEQUENCE_NEXT_ON_MISS h) \<noteq> 0
        then (- EINVAL, queue_seq, dev)
        else if \<not> event_alloc sv then (- ENOMEM, queue_seq, dev)
        else
          let (ret, dev) = drm_vblank_get env pipe dev
          in if ret \<noteq> 0 then (ret, queue_seq, dev)
             else
               let (seq, now) = drm_vblank_count_and_time dev pipe;
                   req_seq = qs_sequence queue_seq;
                   req_seq = (if qs_flags queue_seq AND DRM_CRTC_SEQUENCE_RELATIVE h \<noteq> 0 then req_seq + seq else req_seq);
                   req_seq = (if qs_flags queue_seq AND DRM_CRTC_SEQUENCE_NEXT_ON_MISS h \<noteq> 0 \<and>
                                 drm_vblank_passed seq req_seq then seq + 1 else req_seq);
                   e = new_event (event_new_id sv) DRM_EVENT_CRTC_SEQUENCE pipe
               in if \<not> vc_enabled (vblank dev ! pipe) then (- EINVAL, queue_seq, drm_vblank_put env pipe dev)
                  else if event_reserve sv \<noteq> 0 then (event_reserve sv, queue_seq, drm_vblank_put env pipe dev)
                  else
                    let e = e\<lparr>ev_sequence := req_seq\<rparr>
                    in if drm_vblank_passed seq req_seq then
                         let dev = drm_vblank_put env pipe dev;
                             dev = send_vblank_event env e seq now dev
                         in (0, queue_seq\<lparr>qs_sequence := seq\<rparr>, dev)
                       else (0, queue_seq\<lparr>qs_sequence := req_seq\<rparr>,
                             dev\<lparr>vblank_event_list := vblank_event_list dev @ [e]\<rparr>))"

definition drm_crtc_wait_one_vblank ::
    "'w vblank_env \<Rightarrow> ('w vblank_dev \<Rightarrow> int \<times> 'w vblank_dev) \<Rightarrow> nat \<Rightarrow> 'w vblank_dev \<Rightarrow> int \<times> 'w vblank_dev" where
  "drm_crtc_wait_one_vblank env wait pipe dev =
     (let (ret, dev) = drm_vblank_get env pipe dev
      in if ret \<noteq> 0 then (ret, dev)
         else
           let (ret, dev) = wait dev;
               dev = drm_vblank_put env pipe dev
           in (if ret \<noteq> 0 then 0 else - ETIMEDOUT, dev))"

section \<open>Work items\<close>

definition work_listed :: "nat \<Rightarrow> drm_vblank_work \<Rightarrow> 'w vblank_dev \<Rightarrow> bool" where
  "work_listed pipe work dev \<longleftrightarrow> work_id work \<in> work_id ` set (vc_pending_work (vblank dev ! pipe))"

definition work_unlist :: "nat \<Rightarrow> drm_vblank_work \<Rightarrow> 'w vblank_dev \<Rightarrow> 'w vblank_dev" where
  "work_unlist pipe work dev = upd_vblank pipe (\<lambda>v. v\<lparr>vc_pending_work :=
     filter (\<lambda>k. work_id k \<noteq> work_id work) (vc_pending_work v)\<rparr>) dev"

text \<open>\<open>queued\<close> is the result of \<open>kthread_queue_work\<close>: false when the item is already with the worker.\<close>

definition drm_vblank_work_schedule ::
    "'w vblank_env \<Rightarrow> bool \<Rightarrow> nat \<Rightarrow> drm_vblank_work \<Rightarrow> u64 \<Rightarrow> bool \<Rightarrow> 'w vblank_dev \<Rightarrow>
     int \<times> drm_vblank_work \<times> 'w vblank_dev" where
  "drm_vblank_work_schedule env queued pipe work count nextonmiss dev =
     (if cancelling work \<noteq> 0 then (0, work, dev)
      else if vc_inmodeset (vblank dev ! pipe) \<noteq> 0 then (0, work, dev)
      else
        let rescheduling = work_listed pipe work dev
        in if rescheduling \<and> work_count work = count then (0, work, dev)
           else
             let (ret, dev) = (if rescheduling then (0, dev) else drm_vblank_get env pipe dev)
             in if ret < 0 then (ret, work, dev)
                else
                  let work = work\<lparr>work_count := count\<rparr>;
                      dev = upd_vblank pipe (\<lambda>v. v\<lparr>vc_pending_work :=
                              map (\<lambda>k. if work_id k = work_id work then work else k) (vc_pending_work v)\<rparr>) dev;
                      passed = drm_vblank_passed (drm_vblank_count dev pipe) count
                  in if \<not> nextonmiss \<and> passed then
                       let dev = drm_vblank_put env pipe dev;
                           dev = (if queued then dev\<lparr>work_queue := work_queue dev @ [work_id work]\<rparr> else dev);
                           dev = (if rescheduling then work_unlist pipe work dev else dev)
                       in (if queued then 1 else 0, work, dev)
                     else
                       let dev = (if \<not> rescheduling
                                  then upd_vblank pipe (\<lambda>v. v\<lparr>vc_pending_work := vc_pending_work v @ [work]\<rparr>) dev
                                  else dev)
                       in (1, work, dev))"

text \<open>\<open>cancelled\<close> is the result of \<open>kthread_cancel_work_sync\<close>.\<close>

definition drm_vblank_work_cancel_sync ::
    "'w vblank_env \<Rightarrow> bool \<Rightarrow> nat \<Rightarrow> drm_vblank_work \<Rightarrow> 'w vblank_dev \<Rightarrow> bool \<times> 'w vblank_dev" where
  "drm_vblank_work_cancel_sync env cancelled pipe work dev =
     (if work_listed pipe work dev then
        let dev = work_unlist pipe work dev;
            dev = drm_vblank_put env pipe dev
        in (True, dev)
      else (cancelled, dev))"

end
