(* ===== verification/Drm_Vblank_Inv.thy ===== *)
theory Drm_Vblank_Inv
  imports Drm_Vblank_Ioctl "HOL-Library.Multiset"
begin

text \<open>
  The invariants of vertical blanking, for any interleaving of its users: reference counts are the references that
  are held, the interrupt is on while someone holds one and off during a modeset, and no event is lost or
  delivered twice.
\<close>

section \<open>Invariant\<close>

definition pending_on :: "nat \<Rightarrow> 'w vblank_dev \<Rightarrow> nat" where
  "pending_on p d = length (filter (\<lambda>e. ev_pipe e = p) (vblank_event_list d))"

text \<open>\<open>u p\<close> counts the references users hold on CRTC \<open>p\<close>.\<close>

definition crtc_ok :: "(nat \<Rightarrow> nat) \<Rightarrow> 'w vblank_dev \<Rightarrow> nat \<Rightarrow> bool" where
  "crtc_ok u d p \<longleftrightarrow>
     vc_refcount (vblank d ! p) = int (u p + pending_on p d + length (vc_pending_work (vblank d ! p)) +
       (if vc_inmodeset (vblank d ! p) \<noteq> 0 then 1 else 0)) \<and>
     (vc_inmodeset (vblank d ! p) \<noteq> 0 \<longrightarrow> \<not> vc_enabled (vblank d ! p)) \<and>
     (vc_inmodeset (vblank d ! p) = 0 \<and> vc_refcount (vblank d ! p) \<noteq> 0 \<longrightarrow> vc_enabled (vblank d ! p)) \<and>
     distinct (map work_id (vc_pending_work (vblank d ! p)))"

definition vblank_inv :: "(nat \<Rightarrow> nat) \<Rightarrow> 'w vblank_dev \<Rightarrow> bool" where
  "vblank_inv u d \<longleftrightarrow> (\<forall>p < num_crtcs d. crtc_ok u d p) \<and> (\<forall>e \<in> set (vblank_event_list d). ev_pipe e < num_crtcs d)"

text \<open>The events the core has been given and not dropped: those that wait and those delivered.\<close>

definition event_ids :: "'w vblank_dev \<Rightarrow> nat multiset" where
  "event_ids d = mset (map ev_id (vblank_event_list d)) + mset (map ev_id (delivered d))"

text \<open>A driver whose CRTCs exist and whose enable hook does not fail, as for both display drivers.\<close>

definition enable_works :: "'w vblank_env \<Rightarrow> nat \<Rightarrow> bool" where
  "enable_works env n \<longleftrightarrow> feature_modeset env \<and> feature_atomic env \<and>
     (\<forall>p < n. crtc_from_index env p \<and> (\<exists>f. hook_enable_vblank env p = Some f \<and> (\<forall>w. fst (f w) = 0)))"

lemma inv_update:
  assumes "vblank_inv u d" "length (vblank d') = length (vblank d)" "p < length (vblank d) \<Longrightarrow> crtc_ok u' d' p"
    and "\<And>q. q \<noteq> p \<Longrightarrow> vblank d' ! q = vblank d ! q \<and> pending_on q d' = pending_on q d \<and> u' q = u q"
    and "\<And>e. e \<in> set (vblank_event_list d') \<Longrightarrow> ev_pipe e < length (vblank d)"
  shows "vblank_inv u' d'"
proof -
  have "crtc_ok u' d' q" if "q < length (vblank d)" for q
    using assms(1,3) assms(4) [of q] that by (cases "q = p") (auto simp: vblank_inv_def crtc_ok_def)
  then show ?thesis using assms(2,5) by (simp add: vblank_inv_def)
qed

lemma lists_eqD:
  assumes "dev_lists d' = dev_lists d"
  shows "vblank_event_list d' = vblank_event_list d" "delivered d' = delivered d" "crtc_event d' = crtc_event d"
    "work_queue d' = work_queue d" "pending_on q d' = pending_on q d" "event_ids d' = event_ids d"
  using assms by (simp_all add: dev_lists_def pending_on_def event_ids_def)

lemma inv_crtc: "vblank_inv u d \<Longrightarrow> p < length (vblank d) \<Longrightarrow> crtc_ok u d p"
  by (simp add: vblank_inv_def)

lemma inv_works: "vblank_inv u d \<Longrightarrow> p < length (vblank d) \<Longrightarrow> distinct (map work_id (vc_pending_work (vblank d ! p)))"
  by (simp add: vblank_inv_def crtc_ok_def)

lemma inv_events: "vblank_inv u d \<Longrightarrow> e \<in> set (vblank_event_list d) \<Longrightarrow> ev_pipe e < length (vblank d)"
  by (simp add: vblank_inv_def)

section \<open>References\<close>

lemma count_rel_inv:
  assumes "vblank_inv u d" "count_rel p d d'"
  shows "vblank_inv u d'"
proof (rule inv_update [OF assms(1)])
  note r = count_relD [OF assms(2)] and l = lists_eqD [OF count_rel_lists [OF assms(2)]]
  show "length (vblank d') = length (vblank d)" by (rule r(1))
  show "crtc_ok u d' p" if "p < length (vblank d)"
    using inv_crtc [OF assms(1) that] vc_ctl_eqD [OF r(2)] l(5) by (simp add: crtc_ok_def)
  show "vblank d' ! q = vblank d ! q \<and> pending_on q d' = pending_on q d \<and> u q = u q" if "q \<noteq> p" for q
    using r(3) [OF that] l(5) by simp
  show "ev_pipe e < length (vblank d)" if "e \<in> set (vblank_event_list d')" for e
    using that l(1) inv_events [OF assms(1)] by simp
qed

lemma enable_hook_ok:
  assumes "enable_works env n" "p < n"
  obtains w where "enable_vblank_hook env p d = (0, d\<lparr>hw := w\<rparr>)"
proof -
  obtain f where f: "hook_enable_vblank env p = Some f" "\<forall>w. fst (f w) = 0"
    using assms by (auto simp: enable_works_def)
  obtain w where "f (hw d) = (0, w)" using f(2) by (metis prod.collapse)
  then have "enable_vblank_hook env p d = (0, d\<lparr>hw := w\<rparr>)"
    using assms f(1) by (simp add: enable_vblank_hook_def enable_works_def)
  then show thesis by (rule that)
qed

lemma vblank_enable_ok:
  assumes "enable_works env (length (vblank d))" "p < length (vblank d)"
  obtains d' where "drm_vblank_enable env p d = (0, d')" "length (vblank d') = length (vblank d)"
    "\<And>q. q \<noteq> p \<Longrightarrow> vblank d' ! q = vblank d ! q" "dev_lists d' = dev_lists d"
    "vc_ctl (vblank d' ! p) = (vc_ctl (vblank d ! p))\<lparr>vc_enabled := True\<rparr>"
proof (cases "vc_enabled (vblank d ! p)")
  case True
  then show thesis by (intro that [of d]) (simp_all add: drm_vblank_enable_def vc_ctl_def)
next
  case False
  obtain w where h: "enable_vblank_hook env p d = (0, d\<lparr>hw := w\<rparr>)"
    by (rule enable_hook_ok [OF assms, where d = d]) (rule that)
  let ?u = "drm_update_vblank_count env p False (d\<lparr>hw := w\<rparr>)"
  let ?d = "upd_vblank p (\<lambda>v. v\<lparr>vc_enabled := True\<rparr>) ?u"
  note r = count_rel_update [of p "d\<lparr>hw := w\<rparr>" env False] and
    r' = count_relD [OF count_rel_update [of p "d\<lparr>hw := w\<rparr>" env False]]
  show thesis
  proof (rule that)
    show "drm_vblank_enable env p d = (0, ?d)" using False h by (simp add: drm_vblank_enable_def)
    show "length (vblank ?d) = length (vblank d)" using r'(1) by simp
    show "vblank ?d ! q = vblank d ! q" if "q \<noteq> p" for q using r'(3) [OF that] that by simp
    show "dev_lists ?d = dev_lists d" using count_rel_lists [OF r] by (simp add: dev_lists_def)
    show "vc_ctl (vblank ?d ! p) = (vc_ctl (vblank d ! p))\<lparr>vc_enabled := True\<rparr>"
      using r'(1,2) assms(2) by (cases "vblank ?u ! p"; cases "vblank d ! p") (simp add: vc_ctl_def)
  qed
qed

lemma vblank_get_inv:
  assumes inv: "vblank_inv u d" and ok: "enable_works env (length (vblank d))" and p: "p < length (vblank d)"
  obtains (got) d' where "drm_vblank_get env p d = (0, d')" "vblank_inv (u(p := Suc (u p))) d'" "dev_lists d' = dev_lists d"
      "length (vblank d') = length (vblank d)" "vc_inmodeset (vblank d ! p) = 0" "vc_inmodeset (vblank d' ! p) = 0"
      "vc_enabled (vblank d' ! p)" "vc_pending_work (vblank d' ! p) = vc_pending_work (vblank d ! p)"
    | (refused) "drm_vblank_get env p d = (- EINVAL, d)" "vc_inmodeset (vblank d ! p) \<noteq> 0"
proof -
  let ?i = "upd_vblank p (\<lambda>v. v\<lparr>vc_refcount := vc_refcount v + 1\<rparr>) d"
  note c = inv_crtc [OF inv p, unfolded crtc_ok_def]
  have n: "length (vblank d) \<noteq> 0" "\<not> p \<ge> length (vblank d)" using p by auto
  have undo: "upd_vblank p (\<lambda>v. v\<lparr>vc_refcount := vc_refcount v - 1\<rparr>) ?i = d"
    using p by (simp add: upd_vblank_def)
  have fin: "vblank_inv (u(p := Suc (u p))) d'"
    if "length (vblank d') = length (vblank d)" "\<And>q. q \<noteq> p \<Longrightarrow> vblank d' ! q = vblank d ! q" "dev_lists d' = dev_lists d"
      "vc_ctl (vblank d' ! p) = (vc_ctl (vblank ?i ! p))\<lparr>vc_enabled := True\<rparr>" "vc_inmodeset (vblank d ! p) = 0" for d'
  proof (rule inv_update [OF inv])
    have "vc_refcount (vblank d' ! p) = vc_refcount (vblank d ! p) + 1" "vc_inmodeset (vblank d' ! p) = 0"
      "vc_pending_work (vblank d' ! p) = vc_pending_work (vblank d ! p)" "vc_enabled (vblank d' ! p)"
      using that(4,5) p by (cases "vblank d' ! p"; cases "vblank d ! p"; simp add: vc_ctl_def)+
    then show "crtc_ok (u(p := Suc (u p))) d' p" using c that(5) lists_eqD(5) [OF that(3)] by (simp add: crtc_ok_def)
    show "ev_pipe e < length (vblank d)" if "e \<in> set (vblank_event_list d')" for e
      using that lists_eqD(1) [OF \<open>dev_lists d' = dev_lists d\<close>] inv_events [OF inv] by simp
  qed (use that lists_eqD(5) [OF that(3)] in auto)
  show thesis
  proof (cases "vc_refcount (vblank d ! p) = 0")
    case True
    then have m: "vc_inmodeset (vblank d ! p) = 0" using c by (auto split: if_splits)
    obtain d' where e: "drm_vblank_enable env p ?i = (0, d')" "length (vblank d') = length (vblank ?i)"
      "\<And>q. q \<noteq> p \<Longrightarrow> vblank d' ! q = vblank ?i ! q" "dev_lists d' = dev_lists ?i"
      "vc_ctl (vblank d' ! p) = (vc_ctl (vblank ?i ! p))\<lparr>vc_enabled := True\<rparr>"
      by (rule vblank_enable_ok [of env ?i p]) (use ok p that in \<open>simp_all\<close>)
    have g: "drm_vblank_get env p d = (0, d')" using True n p e(1) by (simp add: drm_vblank_get_def Let_def)
    have s: "vc_inmodeset (vblank d' ! p) = 0" "vc_enabled (vblank d' ! p)"
      "vc_pending_work (vblank d' ! p) = vc_pending_work (vblank d ! p)"
      using e(5) m p by (cases "vblank d' ! p"; cases "vblank d ! p"; simp add: vc_ctl_def)+
    show thesis by (rule got [OF g fin]) (use e m s in simp_all)
  next
    case r: False
    show thesis
    proof (cases "vc_inmodeset (vblank d ! p) = 0")
      case True
      then have "vc_enabled (vblank d ! p)" using c r by blast
      then have g: "drm_vblank_get env p d = (0, ?i)" using r n p by (simp add: drm_vblank_get_def Let_def)
      show thesis by (rule got [OF g fin]) (use True p \<open>vc_enabled (vblank d ! p)\<close> in \<open>simp_all add: vc_ctl_def\<close>)
    next
      case False
      then have "\<not> vc_enabled (vblank d ! p)" using c by blast
      then have "drm_vblank_get env p d = (- EINVAL, d)"
        using r n p undo by (simp add: drm_vblank_get_def Let_def)
      then show thesis using refused False by blast
    qed
  qed
qed

text \<open>Dropping references, whoever held them: a user, an event or a work item.\<close>

lemma refs_inv:
  assumes inv: "vblank_inv u d" and p: "p < length (vblank d)" and len: "length (vblank d') = length (vblank d)"
    and other: "\<And>q. q \<noteq> p \<Longrightarrow> vblank d' ! q = vblank d ! q \<and> pending_on q d' = pending_on q d \<and> u' q = u q"
    and ref: "vc_refcount (vblank d' ! p) = vc_refcount (vblank d ! p) - int m"
    and ms: "vc_inmodeset (vblank d' ! p) = vc_inmodeset (vblank d ! p)"
    and en: "vc_enabled (vblank d' ! p) \<Longrightarrow> vc_enabled (vblank d ! p)"
      "vc_refcount (vblank d' ! p) \<noteq> 0 \<Longrightarrow> vc_enabled (vblank d' ! p) = vc_enabled (vblank d ! p)"
    and sum: "u' p + pending_on p d' + length (vc_pending_work (vblank d' ! p)) + m =
      u p + pending_on p d + length (vc_pending_work (vblank d ! p))"
    and ev: "set (vblank_event_list d') \<subseteq> set (vblank_event_list d)"
    and dw: "distinct (map work_id (vc_pending_work (vblank d' ! p)))"
  shows "vblank_inv u' d'"
proof (rule inv_update [OF inv len])
  note c = inv_crtc [OF inv p, unfolded crtc_ok_def]
  have "int (u' p + pending_on p d' + length (vc_pending_work (vblank d' ! p)) + m) =
      int (u p + pending_on p d + length (vc_pending_work (vblank d ! p)))" using sum by simp
  then show "crtc_ok u' d' p" using c ref ms en dw by (auto simp: crtc_ok_def)
qed (use other ev inv_events [OF inv] in auto)

lemma put_inv:
  assumes "vblank_inv u d" "p < length (vblank d)" "0 < u p"
  shows "vblank_inv (u(p := u p - 1)) (drm_vblank_put env p d)" "event_ids (drm_vblank_put env p d) = event_ids d"
    "length (vblank (drm_vblank_put env p d)) = length (vblank d)"
proof -
  have pos: "0 < vc_refcount (vblank d ! p)" using inv_crtc [OF assms(1,2)] assms(3) by (simp add: crtc_ok_def)
  note r = put_rel [OF assms(2) pos, of env]
  note l = lists_eqD [OF r(2)]
  show "vblank_inv (u(p := u p - 1)) (drm_vblank_put env p d)"
    by (rule refs_inv [OF assms(1,2), where m = 1]) (use r(1) assms(3) l inv_works [OF assms(1,2)] in \<open>auto simp: refs_rel_def\<close>)
  show "event_ids (drm_vblank_put env p d) = event_ids d" by (rule l(6))
  show "length (vblank (drm_vblank_put env p d)) = length (vblank d)" using r(1) by (simp add: refs_rel_def)
qed

lemma disable_fn_inv:
  assumes "vblank_inv u d" "p < length (vblank d)"
  shows "vblank_inv u (vblank_disable_fn env p d)" "event_ids (vblank_disable_fn env p d) = event_ids d"
    "length (vblank (vblank_disable_fn env p d)) = length (vblank d)"
proof -
  note r = disable_fn_rel [OF assms(2), of env]
  note l = lists_eqD [OF r(2)]
  show "vblank_inv u (vblank_disable_fn env p d)"
    by (rule refs_inv [OF assms, where m = 0]) (use r(1) l inv_works [OF assms] in \<open>auto simp: refs_rel_def\<close>)
  show "event_ids (vblank_disable_fn env p d) = event_ids d" by (rule l(6))
  show "length (vblank (vblank_disable_fn env p d)) = length (vblank d)" using r(1) by (simp add: refs_rel_def)
qed

lemma filter_length_split:
  assumes "\<And>e. P e \<Longrightarrow> Q e"
  shows "length (filter Q (filter (\<lambda>e. \<not> P e) es)) + length (filter P es) = length (filter Q es)"
  by (induction es) (use assms in auto)

lemma mset_ids_split:
  "mset (map f (filter (\<lambda>e. \<not> P e) es)) + mset (map f (filter P es)) = mset (map f es)"
  by (induction es) auto

lemma deliver_inv:
  assumes inv: "vblank_inv u d" and p: "p < length (vblank d)" and P: "\<And>e. P e \<Longrightarrow> ev_pipe e = p"
  shows "vblank_inv u (deliver_events env p seq now P [] (vblank_event_list d) d)"
    "event_ids (deliver_events env p seq now P [] (vblank_event_list d) d) = event_ids d"
    "length (vblank (deliver_events env p seq now P [] (vblank_event_list d) d)) = length (vblank d)"
proof -
  let ?d = "deliver_events env p seq now P [] (vblank_event_list d) d" and ?es = "vblank_event_list d"
  have s: "pending_on p d = length (filter (\<lambda>e. ev_pipe e = p) (filter (\<lambda>e. \<not> P e) ?es)) + length (filter P ?es)"
    unfolding pending_on_def by (rule filter_length_split [symmetric]) (rule P)
  then have "int (length (filter P ?es)) \<le> vc_refcount (vblank d ! p)"
    using inv_crtc [OF inv p] by (simp add: crtc_ok_def)
  note r = deliver_rel [OF p this, of env seq now "[]"]
  then have rr: "refs_rel p (length (filter P ?es)) d ?d" by blast
  have e: "vblank_event_list ?d = filter (\<lambda>e. \<not> P e) ?es" using r by simp
  have q: "pending_on q ?d = pending_on q d" if "q \<noteq> p" for q
    unfolding pending_on_def e filter_filter by (rule arg_cong [where f = length], rule filter_cong) (use P that in auto)
  show "vblank_inv u ?d"
    by (rule refs_inv [OF inv p, where m = "length (filter P ?es)"])
      (use rr e q s inv_works [OF inv p] in \<open>auto simp: refs_rel_def pending_on_def\<close>)
  show "event_ids ?d = event_ids d"
  proof -
    have "mset (map ev_id (delivered ?d)) = mset (map ev_id (delivered d)) + mset (map ev_id (filter P ?es))"
      using r by (simp only: mset_append)
    then show ?thesis unfolding event_ids_def e mset_ids_split [of ev_id P ?es, symmetric] by (simp only: ac_simps)
  qed
  show "length (vblank ?d) = length (vblank d)" using rr by (simp add: refs_rel_def)
qed

lemma take_works_inv:
  assumes inv: "vblank_inv u d" and p: "p < length (vblank d)"
  shows "vblank_inv u (take_works env p run P [] (vc_pending_work (vblank d ! p)) d)"
    "event_ids (take_works env p run P [] (vc_pending_work (vblank d ! p)) d) = event_ids d"
    "length (vblank (take_works env p run P [] (vc_pending_work (vblank d ! p)) d)) = length (vblank d)"
proof -
  let ?ks = "vc_pending_work (vblank d ! p)"
  let ?d = "take_works env p run P [] ?ks d"
  have s: "length ?ks = length (filter (\<lambda>k. \<not> P k) ?ks) + length (filter P ?ks)"
    using filter_length_split [of P "\<lambda>_. True" ?ks] by simp
  then have "int (length (filter P ?ks)) \<le> vc_refcount (vblank d ! p)"
    using inv_crtc [OF inv p] by (simp add: crtc_ok_def)
  note r = take_works_rel [OF p this, of env run "[]"]
  have len: "length (vblank ?d) = length (vblank d)" using r by (simp add: refs_rel_def)
  have "refs_rel p (length (filter P ?ks)) d (upd_vblank p (\<lambda>v. v\<lparr>vc_pending_work := ?ks\<rparr>) ?d)" using r by blast
  then have rr: "vc_refcount (vblank ?d ! p) = vc_refcount (vblank d ! p) - int (length (filter P ?ks))"
    "vc_inmodeset (vblank ?d ! p) = vc_inmodeset (vblank d ! p)"
    "vc_enabled (vblank ?d ! p) \<Longrightarrow> vc_enabled (vblank d ! p)"
    "vc_refcount (vblank ?d ! p) \<noteq> 0 \<Longrightarrow> vc_enabled (vblank ?d ! p) = vc_enabled (vblank d ! p)"
    "\<And>q. q \<noteq> p \<Longrightarrow> vblank ?d ! q = vblank d ! q"
    using p len unfolding refs_rel_def by auto
  have e: "vblank_event_list ?d = vblank_event_list d" "delivered ?d = delivered d"
    "vc_pending_work (vblank ?d ! p) = filter (\<lambda>k. \<not> P k) ?ks" using r by simp_all
  show "vblank_inv u ?d"
    by (rule refs_inv [OF inv p len, where m = "length (filter P ?ks)"])
      (use rr e s inv_works [OF inv p] in \<open>auto simp: pending_on_def distinct_map_filter\<close>)
  show "event_ids ?d = event_ids d" by (simp add: event_ids_def e)
  show "length (vblank ?d) = length (vblank d)" by (rule len)
qed

section \<open>Interrupts and modesets\<close>

lemma handle_vblank_inv:
  assumes "vblank_inv u d"
  shows "vblank_inv u (snd (drm_handle_vblank env p d))" "event_ids (snd (drm_handle_vblank env p d)) = event_ids d"
    "length (vblank (snd (drm_handle_vblank env p d))) = length (vblank d)"
proof -
  define d1 where "d1 = drm_update_vblank_count env p True d"
  define d2 where "d2 = drm_handle_vblank_events env p d1"
  define d3 where "d3 = drm_handle_vblank_works env p d2"
  define d4 where "d4 = (if vc_disable_immediate (vblank d1 ! p) \<and> vc_offdelay_ms (vblank d1 ! p) > 0 \<and>
    vc_refcount (vblank d1 ! p) = 0 then vblank_disable_fn env p d3 else d3)"
  have c: "count_rel p d d1" unfolding d1_def by (rule count_rel_update)
  have h: "snd (drm_handle_vblank env p d) = (if p < length (vblank d) \<and> vc_enabled (vblank d ! p) then d4 else d)"
    by (auto simp: drm_handle_vblank_def Let_def d1_def d2_def d3_def d4_def)
  have 1: "vblank_inv u d1" "event_ids d1 = event_ids d" "length (vblank d1) = length (vblank d)"
    using count_rel_inv [OF assms c] lists_eqD(6) [OF count_rel_lists [OF c]] count_relD(1) [OF c] by auto
  have all: "vblank_inv u d4 \<and> event_ids d4 = event_ids d \<and> length (vblank d4) = length (vblank d)"
    if p: "p < length (vblank d)"
  proof -
    have p1: "p < length (vblank d1)" using p 1(3) by simp
    have 2: "vblank_inv u d2" "event_ids d2 = event_ids d" "length (vblank d2) = length (vblank d)"
      using deliver_inv [OF 1(1) p1, where P = "\<lambda>e. ev_pipe e = p \<and>
          drm_vblank_passed (vc_count (vblank d1 ! p)) (ev_sequence e)" and env = env] 1 p
      by (simp_all add: d2_def drm_handle_vblank_events_def drm_vblank_count_and_time_def)
    then have p2: "p < length (vblank d2)" using p by simp
    have 3: "vblank_inv u d3" "event_ids d3 = event_ids d" "length (vblank d3) = length (vblank d)"
      using take_works_inv [OF 2(1) p2] 2 by (simp_all add: d3_def drm_handle_vblank_works_def)
    then have p3: "p < length (vblank d3)" using p by simp
    show ?thesis using disable_fn_inv [OF 3(1) p3, of env] 3 by (simp add: d4_def)
  qed
  show "vblank_inv u (snd (drm_handle_vblank env p d))" "event_ids (snd (drm_handle_vblank env p d)) = event_ids d"
    "length (vblank (snd (drm_handle_vblank env p d))) = length (vblank d)"
    using all assms by (simp_all add: h)
qed

lemma enter_modeset_frame [simp]:
  "length (vblank (enter_modeset p d)) = length (vblank d)" "dev_lists (enter_modeset p d) = dev_lists d"
  "q \<noteq> p \<Longrightarrow> vblank (enter_modeset p d) ! q = vblank d ! q"
  by (simp_all add: enter_modeset_def)

lemma enter_modeset_inv:
  assumes inv: "vblank_inv u d" and off: "\<not> vc_enabled (vblank d ! p)"
  shows "vblank_inv u (enter_modeset p d)"
proof (rule inv_update [OF inv, where p = p])
  note l = lists_eqD [OF enter_modeset_frame(2) [of p d]]
  show "crtc_ok u (enter_modeset p d) p" if p: "p < length (vblank d)"
    using inv_crtc [OF inv p] off p l(5) [of p] by (simp add: crtc_ok_def enter_modeset_def)
  show "ev_pipe e < length (vblank d)" if "e \<in> set (vblank_event_list (enter_modeset p d))" for e
    using that l(1) inv_events [OF inv] by simp
qed (use lists_eqD(5) [OF enter_modeset_frame(2) [of p d]] in auto)

text \<open>
  Turning an interrupt off for a modeset: between the two halves the invariant does not hold, the references are
  still held.
\<close>

lemma off_first_inv:
  assumes inv: "vblank_inv u d" and p: "p < length (vblank d)"
  shows "vblank_inv u (enter_modeset p (drm_vblank_disable_and_save env p d))"
proof (rule inv_update [OF inv, where p = p])
  let ?s = "drm_vblank_disable_and_save env p d"
  note r = disable_and_save [OF p, where env = env]
  have lists: "dev_lists (enter_modeset p ?s) = dev_lists d" using r(8) by simp
  note l = lists_eqD [OF lists]
  show "length (vblank (enter_modeset p ?s)) = length (vblank d)" using r(1) by simp
  show "crtc_ok u (enter_modeset p ?s) p"
    using inv_crtc [OF inv p] r p l(5) [of p] by (simp add: crtc_ok_def enter_modeset_def)
  show "vblank (enter_modeset p ?s) ! q = vblank d ! q \<and> pending_on q (enter_modeset p ?s) = pending_on q d \<and> u q = u q"
    if "q \<noteq> p" for q using r(2) [OF that] that l(5) by simp
  show "ev_pipe e < length (vblank d)" if "e \<in> set (vblank_event_list (enter_modeset p ?s))" for e
    using that l(1) inv_events [OF inv] by simp
qed

lemma hwmode_inv: "vblank_inv u d \<Longrightarrow> vblank_inv u (upd_vblank p (\<lambda>v. v\<lparr>vc_hwmode := m v\<rparr>) d)"
  by (rule inv_update [where p = p]) (auto simp: crtc_ok_def pending_on_def vblank_inv_def)

lemma vblank_off_inv:
  assumes inv: "vblank_inv u d" and ok: "feature_atomic env"
  shows "vblank_inv u (drm_crtc_vblank_off env p d)" "event_ids (drm_crtc_vblank_off env p d) = event_ids d"
    "length (vblank (drm_crtc_vblank_off env p d)) = length (vblank d)"
proof -
  define d1 where "d1 = enter_modeset p (drm_vblank_disable_and_save env p d)"
  define d2 where "d2 = deliver_events env p (vc_count (vblank d1 ! p)) (vc_time (vblank d1 ! p))
    (\<lambda>e. ev_pipe e = p) [] (vblank_event_list d1) d1"
  define d3 where "d3 = take_works env p False (\<lambda>k. True) [] (vc_pending_work (vblank d2 ! p)) d2"
  define d4 where "d4 = upd_vblank p (\<lambda>v. v\<lparr>vc_hwmode := (vc_hwmode v)\<lparr>crtc_clock := 0\<rparr>\<rparr>) d3"
  have all: "drm_crtc_vblank_off env p d = d4 \<and> vblank_inv u d4 \<and> event_ids d4 = event_ids d \<and>
      length (vblank d4) = length (vblank d)" if p: "p < length (vblank d)"
  proof -
    have l: "dev_lists d1 = dev_lists d" "length (vblank d1) = length (vblank d)"
      using disable_and_save(1,8) [OF p, where env = env] by (simp_all add: d1_def)
    have 1: "vblank_inv u d1" unfolding d1_def by (rule off_first_inv [OF inv p])
    have 2: "vblank_inv u d2" "event_ids d2 = event_ids d" "length (vblank d2) = length (vblank d)"
      using deliver_inv [OF 1, where P = "\<lambda>e. ev_pipe e = p" and p = p] p l lists_eqD(6) [OF l(1)]
      unfolding d2_def by simp_all
    then have 3: "vblank_inv u d3" "event_ids d3 = event_ids d" "length (vblank d3) = length (vblank d)"
      using take_works_inv [OF 2(1)] p unfolding d3_def by simp_all
    have "drm_crtc_vblank_off env p d = d4"
      using p l ok disable_and_save(1) [OF p, where env = env]
      by (simp add: drm_crtc_vblank_off_def drm_vblank_cancel_pending_works_def drm_vblank_count_and_time_def Let_def
          d1_def d2_def d3_def d4_def)
    moreover have "vblank_inv u d4" unfolding d4_def by (rule hwmode_inv [OF 3(1)])
    moreover have "event_ids d4 = event_ids d" using 3(2) by (simp add: d4_def event_ids_def)
    ultimately show ?thesis using 3(3) by (simp add: d4_def)
  qed
  have none: "drm_crtc_vblank_off env p d = d" if "\<not> p < length (vblank d)"
    using that by (simp add: drm_crtc_vblank_off_def)
  show "vblank_inv u (drm_crtc_vblank_off env p d)" "event_ids (drm_crtc_vblank_off env p d) = event_ids d"
    "length (vblank (drm_crtc_vblank_off env p d)) = length (vblank d)"
    using all none inv by (cases "p < length (vblank d)"; simp)+
qed

lemma vblank_on_inv:
  assumes inv: "vblank_inv u d" and ok: "enable_works env (length (vblank d))"
  shows "vblank_inv u (drm_crtc_vblank_on_config env p c d)" "event_ids (drm_crtc_vblank_on_config env p c d) = event_ids d"
    "length (vblank (drm_crtc_vblank_on_config env p c d)) = length (vblank d)"
proof -
  define d1 where "d1 = upd_vblank p (\<lambda>v. v\<lparr>vc_offdelay_ms := fst c, vc_disable_immediate := snd c\<rparr>) d"
  define d2 where "d2 = (if vc_inmodeset (vblank d1 ! p) \<noteq> 0
    then upd_vblank p (\<lambda>v. v\<lparr>vc_refcount := vc_refcount v - 1, vc_inmodeset := 0\<rparr>) d1 else d1)"
  define d3 where "d3 = drm_reset_vblank_timestamp env p d2"
  define d4 where "d4 = (if vc_refcount (vblank d3 ! p) \<noteq> 0 \<or> vc_offdelay_ms (vblank d3 ! p) = 0
    then snd (drm_vblank_enable env p d3) else d3)"
  have all: "vblank_inv u d4 \<and> event_ids d4 = event_ids d \<and> length (vblank d4) = length (vblank d)"
    if p: "p < length (vblank d)"
  proof -
    have l1: "dev_lists d2 = dev_lists d" "length (vblank d2) = length (vblank d)"
      "\<And>q. q \<noteq> p \<Longrightarrow> vblank d2 ! q = vblank d ! q" by (simp_all add: d1_def d2_def)
    have c2: "vc_inmodeset (vblank d2 ! p) = 0" "vc_pending_work (vblank d2 ! p) = vc_pending_work (vblank d ! p)"
      "vc_refcount (vblank d2 ! p) = int (u p + pending_on p d + length (vc_pending_work (vblank d ! p)))"
      "vc_inmodeset (vblank d ! p) = 0 \<Longrightarrow> vc_refcount (vblank d2 ! p) \<noteq> 0 \<Longrightarrow> vc_enabled (vblank d2 ! p)"
      using inv_crtc [OF inv p] p by (auto simp: d1_def d2_def crtc_ok_def)
    have r: "count_rel p d2 d3" unfolding d3_def by (rule count_rel_reset_timestamp)
    note r' = count_relD [OF r] and v = vc_ctl_eqD [OF count_relD(2) [OF r]]
    have ok3: "enable_works env (length (vblank d3))" "p < length (vblank d3)" using ok r'(1) l1(2) p by simp_all
    obtain e where e: "drm_vblank_enable env p d3 = (0, e)" "length (vblank e) = length (vblank d3)"
      "\<And>q. q \<noteq> p \<Longrightarrow> vblank e ! q = vblank d3 ! q" "dev_lists e = dev_lists d3"
      "vc_ctl (vblank e ! p) = (vc_ctl (vblank d3 ! p))\<lparr>vc_enabled := True\<rparr>"
      by (rule vblank_enable_ok [OF ok3]) (rule that)
    have ev: "vc_refcount (vblank e ! p) = vc_refcount (vblank d3 ! p)" "vc_inmodeset (vblank e ! p) = vc_inmodeset (vblank d3 ! p)"
      "vc_pending_work (vblank e ! p) = vc_pending_work (vblank d3 ! p)" "vc_enabled (vblank e ! p)"
      using e(5) by (cases "vblank e ! p"; cases "vblank d3 ! p"; simp add: vc_ctl_def)+
    have lists: "dev_lists d4 = dev_lists d" "length (vblank d4) = length (vblank d)"
      "\<And>q. q \<noteq> p \<Longrightarrow> vblank d4 ! q = vblank d ! q"
      using e(1-4) r'(1,3) l1 count_rel_lists [OF r] by (simp_all add: d4_def)
    note l = lists_eqD [OF lists(1)]
    have "crtc_ok u d4 p"
      using c2 v ev e(1) l(5) [of p] inv_works [OF inv p]
      by (simp add: crtc_ok_def d4_def)
    then have "vblank_inv u d4"
      by (rule inv_update [OF inv lists(2), where p = p]) (use lists(3) l inv_events [OF inv] in auto)
    then show ?thesis using l(6) lists(2) by simp
  qed
  have h: "drm_crtc_vblank_on_config env p c d = (if p < length (vblank d) then d4 else d)"
    unfolding drm_crtc_vblank_on_config_def Let_def d4_def d3_def d2_def d1_def
    by (simp only: linorder_not_le [symmetric] if_not_P split: if_split) blast
  show "vblank_inv u (drm_crtc_vblank_on_config env p c d)" "event_ids (drm_crtc_vblank_on_config env p c d) = event_ids d"
    "length (vblank (drm_crtc_vblank_on_config env p c d)) = length (vblank d)"
    using all inv by (simp_all add: h)
qed

section \<open>Events and work items\<close>

text \<open>An event that starts to wait takes over a reference of its user.\<close>

lemma enqueue_inv:
  assumes inv: "vblank_inv u d" and p: "p < length (vblank d)" and pos: "0 < u p" and e: "ev_pipe e = p"
  shows "vblank_inv (u(p := u p - 1)) (d\<lparr>vblank_event_list := vblank_event_list d @ [e]\<rparr>)"
    "event_ids (d\<lparr>vblank_event_list := vblank_event_list d @ [e]\<rparr>) = add_mset (ev_id e) (event_ids d)"
proof -
  show "vblank_inv (u(p := u p - 1)) (d\<lparr>vblank_event_list := vblank_event_list d @ [e]\<rparr>)"
    by (rule inv_update [OF inv, where p = p])
      (use inv_crtc [OF inv p] inv_events [OF inv] p pos e in \<open>auto simp: crtc_ok_def pending_on_def\<close>)
  show "event_ids (d\<lparr>vblank_event_list := vblank_event_list d @ [e]\<rparr>) = add_mset (ev_id e) (event_ids d)"
    by (simp add: event_ids_def)
qed

lemma send_inv:
  assumes "vblank_inv u d"
  shows "vblank_inv u (send_vblank_event env e seq now d)"
    "event_ids (send_vblank_event env e seq now d) = add_mset (ev_id e) (event_ids d)"
proof -
  show "vblank_inv u (send_vblank_event env e seq now d)"
    using assms by (simp add: vblank_inv_def crtc_ok_def pending_on_def)
  have "mset (map ev_id (delivered (send_vblank_event env e seq now d))) =
      add_mset (ev_id e) (mset (map ev_id (delivered d)))" unfolding send_frame(4) by simp
  then show "event_ids (send_vblank_event env e seq now d) = add_mset (ev_id e) (event_ids d)"
    by (simp add: event_ids_def)
qed

lemma crtc_event_inv [simp]:
  "vblank_inv u (d\<lparr>crtc_event := f\<rparr>) = vblank_inv u d" "event_ids (d\<lparr>crtc_event := f\<rparr>) = event_ids d"
  "vblank_inv u (d\<lparr>hw := w\<rparr>) = vblank_inv u d" "event_ids (d\<lparr>hw := w\<rparr>) = event_ids d"
  "vblank_inv u (d\<lparr>work_queue := q\<rparr>) = vblank_inv u d" "event_ids (d\<lparr>work_queue := q\<rparr>) = event_ids d"
  by (simp_all add: vblank_inv_def crtc_ok_def pending_on_def event_ids_def)

lemma arm_inv:
  assumes inv: "vblank_inv u d" and p: "p < length (vblank d)" and pos: "0 < u p"
  shows "vblank_inv (u(p := u p - 1)) (drm_crtc_arm_vblank_event env p e d)"
    "event_ids (drm_crtc_arm_vblank_event env p e d) = add_mset (ev_id e) (event_ids d)"
    "length (vblank (drm_crtc_arm_vblank_event env p e d)) = length (vblank d)"
proof -
  let ?d = "drm_update_vblank_count env p False d"
  let ?e = "e\<lparr>ev_pipe := p, ev_sequence := vc_count (vblank ?d ! p) + 1\<rparr>"
  have r: "count_rel p d ?d" by (rule count_rel_update)
  note i = count_rel_inv [OF inv r] and l = lists_eqD [OF count_rel_lists [OF r]] and n = count_relD(1) [OF r]
  have a: "drm_crtc_arm_vblank_event env p e d = ?d\<lparr>vblank_event_list := vblank_event_list ?d @ [?e]\<rparr>"
    using p n by (simp add: drm_crtc_arm_vblank_event_def drm_crtc_accurate_vblank_count_def drm_vblank_count_def Let_def)
  have p': "p < length (vblank ?d)" using p n by simp
  note q = enqueue_inv [OF i p' pos, where e = ?e]
  show "vblank_inv (u(p := u p - 1)) (drm_crtc_arm_vblank_event env p e d)" unfolding a using q(1) by simp
  show "event_ids (drm_crtc_arm_vblank_event env p e d) = add_mset (ev_id e) (event_ids d)"
    unfolding a using q(2) l(6) by simp
  show "length (vblank (drm_crtc_arm_vblank_event env p e d)) = length (vblank d)" unfolding a using n by simp
qed

lemma crtc_send_inv:
  assumes "vblank_inv u d"
  shows "vblank_inv u (drm_crtc_send_vblank_event env p e d)"
    "event_ids (drm_crtc_send_vblank_event env p e d) = add_mset (ev_id e) (event_ids d)"
    "length (vblank (drm_crtc_send_vblank_event env p e d)) = length (vblank d)"
  unfolding drm_crtc_send_vblank_event_def using assms
  by (auto simp: send_inv split: prod.split if_split)

lemma flush_inv:
  assumes inv: "vblank_inv u d" and ok: "enable_works env (length (vblank d))" and p: "p < length (vblank d)"
    and e: "crtc_event d p = Some e"
  shows "vblank_inv u (drm_crtc_vblank_atomic_flush env p d)"
    "event_ids (drm_crtc_vblank_atomic_flush env p d) = add_mset (ev_id e) (event_ids d)"
    "length (vblank (drm_crtc_vblank_atomic_flush env p d)) = length (vblank d)"
proof -
  let ?d = "d\<lparr>crtc_event := (crtc_event d)(p := None)\<rparr>"
  have i: "vblank_inv u ?d" "enable_works env (length (vblank ?d))" "p < length (vblank ?d)" using inv ok p by simp_all
  have "vblank_inv u (drm_crtc_vblank_atomic_flush env p d) \<and>
    event_ids (drm_crtc_vblank_atomic_flush env p d) = add_mset (ev_id e) (event_ids d) \<and>
    length (vblank (drm_crtc_vblank_atomic_flush env p d)) = length (vblank d)"
  proof (rule vblank_get_inv [OF i])
    fix d' assume g: "drm_vblank_get env p ?d = (0, d')" "vblank_inv (u(p := Suc (u p))) d'" "dev_lists d' = dev_lists ?d"
      "length (vblank d') = length (vblank ?d)"
    have f: "drm_crtc_vblank_atomic_flush env p d = drm_crtc_arm_vblank_event env p e d'"
      using e g(1) by (simp add: drm_crtc_vblank_atomic_flush_def)
    have "p < length (vblank d')" using g(4) p by simp
    note a = arm_inv [OF g(2) this, where e = e and env = env]
    have "(u(p := Suc (u p)))(p := (u(p := Suc (u p))) p - 1) = u" by simp
    then show ?thesis unfolding f using a lists_eqD(6) [OF g(3)] g(4) by simp
  next
    assume g: "drm_vblank_get env p ?d = (- EINVAL, ?d)"
    have f: "drm_crtc_vblank_atomic_flush env p d = drm_crtc_send_vblank_event env p e ?d"
      using e g by (simp add: drm_crtc_vblank_atomic_flush_def EINVAL_def)
    show ?thesis unfolding f using crtc_send_inv [OF i(1), of env p e] by simp
  qed
  then show "vblank_inv u (drm_crtc_vblank_atomic_flush env p d)"
    "event_ids (drm_crtc_vblank_atomic_flush env p d) = add_mset (ev_id e) (event_ids d)"
    "length (vblank (drm_crtc_vblank_atomic_flush env p d)) = length (vblank d)" by blast+
qed

text \<open>
  The tail the two event requests share: the reference is dropped, with or without sending the event, or the event
  waits with it.
\<close>

lemma queue_event_inv:
  assumes inv: "vblank_inv u d" and p: "p < length (vblank d)" and pos: "0 < u p"
    and q: "drm_queue_vblank_event env sv p req vw d = (ret, vw', d')"
  shows "vblank_inv (u(p := u p - 1)) d'"
    "event_ids d' = (if ret = 0 then add_mset (event_new_id sv) (event_ids d) else event_ids d)"
    "length (vblank d') = length (vblank d)"
proof -
  note put = put_inv [OF inv p pos, of env]
  note put_send = send_inv [OF put(1), of env]
  have "vblank_inv (u(p := u p - 1)) d' \<and>
    event_ids d' = (if ret = 0 then add_mset (event_new_id sv) (event_ids d) else event_ids d) \<and>
    length (vblank d') = length (vblank d)"
    using q put put_send enqueue_inv [OF inv p pos]
    by (auto simp: drm_queue_vblank_event_def drm_vblank_count_and_time_def new_event_def Let_def errno_defs
        split: if_splits)
  then show "vblank_inv (u(p := u p - 1)) d'"
    "event_ids d' = (if ret = 0 then add_mset (event_new_id sv) (event_ids d) else event_ids d)"
    "length (vblank d') = length (vblank d)" by blast+
qed

lemma queue_sequence_inv:
  assumes inv: "vblank_inv u d" and ok: "enable_works env (length (vblank d))" and p: "p < length (vblank d)"
    and q: "drm_crtc_queue_sequence_ioctl h env sv (Some p) qs d = (ret, qs', d')"
  shows "vblank_inv u d' \<and> event_ids d' = (if ret = 0 then add_mset (event_new_id sv) (event_ids d) else event_ids d) \<and>
    length (vblank d') = length (vblank d)"
proof (cases "feature_modeset env \<and> qs_flags qs AND NOT (DRM_CRTC_SEQUENCE_RELATIVE h OR DRM_CRTC_SEQUENCE_NEXT_ON_MISS h) = 0
    \<and> event_alloc sv")
  case False
  then show ?thesis using q inv p by (auto simp: drm_crtc_queue_sequence_ioctl_def errno_defs EOPNOTSUPP_def split: if_splits)
next
  case True
  have n: "length (vblank d) \<noteq> 0" using p by auto
  show ?thesis
  proof (rule vblank_get_inv [OF inv ok p])
    assume g: "drm_vblank_get env p d = (- EINVAL, d)"
    show ?thesis using q inv True n by (simp add: drm_crtc_queue_sequence_ioctl_def g errno_defs)
  next
    fix d1 assume g: "drm_vblank_get env p d = (0, d1)" "vblank_inv (u(p := Suc (u p))) d1" "dev_lists d1 = dev_lists d"
      "length (vblank d1) = length (vblank d)"
    have p1: "p < length (vblank d1)" "0 < (u(p := Suc (u p))) p" using g(4) p by simp_all
    have b: "(u(p := Suc (u p)))(p := (u(p := Suc (u p))) p - 1) = u" by simp
    note put = put_inv [OF g(2) p1, of env, unfolded b]
    note put_send = send_inv [OF put(1), of env] and enq = enqueue_inv [OF g(2) p1, unfolded b]
    show ?thesis
      using q True n put put_send enq g(4) lists_eqD(6) [OF g(3)]
      by (auto simp: drm_crtc_queue_sequence_ioctl_def g(1) drm_vblank_count_and_time_def new_event_def Let_def errno_defs
          split: if_splits)
  qed
qed

lemma get_sequence_inv:
  assumes inv: "vblank_inv u d" and ok: "enable_works env (length (vblank d))" and p: "p < length (vblank d)"
    and q: "drm_crtc_get_sequence_ioctl env (Some p) active d = (ret, r, d')"
  shows "vblank_inv u d' \<and> event_ids d' = event_ids d \<and> length (vblank d') = length (vblank d)"
proof (rule vblank_get_inv [OF inv ok p])
  assume g: "drm_vblank_get env p d = (- EINVAL, d)"
  show ?thesis using q inv by (auto simp: drm_crtc_get_sequence_ioctl_def g errno_defs Let_def split: if_splits prod.splits)
next
  fix d1 assume g: "drm_vblank_get env p d = (0, d1)" "vblank_inv (u(p := Suc (u p))) d1" "dev_lists d1 = dev_lists d"
    "length (vblank d1) = length (vblank d)"
  have p1: "p < length (vblank d1)" "0 < (u(p := Suc (u p))) p" using g(4) p by simp_all
  have b: "(u(p := Suc (u p)))(p := (u(p := Suc (u p))) p - 1) = u" by simp
  note put = put_inv [OF g(2) p1, of env, unfolded b]
  show ?thesis using q inv put g(4) lists_eqD(6) [OF g(3)]
    by (auto simp: drm_crtc_get_sequence_ioctl_def g(1) Let_def split: if_splits prod.splits)
qed

lemma length_filter_unlist:
  "distinct (map f xs) \<Longrightarrow> x \<in> f ` set xs \<Longrightarrow> Suc (length (filter (\<lambda>k. f k \<noteq> x) xs)) = length xs"
proof (induction xs)
  case (Cons a xs)
  show ?case
  proof (cases "f a = x")
    case True
    then have "x \<notin> f ` set xs" using Cons.prems(1) by simp
    then have "filter (\<lambda>k. f k \<noteq> x) xs = xs" by (intro filter_True) blast
    then show ?thesis using True by simp
  qed (use Cons in auto)
qed simp

text \<open>Taking a work item off the list and dropping its reference, in either order.\<close>

definition unlist_rel :: "nat \<Rightarrow> drm_vblank_work \<Rightarrow> 'w vblank_dev \<Rightarrow> 'w vblank_dev \<Rightarrow> bool" where
  "unlist_rel p k d d' \<longleftrightarrow> length (vblank d') = length (vblank d) \<and> (\<forall>q. q \<noteq> p \<longrightarrow> vblank d' ! q = vblank d ! q) \<and>
    vc_refcount (vblank d' ! p) = vc_refcount (vblank d ! p) - 1 \<and>
    vc_inmodeset (vblank d' ! p) = vc_inmodeset (vblank d ! p) \<and>
    (vc_enabled (vblank d' ! p) \<longrightarrow> vc_enabled (vblank d ! p)) \<and>
    (vc_refcount (vblank d' ! p) \<noteq> 0 \<longrightarrow> vc_enabled (vblank d' ! p) = vc_enabled (vblank d ! p)) \<and>
    vc_pending_work (vblank d' ! p) = filter (\<lambda>j. work_id j \<noteq> work_id k) (vc_pending_work (vblank d ! p))"

lemma unlist_relI:
  "p < length (vblank d) \<Longrightarrow> refs_rel p 1 d e \<Longrightarrow> unlist_rel p k d (work_unlist p k e)"
  "p < length (vblank d) \<Longrightarrow> refs_rel p 1 (work_unlist p k d) e \<Longrightarrow> unlist_rel p k d e"
  by (simp_all add: unlist_rel_def refs_rel_def work_unlist_def)

lemma unlist_put_inv:
  assumes inv: "vblank_inv u d" and p: "p < length (vblank d)" and k: "work_listed p k d"
    and d': "d' = work_unlist p k (drm_vblank_put env p d) \<or> d' = drm_vblank_put env p (work_unlist p k d)"
  shows "vblank_inv u d' \<and> event_ids d' = event_ids d \<and> length (vblank d') = length (vblank d)"
proof -
  have "0 < length (vc_pending_work (vblank d ! p))" using k by (auto simp: work_listed_def)
  then have pos: "0 < vc_refcount (vblank d ! p)"
    using inv_crtc [OF inv p] unfolding crtc_ok_def by linarith
  then have pos': "0 < vc_refcount (vblank (work_unlist p k d) ! p)" using p by (simp add: work_unlist_def)
  have p': "p < length (vblank (work_unlist p k d))" using p by (simp add: work_unlist_def)
  note r = put_rel [OF p pos, of env] and r' = put_rel [OF p' pos', of env]
  have len: "Suc (length (filter (\<lambda>j. work_id j \<noteq> work_id k) (vc_pending_work (vblank d ! p)))) =
      length (vc_pending_work (vblank d ! p))"
    using length_filter_unlist [OF inv_works [OF inv p], of "work_id k"] k by (simp add: work_listed_def)
  have lists: "dev_lists d' = dev_lists d" using d' r(2) r'(2) by (elim disjE) (simp_all add: work_unlist_def)
  have ur: "unlist_rel p k d d'"
    using d' unlist_relI(1) [OF p r(1), of k] unlist_relI(2) [OF p r'(1)] by blast
  note l = lists_eqD [OF lists] and f = ur [unfolded unlist_rel_def]
  have "vblank_inv u d'"
  proof (rule refs_inv [OF inv p, where m = 1])
    show "u p + pending_on p d' + length (vc_pending_work (vblank d' ! p)) + 1 =
        u p + pending_on p d + length (vc_pending_work (vblank d ! p))" using f len l(5) [of p] by simp
    show "distinct (map work_id (vc_pending_work (vblank d' ! p)))"
      using f inv_works [OF inv p] by (simp add: distinct_map_filter)
    show "set (vblank_event_list d') \<subseteq> set (vblank_event_list d)" using l(1) by simp
  qed (use f l(5) in simp_all)
  then show ?thesis using l(6) f by simp
qed

lemma relabel_ids: "map work_id (map (\<lambda>k. if work_id k = work_id w then w else k) ks) = map work_id ks"
  by (induction ks) auto

lemma relabel_inv:
  assumes inv: "vblank_inv u d"
  shows "vblank_inv u (upd_vblank p (\<lambda>v. v\<lparr>vc_pending_work := map (\<lambda>k. if work_id k = work_id w then w else k)
    (vc_pending_work v)\<rparr>) d)"
proof (rule inv_update [OF inv, where p = p])
  show "crtc_ok u (upd_vblank p (\<lambda>v. v\<lparr>vc_pending_work := map (\<lambda>k. if work_id k = work_id w then w else k)
      (vc_pending_work v)\<rparr>) d) p" if "p < length (vblank d)"
    using inv_crtc [OF inv that] that relabel_ids [of w "vc_pending_work (vblank d ! p)"]
    by (simp add: crtc_ok_def pending_on_def del: map_map)
qed (use inv_events [OF inv] in \<open>auto simp: pending_on_def\<close>)

lemma list_work_inv:
  assumes inv: "vblank_inv u d" and p: "p < length (vblank d)" and pos: "0 < u p" and k: "\<not> work_listed p k d"
  shows "vblank_inv (u(p := u p - 1)) (upd_vblank p (\<lambda>v. v\<lparr>vc_pending_work := vc_pending_work v @ [k]\<rparr>) d)"
proof (rule inv_update [OF inv, where p = p])
  show "crtc_ok (u(p := u p - 1)) (upd_vblank p (\<lambda>v. v\<lparr>vc_pending_work := vc_pending_work v @ [k]\<rparr>) d) p"
    using inv_crtc [OF inv p] p pos k by (auto simp: crtc_ok_def pending_on_def work_listed_def)
qed (use inv_events [OF inv] in \<open>auto simp: pending_on_def\<close>)

lemma work_schedule_inv:
  assumes inv: "vblank_inv u d" and ok: "enable_works env (length (vblank d))" and p: "p < length (vblank d)"
    and q: "drm_vblank_work_schedule env kq p k c miss d = (ret, k', d')"
  shows "vblank_inv u d' \<and> event_ids d' = event_ids d \<and> length (vblank d') = length (vblank d)"
proof (cases "cancelling k \<noteq> 0 \<or> vc_inmodeset (vblank d ! p) \<noteq> 0 \<or> (work_listed p k d \<and> work_count k = c)")
  case True
  then show ?thesis using q inv by (auto simp: drm_vblank_work_schedule_def Let_def split: if_splits)
next
  case F: False
  let ?k = "k\<lparr>work_count := c\<rparr>"
  let ?r = "upd_vblank p (\<lambda>v. v\<lparr>vc_pending_work := map (\<lambda>j. if work_id j = work_id k then ?k else j) (vc_pending_work v)\<rparr>)"
  have ri: "vblank_inv v (?r x)" if "vblank_inv v x" for v x using relabel_inv [OF that, of p ?k] by simp
  have rl: "work_listed p ?k (?r x) = work_listed p k x" if "p < length (vblank x)" for x
    using that relabel_ids [of ?k "vc_pending_work (vblank x ! p)"]
    by (simp add: work_listed_def flip: set_map del: map_map)
  have rid: "event_ids (?r x) = event_ids x" for x by (simp add: event_ids_def)
  show ?thesis
  proof (cases "work_listed p k d")
    case True
    have "work_listed p ?k (?r d)" "p < length (vblank (?r d))" using rl [OF p] True p by simp_all
    note up = unlist_put_inv [OF ri [OF inv] this(2,1) disjI1 [OF refl], of env]
    have wq: "work_unlist p ?k (x\<lparr>work_queue := y\<rparr>) = (work_unlist p ?k x)\<lparr>work_queue := y\<rparr>" for x y
      by (simp add: work_unlist_def upd_vblank_def)
    show ?thesis
      using q F True ri [OF inv] rid [of d] up
      by (auto simp: drm_vblank_work_schedule_def Let_def wq split: if_splits)
  next
    case False
    show ?thesis
    proof (rule vblank_get_inv [OF inv ok p])
      assume "vc_inmodeset (vblank d ! p) \<noteq> 0" then show ?thesis using F by blast
    next
      fix d1 assume g: "drm_vblank_get env p d = (0, d1)" "vblank_inv (u(p := Suc (u p))) d1" "dev_lists d1 = dev_lists d"
        "length (vblank d1) = length (vblank d)" "vc_pending_work (vblank d1 ! p) = vc_pending_work (vblank d ! p)"
      have nl: "\<not> work_listed p k d1" using False g(5) by (simp add: work_listed_def)
      have p1: "p < length (vblank (?r d1))" "0 < (u(p := Suc (u p))) p" "p < length (vblank d1)" using g(4) p by simp_all
      have b: "(u(p := Suc (u p)))(p := (u(p := Suc (u p))) p - 1) = u" by simp
      have "\<not> work_listed p ?k (?r d1)" using rl [OF p1(3)] nl by simp
      note li = list_work_inv [OF ri [OF g(2)] p1(1,2) this, unfolded b]
      note put = put_inv [OF ri [OF g(2)] p1(1,2), of env, unfolded b]
      show ?thesis
        using q F False put li g(4) rid lists_eqD(6) [OF g(3)]
        by (auto simp: drm_vblank_work_schedule_def Let_def g(1) event_ids_def split: if_splits)
    qed
  qed
qed

lemma work_cancel_inv:
  assumes inv: "vblank_inv u d" and p: "p < length (vblank d)"
  shows "vblank_inv u (snd (drm_vblank_work_cancel_sync env c p k d)) \<and>
    event_ids (snd (drm_vblank_work_cancel_sync env c p k d)) = event_ids d \<and>
    length (vblank (snd (drm_vblank_work_cancel_sync env c p k d))) = length (vblank d)"
  using unlist_put_inv [OF inv p _ disjI2 [OF refl], of k env] inv
  by (auto simp: drm_vblank_work_cancel_sync_def Let_def)

section \<open>All interleavings\<close>

text \<open>
  One step of a device: an operation of some user, an interrupt, the disable timer, or the hardware changing. The
  state carries the references users hold and the events handed to the core so far.
\<close>

record 'w vblank_run =
  users :: "nat \<Rightarrow> nat"
  submitted :: "nat multiset"
  vdev :: "'w vblank_dev"

inductive vblank_step :: "'w vblank_env \<Rightarrow> 'w vblank_run \<Rightarrow> 'w vblank_run \<Rightarrow> bool" for env where
  hw_change: "vblank_step env s (s\<lparr>vdev := (vdev s)\<lparr>hw := w\<rparr>\<rparr>)"
| get: "p < num_crtcs (vdev s) \<Longrightarrow> drm_vblank_get env p (vdev s) = (ret, d') \<Longrightarrow>
    vblank_step env s (s\<lparr>users := if ret = 0 then (users s)(p := Suc (users s p)) else users s, vdev := d'\<rparr>)"
| put: "p < num_crtcs (vdev s) \<Longrightarrow> 0 < users s p \<Longrightarrow>
    vblank_step env s (s\<lparr>users := (users s)(p := users s p - 1), vdev := drm_vblank_put env p (vdev s)\<rparr>)"
| interrupt: "vblank_step env s (s\<lparr>vdev := snd (drm_handle_vblank env p (vdev s))\<rparr>)"
| timer: "p < num_crtcs (vdev s) \<Longrightarrow> vblank_step env s (s\<lparr>vdev := vblank_disable_fn env p (vdev s)\<rparr>)"
| off: "vblank_step env s (s\<lparr>vdev := drm_crtc_vblank_off env p (vdev s)\<rparr>)"
| on: "vblank_step env s (s\<lparr>vdev := drm_crtc_vblank_on_config env p c (vdev s)\<rparr>)"
| reset: "\<not> vc_enabled (vblank (vdev s) ! p) \<Longrightarrow> vblank_step env s (s\<lparr>vdev := drm_crtc_vblank_reset p (vdev s)\<rparr>)"
| commit_event: "vblank_step env s (s\<lparr>vdev := (vdev s)\<lparr>crtc_event := (crtc_event (vdev s))(p := Some e)\<rparr>\<rparr>)"
| flush: "p < num_crtcs (vdev s) \<Longrightarrow> crtc_event (vdev s) p = Some e \<Longrightarrow>
    vblank_step env s (s\<lparr>submitted := add_mset (ev_id e) (submitted s),
      vdev := drm_crtc_vblank_atomic_flush env p (vdev s)\<rparr>)"
| arm: "p < num_crtcs (vdev s) \<Longrightarrow> 0 < users s p \<Longrightarrow>
    vblank_step env s (s\<lparr>users := (users s)(p := users s p - 1), submitted := add_mset (ev_id e) (submitted s),
      vdev := drm_crtc_arm_vblank_event env p e (vdev s)\<rparr>)"
| send: "vblank_step env s (s\<lparr>submitted := add_mset (ev_id e) (submitted s),
      vdev := drm_crtc_send_vblank_event env p e (vdev s)\<rparr>)"
| queue_event: "p < num_crtcs (vdev s) \<Longrightarrow> 0 < users s p \<Longrightarrow>
    drm_queue_vblank_event env sv p req vw (vdev s) = (ret, vw', d') \<Longrightarrow>
    vblank_step env s (s\<lparr>users := (users s)(p := users s p - 1),
      submitted := if ret = 0 then add_mset (event_new_id sv) (submitted s) else submitted s, vdev := d'\<rparr>)"
| queue_sequence: "p < num_crtcs (vdev s) \<Longrightarrow>
    drm_crtc_queue_sequence_ioctl h env sv (Some p) qs (vdev s) = (ret, qs', d') \<Longrightarrow>
    vblank_step env s (s\<lparr>submitted := if ret = 0 then add_mset (event_new_id sv) (submitted s) else submitted s, vdev := d'\<rparr>)"
| get_sequence: "p < num_crtcs (vdev s) \<Longrightarrow> drm_crtc_get_sequence_ioctl env (Some p) active (vdev s) = (ret, r, d') \<Longrightarrow>
    vblank_step env s (s\<lparr>vdev := d'\<rparr>)"
| schedule: "p < num_crtcs (vdev s) \<Longrightarrow> drm_vblank_work_schedule env kq p k c miss (vdev s) = (ret, k', d') \<Longrightarrow>
    vblank_step env s (s\<lparr>vdev := d'\<rparr>)"
| cancel: "p < num_crtcs (vdev s) \<Longrightarrow>
    vblank_step env s (s\<lparr>vdev := snd (drm_vblank_work_cancel_sync env c p k (vdev s))\<rparr>)"

text \<open>A device as \<open>drm_vblank_init\<close> leaves it.\<close>

definition vblank_fresh :: "nat \<Rightarrow> 'w vblank_run \<Rightarrow> bool" where
  "vblank_fresh n s \<longleftrightarrow> (\<exists>dev. drm_vblank_init True (\<lambda>_. 0) n dev = (0, vdev s) \<and> vblank_event_list dev = [] \<and> delivered dev = []) \<and>
     users s = (\<lambda>_. 0) \<and> submitted s = {#}"

definition run_ok :: "nat \<Rightarrow> 'w vblank_run \<Rightarrow> bool" where
  "run_ok n s \<longleftrightarrow> vblank_inv (users s) (vdev s) \<and> submitted s = event_ids (vdev s) \<and> num_crtcs (vdev s) = n"

lemma fresh_ok:
  assumes "vblank_fresh n s"
  shows "run_ok n s"
proof -
  obtain dev where d: "drm_vblank_init True (\<lambda>_. 0) n dev = (0, vdev s)" "vblank_event_list dev = []" "delivered dev = []"
    and u: "users s = (\<lambda>_. 0)" "submitted s = {#}" using assms by (auto simp: vblank_fresh_def)
  have "vdev s = dev\<lparr>vblank := replicate n vblank_zero\<rparr>" using d(1) by (simp add: drm_vblank_init_def)
  then show ?thesis using d(2,3) u
    by (simp add: run_ok_def vblank_inv_def crtc_ok_def pending_on_def event_ids_def vblank_zero_def)
qed

lemma step_ok:
  assumes "vblank_step env s s'" "run_ok n s" "enable_works env n"
  shows "run_ok n s'"
  using assms(1)
proof cases
  case (get p ret d')
  have a: "vblank_inv (users s) (vdev s)" "enable_works env (num_crtcs (vdev s))" using assms(2,3) by (simp_all add: run_ok_def)
  show ?thesis by (rule vblank_get_inv [OF a get(2)]) (use get assms(2) in \<open>auto simp: run_ok_def errno_defs dest!: lists_eqD(6)\<close>)
next
  case (put p)
  then show ?thesis using put_inv [of "users s" "vdev s" p env] assms(2) by (simp add: run_ok_def)
next
  case (interrupt p)
  then show ?thesis using handle_vblank_inv [of "users s" "vdev s" env p] assms(2) by (simp add: run_ok_def)
next
  case (timer p)
  then show ?thesis using disable_fn_inv [of "users s" "vdev s" p env] assms(2) by (simp add: run_ok_def)
next
  case (off p)
  then show ?thesis using vblank_off_inv [of "users s" "vdev s" env p] assms(2,3) by (simp add: run_ok_def enable_works_def)
next
  case (on p c)
  then show ?thesis using vblank_on_inv [of "users s" "vdev s" env p c] assms(2,3) by (simp add: run_ok_def)
next
  case (reset p)
  then show ?thesis using enter_modeset_inv [of "users s" "vdev s" p] assms(2) lists_eqD(6) [OF enter_modeset_frame(2) [of p "vdev s"]]
    by (simp add: run_ok_def drm_crtc_vblank_reset_def)
next
  case (flush p e)
  then show ?thesis using flush_inv [of "users s" "vdev s" env p e] assms(2,3) by (simp add: run_ok_def)
next
  case (arm p e)
  then show ?thesis using arm_inv [of "users s" "vdev s" p env e] assms(2,3) by (simp add: run_ok_def)
next
  case (send p e)
  then show ?thesis using crtc_send_inv [of "users s" "vdev s" env p e] assms(2,3) by (simp add: run_ok_def)
next
  case (queue_event p sv req vw ret vw' d')
  then show ?thesis using queue_event_inv [of "users s" "vdev s" p env sv req vw ret vw' d'] assms(2,3) by (simp add: run_ok_def)
next
  case (queue_sequence p h sv qs ret qs' d')
  then show ?thesis using queue_sequence_inv [of "users s" "vdev s" env p h sv qs ret qs' d'] assms(2,3) by (simp add: run_ok_def)
next
  case (get_sequence p active ret r d')
  then show ?thesis using get_sequence_inv [of "users s" "vdev s" env p active ret r d'] assms(2,3) by (simp add: run_ok_def)
next
  case (schedule p kq k c miss ret k' d')
  then show ?thesis using work_schedule_inv [of "users s" "vdev s" env p kq k c miss ret k' d'] assms(2,3) by (simp add: run_ok_def)
next
  case (cancel p c k)
  then show ?thesis using work_cancel_inv [of "users s" "vdev s" p env c k] assms(2,3) by (simp add: run_ok_def)
qed (use assms(2) in \<open>simp_all add: run_ok_def\<close>)

lemma reachable_ok:
  assumes "(vblank_step env)\<^sup>*\<^sup>* s s'" "run_ok n s" "enable_works env n"
  shows "run_ok n s'"
  using assms(1) by (induction rule: rtranclp_induct) (use assms(2,3) step_ok in auto)

section \<open>Properties\<close>

text \<open>C26: whatever users, interrupts, timers and modesets do, in any order, from initialisation on: the reference
  count of every CRTC's interrupt is exactly the references held (by users, waiting events, scheduled work and a modeset in
  progress), the interrupt is on whenever someone holds a reference outside a modeset and off during one, and the events waiting together
  with those delivered are exactly the ones handed to the core: none is lost, none is delivered twice.\<close>

theorem vblank_reachable_invariant:
  assumes "vblank_fresh n s0" "enable_works env n" "(vblank_step env)\<^sup>*\<^sup>* s0 s" "p < n"
  shows "vc_refcount (vblank (vdev s) ! p) = int (users s p + pending_on p (vdev s) +
       length (vc_pending_work (vblank (vdev s) ! p)) + (if vc_inmodeset (vblank (vdev s) ! p) \<noteq> 0 then 1 else 0)) \<and>
    (vc_inmodeset (vblank (vdev s) ! p) = 0 \<and> vc_refcount (vblank (vdev s) ! p) \<noteq> 0 \<longrightarrow> vc_enabled (vblank (vdev s) ! p)) \<and>
    (vc_inmodeset (vblank (vdev s) ! p) \<noteq> 0 \<longrightarrow> \<not> vc_enabled (vblank (vdev s) ! p)) \<and>
    mset (map ev_id (vblank_event_list (vdev s))) + mset (map ev_id (delivered (vdev s))) = submitted s"
proof -
  have r: "run_ok n s" by (rule reachable_ok [OF assms(3) fresh_ok [OF assms(1)] assms(2)])
  then have "crtc_ok (users s) (vdev s) p" using assms(4) inv_crtc [of "users s" "vdev s" p] by (simp add: run_ok_def)
  then show ?thesis using r by (simp add: crtc_ok_def run_ok_def event_ids_def)
qed

text \<open>An example: hardware that is nothing but a frame counter, and a user that takes a reference.\<close>

definition demo_env :: "u32 vblank_env" where
  "demo_env = \<lparr>feature_modeset = True, feature_atomic = True, crtc_from_index = (\<lambda>_. True),
     hook_enable_vblank = (\<lambda>_. Some (\<lambda>w. (0, w))), hook_disable_vblank = (\<lambda>_. Some (\<lambda>w. w)),
     hook_get_vblank_counter = (\<lambda>_. Some (\<lambda>w. (w, w))), hook_get_vblank_timestamp = (\<lambda>_. None),
     ktime_get = (\<lambda>w. (0, w)), ktime_to_timespec64 = (\<lambda>t. (0, 0)), drm_timestamp_precision = 20,
     drm_vblank_offdelay = 5000\<rparr>"

definition demo_dev :: "u32 vblank_dev" where
  "demo_dev = snd (drm_vblank_init True (\<lambda>_. 0) 1 \<lparr>hw = 7, vblank = [], max_vblank_count = 0xFFFFFFFF,
     vblank_disable_immediate = False, vblank_event_list = [], crtc_event = (\<lambda>_. None), delivered = [], work_queue = []\<rparr>)"

definition demo_run :: "u32 vblank_run" where
  "demo_run = \<lparr>users = (\<lambda>_. 0), submitted = {#}, vdev = demo_dev\<rparr>"

theorem vblank_reachable_invariant_witness:
  "vc_refcount (vblank (snd (drm_vblank_get demo_env 0 demo_dev)) ! 0) = 1"
proof -
  let ?d = "snd (drm_vblank_get demo_env 0 demo_dev)"
  let ?s = "demo_run\<lparr>users := (users demo_run)(0 := Suc (users demo_run 0)), vdev := ?d\<rparr>"
  have f: "vblank_fresh 1 demo_run"
    unfolding vblank_fresh_def demo_run_def demo_dev_def
    by (auto simp: drm_vblank_init_def intro!: exI [of _ "\<lparr>hw = 7, vblank = [], max_vblank_count = 0xFFFFFFFF,
      vblank_disable_immediate = False, vblank_event_list = [], crtc_event = (\<lambda>_. None), delivered = [], work_queue = []\<rparr>"])
  have e: "enable_works demo_env 1" by (simp add: enable_works_def demo_env_def)
  have g: "drm_vblank_get demo_env 0 (vdev demo_run) = (0, ?d)"
  proof -
    have "fst (drm_vblank_get demo_env 0 demo_dev) = 0" by code_simp
    then show ?thesis by (simp add: demo_run_def prod_eq_iff)
  qed
  have n: "0 < num_crtcs (vdev demo_run)" by (simp add: demo_run_def demo_dev_def drm_vblank_init_def)
  have "(vblank_step demo_env)\<^sup>*\<^sup>* demo_run ?s" using vblank_step.get [OF n g] by simp
  note i = vblank_reachable_invariant [OF f e this, of 0]
  have z: "pending_on 0 ?d = 0" "vc_pending_work (vblank ?d ! 0) = []" "vc_inmodeset (vblank ?d ! 0) = 0" by code_simp+
  show ?thesis using i z by (simp add: demo_run_def)
qed

end
