(* ===== verification/Drm_Vblank_Count.thy ===== *)
theory Drm_Vblank_Count
  imports Drm_Vblank_Inv
begin

text \<open>
  What vertical blanking promises its users when the hardware has a frame counter: the 64-bit count follows the
  frames although the hardware counter wraps, and an event armed by a commit is delivered by the next interrupt. The
  hardware interface is the locale \<open>frame_counter\<close>. The second half shows that the core keeps the laws the display
  drivers rely on (\<open>vblank_laws\<close>) for every driver whose hooks write only the interrupt registers.
\<close>

section \<open>Words\<close>

lemma ucast_diff_down: "(ucast (a - b :: u64) :: u32) = ucast a - ucast b"
proof transfer
  fix a b :: int
  show "take_bit LENGTH(32) (take_bit LENGTH(64) (a - b)) =
    take_bit LENGTH(32) (take_bit LENGTH(64) a - take_bit LENGTH(64) b)"
    using take_bit_diff [of 32 "take_bit 64 a" "take_bit 64 b"] take_bit_diff [of 32 a b] by simp
qed

lemma scast_of_int: "- (2 ^ 31) \<le> d \<Longrightarrow> d < 2 ^ 31 \<Longrightarrow> (scast (word_of_int d :: u32) :: u64) = word_of_int d"
  by transfer (use signed_take_bit_int_eq_self [of 31] in simp)

lemma ucast_up_down: "(ucast (ucast (y :: u32) :: u64) :: u32) = y"
  by transfer simp

lemma ucast_of_int_down: "(ucast (word_of_int d :: u64) :: u32) = word_of_int d"
  by transfer simp

lemma take_bit_of_int: "k \<le> 32 \<Longrightarrow> take_bit k (word_of_int x :: u32) = word_of_int (take_bit k x)"
  by transfer (simp add: min_def)

text \<open>The number of frames between two readings of a \<open>k\<close>-bit counter.\<close>

lemma counter_diff:
  assumes "k \<le> 32" "M \<le> N" "N < M + 2 ^ k"
  shows "(of_nat (N mod 2 ^ k) - of_nat (M mod 2 ^ k) :: u32) AND mask k = of_nat (N - M)"
proof -
  have "(of_nat (N mod 2 ^ k) - of_nat (M mod 2 ^ k) :: u32) = word_of_int (int (N mod 2 ^ k) - int (M mod 2 ^ k))"
    by simp
  moreover have "take_bit k (int (N mod 2 ^ k) - int (M mod 2 ^ k)) = int (N - M)"
  proof -
    have "(int (N mod 2 ^ k) - int (M mod 2 ^ k)) mod 2 ^ k = (int N - int M) mod 2 ^ k"
      by (simp add: of_nat_mod mod_diff_eq)
    also have "\<dots> = int N - int M"
    proof (rule mod_pos_pos_trivial)
      have "int N < int (M + 2 ^ k)" using assms(3) by (simp only: of_nat_less_iff)
      then show "int N - int M < 2 ^ k" by simp
    qed (use assms(2) in simp)
    finally show ?thesis using assms(2) by (simp add: take_bit_eq_mod of_nat_diff)
  qed
  ultimately show ?thesis
    by (simp only: take_bit_eq_mask [symmetric] take_bit_of_int [OF assms(1)] of_int_of_nat_eq)
qed

lemma of_nat_small_zero: "n < 2 ^ 32 \<Longrightarrow> (of_nat n :: u32) = 0 \<Longrightarrow> n = 0"
  using word_of_nat_eq_0_iff [of n, where 'a = 32] by (auto dest: dvd_imp_le)

section \<open>Widening\<close>

text \<open>a client's 32-bit sequence number is widened to the 64-bit count it stands for: if the count \<open>x\<close> it means is
  less than $2^{31}$ away from the current one, then widening its low half gives \<open>x\<close> back.\<close>

theorem widen_32_to_64_roundtrip:
  assumes "- (2 ^ 31) \<le> d" "d < 2 ^ 31" "x = near + word_of_int d"
  shows "widen_32_to_64 (ucast x) near = x"
proof -
  have "x - near = word_of_int d" using assms(3) by simp
  then have "(ucast (ucast (ucast x :: u32) - near) :: u32) = word_of_int d"
    by (metis ucast_diff_down ucast_up_down ucast_of_int_down)
  then show ?thesis using assms(3) scast_of_int [OF assms(1,2)] by (simp add: widen_32_to_64_def)
qed

theorem widen_32_to_64_roundtrip_witness: "widen_32_to_64 (ucast (0x200000001 :: u64)) 0x1FFFFFFF0 = 0x200000001"
  using widen_32_to_64_roundtrip [of 17 "0x200000001" "0x1FFFFFFF0"] by simp

section \<open>Hardware with a frame counter\<close>

locale frame_counter =
  fixes env :: "'w vblank_env" and p :: nat and frames :: "'w \<Rightarrow> u32"
  assumes modeset: "feature_modeset env" and crtc_exists: "crtc_from_index env p"
    and reads: "\<exists>f. hook_get_vblank_counter env p = Some f \<and> (\<forall>w. fst (f w) = frames w \<and> frames (snd (f w)) = frames w)"
    and enable_frames: "hook_enable_vblank env p = Some en \<Longrightarrow> frames (snd (en w)) = frames w"
    and disable_frames: "hook_disable_vblank env p = Some dis \<Longrightarrow> frames (dis w) = frames w"
    and stamp_frames: "hook_get_vblank_timestamp env p = Some ts \<Longrightarrow> frames (snd (snd (ts v m b w))) = frames w"
    and clock_frames: "frames (snd (ktime_get env w)) = frames w"
begin

lemma counter_read:
  obtains w where "get_vblank_counter env p d = (frames (hw d), d\<lparr>hw := w\<rparr>)" "frames w = frames (hw d)"
proof -
  obtain f where f: "hook_get_vblank_counter env p = Some f" "\<And>w. fst (f w) = frames w" "\<And>w. frames (snd (f w)) = frames w"
    using reads by blast
  show thesis
    by (rule that [of "snd (f (hw d))"])
      (use f modeset crtc_exists in \<open>simp_all add: get_vblank_counter_def case_prod_beta Let_def\<close>)
qed

lemma timestamp_read:
  obtains rc t w where "drm_get_last_vbltimestamp env p irq d = (rc, t, d\<lparr>hw := w\<rparr>)" "frames w = frames (hw d)"
proof -
  have "\<exists>rc t w. drm_get_last_vbltimestamp env p irq d = (rc, t, d\<lparr>hw := w\<rparr>) \<and> frames w = frames (hw d)"
  proof (cases "if crtc_from_index env p \<and> wrap32 (wrap32 (uint (drm_timestamp_precision env)) * 1000) > 0
      then hook_get_vblank_timestamp env p else None")
    case None
    then show ?thesis using clock_frames [of "hw d"]
      by (auto simp: drm_get_last_vbltimestamp_def drm_crtc_get_last_vbltimestamp_def Let_def split: prod.split)
  next
    case (Some f)
    then have h: "hook_get_vblank_timestamp env p = Some f" by (simp split: if_splits)
    show ?thesis using Some stamp_frames [OF h] clock_frames
      by (auto simp: drm_get_last_vbltimestamp_def drm_crtc_get_last_vbltimestamp_def Let_def split: prod.split)
        (metis snd_conv)+
  qed
  then show thesis using that by blast
qed

lemma counter_and_timestamp_read:
  obtains rc t w where "get_vblank_counter_and_timestamp env p irq d = (rc, frames (hw d), t, d\<lparr>hw := w\<rparr>)"
    "frames w = frames (hw d)"
proof -
  obtain w1 where 1: "get_vblank_counter env p d = (frames (hw d), d\<lparr>hw := w1\<rparr>)" "frames w1 = frames (hw d)"
    by (rule counter_read)
  obtain rc t w2 where 2: "drm_get_last_vbltimestamp env p irq (d\<lparr>hw := w1\<rparr>) = (rc, t, d\<lparr>hw := w2\<rparr>)"
    "frames w2 = frames w1" by (rule timestamp_read [of irq "d\<lparr>hw := w1\<rparr>"]) simp
  obtain w3 where 3: "get_vblank_counter env p (d\<lparr>hw := w2\<rparr>) = (frames w2, d\<lparr>hw := w3\<rparr>)" "frames w3 = frames w2"
    by (rule counter_read [of "d\<lparr>hw := w2\<rparr>"]) simp
  have "counter_and_timestamp_loop (Suc n) env p irq d = (rc, frames (hw d), t, d\<lparr>hw := w3\<rparr>)" for n
    using 1 2 3 by simp
  then show thesis
    using that [of rc t w3] 1 2 3 unfolding get_vblank_counter_and_timestamp_def DRM_TIMESTAMP_MAXRETRIES_def
    by (simp add: numeral_2_eq_2)
qed

text \<open>What an update stores.\<close>

lemma update_count:
  fixes d irq
  defines "d' \<equiv> drm_update_vblank_count env p irq d"
  assumes p: "p < length (vblank d)" and m: "drm_max_vblank_count d p = m" "m \<noteq> 0"
    and leg: "vc_inmodeset (vblank d ! p) AND 2 = 0"
  shows "frames (hw d') = frames (hw d)"
    "vc_count (vblank d' ! p) = vc_count (vblank d ! p) + ucast ((frames (hw d) - vc_last (vblank d ! p)) AND m)"
    "(frames (hw d) - vc_last (vblank d ! p)) AND m \<noteq> 0 \<Longrightarrow> vc_last (vblank d' ! p) = frames (hw d)"
    "(frames (hw d) - vc_last (vblank d ! p)) AND m = 0 \<Longrightarrow> vc_last (vblank d' ! p) = vc_last (vblank d ! p)"
proof -
  obtain rc t w where g: "get_vblank_counter_and_timestamp env p irq d = (rc, frames (hw d), t, d\<lparr>hw := w\<rparr>)"
    "frames w = frames (hw d)" by (rule counter_and_timestamp_read)
  let ?diff = "(frames (hw d) - vc_last (vblank d ! p)) AND m"
  have d': "d' = (if ?diff = 0 then d\<lparr>hw := w\<rparr>
      else store_vblank p ?diff (if \<not> rc \<and> \<not> irq then 0 else t) (frames (hw d)) (d\<lparr>hw := w\<rparr>))"
    unfolding d'_def drm_update_vblank_count_def using g(1) m leg by (simp add: Let_def)
  show "frames (hw d') = frames (hw d)"
    "vc_count (vblank d' ! p) = vc_count (vblank d ! p) + ucast ?diff"
    "?diff \<noteq> 0 \<Longrightarrow> vc_last (vblank d' ! p) = frames (hw d)"
    "?diff = 0 \<Longrightarrow> vc_last (vblank d' ! p) = vc_last (vblank d ! p)"
    using g(2) p by (simp_all add: d' store_vblank_def)
qed

end

text \<open>
  The abstract specification of the counter: after \<open>M\<close> frames the stored reading is the \<open>k\<close>-bit hardware counter
  at frame \<open>M\<close> and the count is the number of frames since some start.
\<close>

definition counts_frames :: "nat \<Rightarrow> nat \<Rightarrow> u64 \<Rightarrow> nat \<Rightarrow> 'w vblank_dev \<Rightarrow> bool" where
  "counts_frames p k b M d \<longleftrightarrow> vc_last (vblank d ! p) = of_nat (M mod 2 ^ k) \<and> vc_count (vblank d ! p) = b + of_nat M"

text \<open>C27: the 64-bit count refines the frames the hardware has shown, although its counter has only \<open>k\<close> bits and wraps:
  if the count was right at frame \<open>M\<close>, then an update at frame \<open>N\<close>, fewer than $2^k$ frames later, makes it right for \<open>N\<close>.\<close>

theorem vblank_count_refines_frames:
  assumes fc: "frame_counter env p frames" and p: "p < num_crtcs d"
    and k: "0 < k" "k \<le> 32" "drm_max_vblank_count d p = mask k" and leg: "vc_inmodeset (vblank d ! p) AND 2 = 0"
    and old: "counts_frames p k b M d" and now: "frames (hw d) = of_nat (N mod 2 ^ k)"
    and step: "M \<le> N" "N < M + 2 ^ k"
  shows "counts_frames p k b N (drm_update_vblank_count env p irq d)"
proof -
  have m: "(mask k :: u32) \<noteq> 0" using k(1) by (simp add: mask_eq_0_iff)
  have last: "vc_last (vblank d ! p) = of_nat (M mod 2 ^ k)" and count: "vc_count (vblank d ! p) = b + of_nat M"
    using old by (simp_all add: counts_frames_def)
  note u = frame_counter.update_count [OF fc p k(3) m leg, of irq]
  have diff: "(frames (hw d) - vc_last (vblank d ! p)) AND mask k = of_nat (N - M)"
    unfolding now last by (rule counter_diff [OF k(2) step])
  have small: "N - M < 2 ^ 32"
  proof -
    have "N - M < 2 ^ k" using step by simp
    also have "(2 :: nat) ^ k \<le> 2 ^ 32" using k(2) by (intro power_increasing) auto
    finally show ?thesis .
  qed
  have wide: "(ucast (of_nat (N - M) :: u32) :: u64) = of_nat (N - M)"
    using small by (simp add: unsigned_of_nat take_bit_nat_eq_self)
  have "vc_count (vblank (drm_update_vblank_count env p irq d) ! p) = b + of_nat N"
    unfolding u(2) diff wide count using step(1) by (simp add: of_nat_diff)
  moreover have "vc_last (vblank (drm_update_vblank_count env p irq d) ! p) = of_nat (N mod 2 ^ k)"
  proof (cases "N = M")
    case True then show ?thesis using u(4) diff last by simp
  next
    case False
    then have "(of_nat (N - M) :: u32) \<noteq> 0" using of_nat_small_zero [OF small] step(1) by auto
    then show ?thesis using u(3) diff now by simp
  qed
  ultimately show ?thesis by (simp add: counts_frames_def)
qed

interpretation demo: frame_counter demo_env 0 "\<lambda>w. w"
  by unfold_locales (auto simp: demo_env_def)

theorem vblank_count_refines_frames_witness:
  "counts_frames 0 32 0 7 (drm_update_vblank_count demo_env 0 False demo_dev)"
proof -
  have "counts_frames 0 32 0 0 demo_dev" "0 < num_crtcs demo_dev" "vc_inmodeset (vblank demo_dev ! 0) AND 2 = 0"
    "drm_max_vblank_count demo_dev 0 = mask 32" "hw demo_dev = of_nat (7 mod 2 ^ 32)"
    by (simp_all add: counts_frames_def demo_dev_def drm_vblank_init_def vblank_zero_def drm_max_vblank_count_def mask_eq_exp_minus_1)
  then show ?thesis
    using vblank_count_refines_frames [OF demo.frame_counter_axioms, of demo_dev 32 0 0 7 False] by simp
qed

section \<open>Delivery\<close>

lemma handle_vblank_lists:
  assumes inv: "vblank_inv u d" and p: "p < length (vblank d)" and on: "vc_enabled (vblank d ! p)"
    and c: "c = vc_count (vblank (drm_update_vblank_count env p True d) ! p)"
  shows "vblank_event_list (snd (drm_handle_vblank env p d)) =
      filter (\<lambda>e. \<not> (ev_pipe e = p \<and> drm_vblank_passed c (ev_sequence e))) (vblank_event_list d)"
    "map ev_id (delivered (snd (drm_handle_vblank env p d))) = map ev_id (delivered d) @
      map ev_id (filter (\<lambda>e. ev_pipe e = p \<and> drm_vblank_passed c (ev_sequence e)) (vblank_event_list d))"
proof -
  let ?P = "\<lambda>e. ev_pipe e = p \<and> drm_vblank_passed c (ev_sequence e)"
  define d1 where "d1 = drm_update_vblank_count env p True d"
  define d2 where "d2 = drm_handle_vblank_events env p d1"
  define d3 where "d3 = drm_handle_vblank_works env p d2"
  have r: "count_rel p d d1" unfolding d1_def by (rule count_rel_update)
  note l = lists_eqD [OF count_rel_lists [OF r]] and i1 = count_rel_inv [OF inv r] and n1 = count_relD(1) [OF r]
  have p1: "p < length (vblank d1)" using p n1 by simp
  have d2: "d2 = deliver_events env p c (vc_time (vblank d1 ! p)) ?P [] (vblank_event_list d1) d1"
    using p1 by (simp add: d2_def drm_handle_vblank_events_def drm_vblank_count_and_time_def c d1_def)
  have "length (filter ?P (vblank_event_list d1)) \<le> pending_on p d1"
    unfolding pending_on_def using filter_length_split [of ?P "\<lambda>e. ev_pipe e = p" "vblank_event_list d1"] by simp
  then have "int (length (filter ?P (vblank_event_list d1))) \<le> vc_refcount (vblank d1 ! p)"
    using inv_crtc [OF i1 p1] unfolding crtc_ok_def by linarith
  note e = deliver_rel [OF p1 this, of env c "vc_time (vblank d1 ! p)" "[]", folded d2]
  have i2: "vblank_inv u d2" "length (vblank d2) = length (vblank d1)"
    using deliver_inv [OF i1 p1, of ?P env c "vc_time (vblank d1 ! p)", folded d2] by simp_all
  have p2: "p < length (vblank d2)" using p1 i2(2) by simp
  have "length (filter Q (vc_pending_work (vblank d2 ! p))) \<le> length (vc_pending_work (vblank d2 ! p))" for Q by simp
  then have "int (length (filter Q (vc_pending_work (vblank d2 ! p)))) \<le> vc_refcount (vblank d2 ! p)" for Q
    using inv_crtc [OF i2(1) p2] unfolding crtc_ok_def by (smt (verit) of_nat_mono of_nat_add of_nat_0_le_iff)
  then have w: "vblank_event_list d3 = vblank_event_list d2" "delivered d3 = delivered d2"
    using take_works_rel [OF p2] by (simp_all add: d3_def drm_handle_vblank_works_def Let_def)
  have p3: "p < length (vblank d3)"
    using take_works_inv(3) [OF i2(1) p2] p2 by (simp add: d3_def drm_handle_vblank_works_def Let_def)
  note f = lists_eqD [OF disable_fn_rel(2) [OF p3, of env]]
  have h: "snd (drm_handle_vblank env p d) = d3 \<or> snd (drm_handle_vblank env p d) = vblank_disable_fn env p d3"
  proof -
    have "length (vblank d) \<noteq> 0" "\<not> length (vblank d) \<le> p" using p by auto
    then show ?thesis using on unfolding drm_handle_vblank_def Let_def d1_def d2_def d3_def
      by (simp only: if_False not_True_eq_False snd_conv split: if_split) blast
  qed
  have "vblank_event_list (snd (drm_handle_vblank env p d)) = vblank_event_list d2"
    "delivered (snd (drm_handle_vblank env p d)) = delivered d2" using h f w by auto
  then show "vblank_event_list (snd (drm_handle_vblank env p d)) = filter (\<lambda>e. \<not> ?P e) (vblank_event_list d)"
    "map ev_id (delivered (snd (drm_handle_vblank env p d))) = map ev_id (delivered d) @ map ev_id (filter ?P (vblank_event_list d))"
    using e l by simp_all
qed

context frame_counter
begin

lemma update_frames: "frames (hw (drm_update_vblank_count env p irq d)) = frames (hw d)"
proof -
  obtain rc t w where g: "get_vblank_counter_and_timestamp env p irq d = (rc, frames (hw d), t, d\<lparr>hw := w\<rparr>)"
    "frames w = frames (hw d)" by (rule counter_and_timestamp_read)
  then show ?thesis by (simp add: drm_update_vblank_count_def Let_def store_vblank_def)
qed

lemma get_frames: "frames (hw (snd (drm_vblank_get env p d))) = frames (hw d)"
proof -
  have h: "frames (hw (snd (enable_vblank_hook env p x))) = frames (hw x)" for x
    using enable_frames modeset crtc_exists by (auto simp: enable_vblank_hook_def case_prod_beta Let_def split: option.split)
  have e: "frames (hw (snd (drm_vblank_enable env p x))) = frames (hw x)" for x
    using h [of x] update_frames by (simp add: drm_vblank_enable_def case_prod_beta Let_def)
  show ?thesis by (simp add: drm_vblank_get_def Let_def e)
qed

end

lemma max_count_upd:
  "(\<And>v. vc_max_vblank_count (f v) = vc_max_vblank_count v) \<Longrightarrow>
   drm_max_vblank_count (upd_vblank p f d) p = drm_max_vblank_count d p"
  by (cases "p < length (vblank d)") (simp_all add: drm_max_vblank_count_def upd_vblank_def list_update_beyond)

lemma max_count_rel: "count_rel p d d' \<Longrightarrow> drm_max_vblank_count d' p = drm_max_vblank_count d p"
  using vc_ctl_eqD(7) [OF count_relD(2) [of p d d']] count_relD(8) [of p d d'] by (simp add: drm_max_vblank_count_def)

lemma max_count_frame [simp]:
  "drm_max_vblank_count (d\<lparr>hw := w\<rparr>) p = drm_max_vblank_count d p"
  "drm_max_vblank_count (d\<lparr>crtc_event := f\<rparr>) p = drm_max_vblank_count d p"
  "drm_max_vblank_count (d\<lparr>vblank_event_list := es\<rparr>) p = drm_max_vblank_count d p"
  by (simp_all add: drm_max_vblank_count_def)

lemma max_count_get: "drm_max_vblank_count (snd (drm_vblank_get env p d)) p = drm_max_vblank_count d p"
proof -
  have h: "drm_max_vblank_count (snd (enable_vblank_hook env p x)) p = drm_max_vblank_count x p" for x
    by (simp add: enable_vblank_hook_def split: option.split prod.split)
  have e: "drm_max_vblank_count (snd (drm_vblank_enable env p x)) p = drm_max_vblank_count x p" for x
    using h [of x] max_count_rel [OF count_rel_update [where env = env and p = p and irq = False]]
    by (simp add: drm_vblank_enable_def case_prod_beta Let_def max_count_upd)
  show ?thesis by (simp add: drm_vblank_get_def Let_def e max_count_upd)
qed

text \<open>A commit's event after the flush, on a CRTC that is not in a modeset.\<close>

lemma flush_arms:
  assumes fc: "frame_counter env p frames" and inv: "vblank_inv u d" and ok: "enable_works env (num_crtcs d)"
    and p: "p < num_crtcs d" and on: "vc_inmodeset (vblank d ! p) = 0" and m: "drm_max_vblank_count d p = - 1"
    and e: "crtc_event d p = Some e"
  defines "d1 \<equiv> drm_crtc_vblank_atomic_flush env p d"
  shows "e\<lparr>ev_pipe := p, ev_sequence := vc_count (vblank d1 ! p) + 1\<rparr> \<in> set (vblank_event_list d1)"
    "vc_last (vblank d1 ! p) = frames (hw d1)" "vc_enabled (vblank d1 ! p)" "vc_inmodeset (vblank d1 ! p) = 0"
    "drm_max_vblank_count d1 p = - 1"
proof -
  let ?d = "d\<lparr>crtc_event := (crtc_event d)(p := None)\<rparr>"
  have i: "vblank_inv u ?d" "enable_works env (length (vblank ?d))" "p < length (vblank ?d)" using inv ok p by simp_all
  obtain d' where g: "drm_vblank_get env p ?d = (0, d')" "vc_inmodeset (vblank d' ! p) = 0" "vc_enabled (vblank d' ! p)"
    "length (vblank d') = length (vblank d)" by (rule vblank_get_inv [OF i]) (use on in auto)
  let ?u = "drm_update_vblank_count env p False d'"
  have r: "count_rel p d' ?u" by (rule count_rel_update)
  have p': "p < length (vblank d')" using p g(4) by simp
  have d1: "d1 = ?u\<lparr>vblank_event_list := vblank_event_list ?u @
      [e\<lparr>ev_pipe := p, ev_sequence := vc_count (vblank ?u ! p) + 1\<rparr>]\<rparr>"
    using e g(1) p' count_relD(1) [OF r]
    by (simp add: d1_def drm_crtc_vblank_atomic_flush_def drm_crtc_arm_vblank_event_def
        drm_crtc_accurate_vblank_count_def drm_vblank_count_def Let_def)
  have mx: "drm_max_vblank_count d' p = - 1" using max_count_get [of env p ?d] g(1) m by simp
  note u = frame_counter.update_count [OF fc p' mx, of False, simplified] and c = vc_ctl_eqD [OF count_relD(2) [OF r]]
  show "e\<lparr>ev_pipe := p, ev_sequence := vc_count (vblank d1 ! p) + 1\<rparr> \<in> set (vblank_event_list d1)" by (simp add: d1)
  show "vc_last (vblank d1 ! p) = frames (hw d1)"
    using u g(2) by (cases "frames (hw d') = vc_last (vblank d' ! p)") (simp_all add: d1)
  show "vc_enabled (vblank d1 ! p)" "vc_inmodeset (vblank d1 ! p) = 0" using c g(2,3) by (simp_all add: d1)
  show "drm_max_vblank_count d1 p = - 1" using max_count_rel [OF r] mx by (simp add: d1)
qed

lemma passed_next: "1 \<le> k \<Longrightarrow> k \<le> 2 ^ 23 \<Longrightarrow> drm_vblank_passed (c + ucast (of_nat k :: u32)) (c + 1)"
proof -
  assume k: "1 \<le> k" "k \<le> 2 ^ 23"
  have "(ucast (of_nat k :: u32) :: u64) = of_nat k" using k by (simp add: unsigned_of_nat take_bit_nat_eq_self)
  then have "c + ucast (of_nat k :: u32) - (c + 1) = (of_nat (k - 1) :: u64)" using k(1) by (simp add: of_nat_diff)
  moreover have "(of_nat (k - 1) :: u64) \<le> of_nat (2 ^ 23)"
    using k by (intro word_of_nat_less_eq_iff [THEN iffD2]) (simp add: take_bit_nat_eq_self)
  ultimately show ?thesis by (simp add: drm_vblank_passed_def)
qed

lemma event_delivered:
  assumes "frame_counter env p frames" "vblank_inv u d" "enable_works env (num_crtcs d)"
    and "p < num_crtcs d" "vc_inmodeset (vblank d ! p) = 0" "drm_max_vblank_count d p = - 1"
    and "crtc_event d p = Some e" "1 \<le> k" "k \<le> 2 ^ 23"
    and "frames w = frames (hw (drm_crtc_vblank_atomic_flush env p d)) + of_nat k"
  shows "let d1 = drm_crtc_vblank_atomic_flush env p d;
             d2 = snd (drm_handle_vblank env p (d1\<lparr>hw := w\<rparr>));
             e1 = e\<lparr>ev_pipe := p, ev_sequence := vc_count (vblank d1 ! p) + 1\<rparr>
    in e1 \<in> set (vblank_event_list d1) \<and> e1 \<notin> set (vblank_event_list d2) \<and> ev_id e \<in> ev_id ` set (delivered d2)"
proof -
  let ?d1 = "drm_crtc_vblank_atomic_flush env p d"
  let ?h = "?d1\<lparr>hw := w\<rparr>"
  let ?e = "e\<lparr>ev_pipe := p, ev_sequence := vc_count (vblank ?d1 ! p) + 1\<rparr>"
  note a = flush_arms [OF assms(1-7)]
  have i: "vblank_inv u ?h" "p < length (vblank ?h)" "vc_enabled (vblank ?h ! p)" "drm_max_vblank_count ?h p = - 1"
    using flush_inv [OF assms(2-4,7)] a(3,5) assms(4) by simp_all
  note u = frame_counter.update_count(2) [OF assms(1) i(2,4), of True, simplified]
  have c: "vc_count (vblank (drm_update_vblank_count env p True ?h) ! p) = vc_count (vblank ?d1 ! p) + ucast (of_nat k :: u32)"
    using u a(2,4) assms(10) by simp
  note l = handle_vblank_lists [OF i(1-3) c [symmetric]]
  have m: "?e \<in> set (filter (\<lambda>x. ev_pipe x = p \<and> drm_vblank_passed (vc_count (vblank ?d1 ! p) + ucast (of_nat k :: u32))
      (ev_sequence x)) (vblank_event_list ?h))"
    using a(1) passed_next [OF assms(8,9)] by simp
  then have "ev_id ?e \<in> set (map ev_id (delivered (snd (drm_handle_vblank env p ?h))))"
    unfolding l(2) set_append set_map by (intro UnI2 imageI)
  moreover have "?e \<notin> set (vblank_event_list (snd (drm_handle_vblank env p ?h)))" unfolding l(1) using m by simp
  ultimately show ?thesis using a(1) by (simp add: Let_def)
qed

text \<open>C28: an event a commit hands over while its CRTC is on waits for the next frame and is delivered by the
  interrupt of that frame: the flush queues it for the count after the present one, and once the hardware has counted between 1 and
  $2^{23}$ frames more, whatever else happened to it, handling the interrupt takes it off the list and delivers it.\<close>

theorem vblank_event_delivered:
  assumes "frame_counter env p frames" "vblank_inv u d" "enable_works env (num_crtcs d)"
    and "p < num_crtcs d" "vc_inmodeset (vblank d ! p) = 0" "drm_max_vblank_count d p = - 1"
    and "crtc_event d p = Some e" "1 \<le> k" "k \<le> 2 ^ 23"
    and "frames w = frames (hw (drm_crtc_vblank_atomic_flush env p d)) + of_nat k"
  shows "let d1 = drm_crtc_vblank_atomic_flush env p d;
             d2 = snd (drm_handle_vblank env p (d1\<lparr>hw := w\<rparr>));
             e1 = e\<lparr>ev_pipe := p, ev_sequence := vc_count (vblank d1 ! p) + 1\<rparr>
    in e1 \<in> set (vblank_event_list d1) \<and> e1 \<notin> set (vblank_event_list d2) \<and> ev_id e \<in> ev_id ` set (delivered d2)"
  by (rule event_delivered [OF assms])

definition demo_commit :: "u32 vblank_dev" where
  "demo_commit = demo_dev\<lparr>crtc_event := (\<lambda>_. None)(0 := Some (new_event 5 DRM_EVENT_FLIP_COMPLETE 0))\<rparr>"

theorem vblank_event_delivered_witness:
  "5 \<in> ev_id ` set (delivered (snd (drm_handle_vblank demo_env 0
     ((drm_crtc_vblank_atomic_flush demo_env 0 demo_commit)\<lparr>hw := 10\<rparr>))))"
proof -
  let ?e = "new_event 5 DRM_EVENT_FLIP_COMPLETE 0"
  have n: "num_crtcs demo_commit = 1" and i: "vblank_inv (\<lambda>_. 0) demo_commit"
    by (simp_all add: demo_commit_def demo_dev_def drm_vblank_init_def vblank_inv_def crtc_ok_def pending_on_def vblank_zero_def)
  have o: "enable_works demo_env (num_crtcs demo_commit)" by (simp add: n enable_works_def demo_env_def)
  have c: "vc_inmodeset (vblank demo_commit ! 0) = 0" "drm_max_vblank_count demo_commit 0 = - 1"
    "crtc_event demo_commit 0 = Some ?e"
    by (simp_all add: demo_commit_def demo_dev_def drm_vblank_init_def vblank_zero_def drm_max_vblank_count_def)
  have h: "hw (drm_crtc_vblank_atomic_flush demo_env 0 demo_commit) = 7" by code_simp
  have "ev_id ?e = 5" by (simp add: new_event_def)
  then show ?thesis
    using vblank_event_delivered [OF demo.frame_counter_axioms i o _ c, of 3 10] unfolding h by (simp add: n Let_def)
qed

text \<open>Turning vertical blanking off delivers everything that waited.\<close>

lemma vblank_off_result:
  assumes inv: "vblank_inv u d" and ok: "feature_atomic env" and p: "p < length (vblank d)"
  shows "vblank_event_list (drm_crtc_vblank_off env p d) = filter (\<lambda>e. ev_pipe e \<noteq> p) (vblank_event_list d)"
    "map ev_id (delivered (drm_crtc_vblank_off env p d)) =
      map ev_id (delivered d) @ map ev_id (filter (\<lambda>e. ev_pipe e = p) (vblank_event_list d))"
    "crtc_event (drm_crtc_vblank_off env p d) = crtc_event d" "\<not> vc_enabled (vblank (drm_crtc_vblank_off env p d) ! p)"
proof -
  define d1 where "d1 = enter_modeset p (drm_vblank_disable_and_save env p d)"
  define d2 where "d2 = deliver_events env p (vc_count (vblank d1 ! p)) (vc_time (vblank d1 ! p))
    (\<lambda>e. ev_pipe e = p) [] (vblank_event_list d1) d1"
  define d3 where "d3 = take_works env p False (\<lambda>k. True) [] (vc_pending_work (vblank d2 ! p)) d2"
  note ds = disable_and_save [OF p, where env = env]
  have l: "dev_lists d1 = dev_lists d" "length (vblank d1) = length (vblank d)" using ds(1,8) by (simp_all add: d1_def)
  note l' = lists_eqD [OF l(1)]
  have i1: "vblank_inv u d1" unfolding d1_def by (rule off_first_inv [OF inv p])
  have p1: "p < length (vblank d1)" using p l(2) by simp
  have c1: "crtc_ok u d1 p" by (rule inv_crtc [OF i1 p1])
  have off1: "\<not> vc_enabled (vblank d1 ! p)" using ds(1,7) p by (simp add: d1_def enter_modeset_def)
  have "int (length (filter (\<lambda>e. ev_pipe e = p) (vblank_event_list d1))) \<le> vc_refcount (vblank d1 ! p)"
    using c1 unfolding crtc_ok_def pending_on_def by linarith
  note r2 = deliver_rel [OF p1 this, of env "vc_count (vblank d1 ! p)" "vc_time (vblank d1 ! p)" "[]", folded d2_def]
  have i2: "vblank_inv u d2" using deliver_inv(1) [OF i1 p1, where P = "\<lambda>e. ev_pipe e = p"] unfolding d2_def by simp
  have p2: "p < length (vblank d2)" "\<not> vc_enabled (vblank d2 ! p)" using r2 p1 off1 by (auto simp: refs_rel_def)
  have "int (length (filter (\<lambda>k. True) (vc_pending_work (vblank d2 ! p)))) \<le> vc_refcount (vblank d2 ! p)"
    using inv_crtc [OF i2 p2(1)] unfolding crtc_ok_def by simp
  note r3 = take_works_rel [OF p2(1) this, of env False "[]", folded d3_def]
  have n3: "length (vblank d3) = length (vblank d2)" using r3 by (simp add: refs_rel_def)
  have off3: "\<not> vc_enabled (vblank d3 ! p)" using r3 p2 n3 by (auto simp: refs_rel_def)
  have o: "drm_crtc_vblank_off env p d = upd_vblank p (\<lambda>v. v\<lparr>vc_hwmode := (vc_hwmode v)\<lparr>crtc_clock := 0\<rparr>\<rparr>) d3"
    using p l ok ds(1)
    by (simp add: drm_crtc_vblank_off_def drm_vblank_cancel_pending_works_def drm_vblank_count_and_time_def Let_def
        d1_def d2_def d3_def)
  show "vblank_event_list (drm_crtc_vblank_off env p d) = filter (\<lambda>e. ev_pipe e \<noteq> p) (vblank_event_list d)"
    "map ev_id (delivered (drm_crtc_vblank_off env p d)) =
      map ev_id (delivered d) @ map ev_id (filter (\<lambda>e. ev_pipe e = p) (vblank_event_list d))"
    "crtc_event (drm_crtc_vblank_off env p d) = crtc_event d" "\<not> vc_enabled (vblank (drm_crtc_vblank_off env p d) ! p)"
    unfolding o using r2 r3 l' off3 n3 p2(1) by simp_all
qed

section \<open>Counting while the interrupt is in use\<close>

text \<open>The part of a device that the counter depends on.\<close>

definition count_view :: "nat \<Rightarrow> 'w vblank_dev \<Rightarrow> 'w \<times> u32 \<times> u64 \<times> u32 \<times> u32 \<times> u32" where
  "count_view p d = (hw d, max_vblank_count d, vc_count (vblank d ! p), vc_last (vblank d ! p),
     vc_max_vblank_count (vblank d ! p), vc_inmodeset (vblank d ! p))"

lemma put_view: "p < length (vblank d) \<Longrightarrow> 1 < vc_refcount (vblank d ! p) \<Longrightarrow>
  count_view p (drm_vblank_put env p d) = count_view p d"
  by (simp add: drm_vblank_put_def Let_def count_view_def)

lemma deliver_view:
  assumes "p < length (vblank d)" "int (length (filter P es)) < vc_refcount (vblank d ! p)"
  shows "count_view p (deliver_events env p seq now P kept es d) = count_view p d"
  using assms
proof (induction es arbitrary: kept d)
  case (Cons e es)
  show ?case
  proof (cases "P e")
    case True
    let ?d = "send_vblank_event env e seq now (drm_vblank_put env p d)"
    have pos: "1 < vc_refcount (vblank d ! p)" using Cons.prems(2) True by simp
    then have r: "refs_rel p 1 d (drm_vblank_put env p d)" by (intro put_rel Cons.prems(1)) simp
    have "p < length (vblank ?d)" "int (length (filter P es)) < vc_refcount (vblank ?d ! p)"
      using r Cons.prems True by (auto simp: refs_rel_def)
    moreover have "count_view p ?d = count_view p d"
      using put_view [OF Cons.prems(1) pos, of env] by (simp add: count_view_def send_vblank_event_def Let_def)
    ultimately show ?thesis using Cons.IH True by (simp add: Let_def)
  qed (use Cons in simp)
qed (simp add: count_view_def)

lemma take_works_view:
  assumes "p < length (vblank d)" "int (length (filter P ks)) < vc_refcount (vblank d ! p)"
  shows "count_view p (take_works env p run P kept ks d) = count_view p d"
  using assms
proof (induction ks arbitrary: kept d)
  case (Cons k ks)
  show ?case
  proof (cases "P k")
    case True
    let ?p = "drm_vblank_put env p d"
    let ?d = "if run then ?p\<lparr>work_queue := work_queue ?p @ [work_id k]\<rparr> else ?p"
    have pos: "1 < vc_refcount (vblank d ! p)" using Cons.prems(2) True by simp
    then have r: "refs_rel p 1 d ?p" by (intro put_rel Cons.prems(1)) simp
    have "p < length (vblank ?d)" "int (length (filter P ks)) < vc_refcount (vblank ?d ! p)"
      using r Cons.prems True by (auto simp: refs_rel_def)
    moreover have "count_view p ?d = count_view p d"
      using put_view [OF Cons.prems(1) pos, of env] by (simp add: count_view_def)
    ultimately show ?thesis using Cons.IH [of ?d kept] True by (simp only: take_works.simps Let_def if_True)
  qed (use Cons in simp)
qed (simp add: count_view_def)

lemma handle_vblank_view:
  assumes inv: "vblank_inv u d" and p: "p < length (vblank d)" and on: "vc_enabled (vblank d ! p)" and u: "0 < u p"
  shows "count_view p (snd (drm_handle_vblank env p d)) = count_view p (drm_update_vblank_count env p True d)"
proof -
  define d1 where "d1 = drm_update_vblank_count env p True d"
  define d2 where "d2 = drm_handle_vblank_events env p d1"
  define d3 where "d3 = drm_handle_vblank_works env p d2"
  let ?P = "\<lambda>e. ev_pipe e = p \<and> drm_vblank_passed (vc_count (vblank d1 ! p)) (ev_sequence e)"
  have r: "count_rel p d d1" unfolding d1_def by (rule count_rel_update)
  note i1 = count_rel_inv [OF inv r]
  have p1: "p < length (vblank d1)" using p count_relD(1) [OF r] by simp
  have d2: "d2 = deliver_events env p (vc_count (vblank d1 ! p)) (vc_time (vblank d1 ! p)) ?P [] (vblank_event_list d1) d1"
    using p1 by (simp add: d2_def drm_handle_vblank_events_def drm_vblank_count_and_time_def)
  have ref: "0 < vc_refcount (vblank d1 ! p)" using inv_crtc [OF i1 p1] u unfolding crtc_ok_def by linarith
  have h: "snd (drm_handle_vblank env p d) = d3"
    using p on ref unfolding drm_handle_vblank_def by (auto simp: Let_def d1_def d2_def d3_def)
  have "length (filter ?P (vblank_event_list d1)) \<le> pending_on p d1"
    unfolding pending_on_def using filter_length_split [of ?P "\<lambda>e. ev_pipe e = p" "vblank_event_list d1"] by simp
  then have "int (length (filter ?P (vblank_event_list d1))) < vc_refcount (vblank d1 ! p)"
    using inv_crtc [OF i1 p1] u unfolding crtc_ok_def by linarith
  then have v2: "count_view p d2 = count_view p d1" unfolding d2 by (rule deliver_view [OF p1])
  have i2: "vblank_inv u d2" "p < length (vblank d2)"
    using deliver_inv [OF i1 p1, of ?P env "vc_count (vblank d1 ! p)" "vc_time (vblank d1 ! p)", folded d2] p1 by simp_all
  have "length (filter Q (vc_pending_work (vblank d2 ! p))) \<le> length (vc_pending_work (vblank d2 ! p))" for Q by simp
  then have "int (length (filter Q (vc_pending_work (vblank d2 ! p)))) < vc_refcount (vblank d2 ! p)" for Q
    using inv_crtc [OF i2] u unfolding crtc_ok_def by (smt (verit) of_nat_mono of_nat_add of_nat_0_le_iff of_nat_0_less_iff)
  then have "count_view p d3 = count_view p d2"
    unfolding d3_def drm_handle_vblank_works_def Let_def by (intro take_works_view i2(2))
  then show ?thesis using h v2 by (simp add: d1_def)
qed

section \<open>The laws drivers rely on\<close>

text \<open>
  The core as the service record of \<open>Vblank_Api\<close>, and a driver whose hooks write no register outside \<open>irqs\<close> and
  use no clock. The core then keeps the laws, since it reaches the hardware only through these hooks.
\<close>

definition core_vblank :: "'w vblank_env \<Rightarrow> 'w vblank_dev vblank_api" where
  "core_vblank env = \<lparr>crtc_vblank_on = drm_crtc_vblank_on env, crtc_vblank_off = drm_crtc_vblank_off env,
     crtc_vblank_atomic_flush = drm_crtc_vblank_atomic_flush env,
     crtc_handle_vblank = (\<lambda>p d. snd (drm_handle_vblank env p d))\<rparr>"

locale vblank_driver =
  fixes env :: "'w vblank_env" and obs :: "'w \<Rightarrow> 'o"
  assumes enable_obs: "hook_enable_vblank env p = Some en \<Longrightarrow> obs (snd (en w)) = obs w"
    and disable_obs: "hook_disable_vblank env p = Some dis \<Longrightarrow> obs (dis w) = obs w"
    and counter_obs: "hook_get_vblank_counter env p = Some ct \<Longrightarrow> obs (snd (ct w)) = obs w"
    and stamp_obs: "hook_get_vblank_timestamp env p = Some ts \<Longrightarrow> obs (snd (snd (ts v m b w))) = obs w"
    and clock_obs: "obs (snd (ktime_get env w)) = obs w"
begin

lemma obs_store: "obs (hw (store_vblank p i t l d)) = obs (hw d)"
  by (simp add: store_vblank_def)

lemma obs_counter: "get_vblank_counter env p d = (c, d') \<Longrightarrow> obs (hw d') = obs (hw d)"
  using counter_obs by (auto simp: get_vblank_counter_def Let_def case_prod_beta split: if_splits option.splits)

lemma obs_stamp: "drm_get_last_vbltimestamp env p irq d = (rc, t, d') \<Longrightarrow> obs (hw d') = obs (hw d)"
proof -
  assume a: "drm_get_last_vbltimestamp env p irq d = (rc, t, d')"
  define r where "r = (case (if crtc_from_index env p \<and> wrap32 (wrap32 (uint (drm_timestamp_precision env)) * 1000) > 0
    then hook_get_vblank_timestamp env p else None) of
      Some f \<Rightarrow> f (vblank d ! p) (wrap32 (wrap32 (uint (drm_timestamp_precision env)) * 1000)) irq (hw d)
    | None \<Rightarrow> (False, 0, hw d))"
  have r: "obs (snd (snd r)) = obs (hw d)" using stamp_obs by (auto simp: r_def split: option.splits if_splits)
  have "hw d' = snd (snd r) \<or> hw d' = snd (ktime_get env (snd (snd r)))"
    using a unfolding drm_get_last_vbltimestamp_def drm_crtc_get_last_vbltimestamp_def r_def [symmetric]
    by (auto simp: Let_def case_prod_beta r_def [symmetric] split: if_splits)
  then show ?thesis using r clock_obs by auto
qed

lemma obs_counter_loop: "counter_and_timestamp_loop n env p irq d = (rc, c, t, d') \<Longrightarrow> obs (hw d') = obs (hw d)"
proof (induction n arbitrary: d)
  case 0
  then show ?case using obs_counter obs_stamp by (auto split: prod.splits)
next
  case (Suc n)
  then show ?case using obs_counter obs_stamp by (auto split: prod.splits if_splits)
qed

lemma obs_counts:
  "obs (hw (drm_update_vblank_count env p irq d)) = obs (hw d)"
  "obs (hw (drm_reset_vblank_timestamp env p d)) = obs (hw d)"
proof -
  obtain rc c t x where g: "get_vblank_counter_and_timestamp env p irq d = (rc, c, t, x)" using prod_cases4 by blast
  then have "obs (hw x) = obs (hw d)" using obs_counter_loop unfolding get_vblank_counter_and_timestamp_def by blast
  then show "obs (hw (drm_update_vblank_count env p irq d)) = obs (hw d)"
    by (simp add: drm_update_vblank_count_def g Let_def obs_store)
  obtain rc c t x where g: "get_vblank_counter_and_timestamp env p False d = (rc, c, t, x)" using prod_cases4 by blast
  then have "obs (hw x) = obs (hw d)" using obs_counter_loop unfolding get_vblank_counter_and_timestamp_def by blast
  then show "obs (hw (drm_reset_vblank_timestamp env p d)) = obs (hw d)"
    by (simp add: drm_reset_vblank_timestamp_def g Let_def obs_store)
qed

lemma obs_enable: "drm_vblank_enable env p d = (r, d') \<Longrightarrow> obs (hw d') = obs (hw d)"
  using enable_obs by (auto simp: drm_vblank_enable_def enable_vblank_hook_def Let_def case_prod_beta obs_counts
      split: if_splits option.splits)

lemma obs_get: "drm_vblank_get env p d = (r, d') \<Longrightarrow> obs (hw d') = obs (hw d)"
  using obs_enable by (auto simp: drm_vblank_get_def Let_def split: if_splits)

lemma obs_refs:
  "obs (hw (drm_vblank_disable_and_save env p d)) = obs (hw d)"
  "obs (hw (vblank_disable_fn env p d)) = obs (hw d)"
  "obs (hw (drm_vblank_put env p d)) = obs (hw d)"
proof -
  show s: "obs (hw (drm_vblank_disable_and_save env p d)) = obs (hw d)" for d
    using disable_obs by (simp add: drm_vblank_disable_and_save_def disable_vblank_hook_def Let_def obs_counts split: option.split)
  show f: "obs (hw (vblank_disable_fn env p d)) = obs (hw d)" for d
    using s by (simp add: vblank_disable_fn_def)
  show "obs (hw (drm_vblank_put env p d)) = obs (hw d)"
    by (simp add: drm_vblank_put_def Let_def f)
qed

lemma obs_send: "obs (hw (send_vblank_event env e seq now d)) = obs (hw d)"
  by (simp add: send_vblank_event_def Let_def)

lemma obs_deliver: "obs (hw (deliver_events env p seq now P kept es d)) = obs (hw d)"
  by (induction es arbitrary: kept d) (simp_all add: Let_def obs_send obs_refs)

lemma obs_take_works: "obs (hw (take_works env p run P kept ks d)) = obs (hw d)"
  by (induction ks arbitrary: kept d) (simp_all add: Let_def obs_refs)

lemma obs_core:
  "obs (hw (drm_crtc_vblank_on env p d)) = obs (hw d)"
  "obs (hw (drm_crtc_vblank_off env p d)) = obs (hw d)"
  "obs (hw (drm_crtc_vblank_atomic_flush env p d)) = obs (hw d)"
  "obs (hw (snd (drm_handle_vblank env p d))) = obs (hw d)"
proof -
  have en: "obs (hw (snd (drm_vblank_enable env p x))) = obs (hw x)" for x using obs_enable by (metis prod.collapse)
  show "obs (hw (drm_crtc_vblank_on env p d)) = obs (hw d)"
    by (simp add: drm_crtc_vblank_on_def drm_crtc_vblank_on_config_def Let_def en obs_counts)
  show "obs (hw (drm_crtc_vblank_off env p d)) = obs (hw d)"
    by (simp add: drm_crtc_vblank_off_def drm_vblank_cancel_pending_works_def enter_modeset_def Let_def case_prod_beta
        obs_deliver obs_take_works obs_refs)
  have cs: "obs (hw (drm_crtc_send_vblank_event env p e x)) = obs (hw x)" for e x
    by (simp add: drm_crtc_send_vblank_event_def case_prod_beta Let_def obs_send clock_obs)
  have ar: "obs (hw (drm_crtc_arm_vblank_event env p e x)) = obs (hw x)" for e x
    by (simp add: drm_crtc_arm_vblank_event_def drm_crtc_accurate_vblank_count_def case_prod_beta Let_def obs_counts)
  show "obs (hw (drm_crtc_vblank_atomic_flush env p d)) = obs (hw d)"
  proof (cases "crtc_event d p")
    case (Some e)
    obtain r x where g: "drm_vblank_get env p (d\<lparr>crtc_event := (crtc_event d)(p := None)\<rparr>) = (r, x)" by fastforce
    show ?thesis using obs_get [OF g] Some g by (simp add: drm_crtc_vblank_atomic_flush_def ar cs)
  qed (simp add: drm_crtc_vblank_atomic_flush_def)
  show "obs (hw (snd (drm_handle_vblank env p d))) = obs (hw d)"
    by (simp add: drm_handle_vblank_def drm_handle_vblank_events_def drm_handle_vblank_works_def Let_def case_prod_beta
        obs_deliver obs_take_works obs_refs obs_counts)
qed

end

text \<open>What an observer that ignores the interrupt registers sees of the hardware.\<close>

definition outside :: "u32 set \<Rightarrow> ('w \<Rightarrow> u32 \<Rightarrow> u32) \<Rightarrow> ('w \<Rightarrow> clk \<Rightarrow> nat) \<Rightarrow> 'w \<Rightarrow> (u32 \<Rightarrow> u32) \<times> (clk \<Rightarrow> nat)" where
  "outside irqs regs clk_count w = (\<lambda>r. if r \<in> irqs then 0 else regs w r, clk_count w)"

lemma core_vblank_laws:
  assumes "vblank_driver env (outside irqs regs clk_count)"
  shows "vblank_laws (core_vblank env) (\<lambda>d. regs (hw d)) (\<lambda>d. clk_count (hw d)) irqs"
proof -
  note o = vblank_driver.obs_core [OF assms, unfolded outside_def prod.inject]
  have r: "regs (hw d') r = regs (hw d) r"
    if "(\<lambda>r. if r \<in> irqs then 0 else regs (hw d') r) = (\<lambda>r. if r \<in> irqs then 0 else regs (hw d) r)" "r \<notin> irqs"
    for d' d :: "'a vblank_dev" and r using fun_cong [OF that(1), of r] that(2) by simp
  show ?thesis
    by unfold_locales (simp_all add: core_vblank_def o(1-4) [THEN conjunct2] r [OF o(1) [THEN conjunct1]]
      r [OF o(2) [THEN conjunct1]] r [OF o(3) [THEN conjunct1]] r [OF o(4) [THEN conjunct1]])
qed

end
