(* ===== verification/Ma35_Crtc.thy ===== *)
theory Ma35_Crtc
  imports Ma35_Plane Drm_Bus Drm_Vblank_Count
begin

text \<open>
  The CRTC of the MA35 display driver (\<open>drm/nuvoton/ma35_crtc.c\<close>) on top of the vertical blanking core. The
  hardware state is the board with its registers and the driver's software frame counter, which the interrupt
  handler increments and the counter hook reads. The event of the committed CRTC state is \<open>crtc_event\<close> of the
  device. There is one CRTC, of index 0. The values of \<open>enum drm_mode_status\<close> are a header's, an argument.
\<close>

section \<open>Data\<close>

record 'w ma35_hw =
  board :: 'w
  vblank_counter :: u32

type_synonym 'w ma35_dev = "'w ma35_hw vblank_dev"

record ma35_crtc =
  dpi_format :: u32
  dither_depth :: u16
  dither_enable :: bool

record drm_color_lut =
  red :: u16
  green :: u16
  blue :: u16

record drm_crtc_commit = drm_crtc_state +
  adjusted_mode :: drm_display_mode
  active :: bool
  gamma_lut :: "drm_color_lut list option"
  crtc_color_mgmt_changed :: bool

text \<open>A register access acts on the board.\<close>

definition on_board :: "('w \<Rightarrow> 'w) \<Rightarrow> 'w ma35_dev \<Rightarrow> 'w ma35_dev" where
  "on_board f dev = dev\<lparr>hw := (hw dev)\<lparr>board := f (board (hw dev))\<rparr>\<rparr>"

section \<open>Modes\<close>

definition ma35_crtc_mode_valid :: "mode_config \<Rightarrow> drm_display_mode \<Rightarrow> drm_mode_status" where
  "ma35_crtc_mode_valid mc m =
     (if DRM_MODE_FLAG_INTERLACE \<in> flags m then MODE_NO_INTERLACE
      else if uint (hdisplay m) > max_width mc \<or> uint (hdisplay m) < min_width mc then MODE_BAD_HVALUE
      else if uint (vdisplay m) > max_height mc \<or> uint (vdisplay m) < min_height mc then MODE_BAD_VVALUE
      else if clock m > MA35_MAX_PIXEL_CLK then MODE_CLOCK_HIGH
      else MODE_OK)"

definition ma35_crtc_atomic_check ::
    "(drm_mode_status \<Rightarrow> int) \<Rightarrow> 'w clk_api \<Rightarrow> clk \<Rightarrow> 'w \<Rightarrow> drm_crtc_commit \<Rightarrow> int \<times> drm_crtc_commit" where
  "ma35_crtc_atomic_check status_val ck dcupclk w crtc_state =
     (if clock (mode crtc_state) > MA35_MAX_PIXEL_CLK then (status_val MODE_CLOCK_HIGH, crtc_state)
      else
        let clk_rate = wrap32 (clk_round_rate ck w dcupclk (wrap32 (clock (mode crtc_state) * 1000) mod 2 ^ 64))
        in if clk_rate \<le> 0 then (status_val MODE_CLOCK_RANGE, crtc_state)
           else (0, crtc_state\<lparr>adjusted_mode := (adjusted_mode crtc_state)\<lparr>clock :=
                     c_div (wrap32 (clk_rate + 1000 - 1)) 1000\<rparr>\<rparr>))"

section \<open>Enabling and disabling\<close>

definition ma35_total_reg :: "u16 \<Rightarrow> u16 \<Rightarrow> u32" where
  "ma35_total_reg tot act = FIELD_PREP MA35_DISPLAY_TOTAL_MASK (ucast tot) OR
     FIELD_PREP MA35_DISPLAY_ACTIVE_MASK (ucast act)"

definition ma35_sync_reg :: "u16 \<Rightarrow> u16 \<Rightarrow> bool \<Rightarrow> u32" where
  "ma35_sync_reg start stop neg =
     (let reg = MA35_SYNC_PULSE_ENABLE OR FIELD_PREP MA35_SYNC_START_MASK (ucast start) OR
                  FIELD_PREP MA35_SYNC_END_MASK (ucast stop)
      in if neg then reg OR MA35_SYNC_POLARITY_BIT else reg)"

definition ma35_set_timings :: "'w regmap_api \<Rightarrow> drm_display_mode \<Rightarrow> 'w \<Rightarrow> 'w" where
  "ma35_set_timings rm m w =
     (let w = regmap_write rm w MA35_HDISPLAY (ma35_total_reg (htotal m) (hdisplay m));
          w = regmap_write rm w MA35_HSYNC
                (ma35_sync_reg (hsync_start m) (hsync_end m) (DRM_MODE_FLAG_NHSYNC \<in> flags m));
          w = regmap_write rm w MA35_VDISPLAY (ma35_total_reg (vtotal m) (vdisplay m))
      in regmap_write rm w MA35_VSYNC
           (ma35_sync_reg (vsync_start m) (vsync_end m) (DRM_MODE_FLAG_NVSYNC \<in> flags m)))"

definition ma35_panel_reg :: "bus_flag set \<Rightarrow> u32" where
  "ma35_panel_reg bf =
     (let reg = MA35_PANEL_DATA_ENABLE_ENABLE OR MA35_PANEL_DATA_ENABLE OR MA35_PANEL_DATA_CLOCK_ENABLE;
          reg = (if DRM_BUS_FLAG_DE_LOW \<in> bf then reg OR MA35_PANEL_DATA_ENABLE_POLARITY else reg)
      in if DRM_BUS_FLAG_PIXDATA_DRIVE_NEGEDGE \<in> bf then reg OR MA35_PANEL_DATA_POLARITY else reg)"

definition ma35_gamma_reg :: "drm_color_lut \<Rightarrow> u32" where
  "ma35_gamma_reg l = FIELD_PREP MA35_GAMMA_RED_MASK (ucast (drop_bit 6 (red l))) OR
     FIELD_PREP MA35_GAMMA_GREEN_MASK (ucast (drop_bit 6 (green l))) OR
     FIELD_PREP MA35_GAMMA_BLUE_MASK (ucast (drop_bit 6 (blue l)))"

definition ma35_gamma_entry :: "'w regmap_api \<Rightarrow> nat \<times> drm_color_lut \<Rightarrow> 'w \<Rightarrow> 'w" where
  "ma35_gamma_entry rm il w =
     (let w = regmap_write rm w MA35_GAMMA_INDEX (of_nat (fst il))
      in regmap_write rm w MA35_GAMMA_DATA (ma35_gamma_reg (snd il)))"

definition ma35_set_gamma :: "'w regmap_api \<Rightarrow> drm_crtc_commit \<Rightarrow> 'w \<Rightarrow> 'w" where
  "ma35_set_gamma rm new_state w = (case gamma_lut new_state of
     Some lut \<Rightarrow>
       let w = (if crtc_color_mgmt_changed new_state then fold (ma35_gamma_entry rm) (enumerate 0 lut) w else w)
       in regmap_update_bits rm w MA35_FRAMEBUFFER_CONFIG MA35_PRIMARY_GAMMA MA35_PRIMARY_GAMMA
   | None \<Rightarrow> regmap_update_bits rm w MA35_FRAMEBUFFER_CONFIG MA35_PRIMARY_GAMMA 0)"

text \<open>The loop over half the dither table: \<open>n\<close> entries from the lowest.\<close>

primrec ma35_dither_loop :: "u16 \<Rightarrow> nat \<Rightarrow> u32" where
  "ma35_dither_loop depth 0 = 0"
| "ma35_dither_loop depth (Suc i) =
     ma35_dither_loop depth i OR push_bit (i * 4) (ucast depth AND MA35_DITHER_TABLE_MASK)"

definition ma35_set_dither :: "'w regmap_api \<Rightarrow> ma35_crtc \<Rightarrow> 'w \<Rightarrow> 'w" where
  "ma35_set_dither rm c w =
     (if dither_enable c then
        let reg = ma35_dither_loop (dither_depth c) (MA35_DITHER_TABLE_ENTRY div 2);
            w = regmap_write rm w MA35_DISPLAY_DITHER_TABLE_LOW reg;
            w = regmap_write rm w MA35_DISPLAY_DITHER_TABLE_HIGH reg
        in regmap_write rm w MA35_DISPLAY_DITHER_CONFIG MA35_DITHER_ENABLE
      else regmap_write rm w MA35_DISPLAY_DITHER_CONFIG 0)"

definition ma35_crtc_program ::
    "'w regmap_api \<Rightarrow> ma35_crtc \<Rightarrow> bus_flag set \<Rightarrow> drm_crtc_commit \<Rightarrow> 'w \<Rightarrow> 'w" where
  "ma35_crtc_program rm c bf new_state w =
     (let w = ma35_set_timings rm (adjusted_mode new_state) w;
          w = regmap_write rm w MA35_PANEL_CONFIG (ma35_panel_reg bf);
          w = ma35_set_gamma rm new_state w;
          w = regmap_write rm w MA35_DPI_CONFIG (FIELD_PREP MA35_DPI_FORMAT_MASK (dpi_format c))
      in ma35_set_dither rm c w)"

definition ma35_crtc_atomic_enable ::
    "'w ma35_hw vblank_env \<Rightarrow> 'w regmap_api \<Rightarrow> ma35_crtc \<Rightarrow> bus_flag set \<Rightarrow> drm_crtc_commit \<Rightarrow> 'w ma35_dev \<Rightarrow> 'w ma35_dev" where
  "ma35_crtc_atomic_enable env rm c bf new_state dev =
     (let dev = on_board (ma35_crtc_program rm c bf new_state) dev
      in drm_crtc_vblank_on env MA35_DEFAULT_CRTC_ID dev)"

definition ma35_crtc_stop :: "'w regmap_api \<Rightarrow> 'w \<Rightarrow> 'w" where
  "ma35_crtc_stop rm w =
     (let w = regmap_update_bits rm w MA35_PANEL_CONFIG MA35_PANEL_DATA_ENABLE_ENABLE 0;
          w = regmap_update_bits rm w MA35_FRAMEBUFFER_CONFIG MA35_PRIMARY_GAMMA 0
      in regmap_write rm w MA35_DISPLAY_DITHER_CONFIG 0)"

definition ma35_crtc_atomic_disable ::
    "'w ma35_hw vblank_env \<Rightarrow> 'w regmap_api \<Rightarrow> drm_crtc_commit \<Rightarrow> 'w ma35_dev \<Rightarrow> 'w ma35_dev" where
  "ma35_crtc_atomic_disable env rm crtc_state dev =
     (let dev = drm_crtc_vblank_off env MA35_DEFAULT_CRTC_ID dev;
          dev = on_board (ma35_crtc_stop rm) dev
      in case crtc_event dev MA35_DEFAULT_CRTC_ID of
           Some e \<Rightarrow>
             if \<not> active crtc_state then
               let dev = drm_crtc_send_vblank_event env MA35_DEFAULT_CRTC_ID e dev
               in dev\<lparr>crtc_event := (crtc_event dev)(MA35_DEFAULT_CRTC_ID := None)\<rparr>
             else dev
         | None \<Rightarrow> dev)"

definition ma35_crtc_atomic_flush :: "'w ma35_hw vblank_env \<Rightarrow> 'w ma35_dev \<Rightarrow> 'w ma35_dev" where
  "ma35_crtc_atomic_flush env dev = (case crtc_event dev MA35_DEFAULT_CRTC_ID of
     Some e \<Rightarrow>
       let (ret, dev) = drm_vblank_get env MA35_DEFAULT_CRTC_ID dev;
           dev = (if ret = 0 then drm_crtc_arm_vblank_event env MA35_DEFAULT_CRTC_ID e dev
                  else drm_crtc_send_vblank_event env MA35_DEFAULT_CRTC_ID e dev)
       in dev\<lparr>crtc_event := (crtc_event dev)(MA35_DEFAULT_CRTC_ID := None)\<rparr>
   | None \<Rightarrow> dev)"

text \<open>The position the scanout reports: horizontal, vertical, and the times around the reading.\<close>

definition ma35_crtc_get_scanout_position ::
    "('w \<Rightarrow> ktime \<times> 'w) \<Rightarrow> 'w regmap_api \<Rightarrow> 'w \<Rightarrow> (int \<times> int \<times> ktime \<times> ktime) \<times> 'w" where
  "ma35_crtc_get_scanout_position kt rm w =
     (let (stime, w) = kt w;
          (reg, w) = regmap_read rm w MA35_DISPLAY_CURRENT_LOCATION;
          hpos = uint (FIELD_GET MA35_DISPLAY_CURRENT_X reg);
          vpos = uint (FIELD_GET MA35_DISPLAY_CURRENT_Y reg);
          (etime, w) = kt w
      in ((hpos, vpos, stime, etime), w))"

section \<open>Hooks\<close>

definition ma35_crtc_enable_vblank :: "'w regmap_api \<Rightarrow> 'w ma35_hw \<Rightarrow> int \<times> 'w ma35_hw" where
  "ma35_crtc_enable_vblank rm w = (0, w\<lparr>board := regmap_write rm (board w) MA35_DISPLAY_INTRENABLE MA35_CRTC_VBLANK\<rparr>)"

definition ma35_crtc_disable_vblank :: "'w regmap_api \<Rightarrow> 'w ma35_hw \<Rightarrow> 'w ma35_hw" where
  "ma35_crtc_disable_vblank rm w = w\<lparr>board := regmap_write rm (board w) MA35_DISPLAY_INTRENABLE 0\<rparr>"

definition ma35_crtc_get_vblank_counter :: "'w ma35_hw \<Rightarrow> u32 \<times> 'w ma35_hw" where
  "ma35_crtc_get_vblank_counter w = (vblank_counter w, w)"

definition ma35_gamma_set_reg :: "u16 \<Rightarrow> u16 \<Rightarrow> u16 \<Rightarrow> u32" where
  "ma35_gamma_set_reg r g b = FIELD_PREP MA35_GAMMA_RED_MASK (ucast r) OR FIELD_PREP MA35_GAMMA_GREEN_MASK (ucast g) OR
     FIELD_PREP MA35_GAMMA_BLUE_MASK (ucast b)"

definition ma35_crtc_gamma_set ::
    "'w regmap_api \<Rightarrow> u16 list \<Rightarrow> u16 list \<Rightarrow> u16 list \<Rightarrow> u32 \<Rightarrow> 'w \<Rightarrow> int \<times> 'w" where
  "ma35_crtc_gamma_set rm r g b sz w =
     (if sz \<noteq> MA35_GAMMA_TABLE_SIZE then (- EINVAL, w)
      else
        let w = regmap_write rm w MA35_GAMMA_INDEX 0
        in (0, fold (\<lambda>i w. regmap_write rm w MA35_GAMMA_DATA (ma35_gamma_set_reg (r ! i) (g ! i) (b ! i)))
                 [0..<unat sz] w))"

text \<open>
  The function table \<open>ma35_crtc_funcs\<close> as the core sees it: no timestamp hook. \<open>kt\<close> is the system clock, and the
  last arguments are the module parameters.
\<close>

definition ma35_crtc_funcs ::
    "'w regmap_api \<Rightarrow> ('w \<Rightarrow> ktime \<times> 'w) \<Rightarrow> (ktime \<Rightarrow> int \<times> int) \<Rightarrow> u32 \<Rightarrow> int \<Rightarrow> 'w ma35_hw vblank_env" where
  "ma35_crtc_funcs rm kt ts precision offdelay = \<lparr>feature_modeset = True, feature_atomic = True,
     crtc_from_index = (\<lambda>p. p = MA35_DEFAULT_CRTC_ID),
     hook_enable_vblank = (\<lambda>_. Some (ma35_crtc_enable_vblank rm)),
     hook_disable_vblank = (\<lambda>_. Some (ma35_crtc_disable_vblank rm)),
     hook_get_vblank_counter = (\<lambda>_. Some ma35_crtc_get_vblank_counter),
     hook_get_vblank_timestamp = (\<lambda>_. None),
     ktime_get = (\<lambda>w. let (t, b) = kt (board w) in (t, w\<lparr>board := b\<rparr>)),
     ktime_to_timespec64 = ts, drm_timestamp_precision = precision, drm_vblank_offdelay = offdelay\<rparr>"

text \<open>\<open>crtc\<close> says whether the driver has set its CRTC pointer yet.\<close>

definition ma35_crtc_vblank_handler :: "'w ma35_hw vblank_env \<Rightarrow> ma35_crtc option \<Rightarrow> 'w ma35_dev \<Rightarrow> 'w ma35_dev" where
  "ma35_crtc_vblank_handler env c dev = (case c of
     None \<Rightarrow> dev
   | Some _ \<Rightarrow>
       let dev = dev\<lparr>hw := (hw dev)\<lparr>vblank_counter := vblank_counter (hw dev) + 1\<rparr>\<rparr>
       in snd (drm_handle_vblank env MA35_DEFAULT_CRTC_ID dev))"

section \<open>Creation\<close>

text \<open>\<open>gamma_ret\<close> is the result of setting the legacy gamma size.\<close>

definition ma35_crtc_create_properties :: "int \<Rightarrow> ma35_crtc \<Rightarrow> int \<times> ma35_crtc" where
  "ma35_crtc_create_properties gamma_ret c =
     (let c = c\<lparr>dpi_format := MA35_DPI_D24, dither_enable := True, dither_depth := 8\<rparr>
      in (gamma_ret, c))"

definition ma35_crtc_init ::
    "bool \<Rightarrow> (drm_plane \<Rightarrow> drm_plane option \<Rightarrow> int) \<Rightarrow> int \<Rightarrow> ma35_layer list \<Rightarrow> u32 \<Rightarrow>
     int \<times> ma35_crtc option \<times> u32 \<times> ma35_layer list" where
  "ma35_crtc_init alloc init_with_planes gamma_ret layers counter =
     (if \<not> alloc then (- ENOMEM, None, counter, layers)
      else
        let c = \<lparr>dpi_format = 0, dither_depth = 0, dither_enable = False\<rparr>
        in case ma35_layer_get_from_type layers DRM_PLANE_TYPE_PRIMARY of
             None \<Rightarrow> (- EINVAL, Some c, 0, layers)
           | Some layer_primary \<Rightarrow>
               let cursor_plane = map_option lay_plane (ma35_layer_get_from_type layers DRM_PLANE_TYPE_CURSOR);
                   ret = init_with_planes (lay_plane layer_primary) cursor_plane
               in if ret \<noteq> 0 then (ret, Some c, 0, layers)
                  else
                    let layers = ma35_overlay_attach_crtc MA35_DEFAULT_CRTC_ID layers;
                        (ret, c) = ma35_crtc_create_properties gamma_ret c
                    in (ret, Some c, 0, layers))"

section \<open>Lemmas\<close>

interpretation ma35: frame_counter "ma35_crtc_funcs rm kt ts pr od" MA35_DEFAULT_CRTC_ID vblank_counter
  for rm :: "'w regmap_api" and kt ts pr od
  by unfold_locales (auto simp: ma35_crtc_funcs_def ma35_crtc_enable_vblank_def ma35_crtc_disable_vblank_def
      ma35_crtc_get_vblank_counter_def case_prod_beta Let_def)

lemma ma35_enable_works: "enable_works (ma35_crtc_funcs rm kt ts pr od) 1"
  by (simp add: enable_works_def ma35_crtc_funcs_def ma35_crtc_enable_vblank_def MA35_DEFAULT_CRTC_ID_def)

definition board_obs :: "('w \<Rightarrow> u32 \<Rightarrow> u32) \<Rightarrow> 'w ma35_hw \<Rightarrow> u32 \<Rightarrow> u32" where
  "board_obs regs w = (\<lambda>r. if r = MA35_DISPLAY_INTRENABLE then 0 else regs (board w) r)"

text \<open>The hooks of the driver write only the interrupt enable register.\<close>

lemma ma35_driver:
  assumes "regmap_laws rm regs" "\<And>w. regs (snd (kt w)) = regs w"
  shows "vblank_driver (ma35_crtc_funcs rm kt ts pr od) (board_obs regs)"
  by unfold_locales (auto simp: ma35_crtc_funcs_def ma35_crtc_enable_vblank_def ma35_crtc_disable_vblank_def
      ma35_crtc_get_vblank_counter_def board_obs_def case_prod_beta Let_def regmap_laws.regs_write [OF assms(1)] assms(2))

interpretation ma35_board: vblank_driver "ma35_crtc_funcs board_regmap (\<lambda>w. (0, w)) ts pr od" "board_obs bd_regs"
  for ts pr od
  by (rule ma35_driver [OF bd.regmap_laws_axioms]) simp

lemma board_obs_eq: "board_obs regs w = board_obs regs w' \<Longrightarrow> r \<noteq> MA35_DISPLAY_INTRENABLE \<Longrightarrow>
  regs (board w) r = regs (board w') r"
  unfolding board_obs_def by (drule fun_cong [of _ _ r]) simp

lemma total_reg: "ma35_total_reg t a = FIELD_PREP (GENMASK 14 0) (ucast a) OR FIELD_PREP (GENMASK 30 16) (ucast t)"
  by (simp add: ma35_total_reg_def ma_field or.commute)

lemma total_reg_fields:
  assumes "unat (ucast t :: u32) < 2 ^ 15" "unat (ucast a :: u32) < 2 ^ 15"
  shows "FIELD_GET MA35_DISPLAY_ACTIVE_MASK (ma35_total_reg t a) = ucast a"
    "FIELD_GET MA35_DISPLAY_TOTAL_MASK (ma35_total_reg t a) = ucast t"
  using FIELD_PREP_pair(1) [of 14 16 30 "ucast a" "ucast t"] FIELD_GET_total [OF assms(2,1)] assms
  unfolding total_reg ma_field by simp_all

lemma sync_reg_fields:
  assumes "unat (ucast a :: u32) < 2 ^ 15" "unat (ucast b :: u32) < 2 ^ 15"
  shows "FIELD_GET MA35_SYNC_START_MASK (ma35_sync_reg a b neg) = ucast a"
    "FIELD_GET MA35_SYNC_END_MASK (ma35_sync_reg a b neg) = ucast b"
    "bit (ma35_sync_reg a b neg) 30" "bit (ma35_sync_reg a b neg) 31 = neg"
proof -
  have e: "ma35_sync_reg a b neg = (ucast a OR push_bit 15 (ucast b) OR BIT 30) OR (if neg then BIT 31 else 0)"
    using FIELD_PREP_pair(1) [of 14 15 29 "ucast a" "ucast b"] assms
    by (simp add: ma35_sync_reg_def Let_def ma_field ac_simps)
  show "FIELD_GET MA35_SYNC_START_MASK (ma35_sync_reg a b neg) = ucast a"
    "FIELD_GET MA35_SYNC_END_MASK (ma35_sync_reg a b neg) = ucast b"
    "bit (ma35_sync_reg a b neg) 30" "bit (ma35_sync_reg a b neg) 31 = neg"
    unfolding e ma_field using FIELD_GET_sync [OF assms] by (auto simp: field_get bit_or_iff bit_BIT)
qed

lemma gamma_entries_regs:
  assumes "regmap_laws rm regs" "r \<noteq> MA35_GAMMA_INDEX" "r \<noteq> MA35_GAMMA_DATA"
  shows "regs (fold (ma35_gamma_entry rm) xs w) r = regs w r"
  by (induction xs arbitrary: w) (simp_all add: ma35_gamma_entry_def regmap_laws.regs_write [OF assms(1)] assms(2,3))

text \<open>What the board holds after programming the CRTC.\<close>

lemma crtc_program_regs:
  assumes rl: "regmap_laws rm regs"
  shows "regs (ma35_crtc_program rm c bf st w) MA35_HDISPLAY = ma35_total_reg (htotal (adjusted_mode st)) (hdisplay (adjusted_mode st))"
    "regs (ma35_crtc_program rm c bf st w) MA35_VDISPLAY = ma35_total_reg (vtotal (adjusted_mode st)) (vdisplay (adjusted_mode st))"
    "regs (ma35_crtc_program rm c bf st w) MA35_HSYNC = ma35_sync_reg (hsync_start (adjusted_mode st)) (hsync_end (adjusted_mode st))
       (DRM_MODE_FLAG_NHSYNC \<in> flags (adjusted_mode st))"
    "regs (ma35_crtc_program rm c bf st w) MA35_VSYNC = ma35_sync_reg (vsync_start (adjusted_mode st)) (vsync_end (adjusted_mode st))
       (DRM_MODE_FLAG_NVSYNC \<in> flags (adjusted_mode st))"
    "regs (ma35_crtc_program rm c bf st w) MA35_PANEL_CONFIG = ma35_panel_reg bf"
    "bit (regs (ma35_crtc_program rm c bf st w) MA35_FRAMEBUFFER_CONFIG) 2 \<longleftrightarrow> gamma_lut st \<noteq> None"
    "regs (ma35_crtc_program rm c bf st w) MA35_DISPLAY_DITHER_CONFIG = (if dither_enable c then MA35_DITHER_ENABLE else 0)"
proof -
  note W = regmap_laws.regs_write [OF rl] regmap_laws.regs_update_bits [OF rl]
  have g: "regs (ma35_set_gamma rm st x) r = regs x r"
    if "r \<notin> {MA35_FRAMEBUFFER_CONFIG, MA35_GAMMA_INDEX, MA35_GAMMA_DATA}" for x r
    using that gamma_entries_regs [OF rl] by (simp add: ma35_set_gamma_def Let_def W split: option.split)
  have dt: "regs (ma35_set_dither rm c x) r = regs x r"
    if "r \<notin> {MA35_DISPLAY_DITHER_TABLE_LOW, MA35_DISPLAY_DITHER_TABLE_HIGH, MA35_DISPLAY_DITHER_CONFIG}" for x r
    using that by (simp add: ma35_set_dither_def Let_def W)
  show "regs (ma35_crtc_program rm c bf st w) MA35_HDISPLAY = ma35_total_reg (htotal (adjusted_mode st)) (hdisplay (adjusted_mode st))"
    "regs (ma35_crtc_program rm c bf st w) MA35_VDISPLAY = ma35_total_reg (vtotal (adjusted_mode st)) (vdisplay (adjusted_mode st))"
    "regs (ma35_crtc_program rm c bf st w) MA35_HSYNC = ma35_sync_reg (hsync_start (adjusted_mode st)) (hsync_end (adjusted_mode st))
       (DRM_MODE_FLAG_NHSYNC \<in> flags (adjusted_mode st))"
    "regs (ma35_crtc_program rm c bf st w) MA35_VSYNC = ma35_sync_reg (vsync_start (adjusted_mode st)) (vsync_end (adjusted_mode st))
       (DRM_MODE_FLAG_NVSYNC \<in> flags (adjusted_mode st))"
    "regs (ma35_crtc_program rm c bf st w) MA35_PANEL_CONFIG = ma35_panel_reg bf"
    by (simp_all add: ma35_crtc_program_def ma35_set_timings_def Let_def W g dt ma_addr)
  show "bit (regs (ma35_crtc_program rm c bf st w) MA35_FRAMEBUFFER_CONFIG) 2 \<longleftrightarrow> gamma_lut st \<noteq> None"
    by (simp add: ma35_crtc_program_def ma35_set_gamma_def Let_def W dt ma_addr ma_field bit_or_iff bit_and_iff bit_not_iff bit_BIT
        split: option.split)
  show "regs (ma35_crtc_program rm c bf st w) MA35_DISPLAY_DITHER_CONFIG = (if dither_enable c then MA35_DITHER_ENABLE else 0)"
    by (simp add: ma35_crtc_program_def ma35_set_dither_def Let_def W ma_addr)
qed

section \<open>Properties\<close>


definition ma35_example_commit :: drm_crtc_commit where
  "ma35_example_commit = \<lparr>enable = True, mode = example_mode, adjusted_mode = example_mode, active = True,
     gamma_lut = None, crtc_color_mgmt_changed = False\<rparr>"

definition ma35_example_crtc :: ma35_crtc where
  "ma35_example_crtc = \<lparr>dpi_format = 5, dither_depth = 8, dither_enable = True\<rparr>"

definition ma35_example_dev :: "board ma35_dev" where
  "ma35_example_dev = snd (drm_vblank_init True (\<lambda>_. 0) 1 \<lparr>hw = \<lparr>board = board_init, vblank_counter = 7\<rparr>, vblank = [],
     max_vblank_count = MA35_DEBUG_COUNTER_MASK, vblank_disable_immediate = False, vblank_event_list = [],
     crtc_event = (\<lambda>_. None), delivered = [], work_queue = []\<rparr>)"


text \<open>The vertical blanking operations do not look at the event of the CRTC state.\<close>

lemma commute_counter:
  "get_vblank_counter env p (d\<lparr>crtc_event := f\<rparr>) = (fst (get_vblank_counter env p d), (snd (get_vblank_counter env p d))\<lparr>crtc_event := f\<rparr>)"
  by (simp add: get_vblank_counter_def Let_def split: option.split prod.split)

lemma commute_timestamp:
  "drm_get_last_vbltimestamp env p irq (d\<lparr>crtc_event := f\<rparr>) =
     (case drm_get_last_vbltimestamp env p irq d of (rc, t, x) \<Rightarrow> (rc, t, x\<lparr>crtc_event := f\<rparr>))"
  by (simp add: drm_get_last_vbltimestamp_def drm_crtc_get_last_vbltimestamp_def Let_def case_prod_beta cong: option.case_cong)

lemma commute_loop:
  "counter_and_timestamp_loop n env p irq (d\<lparr>crtc_event := f\<rparr>) =
     (case counter_and_timestamp_loop n env p irq d of (rc, c, t, x) \<Rightarrow> (rc, c, t, x\<lparr>crtc_event := f\<rparr>))"
  by (induction n arbitrary: d) (simp_all add: Let_def case_prod_beta commute_counter commute_timestamp)

lemma commute_upd: "upd_vblank p g (d\<lparr>crtc_event := f\<rparr>) = (upd_vblank p g d)\<lparr>crtc_event := f\<rparr>"
  by (simp add: upd_vblank_def)

lemma commute_update:
  "drm_update_vblank_count env p irq (d\<lparr>crtc_event := f\<rparr>) = (drm_update_vblank_count env p irq d)\<lparr>crtc_event := f\<rparr>"
proof -
  obtain rc c t x where g: "counter_and_timestamp_loop (DRM_TIMESTAMP_MAXRETRIES - 1) env p irq d = (rc, c, t, x)"
    using prod_cases4 by blast
  show ?thesis
    unfolding drm_update_vblank_count_def get_vblank_counter_and_timestamp_def commute_loop g store_vblank_def
    by (simp add: Let_def commute_upd if_distrib [of "crtc_event_update (\<lambda>_. f)"] split del: if_split cong: if_cong)
qed

lemma commute_get:
  "drm_vblank_get env p (d\<lparr>crtc_event := f\<rparr>) = (fst (drm_vblank_get env p d), (snd (drm_vblank_get env p d))\<lparr>crtc_event := f\<rparr>)"
proof -
  have h: "enable_vblank_hook env p (x\<lparr>crtc_event := f\<rparr>) =
      (fst (enable_vblank_hook env p x), (snd (enable_vblank_hook env p x))\<lparr>crtc_event := f\<rparr>)" for x
    by (simp add: enable_vblank_hook_def Let_def split: option.split prod.split)
  have e: "drm_vblank_enable env p (x\<lparr>crtc_event := f\<rparr>) =
      (fst (drm_vblank_enable env p x), (snd (drm_vblank_enable env p x))\<lparr>crtc_event := f\<rparr>)" for x
    by (simp add: drm_vblank_enable_def Let_def case_prod_beta h commute_update commute_upd)
  show ?thesis by (simp add: drm_vblank_get_def Let_def commute_upd e)
qed

lemma commute_events:
  "drm_crtc_arm_vblank_event env p e (d\<lparr>crtc_event := f\<rparr>) = (drm_crtc_arm_vblank_event env p e d)\<lparr>crtc_event := f\<rparr>"
  "drm_crtc_send_vblank_event env p e (d\<lparr>crtc_event := f\<rparr>) = (drm_crtc_send_vblank_event env p e d)\<lparr>crtc_event := f\<rparr>"
  by (simp_all add: drm_crtc_arm_vblank_event_def drm_crtc_accurate_vblank_count_def drm_vblank_count_def commute_update
      drm_crtc_send_vblank_event_def drm_vblank_count_and_time_def send_vblank_event_def Let_def case_prod_beta cong: event_type.case_cong)

lemma events_keep_crtc_event:
  "crtc_event (snd (drm_vblank_get env p d)) = crtc_event d"
  "crtc_event (drm_crtc_arm_vblank_event env p e d) = crtc_event d"
  "crtc_event (drm_crtc_send_vblank_event env p e d) = crtc_event d"
  using arg_cong [OF commute_get [where env = env and p = p and d = d and f = "crtc_event d"], of "\<lambda>r. crtc_event (snd r)"]
    arg_cong [OF commute_events(1) [where env = env and p = p and e = e and d = d and f = "crtc_event d"], of crtc_event]
    arg_cong [OF commute_events(2) [where env = env and p = p and e = e and d = d and f = "crtc_event d"], of crtc_event] by simp_all

lemma flush_is_helper:
  "ma35_crtc_atomic_flush env dev = drm_crtc_vblank_atomic_flush env MA35_DEFAULT_CRTC_ID dev"
proof (cases "crtc_event dev MA35_DEFAULT_CRTC_ID")
  case None
  then have "(crtc_event dev)(MA35_DEFAULT_CRTC_ID := None) = crtc_event dev" by auto
  then show ?thesis using None by (simp add: ma35_crtc_atomic_flush_def drm_crtc_vblank_atomic_flush_def)
next
  case (Some e)
  then show ?thesis
    by (simp add: ma35_crtc_atomic_flush_def drm_crtc_vblank_atomic_flush_def Let_def case_prod_beta commute_get commute_events
        events_keep_crtc_event)
qed

text \<open>C30: the driver's own flush does what the core's helper for it does: for every state of the device they leave
  the same state.\<close>

theorem ma35_crtc_flush_is_helper:
  "ma35_crtc_atomic_flush env dev = drm_crtc_vblank_atomic_flush env MA35_DEFAULT_CRTC_ID dev"
  by (rule flush_is_helper)

text \<open>C31: a page flip completes with the next frame: the event of a commit that is flushed while the CRTC is on is
  delivered when the driver handles the next vertical blanking interrupt, and waits no longer.\<close>

theorem ma35_flip_completes:
  assumes "vblank_inv u dev" "num_crtcs dev = 1" "vc_inmodeset (vblank dev ! MA35_DEFAULT_CRTC_ID) = 0"
    and "max_vblank_count dev = MA35_DEBUG_COUNTER_MASK" "vc_max_vblank_count (vblank dev ! MA35_DEFAULT_CRTC_ID) = 0"
    and "crtc_event dev MA35_DEFAULT_CRTC_ID = Some e"
  shows "let env = ma35_crtc_funcs rm kt ts pr od; d1 = ma35_crtc_atomic_flush env dev;
             d2 = ma35_crtc_vblank_handler env (Some c) d1;
             e1 = e\<lparr>ev_pipe := MA35_DEFAULT_CRTC_ID, ev_sequence := vc_count (vblank d1 ! MA35_DEFAULT_CRTC_ID) + 1\<rparr>
    in e1 \<in> set (vblank_event_list d1) \<and> e1 \<notin> set (vblank_event_list d2) \<and> ev_id e \<in> ev_id ` set (delivered d2)"
proof -
  let ?env = "ma35_crtc_funcs rm kt ts pr od"
  have n: "MA35_DEFAULT_CRTC_ID < num_crtcs dev" using assms(2) by (simp add: MA35_DEFAULT_CRTC_ID_def)
  have ok: "enable_works ?env (num_crtcs dev)" using ma35_enable_works assms(2) by simp
  have m: "drm_max_vblank_count dev MA35_DEFAULT_CRTC_ID = - 1"
  proof -
    have "GENMASK 31 0 = - 1" by (rule bit_word_eqI) (simp add: bit_GENMASK)
    then show ?thesis using assms(4,5) by (simp add: drm_max_vblank_count_def MA35_DEBUG_COUNTER_MASK_def)
  qed
  let ?d1 = "drm_crtc_vblank_atomic_flush ?env MA35_DEFAULT_CRTC_ID dev"
  have "vblank_counter ((hw ?d1)\<lparr>vblank_counter := vblank_counter (hw ?d1) + 1\<rparr>) = vblank_counter (hw ?d1) + of_nat 1" by simp
  note d = event_delivered [OF ma35.frame_counter_axioms assms(1) ok n assms(3) m assms(6) _ _ this]
  show ?thesis using d by (simp add: Let_def flush_is_helper ma35_crtc_vblank_handler_def)
qed

definition ma35_example_event :: drm_pending_vblank_event where
  "ma35_example_event = new_event 5 DRM_EVENT_FLIP_COMPLETE 0"

definition ma35_example_flip :: "board ma35_dev" where
  "ma35_example_flip = ma35_example_dev\<lparr>crtc_event := (\<lambda>_. None)(0 := Some ma35_example_event)\<rparr>"

lemma ma35_example_ok:
  "num_crtcs ma35_example_dev = 1" "vblank_inv (\<lambda>_. 0) ma35_example_dev" "vc_inmodeset (vblank ma35_example_dev ! 0) = 0"
  "max_vblank_count ma35_example_dev = MA35_DEBUG_COUNTER_MASK" "vc_max_vblank_count (vblank ma35_example_dev ! 0) = 0"
  by (simp_all add: ma35_example_dev_def drm_vblank_init_def vblank_inv_def crtc_ok_def pending_on_def vblank_zero_def)

abbreviation ma35_example_env :: "board ma35_hw vblank_env" where
  "ma35_example_env \<equiv> ma35_crtc_funcs board_regmap (\<lambda>w. (0, w)) (\<lambda>t. (0, 0)) 20 5000"

theorem ma35_flip_completes_witness:
  "5 \<in> ev_id ` set (delivered (ma35_crtc_vblank_handler ma35_example_env (Some ma35_example_crtc)
     (ma35_crtc_atomic_flush ma35_example_env ma35_example_flip)))"
proof -
  have z: "MA35_DEFAULT_CRTC_ID = 0" "ev_id ma35_example_event = 5"
    by (simp_all add: MA35_DEFAULT_CRTC_ID_def ma35_example_event_def new_event_def)
  show ?thesis
    using ma35_flip_completes [of "\<lambda>_. 0" ma35_example_flip ma35_example_event board_regmap "\<lambda>w. (0, w)" "\<lambda>t. (0, 0)" 20 5000
        ma35_example_crtc] ma35_example_ok z
    by (simp add: ma35_example_flip_def Let_def)
qed

text \<open>One interrupt while someone uses vertical blanking: the count follows the frame counter.\<close>

definition ma35_counting :: "(nat \<Rightarrow> nat) \<Rightarrow> 'w ma35_dev \<Rightarrow> bool" where
  "ma35_counting u d \<longleftrightarrow> vblank_inv u d \<and> num_crtcs d = 1 \<and> 0 < u 0 \<and> vc_inmodeset (vblank d ! 0) = 0 \<and>
     drm_max_vblank_count d 0 = - 1 \<and> vc_last (vblank d ! 0) = vblank_counter (hw d)"

lemma handler_counts:
  assumes "ma35_counting u d" and d'_def: "d' = ma35_crtc_vblank_handler (ma35_crtc_funcs rm kt ts pr od) (Some c) d"
  shows "ma35_counting u d'" "vblank_counter (hw d') = vblank_counter (hw d) + 1"
    "vc_count (vblank d' ! 0) = vc_count (vblank d ! 0) + 1"
proof -
  let ?env = "ma35_crtc_funcs rm kt ts pr od"
  let ?x = "d\<lparr>hw := (hw d)\<lparr>vblank_counter := vblank_counter (hw d) + 1\<rparr>\<rparr>"
  let ?u = "drm_update_vblank_count ?env 0 True ?x"
  have i: "vblank_inv u ?x" "0 < length (vblank ?x)" "0 < u 0" "vc_inmodeset (vblank ?x ! 0) = 0"
    "drm_max_vblank_count ?x 0 = - 1" using assms(1) by (simp_all add: ma35_counting_def)
  have on: "vc_enabled (vblank ?x ! 0)" using inv_crtc [OF i(1,2)] i(3,4) by (simp add: crtc_ok_def)
  have d': "d' = snd (drm_handle_vblank ?env 0 ?x)"
    by (simp add: d'_def ma35_crtc_vblank_handler_def MA35_DEFAULT_CRTC_ID_def)
  have v: "count_view 0 d' = count_view 0 ?u" unfolding d' by (rule handle_vblank_view [OF i(1,2) on i(3)])
  have fc: "frame_counter ?env 0 vblank_counter" using ma35.frame_counter_axioms by (simp add: MA35_DEFAULT_CRTC_ID_def)
  note f = frame_counter.update_count [OF fc i(2,5), of True, simplified]
  have l: "vc_last (vblank ?x ! 0) = vblank_counter (hw d)" using assms(1) by (simp add: ma35_counting_def)
  have u': "vblank_counter (hw ?u) = vblank_counter (hw d) + 1" "vc_count (vblank ?u ! 0) = vc_count (vblank d ! 0) + 1"
    "vc_last (vblank ?u ! 0) = vblank_counter (hw d) + 1"
    using f l i(4) by simp_all
  show c1: "vblank_counter (hw d') = vblank_counter (hw d) + 1" "vc_count (vblank d' ! 0) = vc_count (vblank d ! 0) + 1"
    using v u' by (simp_all add: count_view_def)
  have "vc_last (vblank d' ! 0) = vblank_counter (hw d')" using v u' by (simp add: count_view_def)
  moreover have "drm_max_vblank_count d' 0 = - 1"
  proof -
    have "drm_max_vblank_count d' 0 = drm_max_vblank_count ?u 0"
      using v by (simp add: count_view_def drm_max_vblank_count_def)
    also have "\<dots> = drm_max_vblank_count ?x 0" by (rule max_count_rel [OF count_rel_update])
    finally show ?thesis using i(5) by simp
  qed
  moreover note handle_vblank_inv [OF i(1), of ?env 0, folded d']
  moreover have "vc_inmodeset (vblank d' ! 0) = 0"
    using v i(4) vc_ctl_eqD(2) [OF count_relD(2) [OF count_rel_update [where env = ?env and p = 0 and irq = True and d = ?x]]] by (simp add: count_view_def)
  ultimately show "ma35_counting u d'" using assms(1) by (simp add: ma35_counting_def)
qed

text \<open>C32: while someone uses vertical blanking, no frame is missed or counted twice: after any number \<open>k\<close> of
  vertical blanking interrupts the driver's frame counter and the 64-bit count clients see have both advanced by exactly \<open>k\<close>.\<close>

theorem ma35_interrupts_counted:
  assumes "vblank_inv u dev" "num_crtcs dev = 1" "0 < u 0" "vc_inmodeset (vblank dev ! 0) = 0"
    and "drm_max_vblank_count dev 0 = - 1" "vc_last (vblank dev ! 0) = vblank_counter (hw dev)"
  shows "let dev' = (ma35_crtc_vblank_handler (ma35_crtc_funcs rm kt ts pr od) (Some c) ^^ k) dev
    in vblank_counter (hw dev') = vblank_counter (hw dev) + of_nat k \<and>
       vc_count (vblank dev' ! 0) = vc_count (vblank dev ! 0) + of_nat k"
proof -
  let ?h = "ma35_crtc_vblank_handler (ma35_crtc_funcs rm kt ts pr od) (Some c)"
  have "ma35_counting u ((?h ^^ k) dev) \<and> vblank_counter (hw ((?h ^^ k) dev)) = vblank_counter (hw dev) + of_nat k \<and>
      vc_count (vblank ((?h ^^ k) dev) ! 0) = vc_count (vblank dev ! 0) + of_nat k"
  proof (induction k)
    case 0
    then show ?case using assms by (simp add: ma35_counting_def)
  next
    case (Suc k)
    then show ?case using handler_counts [of u "(?h ^^ k) dev", OF _ refl, of rm kt ts pr od c] by (simp add: ac_simps)
  qed
  then show ?thesis by (simp add: Let_def)
qed

theorem ma35_interrupts_counted_witness:
  "vc_count (vblank ((ma35_crtc_vblank_handler ma35_example_env (Some ma35_example_crtc) ^^ 3)
     (snd (drm_vblank_get ma35_example_env 0 ma35_example_dev))) ! 0) = 10"
proof -
  let ?d = "snd (drm_vblank_get ma35_example_env 0 ma35_example_dev)"
  have ok: "enable_works ma35_example_env (num_crtcs ma35_example_dev)" "0 < num_crtcs ma35_example_dev"
    using ma35_enable_works ma35_example_ok(1) by simp_all
  obtain d' where g: "drm_vblank_get ma35_example_env 0 ma35_example_dev = (0, d')"
    "vblank_inv ((\<lambda>_. 0)(0 := Suc 0)) d'" "length (vblank d') = length (vblank ma35_example_dev)" "vc_inmodeset (vblank d' ! 0) = 0"
    by (rule vblank_get_inv [OF ma35_example_ok(2) ok]) (use ma35_example_ok(3) in auto)
  have v: "drm_max_vblank_count ?d 0 = - 1" "vc_last (vblank ?d ! 0) = 7" "vblank_counter (hw ?d) = 7" "vc_count (vblank ?d ! 0) = 7"
    by code_simp+
  show ?thesis
    using ma35_interrupts_counted [where u = "(\<lambda>_. 0)(0 := Suc 0)" and dev = ?d and rm = board_regmap and kt = "\<lambda>w. (0, w)"
        and ts = "\<lambda>t. (0, 0)" and pr = 20 and od = 5000 and c = ma35_example_crtc and k = 3]
      g ma35_example_ok(1) v by (simp add: Let_def)
qed



section \<open>Deviations\<close>

text \<open>
  The check of a CRTC state returns a mode status, a positive number in the header, where callers expect 0 or a
  negative error code.
\<close>

lemma ma35_crtc_check_positive:
  "0 < status_val MODE_CLOCK_HIGH \<Longrightarrow> clock (mode st) > MA35_MAX_PIXEL_CLK \<Longrightarrow>
   0 < fst (ma35_crtc_atomic_check status_val ck clk w st)"
  by (simp add: ma35_crtc_atomic_check_def)

text \<open>
  The table of a commit is scaled from 16 to the hardware's 10 bits; the legacy path stores the low 10 bits of each
  value instead. For the maximal red 0x8000 the one stores 0x200, the other 0.
\<close>

lemma ma35_gamma_set_truncates:
  "FIELD_GET MA35_GAMMA_RED_MASK (ma35_gamma_reg \<lparr>red = 0x8000, green = 0, blue = 0\<rparr>) = 0x200"
  "FIELD_GET MA35_GAMMA_RED_MASK (ma35_gamma_set_reg 0x8000 0 0) = 0"
  by code_simp+

text \<open>A panel that samples on the other clock edge changes the data polarity and leaves the clock polarity alone.\<close>

lemma ma35_negedge_data_polarity:
  "\<not> bit (ma35_panel_reg {DRM_BUS_FLAG_PIXDATA_DRIVE_NEGEDGE}) 9 \<and> bit (ma35_panel_reg {DRM_BUS_FLAG_PIXDATA_DRIVE_NEGEDGE}) 5"
  by (simp add: ma35_panel_reg_def Let_def ma_field bit_or_iff bit_BIT)

text \<open>The gamma table stays enabled only until the next update of the primary plane, which rewrites the register without it.\<close>

lemma ma35_primary_update_drops_gamma:
  assumes "regmap_laws rm regs" "unat fmt < 2 ^ 6"
  shows "\<not> bit (regs (ma35_primary_update rm fmt f w) MA35_FRAMEBUFFER_CONFIG) 2"
  by (simp add: ma35_primary_update_def Let_def regmap_laws.regs_write [OF assms(1)] ma_addr ma_field bit_or_iff bit_BIT
      bit_FIELD_PREP)

end
