(* ===== verification/Drm_Probe.thy ===== *)
theory Drm_Probe
  imports Drm_Modes "HOL-Library.Multiset"
begin

text \<open>
  The mode lists of a connector (\<open>drm/drm_modes.c\<close>) and the helper that fills them
  (\<open>drm/drm_probe_helper.c\<close>): comparing, merging, validating, pruning and sorting modes, the modes a connector without
  EDID gets (\<open>drm/drm_edid.c\<close>) and the loop of \<open>drm_helper_probe_single_connector_modes\<close>, which starts again
  whenever taking a lock would deadlock.

  An entry of a list is a mode with its type bits, status and aspect ratio. The hooks of the drivers, the table of
  standard modes, the creation of a mode from the command line, the allocation of modes, the modeset locks and
  \<open>list_sort\<close> are the fields of \<open>probe_env\<close>; \<open>'w\<close> is the world these act on. Log messages and the
  EDID property of a disconnected connector are left out.
\<close>

section \<open>Data\<close>

definition EDEADLK :: int where "EDEADLK = 35"

datatype mode_type = DRM_MODE_TYPE_PREFERRED | DRM_MODE_TYPE_USERDEF | DRM_MODE_TYPE_other nat

record drm_mode_entry =
  dmode :: drm_display_mode
  dtype :: "mode_type set"
  status :: drm_mode_status
  picture_aspect_ratio :: nat

datatype drm_connector_status = connector_status_connected | connector_status_disconnected | connector_status_unknown

datatype drm_connector_force = DRM_FORCE_UNSPECIFIED | DRM_FORCE_OFF | DRM_FORCE_ON | DRM_FORCE_ON_DIGITAL

record drm_cmdline_mode =
  specified :: bool
  xres :: int
  yres :: int
  refresh_specified :: bool
  refresh :: int

record drm_connector =
  modes :: "drm_mode_entry list"
  probed_modes :: "drm_mode_entry list"
  conn_status :: drm_connector_status
  conn_force :: drm_connector_force
  epoch_counter :: u64
  interlace_allowed :: bool
  doublescan_allowed :: bool
  stereo_allowed :: bool
  ycbcr_420_allowed :: bool
  is_displayport :: bool
  cmdline_mode :: drm_cmdline_mode

text \<open>The connector with what the probe changes of its device, and the rest of the world.\<close>

record 'w probe_state =
  connector :: drm_connector
  delayed_event :: bool
  poll_enabled :: bool
  poll_work_queued :: bool
  world :: 'w

text \<open>The constants of the headers: which type bits, flags and stereo layouts exist.\<close>

record mode_hdr =
  DRM_MODE_TYPE_ALL :: "mode_type set"
  DRM_MODE_FLAG_ALL :: "mode_flag set"
  stereo_in_range :: "stereo_layout \<Rightarrow> bool"

type_synonym mode_valid_fn = "drm_display_mode \<Rightarrow> drm_mode_status"

record crtc_hook =
  crtc_possible :: bool
  crtc_mode_valid_hook :: "mode_valid_fn option"

record encoder_hook =
  encoder_mode_valid_hook :: "mode_valid_fn option"
  bridge_hooks :: "mode_valid_fn option list"
  encoder_crtcs :: "crtc_hook list"

record 'w probe_env =
  mhdr :: mode_hdr
  drm_modeset_lock :: "'w \<Rightarrow> int \<times> 'w"
  drm_modeset_backoff :: "'w \<Rightarrow> 'w"
  drm_modeset_drop_locks :: "'w \<Rightarrow> 'w"
  force_hook :: "(drm_connector \<Rightarrow> 'w \<Rightarrow> drm_connector \<times> 'w) option"
  detect_ctx :: "(drm_connector \<Rightarrow> 'w \<Rightarrow> (int + drm_connector_status) \<times> 'w) option"
  detect :: "(drm_connector \<Rightarrow> 'w \<Rightarrow> (int + drm_connector_status) \<times> 'w) option"
  drm_kms_helper_poll_enable :: "'w \<Rightarrow> 'w"
  get_modes :: "drm_connector \<Rightarrow> 'w \<Rightarrow> int \<times> drm_connector \<times> 'w"
  drm_edid_override_connector_update :: "drm_connector \<Rightarrow> 'w \<Rightarrow> int \<times> drm_connector \<times> 'w"
  drm_dmt_modes :: "drm_mode_entry list"
  kzalloc_mode :: "'w \<Rightarrow> bool \<times> 'w"
  drm_mode_create_from_cmdline_mode :: "drm_cmdline_mode \<Rightarrow> 'w \<Rightarrow> drm_mode_entry option \<times> 'w"
  config_mode_valid :: "mode_valid_fn option"
  drm_mode_is_420_only :: "drm_display_mode \<Rightarrow> nat \<Rightarrow> bool"
  connector_helper :: bool
  mode_valid_ctx :: "(drm_display_mode \<Rightarrow> 'w \<Rightarrow> int \<times> drm_mode_status \<times> 'w) option"
  connector_mode_valid_hook :: "mode_valid_fn option"
  encoders :: "encoder_hook list"
  list_sort :: "(drm_mode_entry \<Rightarrow> drm_mode_entry \<Rightarrow> int) \<Rightarrow> drm_mode_entry list \<Rightarrow> drm_mode_entry list"

section \<open>Comparing modes\<close>

text \<open>The refresh rate in Hz; a product that does not fit 32 bits gives 0.\<close>

definition drm_mode_vrefresh :: "drm_display_mode \<Rightarrow> int" where
  "drm_mode_vrefresh m =
     (if htotal m = 0 \<or> vtotal m = 0 then 0
      else
        let num = (if DRM_MODE_FLAG_INTERLACE \<in> flags m then 2 else 1);
            den = (if DRM_MODE_FLAG_DBLSCAN \<in> flags m then 2 else 1) * (if vscan m > 1 then uint (vscan m) else 1);
            num = clock m * num;
            den = wrap32 (uint (htotal m) * uint (vtotal m)) * den
        in if num < 0 \<or> 2 ^ 32 \<le> num \<or> den < 0 \<or> 2 ^ 32 \<le> den then 0
           else wrap32 (uint (DIV_ROUND_CLOSEST_ULL (word_of_int (num * 1000)) den)))"

definition KHZ2PICOS :: "int \<Rightarrow> int" where
  "KHZ2PICOS a = 1000000000 div (a mod 2 ^ 64)"

definition drm_mode_match_timings :: "drm_display_mode \<Rightarrow> drm_display_mode \<Rightarrow> bool" where
  "drm_mode_match_timings m1 m2 \<longleftrightarrow> hdisplay m1 = hdisplay m2 \<and> hsync_start m1 = hsync_start m2 \<and>
     hsync_end m1 = hsync_end m2 \<and> htotal m1 = htotal m2 \<and> hskew m1 = hskew m2 \<and> vdisplay m1 = vdisplay m2 \<and>
     vsync_start m1 = vsync_start m2 \<and> vsync_end m1 = vsync_end m2 \<and> vtotal m1 = vtotal m2 \<and> vscan m1 = vscan m2"

definition drm_mode_match_clock :: "drm_display_mode \<Rightarrow> drm_display_mode \<Rightarrow> bool" where
  "drm_mode_match_clock m1 m2 =
     (if clock m1 \<noteq> 0 \<and> clock m2 \<noteq> 0 then KHZ2PICOS (clock m1) = KHZ2PICOS (clock m2) else clock m1 = clock m2)"

definition drm_mode_match_flags :: "drm_display_mode \<Rightarrow> drm_display_mode \<Rightarrow> bool" where
  "drm_mode_match_flags m1 m2 \<longleftrightarrow> flags m1 = flags m2"

definition drm_mode_match_3d_flags :: "drm_display_mode \<Rightarrow> drm_display_mode \<Rightarrow> bool" where
  "drm_mode_match_3d_flags m1 m2 \<longleftrightarrow> stereo m1 = stereo m2"

definition drm_mode_match_aspect_ratio :: "drm_mode_entry \<Rightarrow> drm_mode_entry \<Rightarrow> bool" where
  "drm_mode_match_aspect_ratio e1 e2 \<longleftrightarrow> picture_aspect_ratio e1 = picture_aspect_ratio e2"

datatype match_flag = DRM_MODE_MATCH_TIMINGS | DRM_MODE_MATCH_CLOCK | DRM_MODE_MATCH_FLAGS | DRM_MODE_MATCH_3D_FLAGS
  | DRM_MODE_MATCH_ASPECT_RATIO

definition drm_mode_match :: "drm_mode_entry option \<Rightarrow> drm_mode_entry option \<Rightarrow> match_flag set \<Rightarrow> bool" where
  "drm_mode_match mode1 mode2 match_flags = (case (mode1, mode2) of
     (None, None) \<Rightarrow> True
   | (Some e1, Some e2) \<Rightarrow>
       (if DRM_MODE_MATCH_TIMINGS \<in> match_flags \<and> \<not> drm_mode_match_timings (dmode e1) (dmode e2) then False
        else if DRM_MODE_MATCH_CLOCK \<in> match_flags \<and> \<not> drm_mode_match_clock (dmode e1) (dmode e2) then False
        else if DRM_MODE_MATCH_FLAGS \<in> match_flags \<and> \<not> drm_mode_match_flags (dmode e1) (dmode e2) then False
        else if DRM_MODE_MATCH_3D_FLAGS \<in> match_flags \<and> \<not> drm_mode_match_3d_flags (dmode e1) (dmode e2) then False
        else if DRM_MODE_MATCH_ASPECT_RATIO \<in> match_flags \<and> \<not> drm_mode_match_aspect_ratio e1 e2 then False
        else True)
   | _ \<Rightarrow> False)"

definition drm_mode_equal :: "drm_mode_entry \<Rightarrow> drm_mode_entry \<Rightarrow> bool" where
  "drm_mode_equal e1 e2 = drm_mode_match (Some e1) (Some e2) {DRM_MODE_MATCH_TIMINGS, DRM_MODE_MATCH_CLOCK,
     DRM_MODE_MATCH_FLAGS, DRM_MODE_MATCH_3D_FLAGS, DRM_MODE_MATCH_ASPECT_RATIO}"

definition drm_mode_equal_no_clocks :: "drm_mode_entry \<Rightarrow> drm_mode_entry \<Rightarrow> bool" where
  "drm_mode_equal_no_clocks e1 e2 = drm_mode_match (Some e1) (Some e2) {DRM_MODE_MATCH_TIMINGS, DRM_MODE_MATCH_FLAGS,
     DRM_MODE_MATCH_3D_FLAGS}"

definition drm_mode_equal_no_clocks_no_stereo :: "drm_mode_entry \<Rightarrow> drm_mode_entry \<Rightarrow> bool" where
  "drm_mode_equal_no_clocks_no_stereo e1 e2 = drm_mode_match (Some e1) (Some e2) {DRM_MODE_MATCH_TIMINGS,
     DRM_MODE_MATCH_FLAGS}"

text \<open>Negative when the first mode is better.\<close>

definition drm_mode_compare :: "drm_mode_entry \<Rightarrow> drm_mode_entry \<Rightarrow> int" where
  "drm_mode_compare a b =
     (let area = (\<lambda>e. wrap32 (uint (hdisplay (dmode e)) * uint (vdisplay (dmode e))));
          diff = of_bool (DRM_MODE_TYPE_PREFERRED \<in> dtype b) - of_bool (DRM_MODE_TYPE_PREFERRED \<in> dtype a)
      in if diff \<noteq> 0 then diff
         else
           let diff = wrap32 (area b - area a)
           in if diff \<noteq> 0 then diff
              else
                let diff = wrap32 (drm_mode_vrefresh (dmode b) - drm_mode_vrefresh (dmode a))
                in if diff \<noteq> 0 then diff else wrap32 (clock (dmode b) - clock (dmode a)))"

section \<open>Mode lists\<close>

text \<open>\<open>list_del\<close> and \<open>drm_mode_destroy\<close> of every entry whose status is not \<open>MODE_OK\<close>.\<close>

definition drm_mode_prune_invalid :: "drm_mode_entry list \<Rightarrow> drm_mode_entry list" where
  "drm_mode_prune_invalid ms = filter (\<lambda>e. status e = MODE_OK) ms"

definition drm_mode_sort :: "'w probe_env \<Rightarrow> drm_mode_entry list \<Rightarrow> drm_mode_entry list" where
  "drm_mode_sort env ms = list_sort env drm_mode_compare ms"

definition drm_mode_entry_copy :: "drm_mode_entry \<Rightarrow> drm_mode_entry \<Rightarrow> drm_mode_entry" where
  "drm_mode_entry_copy dst src = src"

text \<open>The inner loop: the list with the probed mode merged into the first equal mode, if there is one.\<close>

fun merge_probed :: "drm_mode_entry \<Rightarrow> drm_mode_entry list \<Rightarrow> drm_mode_entry list option" where
  "merge_probed pmode [] = None"
| "merge_probed pmode (e # es) =
     (if \<not> drm_mode_equal pmode e then map_option ((#) e) (merge_probed pmode es)
      else Some ((if status e = MODE_STALE then drm_mode_entry_copy e pmode
                  else if DRM_MODE_TYPE_PREFERRED \<notin> dtype e \<and> DRM_MODE_TYPE_PREFERRED \<in> dtype pmode
                  then drm_mode_entry_copy e (pmode\<lparr>dtype := dtype pmode \<union> dtype e\<rparr>)
                  else e\<lparr>dtype := dtype e \<union> dtype pmode\<rparr>) # es))"

fun list_update_loop :: "drm_mode_entry list \<Rightarrow> drm_mode_entry list \<Rightarrow> drm_mode_entry list" where
  "list_update_loop ms [] = ms"
| "list_update_loop ms (p # ps) = (case merge_probed p ms of
     Some ms \<Rightarrow> list_update_loop ms ps
   | None \<Rightarrow> list_update_loop (ms @ [p]) ps)"

definition drm_connector_list_update :: "drm_connector \<Rightarrow> drm_connector" where
  "drm_connector_list_update c = c\<lparr>modes := list_update_loop (modes c) (probed_modes c), probed_modes := []\<rparr>"

section \<open>Validation\<close>

definition drm_mode_validate_basic :: "mode_hdr \<Rightarrow> drm_mode_entry \<Rightarrow> drm_mode_status" where
  "drm_mode_validate_basic h e =
     (let m = dmode e
      in if \<not> dtype e \<subseteq> DRM_MODE_TYPE_ALL h then MODE_BAD
         else if \<not> flags m \<subseteq> DRM_MODE_FLAG_ALL h then MODE_BAD
         else if \<not> stereo_in_range h (stereo m) then MODE_BAD
         else if clock m = 0 then MODE_CLOCK_LOW
         else if hdisplay m = 0 \<or> hsync_start m < hdisplay m \<or> hsync_end m < hsync_start m \<or> htotal m < hsync_end m
         then MODE_H_ILLEGAL
         else if vdisplay m = 0 \<or> vsync_start m < vdisplay m \<or> vsync_end m < vsync_start m \<or> vtotal m < vsync_end m
         then MODE_V_ILLEGAL
         else MODE_OK)"

definition drm_mode_validate_driver :: "'w probe_env \<Rightarrow> drm_mode_entry \<Rightarrow> drm_mode_status" where
  "drm_mode_validate_driver env e =
     (let st = drm_mode_validate_basic (mhdr env) e
      in if st \<noteq> MODE_OK then st
         else case config_mode_valid env of Some f \<Rightarrow> f (dmode e) | None \<Rightarrow> MODE_OK)"

definition drm_mode_validate_size :: "drm_display_mode \<Rightarrow> int \<Rightarrow> int \<Rightarrow> drm_mode_status" where
  "drm_mode_validate_size m maxX maxY =
     (if maxX > 0 \<and> uint (hdisplay m) > maxX then MODE_VIRTUAL_X
      else if maxY > 0 \<and> uint (vdisplay m) > maxY then MODE_VIRTUAL_Y
      else MODE_OK)"

text \<open>The last argument says whether stereo modes are allowed: the bits of the stereo mask in the flags.\<close>

definition drm_mode_validate_flag :: "drm_display_mode \<Rightarrow> mode_flag set \<Rightarrow> bool \<Rightarrow> drm_mode_status" where
  "drm_mode_validate_flag m fl stereo_ok =
     (if DRM_MODE_FLAG_INTERLACE \<in> flags m \<and> DRM_MODE_FLAG_INTERLACE \<notin> fl then MODE_NO_INTERLACE
      else if DRM_MODE_FLAG_DBLSCAN \<in> flags m \<and> DRM_MODE_FLAG_DBLSCAN \<notin> fl then MODE_NO_DBLESCAN
      else if stereo m \<noteq> DRM_MODE_FLAG_3D_NONE \<and> \<not> stereo_ok then MODE_NO_STEREO
      else MODE_OK)"

definition drm_mode_validate_ycbcr420 :: "'w probe_env \<Rightarrow> drm_mode_entry \<Rightarrow> drm_connector \<Rightarrow> drm_mode_status" where
  "drm_mode_validate_ycbcr420 env e c =
     (if \<not> ycbcr_420_allowed c \<and> drm_mode_is_420_only env (dmode e) (picture_aspect_ratio e) then MODE_NO_420 else MODE_OK)"

definition drm_crtc_mode_valid :: "crtc_hook \<Rightarrow> mode_valid_fn" where
  "drm_crtc_mode_valid c m = (case crtc_mode_valid_hook c of None \<Rightarrow> MODE_OK | Some f \<Rightarrow> f m)"

definition drm_encoder_mode_valid :: "encoder_hook \<Rightarrow> mode_valid_fn" where
  "drm_encoder_mode_valid e m = (case encoder_mode_valid_hook e of None \<Rightarrow> MODE_OK | Some f \<Rightarrow> f m)"

fun drm_bridge_chain_mode_valid :: "mode_valid_fn option list \<Rightarrow> mode_valid_fn" where
  "drm_bridge_chain_mode_valid [] m = MODE_OK"
| "drm_bridge_chain_mode_valid (None # bs) m = drm_bridge_chain_mode_valid bs m"
| "drm_bridge_chain_mode_valid (Some f # bs) m =
     (let ret = f m in if ret \<noteq> MODE_OK then ret else drm_bridge_chain_mode_valid bs m)"

definition drm_connector_mode_valid ::
    "'w probe_env \<Rightarrow> drm_display_mode \<Rightarrow> 'w \<Rightarrow> int \<times> drm_mode_status \<times> 'w" where
  "drm_connector_mode_valid env m w =
     (if \<not> connector_helper env then (0, MODE_OK, w)
      else case mode_valid_ctx env of
        Some f \<Rightarrow> f m w
      | None \<Rightarrow> (0, case connector_mode_valid_hook env of Some f \<Rightarrow> f m | None \<Rightarrow> MODE_OK, w))"

text \<open>The loops over CRTCs and encoders; the flag says that a CRTC has accepted the mode.\<close>

fun crtc_loop :: "drm_display_mode \<Rightarrow> crtc_hook list \<Rightarrow> drm_mode_status \<Rightarrow> bool \<times> drm_mode_status" where
  "crtc_loop m [] st = (False, st)"
| "crtc_loop m (c # cs) st =
     (if \<not> crtc_possible c then crtc_loop m cs st
      else let st = drm_crtc_mode_valid c m in if st = MODE_OK then (True, MODE_OK) else crtc_loop m cs st)"

fun encoder_loop :: "drm_display_mode \<Rightarrow> encoder_hook list \<Rightarrow> drm_mode_status \<Rightarrow> drm_mode_status" where
  "encoder_loop m [] st = st"
| "encoder_loop m (e # es) st =
     (let st = drm_encoder_mode_valid e m
      in if st \<noteq> MODE_OK then encoder_loop m es st
         else
           let st = drm_bridge_chain_mode_valid (bridge_hooks e) m
           in if st \<noteq> MODE_OK then encoder_loop m es st
              else
                let (found, st) = crtc_loop m (encoder_crtcs e) st
                in if found then MODE_OK else encoder_loop m es st)"

definition drm_mode_validate_pipeline ::
    "'w probe_env \<Rightarrow> drm_display_mode \<Rightarrow> 'w \<Rightarrow> int \<times> drm_mode_status \<times> 'w" where
  "drm_mode_validate_pipeline env m w =
     (let (ret, st, w) = drm_connector_mode_valid env m w
      in if ret \<noteq> 0 \<or> st \<noteq> MODE_OK then (ret, st, w) else (0, encoder_loop m (encoders env) st, w))"

text \<open>One turn of the validation loop: whether it met a deadlock, and the entry with its new status.\<close>

definition validate_entry ::
    "'w probe_env \<Rightarrow> drm_connector \<Rightarrow> int \<Rightarrow> int \<Rightarrow> mode_flag set \<Rightarrow> bool \<Rightarrow> drm_mode_entry \<Rightarrow> 'w \<Rightarrow>
     bool \<times> drm_mode_entry \<times> 'w" where
  "validate_entry env c maxX maxY fl stereo_ok e w =
     (if status e \<noteq> MODE_OK then (False, e, w)
      else let e = e\<lparr>status := drm_mode_validate_driver env e\<rparr> in if status e \<noteq> MODE_OK then (False, e, w)
      else let e = e\<lparr>status := drm_mode_validate_size (dmode e) maxX maxY\<rparr> in if status e \<noteq> MODE_OK then (False, e, w)
      else let e = e\<lparr>status := drm_mode_validate_flag (dmode e) fl stereo_ok\<rparr> in if status e \<noteq> MODE_OK then (False, e, w)
      else let e = e\<lparr>status := drm_mode_validate_ycbcr420 env e c\<rparr> in if status e \<noteq> MODE_OK then (False, e, w)
      else
        let (ret, st, w) = drm_mode_validate_pipeline env (dmode e) w;
            e = e\<lparr>status := st\<rparr>
        in if ret \<noteq> 0
           then (if ret \<noteq> - EDEADLK then (False, e\<lparr>status := MODE_ERROR\<rparr>, w) else (True, e, w))
           else (False, e, w))"

fun validate_loop ::
    "'w probe_env \<Rightarrow> drm_connector \<Rightarrow> int \<Rightarrow> int \<Rightarrow> mode_flag set \<Rightarrow> bool \<Rightarrow> drm_mode_entry list \<Rightarrow> 'w \<Rightarrow>
     bool \<times> drm_mode_entry list \<times> 'w" where
  "validate_loop env c maxX maxY fl stereo_ok [] w = (False, [], w)"
| "validate_loop env c maxX maxY fl stereo_ok (e # es) w =
     (let (dead, e, w) = validate_entry env c maxX maxY fl stereo_ok e w
      in if dead then (True, e # es, w)
         else
           let (dead, es, w) = validate_loop env c maxX maxY fl stereo_ok es w
           in (dead, e # es, w))"

text \<open>\<open>__drm_helper_update_and_validate\<close>: whether it returns \<open>-EDEADLK\<close>.\<close>

definition drm_helper_update_and_validate ::
    "'w probe_env \<Rightarrow> u32 \<Rightarrow> u32 \<Rightarrow> 'w probe_state \<Rightarrow> bool \<times> 'w probe_state" where
  "drm_helper_update_and_validate env maxX maxY s =
     (let c = drm_connector_list_update (connector s);
          fl = (if interlace_allowed c then {DRM_MODE_FLAG_INTERLACE} else {}) \<union>
               (if doublescan_allowed c then {DRM_MODE_FLAG_DBLSCAN} else {});
          (dead, ms, w) = validate_loop env c (sint maxX) (sint maxY) fl (stereo_allowed c) (modes c) (world s)
      in (dead, s\<lparr>connector := c\<lparr>modes := ms\<rparr>, world := w\<rparr>))"

section \<open>Adding modes\<close>

definition drm_mode_duplicate :: "'w probe_env \<Rightarrow> drm_mode_entry \<Rightarrow> 'w \<Rightarrow> drm_mode_entry option \<times> 'w" where
  "drm_mode_duplicate env e w = (case kzalloc_mode env w of
     (True, w) \<Rightarrow> (Some e, w)
   | (False, w) \<Rightarrow> (None, w))"

definition drm_mode_probed_add :: "drm_connector \<Rightarrow> drm_mode_entry \<Rightarrow> drm_connector" where
  "drm_mode_probed_add c e = c\<lparr>probed_modes := probed_modes c @ [e]\<rparr>"

fun noedid_loop ::
    "'w probe_env \<Rightarrow> u32 \<Rightarrow> u32 \<Rightarrow> drm_mode_entry list \<Rightarrow> drm_connector \<Rightarrow> 'w \<Rightarrow> int \<times> drm_connector \<times> 'w" where
  "noedid_loop env hlim vlim [] c w = (0, c, w)"
| "noedid_loop env hlim vlim (e # es) c w =
     (if hlim \<noteq> 0 \<and> vlim \<noteq> 0 \<and> (ucast (hdisplay (dmode e)) > hlim \<or> ucast (vdisplay (dmode e)) > vlim)
      then noedid_loop env hlim vlim es c w
      else if drm_mode_vrefresh (dmode e) > 61 then noedid_loop env hlim vlim es c w
      else case drm_mode_duplicate env e w of
        (None, w) \<Rightarrow> noedid_loop env hlim vlim es c w
      | (Some e, w) \<Rightarrow>
          let (num_modes, c, w) = noedid_loop env hlim vlim es (drm_mode_probed_add c e) w in (num_modes + 1, c, w))"

definition drm_add_modes_noedid ::
    "'w probe_env \<Rightarrow> u32 \<Rightarrow> u32 \<Rightarrow> drm_connector \<Rightarrow> 'w \<Rightarrow> int \<times> drm_connector \<times> 'w" where
  "drm_add_modes_noedid env hlim vlim c w = noedid_loop env hlim vlim (drm_dmt_modes env) c w"

definition drm_set_preferred_mode :: "drm_connector \<Rightarrow> int \<Rightarrow> int \<Rightarrow> drm_connector" where
  "drm_set_preferred_mode c hpref vpref = c\<lparr>probed_modes := map (\<lambda>e.
     if uint (hdisplay (dmode e)) = hpref \<and> uint (vdisplay (dmode e)) = vpref
     then e\<lparr>dtype := insert DRM_MODE_TYPE_PREFERRED (dtype e)\<rparr> else e) (probed_modes c)\<rparr>"

text \<open>The list with the first mode that fits the command line marked, if there is one.\<close>

fun mark_cmdline :: "drm_cmdline_mode \<Rightarrow> drm_mode_entry list \<Rightarrow> drm_mode_entry list option" where
  "mark_cmdline cm [] = None"
| "mark_cmdline cm (e # es) =
     (if uint (hdisplay (dmode e)) \<noteq> xres cm \<or> uint (vdisplay (dmode e)) \<noteq> yres cm
      then map_option ((#) e) (mark_cmdline cm es)
      else if refresh_specified cm \<and> drm_mode_vrefresh (dmode e) \<noteq> refresh cm
      then map_option ((#) e) (mark_cmdline cm es)
      else Some (e\<lparr>dtype := insert DRM_MODE_TYPE_USERDEF (dtype e)\<rparr> # es))"

definition drm_helper_probe_add_cmdline_mode ::
    "'w probe_env \<Rightarrow> drm_connector \<Rightarrow> 'w \<Rightarrow> int \<times> drm_connector \<times> 'w" where
  "drm_helper_probe_add_cmdline_mode env c w =
     (if \<not> specified (cmdline_mode c) then (0, c, w)
      else case mark_cmdline (cmdline_mode c) (probed_modes c) of
        Some ms \<Rightarrow> (0, c\<lparr>probed_modes := ms\<rparr>, w)
      | None \<Rightarrow>
          (case drm_mode_create_from_cmdline_mode env (cmdline_mode c) w of
             (None, w) \<Rightarrow> (0, c, w)
           | (Some e, w) \<Rightarrow> (1, drm_mode_probed_add c e, w)))"

definition drm_helper_probe_get_modes :: "'w probe_env \<Rightarrow> drm_connector \<Rightarrow> 'w \<Rightarrow> int \<times> drm_connector \<times> 'w" where
  "drm_helper_probe_get_modes env c w =
     (let (cnt, c, w) = get_modes env c w;
          cnt = (if cnt < 0 then 0 else cnt)
      in if cnt = 0 \<and> conn_status c = connector_status_connected then drm_edid_override_connector_update env c w
         else (cnt, c, w))"

section \<open>The probe\<close>

definition detect_connector_status ::
    "'w probe_env \<Rightarrow> drm_connector \<Rightarrow> 'w \<Rightarrow> (int + drm_connector_status) \<times> 'w" where
  "detect_connector_status env c w = (case detect_ctx env of
     Some f \<Rightarrow> f c w
   | None \<Rightarrow> (case detect env of Some f \<Rightarrow> f c w | None \<Rightarrow> (Inr connector_status_connected, w)))"

definition drm_helper_probe_detect ::
    "'w probe_env \<Rightarrow> drm_connector \<Rightarrow> 'w \<Rightarrow> (int + drm_connector_status) \<times> drm_connector \<times> 'w" where
  "drm_helper_probe_detect env c w =
     (let (ret, w) = drm_modeset_lock env w
      in if ret \<noteq> 0 then (Inl ret, c, w)
         else
           let (r, w) = detect_connector_status env c w
           in (r, if r \<noteq> Inr (conn_status c) then c\<lparr>epoch_counter := epoch_counter c + 1\<rparr> else c, w))"

text \<open>The status of the connector, forced or detected; \<open>True\<close> when detection would deadlock.\<close>

definition probe_status :: "'w probe_env \<Rightarrow> drm_connector \<Rightarrow> 'w \<Rightarrow> bool \<times> drm_connector \<times> 'w" where
  "probe_status env c w =
     (if conn_force c \<noteq> DRM_FORCE_UNSPECIFIED then
        let c = c\<lparr>conn_status := if conn_force c = DRM_FORCE_ON \<or> conn_force c = DRM_FORCE_ON_DIGITAL
                               then connector_status_connected else connector_status_disconnected\<rparr>
        in (case force_hook env of Some f \<Rightarrow> (False, f c w) | None \<Rightarrow> (False, c, w))
      else
        let (r, c, w) = drm_helper_probe_detect env c w
        in (case r of
              Inl ret \<Rightarrow> if ret = - EDEADLK then (True, c, w) else (False, c\<lparr>conn_status := connector_status_unknown\<rparr>, w)
            | Inr st \<Rightarrow> (False, c\<lparr>conn_status := st\<rparr>, w)))"

text \<open>What follows \<open>exit\<close>: the locks are dropped, and a list that is not empty is sorted.\<close>

definition probe_exit :: "'w probe_env \<Rightarrow> int \<Rightarrow> 'w probe_state \<Rightarrow> int option \<times> 'w probe_state" where
  "probe_exit env cnt s =
     (let s = s\<lparr>world := drm_modeset_drop_locks env (world s)\<rparr>;
          c = connector s
      in if modes c = [] then (Some 0, s)
         else (Some cnt, s\<lparr>connector := c\<lparr>modes := map (\<lambda>e. e\<lparr>dmode := drm_mode_set_crtcinfo (dmode e) {CRTC_INTERLACE_HALVE_V}\<rparr>)
                  (drm_mode_sort env (modes c))\<rparr>\<rparr>))"

definition probe_prune :: "'w probe_state \<Rightarrow> 'w probe_state" where
  "probe_prune s = s\<lparr>connector := (connector s)\<lparr>modes := drm_mode_prune_invalid (modes (connector s))\<rparr>\<rparr>"

text \<open>From the detected status on: collecting, merging, validating and pruning the modes.\<close>

definition probe_collect ::
    "'w probe_env \<Rightarrow> drm_connector \<Rightarrow> 'w \<Rightarrow> int \<times> drm_connector \<times> 'w" where
  "probe_collect env c w =
     (let (cnt, c, w) = drm_helper_probe_get_modes env c w;
          (cnt, c, w) =
            (if cnt = 0 \<and> (conn_status c = connector_status_connected \<or> conn_status c = connector_status_unknown) then
               let (cnt, c, w) = drm_add_modes_noedid env 1024 768 c w
               in (cnt, if is_displayport c then drm_set_preferred_mode c 640 480 else c, w)
             else (cnt, c, w));
          (added, c, w) = drm_helper_probe_add_cmdline_mode env c w
      in (wrap32 (cnt + added), c, w))"

definition probe_modes :: "'w probe_env \<Rightarrow> u32 \<Rightarrow> u32 \<Rightarrow> 'w probe_state \<Rightarrow> int option \<times> 'w probe_state" where
  "probe_modes env maxX maxY s =
     (let (cnt, c, w) = probe_collect env (connector s) (world s);
          s = s\<lparr>connector := c, world := w\<rparr>;
          (dead, s) = (if cnt \<noteq> 0 then drm_helper_update_and_validate env maxX maxY s else (False, s))
      in if dead then (None, s)
         else
           let s = probe_prune s
           in if modes (connector s) = [] \<and> is_displayport (connector s) then
                let (cnt, c, w) = drm_add_modes_noedid env 640 480 (connector s) (world s);
                    (dead, s) = drm_helper_update_and_validate env maxX maxY (s\<lparr>connector := c, world := w\<rparr>)
                in if dead then (None, s) else probe_exit env cnt (probe_prune s)
              else probe_exit env cnt s)"

text \<open>A changed status starts the hotplug code, and polling is re-enabled.\<close>

definition probe_notify :: "'w probe_env \<Rightarrow> drm_connector_status \<Rightarrow> 'w probe_state \<Rightarrow> 'w probe_state" where
  "probe_notify env old_status s =
     (let s = (if old_status \<noteq> conn_status (connector s)
               then s\<lparr>delayed_event := True, poll_work_queued := poll_work_queued s \<or> poll_enabled s\<rparr> else s)
      in if poll_enabled s then s\<lparr>world := drm_kms_helper_poll_enable env (world s)\<rparr> else s)"

text \<open>The body of the helper between two visits of \<open>retry\<close>: \<open>None\<close> when it has to start again.\<close>

definition probe_attempt :: "'w probe_env \<Rightarrow> u32 \<Rightarrow> u32 \<Rightarrow> 'w probe_state \<Rightarrow> int option \<times> 'w probe_state" where
  "probe_attempt env maxX maxY s =
     (let (ret, w) = drm_modeset_lock env (world s);
          s = s\<lparr>world := w\<rparr>
      in if ret = - EDEADLK then (None, s)
         else
           let c = (connector s)\<lparr>modes := map (\<lambda>e. e\<lparr>status := MODE_STALE\<rparr>) (modes (connector s))\<rparr>;
               old_status = conn_status c;
               (dead, c, w) = probe_status env c (world s);
               s = s\<lparr>connector := c, world := w\<rparr>
           in if dead then (None, s)
              else
                let s = probe_notify env old_status s
                in if conn_status c = connector_status_disconnected then probe_exit env 0 (probe_prune s)
                   else probe_modes env maxX maxY s)"

partial_function (option) drm_helper_probe_single_connector_modes ::
    "'w probe_env \<Rightarrow> u32 \<Rightarrow> u32 \<Rightarrow> 'w probe_state \<Rightarrow> (int \<times> 'w probe_state) option" where
  "drm_helper_probe_single_connector_modes env maxX maxY s =
     (case probe_attempt env maxX maxY s of
        (None, s) \<Rightarrow> drm_helper_probe_single_connector_modes env maxX maxY
                      (s\<lparr>world := drm_modeset_backoff env (world s)\<rparr>)
      | (Some cnt, s) \<Rightarrow> Some (cnt, s))"

section \<open>Equal modes\<close>

text \<open>Mode equality compares a key, so it is an equivalence.\<close>

definition mode_key :: "drm_mode_entry \<Rightarrow> u16 list \<times> int option \<times> mode_flag set \<times> stereo_layout \<times> nat" where
  "mode_key e = (let m = dmode e in
     ([hdisplay m, hsync_start m, hsync_end m, htotal m, hskew m, vdisplay m, vsync_start m, vsync_end m, vtotal m, vscan m],
      if clock m = 0 then None else Some (KHZ2PICOS (clock m)), flags m, stereo m, picture_aspect_ratio e))"

lemma drm_mode_equal_key: "drm_mode_equal e1 e2 \<longleftrightarrow> mode_key e1 = mode_key e2"
  by (auto simp: drm_mode_equal_def drm_mode_match_def mode_key_def Let_def drm_mode_match_timings_def
      drm_mode_match_clock_def drm_mode_match_flags_def drm_mode_match_3d_flags_def drm_mode_match_aspect_ratio_def)

lemma mode_key_update [simp]:
  "mode_key (e\<lparr>dtype := ty\<rparr>) = mode_key e" "mode_key (e\<lparr>status := st\<rparr>) = mode_key e"
  by (simp_all add: mode_key_def Let_def)

lemma crtcinfo_step_other:
  "hskew (crtcinfo_copy p) = hskew p" "hskew (scale_vert f p) = hskew p" "hskew (crtcinfo_stereo p) = hskew p"
  "hskew (crtcinfo_blank p) = hskew p" "stereo (crtcinfo_copy p) = stereo p" "stereo (scale_vert f p) = stereo p"
  "stereo (crtcinfo_stereo p) = stereo p" "stereo (crtcinfo_blank p) = stereo p"
  by (simp_all add: crtcinfo_steps split: stereo_layout.split)

lemma crtcinfo_other:
  "hskew (drm_mode_set_crtcinfo m a) = hskew m" "stereo (drm_mode_set_crtcinfo m a) = stereo m"
  by (simp_all add: drm_mode_set_crtcinfo_def Let_def crtcinfo_step_other)

lemma crtcinfo_fields:
  "hdisplay (drm_mode_set_crtcinfo m a) = hdisplay m" "hsync_start (drm_mode_set_crtcinfo m a) = hsync_start m"
  "hsync_end (drm_mode_set_crtcinfo m a) = hsync_end m" "htotal (drm_mode_set_crtcinfo m a) = htotal m"
  "vdisplay (drm_mode_set_crtcinfo m a) = vdisplay m" "vsync_start (drm_mode_set_crtcinfo m a) = vsync_start m"
  "vsync_end (drm_mode_set_crtcinfo m a) = vsync_end m" "vtotal (drm_mode_set_crtcinfo m a) = vtotal m"
  "vscan (drm_mode_set_crtcinfo m a) = vscan m" "clock (drm_mode_set_crtcinfo m a) = clock m"
  "flags (drm_mode_set_crtcinfo m a) = flags m"
  using set_crtcinfo_user [of m a] by (simp_all add: user_timings_def)

text \<open>The hardware timings are no part of the key.\<close>

definition with_crtcinfo :: "drm_mode_entry \<Rightarrow> drm_mode_entry" where
  "with_crtcinfo e = e\<lparr>dmode := drm_mode_set_crtcinfo (dmode e) {CRTC_INTERLACE_HALVE_V}\<rparr>"

lemma mode_key_crtcinfo [simp]: "mode_key (with_crtcinfo e) = mode_key e"
  by (simp add: with_crtcinfo_def mode_key_def crtcinfo_fields crtcinfo_other Let_def)

lemma merge_probed_None: "merge_probed p ms = None \<longleftrightarrow> mode_key p \<notin> mode_key ` set ms"
  by (induction ms) (auto simp: drm_mode_equal_key)

lemma merge_probed_keys: "merge_probed p ms = Some ms' \<Longrightarrow> map mode_key ms' = map mode_key ms"
proof (induction ms arbitrary: ms')
  case (Cons e es)
  show ?case
  proof (cases "mode_key p = mode_key e")
    case True
    then show ?thesis using Cons.prems by (auto simp: drm_mode_equal_key drm_mode_entry_copy_def split: if_splits)
  next
    case False
    then show ?thesis using Cons by (auto simp: drm_mode_equal_key)
  qed
qed simp

lemma list_update_keys:
  "distinct (map mode_key ms) \<Longrightarrow>
   distinct (map mode_key (list_update_loop ms ps)) \<and>
   mode_key ` set (list_update_loop ms ps) = mode_key ` set ms \<union> mode_key ` set ps"
proof (induction ps arbitrary: ms)
  case (Cons p ps)
  show ?case
  proof (cases "merge_probed p ms")
    case None
    then have "mode_key p \<notin> mode_key ` set ms" using merge_probed_None [of p ms] by blast
    then show ?thesis using Cons.IH [of "ms @ [p]"] Cons.prems None by auto
  next
    case (Some ms')
    have k: "map mode_key ms' = map mode_key ms" by (rule merge_probed_keys [OF Some])
    then have s: "mode_key ` set ms' = mode_key ` set ms" by (metis list.set_map)
    have "mode_key p \<in> mode_key ` set ms" using Some merge_probed_None [of p ms] by auto
    then show ?thesis using Cons.IH [of ms'] Cons.prems Some k s by auto
  qed
qed simp

section \<open>Validated modes\<close>

text \<open>What the checks ask of a mode.\<close>

definition conn_flags :: "drm_connector \<Rightarrow> mode_flag set" where
  "conn_flags c = (if interlace_allowed c then {DRM_MODE_FLAG_INTERLACE} else {}) \<union>
     (if doublescan_allowed c then {DRM_MODE_FLAG_DBLSCAN} else {})"

definition entry_valid :: "'w probe_env \<Rightarrow> drm_connector \<Rightarrow> int \<Rightarrow> int \<Rightarrow> drm_mode_entry \<Rightarrow> bool" where
  "entry_valid env c maxX maxY e \<longleftrightarrow>
     drm_mode_validate_driver env e = MODE_OK \<and> drm_mode_validate_size (dmode e) maxX maxY = MODE_OK \<and>
     drm_mode_validate_flag (dmode e) (conn_flags c) (stereo_allowed c) = MODE_OK \<and>
     drm_mode_validate_ycbcr420 env e c = MODE_OK \<and> encoder_loop (dmode e) (encoders env) MODE_OK = MODE_OK"

lemma validate_status [simp]:
  "drm_mode_validate_driver env (e\<lparr>status := st\<rparr>) = drm_mode_validate_driver env e"
  "drm_mode_validate_ycbcr420 env (e\<lparr>status := st\<rparr>) c = drm_mode_validate_ycbcr420 env e c"
  by (simp_all add: drm_mode_validate_driver_def drm_mode_validate_basic_def drm_mode_validate_ycbcr420_def Let_def
      split: option.split)

lemma entry_valid_status [simp]: "entry_valid env c mx my (e\<lparr>status := st\<rparr>) = entry_valid env c mx my e"
  by (simp add: entry_valid_def)

lemma validate_entry_keeps:
  assumes "validate_entry env c mx my fl so e w = (dead, e', w')"
  shows "\<exists>st. e' = e\<lparr>status := st\<rparr>"
proof -
  have self: "\<exists>st. e = e\<lparr>status := st\<rparr>" by (rule exI [of _ "status e"]) simp
  show ?thesis using assms self
    by (auto simp: validate_entry_def Let_def case_prod_beta split: if_splits)
qed

lemma pipeline_ok:
  "drm_mode_validate_pipeline env m w = (0, MODE_OK, w') \<Longrightarrow> encoder_loop m (encoders env) MODE_OK = MODE_OK"
  by (auto simp: drm_mode_validate_pipeline_def Let_def split: prod.splits if_splits)

lemma validate_entry_ok:
  assumes "validate_entry env c mx my (conn_flags c) (stereo_allowed c) e w = (False, e', w')" "status e' = MODE_OK"
  shows "entry_valid env c mx my e'"
proof -
  obtain ret st w1 where p: "drm_mode_validate_pipeline env (dmode e) w = (ret, st, w1)" by (cases "drm_mode_validate_pipeline env (dmode e) w")
  show ?thesis using assms p pipeline_ok [of env "dmode e" w w1]
    by (auto simp: validate_entry_def entry_valid_def Let_def split: if_splits)
qed

lemma validate_loop_result:
  assumes "validate_loop env c mx my (conn_flags c) (stereo_allowed c) es w = (dead, es', w')"
  shows "map mode_key es' = map mode_key es"
    "\<not> dead \<Longrightarrow> e \<in> set es' \<Longrightarrow> status e = MODE_OK \<Longrightarrow> entry_valid env c mx my e"
  using assms
proof (induction es arbitrary: es' w w' dead)
  case (Cons x es)
  {
    case 1
    then show ?case
      using Cons.IH(1) validate_entry_keeps [of env c mx my "conn_flags c" "stereo_allowed c" x w]
      by (fastforce simp: Let_def split: prod.splits if_splits)
  next
    case 2
    obtain d1 x' w1 where v: "validate_entry env c mx my (conn_flags c) (stereo_allowed c) x w = (d1, x', w1)"
      by (cases "validate_entry env c mx my (conn_flags c) (stereo_allowed c) x w")
    obtain d2 ys w2 where l: "validate_loop env c mx my (conn_flags c) (stereo_allowed c) es w1 = (d2, ys, w2)"
      by (cases "validate_loop env c mx my (conn_flags c) (stereo_allowed c) es w1")
    have d: "\<not> d1" "\<not> d2" "es' = x' # ys" using 2 v l by (auto split: if_splits)
    show ?case
      using 2(2,3) d v l validate_entry_ok [of env c mx my x w x' w1] Cons.IH(2) [OF d(2) _ _ l] by auto
  }
qed simp_all

section \<open>Order\<close>

lemma div_closest_value:
  assumes "0 \<le> x" "x < 2 ^ 42" "0 < d" "d < 2 ^ 32"
  shows "uint (DIV_ROUND_CLOSEST_ULL (word_of_int x) d) = (x + d div 2) div d"
proof -
  have h: "0 \<le> d div 2" "d div 2 < 2 ^ 32" using assms(3,4) by simp_all
  have "(x + d div 2) mod 2 ^ 64 = x + d div 2" using assms(1,2) h by (intro mod_pos_pos_trivial) auto
  then have s: "uint (word_of_int (x + d div 2) :: u64) = x + d div 2" unfolding uint_word_of_int by simp
  have "d mod 2 ^ 32 = d" using assms(3,4) by (intro mod_pos_pos_trivial) auto
  then have "uint (word_of_int d :: u32) = d" by (simp add: uint_word_of_int)
  moreover have "take_bit 64 d = d" using assms(3,4) by (simp add: take_bit_int_eq_self)
  ultimately have "uint (ucast (word_of_int d :: u32) :: u64) = d" by (simp add: unsigned_ucast_eq)
  moreover have "c_div d 2 = d div 2" using assms(3) by (simp add: c_div_def)
  ultimately show ?thesis
    unfolding DIV_ROUND_CLOSEST_ULL_def wi_hom_add by (simp only: uint_div_distrib s wi_hom_add)
qed

lemma round_closest_le: "0 \<le> x \<Longrightarrow> 0 < d \<Longrightarrow> (x + d div 2) div d \<le> x + 1" for x d :: int
proof -
  assume x: "0 \<le> x" "0 < d"
  have "x + d div 2 \<le> (x + 1) * d"
    using mult_left_mono [of 1 d x] x by (simp add: distrib_right)
  then have "(x + d div 2) div d \<le> (x + 1) * d div d" using x by (intro zdiv_mono1)
  then show ?thesis using x by simp
qed

lemma vrefresh_range:
  assumes "0 \<le> clock m" "clock m \<le> 1000000"
  shows "0 \<le> drm_mode_vrefresh m" "drm_mode_vrefresh m < 2 ^ 31"
proof -
  define n where "n = clock m * (if DRM_MODE_FLAG_INTERLACE \<in> flags m then 2 else 1)"
  define k where "k = (if DRM_MODE_FLAG_DBLSCAN \<in> flags m then 2 else 1) * (if vscan m > 1 then uint (vscan m) else 1)"
  define d where "d = wrap32 (uint (htotal m) * uint (vtotal m)) * k"
  have n: "0 \<le> n" "n \<le> 2000000" using assms by (auto simp: n_def)
  have r: "drm_mode_vrefresh m = (if htotal m = 0 \<or> vtotal m = 0 then 0
      else if n < 0 \<or> 2 ^ 32 \<le> n \<or> d < 0 \<or> 2 ^ 32 \<le> d then 0
      else wrap32 (uint (DIV_ROUND_CLOSEST_ULL (word_of_int (n * 1000)) d)))"
    unfolding drm_mode_vrefresh_def Let_def n_def d_def k_def by (rule refl)
  have "0 \<le> drm_mode_vrefresh m \<and> drm_mode_vrefresh m < 2 ^ 31"
  proof (cases "0 < d \<and> d < 2 ^ 32")
    case True
    let ?v = "(n * 1000 + d div 2) div d"
    have v: "uint (DIV_ROUND_CLOSEST_ULL (word_of_int (n * 1000)) d) = ?v"
      using n True by (intro div_closest_value) auto
    have v1: "?v \<le> n * 1000 + 1" using n True by (intro round_closest_le) auto
    have v0: "0 \<le> ?v" using n True by (simp add: pos_imp_zdiv_nonneg_iff)
    have "is_s32 ?v" unfolding is_s32_def using v0 v1 n by simp
    then have "wrap32 ?v = ?v" by (rule wrap32_id)
    then show ?thesis unfolding r v using v0 v1 n by simp
  next
    case False
    then have "d = 0 \<or> d < 0 \<or> 2 ^ 32 \<le> d" by linarith
    then have "drm_mode_vrefresh m = 0"
      unfolding r by (auto simp: DIV_ROUND_CLOSEST_ULL_def c_div_def wrap32_def)
    then show ?thesis by simp
  qed
  then show "0 \<le> drm_mode_vrefresh m" "drm_mode_vrefresh m < 2 ^ 31" by simp_all
qed

text \<open>The order meant by \<open>drm_mode_compare\<close>: preferred modes first, then larger ones, then faster ones.\<close>

definition mode_area :: "drm_mode_entry \<Rightarrow> int" where
  "mode_area e = uint (hdisplay (dmode e)) * uint (vdisplay (dmode e))"

definition preferred :: "drm_mode_entry \<Rightarrow> int" where
  "preferred e = of_bool (DRM_MODE_TYPE_PREFERRED \<in> dtype e)"

definition no_worse :: "drm_mode_entry \<Rightarrow> drm_mode_entry \<Rightarrow> bool" where
  "no_worse a b \<longleftrightarrow> preferred b < preferred a \<or> preferred b = preferred a \<and>
     (mode_area b < mode_area a \<or> mode_area b = mode_area a \<and>
       (drm_mode_vrefresh (dmode b) < drm_mode_vrefresh (dmode a) \<or> drm_mode_vrefresh (dmode b) = drm_mode_vrefresh (dmode a) \<and>
         clock (dmode b) \<le> clock (dmode a)))"

definition mode_small :: "drm_mode_entry \<Rightarrow> bool" where
  "mode_small e \<longleftrightarrow> mode_area e < 2 ^ 31 \<and> 0 \<le> clock (dmode e) \<and> clock (dmode e) \<le> 1000000"

lemma wrap32_diff: "0 \<le> a \<Longrightarrow> a < 2 ^ 31 \<Longrightarrow> 0 \<le> b \<Longrightarrow> b < 2 ^ 31 \<Longrightarrow> wrap32 (b - a) = b - a"
  by (rule wrap32_id) (simp add: is_s32_def)

lemma compare_no_worse:
  assumes "mode_small a" "mode_small b"
  shows "drm_mode_compare a b \<le> 0 \<longleftrightarrow> no_worse a b"
proof -
  have r: "0 \<le> mode_area e" "mode_area e < 2 ^ 31" "0 \<le> clock (dmode e)" "clock (dmode e) < 2 ^ 31"
    "0 \<le> drm_mode_vrefresh (dmode e)" "drm_mode_vrefresh (dmode e) < 2 ^ 31"
    "wrap32 (mode_area e) = mode_area e" if "mode_small e" for e
    using that vrefresh_range [of "dmode e"]
    by (simp_all add: mode_small_def mode_area_def wrap32_id is_s32_def order_trans [of "- 2147483648" 0])
  have w: "wrap32 (mode_area b - mode_area a) = mode_area b - mode_area a"
    "wrap32 (drm_mode_vrefresh (dmode b) - drm_mode_vrefresh (dmode a)) = drm_mode_vrefresh (dmode b) - drm_mode_vrefresh (dmode a)"
    "wrap32 (clock (dmode b) - clock (dmode a)) = clock (dmode b) - clock (dmode a)"
    using r(1-6) [OF assms(1)] r(1-6) [OF assms(2)] by (simp_all only: wrap32_diff)
  have c: "drm_mode_compare a b =
      (if preferred b - preferred a \<noteq> 0 then preferred b - preferred a
       else if mode_area b - mode_area a \<noteq> 0 then mode_area b - mode_area a
       else if drm_mode_vrefresh (dmode b) - drm_mode_vrefresh (dmode a) \<noteq> 0
       then drm_mode_vrefresh (dmode b) - drm_mode_vrefresh (dmode a)
       else clock (dmode b) - clock (dmode a))"
    using r(7) [OF assms(1)] r(7) [OF assms(2)] w
    by (simp only: drm_mode_compare_def Let_def preferred_def mode_area_def)
  show ?thesis unfolding c no_worse_def by auto
qed

lemma no_worse_total: "no_worse a b \<or> no_worse b a"
  by (auto simp: no_worse_def)

lemma no_worse_trans: "no_worse a b \<Longrightarrow> no_worse b c \<Longrightarrow> no_worse a c"
  by (auto simp: no_worse_def)

lemma no_worse_crtcinfo [simp]: "no_worse (with_crtcinfo a) (with_crtcinfo b) = no_worse a b"
  by (simp add: no_worse_def with_crtcinfo_def preferred_def mode_area_def crtcinfo_fields drm_mode_vrefresh_def)

text \<open>\<open>list_sort\<close> permutes the list, and sorts it when the comparison is consistent on it.\<close>

definition consistent :: "('a \<Rightarrow> 'a \<Rightarrow> int) \<Rightarrow> 'a set \<Rightarrow> bool" where
  "consistent cmp A \<longleftrightarrow> (\<forall>a\<in>A. \<forall>b\<in>A. cmp a b \<le> 0 \<or> cmp b a \<le> 0) \<and>
     (\<forall>a\<in>A. \<forall>b\<in>A. \<forall>c\<in>A. cmp a b \<le> 0 \<longrightarrow> cmp b c \<le> 0 \<longrightarrow> cmp a c \<le> 0)"

lemma consistent_mono: "consistent cmp B \<Longrightarrow> A \<subseteq> B \<Longrightarrow> consistent cmp A"
  unfolding consistent_def by blast

lemma consistentD:
  assumes "consistent cmp A" "a \<in> A" "b \<in> A"
  shows "cmp a b \<le> 0 \<or> cmp b a \<le> 0" "c \<in> A \<Longrightarrow> cmp a b \<le> 0 \<Longrightarrow> cmp b c \<le> 0 \<Longrightarrow> cmp a c \<le> 0"
  using assms unfolding consistent_def by blast+

locale list_sort_laws =
  fixes srt :: "('a \<Rightarrow> 'a \<Rightarrow> int) \<Rightarrow> 'a list \<Rightarrow> 'a list"
  assumes sort_perm: "mset (srt cmp xs) = mset xs"
    and sort_sorted: "consistent cmp (set xs) \<Longrightarrow> sorted_wrt (\<lambda>a b. cmp a b \<le> 0) (srt cmp xs)"
begin

lemma sort_set: "set (srt cmp xs) = set xs"
  by (metis sort_perm set_mset_mset)

lemma sort_nil: "srt cmp [] = []"
  using sort_perm [of cmp "[]"] by simp

end

fun insert_by :: "('a \<Rightarrow> 'a \<Rightarrow> int) \<Rightarrow> 'a \<Rightarrow> 'a list \<Rightarrow> 'a list" where
  "insert_by cmp x [] = [x]"
| "insert_by cmp x (y # ys) = (if cmp x y \<le> 0 then x # y # ys else y # insert_by cmp x ys)"

primrec sort_by :: "('a \<Rightarrow> 'a \<Rightarrow> int) \<Rightarrow> 'a list \<Rightarrow> 'a list" where
  "sort_by cmp [] = []"
| "sort_by cmp (x # xs) = insert_by cmp x (sort_by cmp xs)"

lemma mset_insert_by: "mset (insert_by cmp x ys) = add_mset x (mset ys)"
  by (induction ys) auto

lemma set_insert_by: "set (insert_by cmp x ys) = insert x (set ys)"
  by (induction ys) auto

lemma sorted_insert_by:
  assumes "sorted_wrt (\<lambda>a b. cmp a b \<le> 0) ys" "consistent cmp (insert x (set ys))"
  shows "sorted_wrt (\<lambda>a b. cmp a b \<le> 0) (insert_by cmp x ys)"
  using assms
proof (induction ys)
  case (Cons y ys)
  show ?case
  proof (cases "cmp x y \<le> 0")
    case True
    have "cmp x z \<le> 0" if "z \<in> set ys" for z
      using consistentD(2) [OF Cons.prems(2), of x y z] that True Cons.prems(1) by auto
    then show ?thesis using True Cons.prems(1) by auto
  next
    case False
    have "cmp y x \<le> 0" using consistentD(1) [OF Cons.prems(2), of x y] False by auto
    moreover have "sorted_wrt (\<lambda>a b. cmp a b \<le> 0) (insert_by cmp x ys)"
      using Cons.prems by (intro Cons.IH) (auto elim: consistent_mono)
    ultimately show ?thesis using False Cons.prems(1) by (auto simp: set_insert_by)
  qed
qed simp

lemma mset_sort_by: "mset (sort_by cmp xs) = mset xs"
  by (induction xs) (auto simp: mset_insert_by)

lemma set_sort_by: "set (sort_by cmp xs) = set xs"
  by (induction xs) (auto simp: set_insert_by)

lemma sorted_sort_by: "consistent cmp (set xs) \<Longrightarrow> sorted_wrt (\<lambda>a b. cmp a b \<le> 0) (sort_by cmp xs)"
proof (induction xs)
  case (Cons x xs)
  then have "consistent cmp (set xs)" by (auto elim: consistent_mono)
  then show ?case using Cons by (simp add: sorted_insert_by set_sort_by)
qed simp

interpretation sb: list_sort_laws sort_by
  by unfold_locales (simp_all add: mset_sort_by sorted_sort_by)

lemma compare_consistent: "(\<And>e. e \<in> A \<Longrightarrow> mode_small e) \<Longrightarrow> consistent drm_mode_compare A"
  unfolding consistent_def by (simp add: compare_no_worse no_worse_total) (blast intro: no_worse_trans)

end
