(* ===== verification/Drm_Probe_Loop.thy ===== *)
theory Drm_Probe_Loop
  imports Drm_Probe
begin

text \<open>
  What \<open>drm_helper_probe_single_connector_modes\<close> leaves on a connector, for every driver whose hooks obey the locale
  \<open>probe_hooks\<close>: it returns, however the locks are contended, and the list it leaves holds exactly modes that passed every
  check, without duplicates and best first.
\<close>

section \<open>What the probe relies on\<close>

text \<open>
  What the hooks keep: they add probed modes, but leave the mode list and the capabilities of the connector alone.
  \<open>contention\<close> bounds how often taking the locks can still run into a deadlock: nothing raises it, a call only reports
  \<open>-EDEADLK\<close> while it is positive, and backing off, which waits for the contended lock, lowers it.
\<close>

definition capabilities :: "drm_connector \<Rightarrow> bool list" where
  "capabilities c = [interlace_allowed c, doublescan_allowed c, stereo_allowed c, ycbcr_420_allowed c, is_displayport c]"

definition conn_frame :: "drm_connector \<Rightarrow> drm_connector \<Rightarrow> bool" where
  "conn_frame c c' \<longleftrightarrow> modes c' = modes c \<and> capabilities c' = capabilities c"

lemma conn_frame_status [simp]:
  "conn_frame (c\<lparr>conn_status := st\<rparr>) c' = conn_frame c c'" "conn_frame c (c'\<lparr>conn_status := st\<rparr>) = conn_frame c c'"
  "conn_frame c (c'\<lparr>epoch_counter := n\<rparr>) = conn_frame c c'" "conn_frame c c"
  by (simp_all add: conn_frame_def capabilities_def)

lemma conn_frame_trans [trans]: "conn_frame x y \<Longrightarrow> conn_frame y z \<Longrightarrow> conn_frame x z"
  by (simp add: conn_frame_def)

locale probe_hooks = list_sort_laws "list_sort env" for env :: "'w probe_env" +
  fixes contention :: "'w \<Rightarrow> nat"
  assumes get_modes_law: "get_modes env c w = (n, c', w') \<Longrightarrow> conn_frame c c' \<and> contention w' \<le> contention w"
    and override_law: "drm_edid_override_connector_update env c w = (n, c', w') \<Longrightarrow>
      conn_frame c c' \<and> contention w' \<le> contention w"
    and force_law: "force_hook env = Some ff \<Longrightarrow> ff c w = (c', w') \<Longrightarrow> conn_frame c c' \<and> contention w' \<le> contention w"
    and detect_ctx_law: "detect_ctx env = Some fd \<Longrightarrow> fd c w = (r, w') \<Longrightarrow>
      contention w' \<le> contention w \<and> (r = Inl (- EDEADLK) \<longrightarrow> 0 < contention w')"
    and detect_law: "detect env = Some fd \<Longrightarrow> fd c w = (r, w') \<Longrightarrow>
      contention w' \<le> contention w \<and> (r = Inl (- EDEADLK) \<longrightarrow> 0 < contention w')"
    and valid_ctx_law: "mode_valid_ctx env = Some fv \<Longrightarrow> fv m w = (ret, st, w') \<Longrightarrow>
      contention w' \<le> contention w \<and> (ret = - EDEADLK \<longrightarrow> 0 < contention w')"
    and lock_law: "drm_modeset_lock env w = (ret, w') \<Longrightarrow>
      contention w' \<le> contention w \<and> (ret = - EDEADLK \<longrightarrow> 0 < contention w')"
    and alloc_law: "contention (snd (kzalloc_mode env w)) \<le> contention w"
    and cmdline_law: "contention (snd (drm_mode_create_from_cmdline_mode env cm w)) \<le> contention w"
    and poll_law: "contention (drm_kms_helper_poll_enable env w) \<le> contention w"
    and backoff_law: "0 < contention w \<Longrightarrow> contention (drm_modeset_backoff env w) < contention w"
begin

lemma noedid_frame:
  "noedid_loop env hl vl es c w = (n, c', w') \<Longrightarrow> conn_frame c c' \<and> contention w' \<le> contention w"
proof (induction es arbitrary: c w n c' w')
  case Nil
  then show ?case by (simp add: conn_frame_def)
next
  case (Cons e es)
  obtain b w1 where k: "kzalloc_mode env w = (b, w1)" by (cases "kzalloc_mode env w")
  have a: "contention w1 \<le> contention w" using alloc_law [of w] k by simp
  have f: "conn_frame (drm_mode_probed_add c e) x \<Longrightarrow> conn_frame c x" for x
    by (simp add: conn_frame_def drm_mode_probed_add_def capabilities_def)
  show ?case
    using Cons.prems Cons.IH [of c w n c' w'] Cons.IH [of c w1 n c' w']
      Cons.IH [of "drm_mode_probed_add c e" w1 "n - 1" c' w'] f [of c'] k a
    by (cases b) (fastforce simp: drm_mode_duplicate_def Let_def split: if_splits prod.splits)+
qed

lemma collect_frame:
  assumes "probe_collect env c w = (n, c', w')"
  shows "conn_frame c c' \<and> contention w' \<le> contention w"
proof -
  note trans = conn_frame_trans
  obtain n1 c1 w1 where 1: "drm_helper_probe_get_modes env c w = (n1, c1, w1)" by (cases "drm_helper_probe_get_modes env c w")
  obtain n0 c0 w0 where 0: "get_modes env c w = (n0, c0, w0)" by (cases "get_modes env c w")
  obtain n2 c2 w2 where 2: "drm_add_modes_noedid env 1024 768 c1 w1 = (n2, c2, w2)"
    by (cases "drm_add_modes_noedid env 1024 768 c1 w1")
  have f1: "conn_frame c c1 \<and> contention w1 \<le> contention w"
    using 1 0 get_modes_law [OF 0] override_law [of c0 w0 n1 c1 w1] trans [of c c0 c1]
    by (auto simp: drm_helper_probe_get_modes_def Let_def split: if_splits)
  have f2: "conn_frame c1 c2 \<and> contention w2 \<le> contention w1" using noedid_frame 2 by (simp add: drm_add_modes_noedid_def)
  obtain n3 c3 w3 where 3: "(if n1 = 0 \<and> (conn_status c1 = connector_status_connected \<or> conn_status c1 = connector_status_unknown)
      then (n2, if is_displayport c2 then drm_set_preferred_mode c2 640 480 else c2, w2) else (n1, c1, w1)) = (n3, c3, w3)"
    by (cases "if n1 = 0 \<and> (conn_status c1 = connector_status_connected \<or> conn_status c1 = connector_status_unknown)
      then (n2, if is_displayport c2 then drm_set_preferred_mode c2 640 480 else c2, w2) else (n1, c1, w1)")
  have "conn_frame c2 (drm_set_preferred_mode c2 640 480)"
    by (simp add: conn_frame_def drm_set_preferred_mode_def capabilities_def)
  then have f3: "conn_frame c1 c3 \<and> contention w3 \<le> contention w1"
    using 3 f2 trans [of c1 c2] by (auto simp: conn_frame_def split: if_splits)
  obtain n4 where 4: "drm_helper_probe_add_cmdline_mode env c3 w3 = (n4, c', w')"
    using assms 1 2 3 by (auto simp: probe_collect_def Let_def split: if_splits prod.splits)
  have "conn_frame c3 c' \<and> contention w' \<le> contention w3"
    using 4 cmdline_law [of "cmdline_mode c3" w3]
    by (auto simp: drm_helper_probe_add_cmdline_mode_def drm_mode_probed_add_def conn_frame_def capabilities_def
        split: if_splits option.splits prod.splits)
  then show ?thesis using f1 f3 trans [of c c1 c3] trans [of c c3 c'] by auto
qed

lemma status_frame:
  assumes "probe_status env c w = (dead, c', w')"
  shows "conn_frame c c' \<and> contention w' \<le> contention w \<and> (dead \<longrightarrow> 0 < contention w')"
proof (cases "conn_force c = DRM_FORCE_UNSPECIFIED")
  case True
  obtain ret w1 where l: "drm_modeset_lock env w = (ret, w1)" by (cases "drm_modeset_lock env w")
  obtain r w2 where d: "detect_connector_status env c w1 = (r, w2)" by (cases "detect_connector_status env c w1")
  have "contention w2 \<le> contention w1 \<and> (r = Inl (- EDEADLK) \<longrightarrow> 0 < contention w2)"
    using d detect_ctx_law [of _ c w1 r w2] detect_law [of _ c w1 r w2]
    by (auto simp: detect_connector_status_def split: option.splits)
  then show ?thesis
    using assms True l d lock_law [OF l]
    by (auto simp: probe_status_def drm_helper_probe_detect_def Let_def split: if_splits sum.splits)
next
  case False
  show ?thesis
  proof (cases "force_hook env")
    case None
    then show ?thesis using assms False by (auto simp: probe_status_def Let_def)
  next
    case (Some f)
    then obtain st where "f (c\<lparr>conn_status := st\<rparr>) w = (c', w')" "\<not> dead"
      using assms False by (auto simp: probe_status_def Let_def split: if_splits)
    then show ?thesis using force_law [OF Some, of "c\<lparr>conn_status := st\<rparr>" w c' w'] by simp
  qed
qed

lemma validate_entry_contention:
  assumes "validate_entry env c mx my fl so e w = (dead, e', w')"
  shows "contention w' \<le> contention w \<and> (dead \<longrightarrow> 0 < contention w')"
proof -
  obtain ret st w1 where p: "drm_mode_validate_pipeline env (dmode e) w = (ret, st, w1)"
    by (cases "drm_mode_validate_pipeline env (dmode e) w")
  obtain ret2 st2 w2 where q: "drm_connector_mode_valid env (dmode e) w = (ret2, st2, w2)"
    by (cases "drm_connector_mode_valid env (dmode e) w")
  have "contention w2 \<le> contention w \<and> (ret2 = - EDEADLK \<longrightarrow> 0 < contention w2)"
    using q valid_ctx_law [of _ "dmode e" w ret2 st2 w2]
    by (auto simp: drm_connector_mode_valid_def EDEADLK_def split: if_splits option.splits)
  then have "contention w1 \<le> contention w \<and> (ret = - EDEADLK \<longrightarrow> 0 < contention w1)"
    using p q by (auto simp: drm_mode_validate_pipeline_def EDEADLK_def split: if_splits)
  then show ?thesis using assms p by (auto simp: validate_entry_def Let_def split: if_splits)
qed

lemma validate_loop_contention:
  "validate_loop env c mx my fl so es w = (dead, es', w') \<Longrightarrow>
   contention w' \<le> contention w \<and> (dead \<longrightarrow> 0 < contention w')"
proof (induction es arbitrary: w dead es' w')
  case (Cons e es)
  obtain d1 e1 w1 where 1: "validate_entry env c mx my fl so e w = (d1, e1, w1)" by (cases "validate_entry env c mx my fl so e w")
  obtain d2 es2 w2 where 2: "validate_loop env c mx my fl so es w1 = (d2, es2, w2)" by (cases "validate_loop env c mx my fl so es w1")
  show ?case
    using Cons.prems 1 2 validate_entry_contention [OF 1] Cons.IH [OF 2] by (auto split: if_splits)
qed simp

lemma update_validate_result:
  assumes "drm_helper_update_and_validate env maxX maxY s = (dead, s')" "distinct (map mode_key (modes (connector s)))"
  shows "distinct (map mode_key (modes (connector s')))" "capabilities (connector s') = capabilities (connector s)"
    "contention (world s') \<le> contention (world s)" "dead \<Longrightarrow> 0 < contention (world s')"
    "\<not> dead \<Longrightarrow> e \<in> set (modes (connector s')) \<Longrightarrow> status e = MODE_OK \<Longrightarrow>
       entry_valid env (connector s) (sint maxX) (sint maxY) e"
proof -
  let ?c = "drm_connector_list_update (connector s)"
  obtain ms w where l: "validate_loop env ?c (sint maxX) (sint maxY) (conn_flags ?c) (stereo_allowed ?c) (modes ?c) (world s) =
      (dead, ms, w)" and s': "s' = s\<lparr>connector := ?c\<lparr>modes := ms\<rparr>, world := w\<rparr>"
    using assms(1) by (auto simp: drm_helper_update_and_validate_def conn_flags_def Let_def split: prod.splits)
  have u: "distinct (map mode_key (modes ?c))"
    using list_update_keys [OF assms(2)] by (simp add: drm_connector_list_update_def)
  show "distinct (map mode_key (modes (connector s')))" using u validate_loop_result(1) [OF l] s' by simp
  show "capabilities (connector s') = capabilities (connector s)"
    by (simp add: s' capabilities_def drm_connector_list_update_def)
  show "contention (world s') \<le> contention (world s)" "dead \<Longrightarrow> 0 < contention (world s')"
    using validate_loop_contention [OF l] s' by simp_all
  have c: "entry_valid env ?c mx my x = entry_valid env (connector s) mx my x" for mx my x
    by (simp add: entry_valid_def conn_flags_def drm_connector_list_update_def drm_mode_validate_ycbcr420_def)
  show "\<not> dead \<Longrightarrow> e \<in> set (modes (connector s')) \<Longrightarrow> status e = MODE_OK \<Longrightarrow>
       entry_valid env (connector s) (sint maxX) (sint maxY) e"
    using validate_loop_result(2) [OF l, of e] s' by (simp add: c)
qed

end

text \<open>The connector after a probe: modes of status \<open>MODE_OK\<close> that passed the checks, sorted.\<close>

definition probe_result :: "'w probe_env \<Rightarrow> bool list \<Rightarrow> u32 \<Rightarrow> u32 \<Rightarrow> drm_mode_entry list \<Rightarrow> bool" where
  "probe_result env caps maxX maxY ms \<longleftrightarrow> (\<exists>ms0. ms = map with_crtcinfo (drm_mode_sort env ms0) \<and> distinct (map mode_key ms0) \<and>
     (\<forall>e\<in>set ms0. status e = MODE_OK \<and> (\<forall>c. capabilities c = caps \<longrightarrow> entry_valid env c (sint maxX) (sint maxY) e)))"

text \<open>An attempt that has to start again leaves the lists in order and less contention to come.\<close>

definition attempt_ok :: "'w probe_env \<Rightarrow> ('w \<Rightarrow> nat) \<Rightarrow> u32 \<Rightarrow> u32 \<Rightarrow> 'w probe_state \<Rightarrow> int option \<Rightarrow> 'w probe_state \<Rightarrow> bool" where
  "attempt_ok env contention maxX maxY s r s' \<longleftrightarrow> (case r of
     Some _ \<Rightarrow> probe_result env (capabilities (connector s)) maxX maxY (modes (connector s'))
   | None \<Rightarrow> distinct (map mode_key (modes (connector s'))) \<and> capabilities (connector s') = capabilities (connector s) \<and>
       contention (world s') \<le> contention (world s) \<and> 0 < contention (world s'))"

lemma entry_valid_capabilities:
  "capabilities c = capabilities c' \<Longrightarrow> entry_valid env c mx my e = entry_valid env c' mx my e"
  by (simp add: capabilities_def entry_valid_def conn_flags_def drm_mode_validate_ycbcr420_def)

context probe_hooks
begin

lemma exit_result:
  assumes "probe_exit env n s = (r, s')" "distinct (map mode_key (modes (connector s)))"
    and "\<And>e. e \<in> set (modes (connector s)) \<Longrightarrow> status e = MODE_OK \<and> entry_valid env (connector s) (sint maxX) (sint maxY) e"
  shows "r \<noteq> None" "probe_result env (capabilities (connector s)) maxX maxY (modes (connector s'))"
proof -
  show "r \<noteq> None" using assms(1) by (auto simp: probe_exit_def Let_def split: if_splits)
  have "modes (connector s') = map with_crtcinfo (drm_mode_sort env (modes (connector s)))"
    using assms(1) by (auto simp: probe_exit_def Let_def drm_mode_sort_def sort_nil with_crtcinfo_def split: if_splits)
  then show "probe_result env (capabilities (connector s)) maxX maxY (modes (connector s'))"
    unfolding probe_result_def
    by (intro exI [of _ "modes (connector s)"]) (use assms(2,3) entry_valid_capabilities [of _ "connector s"] in blast)
qed

lemma prune_result:
  "modes (connector (probe_prune s)) = filter (\<lambda>e. status e = MODE_OK) (modes (connector s))"
  "capabilities (connector (probe_prune s)) = capabilities (connector s)" "world (probe_prune s) = world s"
  by (simp_all add: probe_prune_def drm_mode_prune_invalid_def capabilities_def)

lemma prune_exit:
  assumes "probe_exit env n (probe_prune s) = (r, s')" "distinct (map mode_key (modes (connector s)))"
    and "\<And>e. e \<in> set (modes (connector s)) \<Longrightarrow> status e = MODE_OK \<Longrightarrow> entry_valid env (connector s) (sint maxX) (sint maxY) e"
  shows "r \<noteq> None" "probe_result env (capabilities (connector s)) maxX maxY (modes (connector s'))"
proof -
  have d: "distinct (map mode_key (modes (connector (probe_prune s))))"
    using assms(2) by (simp add: prune_result distinct_map_filter)
  have v: "status e = MODE_OK \<and> entry_valid env (connector (probe_prune s)) (sint maxX) (sint maxY) e"
    if "e \<in> set (modes (connector (probe_prune s)))" for e
  proof -
    have "e \<in> set (modes (connector s))" "status e = MODE_OK" using that by (simp_all add: prune_result)
    then show ?thesis using assms(3) entry_valid_capabilities [OF prune_result(2)] by blast
  qed
  note e = exit_result [OF assms(1) d v, unfolded prune_result(2)]
  show "r \<noteq> None" "probe_result env (capabilities (connector s)) maxX maxY (modes (connector s'))"
    using e by simp_all
qed

lemma modes_attempt:
  assumes "probe_modes env maxX maxY s = (r, s')" "distinct (map mode_key (modes (connector s)))"
    and stale: "\<And>e. e \<in> set (modes (connector s)) \<Longrightarrow> status e \<noteq> MODE_OK"
  shows "attempt_ok env contention maxX maxY s r s'"
proof -
  obtain n c w where 1: "probe_collect env (connector s) (world s) = (n, c, w)" by (cases "probe_collect env (connector s) (world s)")
  have f: "modes c = modes (connector s)" "capabilities c = capabilities (connector s)" "contention w \<le> contention (world s)"
    using collect_frame [OF 1] by (auto simp: conn_frame_def)
  let ?s1 = "s\<lparr>connector := c, world := w\<rparr>"
  obtain dead s2 where 2: "(if n \<noteq> 0 then drm_helper_update_and_validate env maxX maxY ?s1 else (False, ?s1)) = (dead, s2)"
    by (cases "if n \<noteq> 0 then drm_helper_update_and_validate env maxX maxY ?s1 else (False, ?s1)")
  have d1: "distinct (map mode_key (modes (connector ?s1)))" using assms(2) f by simp
  have u: "distinct (map mode_key (modes (connector s2)))" "capabilities (connector s2) = capabilities (connector s)"
    "contention (world s2) \<le> contention (world s)" "dead \<Longrightarrow> 0 < contention (world s2)"
    "\<And>e. \<not> dead \<Longrightarrow> e \<in> set (modes (connector s2)) \<Longrightarrow> status e = MODE_OK \<Longrightarrow>
       entry_valid env (connector s2) (sint maxX) (sint maxY) e"
    using 2 f d1 stale update_validate_result [OF _ d1, of maxX maxY dead s2]
      entry_valid_capabilities [of "connector s2" c env "sint maxX" "sint maxY"]
    by (auto split: if_splits)
  note p = prune_exit [OF _ u(1)]
  show ?thesis
  proof (cases dead)
    case True
    then have "r = None" "s' = s2" using assms(1) 1 2 by (auto simp: probe_modes_def Let_def)
    then show ?thesis using u(1-3) u(4) [OF True] by (simp add: attempt_ok_def)
  next
    case False
    let ?p = "probe_prune s2"
    show ?thesis
    proof (cases "modes (connector ?p) = [] \<and> is_displayport (connector ?p)")
      case True
      obtain n2 c2 w2 where 3: "drm_add_modes_noedid env 640 480 (connector ?p) (world ?p) = (n2, c2, w2)"
        by (cases "drm_add_modes_noedid env 640 480 (connector ?p) (world ?p)")
      have g: "modes c2 = []" "capabilities c2 = capabilities (connector s)" "contention w2 \<le> contention (world s)"
        using noedid_frame 3 True u(2,3) by (fastforce simp: drm_add_modes_noedid_def conn_frame_def prune_result)+
      let ?s3 = "?p\<lparr>connector := c2, world := w2\<rparr>"
      obtain dead2 s4 where 4: "drm_helper_update_and_validate env maxX maxY ?s3 = (dead2, s4)"
        by (cases "drm_helper_update_and_validate env maxX maxY ?s3")
      have d3: "distinct (map mode_key (modes (connector ?s3)))" using g(1) by simp
      note v = update_validate_result [OF 4 d3]
      have c4: "capabilities (connector s4) = capabilities (connector s)" using v(2) g(2) by simp
      have e: "(if dead2 then (None, s4) else probe_exit env n2 (probe_prune s4)) = (r, s')"
        using assms(1) 1 2 3 4 False True by (simp add: probe_modes_def Let_def)
      show ?thesis
      proof (cases dead2)
        case True
        then show ?thesis using e v(1,3,4) c4 g(3) by (auto simp: attempt_ok_def)
      next
        case nd: False
        have ok: "entry_valid env (connector s4) (sint maxX) (sint maxY) x"
          if "x \<in> set (modes (connector s4))" "status x = MODE_OK" for x
          using v(5) [OF nd that] entry_valid_capabilities [OF v(2)] by blast
        have "probe_exit env n2 (probe_prune s4) = (r, s')" using e nd by simp
        from prune_exit [OF this v(1) ok] show ?thesis using c4 by (auto simp: attempt_ok_def)
      qed
    next
      case ex: False
      have e: "probe_exit env n ?p = (r, s')"
        using assms(1) 1 2 False ex by (auto simp: probe_modes_def Let_def)
      from prune_exit [OF e u(1) u(5) [OF False]] show ?thesis unfolding u(2) by (auto simp: attempt_ok_def)
    qed
  qed
qed

lemma attempt_result:
  assumes "probe_attempt env maxX maxY s = (r, s')" "distinct (map mode_key (modes (connector s)))"
  shows "attempt_ok env contention maxX maxY s r s'"
proof -
  obtain ret w1 where 1: "drm_modeset_lock env (world s) = (ret, w1)" by (cases "drm_modeset_lock env (world s)")
  let ?c = "(connector s)\<lparr>modes := map (\<lambda>e. e\<lparr>status := MODE_STALE\<rparr>) (modes (connector s))\<rparr>"
  obtain dead c w2 where 2: "probe_status env ?c w1 = (dead, c, w2)" by (cases "probe_status env ?c w1")
  have k: "map mode_key (modes ?c) = map mode_key (modes (connector s))" by simp
  have f: "modes c = modes ?c" "capabilities c = capabilities (connector s)" "contention w2 \<le> contention (world s)"
    "dead \<Longrightarrow> 0 < contention w2"
    using status_frame [OF 2] lock_law [OF 1] by (auto simp: conn_frame_def capabilities_def)
  have kc: "map mode_key (modes c) = map mode_key (modes (connector s))" unfolding f(1) by (rule k)
  show ?thesis
  proof (cases "ret = - EDEADLK \<or> dead")
    case True
    show ?thesis
    proof (cases "ret = - EDEADLK")
      case True
      then have "r = None" "s' = s\<lparr>world := w1\<rparr>" using assms(1) 1 by (simp_all add: probe_attempt_def)
      then show ?thesis using assms(2) lock_law [OF 1] True by (simp add: attempt_ok_def)
    next
      case nd: False
      then have "r = None" "s' = s\<lparr>connector := c, world := w2\<rparr>"
        using assms(1) 1 2 True by (simp_all add: probe_attempt_def Let_def)
      then show ?thesis using assms(2) kc f(2-4) True nd by (simp add: attempt_ok_def)
    qed
  next
    case False
    let ?s1 = "s\<lparr>connector := c, world := w2\<rparr>"
    define s2 where "s2 = probe_notify env (conn_status (connector s)) ?s1"
    have s2: "connector s2 = c" "contention (world s2) \<le> contention (world s)"
      using f(3) poll_law [of w2] by (auto simp: s2_def probe_notify_def Let_def intro: order_trans)
    have st: "status e \<noteq> MODE_OK" if "e \<in> set (modes (connector s2))" for e using that f(1) s2(1) by auto
    have d: "distinct (map mode_key (modes (connector s2)))" using assms(2) kc s2(1) by simp
    have e: "(if conn_status c = connector_status_disconnected then probe_exit env 0 (probe_prune s2)
        else probe_modes env maxX maxY s2) = (r, s')"
      using assms(1) 1 2 False by (simp add: probe_attempt_def s2_def Let_def split: if_splits)
    show ?thesis
    proof (cases "conn_status c = connector_status_disconnected")
      case True
      from prune_exit [OF _ d, of 0 r s' maxX maxY] show ?thesis
        using e True st s2(1) f(2) by (auto simp: attempt_ok_def)
    next
      case nd: False
      then have "attempt_ok env contention maxX maxY s2 r s'" using e modes_attempt [OF _ d st] by auto
      then show ?thesis using s2 f(2) by (auto simp: attempt_ok_def split: option.splits)
    qed
  qed
qed

text \<open>What the helper returns, and that it returns.\<close>

lemma probe_partial:
  "drm_helper_probe_single_connector_modes env maxX maxY s = Some (n, s') \<Longrightarrow>
   distinct (map mode_key (modes (connector s))) \<Longrightarrow>
   probe_result env (capabilities (connector s)) maxX maxY (modes (connector s'))"
proof (induction "contention (world s)" arbitrary: s rule: less_induct)
  case less
  obtain r s1 where a: "probe_attempt env maxX maxY s = (r, s1)" by (cases "probe_attempt env maxX maxY s")
  note ok = attempt_result [OF a less.prems(2)]
  show ?case
  proof (cases r)
    case None
    let ?s = "s1\<lparr>world := drm_modeset_backoff env (world s1)\<rparr>"
    have "contention (world ?s) < contention (world s)"
      using ok None backoff_law [of "world s1"] by (auto simp: attempt_ok_def)
    moreover have "drm_helper_probe_single_connector_modes env maxX maxY ?s = Some (n, s')"
      using less.prems(1) a None by (subst (asm) drm_helper_probe_single_connector_modes.simps) simp
    ultimately show ?thesis using less.hyps [of ?s] ok None by (simp add: attempt_ok_def)
  next
    case (Some k)
    then have "s1 = s'"
      using less.prems(1) a by (subst (asm) drm_helper_probe_single_connector_modes.simps) simp
    then show ?thesis using ok Some by (simp add: attempt_ok_def)
  qed
qed

lemma probe_returns:
  "distinct (map mode_key (modes (connector s))) \<Longrightarrow>
   \<exists>n s'. drm_helper_probe_single_connector_modes env maxX maxY s = Some (n, s')"
proof (induction "contention (world s)" arbitrary: s rule: less_induct)
  case less
  obtain r s1 where a: "probe_attempt env maxX maxY s = (r, s1)" by (cases "probe_attempt env maxX maxY s")
  note ok = attempt_result [OF a less.prems]
  show ?case
  proof (cases r)
    case None
    let ?s = "s1\<lparr>world := drm_modeset_backoff env (world s1)\<rparr>"
    have "contention (world ?s) < contention (world s)"
      using ok None backoff_law [of "world s1"] by (auto simp: attempt_ok_def)
    then have "\<exists>n s'. drm_helper_probe_single_connector_modes env maxX maxY ?s = Some (n, s')"
      using less.hyps [of ?s] ok None by (simp add: attempt_ok_def)
    then show ?thesis using a None by (subst drm_helper_probe_single_connector_modes.simps) simp
  next
    case (Some k)
    then show ?thesis using a by (subst drm_helper_probe_single_connector_modes.simps) simp
  qed
qed

end

text \<open>The modes of a result: all valid, no two equal, best first.\<close>

lemma entry_validD:
  assumes "entry_valid env c maxX maxY e"
  shows "clock (dmode e) \<noteq> 0" "0 < hdisplay (dmode e)" "hdisplay (dmode e) \<le> hsync_start (dmode e)"
    "hsync_start (dmode e) \<le> hsync_end (dmode e)" "hsync_end (dmode e) \<le> htotal (dmode e)"
    "0 < vdisplay (dmode e)" "vdisplay (dmode e) \<le> vsync_start (dmode e)"
    "vsync_start (dmode e) \<le> vsync_end (dmode e)" "vsync_end (dmode e) \<le> vtotal (dmode e)"
    "0 < maxX \<Longrightarrow> uint (hdisplay (dmode e)) \<le> maxX" "0 < maxY \<Longrightarrow> uint (vdisplay (dmode e)) \<le> maxY"
    "DRM_MODE_FLAG_INTERLACE \<in> flags (dmode e) \<Longrightarrow> interlace_allowed c"
    "DRM_MODE_FLAG_DBLSCAN \<in> flags (dmode e) \<Longrightarrow> doublescan_allowed c"
    "stereo (dmode e) \<noteq> DRM_MODE_FLAG_3D_NONE \<Longrightarrow> stereo_allowed c"
    "encoder_loop (dmode e) (encoders env) MODE_OK = MODE_OK"
  using assms
  by (auto simp: entry_valid_def drm_mode_validate_driver_def drm_mode_validate_basic_def drm_mode_validate_size_def
      drm_mode_validate_flag_def conn_flags_def Let_def not_less word_neq_0_conv [symmetric] split: if_splits)

text \<open>With at least one possible CRTC per encoder, some encoder, its bridges and one of its CRTCs accept the mode.\<close>

lemma crtc_loop_cases:
  "crtc_loop m cs st = (found, st') \<Longrightarrow>
   (if found then \<exists>c\<in>set cs. crtc_possible c \<and> drm_crtc_mode_valid c m = MODE_OK
    else st' = MODE_OK \<longrightarrow> st = MODE_OK \<and> (\<forall>c\<in>set cs. \<not> crtc_possible c))"
proof (induction cs arbitrary: st)
  case (Cons c cs)
  then show ?case
    using Cons.IH [of st] Cons.IH [of "drm_crtc_mode_valid c m"] by (auto simp: Let_def split: if_splits)
qed simp

definition pipeline_accepts :: "encoder_hook \<Rightarrow> drm_display_mode \<Rightarrow> bool" where
  "pipeline_accepts e m \<longleftrightarrow> drm_encoder_mode_valid e m = MODE_OK \<and> drm_bridge_chain_mode_valid (bridge_hooks e) m = MODE_OK \<and>
     (\<exists>c\<in>set (encoder_crtcs e). crtc_possible c \<and> drm_crtc_mode_valid c m = MODE_OK)"

lemma encoder_loop_accepts:
  assumes "encoder_loop m es st = MODE_OK" "\<And>e. e \<in> set es \<Longrightarrow> \<exists>c\<in>set (encoder_crtcs e). crtc_possible c"
  shows "(es = [] \<and> st = MODE_OK) \<or> (\<exists>e\<in>set es. pipeline_accepts e m)"
  using assms
proof (induction es arbitrary: st)
  case (Cons e es)
  obtain found st1 where c: "crtc_loop m (encoder_crtcs e) MODE_OK = (found, st1)"
    by (cases "crtc_loop m (encoder_crtcs e) MODE_OK")
  have ih: "encoder_loop m es st2 = MODE_OK \<Longrightarrow> st2 \<noteq> MODE_OK \<Longrightarrow> \<exists>e\<in>set es. pipeline_accepts e m" for st2
    using Cons.IH [of st2] Cons.prems(2) by auto
  have p: "\<exists>c\<in>set (encoder_crtcs e). crtc_possible c" using Cons.prems(2) by simp
  show ?case
    using Cons.prems(1) c crtc_loop_cases [OF c] ih p
    by (auto simp: Let_def pipeline_accepts_def split: if_splits)
qed simp

section \<open>Properties\<close>

lemma sorted_wrt_neq: "sorted_wrt (\<lambda>a b. a \<noteq> b) xs = distinct xs"
  by (induction xs) auto

lemma probe_result_modes:
  assumes h: "list_sort_laws (list_sort env)" and r: "probe_result env (capabilities c) maxX maxY ms"
    and lim: "0 < sint maxX" "0 < sint maxY" "sint maxX * sint maxY < 2 ^ 31"
    and clk: "\<And>m. encoder_loop m (encoders env) MODE_OK = MODE_OK \<Longrightarrow> 0 \<le> clock m \<and> clock m \<le> 1000000"
  shows "sorted_wrt no_worse ms" "sorted_wrt (\<lambda>a b. \<not> drm_mode_equal a b) ms"
    "\<And>e. e \<in> set ms \<Longrightarrow> status e = MODE_OK \<and> (\<exists>e0. e = with_crtcinfo e0 \<and> entry_valid env c (sint maxX) (sint maxY) e0)"
proof -
  obtain ms0 where m: "ms = map with_crtcinfo (drm_mode_sort env ms0)" "distinct (map mode_key ms0)"
    and v: "\<And>e. e \<in> set ms0 \<Longrightarrow> status e = MODE_OK \<and> entry_valid env c (sint maxX) (sint maxY) e"
    using r unfolding probe_result_def by blast
  have s: "set (drm_mode_sort env ms0) = set ms0" and p: "mset (drm_mode_sort env ms0) = mset ms0"
    by (simp_all add: drm_mode_sort_def list_sort_laws.sort_set [OF h] list_sort_laws.sort_perm [OF h])
  show "status e = MODE_OK \<and> (\<exists>e0. e = with_crtcinfo e0 \<and> entry_valid env c (sint maxX) (sint maxY) e0)" if "e \<in> set ms" for e
    using that v unfolding m(1) by (auto simp: s with_crtcinfo_def)
  have small: "mode_small e" if "e \<in> set ms0" for e
  proof -
    have a: "uint (hdisplay (dmode e)) \<le> sint maxX" "uint (vdisplay (dmode e)) \<le> sint maxY"
      "0 \<le> clock (dmode e) \<and> clock (dmode e) \<le> 1000000"
      using v [OF that] lim clk entry_validD(10,11,15) [of env c "sint maxX" "sint maxY" e] by blast+
    have "mode_area e \<le> sint maxX * sint maxY" unfolding mode_area_def using a(1,2) lim by (intro mult_mono) auto
    then show ?thesis unfolding mode_small_def using lim(3) a(3) by auto
  qed
  have "sorted_wrt (\<lambda>a b. drm_mode_compare a b \<le> 0) (drm_mode_sort env ms0)"
    unfolding drm_mode_sort_def by (rule list_sort_laws.sort_sorted [OF h compare_consistent]) (rule small)
  then have "sorted_wrt no_worse (drm_mode_sort env ms0)"
    by (rule sorted_wrt_mono_rel [rotated]) (simp add: compare_no_worse small s)
  then show "sorted_wrt no_worse ms" unfolding m(1) by (simp add: sorted_wrt_map)
  have "mset (map mode_key (drm_mode_sort env ms0)) = mset (map mode_key ms0)" using p by simp
  then have "distinct (map mode_key (drm_mode_sort env ms0))" using m(2) mset_eq_imp_distinct_iff by blast
  then have "sorted_wrt (\<lambda>a b. a \<noteq> b) (map mode_key (drm_mode_sort env ms0))" by (simp add: sorted_wrt_neq)
  then show "sorted_wrt (\<lambda>a b. \<not> drm_mode_equal a b) ms" unfolding m(1) by (simp add: sorted_wrt_map drm_mode_equal_key)
qed


text \<open>C35: probing a connector ends. It starts over whenever taking a lock would deadlock, but each time it backs off first,
  which waits for the lock in question; with finite contention it returns.\<close>

theorem probe_single_connector_returns:
  assumes "probe_hooks env contention" "distinct (map mode_key (modes (connector s)))"
  shows "\<exists>n s'. drm_helper_probe_single_connector_modes env maxX maxY s = Some (n, s')"
  by (rule probe_hooks.probe_returns [OF assms])

text \<open>An example: a monitor with three modes, one of them listed twice, and a lock that is contended twice.\<close>

definition demo_entry :: "int \<Rightarrow> u16 \<Rightarrow> u16 \<Rightarrow> mode_type set \<Rightarrow> drm_mode_entry" where
  "demo_entry clk h v ty = \<lparr>dmode = \<lparr>clock = clk, hdisplay = h, hsync_start = h + 8, hsync_end = h + 16, htotal = h + 32, hskew = 0,
     vdisplay = v, vsync_start = v + 2, vsync_end = v + 4, vtotal = v + 8, vscan = 0, flags = {},
     stereo = DRM_MODE_FLAG_3D_NONE, crtc_clock = 0, crtc_hdisplay = 0, crtc_hblank_start = 0, crtc_hblank_end = 0,
     crtc_hsync_start = 0, crtc_hsync_end = 0, crtc_htotal = 0, crtc_hskew = 0, crtc_vdisplay = 0, crtc_vblank_start = 0,
     crtc_vblank_end = 0, crtc_vsync_start = 0, crtc_vsync_end = 0, crtc_vtotal = 0\<rparr>, dtype = ty, status = MODE_OK,
     picture_aspect_ratio = 0\<rparr>"

definition demo_probe_env :: "nat probe_env" where
  "demo_probe_env = \<lparr>mhdr = \<lparr>DRM_MODE_TYPE_ALL = {DRM_MODE_TYPE_PREFERRED}, DRM_MODE_FLAG_ALL = {}, stereo_in_range = (\<lambda>_. True)\<rparr>,
     drm_modeset_lock = (\<lambda>w. (if 0 < w then - EDEADLK else 0, w)), drm_modeset_backoff = (\<lambda>w. w - 1),
     drm_modeset_drop_locks = id, force_hook = None, detect_ctx = None, detect = None, drm_kms_helper_poll_enable = id,
     get_modes = (\<lambda>c w. (4, c\<lparr>probed_modes := probed_modes c @ [demo_entry 40000 800 600 {}, demo_entry 65000 1024 768 {},
        demo_entry 40000 800 600 {DRM_MODE_TYPE_PREFERRED}, demo_entry 200000 1600 1200 {}]\<rparr>, w)),
     drm_edid_override_connector_update = (\<lambda>c w. (0, c, w)), drm_dmt_modes = [], kzalloc_mode = (\<lambda>w. (True, w)),
     drm_mode_create_from_cmdline_mode = (\<lambda>_ w. (None, w)), config_mode_valid = None, drm_mode_is_420_only = (\<lambda>_ _. False),
     connector_helper = True, mode_valid_ctx = None, connector_mode_valid_hook = None,
     encoders = [\<lparr>encoder_mode_valid_hook = None, bridge_hooks = [],
        encoder_crtcs = [\<lparr>crtc_possible = True, crtc_mode_valid_hook = Some (\<lambda>m. if 0 \<le> clock m \<and> clock m \<le> 165000 then MODE_OK else MODE_CLOCK_HIGH)\<rparr>]\<rparr>],
     list_sort = sort_by\<rparr>"

definition demo_connector :: "nat probe_state" where
  "demo_connector = \<lparr>connector = \<lparr>modes = [], probed_modes = [], conn_status = connector_status_unknown,
     conn_force = DRM_FORCE_UNSPECIFIED, epoch_counter = 0, interlace_allowed = False, doublescan_allowed = False,
     stereo_allowed = False, ycbcr_420_allowed = False, is_displayport = False,
     cmdline_mode = \<lparr>specified = False, xres = 0, yres = 0, refresh_specified = False, refresh = 0\<rparr>\<rparr>,
     delayed_event = False, poll_enabled = False, poll_work_queued = False, world = 2\<rparr>"

interpretation demo_probe: probe_hooks demo_probe_env id
  by unfold_locales (auto simp: demo_probe_env_def mset_sort_by sorted_sort_by conn_frame_def capabilities_def EDEADLK_def split: if_splits)

declare drm_helper_probe_single_connector_modes.simps [code]

lemma demo_probe_value:
  "map_option (\<lambda>(n, s'). (n, map (\<lambda>e. (hdisplay (dmode e), crtc_vblank_start (dmode e), dtype e)) (modes (connector s'))))
     (drm_helper_probe_single_connector_modes demo_probe_env 2048 2048 demo_connector) =
   Some (4, [(800, 600, {DRM_MODE_TYPE_PREFERRED}), (1024, 768, {})])"
  by code_simp

lemma demo_accepts:
  "encoder_loop m (encoders demo_probe_env) MODE_OK = MODE_OK \<Longrightarrow> 0 \<le> clock m \<and> clock m \<le> 1000000"
  by (auto simp: demo_probe_env_def drm_encoder_mode_valid_def drm_crtc_mode_valid_def Let_def split: if_splits)


theorem probe_single_connector_returns_witness:
  "\<exists>n s'. drm_helper_probe_single_connector_modes demo_probe_env 2048 2048 demo_connector = Some (n, s') \<and>
     world demo_connector = 2"
  using probe_single_connector_returns [OF demo_probe.probe_hooks_axioms, of demo_connector 2048 2048]
  by (simp add: demo_connector_def)

text \<open>
  The number the helper returns is not the number of modes on the list, as its documentation has it, but the number of modes
  probed before merging and pruning.
\<close>

lemma probe_count_is_not_length:
  "\<exists>n s'. drm_helper_probe_single_connector_modes demo_probe_env 2048 2048 demo_connector = Some (n, s') \<and>
     n = 4 \<and> length (modes (connector s')) = 2"
proof -
  obtain n s' where "drm_helper_probe_single_connector_modes demo_probe_env 2048 2048 demo_connector = Some (n, s')" "n = 4"
    "map (\<lambda>e. (hdisplay (dmode e), crtc_vblank_start (dmode e), dtype e)) (modes (connector s')) =
      [(800, 600, {DRM_MODE_TYPE_PREFERRED}), (1024, 768, {})]"
    using demo_probe_value by auto
  then show ?thesis by (auto dest: arg_cong [where f = length])
qed

end
