(* ===== verification/Ma35_Interface.thy ===== *)
theory Ma35_Interface
  imports Ma35_Crtc Drm_Probe_Loop
begin

text \<open>
  The output of the MA35 display driver (\<open>drm/nuvoton/ma35_interface.c\<close>): the encoder, the bridge or panel found in the
  device tree, and the connector used when there is none. What the driver changes outside its own structure is the record
  \<open>interface_sys\<close>; the outcomes of calls into the device tree, bridge and connector code are the fields of
  \<open>interface_env\<close>, where 0 is success. Panels and bridges are identities.
\<close>

section \<open>Data\<close>

record ma35_interface =
  enc_possible_crtcs :: u32
  drm_panel :: "nat option"
  drm_bridge :: "nat option"
  itf_bus_flags :: "bus_flag set"

record interface_env =
  drmm_simple_encoder_alloc :: int
  drm_of_find_panel_or_bridge :: "int + nat option \<times> nat option"
  drm_panel_bridge_add_typed :: "nat \<Rightarrow> int + nat"
  drm_bridge_attach :: "nat option \<Rightarrow> int"
  drmm_connector_init :: int
  drm_connector_attach_encoder :: int

record interface_sys =
  panel_bridges :: "nat set"
  attached_bridge :: "nat option"
  connector_ready :: bool
  connector_linked :: bool

section \<open>Encoder and connector\<close>

definition ma35_encoder_mode_set :: "'w clk_api \<Rightarrow> clk \<Rightarrow> drm_crtc_commit \<Rightarrow> 'w \<Rightarrow> 'w" where
  "ma35_encoder_mode_set ck dcupclk crtc_state w =
     snd (clk_set_rate ck w dcupclk (wrap32 (clock (adjusted_mode crtc_state) * 1000) mod 2 ^ 64))"

text \<open>\<open>info_flags\<close> are the bus flags of the connector's display info.\<close>

definition ma35_encoder_atomic_check :: "bus_flag set \<Rightarrow> ma35_interface \<Rightarrow> int \<times> ma35_interface" where
  "ma35_encoder_atomic_check info_flags itf = (0, itf\<lparr>itf_bus_flags := info_flags\<rparr>)"

text \<open>\<open>panel_get_modes\<close> is \<open>drm_panel_get_modes\<close>.\<close>

definition ma35_connector_get_modes ::
    "(nat \<Rightarrow> drm_connector \<Rightarrow> 'w \<Rightarrow> int \<times> drm_connector \<times> 'w) \<Rightarrow> mode_config \<Rightarrow> ma35_interface \<Rightarrow> 'w probe_env \<Rightarrow>
     drm_connector \<Rightarrow> 'w \<Rightarrow> int \<times> drm_connector \<times> 'w" where
  "ma35_connector_get_modes panel_get_modes mc itf env c w = (case drm_panel itf of
     None \<Rightarrow>
       let (cnt, c, w) = drm_add_modes_noedid env (word_of_int (max_width mc)) (word_of_int (max_height mc)) c w
       in (cnt, drm_set_preferred_mode c (max_width mc) (max_height mc), w)
   | Some panel \<Rightarrow> panel_get_modes panel c w)"

definition drm_crtc_mask :: "nat \<Rightarrow> u32" where
  "drm_crtc_mask index = push_bit index 1"

definition ma35_encoder_attach_crtc :: "nat \<Rightarrow> ma35_interface \<Rightarrow> ma35_interface" where
  "ma35_encoder_attach_crtc crtc_index itf = itf\<lparr>enc_possible_crtcs := drm_crtc_mask crtc_index\<rparr>"

section \<open>Creation\<close>

definition ma35_bridge_try_attach ::
    "interface_env \<Rightarrow> ma35_interface \<Rightarrow> interface_sys \<Rightarrow> int \<times> ma35_interface \<times> interface_sys" where
  "ma35_bridge_try_attach env itf s = (case drm_of_find_panel_or_bridge env of
     Inl ret \<Rightarrow> (ret, itf, s)
   | Inr (panel, bridge) \<Rightarrow>
       (case (case panel of
                Some p \<Rightarrow> (case drm_panel_bridge_add_typed env p of Inl e \<Rightarrow> Inl e | Inr b \<Rightarrow> Inr (Some b))
              | None \<Rightarrow> Inr bridge) of
          Inl e \<Rightarrow> (e, itf, s)
        | Inr bridge \<Rightarrow>
            let s = (if panel \<noteq> None then s\<lparr>panel_bridges := panel_bridges s \<union> set_option bridge\<rparr> else s);
                itf = itf\<lparr>drm_panel := panel, drm_bridge := bridge\<rparr>;
                ret = drm_bridge_attach env bridge
            in if ret \<noteq> 0
               then (ret, itf, if panel \<noteq> None then s\<lparr>panel_bridges := panel_bridges s - set_option bridge\<rparr> else s)
               else (0, itf, s\<lparr>attached_bridge := bridge\<rparr>)))"

definition ma35_interface_init ::
    "interface_env \<Rightarrow> nat \<Rightarrow> interface_sys \<Rightarrow> int \<times> ma35_interface option \<times> interface_sys" where
  "ma35_interface_init env crtc_index s =
     (if drmm_simple_encoder_alloc env \<noteq> 0 then (drmm_simple_encoder_alloc env, None, s)
      else
        let itf = \<lparr>enc_possible_crtcs = 0, drm_panel = None, drm_bridge = None, itf_bus_flags = {}\<rparr>;
            itf = ma35_encoder_attach_crtc crtc_index itf;
            (ret, itf, s) = ma35_bridge_try_attach env itf s
        in if ret = 0 then (0, Some itf, s)
           else if drmm_connector_init env \<noteq> 0 then (drmm_connector_init env, Some itf, s)
           else
             let s = s\<lparr>connector_ready := True\<rparr>
             in if drm_connector_attach_encoder env \<noteq> 0 then (drm_connector_attach_encoder env, Some itf, s)
                else (0, Some itf, s\<lparr>connector_linked := True\<rparr>))"

text \<open>
  The hooks as the probe helper sees them when the driver's own connector is used: \<open>base\<close> has what is not the
  driver's. The connector has no detection, and one CRTC checks the modes.
\<close>

definition ma35_probe_env ::
    "'w probe_env \<Rightarrow> (nat \<Rightarrow> drm_connector \<Rightarrow> 'w \<Rightarrow> int \<times> drm_connector \<times> 'w) \<Rightarrow> mode_config \<Rightarrow> ma35_interface \<Rightarrow> 'w probe_env" where
  "ma35_probe_env base panel_get_modes mc itf = base\<lparr>force_hook := None, detect_ctx := None, detect := None,
     get_modes := ma35_connector_get_modes panel_get_modes mc itf base, config_mode_valid := None, connector_helper := True,
     mode_valid_ctx := None, connector_mode_valid_hook := None,
     encoders := [\<lparr>encoder_mode_valid_hook = None, bridge_hooks = [],
       encoder_crtcs = [\<lparr>crtc_possible = (enc_possible_crtcs itf AND drm_crtc_mask MA35_DEFAULT_CRTC_ID \<noteq> 0),
         crtc_mode_valid_hook = Some (ma35_crtc_mode_valid mc)\<rparr>]\<rparr>]\<rparr>"

section \<open>Lemmas\<close>

text \<open>
  After a successful creation exactly one of a bridge and the driver's connector is attached to the encoder, which the CRTC
  can drive; a panel bridge exists exactly when it is attached.
\<close>

lemma ma35_interface_init_output:
  assumes "ma35_interface_init env i s = (0, itf, s')" "attached_bridge s = None" "\<not> connector_linked s"
    and "\<forall>p b. drm_panel_bridge_add_typed env p = Inr b \<longrightarrow> b \<notin> panel_bridges s"
  shows "itf \<noteq> None" "enc_possible_crtcs (the itf) = drm_crtc_mask i"
    "if connector_linked s' then attached_bridge s' = None \<and> connector_ready s' \<and> panel_bridges s' = panel_bridges s
     else attached_bridge s' = drm_bridge (the itf) \<and>
       panel_bridges s' = panel_bridges s \<union> (if drm_panel (the itf) = None then {} else set_option (drm_bridge (the itf)))"
  using assms
  by (auto simp: ma35_interface_init_def ma35_bridge_try_attach_def ma35_encoder_attach_crtc_def Let_def
      split: if_splits sum.splits option.splits)

text \<open>
  The probe of a panel driver that is not loaded yet asks for a later attempt; the driver takes the fallback connector
  instead, and the panel is never used.
\<close>

lemma ma35_interface_defer_ignored:
  assumes "drm_of_find_panel_or_bridge env = Inl (- EPROBE_DEFER)" "drmm_simple_encoder_alloc env = 0"
    and "drmm_connector_init env = 0" "drm_connector_attach_encoder env = 0"
  shows "fst (ma35_interface_init env i s) = 0" "connector_linked (snd (snd (ma35_interface_init env i s)))"
    "attached_bridge (snd (snd (ma35_interface_init env i s))) = attached_bridge s"
  using assms by (simp_all add: ma35_interface_init_def ma35_bridge_try_attach_def Let_def errno_defs)

context probe_hooks
begin

lemma ma35_hooks:
  assumes panel: "\<And>p c w n c' w'. panel_get_modes p c w = (n, c', w') \<Longrightarrow> conn_frame c c' \<and> contention w' \<le> contention w"
  shows "probe_hooks (ma35_probe_env env panel_get_modes mc itf) contention"
proof -
  have frame: "conn_frame c (drm_set_preferred_mode c' h v) = conn_frame c c'" for c c' h v
    by (simp add: conn_frame_def drm_set_preferred_mode_def capabilities_def)
  have g: "conn_frame c c' \<and> contention w' \<le> contention w"
    if "ma35_connector_get_modes panel_get_modes mc itf env c w = (n, c', w')" for c w n c' w'
    using that panel noedid_frame
    by (fastforce simp: ma35_connector_get_modes_def drm_add_modes_noedid_def frame split: option.splits prod.splits)
  show ?thesis
    by unfold_locales
      (simp_all add: ma35_probe_env_def g sort_perm sort_sorted override_law lock_law alloc_law cmdline_law poll_law backoff_law)
qed

end

text \<open>The modes the driver's connector offers are the ones its CRTC accepts.\<close>

lemma ma35_pipeline_accepts:
  assumes "encoder_loop m (encoders (ma35_probe_env base pm mc itf)) MODE_OK = MODE_OK"
    and "enc_possible_crtcs itf = drm_crtc_mask MA35_DEFAULT_CRTC_ID"
  shows "ma35_crtc_mode_valid mc m = MODE_OK"
  using encoder_loop_accepts [OF assms(1)] assms(2)
  by (auto simp: ma35_probe_env_def pipeline_accepts_def drm_crtc_mode_valid_def drm_crtc_mask_def MA35_DEFAULT_CRTC_ID_def)

end
