(* ===== verification/Ma35_Drm.thy ===== *)
theory Ma35_Drm
  imports Ma35_Interface Drm_Dumb
begin

text \<open>
  The DRM device of the MA35 display driver (\<open>drm/nuvoton/ma35_drm.c\<close>): dumb buffers, the interrupt, the mode
  configuration, and the platform driver's probe, remove, shutdown, suspend and resume. \<open>ma35_drm\<close> is the driver's own
  structure, \<open>ma35_sys\<close> what it changes outside: the DRM device with its vertical blanking state, the clocks,
  the interrupt and the registration. The outcomes of calls into the device model are the fields of \<open>ma35_env\<close>, 0 for
  success. Resources the driver takes through \<open>devm\<close> functions are released by the driver core when the probe fails;
  the state a failing probe leaves is the one before that.
\<close>

section \<open>Data\<close>

text \<open>\<open>crtc_has_dev\<close> says whether the CRTC's pointer to the device is set, which \<open>drm_crtc_init_with_planes\<close> does.\<close>

record ma35_drm =
  layers_list :: "ma35_layer list"
  crtc :: "ma35_crtc option"
  crtc_has_dev :: bool
  interface :: "ma35_interface option"

record 'w ma35_sys =
  drm_dev :: "'w ma35_dev"
  mode_cfg :: mode_config
  itf_sys :: interface_sys
  drvdata :: "ma35_drm option"
  dcuclk_on :: bool
  dcupclk_on :: bool
  irq_requested :: bool
  registered :: bool
  client_ready :: bool

record ma35_env =
  of_reserved_mem_device_init :: int
  devm_platform_ioremap_resource :: int
  devm_regmap_init_mmio :: int
  platform_get_irq :: int
  devm_drm_dev_alloc :: int
  devm_clk_get_bus :: int
  devm_clk_get_pixel :: int
  devm_request_irq :: int
  drmm_mode_config_init :: int
  vblank_alloc :: bool
  vblank_setup :: "nat \<Rightarrow> int"
  plane_alloc :: "drm_plane_type \<Rightarrow> bool"
  plane_register :: "drm_plane_type \<Rightarrow> int"
  crtc_alloc :: bool
  drm_crtc_init_with_planes :: "drm_plane \<Rightarrow> drm_plane option \<Rightarrow> int"
  drm_mode_crtc_set_gamma_size :: int
  interface_calls :: interface_env
  drm_dev_register :: int

section \<open>Dumb buffers\<close>

definition ma35_drm_gem_dma_dumb_create :: "'w gem_api \<Rightarrow> u64 \<Rightarrow> mode_config \<Rightarrow> 'w dumb_create_fn" where
  "ma35_drm_gem_dma_dumb_create g PAGE_SIZE mc args w =
     (if cd_width args < word_of_int (min_width mc) \<or> cd_height args < word_of_int (min_height mc) then (- EINVAL, args, w)
      else
        let pixel_align = MA35_DISPLAY_ALIGN_PIXELS * cd_bpp args div 8;
            args = args\<lparr>cd_pitch := ALIGN (cd_width args * cd_bpp args div 8) pixel_align\<rparr>
        in drm_gem_dma_dumb_create_internal g PAGE_SIZE args w)"

section \<open>Interrupts and modes\<close>

text \<open>Whether the interrupt was handled; \<open>None\<close> is the access through a CRTC that has no device yet.\<close>

definition ma35_drm_irq_handler ::
    "'w ma35_hw vblank_env \<Rightarrow> 'w regmap_api \<Rightarrow> ma35_drm \<Rightarrow> 'w ma35_dev \<Rightarrow> (bool \<times> 'w ma35_dev) option" where
  "ma35_drm_irq_handler env rm priv dev =
     (let (stat, b) = regmap_read rm (board (hw dev)) MA35_INT_STATE;
          dev = dev\<lparr>hw := (hw dev)\<lparr>board := b\<rparr>\<rparr>
      in if stat AND MA35_INT_STATE_DISP0 \<noteq> 0 then
           if crtc priv \<noteq> None \<and> \<not> crtc_has_dev priv then None
           else Some (True, ma35_crtc_vblank_handler env (crtc priv) dev)
         else Some (False, dev))"

definition ma35_mode_init :: "ma35_env \<Rightarrow> 'w ma35_sys \<Rightarrow> int \<times> 'w ma35_sys" where
  "ma35_mode_init env s =
     (if drmm_mode_config_init env \<noteq> 0 then (drmm_mode_config_init env, s)
      else
        let dev = (drm_dev s)\<lparr>max_vblank_count := MA35_DEBUG_COUNTER_MASK\<rparr>;
            (ret, dev) = drm_vblank_init (vblank_alloc env) (vblank_setup env) 1 dev;
            s = s\<lparr>drm_dev := dev\<rparr>
        in if ret \<noteq> 0 then (ret, s)
           else (0, s\<lparr>mode_cfg := (mode_cfg s)\<lparr>min_width := 32, max_width := 1920, min_height := 1, max_height := 1080,
                  preferred_depth := 24, cursor_width := MA35_CURSOR_WIDTH, cursor_height := MA35_CURSOR_HEIGHT\<rparr>\<rparr>))"

text \<open>
  \<open>drm_mode_config_reset\<close> gives every plane, the CRTC and the connector a fresh state, which is not part of \<open>ma35_sys\<close>, and
  resets the vertical blanking of the CRTC, pipe 0.
\<close>

definition drm_mode_config_reset :: "'w ma35_dev \<Rightarrow> 'w ma35_dev" where
  "drm_mode_config_reset dev = (if num_crtcs dev \<noteq> 0 then drm_crtc_vblank_reset MA35_DEFAULT_CRTC_ID dev else dev)"

section \<open>The platform driver\<close>

text \<open>Whether \<open>ma35_crtc_init\<close> gets as far as registering the CRTC with the device.\<close>

definition ma35_crtc_registers :: "ma35_env \<Rightarrow> ma35_layer list \<Rightarrow> bool" where
  "ma35_crtc_registers env layers \<longleftrightarrow> crtc_alloc env \<and> (case ma35_layer_get_from_type layers DRM_PLANE_TYPE_PRIMARY of
     None \<Rightarrow> False
   | Some l \<Rightarrow> drm_crtc_init_with_planes env (lay_plane l)
       (map_option lay_plane (ma35_layer_get_from_type layers DRM_PLANE_TYPE_CURSOR)) = 0)"

text \<open>The part of the probe after the interrupt is requested.\<close>

definition ma35_probe_kms :: "ma35_env \<Rightarrow> 'w ma35_sys \<Rightarrow> int \<times> ma35_drm \<times> 'w ma35_sys" where
  "ma35_probe_kms env s =
     (let priv = \<lparr>layers_list = [], crtc = None, crtc_has_dev = False, interface = None\<rparr>;
          (ret, s) = ma35_mode_init env s
      in if ret \<noteq> 0 then (ret, priv, s)
         else
           let (ret, layers) = ma35_plane_init (plane_alloc env) (plane_register env) (layers_list priv);
               priv = priv\<lparr>layers_list := layers\<rparr>
           in if ret \<noteq> 0 then (ret, priv, s)
              else
                let (ret, c, counter, layers) = ma35_crtc_init (crtc_alloc env) (drm_crtc_init_with_planes env)
                      (drm_mode_crtc_set_gamma_size env) layers (vblank_counter (hw (drm_dev s)));
                    priv = priv\<lparr>crtc := c, crtc_has_dev := ma35_crtc_registers env (layers_list priv), layers_list := layers\<rparr>;
                    s = s\<lparr>drm_dev := (drm_dev s)\<lparr>hw := (hw (drm_dev s))\<lparr>vblank_counter := counter\<rparr>\<rparr>\<rparr>
                in if ret \<noteq> 0 then (ret, priv, s)
                   else
                     let (ret, itf, isys) = ma35_interface_init (interface_calls env) MA35_DEFAULT_CRTC_ID (itf_sys s);
                         priv = priv\<lparr>interface := itf\<rparr>;
                         s = s\<lparr>itf_sys := isys\<rparr>
                     in if ret \<noteq> 0 then (ret, priv, s)
                        else
                          let s = s\<lparr>drm_dev := drm_mode_config_reset (drm_dev s)\<rparr>
                          in if drm_dev_register env \<noteq> 0 then (drm_dev_register env, priv, s)
                             else (0, priv, s\<lparr>registered := True, client_ready := True\<rparr>))"

definition ma35_drm_probe :: "ma35_env \<Rightarrow> 'w ma35_sys \<Rightarrow> int \<times> 'w ma35_sys" where
  "ma35_drm_probe env s =
     (if of_reserved_mem_device_init env \<noteq> 0 \<and> of_reserved_mem_device_init env \<noteq> - ENODEV
      then (of_reserved_mem_device_init env, s)
      else if devm_platform_ioremap_resource env \<noteq> 0 then (devm_platform_ioremap_resource env, s)
      else if devm_regmap_init_mmio env \<noteq> 0 then (devm_regmap_init_mmio env, s)
      else if platform_get_irq env < 0 then (platform_get_irq env, s)
      else if devm_drm_dev_alloc env \<noteq> 0 then (devm_drm_dev_alloc env, s)
      else
        let s = s\<lparr>drvdata := Some \<lparr>layers_list = [], crtc = None, crtc_has_dev = False, interface = None\<rparr>\<rparr>
        in if devm_clk_get_bus env \<noteq> 0 then (devm_clk_get_bus env, s)
           else
             let s = s\<lparr>dcuclk_on := True\<rparr>
             in if devm_clk_get_pixel env \<noteq> 0 then (devm_clk_get_pixel env, s)
                else
                  let s = s\<lparr>dcupclk_on := True\<rparr>
                  in if devm_request_irq env \<noteq> 0 then (devm_request_irq env, s)
                     else
                       let (ret, priv, s) = ma35_probe_kms env (s\<lparr>irq_requested := True\<rparr>)
                       in (ret, s\<lparr>drvdata := Some priv\<rparr>))"

text \<open>
  The atomic helper \<open>shutdown\<close> acts on the whole state; it is an argument.
\<close>

definition ma35_drm_remove :: "('w ma35_dev \<Rightarrow> 'w ma35_dev) \<Rightarrow> 'w ma35_sys \<Rightarrow> 'w ma35_sys" where
  "ma35_drm_remove drm_atomic_helper_shutdown s =
     (let s = s\<lparr>drm_dev := drm_atomic_helper_shutdown (drm_dev s)\<rparr>
      in s\<lparr>registered := False\<rparr>)"

definition ma35_drm_shutdown :: "('w ma35_dev \<Rightarrow> 'w ma35_dev) \<Rightarrow> 'w ma35_sys \<Rightarrow> 'w ma35_sys" where
  "ma35_drm_shutdown drm_atomic_helper_shutdown s = s\<lparr>drm_dev := drm_atomic_helper_shutdown (drm_dev s)\<rparr>"

text \<open>
  Suspend and resume go through \<open>drm_mode_config_helper_suspend\<close> and \<open>_resume\<close> (\<open>drm/drm_modeset_helper.c\<close>): the calls they
  make are the fields of \<open>pm_calls\<close> and act on a state \<open>'w\<close>; \<open>polled\<close>, the flag \<open>poll_enabled\<close>, and the saved state are those of the mode
  configuration.
\<close>

record ('w, 'st) pm_calls =
  drm_kms_helper_poll_disable :: "'w \<Rightarrow> 'w"
  drm_kms_helper_poll_enable :: "'w \<Rightarrow> 'w"
  drm_client_dev_suspend :: "'w \<Rightarrow> 'w"
  drm_client_dev_resume :: "'w \<Rightarrow> 'w"
  drm_atomic_helper_suspend :: "'w \<Rightarrow> (int + 'st) \<times> 'w"
  drm_atomic_helper_resume :: "'st \<Rightarrow> 'w \<Rightarrow> int \<times> 'w"

definition drm_mode_config_helper_suspend ::
    "('w, 'st) pm_calls \<Rightarrow> bool \<Rightarrow> 'st option \<Rightarrow> 'w \<Rightarrow> int \<times> 'st option \<times> 'w" where
  "drm_mode_config_helper_suspend c polled suspend_state w =
     (let w = (if polled then drm_kms_helper_poll_disable c w else w);
          w = drm_client_dev_suspend c w;
          (st, w) = drm_atomic_helper_suspend c w
      in case st of
           Inl err \<Rightarrow>
             let w = drm_client_dev_resume c w;
                 w = (if polled then drm_kms_helper_poll_enable c w else w)
             in (err, suspend_state, w)
         | Inr st \<Rightarrow> (0, Some st, w))"

definition drm_mode_config_helper_resume ::
    "('w, 'st) pm_calls \<Rightarrow> bool \<Rightarrow> 'st option \<Rightarrow> 'w \<Rightarrow> int \<times> 'st option \<times> 'w" where
  "drm_mode_config_helper_resume c polled suspend_state w =
     (case suspend_state of
        None \<Rightarrow> (- EINVAL, None, w)
      | Some st \<Rightarrow>
        let (ret, w) = drm_atomic_helper_resume c st w;
            w = drm_client_dev_resume c w;
            w = (if polled then drm_kms_helper_poll_enable c w else w)
        in (ret, None, w))"

definition ma35_drm_suspend :: "('w, 'st) pm_calls \<Rightarrow> bool \<Rightarrow> 'st option \<Rightarrow> 'w \<Rightarrow> int \<times> 'st option \<times> 'w" where
  "ma35_drm_suspend c polled suspend_state w = drm_mode_config_helper_suspend c polled suspend_state w"

definition ma35_drm_resume :: "('w, 'st) pm_calls \<Rightarrow> bool \<Rightarrow> 'st option \<Rightarrow> 'w \<Rightarrow> int \<times> 'st option \<times> 'w" where
  "ma35_drm_resume c polled suspend_state w = drm_mode_config_helper_resume c polled suspend_state w"

text \<open>
  A suspend that fails switches the clients and the polling it switched off on again and saves nothing; after one that
  succeeds, resume hands the saved state to the atomic helper, switches both on whatever that returns and forgets the state,
  so that a second resume is an error.
\<close>

lemma ma35_suspend_resume:
  defines "on c pe w \<equiv> (let w = drm_client_dev_resume c w in if pe then drm_kms_helper_poll_enable c w else w)"
  assumes s: "ma35_drm_suspend c pe ss w = (ret, ss1, w1)"
    and a: "drm_atomic_helper_suspend c (drm_client_dev_suspend c (if pe then drm_kms_helper_poll_disable c w else w)) = (x, w0)"
  shows "x = Inl e \<Longrightarrow> ret = e \<and> ss1 = ss \<and> w1 = on c pe w0"
    and "x = Inr st \<Longrightarrow> ret = 0 \<and> drm_atomic_helper_resume c st w1 = (r, w2) \<Longrightarrow>
      ma35_drm_resume c pe ss1 w1 = (r, None, on c pe w2) \<and> fst (ma35_drm_resume c pe None w2) = - EINVAL"
  using s a by (auto simp: ma35_drm_suspend_def drm_mode_config_helper_suspend_def ma35_drm_resume_def
      drm_mode_config_helper_resume_def on_def Let_def)

section \<open>Properties of dumb buffers\<close>

lemma ALIGN_small:
  assumes "k < 32" "0 < uint x" "uint x + 2 ^ k \<le> 2 ^ 32"
  shows "ALIGN x (2 ^ k) \<noteq> 0"
proof -
  let ?m = "mask k :: u32"
  have a: "ALIGN x (2 ^ k) = (x + ?m) AND NOT ?m" by (simp add: ALIGN_def mask_eq_exp_minus_1)
  have k32: "(2 :: int) ^ k \<le> 2 ^ 31" using assms(1) by (intro power_increasing) auto
  have "?m = word_of_int (2 ^ k - 1)" by (simp add: mask_eq_exp_minus_1)
  then have "uint ?m = (2 ^ k - 1) mod 2 ^ 32" by (simp only: uint_word_of_int) simp
  then have m: "uint ?m = 2 ^ k - 1" using k32 by simp
  have s: "uint (x + ?m) = uint x + 2 ^ k - 1" using m assms(3) uint_add_lem [of x ?m] by simp
  have "1 \<le> (uint x + 2 ^ k - 1) div 2 ^ k" using assms(2) zdiv_mono1 [of "2 ^ k" "uint x + 2 ^ k - 1" "2 ^ k"] by simp
  then have "0 < (uint x + 2 ^ k - 1) div 2 ^ k * 2 ^ k" by simp
  then have "uint (ALIGN x (2 ^ k)) \<noteq> 0" unfolding a and_not_mask s by linarith
  then show ?thesis by auto
qed

text \<open>The pitch for a pixel size that is a power of two and sizes up to 8192.\<close>

lemma ma35_pitch:
  assumes "bpp \<in> {8, 16, 32 :: u32}" "0 < uint x" "uint x \<le> 8192"
  defines "p \<equiv> ALIGN (x * bpp div 8) (MA35_DISPLAY_ALIGN_PIXELS * bpp div 8)"
  shows "4 * uint bpp dvd uint p" "uint x * uint bpp \<le> 8 * uint p" "uint p \<le> 65536" "0 < uint p"
    "\<not> p < DIV_ROUND_UP (x * bpp) 8"
proof -
  obtain j where j: "j \<in> {3, 4, 5 :: nat}" and b: "bpp = 2 ^ j"
  proof -
    from assms(1) consider "bpp = 8" | "bpp = 16" | "bpp = 32" by auto
    then show thesis
    proof cases
      case 1
      then show thesis using that [of 3] by simp
    next
      case 2
      then show thesis using that [of 4] by simp
    next
      case 3
      then show thesis using that [of 5] by simp
    qed
  qed
  have bu: "uint bpp = 2 ^ j" using j b by auto
  have al: "MA35_DISPLAY_ALIGN_PIXELS * bpp div 8 = 2 ^ (j + 2)" using assms(1) j b by (auto simp: MA35_DISPLAY_ALIGN_PIXELS_def)
  have m: "uint x * uint bpp \<le> 8192 * 32" using assms(1,3) by (intro mult_mono) auto
  have xb: "uint (x * bpp) = uint x * uint bpp" using m uint_mult_lem [of x bpp] by simp
  have d: "uint (x * bpp div 8) = uint x * uint bpp div 8" by (simp add: uint_div_distrib xb)
  have e8: "8 * (uint x * uint bpp div 8) = uint x * uint bpp" using j bu by auto
  have pos: "0 < uint (x * bpp div 8)" unfolding d using e8 assms(2) bu by (smt (verit) mult_pos_pos zero_less_power)
  have j2: "j + 2 < 32" "(2 :: int) ^ (j + 2) \<le> 128" using j by auto
  have le: "uint (x * bpp div 8) \<le> 8192 * 4" unfolding d using m by linarith
  have nz: "ALIGN (x * bpp div 8) (2 ^ (j + 2)) \<noteq> 0" using pos le j2 by (intro ALIGN_small) auto
  note a = ALIGN_pow2 [OF j2(1) nz]
  have p: "p = ALIGN (x * bpp div 8) (2 ^ (j + 2))" unfolding p_def al by (rule refl)
  show "4 * uint bpp dvd uint p" unfolding p bu using a(2) by (simp add: power_add mult.commute)
  show g: "uint x * uint bpp \<le> 8 * uint p" unfolding p using a(1) d e8 by linarith
  show "uint p \<le> 65536" unfolding p using a(3) le j2(2) by linarith
  show "0 < uint p" unfolding p using a(1) pos by linarith
  have "uint (x * bpp + 8 - 1) = uint x * uint bpp + 7"
  proof -
    have "x * bpp + 8 - 1 = x * bpp + 7" by simp
    moreover have "uint (x * bpp + 7) = uint x * uint bpp + 7" using xb m uint_add_lem [of "x * bpp" 7] by simp
    ultimately show ?thesis by (simp only:)
  qed
  then have "uint (DIV_ROUND_UP (x * bpp) 8) = (uint x * uint bpp + 7) div 8" by (simp add: DIV_ROUND_UP_def uint_div_distrib)
  then show "\<not> p < DIV_ROUND_UP (x * bpp) 8" unfolding word_less_def using g e8 by linarith
qed

context gem_laws
begin

lemma ma35_dumb_create:
  assumes k: "k < 32" and req: "cd_bpp args = bpp" "cd_width args = x" "cd_height args = y"
    and b: "bpp \<in> {8, 16, 32}" and lim: "0 < uint x" "uint x \<le> 8192" "0 < uint y" "uint y \<le> 8192" "cd_size args = 0"
    and r: "ma35_drm_gem_dma_dumb_create g (2 ^ k) mc args w = (e, args', w')"
  shows "if e = 0
    then 4 * uint bpp dvd uint (cd_pitch args') \<and> uint x * uint bpp \<le> 8 * uint (cd_pitch args') \<and>
      uint (cd_size args') = uint (cd_pitch args') * uint y \<and>
      (\<exists>obj. refs w obj = 0 \<and> refs w' = (refs w)(obj := 1) \<and> handles w' = (handles w)(cd_handle args' \<mapsto> obj) \<and>
         uint (cd_size args') \<le> uint (osize w' obj))
    else refs w' = refs w \<and> handles w' = handles w"
proof -
  let ?p = "ALIGN (x * bpp div 8) (MA35_DISPLAY_ALIGN_PIXELS * bpp div 8)"
  note p = ma35_pitch [OF b lim(1,2)]
  let ?s = "?p * y"
  have "uint ?p * uint y \<le> 65536 * 8192" using p(3) lim(4) by (intro mult_mono) auto
  then have s: "uint ?s = uint ?p * uint y" "uint ?s < 2 ^ 32" using uint_mult_lem [of ?p "y"] by simp_all
  then have s0: "0 < uint ?s" using p(4) lim(3) by simp
  let ?args = "args\<lparr>cd_pitch := ?p, cd_size := ucast ?s\<rparr>"
  obtain h w1 where h: "drm_gem_dma_create_with_handle g (2 ^ k) (ucast ?s) w = (h, w1)" by fastforce
  have us: "uint (ucast ?s :: u64) = uint ?s" by (rule uint_ucast_up)
  have lt: "cd_size args < ucast ?s" unfolding lim(5) word_less_def us using s0 by simp
  have int: "drm_gem_dma_dumb_create_internal g (2 ^ k) (args\<lparr>cd_pitch := ?p\<rparr>) w =
      (case h of Inl e \<Rightarrow> (e, ?args, w1) | Inr (obj, hh) \<Rightarrow> (0, ?args\<lparr>cd_handle := hh\<rparr>, w1))"
    using p(5) lt h req by (simp add: drm_gem_dma_dumb_create_internal_def Let_def split: sum.split)
  show ?thesis
  proof (cases "x < word_of_int (min_width mc) \<or> y < word_of_int (min_height mc)")
    case True
    then show ?thesis using r req by (auto simp: ma35_drm_gem_dma_dumb_create_def errno_defs)
  next
    case False
    then have r': "(case h of Inl e \<Rightarrow> (e, ?args, w1) | Inr (obj, hh) \<Rightarrow> (0, ?args\<lparr>cd_handle := hh\<rparr>, w1)) = (e, args', w')"
      using r int req by (simp add: ma35_drm_gem_dma_dumb_create_def Let_def)
    show ?thesis
    proof (cases h)
      case (Inl x)
      then show ?thesis using r' with_handle_fail [of "2 ^ k" "ucast ?s" w x w1] h by auto
    next
      case (Inr y)
      then obtain obj hh where y: "h = Inr (obj, hh)" by (cases y) auto
      note o = with_handle_ok [OF h [unfolded y]]
      have "uint (ucast ?s :: u64) \<le> uint (osize w1 obj)"
        unfolding o(3) using k s0 s(2) us by (intro round_up64_ge) auto
      then show ?thesis using r' y o(1,2,4) p(1,2) s(1) us by auto
    qed
  qed
qed

end



text \<open>
  Beyond these limits the 32-bit product of pitch and height can wrap: for 33 by 16777217 pixels the driver reports
  a buffer of 256 bytes.
\<close>

lemma ma35_dumb_create_wraps:
  "let args = \<lparr>cd_height = 16777217, cd_width = 33, cd_bpp = 32, cd_handle = 0, cd_pitch = 0, cd_size = 0\<rparr>;
       mc = \<lparr>min_width = 32, min_height = 1, max_width = 1920, max_height = 1080, cursor_width = 32, cursor_height = 32, preferred_depth = 24\<rparr>
   in case drm_mode_create_dumb_ioctl (2 ^ 12) (Some (ma35_drm_gem_dma_dumb_create count_gem (2 ^ 12) mc)) args gem_world_0 of
     (e, args', w') \<Rightarrow> e = 0 \<and> cd_pitch args' = 256 \<and> cd_size args' = 256"
  by code_simp

text \<open>For 24 bits per pixel the alignment is no power of two, and the pitch is not a multiple of 32 pixels.\<close>

lemma ma35_dumb_create_24bpp:
  "let args = \<lparr>cd_height = 1, cd_width = 32, cd_bpp = 24, cd_handle = 0, cd_pitch = 0, cd_size = 0\<rparr>;
       mc = \<lparr>min_width = 32, min_height = 1, max_width = 1920, max_height = 1080, cursor_width = 32, cursor_height = 32, preferred_depth = 24\<rparr>
   in case drm_mode_create_dumb_ioctl (2 ^ 12) (Some (ma35_drm_gem_dma_dumb_create count_gem (2 ^ 12) mc)) args gem_world_0 of
     (e, args', w') \<Rightarrow> e = 0 \<and> cd_pitch args' = 160 \<and> \<not> 96 dvd uint (cd_pitch args')"
  by code_simp

section \<open>Properties of the device\<close>

lemma mode_init_result:
  assumes "ma35_mode_init env s = (ret, s')"
  shows "ret = 0 \<Longrightarrow> drm_dev s' = (drm_dev s)\<lparr>max_vblank_count := MA35_DEBUG_COUNTER_MASK, vblank := [vblank_zero]\<rparr>"
    "ret = 0 \<Longrightarrow> min_width (mode_cfg s') = 32 \<and> max_width (mode_cfg s') = 1920 \<and> min_height (mode_cfg s') = 1 \<and>
      max_height (mode_cfg s') = 1080"
    "registered s' = registered s" "client_ready s' = client_ready s" "irq_requested s' = irq_requested s"
    "dcuclk_on s' = dcuclk_on s" "dcupclk_on s' = dcupclk_on s" "itf_sys s' = itf_sys s"
  using assms by (auto simp: ma35_mode_init_def drm_vblank_init_def errno_defs Let_def split: if_splits prod.splits)

lemma crtc_init_result:
  assumes "ma35_crtc_init (crtc_alloc env) (drm_crtc_init_with_planes env) gr layers n = (ret, c, n', layers')" "ret = 0"
  shows "c \<noteq> None" "n' = 0" "ma35_crtc_registers env layers"
  using assms by (auto simp: ma35_crtc_init_def ma35_crtc_registers_def ma35_crtc_create_properties_def Let_def errno_defs
      split: if_splits option.splits)

lemma probe_kms_ok:
  assumes "ma35_probe_kms env s = (0, priv, s')"
  shows "\<exists>c. crtc priv = Some c" "crtc_has_dev priv" "registered s'" "client_ready s'"
    "drm_dev s' = drm_mode_config_reset ((drm_dev s)\<lparr>max_vblank_count := MA35_DEBUG_COUNTER_MASK, vblank := [vblank_zero],
       hw := (hw (drm_dev s))\<lparr>vblank_counter := 0\<rparr>\<rparr>)"
    "min_width (mode_cfg s') = 32 \<and> max_width (mode_cfg s') = 1920 \<and> min_height (mode_cfg s') = 1 \<and> max_height (mode_cfg s') = 1080"
    "\<exists>isys. ma35_interface_init (interface_calls env) MA35_DEFAULT_CRTC_ID (itf_sys s) = (0, interface priv, isys) \<and> itf_sys s' = isys"
    "irq_requested s' = irq_requested s" "dcuclk_on s' = dcuclk_on s" "dcupclk_on s' = dcupclk_on s"
proof -
  obtain r1 s1 where 1: "ma35_mode_init env s = (r1, s1)" by (cases "ma35_mode_init env s")
  obtain r2 ls where 2: "ma35_plane_init (plane_alloc env) (plane_register env) [] = (r2, ls)"
    by (cases "ma35_plane_init (plane_alloc env) (plane_register env) []")
  obtain r3 c n ls3 where 3: "ma35_crtc_init (crtc_alloc env) (drm_crtc_init_with_planes env) (drm_mode_crtc_set_gamma_size env) ls
      (vblank_counter (hw (drm_dev s1))) = (r3, c, n, ls3)"
    by (cases "ma35_crtc_init (crtc_alloc env) (drm_crtc_init_with_planes env) (drm_mode_crtc_set_gamma_size env) ls
      (vblank_counter (hw (drm_dev s1)))")
  obtain r4 itf isys where 4: "ma35_interface_init (interface_calls env) MA35_DEFAULT_CRTC_ID (itf_sys s1) = (r4, itf, isys)"
    by (cases "ma35_interface_init (interface_calls env) MA35_DEFAULT_CRTC_ID (itf_sys s1)")
  have z: "r1 = 0" "r2 = 0" "r3 = 0" "r4 = 0" "drm_dev_register env = 0"
    and priv: "priv = \<lparr>layers_list = ls3, crtc = c, crtc_has_dev = ma35_crtc_registers env ls, interface = itf\<rparr>"
    and s': "s' = s1\<lparr>drm_dev := (drm_dev s1)\<lparr>hw := (hw (drm_dev s1))\<lparr>vblank_counter := n\<rparr>\<rparr>, itf_sys := isys,
        drm_dev := drm_mode_config_reset ((drm_dev s1)\<lparr>hw := (hw (drm_dev s1))\<lparr>vblank_counter := n\<rparr>\<rparr>), registered := True, client_ready := True\<rparr>"
    using assms 1 2 3 4 by (auto simp: ma35_probe_kms_def Let_def split: if_splits)
  note m = mode_init_result [OF 1] and k = crtc_init_result [OF 3 z(3)]
  show "\<exists>c. crtc priv = Some c" "crtc_has_dev priv" using k priv by auto
  show "registered s'" "client_ready s'" using s' by simp_all
  show "drm_dev s' = drm_mode_config_reset ((drm_dev s)\<lparr>max_vblank_count := MA35_DEBUG_COUNTER_MASK, vblank := [vblank_zero],
       hw := (hw (drm_dev s))\<lparr>vblank_counter := 0\<rparr>\<rparr>)" using s' m(1) [OF z(1)] k(2) by simp
  show "min_width (mode_cfg s') = 32 \<and> max_width (mode_cfg s') = 1920 \<and> min_height (mode_cfg s') = 1 \<and> max_height (mode_cfg s') = 1080"
    using s' m(2) [OF z(1)] by simp
  show "\<exists>isys. ma35_interface_init (interface_calls env) MA35_DEFAULT_CRTC_ID (itf_sys s) = (0, interface priv, isys) \<and> itf_sys s' = isys"
    using s' priv 4 z(4) m(8) by simp
  show "irq_requested s' = irq_requested s" "dcuclk_on s' = dcuclk_on s" "dcupclk_on s' = dcupclk_on s" using s' m by simp_all
qed

lemma probe_kms_fail:
  assumes "ma35_probe_kms env s = (ret, priv, s')" "ret \<noteq> 0"
  shows "registered s' = registered s" "client_ready s' = client_ready s"
  using assms mode_init_result(3,4) [of env s]
  by (auto simp: ma35_probe_kms_def Let_def split: if_splits prod.splits)

lemma probe_cases:
  assumes "ma35_drm_probe env s = (ret, s')"
  obtains (early) "ret \<noteq> 0" "registered s' = registered s" "client_ready s' = client_ready s" "irq_requested s' = irq_requested s"
  | (kms) priv s1 where "ma35_probe_kms env (s\<lparr>drvdata := Some \<lparr>layers_list = [], crtc = None, crtc_has_dev = False, interface = None\<rparr>,
        dcuclk_on := True, dcupclk_on := True, irq_requested := True\<rparr>) = (ret, priv, s1)" "s' = s1\<lparr>drvdata := Some priv\<rparr>"
proof -
  let ?s = "s\<lparr>drvdata := Some \<lparr>layers_list = [], crtc = None, crtc_has_dev = False, interface = None\<rparr>,
        dcuclk_on := True, dcupclk_on := True, irq_requested := True\<rparr>"
  obtain r priv s1 where k: "ma35_probe_kms env ?s = (r, priv, s1)" by (cases "ma35_probe_kms env ?s")
  show thesis
    using assms k early kms [of priv s1]
    by (auto simp: ma35_drm_probe_def Let_def split: if_splits)
qed

text \<open>A probed device is in the state the vertical blanking core starts from.\<close>

lemma vblank_inv_init:
  fixes m :: u32 and h :: "'w ma35_hw" and dev :: "'w ma35_dev"
  assumes "vblank_event_list dev = []"
  defines "d \<equiv> dev\<lparr>max_vblank_count := m, vblank := [vblank_zero], hw := h\<rparr>"
  shows "vblank_inv (\<lambda>_. 0) (drm_mode_config_reset d)" "hw (drm_mode_config_reset d) = h"
    "num_crtcs (drm_mode_config_reset d) = 1" "max_vblank_count (drm_mode_config_reset d) = m"
proof -
  have 0: "vblank_inv (\<lambda>_. 0) d" using assms by (simp add: vblank_inv_def crtc_ok_def pending_on_def vblank_zero_def)
  then show "vblank_inv (\<lambda>_. 0) (drm_mode_config_reset d)"
    by (auto simp: drm_mode_config_reset_def drm_crtc_vblank_reset_def MA35_DEFAULT_CRTC_ID_def d_def vblank_zero_def
        intro!: enter_modeset_inv)
  show "hw (drm_mode_config_reset d) = h" "num_crtcs (drm_mode_config_reset d) = 1" "max_vblank_count (drm_mode_config_reset d) = m"
    by (simp_all add: drm_mode_config_reset_def drm_crtc_vblank_reset_def enter_modeset_def d_def upd_vblank_def MA35_DEFAULT_CRTC_ID_def)
qed


definition ma35_env_0 :: ma35_env where
  "ma35_env_0 = \<lparr>of_reserved_mem_device_init = - ENODEV, devm_platform_ioremap_resource = 0, devm_regmap_init_mmio = 0,
     platform_get_irq = 42, devm_drm_dev_alloc = 0, devm_clk_get_bus = 0, devm_clk_get_pixel = 0, devm_request_irq = 0,
     drmm_mode_config_init = 0, vblank_alloc = True, vblank_setup = (\<lambda>_. 0), plane_alloc = (\<lambda>_. True), plane_register = (\<lambda>_. 0),
     crtc_alloc = True, drm_crtc_init_with_planes = (\<lambda>_ _. 0), drm_mode_crtc_set_gamma_size = 0,
     interface_calls = \<lparr>drmm_simple_encoder_alloc = 0, drm_of_find_panel_or_bridge = Inr (Some 3, None),
       drm_panel_bridge_add_typed = (\<lambda>p. Inr (p + 10)), drm_bridge_attach = (\<lambda>_. 0), drmm_connector_init = 0,
       drm_connector_attach_encoder = 0\<rparr>,
     drm_dev_register = 0\<rparr>"

definition ma35_sys_0 :: "board ma35_sys" where
  "ma35_sys_0 = \<lparr>drm_dev = \<lparr>hw = \<lparr>board = board_init, vblank_counter = 5\<rparr>, vblank = [], max_vblank_count = 0,
       vblank_disable_immediate = False, vblank_event_list = [], crtc_event = (\<lambda>_. None), delivered = [], work_queue = []\<rparr>,
     mode_cfg = \<lparr>min_width = 0, min_height = 0, max_width = 0, max_height = 0, cursor_width = 0, cursor_height = 0, preferred_depth = 0\<rparr>,
     itf_sys = \<lparr>panel_bridges = {}, attached_bridge = None, connector_ready = False, connector_linked = False\<rparr>,
     drvdata = None, dcuclk_on = False, dcupclk_on = False, irq_requested = False, registered = False, client_ready = False\<rparr>"


text \<open>
  The interrupt is requested before the CRTC is set up, and the CRTC is published before it is registered: when registering it
  fails, an interrupt that comes before the driver core releases the handler follows the null pointer to its device.
\<close>

lemma ma35_irq_during_failed_probe:
  assumes "ma35_plane_init (plane_alloc env) (plane_register env) [] = (0, layers)" "ma35_mode_init env s = (0, s1)"
    and "crtc_alloc env" "\<And>p c. drm_crtc_init_with_planes env p c \<noteq> 0"
    and "fst (regmap_read rm (board (hw dev)) MA35_INT_STATE) AND MA35_INT_STATE_DISP0 \<noteq> 0"
  shows "fst (ma35_probe_kms env s) \<noteq> 0" "ma35_drm_irq_handler venv rm (fst (snd (ma35_probe_kms env s))) dev = None"
proof -
  obtain l where l: "ma35_layer_get_from_type layers DRM_PLANE_TYPE_PRIMARY = Some l"
    using ma35_plane_init_layers(3) [OF assms(1)] by auto
  let ?c = "map_option lay_plane (ma35_layer_get_from_type layers DRM_PLANE_TYPE_CURSOR)"
  have c: "ma35_crtc_init True (drm_crtc_init_with_planes env) gr layers n =
      (drm_crtc_init_with_planes env (lay_plane l) ?c, Some \<lparr>dpi_format = 0, dither_depth = 0, dither_enable = False\<rparr>, 0, layers)" for gr n
    using assms(4) l by (simp add: ma35_crtc_init_def Let_def)
  have r: "\<not> ma35_crtc_registers env layers" using l assms(4) by (simp add: ma35_crtc_registers_def)
  have "fst (ma35_probe_kms env s) \<noteq> 0 \<and> crtc (fst (snd (ma35_probe_kms env s))) \<noteq> None \<and>
      \<not> crtc_has_dev (fst (snd (ma35_probe_kms env s)))"
    using assms(1-4) c r by (simp add: ma35_probe_kms_def Let_def)
  then show "fst (ma35_probe_kms env s) \<noteq> 0" "ma35_drm_irq_handler venv rm (fst (snd (ma35_probe_kms env s))) dev = None"
    using assms(5) by (auto simp: ma35_drm_irq_handler_def Let_def split: prod.split)
qed


text \<open>The driver's hooks on top of the example environment, with the example's connector as the fallback.\<close>

definition ma35_limits :: mode_config where
  "ma35_limits = \<lparr>min_width = 32, min_height = 1, max_width = 1920, max_height = 1080, cursor_width = 32, cursor_height = 32,
     preferred_depth = 24\<rparr>"

definition ma35_raw_output :: ma35_interface where
  "ma35_raw_output = \<lparr>enc_possible_crtcs = drm_crtc_mask MA35_DEFAULT_CRTC_ID, drm_panel = None, drm_bridge = None, itf_bus_flags = {}\<rparr>"

abbreviation ma35_demo_probe :: "nat probe_env" where
  "ma35_demo_probe \<equiv> ma35_probe_env (demo_probe_env\<lparr>drm_dmt_modes := [demo_entry 48000 1024 768 {}, demo_entry 119000 1920 1080 {},
     demo_entry 190000 2560 1440 {}]\<rparr>) (\<lambda>_ c w. (0, c, w)) ma35_limits ma35_raw_output"

lemma ma35_demo_base:
  "probe_hooks (demo_probe_env\<lparr>drm_dmt_modes := [demo_entry 48000 1024 768 {}, demo_entry 119000 1920 1080 {},
     demo_entry 190000 2560 1440 {}]\<rparr>) id"
  by unfold_locales (auto simp: demo_probe_env_def mset_sort_by sorted_sort_by conn_frame_def capabilities_def EDEADLK_def split: if_splits)

interpretation ma35_probe: probe_hooks ma35_demo_probe id
  by (rule probe_hooks.ma35_hooks [OF ma35_demo_base]) simp

lemma ma35_probe_value:
  "map_option (\<lambda>(n, s'). (n, map (\<lambda>e. (hdisplay (dmode e), clock (dmode e), dtype e)) (modes (connector s'))))
     (drm_helper_probe_single_connector_modes ma35_demo_probe 2048 2048 demo_connector) =
   Some (2, [(1920, 119000, {DRM_MODE_TYPE_PREFERRED}), (1024, 48000, {})])"
  by code_simp


end
