(* ===== verification/Drm_Bridge_Chain.thy ===== *)
theory Drm_Bridge_Chain
  imports Drm_Bus
begin

text \<open>
  The bridge chain of an encoder (\<open>drm/drm_bridge.c\<close>): the order in which the hooks of its bridges
  run when a pipeline is switched on and off, and the negotiation of the bus format between the bridges.

  A chain is the list of the bridges from the one closest to the encoder to the last; a bridge is named
  by its position. The hooks are fields of a record: whether an enabling hook exists (its call is then
  an element of the list of calls the chain function makes), and the functions the negotiation calls.
  A format hook sees the state of its bridge, the states of the CRTC and of the connector (the
  parameter \<open>'cs\<close>) and the wanted output format and returns an array, which can be missing, and the
  number of its elements.
\<close>

section \<open>Chains and hooks\<close>

type_synonym bus_fmts = "media_bus_fmt list option \<times> nat"

record 'cs drm_bridge =
  pre_enable_prev_first :: bool
  has_mode_set :: bool
  has_atomic_pre_enable :: bool
  has_pre_enable :: bool
  has_atomic_enable :: bool
  has_enable :: bool
  has_atomic_disable :: bool
  has_disable :: bool
  has_atomic_post_disable :: bool
  has_post_disable :: bool
  atomic_get_input_bus_fmts :: "(drm_bridge_state \<Rightarrow> 'cs \<Rightarrow> media_bus_fmt \<Rightarrow> bus_fmts) option"
  atomic_get_output_bus_fmts :: "(drm_bridge_state \<Rightarrow> 'cs \<Rightarrow> bus_fmts) option"
  bridge_atomic_check :: "(drm_bridge_state \<Rightarrow> 'cs \<Rightarrow> int \<times> drm_bridge_state \<times> 'cs) option"
  bridge_mode_fixup :: "('cs \<Rightarrow> bool \<times> 'cs) option"

type_synonym 'cs bridge_chain = "'cs drm_bridge list"

datatype bridge_call = B_mode_set nat
  | B_atomic_pre_enable nat | B_pre_enable nat | B_atomic_enable nat | B_enable nat
  | B_atomic_disable nat | B_disable nat | B_atomic_post_disable nat | B_post_disable nat

section \<open>Enabling and disabling a chain\<close>

definition drm_bridge_chain_mode_set :: "'cs bridge_chain \<Rightarrow> bridge_call list" where
  "drm_bridge_chain_mode_set c =
     concat (map (\<lambda>i. if has_mode_set (c ! i) then [B_mode_set i] else []) [0..<length c])"

definition drm_atomic_bridge_chain_disable :: "'cs bridge_chain \<Rightarrow> bridge_call list" where
  "drm_atomic_bridge_chain_disable c =
     concat (map (\<lambda>i. if has_atomic_disable (c ! i) then [B_atomic_disable i]
                      else if has_disable (c ! i) then [B_disable i] else []) (rev [0..<length c]))"

definition drm_atomic_bridge_chain_enable :: "'cs bridge_chain \<Rightarrow> bridge_call list" where
  "drm_atomic_bridge_chain_enable c =
     concat (map (\<lambda>i. if has_atomic_enable (c ! i) then [B_atomic_enable i]
                      else if has_enable (c ! i) then [B_enable i] else []) [0..<length c])"

text \<open>The flag says whether there is a commit (\<open>state\<close> is not null).\<close>

definition drm_atomic_bridge_call_post_disable :: "bool \<Rightarrow> 'cs bridge_chain \<Rightarrow> nat \<Rightarrow> bridge_call list" where
  "drm_atomic_bridge_call_post_disable state c i =
     (if state \<and> has_atomic_post_disable (c ! i) then [B_atomic_post_disable i]
      else if has_post_disable (c ! i) then [B_post_disable i] else [])"

definition drm_atomic_bridge_call_pre_enable :: "bool \<Rightarrow> 'cs bridge_chain \<Rightarrow> nat \<Rightarrow> bridge_call list" where
  "drm_atomic_bridge_call_pre_enable state c i =
     (if state \<and> has_atomic_pre_enable (c ! i) then [B_atomic_pre_enable i]
      else if has_pre_enable (c ! i) then [B_pre_enable i] else [])"

text \<open>
  The search for the last bridge of the run that asks for its predecessor first, and the loop over the
  chain: a run is called backwards and then jumped over.
\<close>

function post_disable_limit :: "'cs bridge_chain \<Rightarrow> nat \<Rightarrow> nat" where
  "post_disable_limit c next =
     (if \<not> pre_enable_prev_first (c ! next) then next - 1
      else if Suc next \<ge> length c then next
      else post_disable_limit c (Suc next))"
  by pat_completeness auto
termination by (relation "measure (\<lambda>(c, n). length c - n)") auto

declare post_disable_limit.simps [simp del]

lemma post_disable_limit_ge: "next - 1 \<le> post_disable_limit c next"
  by (induction c "next" rule: post_disable_limit.induct) (subst post_disable_limit.simps, auto)

function post_disable_loop :: "(nat \<Rightarrow> 'a list) \<Rightarrow> 'cs bridge_chain \<Rightarrow> nat \<Rightarrow> 'a list" where
  "post_disable_loop call c bridge =
     (if bridge \<ge> length c then []
      else if Suc bridge < length c \<and> pre_enable_prev_first (c ! Suc bridge) then
        let limit = post_disable_limit c (Suc bridge)
        in concat (map call (rev [Suc bridge..<Suc limit])) @ call bridge @ post_disable_loop call c (Suc limit)
      else call bridge @ post_disable_loop call c (Suc bridge))"
  by pat_completeness auto
termination
proof (relation "measure (\<lambda>(_, c, n). length c - n)", goal_cases)
  case (2 call c bridge x)
  then show ?case using post_disable_limit_ge [of "Suc bridge" c] by auto
qed auto

declare post_disable_loop.simps [simp del]

definition drm_atomic_bridge_chain_post_disable :: "bool \<Rightarrow> 'cs bridge_chain \<Rightarrow> bridge_call list" where
  "drm_atomic_bridge_chain_post_disable state c =
     post_disable_loop (drm_atomic_bridge_call_post_disable state c) c 0"

text \<open>The same from the last bridge to the first: the first bridge of the run, and the loop.\<close>

fun pre_enable_limit :: "'cs bridge_chain \<Rightarrow> nat \<Rightarrow> nat" where
  "pre_enable_limit c 0 = 0"
| "pre_enable_limit c (Suc n) =
     (if \<not> pre_enable_prev_first (c ! Suc n) then Suc n else pre_enable_limit c n)"

lemma pre_enable_limit_le: "pre_enable_limit c n \<le> n"
  by (induction n) auto

function pre_enable_loop :: "(nat \<Rightarrow> 'a list) \<Rightarrow> 'cs bridge_chain \<Rightarrow> nat \<Rightarrow> 'a list" where
  "pre_enable_loop call c iter =
     (let limit = pre_enable_limit c iter;
          calls = (if pre_enable_prev_first (c ! iter) then concat (map call [limit..<iter]) else []) @ call iter;
          iter' = (if pre_enable_prev_first (c ! iter) then limit else iter)
      in if iter' = 0 then calls else calls @ pre_enable_loop call c (iter' - 1))"
  by pat_completeness auto
termination
proof (relation "measure (\<lambda>(_, c, n). n)", goal_cases)
  case (2 call c iter)
  then show ?case using pre_enable_limit_le [of c iter] by (auto split: if_splits)
qed simp

declare pre_enable_loop.simps [simp del]

definition drm_atomic_bridge_chain_pre_enable :: "bool \<Rightarrow> 'cs bridge_chain \<Rightarrow> bridge_call list" where
  "drm_atomic_bridge_chain_pre_enable state c =
     (if c = [] then [] else pre_enable_loop (drm_atomic_bridge_call_pre_enable state c) c (length c - 1))"

section \<open>Negotiation of the bus formats\<close>

definition ENOTSUPP :: int where "ENOTSUPP = 524"

type_synonym bridge_states = "nat \<Rightarrow> drm_bridge_state option"

definition set_bus_fmts :: "bridge_states \<Rightarrow> nat \<Rightarrow> media_bus_fmt \<Rightarrow> media_bus_fmt \<Rightarrow> bridge_states" where
  "set_bus_fmts st i inp out =
     (case st i of
        None \<Rightarrow> st
      | Some s \<Rightarrow> st(i := Some (s\<lparr>input_bus_cfg := (input_bus_cfg s)\<lparr>bus_format := inp\<rparr>,
                                output_bus_cfg := (output_bus_cfg s)\<lparr>bus_format := out\<rparr>\<rparr>)))"

text \<open>The loop over the formats of an array, left by the first result other than \<open>-ENOTSUPP\<close>.\<close>

fun try_fmts :: "(media_bus_fmt \<Rightarrow> 's \<Rightarrow> int \<times> 's) \<Rightarrow> media_bus_fmt list \<Rightarrow> int \<times> media_bus_fmt \<Rightarrow> 's \<Rightarrow>
    int \<times> media_bus_fmt \<times> 's" where
  "try_fmts sel [] (ret, f) s = (ret, f, s)"
| "try_fmts sel (f # fs) _ s =
     (let (ret, s) = sel f s in if ret \<noteq> - ENOTSUPP then (ret, f, s) else try_fmts sel fs (ret, f) s)"

fun select_bus_fmt_recursive ::
    "'cs bridge_chain \<Rightarrow> 'cs \<Rightarrow> nat \<Rightarrow> media_bus_fmt \<Rightarrow> bridge_states \<Rightarrow> int \<times> bridge_states" where
  "select_bus_fmt_recursive c cs cur out_bus_fmt st =
     (case atomic_get_input_bus_fmts (c ! cur) of
        None \<Rightarrow>
          (let (ret, st) = (if cur \<noteq> 0 then select_bus_fmt_recursive c cs (cur - 1) MEDIA_BUS_FMT_FIXED st else (0, st))
           in if ret \<noteq> 0 then (ret, st) else (0, set_bus_fmts st cur MEDIA_BUS_FMT_FIXED out_bus_fmt))
      | Some get_fmts \<Rightarrow>
          (case st cur of
             None \<Rightarrow> (- EINVAL, st)
           | Some cur_state \<Rightarrow>
               let (in_bus_fmts, num_in_bus_fmts) = get_fmts cur_state cs out_bus_fmt
               in if num_in_bus_fmts = 0 then (- ENOTSUPP, st)
                  else case in_bus_fmts of
                    None \<Rightarrow> (- ENOMEM, st)
                  | Some fmts \<Rightarrow>
                      if cur = 0 then (0, set_bus_fmts st cur (fmts ! 0) out_bus_fmt)
                      else
                        let (ret, f, st) = try_fmts (select_bus_fmt_recursive c cs (cur - 1))
                              (take num_in_bus_fmts fmts) (0, MEDIA_BUS_FMT_FIXED) st
                        in (ret, if ret = 0 then set_bus_fmts st cur f out_bus_fmt else st)))"

declare select_bus_fmt_recursive.simps [simp del]

text \<open>
  \<open>bus_formats\<close> are the formats of the display; \<open>alloc\<close> says whether the allocation of the single
  format succeeds.
\<close>

definition drm_atomic_bridge_chain_select_bus_fmts ::
    "'cs bridge_chain \<Rightarrow> 'cs \<Rightarrow> media_bus_fmt list \<Rightarrow> bool \<Rightarrow> bridge_states \<Rightarrow> int \<times> bridge_states" where
  "drm_atomic_bridge_chain_select_bus_fmts c cs bus_formats alloc st =
     (let last_bridge = length c - 1;
          try = (\<lambda>fmts. let (ret, _, st) = try_fmts (select_bus_fmt_recursive c cs last_bridge) fmts
                                           (0, MEDIA_BUS_FMT_FIXED) st in (ret, st))
      in case atomic_get_output_bus_fmts (c ! last_bridge) of
           Some get_fmts \<Rightarrow>
             (case st last_bridge of
                None \<Rightarrow> (- EINVAL, st)
              | Some last_bridge_state \<Rightarrow>
                  let (out_bus_fmts, num_out_bus_fmts) = get_fmts last_bridge_state cs
                  in if num_out_bus_fmts = 0 then (- ENOTSUPP, st)
                     else case out_bus_fmts of
                       None \<Rightarrow> (- ENOMEM, st)
                     | Some fmts \<Rightarrow> try (take num_out_bus_fmts fmts))
         | None \<Rightarrow>
             if \<not> alloc then (- ENOMEM, st)
             else try [if bus_formats \<noteq> [] then bus_formats ! 0 else MEDIA_BUS_FMT_FIXED])"

text \<open>
  The bus flags run from the display to the first bridge; then the bridges are checked, from the last
  to the first. \<open>conn_flags\<close> are the bus flags of the display.
\<close>

definition drm_atomic_bridge_propagate_bus_flags ::
    "'cs bridge_chain \<Rightarrow> bus_flag set \<Rightarrow> nat \<Rightarrow> bridge_states \<Rightarrow> bridge_states" where
  "drm_atomic_bridge_propagate_bus_flags c conn_flags i st =
     (case st i of
        None \<Rightarrow> st
      | Some s \<Rightarrow>
          let output_flags =
                (if Suc i \<ge> length c then conn_flags
                 else case st (Suc i) of None \<Rightarrow> {} | Some n \<Rightarrow> bus_flags (input_bus_cfg n))
          in st(i := Some (s\<lparr>input_bus_cfg := (input_bus_cfg s)\<lparr>bus_flags := output_flags\<rparr>,
                             output_bus_cfg := (output_bus_cfg s)\<lparr>bus_flags := output_flags\<rparr>\<rparr>)))"

definition drm_atomic_bridge_check ::
    "'cs bridge_chain \<Rightarrow> nat \<Rightarrow> bridge_states \<Rightarrow> 'cs \<Rightarrow> int \<times> bridge_states \<times> 'cs" where
  "drm_atomic_bridge_check c i st cs =
     (case bridge_atomic_check (c ! i) of
        Some check \<Rightarrow>
          (case st i of
             None \<Rightarrow> (- EINVAL, st, cs)
           | Some s \<Rightarrow> let (ret, s, cs) = check s cs in (ret, st(i := Some s), cs))
      | None \<Rightarrow>
          (case bridge_mode_fixup (c ! i) of
             Some fixup \<Rightarrow> let (ok, cs) = fixup cs in (if ok then 0 else - EINVAL, st, cs)
           | None \<Rightarrow> (0, st, cs)))"

text \<open>The loop, from bridge \<open>n - 1\<close> down to the first.\<close>

fun chain_check_loop ::
    "'cs bridge_chain \<Rightarrow> bus_flag set \<Rightarrow> nat \<Rightarrow> bridge_states \<Rightarrow> 'cs \<Rightarrow> int \<times> bridge_states \<times> 'cs" where
  "chain_check_loop c conn_flags 0 st cs = (0, st, cs)"
| "chain_check_loop c conn_flags (Suc iter) st cs =
     (let st = drm_atomic_bridge_propagate_bus_flags c conn_flags iter st;
          (ret, st, cs) = drm_atomic_bridge_check c iter st cs
      in if ret \<noteq> 0 then (ret, st, cs) else chain_check_loop c conn_flags iter st cs)"

definition drm_atomic_bridge_chain_check ::
    "'cs bridge_chain \<Rightarrow> 'cs \<Rightarrow> media_bus_fmt list \<Rightarrow> bus_flag set \<Rightarrow> bool \<Rightarrow> bridge_states \<Rightarrow>
     int \<times> bridge_states \<times> 'cs" where
  "drm_atomic_bridge_chain_check c cs bus_formats conn_flags alloc st =
     (if c = [] then (0, st, cs)
      else
        let (ret, st) = drm_atomic_bridge_chain_select_bus_fmts c cs bus_formats alloc st
        in if ret \<noteq> 0 then (ret, st, cs) else chain_check_loop c conn_flags (length c) st cs)"

section \<open>The order of the calls\<close>

text \<open>\<open>i\<close> stands before \<open>j\<close> in a list.\<close>

definition before :: "'a list \<Rightarrow> 'a \<Rightarrow> 'a \<Rightarrow> bool" where
  "before xs i j \<longleftrightarrow> (\<exists>ys zs. xs = ys @ zs \<and> i \<in> set ys \<and> j \<in> set zs)"

lemma before_Nil [simp]: "\<not> before [] i j"
  by (simp add: before_def)

lemma before_Cons: "before (x # xs) i j \<longleftrightarrow> (i = x \<and> j \<in> set xs) \<or> before xs i j"
proof
  assume "before (x # xs) i j"
  then obtain ys zs where *: "x # xs = ys @ zs" "i \<in> set ys" "j \<in> set zs" by (auto simp: before_def)
  then obtain ys' where "ys = x # ys'" "xs = ys' @ zs" by (cases ys) auto
  with * show "(i = x \<and> j \<in> set xs) \<or> before xs i j" by (auto simp: before_def)
next
  assume "(i = x \<and> j \<in> set xs) \<or> before xs i j"
  then show "before (x # xs) i j"
  proof
    assume "i = x \<and> j \<in> set xs"
    then have "x # xs = [x] @ xs \<and> i \<in> set [x] \<and> j \<in> set xs" by simp
    then show ?thesis unfolding before_def by blast
  next
    assume "before xs i j"
    then obtain ys zs where "xs = ys @ zs" "i \<in> set ys" "j \<in> set zs" by (auto simp: before_def)
    then have "x # xs = (x # ys) @ zs \<and> i \<in> set (x # ys) \<and> j \<in> set zs" by simp
    then show ?thesis unfolding before_def by blast
  qed
qed

lemma before_append: "before (xs @ ys) i j \<longleftrightarrow> before xs i j \<or> before ys i j \<or> (i \<in> set xs \<and> j \<in> set ys)"
  by (induction xs) (auto simp: before_Cons)

lemma before_set: "before xs i j \<Longrightarrow> i \<in> set xs \<and> j \<in> set xs"
  by (auto simp: before_def)

lemma before_rev: "before (rev xs) i j \<longleftrightarrow> before xs j i"
  by (induction xs) (auto simp: before_Cons before_append)

lemma before_upt: "before [a..<b] i j \<longleftrightarrow> a \<le> i \<and> i < j \<and> j < b"
  by (induction b) (auto simp: before_append before_Cons)

lemma before_determines:
  assumes "distinct xs" "distinct ys" "set xs = set ys"
    and "\<forall>i j. i \<in> set xs \<longrightarrow> j \<in> set xs \<longrightarrow> i \<noteq> j \<longrightarrow> before xs i j = before ys i j"
  shows "xs = ys"
  using assms
proof (induction xs arbitrary: ys)
  case (Cons x xs)
  obtain y ys' where ys: "ys = y # ys'" using Cons.prems(3) by (cases ys) auto
  have "y = x"
  proof (rule ccontr)
    assume ne: "y \<noteq> x"
    have mem: "y \<in> set (x # xs)" "x \<in> set ys'" using ys Cons.prems(3) ne by auto
    then have "before ys y x" using ys by (simp add: before_Cons)
    then have "before (x # xs) y x" using Cons.prems(4) mem ne by auto
    then have "before xs y x" using ne by (simp add: before_Cons)
    then show False using before_set Cons.prems(1) by fastforce
  qed
  have "xs = ys'"
  proof (rule Cons.IH)
    show "distinct xs" "distinct ys'" using Cons.prems(1,2) ys by auto
    show "set xs = set ys'" using Cons.prems(1,2,3) ys \<open>y = x\<close> by auto
    show "\<forall>i j. i \<in> set xs \<longrightarrow> j \<in> set xs \<longrightarrow> i \<noteq> j \<longrightarrow> before xs i j = before ys' i j"
    proof (intro allI impI)
      fix i j assume ij: "i \<in> set xs" "j \<in> set xs" "i \<noteq> j"
      then have "before (x # xs) i j = before (y # ys') i j" using Cons.prems(4) ys by simp
      moreover have "i \<noteq> x" using ij Cons.prems(1) by auto
      ultimately show "before xs i j = before ys' i j" using \<open>y = x\<close> by (simp add: before_Cons)
    qed
  qed
  then show ?case using ys \<open>y = x\<close> by simp
qed simp

text \<open>The calls follow the order in which the loops visit the bridges.\<close>

abbreviation pre_enable_order :: "'cs bridge_chain \<Rightarrow> nat \<Rightarrow> nat list" where
  "pre_enable_order \<equiv> pre_enable_loop (\<lambda>i. [i])"

abbreviation post_disable_order :: "'cs bridge_chain \<Rightarrow> nat \<Rightarrow> nat list" where
  "post_disable_order \<equiv> post_disable_loop (\<lambda>i. [i])"

lemma concat_singletons: "concat (map (\<lambda>i. [i]) xs) = xs"
  by (induction xs) auto

lemma pre_enable_calls: "pre_enable_loop call c n = concat (map call (pre_enable_order c n))"
proof (induction call c n rule: pre_enable_loop.induct)
  case (1 call c n)
  then show ?case
    by (subst (1 2) pre_enable_loop.simps) (auto simp: Let_def concat_singletons)
qed

lemma post_disable_calls: "post_disable_loop call c n = concat (map call (post_disable_order c n))"
proof (induction call c n rule: post_disable_loop.induct)
  case (1 call c n)
  then show ?case
    by (subst (1 2) post_disable_loop.simps) (auto simp: Let_def concat_singletons simp del: upt_Suc)
qed

text \<open>Every bridge in a range asks for its predecessor first.\<close>

definition flagged :: "'cs bridge_chain \<Rightarrow> nat \<Rightarrow> nat \<Rightarrow> bool" where
  "flagged c i j \<longleftrightarrow> (\<forall>k. i < k \<and> k \<le> j \<longrightarrow> pre_enable_prev_first (c ! k))"

lemma flagged_Suc_left:
  "pre_enable_prev_first (c ! Suc n) \<Longrightarrow> flagged c (Suc n) m \<Longrightarrow> flagged c n m"
  unfolding flagged_def by (metis Suc_lessI)

lemma pre_enable_limit_block:
  "flagged c (pre_enable_limit c n) n \<and>
   (pre_enable_limit c n \<noteq> 0 \<longrightarrow> \<not> pre_enable_prev_first (c ! pre_enable_limit c n))"
  by (induction n) (auto simp: flagged_def le_Suc_eq)

lemma pre_enable_order_step:
  "\<exists>l \<le> n. flagged c l n \<and> (l \<noteq> 0 \<longrightarrow> \<not> pre_enable_prev_first (c ! l)) \<and>
     pre_enable_order c n = [l..<Suc n] @ (if l = 0 then [] else pre_enable_order c (l - 1))"
proof (cases "pre_enable_prev_first (c ! n)")
  case True
  have le: "pre_enable_limit c n \<le> n" by (rule pre_enable_limit_le)
  have "pre_enable_order c n = [pre_enable_limit c n..<Suc n] @
      (if pre_enable_limit c n = 0 then [] else pre_enable_order c (pre_enable_limit c n - 1))"
    using True le by (subst pre_enable_loop.simps) (simp add: Let_def concat_singletons)
  then show ?thesis using pre_enable_limit_block le by blast
next
  case False
  have "pre_enable_order c n = [n..<Suc n] @ (if n = 0 then [] else pre_enable_order c (n - 1))"
    using False by (subst pre_enable_loop.simps) (simp add: Let_def)
  then show ?thesis using False by (intro exI [of _ n]) (auto simp: flagged_def)
qed

definition enable_order :: "'cs bridge_chain \<Rightarrow> nat \<Rightarrow> nat list \<Rightarrow> bool" where
  "enable_order c n ord \<longleftrightarrow> distinct ord \<and> set ord = {..<n} \<and>
     (\<forall>i j. i < j \<longrightarrow> j < n \<longrightarrow> before ord i j = flagged c i j)"

lemma pre_enable_order_ok: "enable_order c (Suc n) (pre_enable_order c n)"
proof (induction n rule: less_induct)
  case (less n)
  obtain l where l: "l \<le> n" "flagged c l n" "l \<noteq> 0 \<longrightarrow> \<not> pre_enable_prev_first (c ! l)"
    and eq: "pre_enable_order c n = [l..<Suc n] @ (if l = 0 then [] else pre_enable_order c (l - 1))"
    using pre_enable_order_step by blast
  define r where "r = (if l = 0 then [] else pre_enable_order c (l - 1))"
  have r: "enable_order c l r"
    using less.IH [of "l - 1"] l(1) by (auto simp: r_def enable_order_def)
  have inner: "before [l..<Suc n] i j \<longleftrightarrow> l \<le> i" if "i < j" "j < Suc n" for i j
    using that by (simp add: before_upt del: upt_Suc)
  have "before ([l..<Suc n] @ r) i j = flagged c i j" if ij: "i < j" "j < Suc n" for i j
  proof (cases "j < l")
    case True
    then have "before ([l..<Suc n] @ r) i j = before r i j"
      using r ij by (auto simp: before_append before_upt enable_order_def simp del: upt_Suc)
    then show ?thesis using r True ij by (simp add: enable_order_def)
  next
    case False
    show ?thesis
    proof (cases "l \<le> i")
      case True
      then show ?thesis using l ij inner by (auto simp: before_append flagged_def simp del: upt_Suc)
    next
      case lt: False
      have "\<not> flagged c i j" using l(3) lt False by (auto simp: flagged_def intro!: exI [of _ l])
      moreover have "\<not> before ([l..<Suc n] @ r) i j"
        using r lt False before_set [of r i j]
        by (auto simp: before_append before_upt enable_order_def simp del: upt_Suc)
      ultimately show ?thesis by simp
    qed
  qed
  then show ?case
    using r l(1) unfolding eq r_def [symmetric] by (auto simp: enable_order_def simp del: upt_Suc)
qed

lemma post_disable_limit_block:
  assumes "pre_enable_prev_first (c ! n)" "n < length c"
  shows "n \<le> post_disable_limit c n \<and> post_disable_limit c n < length c \<and>
    flagged c n (post_disable_limit c n) \<and>
    (Suc (post_disable_limit c n) < length c \<longrightarrow> \<not> pre_enable_prev_first (c ! Suc (post_disable_limit c n)))"
  using assms
proof (induction c n rule: post_disable_limit.induct)
  case (1 c n)
  show ?case
  proof (cases "Suc n < length c \<and> pre_enable_prev_first (c ! Suc n)")
    case True
    then have eq: "post_disable_limit c n = post_disable_limit c (Suc n)"
      using 1 by (subst post_disable_limit.simps) simp
    have "Suc n \<le> post_disable_limit c (Suc n) \<and> post_disable_limit c (Suc n) < length c \<and>
        flagged c (Suc n) (post_disable_limit c (Suc n)) \<and>
        (Suc (post_disable_limit c (Suc n)) < length c \<longrightarrow>
          \<not> pre_enable_prev_first (c ! Suc (post_disable_limit c (Suc n))))"
      by (rule 1(1)) (use True 1 in auto)
    then show ?thesis
      unfolding eq using True flagged_Suc_left [of c n] by auto
  next
    case False
    have "post_disable_limit c n = n"
    proof (cases "Suc n < length c")
      case True
      then show ?thesis using False 1
        by (subst post_disable_limit.simps) (subst post_disable_limit.simps, simp)
    next
      case False
      then show ?thesis using 1 by (subst post_disable_limit.simps) simp
    qed
    then show ?thesis using False 1 by (auto simp: flagged_def)
  qed
qed

lemma post_disable_order_step:
  assumes "n < length c"
  shows "\<exists>l. n \<le> l \<and> l < length c \<and> flagged c n l \<and> (Suc l < length c \<longrightarrow> \<not> pre_enable_prev_first (c ! Suc l)) \<and>
     post_disable_order c n = rev [n..<Suc l] @ post_disable_order c (Suc l)"
proof (cases "Suc n < length c \<and> pre_enable_prev_first (c ! Suc n)")
  case True
  note b = post_disable_limit_block [OF conjunct2 [OF True] conjunct1 [OF True]]
  let ?l = "post_disable_limit c (Suc n)"
  have "post_disable_order c n = rev [Suc n..<Suc ?l] @ [n] @ post_disable_order c (Suc ?l)"
    using True assms by (subst post_disable_loop.simps) (simp add: Let_def concat_singletons)
  also have "\<dots> = rev [n..<Suc ?l] @ post_disable_order c (Suc ?l)"
    using b by (simp add: upt_conv_Cons del: upt_Suc)
  finally show ?thesis
    using b True flagged_Suc_left [of c n ?l] by (intro exI [of _ ?l]) auto
next
  case False
  have "post_disable_order c n = rev [n..<Suc n] @ post_disable_order c (Suc n)"
    using False assms by (subst post_disable_loop.simps) auto
  then show ?thesis using False assms by (intro exI [of _ n]) (auto simp: flagged_def)
qed

lemma post_disable_order_ok:
  "distinct (post_disable_order c n) \<and> set (post_disable_order c n) = {n..<length c} \<and>
   (\<forall>i j. n \<le> i \<longrightarrow> i < j \<longrightarrow> j < length c \<longrightarrow> before (post_disable_order c n) j i = flagged c i j)"
proof (induction "length c - n" arbitrary: n rule: less_induct)
  case less
  show ?case
  proof (cases "n < length c")
    case True
    then obtain l where l: "n \<le> l" "l < length c" "flagged c n l"
        "Suc l < length c \<longrightarrow> \<not> pre_enable_prev_first (c ! Suc l)"
      and eq: "post_disable_order c n = rev [n..<Suc l] @ post_disable_order c (Suc l)"
      using post_disable_order_step by blast
    define r where "r = post_disable_order c (Suc l)"
    have r: "distinct r" "set r = {Suc l..<length c}"
      "\<And>i j. Suc l \<le> i \<Longrightarrow> i < j \<Longrightarrow> j < length c \<Longrightarrow> before r j i = flagged c i j"
      using less [of "Suc l"] l True unfolding r_def by auto
    have "before (rev [n..<Suc l] @ r) j i = flagged c i j"
      if ij: "n \<le> i" "i < j" "j < length c" for i j
    proof (cases "Suc l \<le> i")
      case True
      then have "before (rev [n..<Suc l] @ r) j i = before r j i"
        using ij by (auto simp: before_append before_rev before_upt simp del: upt_Suc)
      then show ?thesis using r True ij by simp
    next
      case False
      show ?thesis
      proof (cases "j \<le> l")
        case True
        then have "before (rev [n..<Suc l] @ r) j i"
          using ij by (auto simp: before_append before_rev before_upt simp del: upt_Suc)
        moreover have "flagged c i j" using l(3) True ij by (auto simp: flagged_def)
        ultimately show ?thesis by simp
      next
        case gt: False
        then have "\<not> flagged c i j"
          using l(4) ij False by (auto simp: flagged_def intro!: exI [of _ "Suc l"])
        moreover have "\<not> before (rev [n..<Suc l] @ r) j i"
          using False gt r(2) before_set [of r j i]
          by (auto simp: before_append before_rev before_upt simp del: upt_Suc)
        ultimately show ?thesis by simp
      qed
    qed
    then show ?thesis
      using r l unfolding eq r_def [symmetric] by (auto simp del: upt_Suc)
  next
    case False
    then show ?thesis by (subst (1 2 3) post_disable_loop.simps) auto
  qed
qed

lemma post_disable_order_rev:
  assumes "c \<noteq> []"
  shows "post_disable_order c 0 = rev (pre_enable_order c (length c - 1))"
proof (rule before_determines)
  have n: "Suc (length c - 1) = length c" using assms by (cases c) auto
  note pre = pre_enable_order_ok [of c "length c - 1", unfolded n enable_order_def]
  note post = post_disable_order_ok [of c 0]
  show "distinct (post_disable_order c 0)" "distinct (rev (pre_enable_order c (length c - 1)))"
    using pre post by auto
  show "set (post_disable_order c 0) = set (rev (pre_enable_order c (length c - 1)))"
    using pre post by auto
  have anti: "before xs i j = (\<not> before xs j i)" if "distinct xs" "i \<in> set xs" "j \<in> set xs" "i \<noteq> j"
    for xs :: "nat list" and i j
    using that by (induction xs) (auto simp: before_Cons dest: before_set)
  show "\<forall>i j. i \<in> set (post_disable_order c 0) \<longrightarrow> j \<in> set (post_disable_order c 0) \<longrightarrow> i \<noteq> j \<longrightarrow>
      before (post_disable_order c 0) i j = before (rev (pre_enable_order c (length c - 1))) i j"
  proof (intro allI impI)
    fix i j assume m: "i \<in> set (post_disable_order c 0)" "j \<in> set (post_disable_order c 0)" "i \<noteq> j"
    then have lt: "i < length c" "j < length c" using post by auto
    have mem: "i \<in> set (pre_enable_order c (length c - 1))" "j \<in> set (pre_enable_order c (length c - 1))"
      using pre lt by auto
    show "before (post_disable_order c 0) i j = before (rev (pre_enable_order c (length c - 1))) i j"
    proof (cases "i < j")
      case True
      then show ?thesis
        using pre post lt m mem anti [of "post_disable_order c 0" i j]
          anti [of "pre_enable_order c (length c - 1)" j i] by (auto simp: before_rev)
    next
      case False
      then show ?thesis using pre post lt m by (auto simp: before_rev)
    qed
  qed
qed

text \<open>C9: The order of a bridge chain. \<open>pre_enable\<close> calls the hooks of all bridges of the chain once each,
  in an order in which an earlier bridge comes before a later one exactly when every bridge after it up to
  the later one has asked for its predecessor to be enabled first; \<open>post_disable\<close>, a different loop over
  the chain with jumps of its own, calls them in precisely the opposite order.\<close>

theorem bridge_chain_order:
  "\<exists>ord. distinct ord \<and> set ord = {..<length c} \<and>
     (\<forall>i j. i < j \<longrightarrow> j < length c \<longrightarrow>
        before ord i j = (\<forall>k. i < k \<and> k \<le> j \<longrightarrow> pre_enable_prev_first (c ! k))) \<and>
     drm_atomic_bridge_chain_pre_enable state c =
       concat (map (drm_atomic_bridge_call_pre_enable state c) ord) \<and>
     drm_atomic_bridge_chain_post_disable state c =
       concat (map (drm_atomic_bridge_call_post_disable state c) (rev ord))"
proof (cases "c = []")
  case True
  then show ?thesis
    by (intro exI [of _ "[]"])
       (simp add: drm_atomic_bridge_chain_pre_enable_def drm_atomic_bridge_chain_post_disable_def
         post_disable_loop.simps)
next
  case False
  let ?ord = "pre_enable_order c (length c - 1)"
  have "enable_order c (length c) ?ord"
    using pre_enable_order_ok [of c "length c - 1"] False by (cases c) auto
  then show ?thesis
    using False post_disable_order_rev [OF False]
    by (intro exI [of _ ?ord])
       (simp add: enable_order_def flagged_def drm_atomic_bridge_chain_pre_enable_def
         drm_atomic_bridge_chain_post_disable_def pre_enable_calls [of "drm_atomic_bridge_call_pre_enable state c"]
         post_disable_calls [of "drm_atomic_bridge_call_post_disable state c"])
qed

definition example_bridge :: "bool \<Rightarrow> unit drm_bridge" where
  "example_bridge f = \<lparr>pre_enable_prev_first = f, has_mode_set = True, has_atomic_pre_enable = True,
     has_pre_enable = False, has_atomic_enable = True, has_enable = False, has_atomic_disable = True,
     has_disable = False, has_atomic_post_disable = True, has_post_disable = False,
     atomic_get_input_bus_fmts = None, atomic_get_output_bus_fmts = None, bridge_atomic_check = None,
     bridge_mode_fixup = None\<rparr>"

text \<open>The example of the source: of A, B, C, D, E the bridges B, D and E ask for their predecessor first.\<close>

theorem bridge_chain_order_witness:
  "let c = map example_bridge [False, True, False, True, True]
   in drm_atomic_bridge_chain_pre_enable True c = map B_atomic_pre_enable [2, 3, 4, 0, 1] \<and>
      drm_atomic_bridge_chain_post_disable True c = map B_atomic_post_disable [1, 0, 4, 3, 2] \<and>
      (\<exists>ord. (before ord 3 4 \<and> \<not> before ord 1 2) \<and>
        drm_atomic_bridge_chain_pre_enable True c =
          concat (map (drm_atomic_bridge_call_pre_enable True c) ord))"
proof -
  let ?c = "map example_bridge [False, True, False, True, True]"
  have 1: "drm_atomic_bridge_chain_pre_enable True ?c = map B_atomic_pre_enable [2, 3, 4, 0, 1]"
    by code_simp
  have 2: "drm_atomic_bridge_chain_post_disable True ?c = map B_atomic_post_disable [1, 0, 4, 3, 2]"
    by code_simp
  obtain ord where ord: "\<forall>i j. i < j \<longrightarrow> j < length ?c \<longrightarrow>
        before ord i j = (\<forall>k. i < k \<and> k \<le> j \<longrightarrow> pre_enable_prev_first (?c ! k))"
     "drm_atomic_bridge_chain_pre_enable True ?c =
          concat (map (drm_atomic_bridge_call_pre_enable True ?c) ord)"
    using bridge_chain_order [of ?c True] by auto
  have "before ord 3 4" "\<not> before ord 1 2"
    using ord(1) [rule_format, of 3 4] ord(1) [rule_format, of 1 2]
    by (auto simp: example_bridge_def numeral_2_eq_2 numeral_3_eq_3 eval_nat_numeral le_Suc_eq intro!: exI [of _ 2])
  then show ?thesis unfolding Let_def using 1 2 ord(2) by blast
qed

section \<open>What the negotiation finds\<close>

text \<open>The formats a hook offers, and the choices of formats the bridges up to \<open>n\<close> can transcode: \<open>a k\<close>
  is the format at the input of bridge \<open>k\<close>, \<open>a (Suc k)\<close> the format at its output.\<close>

definition offered :: "bus_fmts \<Rightarrow> media_bus_fmt list" where
  "offered r = (case r of (Some fmts, n) \<Rightarrow> take n fmts | (None, n) \<Rightarrow> [])"

definition transcodes ::
    "'cs bridge_chain \<Rightarrow> 'cs \<Rightarrow> bridge_states \<Rightarrow> nat \<Rightarrow> (nat \<Rightarrow> media_bus_fmt) \<Rightarrow> bool" where
  "transcodes c cs st n a \<longleftrightarrow>
     (\<forall>k\<le>n. case atomic_get_input_bus_fmts (c ! k) of
        None \<Rightarrow> a k = MEDIA_BUS_FMT_FIXED
      | Some h \<Rightarrow> a k \<in> set (offered (h (the (st k)) cs (a (Suc k)))))"

text \<open>What the negotiation relies on: a bridge with a format hook keeps a state, and the hook returns an
  array of as many formats as it says.\<close>

definition fmts_ok :: "bus_fmts \<Rightarrow> bool" where
  "fmts_ok r \<longleftrightarrow> snd r = 0 \<or> (\<exists>fmts. fst r = Some fmts \<and> length fmts = snd r)"

definition negotiable :: "'cs bridge_chain \<Rightarrow> 'cs \<Rightarrow> bridge_states \<Rightarrow> bool" where
  "negotiable c cs st \<longleftrightarrow>
     (\<forall>k<length c. \<forall>h. atomic_get_input_bus_fmts (c ! k) = Some h \<longrightarrow>
        st k \<noteq> None \<and> (\<forall>out. fmts_ok (h (the (st k)) cs out)))"

definition with_fmts :: "bridge_states \<Rightarrow> nat \<Rightarrow> (nat \<Rightarrow> media_bus_fmt) \<Rightarrow> bridge_states" where
  "with_fmts st n a = (\<lambda>k. if n < k then st k else
     map_option (\<lambda>s. s\<lparr>input_bus_cfg := (input_bus_cfg s)\<lparr>bus_format := a k\<rparr>,
                       output_bus_cfg := (output_bus_cfg s)\<lparr>bus_format := a (Suc k)\<rparr>\<rparr>) (st k))"

lemma ENOTSUPP_nonzero [simp]: "- ENOTSUPP \<noteq> 0" "0 \<noteq> - ENOTSUPP" "ENOTSUPP \<noteq> 0"
  by (simp_all add: ENOTSUPP_def)

lemma transcodes_cong:
  "(\<And>k. k \<le> Suc n \<Longrightarrow> a k = b k) \<Longrightarrow> transcodes c cs st n a \<longleftrightarrow> transcodes c cs st n b"
  unfolding transcodes_def by (metis Suc_le_mono le_SucI)

lemma with_fmts_cong: "(\<And>k. k \<le> Suc n \<Longrightarrow> a k = b k) \<Longrightarrow> with_fmts st n a = with_fmts st n b"
  by (auto simp: with_fmts_def fun_eq_iff)

lemma set_with_fmts_0:
  "set_bus_fmts st 0 f out = with_fmts st 0 ((\<lambda>_. f)(Suc 0 := out))"
  by (auto simp: set_bus_fmts_def with_fmts_def fun_eq_iff split: option.splits)

lemma set_with_fmts_Suc:
  "a (Suc n) = f \<Longrightarrow>
   set_bus_fmts (with_fmts st n a) (Suc n) f out = with_fmts st (Suc n) (a(Suc (Suc n) := out))"
  by (auto simp: set_bus_fmts_def with_fmts_def fun_eq_iff split: option.splits)

text \<open>The outcome of one search: the formats are entered, or the states are as before.\<close>

definition selects ::
    "'cs bridge_chain \<Rightarrow> 'cs \<Rightarrow> nat \<Rightarrow> media_bus_fmt set \<Rightarrow> bridge_states \<Rightarrow> int \<times> bridge_states \<Rightarrow> bool" where
  "selects c cs n F st r \<longleftrightarrow>
     (\<exists>a. transcodes c cs st n a \<and> a (Suc n) \<in> F \<and> r = (0, with_fmts st n a)) \<or>
     (\<forall>a. transcodes c cs st n a \<longrightarrow> a (Suc n) \<notin> F) \<and> r = (- ENOTSUPP, st)"

lemma selectsE:
  assumes "selects c cs n F st r"
  obtains (found) a where "transcodes c cs st n a" "a (Suc n) \<in> F" "r = (0, with_fmts st n a)"
    | (none) "\<And>a. transcodes c cs st n a \<Longrightarrow> a (Suc n) \<notin> F" "r = (- ENOTSUPP, st)"
  using assms unfolding selects_def by blast

text \<open>Trying formats one after the other, with a search that satisfies its contract.\<close>

lemma try_fmts_selects:
  assumes "\<forall>f. selects c cs n {f} st (sel f st)" and "fs \<noteq> []"
  shows "\<exists>ret f s. try_fmts sel fs d st = (ret, f, s) \<and> selects c cs n (set fs) st (ret, s) \<and>
    (ret = 0 \<longrightarrow> (\<exists>a. transcodes c cs st n a \<and> a (Suc n) = f \<and> f \<in> set fs \<and> s = with_fmts st n a))"
  using assms(2)
proof (induction fs arbitrary: d)
  case (Cons f fs)
  from assms(1) [rule_format, of f] show ?case
  proof (cases rule: selectsE)
    case (found a)
    then show ?thesis
      by (auto simp: selects_def intro!: exI [of _ a])
  next
    case none
    show ?thesis
    proof (cases "fs = []")
      case True
      then show ?thesis using none by (cases d) (auto simp: selects_def)
    next
      case False
      then obtain ret g s where IH: "try_fmts sel fs (- ENOTSUPP, f) st = (ret, g, s)"
        "selects c cs n (set fs) st (ret, s)"
        "ret = 0 \<longrightarrow> (\<exists>a. transcodes c cs st n a \<and> a (Suc n) = g \<and> g \<in> set fs \<and> s = with_fmts st n a)"
        using Cons.IH [of "(- ENOTSUPP, f)"] by blast
      have "selects c cs n (set (f # fs)) st (ret, s)"
        using IH(2) none(1) unfolding selects_def by auto
      moreover have "try_fmts sel (f # fs) d st = (ret, g, s)" using none(2) IH(1) by (cases d) simp
      ultimately show ?thesis using IH(3) by (intro exI conjI) auto
    qed
  qed
qed simp

lemma transcodes_Suc:
  "transcodes c cs st (Suc n) a \<longleftrightarrow> transcodes c cs st n a \<and>
     (case atomic_get_input_bus_fmts (c ! Suc n) of
        None \<Rightarrow> a (Suc n) = MEDIA_BUS_FMT_FIXED
      | Some h \<Rightarrow> a (Suc n) \<in> set (offered (h (the (st (Suc n))) cs (a (Suc (Suc n))))))"
  unfolding transcodes_def by (auto simp: le_Suc_eq)

lemma transcodes_upd [simp]: "transcodes c cs st n (a(Suc (Suc n) := x)) = transcodes c cs st n a"
  by (rule transcodes_cong) auto

lemma select_0:
  assumes "negotiable c cs st" "0 < length c"
  shows "selects c cs 0 {out} st (select_bus_fmt_recursive c cs 0 out st)"
proof (cases "atomic_get_input_bus_fmts (c ! 0)")
  case None
  then show ?thesis
    by (subst select_bus_fmt_recursive.simps)
       (auto simp: selects_def set_with_fmts_0 transcodes_def
         intro!: exI [of _ "(\<lambda>_. MEDIA_BUS_FMT_FIXED)(Suc 0 := out)"])
next
  case (Some h)
  then obtain s where s: "st 0 = Some s" "fmts_ok (h s cs out)"
    using assms unfolding negotiable_def by fastforce
  obtain r n where r: "h s cs out = (r, n)" by (cases "h s cs out")
  show ?thesis
  proof (cases "n = 0")
    case True
    then show ?thesis using Some s r
      by (subst select_bus_fmt_recursive.simps)
         (auto simp: selects_def transcodes_def offered_def split: option.splits)
  next
    case False
    then obtain f fs where fs: "r = Some (f # fs)" "n = Suc (length fs)"
      using s(2) r unfolding fmts_ok_def by (cases r) (auto simp: length_Suc_conv neq0_conv gr0_conv_Suc)
    then show ?thesis using Some s r
      by (subst select_bus_fmt_recursive.simps)
         (auto simp: selects_def set_with_fmts_0 transcodes_def offered_def
           intro!: exI [of _ "(\<lambda>_. f)(Suc 0 := out)"])
  qed
qed

lemma select_selects:
  assumes "negotiable c cs st" "n < length c"
  shows "selects c cs n {out} st (select_bus_fmt_recursive c cs n out st)"
  using assms(2)
proof (induction n arbitrary: out)
  case 0
  then show ?case using assms(1) by (rule select_0 [rotated])
next
  case (Suc n)
  then have IH: "\<forall>f. selects c cs n {f} st (select_bus_fmt_recursive c cs n f st)" by simp
  show ?case
  proof (cases "atomic_get_input_bus_fmts (c ! Suc n)")
    case None
    from IH [rule_format, of MEDIA_BUS_FMT_FIXED] show ?thesis
    proof (cases rule: selectsE)
      case (found a)
      then show ?thesis using None
        by (subst select_bus_fmt_recursive.simps)
           (auto simp: selects_def transcodes_Suc set_with_fmts_Suc intro!: exI [of _ "a(Suc (Suc n) := out)"])
    next
      case none
      then show ?thesis using None
        by (subst select_bus_fmt_recursive.simps) (auto simp: selects_def transcodes_Suc)
    qed
  next
    case (Some h)
    then obtain s where s: "st (Suc n) = Some s" "fmts_ok (h s cs out)"
      using assms(1) Suc.prems unfolding negotiable_def by fastforce
    obtain r m where r: "h s cs out = (r, m)" by (cases "h s cs out")
    show ?thesis
    proof (cases "m = 0")
      case True
      then show ?thesis using Some s r
        by (subst select_bus_fmt_recursive.simps)
           (auto simp: selects_def transcodes_Suc offered_def split: option.splits)
    next
      case False
      then obtain fs where fs: "r = Some fs" "m = length fs" "fs \<noteq> []"
        using s(2) r unfolding fmts_ok_def by auto
      obtain ret f s' where t: "try_fmts (select_bus_fmt_recursive c cs n) fs (0, MEDIA_BUS_FMT_FIXED) st = (ret, f, s')"
        "selects c cs n (set fs) st (ret, s')"
        "ret = 0 \<longrightarrow> (\<exists>a. transcodes c cs st n a \<and> a (Suc n) = f \<and> f \<in> set fs \<and> s' = with_fmts st n a)"
        using try_fmts_selects [where sel = "select_bus_fmt_recursive c cs n", OF IH fs(3)] by blast
      have eq: "select_bus_fmt_recursive c cs (Suc n) out st =
          (ret, if ret = 0 then set_bus_fmts s' (Suc n) f out else s')"
        using Some s r fs t(1) by (subst select_bus_fmt_recursive.simps) simp
      from t(2) show ?thesis
      proof (cases rule: selectsE)
        case (found b)
        then have "ret = 0" by simp
        then obtain a where a: "transcodes c cs st n a" "a (Suc n) = f" "f \<in> set fs" "s' = with_fmts st n a"
          using t(3) by auto
        then show ?thesis unfolding eq using \<open>ret = 0\<close> Some s r fs
          by (auto simp: selects_def transcodes_Suc set_with_fmts_Suc offered_def
              intro!: exI [of _ "a(Suc (Suc n) := out)"])
      next
        case none
        then show ?thesis unfolding eq using Some s r fs
          by (auto simp: selects_def transcodes_Suc offered_def)
      qed
    qed
  qed
qed

text \<open>The output formats the negotiation starts from.\<close>

definition output_fmts :: "'cs bridge_chain \<Rightarrow> 'cs \<Rightarrow> media_bus_fmt list \<Rightarrow> bridge_states \<Rightarrow> bus_fmts" where
  "output_fmts c cs bus_formats st =
     (case atomic_get_output_bus_fmts (last c) of
        Some h \<Rightarrow> h (the (st (length c - 1))) cs
      | None \<Rightarrow> (Some [case bus_formats of [] \<Rightarrow> MEDIA_BUS_FMT_FIXED | f # _ \<Rightarrow> f], 1))"

text \<open>C10: The bus format negotiation of a bridge chain is a complete search. When every bridge with a format
  hook keeps a state and its hook returns the array it announces, and memory suffices, the negotiation
  succeeds exactly when some choice of formats exists that every bridge can transcode, starting from a format
  the last bridge (or the display) offers; it then enters such a choice, in which the output format of each bridge is
  the input format of the next, and nothing else. Otherwise it returns \<open>-ENOTSUPP\<close> and leaves
  every state as it was.\<close>

theorem select_bus_fmts_complete:
  fixes c :: "'cs bridge_chain"
  defines "last_bridge \<equiv> length c - 1"
  assumes "c \<noteq> []" and "negotiable c cs st"
    and "atomic_get_output_bus_fmts (last c) \<noteq> None \<longrightarrow> st last_bridge \<noteq> None"
    and "fmts_ok (output_fmts c cs bus_formats st)"
  shows "(\<exists>a. transcodes c cs st last_bridge a \<and> a (length c) \<in> set (offered (output_fmts c cs bus_formats st)) \<and>
            drm_atomic_bridge_chain_select_bus_fmts c cs bus_formats True st = (0, with_fmts st last_bridge a)) \<or>
         (\<forall>a. transcodes c cs st last_bridge a \<longrightarrow>
            a (length c) \<notin> set (offered (output_fmts c cs bus_formats st))) \<and>
         drm_atomic_bridge_chain_select_bus_fmts c cs bus_formats True st = (- ENOTSUPP, st)"
proof -
  have lb: "last_bridge < length c" "Suc last_bridge = length c" "c ! last_bridge = last c"
    using assms(2) by (auto simp: last_bridge_def last_conv_nth)
  have sel: "\<forall>f. selects c cs last_bridge {f} st (select_bus_fmt_recursive c cs last_bridge f st)"
    using select_selects [OF assms(3) lb(1)] by blast
  have run: "selects c cs last_bridge (set fs) st
      (let (ret, _, st) = try_fmts (select_bus_fmt_recursive c cs last_bridge) fs (0, MEDIA_BUS_FMT_FIXED) st in (ret, st))"
    if "fs \<noteq> []" for fs
    using try_fmts_selects [where sel = "select_bus_fmt_recursive c cs last_bridge", OF sel that,
        of "(0, MEDIA_BUS_FMT_FIXED)"] by auto
  have "selects c cs last_bridge (set (offered (output_fmts c cs bus_formats st))) st
      (drm_atomic_bridge_chain_select_bus_fmts c cs bus_formats True st)"
  proof (cases "atomic_get_output_bus_fmts (last c)")
    case None
    then show ?thesis
      using run [of "[if bus_formats \<noteq> [] then bus_formats ! 0 else MEDIA_BUS_FMT_FIXED]"]
      unfolding drm_atomic_bridge_chain_select_bus_fmts_def last_bridge_def [symmetric]
      by (cases bus_formats) (simp_all add: lb(3) output_fmts_def offered_def Let_def del: try_fmts.simps)
  next
    case (Some h)
    then obtain s where s: "st last_bridge = Some s" using assms(4) by auto
    obtain r m where r: "h s cs = (r, m)" by (cases "h s cs")
    have out: "output_fmts c cs bus_formats st = (r, m)"
      using Some s r by (simp add: output_fmts_def last_bridge_def)
    show ?thesis
    proof (cases "m = 0")
      case True
      then show ?thesis using Some s r
        unfolding drm_atomic_bridge_chain_select_bus_fmts_def last_bridge_def [symmetric]
        by (simp add: lb(3) out offered_def Let_def selects_def split: option.splits)
    next
      case False
      then obtain fs where fs: "r = Some fs" "m = length fs" "fs \<noteq> []"
        using assms(5) out unfolding fmts_ok_def by auto
      then show ?thesis using Some s r run [of fs]
        unfolding drm_atomic_bridge_chain_select_bus_fmts_def last_bridge_def [symmetric]
        by (simp add: lb(3) out offered_def Let_def)
    qed
  qed
  then show ?thesis unfolding selects_def lb(2) .
qed

text \<open>A chain of two: the last bridge prefers RGB666 at its output and passes it on unchanged, the first can
  only produce YUV or RGB888, so the search goes back and settles for RGB888.\<close>

definition example_negotiation :: "unit bridge_chain" where
  "example_negotiation =
     [(example_bridge False)\<lparr>atomic_get_input_bus_fmts :=
         Some (\<lambda>_ _ out. if out = MEDIA_BUS_FMT_RGB888_1X24 then (Some [MEDIA_BUS_FMT_YUV8_1X24], 1) else (None, 0))\<rparr>,
      (example_bridge False)\<lparr>atomic_get_input_bus_fmts := Some (\<lambda>_ _ out. (Some [out], 1)),
         atomic_get_output_bus_fmts := Some (\<lambda>_ _. (Some [MEDIA_BUS_FMT_RGB666_1X18, MEDIA_BUS_FMT_RGB888_1X24], 2))\<rparr>]"

definition example_bridge_states :: bridge_states where
  "example_bridge_states = (\<lambda>_. Some \<lparr>input_bus_cfg = \<lparr>bus_format = MEDIA_BUS_FMT_FIXED, bus_flags = {}\<rparr>,
     output_bus_cfg = \<lparr>bus_format = MEDIA_BUS_FMT_FIXED, bus_flags = {}\<rparr>\<rparr>)"

theorem select_bus_fmts_complete_witness:
  "\<exists>a. transcodes example_negotiation () example_bridge_states 1 a \<and>
     a 0 = MEDIA_BUS_FMT_YUV8_1X24 \<and> a 1 = MEDIA_BUS_FMT_RGB888_1X24 \<and> a 2 = MEDIA_BUS_FMT_RGB888_1X24 \<and>
     drm_atomic_bridge_chain_select_bus_fmts example_negotiation () [] True example_bridge_states =
       (0, with_fmts example_bridge_states 1 a)"
proof -
  let ?c = example_negotiation and ?st = example_bridge_states
  have len: "length ?c = 2" "?c \<noteq> []" by (simp_all add: example_negotiation_def)
  have out: "offered (output_fmts ?c () [] ?st) = [MEDIA_BUS_FMT_RGB666_1X18, MEDIA_BUS_FMT_RGB888_1X24]"
    by (simp add: output_fmts_def example_negotiation_def offered_def)
  have ok: "negotiable ?c () ?st" "fmts_ok (output_fmts ?c () [] ?st)"
    by (auto simp: negotiable_def example_negotiation_def example_bridge_states_def fmts_ok_def output_fmts_def
        nth_Cons' split: if_splits)
  have st: "atomic_get_output_bus_fmts (last ?c) \<noteq> None \<longrightarrow> ?st (length ?c - 1) \<noteq> None"
    by (simp add: example_bridge_states_def)
  let ?a = "(\<lambda>k. if k = 0 then MEDIA_BUS_FMT_YUV8_1X24 else MEDIA_BUS_FMT_RGB888_1X24) :: nat \<Rightarrow> media_bus_fmt"
  have tr: "transcodes ?c () ?st 1 a \<longleftrightarrow> a 1 = MEDIA_BUS_FMT_RGB888_1X24 \<and> a 0 = MEDIA_BUS_FMT_YUV8_1X24 \<and> a 2 = a 1" for a
    by (auto simp: transcodes_def example_negotiation_def offered_def le_Suc_eq numeral_2_eq_2)
  then have "transcodes ?c () ?st 1 ?a" by simp
  moreover have "?a (length ?c) \<in> set (offered (output_fmts ?c () [] ?st))" using len out by simp
  ultimately obtain a where "transcodes ?c () ?st 1 a"
      "drm_atomic_bridge_chain_select_bus_fmts ?c () [] True ?st = (0, with_fmts ?st 1 a)"
    using select_bus_fmts_complete [OF len(2) ok(1) st ok(2)] unfolding len by auto
  then show ?thesis using tr [of a] by (intro exI [of _ a]) simp
qed

section \<open>Bus flags\<close>

text \<open>Unless a check hook changes them, the flags of the display reach every bridge of the chain.\<close>

lemma chain_check_flags:
  assumes "chain_check_loop c fl n st cs = (0, st', cs')" "n \<le> length c"
    and "\<forall>i<length c. \<forall>f s x r s' x'. bridge_atomic_check (c ! i) = Some f \<longrightarrow> f s x = (r, s', x') \<longrightarrow>
           bus_flags (input_bus_cfg s') = bus_flags (input_bus_cfg s) \<and>
           bus_flags (output_bus_cfg s') = bus_flags (output_bus_cfg s)"
    and "\<forall>i<length c. st i \<noteq> None"
    and "\<forall>i. n \<le> i \<longrightarrow> i < length c \<longrightarrow>
           bus_flags (input_bus_cfg (the (st i))) = fl \<and> bus_flags (output_bus_cfg (the (st i))) = fl"
  shows "\<forall>i<length c. bus_flags (input_bus_cfg (the (st' i))) = fl \<and> bus_flags (output_bus_cfg (the (st' i))) = fl"
  using assms
proof (induction n arbitrary: st cs)
  case (Suc n)
  define st1 where "st1 = drm_atomic_bridge_propagate_bus_flags c fl n st"
  obtain ret st2 cs2 where ck: "drm_atomic_bridge_check c n st1 cs = (ret, st2, cs2)"
    by (cases "drm_atomic_bridge_check c n st1 cs")
  have ret: "ret = 0" "chain_check_loop c fl n st2 cs2 = (0, st', cs')"
    using Suc.prems(1) ck by (auto simp: st1_def Let_def split: if_splits)
  obtain s where s: "st n = Some s" using Suc.prems(2,4) by (metis Suc_le_lessD not_None_eq)
  have st1: "st1 = st(n := Some (s\<lparr>input_bus_cfg := (input_bus_cfg s)\<lparr>bus_flags := fl\<rparr>,
                             output_bus_cfg := (output_bus_cfg s)\<lparr>bus_flags := fl\<rparr>\<rparr>))"
    using s Suc.prems(2) Suc.prems(4) [rule_format, of "Suc n"] Suc.prems(5) [rule_format, of "Suc n"]
    by (auto simp: st1_def drm_atomic_bridge_propagate_bus_flags_def Let_def not_le split: option.splits)
  have fl: "\<exists>s2. st2 = st1(n := Some s2) \<and> bus_flags (input_bus_cfg s2) = fl \<and> bus_flags (output_bus_cfg s2) = fl"
  proof (cases "bridge_atomic_check (c ! n)")
    case None
    then show ?thesis using ck st1
      by (auto simp: drm_atomic_bridge_check_def split: option.splits prod.splits)
  next
    case (Some f)
    obtain r s' x' where f: "f (the (st1 n)) cs = (r, s', x')" by (cases "f (the (st1 n)) cs")
    then have "st2 = st1(n := Some s')"
      using ck Some st1 by (auto simp: drm_atomic_bridge_check_def split: prod.splits)
    then show ?thesis using Suc.prems(2) Suc.prems(3) [rule_format, OF _ Some f] st1 by auto
  qed
  then obtain s2 where s2: "st2 = st(n := Some s2)" "bus_flags (input_bus_cfg s2) = fl" "bus_flags (output_bus_cfg s2) = fl"
    using st1 by auto
  have prev: "bus_flags (input_bus_cfg (the (st2 i))) = fl \<and> bus_flags (output_bus_cfg (the (st2 i))) = fl"
    if "n \<le> i" "i < length c" for i
    using that s2 Suc.prems(5) [rule_format, of i] by (cases "i = n") auto
  show ?case
    by (rule Suc.IH [OF ret(2) _ Suc.prems(3)]) (use Suc.prems(2,4) s2 prev in auto)
qed auto

end
