(* ===== verification/Drm_Atomic.thy ===== *)
theory Drm_Atomic
  imports Drm_Probe Drm_Bridge_Chain
begin

text \<open>
  The state objects of an atomic commit and the functions that put them into it
  (\<open>drm/drm_atomic.c\<close>, \<open>drm/drm_atomic_uapi.c\<close>, \<open>drm/drm_atomic_state_helper.c\<close>).

  CRTCs, connectors, planes and encoders are named by their index. \<open>modeset_dev\<close> holds the current state of every object
  of the device, which is what a commit calls the old state, together with the fixed facts and
  the hooks of the drivers; a \<open>drm_atomic_commit\<close> holds the new state of the objects that take part in it.
  The 32-bit masks of a CRTC state are the sets of the indexes of their bits. Taking the lock of an object and copying its state
  can fail; the error, or 0, is a field of the device. The fields are those that the
  check and the commit look at.
\<close>

section \<open>State objects\<close>

record crtc_st =
  cs_enable :: bool
  cs_active :: bool
  cs_mode :: drm_mode_entry
  cs_adjusted_mode :: drm_mode_entry
  mode_blob :: bool
  mode_changed :: bool
  active_changed :: bool
  connectors_changed :: bool
  planes_changed :: bool
  no_vblank :: bool
  self_refresh_active :: bool
  cs_event :: bool
  connector_mask :: "nat set"
  encoder_mask :: "nat set"
  plane_mask :: "nat set"

record conn_st =
  cn_crtc :: "nat option"
  cn_encoder :: "nat option"
  link_status :: nat
  max_requested_bpc :: nat

record plane_st =
  pl_crtc :: "nat option"
  pl_fb :: "nat option"

record drm_atomic_commit =
  crtcs :: "nat \<rightharpoonup> crtc_st"
  conns :: "nat \<rightharpoonup> conn_st"
  planes :: "nat \<rightharpoonup> plane_st"
  bridge_sts :: "nat \<Rightarrow> bridge_states"
  duplicated :: bool

text \<open>A hook that checks an object against the whole commit, which it may change.\<close>

type_synonym check_hook = "(drm_atomic_commit \<Rightarrow> int \<times> drm_atomic_commit) option"

text \<open>A \<open>mode_fixup\<close> hook: the mode and the adjusted mode, whether it accepts, and the adjusted mode it leaves.\<close>

type_synonym fixup_hook = "(drm_mode_entry \<Rightarrow> drm_mode_entry \<Rightarrow> bool \<times> drm_mode_entry) option"

record modeset_dev =
  n_crtc :: nat
  n_conn :: nat
  n_plane :: nat
  crtc_cur :: "nat \<Rightarrow> crtc_st"
  conn_cur :: "nat \<Rightarrow> conn_st"
  plane_cur :: "nat \<Rightarrow> plane_st"
  bridge_cur :: "nat \<Rightarrow> bridge_states"
  dev_has_vblank :: bool
  unregistered :: "nat \<Rightarrow> bool"
  possible_encoders :: "nat \<Rightarrow> nat list"
  possible_crtcs :: "nat \<Rightarrow> nat set"
  possible_clones :: "nat \<Rightarrow> nat set"
  conn_bus_formats :: "nat \<Rightarrow> media_bus_fmt list"
  conn_bus_flags :: "nat \<Rightarrow> bus_flag set"
  get_crtc_err :: "nat \<Rightarrow> int"
  get_conn_err :: "nat \<Rightarrow> int"
  get_plane_err :: "nat \<Rightarrow> int"
  get_bridge_err :: "nat \<Rightarrow> nat \<Rightarrow> int"
  alloc_fmts :: bool
  atomic_best_encoder :: "nat \<Rightarrow> (drm_atomic_commit \<Rightarrow> nat option) option"
  best_encoder :: "nat \<Rightarrow> nat option option"
  conn_atomic_check :: "nat \<Rightarrow> check_hook"
  enc_hooks :: "nat \<Rightarrow> encoder_hook"
  crtc_hooks :: "nat \<Rightarrow> crtc_hook"
  enc_chain :: "nat \<Rightarrow> (crtc_st \<times> conn_st) bridge_chain"
  enc_atomic_check :: "nat \<Rightarrow> (crtc_st \<Rightarrow> conn_st \<Rightarrow> int \<times> crtc_st \<times> conn_st) option"
  enc_mode_fixup :: "nat \<Rightarrow> fixup_hook"
  crtc_mode_fixup :: "nat \<Rightarrow> fixup_hook"
  plane_atomic_check :: "nat \<Rightarrow> check_hook"
  crtc_atomic_check :: "nat \<Rightarrow> check_hook"

text \<open>The inline helpers of the headers.\<close>

definition drm_atomic_crtc_needs_modeset :: "crtc_st \<Rightarrow> bool" where
  "drm_atomic_crtc_needs_modeset st \<longleftrightarrow> mode_changed st \<or> active_changed st \<or> connectors_changed st"

definition drm_atomic_crtc_effectively_active :: "crtc_st \<Rightarrow> bool" where
  "drm_atomic_crtc_effectively_active st \<longleftrightarrow> cs_active st \<or> self_refresh_active st"

text \<open>The loops over the objects of a commit stop at the first error.\<close>

fun for_each :: "(nat \<Rightarrow> 's \<Rightarrow> int \<times> 's) \<Rightarrow> nat list \<Rightarrow> 's \<Rightarrow> int \<times> 's" where
  "for_each f [] s = (0, s)"
| "for_each f (i # is) s = (let (ret, s) = f i s in if ret \<noteq> 0 then (ret, s) else for_each f is s)"

definition upd_crtc :: "nat \<Rightarrow> (crtc_st \<Rightarrow> crtc_st) \<Rightarrow> drm_atomic_commit \<Rightarrow> drm_atomic_commit" where
  "upd_crtc c f s = s\<lparr>crtcs := (crtcs s)(c := map_option f (crtcs s c))\<rparr>"

definition upd_conn :: "nat \<Rightarrow> (conn_st \<Rightarrow> conn_st) \<Rightarrow> drm_atomic_commit \<Rightarrow> drm_atomic_commit" where
  "upd_conn k f s = s\<lparr>conns := (conns s)(k := map_option f (conns s k))\<rparr>"

definition upd_plane :: "nat \<Rightarrow> (plane_st \<Rightarrow> plane_st) \<Rightarrow> drm_atomic_commit \<Rightarrow> drm_atomic_commit" where
  "upd_plane p f s = s\<lparr>planes := (planes s)(p := map_option f (planes s p))\<rparr>"

section \<open>Putting objects into a commit\<close>

definition drm_atomic_helper_crtc_duplicate_state :: "crtc_st \<Rightarrow> crtc_st" where
  "drm_atomic_helper_crtc_duplicate_state st = st\<lparr>mode_changed := False, active_changed := False, planes_changed := False,
     connectors_changed := False, cs_event := False, cs_active := drm_atomic_crtc_effectively_active st,
     self_refresh_active := False\<rparr>"

definition drm_atomic_get_crtc_state ::
    "modeset_dev \<Rightarrow> nat \<Rightarrow> drm_atomic_commit \<Rightarrow> int \<times> drm_atomic_commit" where
  "drm_atomic_get_crtc_state d c s =
     (if crtcs s c \<noteq> None then (0, s)
      else if get_crtc_err d c \<noteq> 0 then (get_crtc_err d c, s)
      else (0, s\<lparr>crtcs := (crtcs s)(c := Some (drm_atomic_helper_crtc_duplicate_state (crtc_cur d c)))\<rparr>))"

definition drm_atomic_get_connector_state ::
    "modeset_dev \<Rightarrow> nat \<Rightarrow> drm_atomic_commit \<Rightarrow> int \<times> drm_atomic_commit" where
  "drm_atomic_get_connector_state d k s =
     (if conns s k \<noteq> None then (0, s)
      else if get_conn_err d k \<noteq> 0 then (get_conn_err d k, s)
      else
        let st = conn_cur d k; s = s\<lparr>conns := (conns s)(k := Some st)\<rparr>
        in case cn_crtc st of Some c \<Rightarrow> drm_atomic_get_crtc_state d c s | None \<Rightarrow> (0, s))"

definition drm_atomic_get_plane_state ::
    "modeset_dev \<Rightarrow> nat \<Rightarrow> drm_atomic_commit \<Rightarrow> int \<times> drm_atomic_commit" where
  "drm_atomic_get_plane_state d p s =
     (if planes s p \<noteq> None then (0, s)
      else if get_plane_err d p \<noteq> 0 then (get_plane_err d p, s)
      else
        let st = plane_cur d p; s = s\<lparr>planes := (planes s)(p := Some st)\<rparr>
        in case pl_crtc st of Some c \<Rightarrow> drm_atomic_get_crtc_state d c s | None \<Rightarrow> (0, s))"

text \<open>The bridges of an encoder; a bridge without atomic state hooks has no current state.\<close>

definition drm_atomic_add_encoder_bridges ::
    "modeset_dev \<Rightarrow> nat option \<Rightarrow> drm_atomic_commit \<Rightarrow> int \<times> drm_atomic_commit" where
  "drm_atomic_add_encoder_bridges d encoder s = (case encoder of
     None \<Rightarrow> (0, s)
   | Some e \<Rightarrow>
       for_each (\<lambda>i s.
         if bridge_cur d e i = None \<or> bridge_sts s e i \<noteq> None then (0, s)
         else if get_bridge_err d e i \<noteq> 0 then (get_bridge_err d e i, s)
         else (0, s\<lparr>bridge_sts := (bridge_sts s)(e := (bridge_sts s e)(i := bridge_cur d e i))\<rparr>))
       [0..<length (enc_chain d e)] s)"

definition drm_atomic_add_affected_connectors ::
    "modeset_dev \<Rightarrow> nat \<Rightarrow> drm_atomic_commit \<Rightarrow> int \<times> drm_atomic_commit" where
  "drm_atomic_add_affected_connectors d c s =
     (let (ret, s) = drm_atomic_get_crtc_state d c s
      in if ret \<noteq> 0 then (ret, s)
         else for_each (\<lambda>k s. if k \<notin> connector_mask (the (crtcs s c)) then (0, s) else drm_atomic_get_connector_state d k s)
                [0..<n_conn d] s)"

text \<open>The planes of the old state; colour pipelines are left out.\<close>

definition drm_atomic_add_affected_planes ::
    "modeset_dev \<Rightarrow> nat \<Rightarrow> drm_atomic_commit \<Rightarrow> int \<times> drm_atomic_commit" where
  "drm_atomic_add_affected_planes d c s =
     for_each (\<lambda>p s. if p \<notin> plane_mask (crtc_cur d c) then (0, s) else drm_atomic_get_plane_state d p s)
       [0..<n_plane d] s"

section \<open>Changing the objects of a commit\<close>

text \<open>\<open>mode\<close> is a mode and its blob (which can fail to be created with the error given), or nothing.\<close>

definition zero_mode :: drm_mode_entry where
  "zero_mode = \<lparr>dmode = \<lparr>clock = 0, hdisplay = 0, hsync_start = 0, hsync_end = 0, htotal = 0, hskew = 0, vdisplay = 0,
     vsync_start = 0, vsync_end = 0, vtotal = 0, vscan = 0, flags = {}, stereo = DRM_MODE_FLAG_3D_NONE, crtc_clock = 0,
     crtc_hdisplay = 0, crtc_hblank_start = 0, crtc_hblank_end = 0, crtc_hsync_start = 0, crtc_hsync_end = 0,
     crtc_htotal = 0, crtc_hskew = 0, crtc_vdisplay = 0, crtc_vblank_start = 0, crtc_vblank_end = 0,
     crtc_vsync_start = 0, crtc_vsync_end = 0, crtc_vtotal = 0\<rparr>, dtype = {}, status = MODE_OK, picture_aspect_ratio = 0\<rparr>"

definition drm_atomic_set_mode_for_crtc ::
    "(drm_mode_entry \<times> int) option \<Rightarrow> crtc_st \<Rightarrow> int \<times> crtc_st" where
  "drm_atomic_set_mode_for_crtc m st = (case m of
     Some (mode, err) \<Rightarrow>
       if cs_mode st = mode then (0, st)
       else if err \<noteq> 0 then (err, st\<lparr>mode_blob := False\<rparr>)
       else (0, st\<lparr>cs_mode := mode, mode_blob := True, cs_enable := True\<rparr>)
   | None \<Rightarrow> (0, st\<lparr>mode_blob := False, cs_mode := zero_mode, cs_enable := False\<rparr>))"

text \<open>The null blob: the CRTC is to be off.\<close>

definition drm_atomic_clear_mode_prop_for_crtc :: "crtc_st \<Rightarrow> crtc_st" where
  "drm_atomic_clear_mode_prop_for_crtc st =
     (if \<not> mode_blob st then st else st\<lparr>mode_blob := False, cs_mode := zero_mode, cs_enable := False\<rparr>)"

definition drm_atomic_set_crtc_for_plane ::
    "modeset_dev \<Rightarrow> nat \<Rightarrow> nat option \<Rightarrow> drm_atomic_commit \<Rightarrow> int \<times> drm_atomic_commit" where
  "drm_atomic_set_crtc_for_plane d p crtc s =
     (let cur = pl_crtc (the (planes s p))
      in if cur = crtc then (0, s)
         else
           let (ret, s) = (case cur of
                 None \<Rightarrow> (0, s)
               | Some c \<Rightarrow> let (ret, s) = drm_atomic_get_crtc_state d c s
                           in if ret \<noteq> 0 then (ret, s) else (0, upd_crtc c (\<lambda>st. st\<lparr>plane_mask := plane_mask st - {p}\<rparr>) s))
           in if ret \<noteq> 0 then (ret, s)
              else
                let s = upd_plane p (\<lambda>st. st\<lparr>pl_crtc := crtc\<rparr>) s
                in case crtc of
                     None \<Rightarrow> (0, s)
                   | Some c \<Rightarrow> let (ret, s) = drm_atomic_get_crtc_state d c s
                               in if ret \<noteq> 0 then (ret, s)
                                  else (0, upd_crtc c (\<lambda>st. st\<lparr>plane_mask := plane_mask st \<union> {p}\<rparr>) s))"

definition drm_atomic_set_crtc_for_connector ::
    "modeset_dev \<Rightarrow> nat \<Rightarrow> nat option \<Rightarrow> drm_atomic_commit \<Rightarrow> int \<times> drm_atomic_commit" where
  "drm_atomic_set_crtc_for_connector d k crtc s =
     (let cur = cn_crtc (the (conns s k))
      in if cur = crtc then (0, s)
         else
           let s = (case cur of
                 None \<Rightarrow> s
               | Some c \<Rightarrow> upd_conn k (\<lambda>st. st\<lparr>cn_crtc := None\<rparr>)
                            (upd_crtc c (\<lambda>st. st\<lparr>connector_mask := connector_mask st - {k}\<rparr>) s))
           in case crtc of
                None \<Rightarrow> (0, s)
              | Some c \<Rightarrow>
                  let (ret, s) = drm_atomic_get_crtc_state d c s
                  in if ret \<noteq> 0 then (ret, s)
                     else (0, upd_conn k (\<lambda>st. st\<lparr>cn_crtc := Some c\<rparr>)
                               (upd_crtc c (\<lambda>st. st\<lparr>connector_mask := connector_mask st \<union> {k}\<rparr>) s)))"

section \<open>The core check of a CRTC\<close>

text \<open>\<open>atomic_driver\<close>: the device has the feature \<open>DRIVER_ATOMIC\<close>.\<close>

definition drm_atomic_crtc_check :: "bool \<Rightarrow> crtc_st \<Rightarrow> crtc_st \<Rightarrow> int" where
  "drm_atomic_crtc_check atomic_driver old_st new_st =
     (if cs_active new_st \<and> \<not> cs_enable new_st then - EINVAL
      else if atomic_driver \<and> cs_enable new_st \<and> \<not> mode_blob new_st then - EINVAL
      else if atomic_driver \<and> \<not> cs_enable new_st \<and> mode_blob new_st then - EINVAL
      else if cs_event new_st \<and> \<not> cs_active new_st \<and> \<not> cs_active old_st then - EINVAL
      else 0)"

section \<open>The new state of an object\<close>

text \<open>What the device will show after the commit: the staged state, or the current one of an object that is not part of it.\<close>

definition new_crtc :: "modeset_dev \<Rightarrow> drm_atomic_commit \<Rightarrow> nat \<Rightarrow> crtc_st" where
  "new_crtc d s c = (case crtcs s c of Some st \<Rightarrow> st | None \<Rightarrow> crtc_cur d c)"

definition new_conn :: "modeset_dev \<Rightarrow> drm_atomic_commit \<Rightarrow> nat \<Rightarrow> conn_st" where
  "new_conn d s k = (case conns s k of Some st \<Rightarrow> st | None \<Rightarrow> conn_cur d k)"

definition new_plane :: "modeset_dev \<Rightarrow> drm_atomic_commit \<Rightarrow> nat \<Rightarrow> plane_st" where
  "new_plane d s p = (case planes s p of Some st \<Rightarrow> st | None \<Rightarrow> plane_cur d p)"

text \<open>
  A consistent routing of \<open>n\<close> connectors over \<open>m\<close> CRTCs: a connector has an encoder exactly when it has a CRTC, no
  encoder serves two connectors, the masks of every CRTC are exact and it is enabled exactly when it has connectors.
  In a consistent device the masks of the planes are exact too, and every encoder can be fed by the CRTC it is used with.
\<close>

definition routing_ok :: "nat \<Rightarrow> nat \<Rightarrow> (nat \<Rightarrow> conn_st) \<Rightarrow> (nat \<Rightarrow> crtc_st) \<Rightarrow> bool" where
  "routing_ok n m cn cs \<longleftrightarrow>
     (\<forall>k<n. (cn_crtc (cn k) = None \<longleftrightarrow> cn_encoder (cn k) = None) \<and> (\<forall>c. cn_crtc (cn k) = Some c \<longrightarrow> c < m)) \<and>
     (\<forall>k<n. \<forall>k'<n. \<forall>e. cn_encoder (cn k) = Some e \<longrightarrow> cn_encoder (cn k') = Some e \<longrightarrow> k = k') \<and>
     (\<forall>c<m. connector_mask (cs c) = {k. k < n \<and> cn_crtc (cn k) = Some c} \<and>
            encoder_mask (cs c) = {e. \<exists>k<n. cn_crtc (cn k) = Some c \<and> cn_encoder (cn k) = Some e} \<and>
            (cs_enable (cs c) \<longleftrightarrow> connector_mask (cs c) \<noteq> {}))"

definition planes_ok :: "nat \<Rightarrow> nat \<Rightarrow> (nat \<Rightarrow> plane_st) \<Rightarrow> (nat \<Rightarrow> crtc_st) \<Rightarrow> bool" where
  "planes_ok n m pl cs \<longleftrightarrow> (\<forall>p<n. \<forall>c. pl_crtc (pl p) = Some c \<longrightarrow> c < m) \<and>
     (\<forall>c<m. plane_mask (cs c) = {p. p < n \<and> pl_crtc (pl p) = Some c})"

definition paths_ok :: "modeset_dev \<Rightarrow> (nat \<Rightarrow> conn_st) \<Rightarrow> bool" where
  "paths_ok d cn \<longleftrightarrow> (\<forall>k<n_conn d. \<forall>c e. cn_crtc (cn k) = Some c \<longrightarrow> cn_encoder (cn k) = Some e \<longrightarrow> c \<in> possible_crtcs d e)"

definition device_ok :: "modeset_dev \<Rightarrow> bool" where
  "device_ok d \<longleftrightarrow> routing_ok (n_conn d) (n_crtc d) (conn_cur d) (crtc_cur d) \<and>
     planes_ok (n_plane d) (n_crtc d) (plane_cur d) (crtc_cur d) \<and> paths_ok d (conn_cur d)"

lemma device_okD:
  assumes "device_ok d" "k < n_conn d"
  shows "cn_crtc (conn_cur d k) = None \<longleftrightarrow> cn_encoder (conn_cur d k) = None"
    and "cn_crtc (conn_cur d k) = Some c \<Longrightarrow> c < n_crtc d"
    and "cn_encoder (conn_cur d k) = Some e \<Longrightarrow> k' < n_conn d \<Longrightarrow> cn_encoder (conn_cur d k') = Some e \<Longrightarrow> k = k'"
  using assms unfolding device_ok_def routing_ok_def by blast+

lemma device_ok_masks:
  assumes "device_ok d" "c < n_crtc d"
  shows "connector_mask (crtc_cur d c) = {k. k < n_conn d \<and> cn_crtc (conn_cur d k) = Some c}"
    and "encoder_mask (crtc_cur d c) = {e. \<exists>k<n_conn d. cn_crtc (conn_cur d k) = Some c \<and> cn_encoder (conn_cur d k) = Some e}"
    and "cs_enable (crtc_cur d c) \<longleftrightarrow> connector_mask (crtc_cur d c) \<noteq> {}"
    and "plane_mask (crtc_cur d c) = {p. p < n_plane d \<and> pl_crtc (plane_cur d p) = Some c}"
  using assms unfolding device_ok_def routing_ok_def planes_ok_def by blast+

lemma device_ok_planes:
  assumes "device_ok d" "p < n_plane d" "pl_crtc (plane_cur d p) = Some c"
  shows "c < n_crtc d"
  using assms unfolding device_ok_def planes_ok_def by blast

section \<open>Building a commit\<close>

definition empty_commit :: drm_atomic_commit where
  "empty_commit = \<lparr>crtcs = (\<lambda>_. None), conns = (\<lambda>_. None), planes = (\<lambda>_. None), bridge_sts = (\<lambda>_ _. None), duplicated = False\<rparr>"

text \<open>
  A user of the atomic interface starts from the empty commit, adds objects, routes connectors and planes that are part of it, and
  sets the properties of CRTCs: everything but the masks, which only the routing functions touch.
\<close>

definition same_masks :: "crtc_st \<Rightarrow> crtc_st \<Rightarrow> bool" where
  "same_masks st st' \<longleftrightarrow> connector_mask st' = connector_mask st \<and> encoder_mask st' = encoder_mask st \<and>
     plane_mask st' = plane_mask st"

inductive building :: "modeset_dev \<Rightarrow> drm_atomic_commit \<Rightarrow> bool" for d where
  building_empty: "building d empty_commit"
| building_crtc: "building d s \<Longrightarrow> c < n_crtc d \<Longrightarrow> drm_atomic_get_crtc_state d c s = (0, s') \<Longrightarrow> building d s'"
| building_conn: "building d s \<Longrightarrow> k < n_conn d \<Longrightarrow> drm_atomic_get_connector_state d k s = (0, s') \<Longrightarrow> building d s'"
| building_plane: "building d s \<Longrightarrow> p < n_plane d \<Longrightarrow> drm_atomic_get_plane_state d p s = (0, s') \<Longrightarrow> building d s'"
| building_route: "building d s \<Longrightarrow> conns s k \<noteq> None \<Longrightarrow> (\<forall>c. crtc = Some c \<longrightarrow> c < n_crtc d) \<Longrightarrow>
    drm_atomic_set_crtc_for_connector d k crtc s = (0, s') \<Longrightarrow> building d s'"
| building_plane_route: "building d s \<Longrightarrow> planes s p \<noteq> None \<Longrightarrow> (\<forall>c. crtc = Some c \<longrightarrow> c < n_crtc d) \<Longrightarrow>
    drm_atomic_set_crtc_for_plane d p crtc s = (0, s') \<Longrightarrow> building d s'"
| building_props: "building d s \<Longrightarrow> (\<And>st. same_masks st (f st)) \<Longrightarrow> building d (upd_crtc c f s)"
| building_fb: "building d s \<Longrightarrow> building d (upd_plane p (\<lambda>st. st\<lparr>pl_fb := fb\<rparr>) s)"
| building_link: "building d s \<Longrightarrow> building d (upd_conn k (\<lambda>st. st\<lparr>link_status := l, max_requested_bpc := b\<rparr>) s)"

text \<open>
  What holds of a commit under construction: its objects are those of the device, the CRTCs its connectors and planes leave or join are
  part of it, no encoder is chosen yet, and the masks describe the new routing, except that of the encoders, which
  still describes the old one.
\<close>

definition staged :: "modeset_dev \<Rightarrow> drm_atomic_commit \<Rightarrow> bool" where
  "staged d s \<longleftrightarrow>
     (\<forall>k st. conns s k = Some st \<longrightarrow> k < n_conn d \<and> cn_encoder st = cn_encoder (conn_cur d k) \<and>
        (\<forall>c. cn_crtc st = Some c \<or> cn_crtc (conn_cur d k) = Some c \<longrightarrow> crtcs s c \<noteq> None)) \<and>
     (\<forall>p st. planes s p = Some st \<longrightarrow> p < n_plane d \<and>
        (\<forall>c. pl_crtc st = Some c \<or> pl_crtc (plane_cur d p) = Some c \<longrightarrow> crtcs s c \<noteq> None)) \<and>
     (\<forall>c st. crtcs s c = Some st \<longrightarrow> c < n_crtc d \<and> encoder_mask st = encoder_mask (crtc_cur d c) \<and>
        connector_mask st = {k. k < n_conn d \<and> cn_crtc (new_conn d s k) = Some c} \<and>
        plane_mask st = {p. p < n_plane d \<and> pl_crtc (new_plane d s p) = Some c})"

lemma stagedD_conn:
  assumes "staged d s" "conns s k = Some st"
  shows "k < n_conn d" "cn_encoder st = cn_encoder (conn_cur d k)"
    "cn_crtc st = Some c \<Longrightarrow> crtcs s c \<noteq> None" "cn_crtc (conn_cur d k) = Some c \<Longrightarrow> crtcs s c \<noteq> None"
  using assms unfolding staged_def by blast+

lemma stagedD_plane:
  assumes "staged d s" "planes s p = Some st"
  shows "p < n_plane d" "pl_crtc st = Some c \<Longrightarrow> crtcs s c \<noteq> None" "pl_crtc (plane_cur d p) = Some c \<Longrightarrow> crtcs s c \<noteq> None"
  using assms unfolding staged_def by blast+

lemma stagedD_crtc:
  assumes "staged d s" "crtcs s c = Some st"
  shows "c < n_crtc d" "encoder_mask st = encoder_mask (crtc_cur d c)"
    "connector_mask st = {k. k < n_conn d \<and> cn_crtc (new_conn d s k) = Some c}"
    "plane_mask st = {p. p < n_plane d \<and> pl_crtc (new_plane d s p) = Some c}"
  using assms unfolding staged_def by blast+

lemma stagedI:
  assumes "\<And>k st. conns s k = Some st \<Longrightarrow> k < n_conn d \<and> cn_encoder st = cn_encoder (conn_cur d k)"
    and "\<And>k st c. conns s k = Some st \<Longrightarrow> cn_crtc st = Some c \<or> cn_crtc (conn_cur d k) = Some c \<Longrightarrow> crtcs s c \<noteq> None"
    and "\<And>p st. planes s p = Some st \<Longrightarrow> p < n_plane d"
    and "\<And>p st c. planes s p = Some st \<Longrightarrow> pl_crtc st = Some c \<or> pl_crtc (plane_cur d p) = Some c \<Longrightarrow> crtcs s c \<noteq> None"
    and "\<And>c st. crtcs s c = Some st \<Longrightarrow> c < n_crtc d \<and> encoder_mask st = encoder_mask (crtc_cur d c)"
    and "\<And>c st. crtcs s c = Some st \<Longrightarrow> connector_mask st = {k. k < n_conn d \<and> cn_crtc (new_conn d s k) = Some c}"
    and "\<And>c st. crtcs s c = Some st \<Longrightarrow> plane_mask st = {p. p < n_plane d \<and> pl_crtc (new_plane d s p) = Some c}"
  shows "staged d s"
  using assms unfolding staged_def by blast

lemma new_conn_simps [simp]:
  "conns s k = Some st \<Longrightarrow> new_conn d s k = st" "conns s k = None \<Longrightarrow> new_conn d s k = conn_cur d k"
  by (simp_all add: new_conn_def)

lemma new_plane_simps [simp]:
  "planes s k = Some st \<Longrightarrow> new_plane d s k = st" "planes s k = None \<Longrightarrow> new_plane d s k = plane_cur d k"
  by (simp_all add: new_plane_def)

lemma staged_empty: "staged d empty_commit"
  by (simp add: staged_def empty_commit_def)

text \<open>A CRTC that is not part of the commit is used by the same connectors and planes as before.\<close>

lemma staged_absent:
  assumes "staged d s" "crtcs s c = None"
  shows "cn_crtc (new_conn d s k) = Some c \<longleftrightarrow> cn_crtc (conn_cur d k) = Some c"
    and "pl_crtc (new_plane d s p) = Some c \<longleftrightarrow> pl_crtc (plane_cur d p) = Some c"
proof -
  show "cn_crtc (new_conn d s k) = Some c \<longleftrightarrow> cn_crtc (conn_cur d k) = Some c"
    using assms(2) stagedD_conn(3,4) [OF assms(1)] by (cases "conns s k") fastforce+
  show "pl_crtc (new_plane d s p) = Some c \<longleftrightarrow> pl_crtc (plane_cur d p) = Some c"
    using assms(2) stagedD_plane(2,3) [OF assms(1)] by (cases "planes s p") fastforce+
qed

lemma staged_add_crtc:
  assumes "device_ok d" "staged d s" "c < n_crtc d" "crtcs s c = None"
    and "same_masks (crtc_cur d c) st"
  shows "staged d (s\<lparr>crtcs := (crtcs s)(c := Some st)\<rparr>)"
proof (rule stagedI, goal_cases)
  case (6 c' st')
  then show ?case
    using assms device_ok_masks(1) [OF assms(1,3)] staged_absent(1) [OF assms(2,4)] stagedD_crtc(3) [OF assms(2)]
    by (auto simp: same_masks_def new_conn_def split: if_splits)
next
  case (7 c' st')
  then show ?case
    using assms device_ok_masks(4) [OF assms(1,3)] staged_absent(2) [OF assms(2,4)] stagedD_crtc(4) [OF assms(2)]
    by (auto simp: same_masks_def new_plane_def split: if_splits)
qed (use assms in \<open>auto simp: same_masks_def dest: stagedD_conn stagedD_plane stagedD_crtc split: if_splits\<close>)

lemma get_crtc_state_staged:
  assumes "device_ok d" "staged d s" "c < n_crtc d" "drm_atomic_get_crtc_state d c s = (0, s')"
  shows "staged d s' \<and> crtcs s' c \<noteq> None \<and> conns s' = conns s \<and> planes s' = planes s \<and> bridge_sts s' = bridge_sts s \<and>
    crtcs s \<subseteq>\<^sub>m crtcs s' \<and> dom (crtcs s') = insert c (dom (crtcs s))"
proof (cases "crtcs s c")
  case (Some st)
  then show ?thesis using assms by (auto simp: drm_atomic_get_crtc_state_def)
next
  case None
  then have s': "s' = s\<lparr>crtcs := (crtcs s)(c := Some (drm_atomic_helper_crtc_duplicate_state (crtc_cur d c)))\<rparr>"
    using assms(4) by (auto simp: drm_atomic_get_crtc_state_def split: if_splits)
  then show ?thesis
    using staged_add_crtc [OF assms(1,2,3) None] None
    by (auto simp: same_masks_def drm_atomic_helper_crtc_duplicate_state_def map_le_def)
qed

text \<open>Adding a connector or a plane with its current state changes no routing.\<close>

lemma staged_add_conn:
  assumes "staged d s" "k < n_conn d" "conns s k = None"
    and "\<And>c. cn_crtc (conn_cur d k) = Some c \<Longrightarrow> crtcs s c \<noteq> None"
  shows "staged d (s\<lparr>conns := (conns s)(k := Some (conn_cur d k))\<rparr>)"
proof -
  have eq: "new_conn d (s\<lparr>conns := (conns s)(k := Some (conn_cur d k))\<rparr>) = new_conn d s"
    "new_plane d (s\<lparr>conns := (conns s)(k := Some (conn_cur d k))\<rparr>) = new_plane d s"
    using assms(3) by (auto simp: new_conn_def new_plane_def)
  show ?thesis
    using assms unfolding staged_def eq by auto
qed

lemma staged_add_plane:
  assumes "staged d s" "p < n_plane d" "planes s p = None"
    and "\<And>c. pl_crtc (plane_cur d p) = Some c \<Longrightarrow> crtcs s c \<noteq> None"
  shows "staged d (s\<lparr>planes := (planes s)(p := Some (plane_cur d p))\<rparr>)"
proof -
  have eq: "new_conn d (s\<lparr>planes := (planes s)(p := Some (plane_cur d p))\<rparr>) = new_conn d s"
    "new_plane d (s\<lparr>planes := (planes s)(p := Some (plane_cur d p))\<rparr>) = new_plane d s"
    using assms(3) by (auto simp: new_conn_def new_plane_def)
  show ?thesis
    using assms unfolding staged_def eq by auto
qed

lemma get_connector_state_eq:
  assumes "conns s k = None" "drm_atomic_get_connector_state d k s = (0, s')"
  shows "\<exists>s1. s' = s1\<lparr>conns := (conns s1)(k := Some (conn_cur d k))\<rparr> \<and>
    (case cn_crtc (conn_cur d k) of None \<Rightarrow> s1 = s | Some c \<Rightarrow> drm_atomic_get_crtc_state d c s = (0, s1))"
proof (cases "cn_crtc (conn_cur d k)")
  case None
  then show ?thesis using assms by (auto simp: drm_atomic_get_connector_state_def Let_def split: if_splits)
next
  case (Some c)
  then show ?thesis
    using assms
    by (intro exI [of _ "snd (drm_atomic_get_crtc_state d c s)"])
       (auto simp: drm_atomic_get_connector_state_def drm_atomic_get_crtc_state_def Let_def split: if_splits)
qed

lemma get_plane_state_eq:
  assumes "planes s p = None" "drm_atomic_get_plane_state d p s = (0, s')"
  shows "\<exists>s1. s' = s1\<lparr>planes := (planes s1)(p := Some (plane_cur d p))\<rparr> \<and>
    (case pl_crtc (plane_cur d p) of None \<Rightarrow> s1 = s | Some c \<Rightarrow> drm_atomic_get_crtc_state d c s = (0, s1))"
proof (cases "pl_crtc (plane_cur d p)")
  case None
  then show ?thesis using assms by (auto simp: drm_atomic_get_plane_state_def Let_def split: if_splits)
next
  case (Some c)
  then show ?thesis
    using assms
    by (intro exI [of _ "snd (drm_atomic_get_crtc_state d c s)"])
       (auto simp: drm_atomic_get_plane_state_def drm_atomic_get_crtc_state_def Let_def split: if_splits)
qed

lemma get_connector_state_staged:
  assumes "device_ok d" "staged d s" "k < n_conn d" "drm_atomic_get_connector_state d k s = (0, s')"
  shows "staged d s' \<and> conns s' k \<noteq> None"
proof (cases "conns s k")
  case (Some st)
  then show ?thesis using assms by (simp add: drm_atomic_get_connector_state_def)
next
  case None
  then obtain s1 where s1: "s' = s1\<lparr>conns := (conns s1)(k := Some (conn_cur d k))\<rparr>"
      "case cn_crtc (conn_cur d k) of None \<Rightarrow> s1 = s | Some c \<Rightarrow> drm_atomic_get_crtc_state d c s = (0, s1)"
    using get_connector_state_eq [OF None assms(4)] by blast
  have "staged d s1 \<and> conns s1 k = None \<and> (\<forall>c. cn_crtc (conn_cur d k) = Some c \<longrightarrow> crtcs s1 c \<noteq> None)"
  proof (cases "cn_crtc (conn_cur d k)")
    case None
    then show ?thesis using s1(2) assms(2) \<open>conns s k = None\<close> by simp
  next
    case (Some c)
    then have "c < n_crtc d" using device_okD(2) [OF assms(1,3)] by blast
    then show ?thesis using get_crtc_state_staged [OF assms(1,2)] s1(2) Some \<open>conns s k = None\<close> by fastforce
  qed
  then show ?thesis using staged_add_conn [of d s1 k] assms(3) s1(1) by auto
qed

lemma get_plane_state_staged:
  assumes "device_ok d" "staged d s" "p < n_plane d" "drm_atomic_get_plane_state d p s = (0, s')"
  shows "staged d s' \<and> planes s' p \<noteq> None"
proof (cases "planes s p")
  case (Some st)
  then show ?thesis using assms by (simp add: drm_atomic_get_plane_state_def)
next
  case None
  then obtain s1 where s1: "s' = s1\<lparr>planes := (planes s1)(p := Some (plane_cur d p))\<rparr>"
      "case pl_crtc (plane_cur d p) of None \<Rightarrow> s1 = s | Some c \<Rightarrow> drm_atomic_get_crtc_state d c s = (0, s1)"
    using get_plane_state_eq [OF None assms(4)] by blast
  have "staged d s1 \<and> planes s1 p = None \<and> (\<forall>c. pl_crtc (plane_cur d p) = Some c \<longrightarrow> crtcs s1 c \<noteq> None)"
  proof (cases "pl_crtc (plane_cur d p)")
    case None
    then show ?thesis using s1(2) assms(2) \<open>planes s p = None\<close> by simp
  next
    case (Some c)
    then have "c < n_crtc d" using device_ok_planes [OF assms(1,3)] by blast
    then show ?thesis using get_crtc_state_staged [OF assms(1,2)] s1(2) Some \<open>planes s p = None\<close> by fastforce
  qed
  then show ?thesis using staged_add_plane [of d s1 p] assms(3) s1(1) by auto
qed

text \<open>Routing a connector: leaving its CRTC, then joining another one.\<close>

lemma staged_leave:
  assumes "staged d s" "conns s k = Some cn" "cn_crtc cn = Some c"
  shows "staged d (upd_conn k (\<lambda>st. st\<lparr>cn_crtc := None\<rparr>)
           (upd_crtc c (\<lambda>st. st\<lparr>connector_mask := connector_mask st - {k}\<rparr>) s))" (is "staged d ?s")
proof (rule stagedI, goal_cases)
  case (6 c' st)
  have "{i. i < n_conn d \<and> cn_crtc (new_conn d ?s i) = Some c'} = {i. i < n_conn d \<and> cn_crtc (new_conn d s i) = Some c'} - {k}"
    using assms(2) by (auto simp: new_conn_def upd_conn_def upd_crtc_def split: if_splits)
  then show ?case
    using 6 stagedD_crtc(3) [OF assms(1)] assms by (auto simp: upd_conn_def upd_crtc_def split: if_splits)
next
  case (7 c' st)
  then show ?case
    using stagedD_crtc(4) [OF assms(1)] by (auto simp: upd_conn_def upd_crtc_def new_plane_def split: if_splits)
qed (use assms in \<open>auto simp: upd_conn_def upd_crtc_def dest: stagedD_conn stagedD_plane stagedD_crtc split: if_splits\<close>)

lemma staged_join:
  assumes "staged d s" "conns s k = Some cn" "cn_crtc cn = None" "crtcs s c = Some cs"
  shows "staged d (upd_conn k (\<lambda>st. st\<lparr>cn_crtc := Some c\<rparr>)
           (upd_crtc c (\<lambda>st. st\<lparr>connector_mask := connector_mask st \<union> {k}\<rparr>) s))" (is "staged d ?s")
proof (rule stagedI, goal_cases)
  case (6 c' st)
  have "{i. i < n_conn d \<and> cn_crtc (new_conn d ?s i) = Some c'} =
      {i. i < n_conn d \<and> cn_crtc (new_conn d s i) = Some c'} \<union> (if c' = c then {k} else {})"
    using assms stagedD_conn(1) [OF assms(1,2)] by (auto simp: new_conn_def upd_conn_def upd_crtc_def split: if_splits)
  then show ?case
    using 6 stagedD_crtc(3) [OF assms(1)] assms by (auto simp: upd_conn_def upd_crtc_def split: if_splits)
next
  case (7 c' st)
  then show ?case
    using stagedD_crtc(4) [OF assms(1)] by (auto simp: upd_conn_def upd_crtc_def new_plane_def split: if_splits)
qed (use assms in \<open>auto simp: upd_conn_def upd_crtc_def dest: stagedD_conn stagedD_plane stagedD_crtc split: if_splits\<close>)

lemma set_crtc_for_connector_staged:
  assumes "device_ok d" "staged d s" "conns s k = Some cn" "\<forall>c. crtc = Some c \<longrightarrow> c < n_crtc d"
    and "drm_atomic_set_crtc_for_connector d k crtc s = (0, s')"
  shows "staged d s'"
proof (cases "cn_crtc cn = crtc")
  case True
  then show ?thesis using assms by (simp add: drm_atomic_set_crtc_for_connector_def)
next
  case False
  define s1 where "s1 = (case cn_crtc cn of None \<Rightarrow> s
    | Some c \<Rightarrow> upd_conn k (\<lambda>st. st\<lparr>cn_crtc := None\<rparr>)
        (upd_crtc c (\<lambda>st. st\<lparr>connector_mask := connector_mask st - {k}\<rparr>) s))"
  have st1: "staged d s1"
    using assms(2,3) staged_leave [OF assms(2,3)] by (auto simp: s1_def split: option.splits)
  obtain cn1 where cn1: "conns s1 k = Some cn1" "cn_crtc cn1 = None"
    using assms(3) by (cases "cn_crtc cn") (auto simp: s1_def upd_conn_def upd_crtc_def)
  show ?thesis
  proof (cases crtc)
    case None
    then obtain y where "cn_crtc cn = Some y" using False by auto
    then show ?thesis using assms(3,5) None st1 by (simp add: drm_atomic_set_crtc_for_connector_def s1_def Let_def)
  next
    case (Some c)
    obtain ret s2 where g: "drm_atomic_get_crtc_state d c s1 = (ret, s2)" by (cases "drm_atomic_get_crtc_state d c s1")
    have s': "ret = 0 \<and> s' = upd_conn k (\<lambda>st. st\<lparr>cn_crtc := Some c\<rparr>)
        (upd_crtc c (\<lambda>st. st\<lparr>connector_mask := connector_mask st \<union> {k}\<rparr>) s2)"
      using assms(3,5) False Some g
      by (auto simp: drm_atomic_set_crtc_for_connector_def s1_def [symmetric] Let_def split: if_splits)
    then have "staged d s2 \<and> crtcs s2 c \<noteq> None \<and> conns s2 = conns s1"
      using get_crtc_state_staged [OF assms(1) st1, of c s2] g assms(4) Some by simp
    then show ?thesis using staged_join [of d s2 k cn1 c] s' cn1 by auto
  qed
qed

text \<open>The same for a plane; the source assigns the CRTC between the two updates of the masks.\<close>

lemma staged_plane_leave:
  assumes "staged d s" "planes s p = Some pl" "pl_crtc pl = Some c"
  shows "staged d (upd_plane p (\<lambda>st. st\<lparr>pl_crtc := None\<rparr>)
           (upd_crtc c (\<lambda>st. st\<lparr>plane_mask := plane_mask st - {p}\<rparr>) s))" (is "staged d ?s")
proof (rule stagedI, goal_cases)
  case (6 c' st)
  then show ?case
    using stagedD_crtc(3) [OF assms(1)] by (auto simp: upd_plane_def upd_crtc_def new_conn_def split: if_splits)
next
  case (7 c' st)
  have "{i. i < n_plane d \<and> pl_crtc (new_plane d ?s i) = Some c'} = {i. i < n_plane d \<and> pl_crtc (new_plane d s i) = Some c'} - {p}"
    using assms(2) by (auto simp: new_plane_def upd_plane_def upd_crtc_def split: if_splits)
  then show ?case
    using 7 stagedD_crtc(4) [OF assms(1)] assms by (auto simp: upd_plane_def upd_crtc_def split: if_splits)
qed (use assms in \<open>auto simp: upd_plane_def upd_crtc_def dest: stagedD_conn stagedD_plane stagedD_crtc split: if_splits\<close>)

lemma staged_plane_join:
  assumes "staged d s" "planes s p = Some pl" "pl_crtc pl = None" "crtcs s c = Some cs"
  shows "staged d (upd_plane p (\<lambda>st. st\<lparr>pl_crtc := Some c\<rparr>)
           (upd_crtc c (\<lambda>st. st\<lparr>plane_mask := plane_mask st \<union> {p}\<rparr>) s))" (is "staged d ?s")
proof (rule stagedI, goal_cases)
  case (6 c' st)
  then show ?case
    using stagedD_crtc(3) [OF assms(1)] by (auto simp: upd_plane_def upd_crtc_def new_conn_def split: if_splits)
next
  case (7 c' st)
  have "{i. i < n_plane d \<and> pl_crtc (new_plane d ?s i) = Some c'} =
      {i. i < n_plane d \<and> pl_crtc (new_plane d s i) = Some c'} \<union> (if c' = c then {p} else {})"
    using assms stagedD_plane(1) [OF assms(1,2)] by (auto simp: new_plane_def upd_plane_def upd_crtc_def split: if_splits)
  then show ?case
    using 7 stagedD_crtc(4) [OF assms(1)] assms by (auto simp: upd_plane_def upd_crtc_def split: if_splits)
qed (use assms in \<open>auto simp: upd_plane_def upd_crtc_def dest: stagedD_conn stagedD_plane stagedD_crtc split: if_splits\<close>)

lemma get_crtc_upd_plane:
  "drm_atomic_get_crtc_state d c (upd_plane p f s) =
     (fst (drm_atomic_get_crtc_state d c s), upd_plane p f (snd (drm_atomic_get_crtc_state d c s)))"
  by (simp add: drm_atomic_get_crtc_state_def upd_plane_def)

lemma upd_plane_upd_plane: "upd_plane p f (upd_plane p g s) = upd_plane p (\<lambda>st. f (g st)) s"
  by (simp add: upd_plane_def option.map_comp comp_def)

lemma upd_plane_upd_crtc: "upd_crtc c g (upd_plane p f s) = upd_plane p f (upd_crtc c g s)"
  by (simp add: upd_plane_def upd_crtc_def)

lemma set_crtc_for_plane_staged:
  assumes "device_ok d" "staged d s" "planes s p = Some pl" "\<forall>c. crtc = Some c \<longrightarrow> c < n_crtc d"
    and "drm_atomic_set_crtc_for_plane d p crtc s = (0, s')"
  shows "staged d s'"
proof (cases "pl_crtc pl = crtc")
  case True
  then show ?thesis using assms by (simp add: drm_atomic_set_crtc_for_plane_def)
next
  case False
  define sa where "sa = (case pl_crtc pl of None \<Rightarrow> s
    | Some a \<Rightarrow> upd_crtc a (\<lambda>st. st\<lparr>plane_mask := plane_mask st - {p}\<rparr>) s)"
  define s1 where "s1 = upd_plane p (\<lambda>st. st\<lparr>pl_crtc := None\<rparr>) sa"
  have eq: "drm_atomic_set_crtc_for_plane d p crtc s =
      (let s = upd_plane p (\<lambda>st. st\<lparr>pl_crtc := crtc\<rparr>) sa
       in case crtc of
            None \<Rightarrow> (0, s)
          | Some c \<Rightarrow> let (ret, s) = drm_atomic_get_crtc_state d c s
                      in if ret \<noteq> 0 then (ret, s)
                         else (0, upd_crtc c (\<lambda>st. st\<lparr>plane_mask := plane_mask st \<union> {p}\<rparr>) s))"
    using False assms(3) stagedD_plane(2) [OF assms(2,3)]
    by (cases "pl_crtc pl") (simp_all add: drm_atomic_set_crtc_for_plane_def drm_atomic_get_crtc_state_def sa_def Let_def)
  have pl: "planes sa p = Some pl" using assms(3) by (cases "pl_crtc pl") (auto simp: sa_def upd_crtc_def)
  have st1: "staged d s1"
  proof (cases "pl_crtc pl")
    case None
    then have "s1 = s" using assms(3) by (cases s) (auto simp: s1_def sa_def upd_plane_def fun_eq_iff)
    then show ?thesis using assms(2) by simp
  next
    case (Some c)
    then show ?thesis using staged_plane_leave [OF assms(2,3) Some] by (simp add: s1_def sa_def)
  qed
  show ?thesis
  proof (cases crtc)
    case None
    then show ?thesis using assms(5) st1 unfolding eq by (simp add: s1_def)
  next
    case (Some c)
    obtain ret s2 where g: "drm_atomic_get_crtc_state d c sa = (ret, s2)" by (cases "drm_atomic_get_crtc_state d c sa")
    have s': "ret = 0" "s' = upd_crtc c (\<lambda>st. st\<lparr>plane_mask := plane_mask st \<union> {p}\<rparr>)
        (upd_plane p (\<lambda>st. st\<lparr>pl_crtc := Some c\<rparr>) s2)"
      using assms(5) Some g unfolding eq by (auto simp: get_crtc_upd_plane split: if_splits)
    define s3 where "s3 = upd_plane p (\<lambda>st. st\<lparr>pl_crtc := None\<rparr>) s2"
    have "drm_atomic_get_crtc_state d c s1 = (0, s3)" using g s'(1) by (simp add: s1_def s3_def get_crtc_upd_plane)
    then have s3: "staged d s3" "crtcs s3 c \<noteq> None" "planes s3 = planes s1"
      using get_crtc_state_staged [OF assms(1) st1, of c s3] assms(4) Some by auto
    have "s' = upd_plane p (\<lambda>st. st\<lparr>pl_crtc := Some c\<rparr>)
        (upd_crtc c (\<lambda>st. st\<lparr>plane_mask := plane_mask st \<union> {p}\<rparr>) s3)"
      unfolding s'(2) s3_def by (simp add: upd_plane_upd_crtc upd_plane_upd_plane)
    then show ?thesis
      using staged_plane_join [of d s3 p "pl\<lparr>pl_crtc := None\<rparr>" c] s3 pl by (auto simp: s1_def upd_plane_def)
  qed
qed

lemma staged_upd_crtc:
  assumes "staged d s" "\<And>st. same_masks st (f st)"
  shows "staged d (upd_crtc c f s)"
proof -
  have "new_conn d (upd_crtc c f s) = new_conn d s" "new_plane d (upd_crtc c f s) = new_plane d s"
    by (auto simp: upd_crtc_def new_conn_def new_plane_def)
  then show ?thesis
    using assms unfolding staged_def by (auto simp: upd_crtc_def same_masks_def)
qed

lemma staged_upd_plane:
  assumes "staged d s" "\<And>st. pl_crtc (f st) = pl_crtc st"
  shows "staged d (upd_plane p f s)"
proof -
  have "new_conn d (upd_plane p f s) = new_conn d s" "pl_crtc (new_plane d (upd_plane p f s) i) = pl_crtc (new_plane d s i)" for i
    using assms(2) by (auto simp: upd_plane_def new_conn_def new_plane_def split: option.splits)
  then show ?thesis
    using assms unfolding staged_def by (auto simp: upd_plane_def split: if_splits)
qed

lemma staged_upd_conn:
  assumes "staged d s" "\<And>st. cn_crtc (f st) = cn_crtc st \<and> cn_encoder (f st) = cn_encoder st"
  shows "staged d (upd_conn k f s)"
proof -
  have "new_plane d (upd_conn k f s) = new_plane d s" "cn_crtc (new_conn d (upd_conn k f s) i) = cn_crtc (new_conn d s i)" for i
    using assms(2) by (auto simp: upd_conn_def new_conn_def new_plane_def split: option.splits)
  then show ?thesis
    using assms unfolding staged_def by (auto simp: upd_conn_def split: if_splits)
qed

lemma building_staged:
  assumes "building d s" "device_ok d"
  shows "staged d s"
  using assms
proof (induction rule: building.induct)
  case (building_route s k crtc s')
  then show ?case using set_crtc_for_connector_staged by blast
next
  case (building_plane_route s p crtc s')
  then show ?case using set_crtc_for_plane_staged by blast
qed (auto simp: staged_empty intro!: staged_upd_plane staged_upd_conn intro: staged_upd_crtc
       dest: get_crtc_state_staged get_connector_state_staged get_plane_state_staged)

end
