(* ===== verification/Drm_Check.thy ===== *)
theory Drm_Check
  imports Drm_Atomic
begin

text \<open>
  The check of a commit (\<open>drm/drm_atomic_helper.c\<close>): choosing an encoder for every connector, taking encoders away from the
  connectors that had them, finding out which CRTCs need a full modeset, adding the connectors and planes of those,
  and asking the drivers' hooks whether the modes can be shown.

  A hook that looks at or changes the whole commit is a function on commits; what the helper relies on is the locale
  \<open>modeset_hooks\<close>. The debug messages, the warnings that change nothing and the damage clips of planes are left out.
\<close>

section \<open>Encoders\<close>

definition drm_connector_get_single_encoder :: "modeset_dev \<Rightarrow> nat \<Rightarrow> nat option" where
  "drm_connector_get_single_encoder d k = (case possible_encoders d k of [] \<Rightarrow> None | e # _ \<Rightarrow> Some e)"

definition new_encoder :: "modeset_dev \<Rightarrow> drm_atomic_commit \<Rightarrow> nat \<Rightarrow> nat option" where
  "new_encoder d s k = (case atomic_best_encoder d k of
     Some f \<Rightarrow> f s
   | None \<Rightarrow> (case best_encoder d k of Some e \<Rightarrow> e | None \<Rightarrow> drm_connector_get_single_encoder d k))"

text \<open>The first loop: the encoders of the connectors of the commit, or nothing when two connectors want the same.\<close>

fun assigned_encoders :: "modeset_dev \<Rightarrow> drm_atomic_commit \<Rightarrow> nat list \<Rightarrow> nat set \<Rightarrow> nat set option" where
  "assigned_encoders d s [] emask = Some emask"
| "assigned_encoders d s (k # ks) emask = (case conns s k of
     None \<Rightarrow> assigned_encoders d s ks emask
   | Some st \<Rightarrow>
       if cn_crtc st = None then assigned_encoders d s ks emask
       else case new_encoder d s k of
         None \<Rightarrow> assigned_encoders d s ks emask
       | Some e \<Rightarrow> if e \<in> emask then None else assigned_encoders d s ks (insert e emask))"

text \<open>One turn of the second loop, over the connectors that are not part of the commit.\<close>

definition conflicting_connector ::
    "modeset_dev \<Rightarrow> bool \<Rightarrow> nat set \<Rightarrow> nat \<Rightarrow> drm_atomic_commit \<Rightarrow> int \<times> drm_atomic_commit" where
  "conflicting_connector d disable_conflicting_encoders emask k s =
     (if conns s k \<noteq> None then (0, s)
      else case cn_encoder (conn_cur d k) of
        None \<Rightarrow> (0, s)
      | Some e \<Rightarrow>
          if e \<notin> emask then (0, s)
          else if \<not> disable_conflicting_encoders then (- EINVAL, s)
          else
            let (ret, s) = drm_atomic_get_connector_state d k s
            in if ret \<noteq> 0 then (ret, s)
               else
                 let c = the (cn_crtc (the (conns s k)));
                     (ret, s) = drm_atomic_set_crtc_for_connector d k None s
                 in if ret \<noteq> 0 then (ret, s)
                    else (0, if connector_mask (the (crtcs s c)) = {}
                             then upd_crtc c (\<lambda>st. (drm_atomic_clear_mode_prop_for_crtc st)\<lparr>cs_active := False\<rparr>) s
                             else s))"

definition handle_conflicting_encoders ::
    "modeset_dev \<Rightarrow> bool \<Rightarrow> drm_atomic_commit \<Rightarrow> int \<times> drm_atomic_commit" where
  "handle_conflicting_encoders d disable_conflicting_encoders s =
     (case assigned_encoders d s [0..<n_conn d] {} of
        None \<Rightarrow> (- EINVAL, s)
      | Some emask \<Rightarrow>
          if emask = {} then (0, s)
          else for_each (conflicting_connector d disable_conflicting_encoders emask) [0..<n_conn d] s)"

definition set_best_encoder :: "modeset_dev \<Rightarrow> nat \<Rightarrow> nat option \<Rightarrow> drm_atomic_commit \<Rightarrow> drm_atomic_commit" where
  "set_best_encoder d k encoder s =
     (let st = the (conns s k);
          s = (case cn_encoder st of
                 None \<Rightarrow> s
               | Some e \<Rightarrow> (case cn_crtc (conn_cur d k) of
                     None \<Rightarrow> s
                   | Some c \<Rightarrow> upd_crtc c (\<lambda>st. st\<lparr>encoder_mask := encoder_mask st - {e}\<rparr>) s));
          s = (case encoder of
                 None \<Rightarrow> s
               | Some e \<Rightarrow> (case cn_crtc st of
                     None \<Rightarrow> s
                   | Some c \<Rightarrow> upd_crtc c (\<lambda>st. st\<lparr>encoder_mask := encoder_mask st \<union> {e}\<rparr>) s))
      in upd_conn k (\<lambda>st. st\<lparr>cn_encoder := encoder\<rparr>) s)"

definition set_connectors_changed :: "nat option \<Rightarrow> drm_atomic_commit \<Rightarrow> drm_atomic_commit" where
  "set_connectors_changed crtc s = (case crtc of
     None \<Rightarrow> s
   | Some c \<Rightarrow> upd_crtc c (\<lambda>st. st\<lparr>connectors_changed := True\<rparr>) s)"

definition steal_encoder :: "modeset_dev \<Rightarrow> nat \<Rightarrow> drm_atomic_commit \<Rightarrow> drm_atomic_commit" where
  "steal_encoder d e s =
     (case find (\<lambda>k. case conns s k of None \<Rightarrow> False | Some st \<Rightarrow> cn_encoder st = Some e) [0..<n_conn d] of
        None \<Rightarrow> s
      | Some k \<Rightarrow> set_connectors_changed (cn_crtc (conn_cur d k)) (set_best_encoder d k None s))"

definition update_connector_routing ::
    "modeset_dev \<Rightarrow> nat \<Rightarrow> bool \<Rightarrow> drm_atomic_commit \<Rightarrow> int \<times> drm_atomic_commit" where
  "update_connector_routing d k added_by_user s =
     (let old_crtc = cn_crtc (conn_cur d k); crtc = cn_crtc (the (conns s k));
          s = (if old_crtc \<noteq> crtc then set_connectors_changed crtc (set_connectors_changed old_crtc s) else s)
      in case crtc of
           None \<Rightarrow> (0, set_best_encoder d k None s)
         | Some c \<Rightarrow>
             if \<not> duplicated s \<and> unregistered d k \<and> added_by_user \<and> cs_active (the (crtcs s c)) then (- EINVAL, s)
             else case new_encoder d s k of
               None \<Rightarrow> (- EINVAL, s)
             | Some e \<Rightarrow>
                 if c \<notin> possible_crtcs d e then (- EINVAL, s)
                 else if cn_encoder (the (conns s k)) = Some e then (0, set_best_encoder d k (Some e) s)
                 else (0, set_connectors_changed (Some c) (set_best_encoder d k (Some e) (steal_encoder d e s))))"

text \<open>A check hook that may be missing.\<close>

definition run_check :: "check_hook \<Rightarrow> drm_atomic_commit \<Rightarrow> int \<times> drm_atomic_commit" where
  "run_check hook s = (case hook of Some f \<Rightarrow> f s | None \<Rightarrow> (0, s))"

section \<open>Modes\<close>

definition mode_valid_path :: "modeset_dev \<Rightarrow> nat \<Rightarrow> nat \<Rightarrow> drm_display_mode \<Rightarrow> drm_mode_status" where
  "mode_valid_path d e c m =
     (let ret = drm_encoder_mode_valid (enc_hooks d e) m
      in if ret \<noteq> MODE_OK then ret
         else
           let ret = drm_bridge_chain_mode_valid (bridge_hooks (enc_hooks d e)) m
           in if ret \<noteq> MODE_OK then ret else drm_crtc_mode_valid (crtc_hooks d c) m)"

text \<open>One turn of the loop: nothing to check, or the path of the connector.\<close>

definition valid_connector :: "modeset_dev \<Rightarrow> nat \<Rightarrow> drm_atomic_commit \<Rightarrow> bool" where
  "valid_connector d k s = (case conns s k of
     None \<Rightarrow> True
   | Some cn \<Rightarrow> (case (cn_crtc cn, cn_encoder cn) of
       (Some c, Some e) \<Rightarrow> (case crtcs s c of
           None \<Rightarrow> True
         | Some st \<Rightarrow> \<not> mode_changed st \<and> \<not> connectors_changed st \<or> mode_valid_path d e c (dmode (cs_mode st)) = MODE_OK)
     | _ \<Rightarrow> True))"

definition mode_valid :: "modeset_dev \<Rightarrow> drm_atomic_commit \<Rightarrow> int \<times> drm_atomic_commit" where
  "mode_valid d = for_each (\<lambda>k s. (if valid_connector d k s then 0 else - EINVAL, s)) [0..<n_conn d]"

text \<open>The three loops of \<open>mode_fixup\<close>.\<close>

definition copy_modes :: "modeset_dev \<Rightarrow> drm_atomic_commit \<Rightarrow> drm_atomic_commit" where
  "copy_modes d s = s\<lparr>crtcs := (\<lambda>c. map_option (\<lambda>st. if mode_changed st \<or> connectors_changed st
     then st\<lparr>cs_adjusted_mode := cs_mode st\<rparr> else st) (crtcs s c))\<rparr>"

definition fixup_connector :: "modeset_dev \<Rightarrow> nat \<Rightarrow> drm_atomic_commit \<Rightarrow> int \<times> drm_atomic_commit" where
  "fixup_connector d k s = (case conns s k of
     None \<Rightarrow> (0, s)
   | Some cn \<Rightarrow> (case (cn_crtc cn, cn_encoder cn) of
       (Some c, Some e) \<Rightarrow>
         let (ret, bst, cs, cn) = drm_atomic_bridge_chain_check (enc_chain d e) (the (crtcs s c), cn) (conn_bus_formats d k)
               (conn_bus_flags d k) (alloc_fmts d) (bridge_sts s e);
             s = s\<lparr>bridge_sts := (bridge_sts s)(e := bst), crtcs := (crtcs s)(c := Some cs), conns := (conns s)(k := Some cn)\<rparr>
         in if ret \<noteq> 0 then (ret, s)
            else (case enc_atomic_check d e of
              Some f \<Rightarrow> let (ret, cs, cn) = f cs cn
                        in (ret, s\<lparr>crtcs := (crtcs s)(c := Some cs), conns := (conns s)(k := Some cn)\<rparr>)
            | None \<Rightarrow> (case enc_mode_fixup d e of
                Some f \<Rightarrow> let (ok, m) = f (cs_mode cs) (cs_adjusted_mode cs)
                          in (if ok then 0 else - EINVAL, s\<lparr>crtcs := (crtcs s)(c := Some (cs\<lparr>cs_adjusted_mode := m\<rparr>))\<rparr>)
              | None \<Rightarrow> (0, s)))
     | _ \<Rightarrow> (0, s)))"

definition fixup_crtc :: "modeset_dev \<Rightarrow> nat \<Rightarrow> drm_atomic_commit \<Rightarrow> int \<times> drm_atomic_commit" where
  "fixup_crtc d c s = (case crtcs s c of
     None \<Rightarrow> (0, s)
   | Some st \<Rightarrow>
       if \<not> cs_enable st then (0, s)
       else if \<not> mode_changed st \<and> \<not> connectors_changed st then (0, s)
       else case crtc_mode_fixup d c of
         None \<Rightarrow> (0, s)
       | Some f \<Rightarrow> let (ok, m) = f (cs_mode st) (cs_adjusted_mode st)
                   in (if ok then 0 else - EINVAL, s\<lparr>crtcs := (crtcs s)(c := Some (st\<lparr>cs_adjusted_mode := m\<rparr>))\<rparr>))"

definition mode_fixup :: "modeset_dev \<Rightarrow> drm_atomic_commit \<Rightarrow> int \<times> drm_atomic_commit" where
  "mode_fixup d s =
     (let (ret, s) = for_each (fixup_connector d) [0..<n_conn d] (copy_modes d s)
      in if ret \<noteq> 0 then (ret, s) else for_each (fixup_crtc d) [0..<n_crtc d] s)"

section \<open>Checking a modeset\<close>

definition drm_atomic_check_valid_clones :: "modeset_dev \<Rightarrow> nat \<Rightarrow> drm_atomic_commit \<Rightarrow> int" where
  "drm_atomic_check_valid_clones d c s =
     (let emask = encoder_mask (the (crtcs s c))
      in if \<forall>e\<in>emask. possible_clones d e = {} \<or> emask \<subseteq> possible_clones d e then 0 else - EINVAL)"

text \<open>The flags of one CRTC: what changed, then whether it has connectors exactly when it is enabled.\<close>

definition crtc_changes :: "modeset_dev \<Rightarrow> nat \<Rightarrow> crtc_st \<Rightarrow> crtc_st" where
  "crtc_changes d c st =
     (let old = crtc_cur d c;
          st = (if \<not> drm_mode_equal (cs_mode old) (cs_mode st) then st\<lparr>mode_changed := True\<rparr> else st);
          st = (if cs_enable old \<noteq> cs_enable st then st\<lparr>mode_changed := True, connectors_changed := True\<rparr> else st)
      in if cs_active old \<noteq> cs_active st then st\<lparr>active_changed := True\<rparr> else st)"

definition check_crtc_flags :: "modeset_dev \<Rightarrow> nat \<Rightarrow> drm_atomic_commit \<Rightarrow> int \<times> drm_atomic_commit" where
  "check_crtc_flags d c s = (case crtcs s c of
     None \<Rightarrow> (0, s)
   | Some st \<Rightarrow>
       let has_connectors = (connector_mask st \<noteq> {}); s = upd_crtc c (crtc_changes d c) s
       in if cs_enable st \<noteq> has_connectors then (- EINVAL, s)
          else (0, upd_crtc c (\<lambda>st. st\<lparr>no_vblank := \<not> dev_has_vblank d\<rparr>) s))"

text \<open>One connector: its routing, changes of its link and its check. The set collects the connectors that were checked.\<close>

definition check_connector ::
    "modeset_dev \<Rightarrow> nat set \<Rightarrow> nat \<Rightarrow> drm_atomic_commit \<times> nat set \<Rightarrow> int \<times> drm_atomic_commit \<times> nat set" where
  "check_connector d user k = (\<lambda>(s, emask). case conns s k of
     None \<Rightarrow> (0, s, emask)
   | Some _ \<Rightarrow>
       let (ret, s) = update_connector_routing d k (k \<in> user) s
       in if ret \<noteq> 0 then (ret, s, emask)
          else
            let old = conn_cur d k; st = the (conns s k);
                s = (if cn_crtc old \<noteq> None \<and> (link_status old \<noteq> link_status st \<or> max_requested_bpc old \<noteq> max_requested_bpc st)
                     then set_connectors_changed (cn_crtc old) s else s);
                (ret, s) = run_check (conn_atomic_check d k) s
            in if ret \<noteq> 0 then (ret, s, emask) else (0, s, insert k emask))"

definition add_affected :: "modeset_dev \<Rightarrow> nat \<Rightarrow> drm_atomic_commit \<Rightarrow> int \<times> drm_atomic_commit" where
  "add_affected d c s = (case crtcs s c of
     None \<Rightarrow> (0, s)
   | Some st \<Rightarrow>
       if \<not> drm_atomic_crtc_needs_modeset st then (0, s)
       else
         let (ret, s) = drm_atomic_add_affected_connectors d c s
         in if ret \<noteq> 0 then (ret, s)
            else
              let (ret, s) = drm_atomic_add_affected_planes d c s
              in if ret \<noteq> 0 then (ret, s) else (drm_atomic_check_valid_clones d c s, s))"

definition check_added_connector :: "modeset_dev \<Rightarrow> nat set \<Rightarrow> nat \<Rightarrow> drm_atomic_commit \<Rightarrow> int \<times> drm_atomic_commit" where
  "check_added_connector d emask k s =
     (if conns s k = None \<or> k \<in> emask then (0, s)
      else run_check (conn_atomic_check d k) s)"

definition add_bridges :: "modeset_dev \<Rightarrow> nat \<Rightarrow> drm_atomic_commit \<Rightarrow> int \<times> drm_atomic_commit" where
  "add_bridges d k s = (case conns s k of
     None \<Rightarrow> (0, s)
   | Some st \<Rightarrow>
       let (ret, s) = drm_atomic_add_encoder_bridges d (cn_encoder (conn_cur d k)) s
       in if ret \<noteq> 0 then (ret, s) else drm_atomic_add_encoder_bridges d (cn_encoder st) s)"

definition drm_atomic_helper_check_modeset :: "modeset_dev \<Rightarrow> drm_atomic_commit \<Rightarrow> int \<times> drm_atomic_commit" where
  "drm_atomic_helper_check_modeset d s =
     (let user_connectors = {k \<in> {0..<n_conn d}. conns s k \<noteq> None};
          (ret, s) = for_each (check_crtc_flags d) [0..<n_crtc d] s
      in if ret \<noteq> 0 then (ret, s) else
      let (ret, s) = handle_conflicting_encoders d False s
      in if ret \<noteq> 0 then (ret, s) else
      let (ret, s, connectors_mask) = for_each (check_connector d user_connectors) [0..<n_conn d] (s, {})
      in if ret \<noteq> 0 then (ret, s) else
      let (ret, s) = for_each (add_affected d) [0..<n_crtc d] s
      in if ret \<noteq> 0 then (ret, s) else
      let (ret, s) = for_each (check_added_connector d connectors_mask) [0..<n_conn d] s
      in if ret \<noteq> 0 then (ret, s) else
      let (ret, s) = for_each (add_bridges d) [0..<n_conn d] s
      in if ret \<noteq> 0 then (ret, s) else
      let (ret, s) = mode_valid d s
      in if ret \<noteq> 0 then (ret, s) else mode_fixup d s)"

section \<open>Checking the planes\<close>

definition set_planes_changed :: "nat option \<Rightarrow> drm_atomic_commit \<Rightarrow> drm_atomic_commit" where
  "set_planes_changed crtc s = (case crtc of
     None \<Rightarrow> s
   | Some c \<Rightarrow> upd_crtc c (\<lambda>st. st\<lparr>planes_changed := True\<rparr>) s)"

definition drm_atomic_helper_plane_changed ::
    "plane_st \<Rightarrow> plane_st \<Rightarrow> drm_atomic_commit \<Rightarrow> drm_atomic_commit" where
  "drm_atomic_helper_plane_changed old_plane_state plane_state s =
     (case pl_crtc old_plane_state of
        Some c \<Rightarrow> if crtcs s c = None then s
                  else set_planes_changed (pl_crtc plane_state) (set_planes_changed (Some c) s)
      | None \<Rightarrow> set_planes_changed (pl_crtc plane_state) s)"

definition drm_atomic_helper_check_planes :: "modeset_dev \<Rightarrow> drm_atomic_commit \<Rightarrow> int \<times> drm_atomic_commit" where
  "drm_atomic_helper_check_planes d s =
     (let (ret, s) = for_each (\<lambda>p s. case planes s p of
            None \<Rightarrow> (0, s)
          | Some st \<Rightarrow>
              let s = drm_atomic_helper_plane_changed (plane_cur d p) st s
              in run_check (plane_atomic_check d p) s) [0..<n_plane d] s
      in if ret \<noteq> 0 then (ret, s)
         else for_each (\<lambda>c s. case crtcs s c of
            None \<Rightarrow> (0, s)
          | Some _ \<Rightarrow> run_check (crtc_atomic_check d c) s) [0..<n_crtc d] s)"

section \<open>The current state of a commit\<close>

text \<open>\<open>drm_atomic_helper_swap_state\<close> without waiting: the staged states become the current ones.\<close>

definition drm_atomic_helper_swap_state :: "modeset_dev \<Rightarrow> drm_atomic_commit \<Rightarrow> modeset_dev" where
  "drm_atomic_helper_swap_state d s =
     d\<lparr>crtc_cur := new_crtc d s, conn_cur := new_conn d s, plane_cur := new_plane d s,
       bridge_cur := (\<lambda>e i. case bridge_sts s e i of Some b \<Rightarrow> Some b | None \<Rightarrow> bridge_cur d e i)\<rparr>"

end
