(* ===== verification/Drm_Routing.thy ===== *)
theory Drm_Routing
  imports Drm_Check
begin

text \<open>
  The routing of a checked commit: what the loops of \<open>drm_atomic_helper_check_modeset\<close> maintain, what the
  hooks of the drivers may change (the locale \<open>modeset_hooks\<close>), and that after the loop over the connectors every connector has the
  encoder it wants, no encoder is shared, all masks are exact and every CRTC whose routing changed is marked.
\<close>

section \<open>Loops\<close>

lemma for_each_upt:
  assumes "for_each f [0..<n] s = (0, s')" "I 0 s"
    and "\<And>i s s'. i < n \<Longrightarrow> I i s \<Longrightarrow> f i s = (0, s') \<Longrightarrow> I (Suc i) s'"
  shows "I n s'"
proof -
  have "for_each f [a..<n] s = (0, s') \<Longrightarrow> a \<le> n \<Longrightarrow> I a s \<Longrightarrow> I n s'" for a s
  proof (induction "n - a" arbitrary: a s)
    case 0
    then show ?case by simp
  next
    case (Suc m)
    then have a: "a < n" by simp
    then have up: "[a..<n] = a # [Suc a..<n]" by (rule upt_conv_Cons)
    obtain r s1 where f: "f a s = (r, s1)" by (cases "f a s")
    have "r = 0" "for_each f [Suc a..<n] s1 = (0, s')" using Suc.prems(1) f unfolding up by (auto split: if_splits)
    then show ?case using Suc.hyps(1) [of "Suc a" s1] Suc.hyps(2) a assms(3) [OF a Suc.prems(3)] f by auto
  qed
  then show ?thesis using assms(1,2) by blast
qed

lemma for_each_inv:
  assumes "for_each f [0..<n] s = (0, s')" "I s" "\<And>i s s'. i < n \<Longrightarrow> I s \<Longrightarrow> f i s = (0, s') \<Longrightarrow> I s'"
  shows "I s'"
  using for_each_upt [of f n s s' "\<lambda>_. I"] assms by blast

section \<open>What changes during the check\<close>

text \<open>From the first loop on, the routing of CRTCs and planes is fixed; flags only rise.\<close>

definition crtc_grows :: "crtc_st \<Rightarrow> crtc_st \<Rightarrow> bool" where
  "crtc_grows st st' \<longleftrightarrow> cs_enable st' = cs_enable st \<and> cs_active st' = cs_active st \<and> cs_mode st' = cs_mode st \<and>
     connector_mask st' = connector_mask st \<and> plane_mask st' = plane_mask st \<and> active_changed st' = active_changed st \<and>
     self_refresh_active st' = self_refresh_active st \<and> cs_event st' = cs_event st \<and> mode_blob st' = mode_blob st \<and>
     (mode_changed st \<longrightarrow> mode_changed st') \<and> (connectors_changed st \<longrightarrow> connectors_changed st')"

lemma crtc_grows_refl [simp]: "crtc_grows st st"
  by (simp add: crtc_grows_def)

lemma crtc_grows_trans: "crtc_grows a b \<Longrightarrow> crtc_grows b c \<Longrightarrow> crtc_grows a c"
  by (simp add: crtc_grows_def)

text \<open>What a hook may do to a CRTC state: the masks of encoders stay, and the flags unless they are its to raise.\<close>

definition hook_crtc :: "bool \<Rightarrow> crtc_st \<Rightarrow> crtc_st \<Rightarrow> bool" where
  "hook_crtc raise st st' \<longleftrightarrow> crtc_grows st st' \<and> encoder_mask st' = encoder_mask st \<and>
     (\<not> raise \<longrightarrow> mode_changed st' = mode_changed st \<and> connectors_changed st' = connectors_changed st)"

definition same_route :: "conn_st \<Rightarrow> conn_st \<Rightarrow> bool" where
  "same_route cn cn' \<longleftrightarrow> cn_crtc cn' = cn_crtc cn \<and> cn_encoder cn' = cn_encoder cn"

definition hook_step :: "modeset_dev \<Rightarrow> nat set \<Rightarrow> drm_atomic_commit \<Rightarrow> drm_atomic_commit \<Rightarrow> bool" where
  "hook_step d A s s' \<longleftrightarrow>
     (\<forall>k. rel_option same_route (conns s k) (conns s' k)) \<and>
     (\<forall>c. rel_option (hook_crtc (c \<in> A)) (crtcs s c) (crtcs s' c)) \<and>
     (\<forall>p. pl_crtc (new_plane d s' p) = pl_crtc (new_plane d s p)) \<and>
     (\<forall>p. planes s p \<noteq> None \<longrightarrow> planes s' p \<noteq> None) \<and>
     (\<forall>p. planes s p = None \<longrightarrow> planes s' p \<noteq> None \<longrightarrow>
        p < n_plane d \<and> (\<forall>c. pl_crtc (plane_cur d p) = Some c \<longrightarrow> crtcs s c \<noteq> None))"

lemma hook_crtc_refl [simp]: "hook_crtc r st st"
  by (simp add: hook_crtc_def)

lemma same_route_refl [simp]: "same_route cn cn"
  by (simp add: same_route_def)

lemma hook_crtc_trans: "hook_crtc r a b \<Longrightarrow> hook_crtc r b c \<Longrightarrow> hook_crtc r a c"
  by (auto simp: hook_crtc_def intro: crtc_grows_trans)

lemma hook_crtc_mono: "hook_crtc r a b \<Longrightarrow> (r \<longrightarrow> r') \<Longrightarrow> hook_crtc r' a b"
  by (auto simp: hook_crtc_def)

lemma rel_option_refl' [simp]: "(\<And>x. R x x) \<Longrightarrow> rel_option R x x"
  by (cases x) auto

lemma hook_step_refl [simp]: "hook_step d A s s"
  by (simp add: hook_step_def)

lemma hook_stepD_conn: "hook_step d A s s' \<Longrightarrow> rel_option same_route (conns s k) (conns s' k)"
  and hook_stepD_crtc: "hook_step d A s s' \<Longrightarrow> rel_option (hook_crtc (c \<in> A)) (crtcs s c) (crtcs s' c)"
  by (simp_all add: hook_step_def)

lemma hook_step_dom:
  assumes "hook_step d A s s'"
  shows "conns s' k = None \<longleftrightarrow> conns s k = None" "crtcs s' c = None \<longleftrightarrow> crtcs s c = None"
  using hook_stepD_conn [OF assms, of k] hook_stepD_crtc [OF assms, of c]
  by (auto simp: option_rel_Some1 option_rel_Some2 elim: option.rel_cases)

lemma rel_option_trans':
  "rel_option R a b \<Longrightarrow> rel_option R b c \<Longrightarrow> (\<And>x y z. R x y \<Longrightarrow> R y z \<Longrightarrow> R x z) \<Longrightarrow> rel_option R a c"
  by (cases a; cases b; cases c) auto

lemma hook_step_trans:
  assumes "hook_step d A a b" "hook_step d A b c"
  shows "hook_step d A a c"
proof -
  have 1: "rel_option same_route (conns a k) (conns c k)" for k
    using hook_stepD_conn [OF assms(1), of k] hook_stepD_conn [OF assms(2), of k]
    by (rule rel_option_trans') (simp add: same_route_def)
  have 2: "rel_option (hook_crtc (x \<in> A)) (crtcs a x) (crtcs c x)" for x
    using hook_stepD_crtc [OF assms(1), of x] hook_stepD_crtc [OF assms(2), of x]
    by (rule rel_option_trans') (rule hook_crtc_trans)
  have 3: "crtcs b x = None \<longleftrightarrow> crtcs a x = None" for x using hook_step_dom(2) [OF assms(1)] .
  show ?thesis
    using assms 1 2 unfolding hook_step_def 3 by metis
qed

lemma hook_step_new_conn:
  assumes "hook_step d A s s'"
  shows "cn_crtc (new_conn d s' k) = cn_crtc (new_conn d s k)" "cn_encoder (new_conn d s' k) = cn_encoder (new_conn d s k)"
  using hook_stepD_conn [OF assms, of k] by (cases "conns s k"; cases "conns s' k"; simp add: same_route_def)+

lemma hook_step_new_crtc:
  assumes "hook_step d A s s'"
  shows "hook_crtc (c \<in> A) (new_crtc d s c) (new_crtc d s' c)"
  using hook_stepD_crtc [OF assms, of c] by (cases "crtcs s c"; cases "crtcs s' c"; simp add: new_crtc_def)

section \<open>The flags of the CRTCs\<close>

definition flags_ok :: "modeset_dev \<Rightarrow> nat \<Rightarrow> crtc_st \<Rightarrow> bool" where
  "flags_ok d c st \<longleftrightarrow>
     (\<not> drm_mode_equal (cs_mode (crtc_cur d c)) (cs_mode st) \<longrightarrow> mode_changed st) \<and>
     (cs_enable (crtc_cur d c) \<noteq> cs_enable st \<longrightarrow> mode_changed st \<and> connectors_changed st) \<and>
     (cs_active (crtc_cur d c) \<noteq> cs_active st \<longrightarrow> active_changed st) \<and>
     (cs_enable st \<longleftrightarrow> connector_mask st \<noteq> {})"

lemma flags_ok_grows: "flags_ok d c st \<Longrightarrow> crtc_grows st st' \<Longrightarrow> flags_ok d c st'"
  by (auto simp: flags_ok_def crtc_grows_def)

lemma check_crtc_flags_step:
  assumes "check_crtc_flags d c s = (0, s')"
  shows "\<exists>f. s' = upd_crtc c f s \<and> (\<forall>st. same_masks st (f st)) \<and> (\<forall>st. crtcs s' c = Some st \<longrightarrow> flags_ok d c st)"
proof (cases "crtcs s c")
  case None
  then have "s' = upd_crtc c id s" using assms by (simp add: check_crtc_flags_def upd_crtc_def fun_upd_idem)
  then show ?thesis using None by (intro exI [of _ id]) (simp add: same_masks_def upd_crtc_def)
next
  case (Some st)
  define f where "f = (\<lambda>st. (crtc_changes d c st)\<lparr>no_vblank := \<not> dev_has_vblank d\<rparr>)"
  have s': "s' = upd_crtc c f s" and en: "cs_enable st \<longleftrightarrow> connector_mask st \<noteq> {}"
    using assms Some
    by (simp_all add: check_crtc_flags_def upd_crtc_def f_def EINVAL_def Let_def split: if_split_asm)
  have "\<forall>st. same_masks st (f st)" by (simp add: f_def crtc_changes_def Let_def same_masks_def)
  moreover have "flags_ok d c (f st)" using en by (simp add: f_def crtc_changes_def Let_def flags_ok_def)
  ultimately show ?thesis using s' Some by (intro exI [of _ f]) (simp add: upd_crtc_def)
qed

lemma check_crtc_flags_loop:
  assumes "for_each (check_crtc_flags d) [0..<n_crtc d] s = (0, s')" "staged d s"
  shows "staged d s' \<and> conns s' = conns s \<and> planes s' = planes s \<and> (\<forall>c st. crtcs s' c = Some st \<longrightarrow> flags_ok d c st)"
proof -
  have "staged d s' \<and> conns s' = conns s \<and> planes s' = planes s \<and>
      (\<forall>c st. c < n_crtc d \<longrightarrow> crtcs s' c = Some st \<longrightarrow> flags_ok d c st)"
    using assms(1)
  proof (rule for_each_upt [where I = "\<lambda>i s'. staged d s' \<and> conns s' = conns s \<and> planes s' = planes s \<and>
      (\<forall>c st. c < i \<longrightarrow> crtcs s' c = Some st \<longrightarrow> flags_ok d c st)"])
    fix i s1 s2
    assume I: "staged d s1 \<and> conns s1 = conns s \<and> planes s1 = planes s \<and>
        (\<forall>c st. c < i \<longrightarrow> crtcs s1 c = Some st \<longrightarrow> flags_ok d c st)"
      and "check_crtc_flags d i s1 = (0, s2)"
    then obtain f where f: "s2 = upd_crtc i f s1" "\<forall>st. same_masks st (f st)" "\<forall>st. crtcs s2 i = Some st \<longrightarrow> flags_ok d i st"
      using check_crtc_flags_step by blast
    have "staged d s2" using I f staged_upd_crtc by auto
    moreover have "flags_ok d c st" if "c < Suc i" "crtcs s2 c = Some st" for c st
      using that I f by (cases "c = i") (auto simp: upd_crtc_def)
    ultimately show "staged d s2 \<and> conns s2 = conns s \<and> planes s2 = planes s \<and>
        (\<forall>c st. c < Suc i \<longrightarrow> crtcs s2 c = Some st \<longrightarrow> flags_ok d c st)"
      using I f(1) by (auto simp: upd_crtc_def)
  qed (use assms(2) in auto)
  then show ?thesis using stagedD_crtc(1) by blast
qed

section \<open>The encoders the connectors want\<close>

definition wanted :: "modeset_dev \<Rightarrow> drm_atomic_commit \<Rightarrow> nat \<Rightarrow> nat option" where
  "wanted d s k = (case conns s k of
     None \<Rightarrow> None
   | Some st \<Rightarrow> if cn_crtc st = None then None else new_encoder d s k)"

lemma assigned_encoders_Cons:
  "assigned_encoders d s (k # ks) m = (case wanted d s k of
     None \<Rightarrow> assigned_encoders d s ks m
   | Some e \<Rightarrow> if e \<in> m then None else assigned_encoders d s ks (insert e m))"
  by (simp add: wanted_def split: option.splits)

lemma assigned_encoders_Some:
  assumes "assigned_encoders d s ks m = Some m'" "distinct ks"
  shows "m' = m \<union> {e. \<exists>k\<in>set ks. wanted d s k = Some e} \<and>
    (\<forall>k\<in>set ks. \<forall>e. wanted d s k = Some e \<longrightarrow> e \<notin> m) \<and>
    (\<forall>k\<in>set ks. \<forall>k'\<in>set ks. \<forall>e. wanted d s k = Some e \<longrightarrow> wanted d s k' = Some e \<longrightarrow> k = k')"
  using assms
proof (induction ks arbitrary: m)
  case (Cons k ks)
  note IH = Cons.IH [OF _ conjunct2 [OF Cons.prems(2) [unfolded distinct.simps]]]
  show ?case
  proof (cases "wanted d s k")
    case None
    then show ?thesis using Cons.prems IH [of m] unfolding assigned_encoders_Cons by auto
  next
    case (Some e)
    then have a: "e \<notin> m" "assigned_encoders d s ks (insert e m) = Some m'"
      using Cons.prems(1) unfolding assigned_encoders_Cons by (auto split: if_splits)
    then show ?thesis using Some IH [OF a(2)] by auto
  qed
qed simp

lemma handle_conflicting_False:
  assumes "handle_conflicting_encoders d False s = (0, s')"
  shows "s' = s \<and>
    (\<forall>k<n_conn d. \<forall>k'<n_conn d. \<forall>e. wanted d s k = Some e \<longrightarrow> wanted d s k' = Some e \<longrightarrow> k = k') \<and>
    (\<forall>k<n_conn d. \<forall>k'<n_conn d. \<forall>e. conns s k = None \<longrightarrow> cn_encoder (conn_cur d k) = Some e \<longrightarrow> wanted d s k' \<noteq> Some e)"
proof -
  have "assigned_encoders d s [0..<n_conn d] {} \<noteq> None"
  proof
    assume "assigned_encoders d s [0..<n_conn d] {} = None"
    then show False using assms by (simp add: handle_conflicting_encoders_def EINVAL_def)
  qed
  then obtain m where m: "assigned_encoders d s [0..<n_conn d] {} = Some m" by blast
  note a = assigned_encoders_Some [OF m distinct_upt]
  have fin1: "m = {e. \<exists>k<n_conn d. wanted d s k = Some e}" using a [THEN conjunct1] by auto
  have fin2: "k = k'" if "k < n_conn d" "k' < n_conn d" "wanted d s k = Some e" "wanted d s k' = Some e" for k k' e
    using a [THEN conjunct2, THEN conjunct2, rule_format, of k k' e] that by simp
  show ?thesis
  proof (cases "m = {}")
    case True
    then have "s' = s" using assms m by (simp add: handle_conflicting_encoders_def)
    moreover have "wanted d s k \<noteq> Some e" if "k < n_conn d" for k e using fin1 True that by blast
    ultimately show ?thesis by blast
  next
    case False
    then have run: "for_each (conflicting_connector d False m) [0..<n_conn d] s = (0, s')"
      using assms m by (simp add: handle_conflicting_encoders_def)
    have "s' = s \<and> (\<forall>k<n_conn d. \<forall>e. conns s k = None \<longrightarrow> cn_encoder (conn_cur d k) = Some e \<longrightarrow> e \<notin> m)"
      by (rule for_each_upt [OF run, where I = "\<lambda>i t. t = s \<and> (\<forall>k<i. \<forall>e. conns s k = None \<longrightarrow>
            cn_encoder (conn_cur d k) = Some e \<longrightarrow> e \<notin> m)"])
         (auto simp: less_Suc_eq conflicting_connector_def EINVAL_def split: if_splits option.splits)
    moreover have "e \<in> m" if "k < n_conn d" "wanted d s k = Some e" for k e using fin1 that by blast
    ultimately show ?thesis using fin2 by blast
  qed
qed

section \<open>Routing\<close>

text \<open>The encoders at a CRTC, for connectors at \<open>loc\<close> with encoders \<open>enc\<close>.\<close>

definition routed :: "nat \<Rightarrow> (nat \<Rightarrow> nat option) \<Rightarrow> (nat \<Rightarrow> nat option) \<Rightarrow> nat \<Rightarrow> nat set" where
  "routed n loc enc c = {e. \<exists>k<n. loc k = Some c \<and> enc k = Some e}"

definition unshared :: "nat \<Rightarrow> (nat \<Rightarrow> nat option) \<Rightarrow> bool" where
  "unshared n enc \<longleftrightarrow> (\<forall>k<n. \<forall>k'<n. \<forall>e. enc k = Some e \<longrightarrow> enc k' = Some e \<longrightarrow> k = k')"

lemma routed_clear:
  assumes "unshared n enc" "k < n"
  shows "routed n loc (enc(k := None)) c = routed n loc enc c - {e. enc k = Some e \<and> loc k = Some c}"
  using assms unfolding routed_def unshared_def by auto

lemma routed_upd:
  assumes "k < n"
  shows "routed n (loc(k := x)) (enc(k := y)) c = routed n loc (enc(k := None)) c \<union> {e. x = Some c \<and> y = Some e}"
  using assms unfolding routed_def by (auto split: if_splits)

lemma routed_irrelevant: "enc k = None \<Longrightarrow> routed n (loc(k := x)) enc c = routed n loc enc c"
  unfolding routed_def by (auto split: if_splits) (metis option.distinct(1))

text \<open>The effect of \<open>set_best_encoder\<close>.\<close>

lemma set_best_encoder_effect:
  assumes "conns s k = Some cn"
  shows "conns (set_best_encoder d k x s) = (conns s)(k := Some (cn\<lparr>cn_encoder := x\<rparr>))"
    and "crtcs (set_best_encoder d k x s) c = map_option (\<lambda>st. st\<lparr>encoder_mask :=
           encoder_mask st - {e. cn_encoder cn = Some e \<and> cn_crtc (conn_cur d k) = Some c} \<union>
           {e. cn_crtc cn = Some c \<and> x = Some e}\<rparr>) (crtcs s c)"
    and "planes (set_best_encoder d k x s) = planes s"
  using assms
  by (auto simp: set_best_encoder_def upd_crtc_def upd_conn_def Let_def option.map_comp comp_def option.map_ident
      intro!: option.map_cong0 split: option.splits)

lemma set_connectors_changed_hook: "hook_step d {c. crtc = Some c} s (set_connectors_changed crtc s)"
  by (cases crtc)
     (auto simp: set_connectors_changed_def upd_crtc_def hook_step_def hook_crtc_def crtc_grows_def new_plane_def
       option.rel_map intro!: rel_option_refl')

lemma set_connectors_changed_set:
  "crtcs s c = Some st \<Longrightarrow> \<exists>st'. crtcs (set_connectors_changed (Some c) s) c = Some st' \<and> connectors_changed st'"
  by (simp add: set_connectors_changed_def upd_crtc_def)

text \<open>What the first loop over the connectors maintains; \<open>P\<close> are the connectors it has passed.\<close>

definition planes_kept :: "modeset_dev \<Rightarrow> drm_atomic_commit \<Rightarrow> drm_atomic_commit \<Rightarrow> bool" where
  "planes_kept d s s' \<longleftrightarrow> (\<forall>p. pl_crtc (new_plane d s' p) = pl_crtc (new_plane d s p)) \<and>
     (\<forall>p. planes s p \<noteq> None \<longrightarrow> planes s' p \<noteq> None) \<and>
     (\<forall>p. planes s p = None \<longrightarrow> planes s' p \<noteq> None \<longrightarrow>
        p < n_plane d \<and> (\<forall>c. pl_crtc (plane_cur d p) = Some c \<longrightarrow> crtcs s c \<noteq> None))"

abbreviation encs :: "modeset_dev \<Rightarrow> drm_atomic_commit \<Rightarrow> nat \<Rightarrow> nat option" where
  "encs d s \<equiv> \<lambda>k. cn_encoder (new_conn d s k)"

definition locs :: "modeset_dev \<Rightarrow> drm_atomic_commit \<Rightarrow> nat set \<Rightarrow> nat \<Rightarrow> nat option" where
  "locs d s P k = (if k \<in> P then cn_crtc (new_conn d s k) else cn_crtc (conn_cur d k))"

definition frame :: "modeset_dev \<Rightarrow> drm_atomic_commit \<Rightarrow> drm_atomic_commit \<Rightarrow> bool" where
  "frame d s0 s \<longleftrightarrow> (\<forall>k. rel_option (\<lambda>a b. cn_crtc b = cn_crtc a) (conns s0 k) (conns s k)) \<and>
     (\<forall>c. rel_option crtc_grows (crtcs s0 c) (crtcs s c)) \<and> planes_kept d s0 s"

definition raised :: "drm_atomic_commit \<Rightarrow> nat option \<Rightarrow> bool" where
  "raised s crtc \<longleftrightarrow> (\<forall>c. crtc = Some c \<longrightarrow> (\<exists>st. crtcs s c = Some st \<and> connectors_changed st))"

text \<open>A connector that has passed: it has the encoder it wants, which can feed its CRTC, and if its routing changed,
  its CRTCs are marked.\<close>

definition passed :: "modeset_dev \<Rightarrow> drm_atomic_commit \<Rightarrow> drm_atomic_commit \<Rightarrow> nat \<Rightarrow> bool" where
  "passed d s0 s k \<longleftrightarrow>
     encs d s k = wanted d s0 k \<and> (cn_crtc (new_conn d s k) = None \<longleftrightarrow> wanted d s0 k = None) \<and>
     (\<forall>c e. cn_crtc (new_conn d s k) = Some c \<longrightarrow> wanted d s0 k = Some e \<longrightarrow> c \<in> possible_crtcs d e) \<and>
     (cn_crtc (conn_cur d k) \<noteq> cn_crtc (new_conn d s k) \<or> cn_encoder (conn_cur d k) \<noteq> encs d s k \<longrightarrow>
        raised s (cn_crtc (conn_cur d k)) \<and> raised s (cn_crtc (new_conn d s k)))"

definition routing_inv :: "modeset_dev \<Rightarrow> drm_atomic_commit \<Rightarrow> nat set \<Rightarrow> drm_atomic_commit \<Rightarrow> bool" where
  "routing_inv d s0 P s \<longleftrightarrow> frame d s0 s \<and> unshared (n_conn d) (encs d s) \<and>
     (\<forall>c st. crtcs s c = Some st \<longrightarrow> encoder_mask st = routed (n_conn d) (locs d s P) (encs d s) c) \<and>
     (\<forall>k. conns s k \<noteq> None \<longrightarrow> k \<in> P \<longrightarrow> passed d s0 s k) \<and>
     (\<forall>k. conns s k \<noteq> None \<longrightarrow> k \<notin> P \<longrightarrow> encs d s k = None \<or> encs d s k = cn_encoder (conn_cur d k))"

lemma frame_conn: "frame d s0 s \<Longrightarrow> cn_crtc (new_conn d s k) = cn_crtc (new_conn d s0 k)"
  and frame_dom: "frame d s0 s \<Longrightarrow> conns s k = None \<longleftrightarrow> conns s0 k = None"
  and frame_crtc_dom: "frame d s0 s \<Longrightarrow> crtcs s c = None \<longleftrightarrow> crtcs s0 c = None"
proof -
  assume f: "frame d s0 s"
  then have k: "rel_option (\<lambda>a b. cn_crtc b = cn_crtc a) (conns s0 k) (conns s k)"
    and c: "rel_option crtc_grows (crtcs s0 c) (crtcs s c)" by (simp_all add: frame_def)
  show "cn_crtc (new_conn d s k) = cn_crtc (new_conn d s0 k)" "conns s k = None \<longleftrightarrow> conns s0 k = None"
    using k by (cases "conns s0 k"; cases "conns s k"; simp)+
  show "crtcs s c = None \<longleftrightarrow> crtcs s0 c = None" using c by (cases "crtcs s0 c"; cases "crtcs s c"; simp)
qed

lemma planes_kept_trans:
  assumes "planes_kept d a b" "planes_kept d b c" "\<And>x. crtcs b x = None \<longleftrightarrow> crtcs a x = None"
  shows "planes_kept d a c"
  using assms unfolding planes_kept_def by metis

lemma hook_step_planes_kept: "hook_step d A s s' \<Longrightarrow> planes_kept d s s'"
  by (simp add: hook_step_def planes_kept_def)

lemma frame_trans:
  assumes "frame d a b" "frame d b c"
  shows "frame d a c"
proof -
  have "rel_option (\<lambda>a b. cn_crtc b = cn_crtc a) (conns a k) (conns c k)" for k
    using assms by (auto simp: frame_def intro: rel_option_trans' [of _ "conns a k" "conns b k" "conns c k"])
  moreover have "rel_option crtc_grows (crtcs a x) (crtcs c x)" for x
    using assms by (auto simp: frame_def intro: crtc_grows_trans rel_option_trans' [of _ "crtcs a x" "crtcs b x" "crtcs c x"])
  moreover have "planes_kept d a c"
    using assms planes_kept_trans [of d a b c] frame_crtc_dom [OF assms(1)] by (simp add: frame_def)
  ultimately show ?thesis by (simp add: frame_def)
qed

lemma hook_step_frame:
  assumes "hook_step d A s s'"
  shows "frame d s s'"
proof -
  have "rel_option (\<lambda>a b. cn_crtc b = cn_crtc a) (conns s k) (conns s' k)" for k
    using hook_stepD_conn [OF assms, of k] by (rule option.rel_mono_strong) (simp add: same_route_def)
  moreover have "rel_option crtc_grows (crtcs s c) (crtcs s' c)" for c
    using hook_stepD_crtc [OF assms, of c] by (rule option.rel_mono_strong) (simp add: hook_crtc_def)
  ultimately show ?thesis using hook_step_planes_kept [OF assms] by (simp add: frame_def)
qed

lemma raised_grows:
  assumes "raised s x" "\<And>c. rel_option crtc_grows (crtcs s c) (crtcs s' c)"
  shows "raised s' x"
  unfolding raised_def
proof (intro allI impI)
  fix c assume "x = Some c"
  then obtain st where "crtcs s c = Some st" "connectors_changed st" using assms(1) by (auto simp: raised_def)
  then show "\<exists>st. crtcs s' c = Some st \<and> connectors_changed st"
    using assms(2) [of c] by (auto simp: option_rel_Some1 crtc_grows_def)
qed

lemma raised_frame: "raised s x \<Longrightarrow> frame d s s' \<Longrightarrow> raised s' x"
  using raised_grows by (auto simp: frame_def)

text \<open>Steps that change no encoder keep the invariant.\<close>

lemma routing_inv_hook:
  assumes "routing_inv d s0 P s" "hook_step d A s s'"
  shows "routing_inv d s0 P s'"
proof -
  note I = assms(1) [unfolded routing_inv_def]
  note nc = hook_step_new_conn [OF assms(2)]
  have fr: "frame d s s'" using hook_step_frame [OF assms(2)] .
  have "locs d s' P = locs d s P" using nc by (auto simp: locs_def fun_eq_iff)
  moreover have "encoder_mask st' = routed (n_conn d) (locs d s P) (encs d s) c" if "crtcs s' c = Some st'" for c st'
    using hook_stepD_crtc [OF assms(2), of c] I that by (auto simp: option_rel_Some2 hook_crtc_def)
  moreover have "passed d s0 s' k" if "passed d s0 s k" for k
    using that raised_frame [OF _ fr] nc unfolding passed_def by auto
  ultimately show ?thesis
    using I frame_trans [OF _ fr] hook_step_dom(1) [OF assms(2)] by (simp add: routing_inv_def nc)
qed

text \<open>Setting the encoder of a connector that has not passed yet.\<close>

lemma set_best_encoder_frame:
  assumes "conns s k = Some cn"
  shows "frame d s (set_best_encoder d k y s)"
proof -
  have "rel_option (\<lambda>a b. cn_crtc b = cn_crtc a) (conns s j) (conns (set_best_encoder d k y s) j)" for j
    using assms by (simp add: set_best_encoder_effect(1) [OF assms])
  moreover have "rel_option crtc_grows (crtcs s c) (crtcs (set_best_encoder d k y s) c)" for c
    by (cases "crtcs s c") (simp_all add: set_best_encoder_effect(2) [OF assms] crtc_grows_def)
  ultimately show ?thesis
    by (simp add: frame_def planes_kept_def new_plane_def set_best_encoder_effect(3) [OF assms])
qed

lemma set_best_encoder_encs:
  assumes "conns s k = Some cn"
  shows "encs d (set_best_encoder d k y s) = (encs d s)(k := y)"
    and "cn_crtc (new_conn d (set_best_encoder d k y s) j) = cn_crtc (new_conn d s j)"
  using assms by (auto simp: fun_eq_iff new_conn_def set_best_encoder_effect(1) [OF assms])

lemma set_best_encoder_masks:
  assumes "routing_inv d s0 P s" "conns s k = Some cn" "k < n_conn d" "k \<notin> P"
    and "crtcs (set_best_encoder d k y s) c = Some st"
  shows "encoder_mask st = routed (n_conn d) ((locs d s P)(k := cn_crtc cn)) ((encs d s)(k := y)) c"
proof -
  obtain st0 where st0: "crtcs s c = Some st0" and st: "encoder_mask st = encoder_mask st0 -
      {e. cn_encoder cn = Some e \<and> cn_crtc (conn_cur d k) = Some c} \<union> {e. cn_crtc cn = Some c \<and> y = Some e}"
    using assms(5) unfolding set_best_encoder_effect(2) [OF assms(2)] by auto
  have "encoder_mask st0 = routed (n_conn d) (locs d s P) (encs d s) c" "unshared (n_conn d) (encs d s)"
    using assms(1) st0 by (auto simp: routing_inv_def)
  then show ?thesis
    using assms(2,3,4) unfolding st by (simp add: routed_upd routed_clear locs_def)
qed

lemma passed_frame:
  assumes "passed d s0 s k" "frame d s s'" "encs d s' k = encs d s k"
  shows "passed d s0 s' k"
  using assms raised_frame [OF _ assms(2)] by (auto simp: passed_def frame_conn [OF assms(2)])

lemma routing_inv_set_best:
  assumes "routing_inv d s0 P s" "conns s k = Some cn" "k < n_conn d" "k \<notin> P"
    and "\<And>k' e. y = Some e \<Longrightarrow> k' < n_conn d \<Longrightarrow> k' \<noteq> k \<Longrightarrow> encs d s k' \<noteq> Some e"
    and "passed d s0 (set_best_encoder d k y s) k"
  shows "routing_inv d s0 (insert k P) (set_best_encoder d k y s)" (is "routing_inv d s0 _ ?s")
proof -
  note I = assms(1) [unfolded routing_inv_def]
  note fr = set_best_encoder_frame [OF assms(2), of d y]
  note en = set_best_encoder_encs [OF assms(2), of d y]
  have enk: "encs d ?s j = ((encs d s)(k := y)) j" for j by (rule fun_cong [OF en(1)])
  have loc: "locs d ?s (insert k P) = (locs d s P)(k := cn_crtc cn)"
    using assms(2) by (auto simp: locs_def fun_eq_iff en(2))
  have "frame d s0 ?s" using I frame_trans [OF _ fr] by blast
  moreover have "unshared (n_conn d) (encs d ?s)"
    using I assms(5) unfolding en(1) unshared_def by (auto split: if_splits)
  moreover have "encoder_mask st = routed (n_conn d) (locs d ?s (insert k P)) (encs d ?s) c" if "crtcs ?s c = Some st" for c st
    using set_best_encoder_masks [OF assms(1-4) that] unfolding loc en(1) .
  moreover have "passed d s0 ?s j" if "conns ?s j \<noteq> None" "j \<in> insert k P" for j
  proof (cases "j = k")
    case True
    then show ?thesis using assms(6) by simp
  next
    case False
    then have "passed d s0 s j" using I that by (auto simp: set_best_encoder_effect(1) [OF assms(2)])
    then show ?thesis using passed_frame [OF _ fr] enk False by simp
  qed
  moreover have "encs d ?s j = None \<or> encs d ?s j = cn_encoder (conn_cur d j)" if "conns ?s j \<noteq> None" "j \<notin> insert k P" for j
    using I that enk by (auto simp: set_best_encoder_effect(1) [OF assms(2)])
  ultimately show ?thesis unfolding routing_inv_def by blast
qed

lemma routing_inv_clear:
  assumes "routing_inv d s0 P s" "conns s k = Some cn" "k < n_conn d" "k \<notin> P"
  shows "routing_inv d s0 P (set_best_encoder d k None s)" (is "routing_inv d s0 P ?s")
proof -
  note I = assms(1) [unfolded routing_inv_def]
  note fr = set_best_encoder_frame [OF assms(2), of d None]
  note en = set_best_encoder_encs [OF assms(2), of d None]
  have enk: "encs d ?s j = ((encs d s)(k := None)) j" for j by (rule fun_cong [OF en(1)])
  have loc: "locs d ?s P = locs d s P" by (auto simp: locs_def fun_eq_iff en(2))
  have "frame d s0 ?s" using I frame_trans [OF _ fr] by blast
  moreover have "unshared (n_conn d) (encs d ?s)"
    using I unfolding en(1) unshared_def by (auto split: if_splits)
  moreover have "encoder_mask st = routed (n_conn d) (locs d ?s P) (encs d ?s) c" if "crtcs ?s c = Some st" for c st
    using set_best_encoder_masks [OF assms(1-4) that] unfolding loc en(1) by (simp add: routed_irrelevant)
  moreover have "passed d s0 ?s j" if "conns ?s j \<noteq> None" "j \<in> P" for j
  proof -
    have "j \<noteq> k" using that assms(4) by blast
    then have "passed d s0 s j" using I that by (auto simp: set_best_encoder_effect(1) [OF assms(2)])
    then show ?thesis using passed_frame [OF _ fr] enk \<open>j \<noteq> k\<close> by simp
  qed
  moreover have "encs d ?s j = None \<or> encs d ?s j = cn_encoder (conn_cur d j)" if "conns ?s j \<noteq> None" "j \<notin> P" for j
    using I that enk by (auto simp: set_best_encoder_effect(1) [OF assms(2)] split: if_splits)
  ultimately show ?thesis unfolding routing_inv_def by blast
qed

lemma set_best_encoder_other:
  "bridge_sts (set_best_encoder d k y s) = bridge_sts s" "duplicated (set_best_encoder d k y s) = duplicated s"
  by (auto simp: set_best_encoder_def upd_crtc_def upd_conn_def Let_def split: option.splits)

lemma set_connectors_changed_effect:
  "crtcs (set_connectors_changed x s) c =
     map_option (\<lambda>st. if x = Some c then st\<lparr>connectors_changed := True\<rparr> else st) (crtcs s c)"
  "conns (set_connectors_changed x s) = conns s" "planes (set_connectors_changed x s) = planes s"
  "bridge_sts (set_connectors_changed x s) = bridge_sts s" "duplicated (set_connectors_changed x s) = duplicated s"
  by (auto simp: set_connectors_changed_def upd_crtc_def option.map_ident split: option.splits)

lemma set_best_encoder_changed:
  assumes "conns s k = Some cn"
  shows "set_connectors_changed x (set_best_encoder d k y s) = set_best_encoder d k y (set_connectors_changed x s)"
proof -
  have cn: "conns (set_connectors_changed x s) k = Some cn" using assms by (simp add: set_connectors_changed_effect)
  show ?thesis
    by (rule drm_atomic_commit.equality)
       (auto simp: fun_eq_iff set_connectors_changed_effect set_best_encoder_other set_best_encoder_effect [OF assms]
         set_best_encoder_effect [OF cn] option.map_comp comp_def intro!: option.map_cong0)
qed

text \<open>The conflicts that were excluded before.\<close>

definition no_conflicts :: "modeset_dev \<Rightarrow> drm_atomic_commit \<Rightarrow> bool" where
  "no_conflicts d s \<longleftrightarrow> unshared (n_conn d) (wanted d s) \<and>
     (\<forall>k<n_conn d. \<forall>k'<n_conn d. \<forall>e. conns s k = None \<longrightarrow> cn_encoder (conn_cur d k) = Some e \<longrightarrow> wanted d s k' \<noteq> Some e)"

lemma steal_encoder_inv:
  assumes "routing_inv d s0 P s" "no_conflicts d s0" "k < n_conn d" "k \<notin> P"
    and "wanted d s0 k = Some e" "conns s k = Some cn" "cn_encoder cn \<noteq> Some e"
  shows "routing_inv d s0 P (steal_encoder d e s) \<and> (\<forall>j<n_conn d. encs d (steal_encoder d e s) j \<noteq> Some e) \<and>
    conns (steal_encoder d e s) k = Some cn \<and> frame d s (steal_encoder d e s)"
proof -
  note I = assms(1) [unfolded routing_inv_def]
  let ?has = "\<lambda>k. case conns s k of None \<Rightarrow> False | Some st \<Rightarrow> cn_encoder st = Some e"
  have out: "encs d s j \<noteq> Some e" if "j < n_conn d" "conns s j = None" for j
    using assms(2,3,5) that frame_dom [of d s0 s j] I by (auto simp: no_conflicts_def)
  show ?thesis
  proof (cases "find ?has [0..<n_conn d]")
    case None
    then have none: "\<not> (\<exists>x. x \<in> set [0..<n_conn d] \<and> ?has x)" unfolding find_None_iff .
    have "encs d s j \<noteq> Some e" if "j < n_conn d" for j
    proof (cases "conns s j")
      case None
      then show ?thesis using out [OF that] by simp
    next
      case (Some st)
      then have "\<not> ?has j" using none that by (metis atLeastLessThan_iff set_upt zero_le)
      then show ?thesis using Some by simp
    qed
    then show ?thesis using None assms(1,6) by (simp add: steal_encoder_def frame_def planes_kept_def)
  next
    case (Some j)
    then have "j \<in> set [0..<n_conn d]" "?has j" unfolding find_Some_iff by auto
    then obtain st where j: "j < n_conn d" "conns s j = Some st" "cn_encoder st = Some e"
      by (cases "conns s j") auto
    have "j \<noteq> k" using j assms(6,7) by auto
    have "j \<notin> P"
    proof
      assume "j \<in> P"
      then have "wanted d s0 j = Some e" using I j by (auto simp: passed_def)
      then show False using assms(2,3,5) j(1) \<open>j \<noteq> k\<close> by (auto simp: no_conflicts_def unshared_def)
    qed
    define s1 where "s1 = set_best_encoder d j None s"
    define s2 where "s2 = set_connectors_changed (cn_crtc (conn_cur d j)) s1"
    have steal: "steal_encoder d e s = s2" using Some by (simp add: steal_encoder_def s2_def s1_def)
    have inv1: "routing_inv d s0 P s1" unfolding s1_def using routing_inv_clear [OF assms(1) j(2,1) \<open>j \<notin> P\<close>] .
    have h: "hook_step d {c. cn_crtc (conn_cur d j) = Some c} s1 s2" unfolding s2_def by (rule set_connectors_changed_hook)
    have enc: "encs d s2 i = ((encs d s)(j := None)) i" for i
      using hook_step_new_conn(2) [OF h] set_best_encoder_encs(1) [OF j(2), of d None] unfolding s1_def [symmetric]
      by (metis (no_types))
    have "encs d s2 i \<noteq> Some e" if "i < n_conn d" for i
    proof (cases "i = j")
      case False
      have "encs d s j = Some e" using j by simp
      then show ?thesis using False I j(1) that enc unfolding unshared_def by auto
    qed (simp add: enc)
    moreover have "conns s2 k = Some cn"
      using \<open>j \<noteq> k\<close> assms(6) by (simp add: s2_def s1_def set_connectors_changed_effect set_best_encoder_effect [OF j(2)])
    ultimately show ?thesis
      unfolding steal using routing_inv_hook [OF inv1 h] frame_trans [OF set_best_encoder_frame [OF j(2)] hook_step_frame [OF h [unfolded s1_def]]]
      by (auto simp: s1_def)
  qed
qed

lemma hook_step_mono: "hook_step d A s s' \<Longrightarrow> A \<subseteq> B \<Longrightarrow> hook_step d B s s'"
proof -
  assume h: "hook_step d A s s'" and "A \<subseteq> B"
  have "rel_option (hook_crtc (c \<in> B)) (crtcs s c) (crtcs s' c)" for c
    using hook_stepD_crtc [OF h, of c]
    by (rule option.rel_mono_strong) (use \<open>A \<subseteq> B\<close> in \<open>auto elim: hook_crtc_mono\<close>)
  then show ?thesis using h by (simp add: hook_step_def)
qed

section \<open>After the routing\<close>

definition settled :: "modeset_dev \<Rightarrow> drm_atomic_commit \<Rightarrow> bool" where
  "settled d s \<longleftrightarrow>
     device_ok (drm_atomic_helper_swap_state d s) \<and>
     (\<forall>k st c. conns s k = Some st \<longrightarrow> cn_crtc st = Some c \<or> cn_crtc (conn_cur d k) = Some c \<longrightarrow> crtcs s c \<noteq> None) \<and>
     (\<forall>p st c. planes s p = Some st \<longrightarrow> pl_crtc st = Some c \<or> pl_crtc (plane_cur d p) = Some c \<longrightarrow> crtcs s c \<noteq> None) \<and>
     (\<forall>k. conns s k \<noteq> None \<longrightarrow> k < n_conn d) \<and> (\<forall>p. planes s p \<noteq> None \<longrightarrow> p < n_plane d) \<and>
     (\<forall>c st. crtcs s c = Some st \<longrightarrow> c < n_crtc d \<and> flags_ok d c st) \<and>
     (\<forall>k. cn_crtc (conn_cur d k) \<noteq> cn_crtc (new_conn d s k) \<or> cn_encoder (conn_cur d k) \<noteq> encs d s k \<longrightarrow>
        raised s (cn_crtc (conn_cur d k)) \<and> raised s (cn_crtc (new_conn d s k)))"

lemma settled_conn: "settled d s \<Longrightarrow> conns s k \<noteq> None \<Longrightarrow> k < n_conn d"
  by (simp add: settled_def)

lemma swap_state_fields [simp]:
  "n_conn (drm_atomic_helper_swap_state d s) = n_conn d" "n_crtc (drm_atomic_helper_swap_state d s) = n_crtc d"
  "n_plane (drm_atomic_helper_swap_state d s) = n_plane d" "conn_cur (drm_atomic_helper_swap_state d s) = new_conn d s"
  "crtc_cur (drm_atomic_helper_swap_state d s) = new_crtc d s" "plane_cur (drm_atomic_helper_swap_state d s) = new_plane d s"
  "possible_crtcs (drm_atomic_helper_swap_state d s) = possible_crtcs d"
  by (simp_all add: drm_atomic_helper_swap_state_def)

lemma device_ok_swap:
  "device_ok (drm_atomic_helper_swap_state d s) \<longleftrightarrow> routing_ok (n_conn d) (n_crtc d) (new_conn d s) (new_crtc d s) \<and>
     planes_ok (n_plane d) (n_crtc d) (new_plane d s) (new_crtc d s) \<and> paths_ok d (new_conn d s)"
  by (simp add: device_ok_def paths_ok_def)

lemma settled_frame_hook:
  assumes "settled d s" "hook_step d A s s'"
  shows "settled d s'"
proof -
  note S = assms(1) [unfolded settled_def]
  note nc = hook_step_new_conn [OF assms(2)]
  note ncr = hook_step_new_crtc [OF assms(2)]
  note dom = hook_step_dom [OF assms(2)]
  note fr = hook_step_frame [OF assms(2)]
  have pl: "pl_crtc (new_plane d s' p) = pl_crtc (new_plane d s p)" for p using assms(2) by (simp add: hook_step_def)
  have dev: "device_ok (drm_atomic_helper_swap_state d s')"
    using S ncr unfolding device_ok_swap routing_ok_def planes_ok_def paths_ok_def nc pl hook_crtc_def crtc_grows_def by simp
  have conn: "crtcs s' c \<noteq> None" if h: "conns s' k = Some st" "cn_crtc st = Some c \<or> cn_crtc (conn_cur d k) = Some c" for k st c
  proof -
    obtain st0 where "conns s k = Some st0" "cn_crtc st0 = cn_crtc st"
      using hook_stepD_conn [OF assms(2), of k] h(1) by (auto simp: option_rel_Some2 same_route_def)
    then show ?thesis using S h(2) dom(2) by metis
  qed
  have plane: "p < n_plane d \<and> (\<forall>c. pl_crtc st = Some c \<or> pl_crtc (plane_cur d p) = Some c \<longrightarrow> crtcs s' c \<noteq> None)"
    if "planes s' p = Some st" for p st
  proof (cases "planes s p")
    case None
    then have "pl_crtc st = pl_crtc (plane_cur d p)" using pl [of p] that by simp
    then show ?thesis using None that assms(2) dom(2) by (auto simp: hook_step_def)
  next
    case (Some st0)
    then have "pl_crtc st = pl_crtc st0" using pl [of p] that by simp
    then show ?thesis using S Some dom(2) by (metis option.distinct(1))
  qed
  have flags: "c < n_crtc d \<and> flags_ok d c st" if h: "crtcs s' c = Some st" for c st
  proof -
    obtain st0 where "crtcs s c = Some st0" "crtc_grows st0 st"
      using hook_stepD_crtc [OF assms(2), of c] h by (auto simp: option_rel_Some2 hook_crtc_def)
    then show ?thesis using S flags_ok_grows by blast
  qed
  show ?thesis
    unfolding settled_def
    using dev conn plane flags S dom raised_frame [OF _ fr] by (auto simp: nc)
qed

lemma routing_inv_start:
  assumes "device_ok d" "staged d s"
  shows "routing_inv d s {} s"
proof -
  have enc: "cn_encoder (new_conn d s k) = cn_encoder (conn_cur d k)" for k
    using stagedD_conn(2) [OF assms(2)] by (cases "conns s k") auto
  have "unshared (n_conn d) (encs d s)" using assms(1) unfolding enc device_ok_def routing_ok_def unshared_def by blast
  moreover have "encoder_mask st = routed (n_conn d) (locs d s {}) (encs d s) c" if "crtcs s c = Some st" for c st
    using stagedD_crtc(1,2) [OF assms(2) that] device_ok_masks(2) [OF assms(1)] unfolding enc
    by (simp add: routed_def locs_def)
  ultimately show ?thesis
    using enc by (simp add: routing_inv_def frame_def planes_kept_def)
qed

lemma routing_inv_skip:
  assumes "routing_inv d s0 P s" "conns s k = None"
  shows "routing_inv d s0 (insert k P) s"
proof -
  have "locs d s (insert k P) = locs d s P" using assms(2) by (auto simp: locs_def fun_eq_iff)
  then show ?thesis using assms by (auto simp: routing_inv_def)
qed

text \<open>A framed commit names the same objects as the staged one, and its masks are those of the new routing.\<close>

lemma frame_staged:
  assumes "staged d s0" "frame d s0 s"
  shows "conns s k \<noteq> None \<Longrightarrow> k < n_conn d"
    and "conns s k \<noteq> None \<Longrightarrow> cn_crtc (new_conn d s k) = Some c \<or> cn_crtc (conn_cur d k) = Some c \<Longrightarrow> crtcs s c \<noteq> None"
    and "crtcs s c \<noteq> None \<Longrightarrow> c < n_crtc d"
    and "pl_crtc (new_plane d s p) = pl_crtc (new_plane d s0 p)"
proof -
  show "k < n_conn d" if "conns s k \<noteq> None"
    using that frame_dom [OF assms(2), of k] stagedD_conn(1) [OF assms(1), of k] by auto
  show "crtcs s c \<noteq> None" if h: "conns s k \<noteq> None" "cn_crtc (new_conn d s k) = Some c \<or> cn_crtc (conn_cur d k) = Some c"
  proof -
    obtain cn0 where "conns s0 k = Some cn0" using h(1) frame_dom [OF assms(2), of k] by auto
    then show ?thesis
      using h(2) stagedD_conn(3,4) [OF assms(1), of k cn0] frame_crtc_dom [OF assms(2), of c] frame_conn [OF assms(2), of k] by auto
  qed
  show "c < n_crtc d" if "crtcs s c \<noteq> None"
    using that frame_crtc_dom [OF assms(2), of c] stagedD_crtc(1) [OF assms(1), of c] by auto
  show "pl_crtc (new_plane d s p) = pl_crtc (new_plane d s0 p)" using assms(2) by (simp add: frame_def planes_kept_def)
qed

lemma frame_absent:
  assumes "staged d s0" "frame d s0 s" "crtcs s c = None"
  shows "cn_crtc (new_conn d s k) = Some c \<longleftrightarrow> cn_crtc (conn_cur d k) = Some c"
    and "pl_crtc (new_plane d s0 p) = Some c \<longleftrightarrow> pl_crtc (plane_cur d p) = Some c"
    and "cn_crtc (conn_cur d k) = Some c \<Longrightarrow> new_conn d s k = conn_cur d k"
  using assms(3) frame_crtc_dom [OF assms(2), of c] frame_conn [OF assms(2), of k] staged_absent [OF assms(1), of c]
    frame_staged(2) [OF assms(1,2), of k c]
  by (auto, cases "conns s k") auto

lemma frame_masks:
  assumes "staged d s0" "\<And>c st. crtcs s0 c = Some st \<Longrightarrow> flags_ok d c st" "frame d s0 s" "crtcs s c = Some st"
  shows "flags_ok d c st" "connector_mask st = {k. k < n_conn d \<and> cn_crtc (new_conn d s k) = Some c}"
    "plane_mask st = {p. p < n_plane d \<and> pl_crtc (new_plane d s0 p) = Some c}"
proof -
  have "rel_option crtc_grows (crtcs s0 c) (crtcs s c)" using assms(3) by (simp add: frame_def)
  then obtain st0 where st0: "crtcs s0 c = Some st0" "crtc_grows st0 st" using assms(4) by (auto simp: option_rel_Some2)
  show "flags_ok d c st" using assms(2) [OF st0(1)] flags_ok_grows [OF _ st0(2)] by blast
  show "connector_mask st = {k. k < n_conn d \<and> cn_crtc (new_conn d s k) = Some c}"
    using stagedD_crtc(3) [OF assms(1) st0(1)] st0(2) unfolding frame_conn [OF assms(3)] by (simp add: crtc_grows_def)
  show "plane_mask st = {p. p < n_plane d \<and> pl_crtc (new_plane d s0 p) = Some c}"
    using stagedD_crtc(4) [OF assms(1) st0(1)] st0(2) by (simp add: crtc_grows_def)
qed

lemma frame_planes_ok:
  assumes "device_ok d" "staged d s0" "\<And>c st. crtcs s0 c = Some st \<Longrightarrow> flags_ok d c st" "frame d s0 s"
  shows "planes_ok (n_plane d) (n_crtc d) (new_plane d s) (new_crtc d s)"
  unfolding planes_ok_def frame_staged(4) [OF assms(2,4)]
proof (intro conjI allI impI)
  fix p c assume p: "p < n_plane d" "pl_crtc (new_plane d s0 p) = Some c"
  show "c < n_crtc d"
  proof (cases "planes s0 p")
    case None
    then show ?thesis using p device_ok_planes [OF assms(1)] by simp
  next
    case (Some st)
    then show ?thesis
      using p stagedD_plane(2) [OF assms(2) Some, of c] frame_crtc_dom [OF assms(4), of c] frame_staged(3) [OF assms(2,4), of c] by auto
  qed
next
  fix c assume c: "c < n_crtc d"
  show "plane_mask (new_crtc d s c) = {p. p < n_plane d \<and> pl_crtc (new_plane d s0 p) = Some c}"
    using frame_masks(3) [OF assms(2,3,4), of c] frame_absent(2) [OF assms(2,4), of c] device_ok_masks(4) [OF assms(1) c]
    by (cases "crtcs s c") (auto simp: new_crtc_def)
qed

lemma frame_planes:
  assumes "staged d s0" "frame d s0 s" "planes s p = Some st"
  shows "p < n_plane d" "pl_crtc st = Some c \<or> pl_crtc (plane_cur d p) = Some c \<Longrightarrow> crtcs s c \<noteq> None"
proof -
  have "p < n_plane d \<and> (\<forall>c. pl_crtc st = Some c \<or> pl_crtc (plane_cur d p) = Some c \<longrightarrow> crtcs s c \<noteq> None)"
  proof (cases "planes s0 p")
    case None
    then have "pl_crtc st = pl_crtc (plane_cur d p)" using frame_staged(4) [OF assms(1,2), of p] assms(3) by simp
    then show ?thesis using None assms(2,3) frame_crtc_dom [OF assms(2)] by (auto simp: frame_def planes_kept_def)
  next
    case (Some st0)
    then have "pl_crtc st = pl_crtc st0" using frame_staged(4) [OF assms(1,2), of p] assms(3) by simp
    then show ?thesis using stagedD_plane [OF assms(1) Some] frame_crtc_dom [OF assms(2)] by metis
  qed
  then show "p < n_plane d" "pl_crtc st = Some c \<or> pl_crtc (plane_cur d p) = Some c \<Longrightarrow> crtcs s c \<noteq> None" by blast+
qed

text \<open>When all connectors have passed, the new routing is consistent.\<close>

lemma routing_inv_passed:
  assumes "staged d s0" "routing_inv d s0 {..<n_conn d} s" "conns s k \<noteq> None"
  shows "passed d s0 s k"
  using assms(2,3) frame_staged(1) [OF assms(1), of s k] unfolding routing_inv_def by blast

lemma routing_inv_routing_ok:
  assumes "device_ok d" "staged d s0" "\<And>c st. crtcs s0 c = Some st \<Longrightarrow> flags_ok d c st"
    and "routing_inv d s0 {..<n_conn d} s"
  shows "routing_ok (n_conn d) (n_crtc d) (new_conn d s) (new_crtc d s)"
proof -
  note I = assms(4) [unfolded routing_inv_def]
  then have fr: "frame d s0 s" by blast
  show ?thesis unfolding routing_ok_def
  proof (intro conjI allI impI)
    fix k assume k: "k < n_conn d"
    show "cn_crtc (new_conn d s k) = None \<longleftrightarrow> encs d s k = None"
      using routing_inv_passed [OF assms(2,4), of k] device_okD(1) [OF assms(1) k] by (cases "conns s k") (auto simp: passed_def)
    show "c < n_crtc d" if "cn_crtc (new_conn d s k) = Some c" for c
      using that frame_staged(2) [OF assms(2) fr, of k c] frame_staged(3) [OF assms(2) fr, of c] device_okD(2) [OF assms(1) k]
      by (cases "conns s k") auto
  next
    fix k k' e assume "k < n_conn d" "k' < n_conn d" "encs d s k = Some e" "encs d s k' = Some e"
    then show "k = k'" using I unfolding unshared_def by blast
  next
    fix c assume c: "c < n_crtc d"
    show "connector_mask (new_crtc d s c) = {k. k < n_conn d \<and> cn_crtc (new_conn d s k) = Some c}"
      using frame_masks(2) [OF assms(2,3) fr, of c] frame_absent(1) [OF assms(2) fr, of c] device_ok_masks(1) [OF assms(1) c]
      by (cases "crtcs s c") (auto simp: new_crtc_def)
    show "encoder_mask (new_crtc d s c) = {e. \<exists>k<n_conn d. cn_crtc (new_conn d s k) = Some c \<and> encs d s k = Some e}"
    proof (cases "crtcs s c")
      case None
      then show ?thesis
        using frame_absent(1,3) [OF assms(2) fr None] device_ok_masks(2) [OF assms(1) c] by (auto simp: new_crtc_def)
    next
      case (Some st)
      then show ?thesis using I by (auto simp: new_crtc_def routed_def locs_def)
    qed
    show "cs_enable (new_crtc d s c) \<longleftrightarrow> connector_mask (new_crtc d s c) \<noteq> {}"
      using frame_masks(1) [OF assms(2,3) fr, of c] device_ok_masks(3) [OF assms(1) c]
      by (cases "crtcs s c") (auto simp: new_crtc_def flags_ok_def)
  qed
qed

lemma routing_inv_settled:
  assumes "device_ok d" "staged d s0" "\<And>c st. crtcs s0 c = Some st \<Longrightarrow> flags_ok d c st"
    and "routing_inv d s0 {..<n_conn d} s"
  shows "settled d s"
proof -
  have fr: "frame d s0 s" using assms(4) unfolding routing_inv_def by blast
  note pass = routing_inv_passed [OF assms(2,4)]
  have "paths_ok d (new_conn d s)"
    unfolding paths_ok_def
  proof (intro allI impI)
    fix k c e assume k: "k < n_conn d" "cn_crtc (new_conn d s k) = Some c" "encs d s k = Some e"
    show "c \<in> possible_crtcs d e"
      using k pass [of k] assms(1) by (cases "conns s k") (auto simp: passed_def device_ok_def paths_ok_def)
  qed
  then have dev: "device_ok (drm_atomic_helper_swap_state d s)"
    unfolding device_ok_swap using routing_inv_routing_ok [OF assms] frame_planes_ok [OF assms(1-3) fr] by blast
  have change: "raised s (cn_crtc (conn_cur d k)) \<and> raised s (cn_crtc (new_conn d s k))"
    if "cn_crtc (conn_cur d k) \<noteq> cn_crtc (new_conn d s k) \<or> cn_encoder (conn_cur d k) \<noteq> encs d s k" for k
    using that pass [of k] by (cases "conns s k") (auto simp: passed_def)
  have conn: "crtcs s c \<noteq> None" if "conns s k = Some st" "cn_crtc st = Some c \<or> cn_crtc (conn_cur d k) = Some c" for k st c
    using frame_staged(2) [OF assms(2) fr, of k c] that by simp
  have fl: "c < n_crtc d \<and> flags_ok d c st" if "crtcs s c = Some st" for c st
    using frame_staged(3) [OF assms(2) fr, of c] frame_masks(1) [OF assms(2,3) fr that] that by simp
  show ?thesis
    unfolding settled_def using dev frame_planes [OF assms(2) fr] change fl frame_staged(1) [OF assms(2) fr] conn by blast
qed

section \<open>The hooks of the drivers\<close>

text \<open>The CRTCs a connector leaves or joins.\<close>

definition conn_crtcs :: "modeset_dev \<Rightarrow> drm_atomic_commit \<Rightarrow> nat \<Rightarrow> nat set" where
  "conn_crtcs d s k = {c. cn_crtc (conn_cur d k) = Some c \<or> cn_crtc (new_conn d s k) = Some c}"

text \<open>
  What the helper relies on. The encoder a driver picks for a connector depends only on the assignment of CRTCs. No hook changes the
  routing, adds or removes CRTCs and connectors or switches a CRTC on or off. A connector's check may ask for a full
  modeset of the CRTCs of the connector; every other hook leaves the flags alone (a driver that
  raises one there has to run the whole check again) and may adjust modes and add planes.
\<close>

locale modeset_hooks =
  fixes d :: modeset_dev
  assumes encoder_choice: "(\<And>j. map_option cn_crtc (conns s j) = map_option cn_crtc (conns s' j)) \<Longrightarrow>
      new_encoder d s k = new_encoder d s' k"
    and conn_check: "conn_atomic_check d k = Some f \<Longrightarrow> f s = (ret, s') \<Longrightarrow> hook_step d (conn_crtcs d s k) s s'"
    and enc_check: "enc_atomic_check d e = Some g \<Longrightarrow> g cs cn = (ret, cs', cn') \<Longrightarrow> hook_crtc False cs cs' \<and> same_route cn cn'"
    and bridge_check: "b \<in> set (enc_chain d e) \<Longrightarrow> bridge_atomic_check b = Some h \<Longrightarrow> h bs (cs, cn) = (ret, bs', cs', cn') \<Longrightarrow>
      hook_crtc False cs cs' \<and> same_route cn cn'"
    and bridge_fixup: "b \<in> set (enc_chain d e) \<Longrightarrow> bridge_mode_fixup b = Some i \<Longrightarrow> i (cs, cn) = (ok, cs', cn') \<Longrightarrow>
      hook_crtc False cs cs' \<and> same_route cn cn'"
    and plane_check: "plane_atomic_check d p = Some f \<Longrightarrow> f s = (ret, s') \<Longrightarrow> hook_step d {} s s'"
    and crtc_check: "crtc_atomic_check d c = Some f \<Longrightarrow> f s = (ret, s') \<Longrightarrow> hook_step d {} s s'"
begin

lemma run_conn_check: "run_check (conn_atomic_check d k) s = (ret, s') \<Longrightarrow> hook_step d (conn_crtcs d s k) s s'"
  and run_plane_check: "run_check (plane_atomic_check d p) s = (ret, s') \<Longrightarrow> hook_step d {} s s'"
  and run_crtc_check: "run_check (crtc_atomic_check d c) s = (ret, s') \<Longrightarrow> hook_step d {} s s'"
  using conn_check [of k] plane_check [of p] crtc_check [of c] by (auto simp: run_check_def split: option.splits)

lemma new_encoder_frame:
  assumes "frame d s0 s"
  shows "new_encoder d s k = new_encoder d s0 k"
proof (rule encoder_choice)
  fix j
  have "rel_option (\<lambda>a b. cn_crtc b = cn_crtc a) (conns s0 j) (conns s j)" using assms by (simp add: frame_def)
  then show "map_option cn_crtc (conns s j) = map_option cn_crtc (conns s0 j)"
    by (cases "conns s0 j"; cases "conns s j") auto
qed

lemma wanted_frame:
  assumes "frame d s0 s" "conns s k = Some cn"
  shows "wanted d s0 k = (if cn_crtc cn = None then None else new_encoder d s k)"
proof -
  have "rel_option (\<lambda>a b. cn_crtc b = cn_crtc a) (conns s0 k) (conns s k)" using assms(1) by (simp add: frame_def)
  then show ?thesis using assms(2) new_encoder_frame [OF assms(1)] by (auto simp: wanted_def option_rel_Some2)
qed

lemma set_best_encoder_passed:
  assumes "routing_inv d s0 P s" "conns s k = Some cn" "k < n_conn d" "k \<notin> P"
    and "wanted d s0 k = y" "cn_crtc cn = None \<longleftrightarrow> y = None"
    and "\<And>k' e. y = Some e \<Longrightarrow> k' < n_conn d \<Longrightarrow> k' \<noteq> k \<Longrightarrow> encs d s k' \<noteq> Some e"
    and "\<And>c e. cn_crtc cn = Some c \<Longrightarrow> y = Some e \<Longrightarrow> c \<in> possible_crtcs d e"
    and "cn_crtc (conn_cur d k) \<noteq> cn_crtc cn \<or> cn_encoder (conn_cur d k) \<noteq> y \<Longrightarrow>
      raised s (cn_crtc (conn_cur d k)) \<and> raised s (cn_crtc cn)"
  shows "routing_inv d s0 (insert k P) (set_best_encoder d k y s)"
proof (rule routing_inv_set_best [OF assms(1-4,7)])
  have "new_conn d (set_best_encoder d k y s) k = cn\<lparr>cn_encoder := y\<rparr>"
    by (simp add: set_best_encoder_effect(1) [OF assms(2)] new_conn_def)
  then show "passed d s0 (set_best_encoder d k y s) k"
    using assms(5,6,8,9) raised_frame [OF _ set_best_encoder_frame [OF assms(2), of d y]]
    unfolding passed_def by auto
qed

text \<open>A connector that takes its encoder from another one.\<close>

lemma steal_encoder_passed:
  assumes "staged d s0" "no_conflicts d s0" and inv: "routing_inv d s0 P s" and k: "conns s k = Some cn" "k < n_conn d" "k \<notin> P"
    and c: "cn_crtc cn = Some c" "c \<in> possible_crtcs d e" and w: "wanted d s0 k = Some e" "cn_encoder cn \<noteq> Some e"
    and old: "cn_crtc (conn_cur d k) \<noteq> Some c \<Longrightarrow> raised s (cn_crtc (conn_cur d k))"
  shows "routing_inv d s0 (insert k P) (set_connectors_changed (Some c) (set_best_encoder d k (Some e) (steal_encoder d e s)))"
proof -
  have fr: "frame d s0 s" using inv by (simp add: routing_inv_def)
  obtain cn0 where cn0: "conns s0 k = Some cn0" "cn_crtc cn0 = cn_crtc cn"
    using frame_dom [OF fr, of k] frame_conn [OF fr, of k] k(1) by (cases "conns s0 k") auto
  note st = steal_encoder_inv [OF inv assms(2) k(2,3) w(1) k(1) w(2)]
  define t where "t = steal_encoder d e s"
  define t2 where "t2 = set_connectors_changed (Some c) t"
  have h2: "hook_step d {x. Some c = Some x} t t2" unfolding t2_def by (rule set_connectors_changed_hook)
  have inv2: "routing_inv d s0 P t2" using routing_inv_hook [OF _ h2] st by (simp add: t_def)
  have k2: "conns t2 k = Some cn" using st by (simp add: t2_def t_def set_connectors_changed_effect)
  have fr2: "frame d s t2" using frame_trans [OF _ hook_step_frame [OF h2]] st by (simp add: t_def)
  have no: "encs d t2 j \<noteq> Some e" if "j < n_conn d" for j
    using st that hook_step_new_conn(2) [OF h2] by (simp add: t_def)
  have rc: "raised t2 (Some c)"
    using frame_crtc_dom [OF fr2, of c] frame_crtc_dom [OF fr, of c] stagedD_conn(3) [OF assms(1) cn0(1), of c] cn0(2) c(1)
      set_connectors_changed_effect(1) [of "Some c" t c] by (auto simp: raised_def t2_def)
  have eq: "set_connectors_changed (Some c) (set_best_encoder d k (Some e) (steal_encoder d e s)) = set_best_encoder d k (Some e) t2"
    using set_best_encoder_changed [of t k cn "Some c" d "Some e"] st by (simp add: t2_def t_def)
  have "raised t2 (cn_crtc (conn_cur d k))"
    using old raised_frame [OF _ fr2] rc by (cases "cn_crtc (conn_cur d k) = Some c") auto
  then show ?thesis unfolding eq
    by (intro set_best_encoder_passed [OF inv2 k2 k(2,3) w(1)]) (use c rc no in auto)
qed

lemma update_connector_routing_inv:
  assumes "device_ok d" "staged d s0" "no_conflicts d s0"
    and inv: "routing_inv d s0 P s" and k: "conns s k = Some cn" "k < n_conn d" "k \<notin> P"
    and run: "update_connector_routing d k added s = (0, s')"
  shows "routing_inv d s0 (insert k P) s'"
proof -
  define old where "old = cn_crtc (conn_cur d k)"
  define sa where "sa = (if old \<noteq> cn_crtc cn then set_connectors_changed (cn_crtc cn) (set_connectors_changed old s) else s)"
  have ha: "hook_step d UNIV s sa"
    unfolding sa_def
    using hook_step_trans [OF hook_step_mono [OF set_connectors_changed_hook [of d old s]]
        hook_step_mono [OF set_connectors_changed_hook [of d "cn_crtc cn" "set_connectors_changed old s"]], of UNIV] by auto
  have inva: "routing_inv d s0 P sa" using routing_inv_hook [OF inv ha] .
  have fra: "frame d s0 sa" using inva by (simp add: routing_inv_def)
  have ka: "conns sa k = Some cn" using k(1) by (simp add: sa_def set_connectors_changed_effect)
  obtain cn0 where cn0: "conns s0 k = Some cn0" "cn_crtc cn0 = cn_crtc cn"
    using frame_dom [OF fra, of k] frame_conn [OF fra, of k] ka by (cases "conns s0 k") auto
  have rs: "raised sa old \<and> raised sa (cn_crtc cn)" if "old \<noteq> cn_crtc cn"
  proof -
    have pres: "crtcs s c \<noteq> None" if "old = Some c \<or> cn_crtc cn = Some c" for c
      using that stagedD_conn(3,4) [OF assms(2) cn0(1)] cn0(2) frame_crtc_dom [of d s0 s c] inv
      by (auto simp: old_def routing_inv_def)
    show ?thesis
      using that pres by (fastforce simp: raised_def sa_def set_connectors_changed_effect)
  qed
  have want: "wanted d s0 k = (if cn_crtc cn = None then None else new_encoder d sa k)" using wanted_frame [OF fra ka] .
  show ?thesis
  proof (cases "cn_crtc cn")
    case None
    have s': "s' = set_best_encoder d k None sa"
      using run k(1) None by (simp add: update_connector_routing_def Let_def sa_def old_def split: if_splits)
    show ?thesis unfolding s'
      by (rule set_best_encoder_passed [OF inva ka k(2,3)])
         (use want None rs device_okD(1) [OF assms(1) k(2)] in \<open>auto simp: old_def\<close>)
  next
    case (Some c)
    obtain e where e: "new_encoder d sa k = Some e" "c \<in> possible_crtcs d e"
      and s': "s' = (if cn_encoder cn = Some e then set_best_encoder d k (Some e) sa
        else set_connectors_changed (Some c) (set_best_encoder d k (Some e) (steal_encoder d e sa)))"
      using run k(1) ka Some
      unfolding update_connector_routing_def Let_def k(1) option.sel old_def [symmetric] sa_def [symmetric]
      by (auto simp: EINVAL_def split: if_splits option.splits)
    have w: "wanted d s0 k = Some e" using want Some e by simp
    show ?thesis
    proof (cases "cn_encoder cn = Some e")
      case True
      then have cur: "cn_encoder (conn_cur d k) = Some e" and un: "unshared (n_conn d) (encs d sa)"
        using inva ka k(3) by (auto simp: routing_inv_def)
      have "routing_inv d s0 (insert k P) (set_best_encoder d k (Some e) sa)"
        by (rule set_best_encoder_passed [OF inva ka k(2,3) w])
           (use Some e rs cur un ka True k(2) in \<open>auto simp: old_def unshared_def\<close>)
      then show ?thesis using s' True by simp
    next
      case False
      show ?thesis
        using steal_encoder_passed [OF assms(2,3) inva ka k(2,3) Some e(2) w False] rs s' False Some by (auto simp: old_def)
    qed
  qed
qed

lemma check_connector_inv:
  assumes "device_ok d" "staged d s0" "no_conflicts d s0" "routing_inv d s0 P s" "k < n_conn d" "k \<notin> P"
    and run: "check_connector d user k (s, m) = (0, s', m')"
  shows "routing_inv d s0 (insert k P) s' \<and> m' = (if conns s k = None then m else insert k m)"
proof (cases "conns s k")
  case None
  then show ?thesis using run assms(4) routing_inv_skip [OF assms(4) None] by (simp add: check_connector_def)
next
  case (Some cn)
  obtain ret s1 where r: "update_connector_routing d k (k \<in> user) s = (ret, s1)"
    by (cases "update_connector_routing d k (k \<in> user) s")
  define s2 where "s2 = (if cn_crtc (conn_cur d k) \<noteq> None \<and> (link_status (conn_cur d k) \<noteq> link_status (the (conns s1 k)) \<or>
      max_requested_bpc (conn_cur d k) \<noteq> max_requested_bpc (the (conns s1 k)))
    then set_connectors_changed (cn_crtc (conn_cur d k)) s1 else s1)"
  have body: "ret = 0" "run_check (conn_atomic_check d k) s2 = (0, s')" "m' = insert k m"
    using run Some r unfolding check_connector_def Let_def
    by (auto simp: s2_def split: if_split_asm prod.splits)
  have inv1: "routing_inv d s0 (insert k P) s1"
    using update_connector_routing_inv [OF assms(1-4) Some assms(5,6)] r body(1) by simp
  have "routing_inv d s0 (insert k P) s2"
    using inv1 routing_inv_hook [OF inv1 set_connectors_changed_hook] by (simp add: s2_def)
  then have "routing_inv d s0 (insert k P) s'"
    using routing_inv_hook [OF _ run_conn_check [OF body(2)]] by simp
  then show ?thesis using body(3) Some by simp
qed

lemma check_connector_loop:
  assumes "device_ok d" "staged d s0" "no_conflicts d s0"
    and "for_each (check_connector d user) [0..<n_conn d] (s0, {}) = (0, s, m)"
  shows "routing_inv d s0 {..<n_conn d} s \<and> m = {k. k < n_conn d \<and> conns s k \<noteq> None}"
proof -
  have "case (s, m) of (s, m) \<Rightarrow> routing_inv d s0 {..<n_conn d} s \<and> m = {k. k < n_conn d \<and> conns s0 k \<noteq> None}"
    using assms(4)
  proof (rule for_each_upt [where I = "\<lambda>i (s, m). routing_inv d s0 {..<i} s \<and> m = {k. k < i \<and> conns s0 k \<noteq> None}"])
    show "case (s0, {}) of (s, m) \<Rightarrow> routing_inv d s0 {..<0} s \<and> m = {k. k < 0 \<and> conns s0 k \<noteq> None}"
      using routing_inv_start [OF assms(1,2)] by simp
    fix i x y
    assume i: "i < n_conn d" and I: "case x of (s, m) \<Rightarrow> routing_inv d s0 {..<i} s \<and> m = {k. k < i \<and> conns s0 k \<noteq> None}"
      and r: "check_connector d user i x = (0, y)"
    obtain s1 m1 s2 m2 where xy: "x = (s1, m1)" "y = (s2, m2)" by (cases x, cases y)
    have I1: "routing_inv d s0 {..<i} s1" "m1 = {k. k < i \<and> conns s0 k \<noteq> None}" using I xy by auto
    have "conns s1 i = None \<longleftrightarrow> conns s0 i = None" using I1(1) frame_dom by (auto simp: routing_inv_def)
    then show "case y of (s, m) \<Rightarrow> routing_inv d s0 {..<Suc i} s \<and> m = {k. k < Suc i \<and> conns s0 k \<noteq> None}"
      using check_connector_inv [OF assms(1-3) I1(1) i, of user m1 s2 m2] r I1(2) unfolding xy lessThan_Suc
      by (auto simp: less_Suc_eq)
  qed
  then have r: "routing_inv d s0 {..<n_conn d} s" and m: "m = {k. k < n_conn d \<and> conns s0 k \<noteq> None}" by simp_all
  have "frame d s0 s" using r by (simp add: routing_inv_def)
  then show ?thesis using r m frame_dom [of d s0 s] by simp
qed

end

end
