(* ===== verification/Drm_Check_Modeset.thy ===== *)
theory Drm_Check_Modeset
  imports Drm_Routing
begin

text \<open>
  The rest of \<open>drm_atomic_helper_check_modeset\<close>: the connectors and planes of a CRTC that needs a modeset are added, their checks and
  the bridges follow, then the modes. The theory ends with what a commit that passed the check satisfies.
\<close>

section \<open>Adding what a modeset affects\<close>

text \<open>A CRTC that needs a modeset has all its connectors and the planes it shows in the commit.\<close>

definition needs_modeset :: "drm_atomic_commit \<Rightarrow> nat \<Rightarrow> bool" where
  "needs_modeset s c \<longleftrightarrow> (case crtcs s c of None \<Rightarrow> False | Some st \<Rightarrow> drm_atomic_crtc_needs_modeset st)"

definition complete :: "modeset_dev \<Rightarrow> drm_atomic_commit \<Rightarrow> nat \<Rightarrow> bool" where
  "complete d s c \<longleftrightarrow> (needs_modeset s c \<longrightarrow>
     (\<forall>k<n_conn d. cn_crtc (new_conn d s k) = Some c \<longrightarrow> conns s k \<noteq> None) \<and>
     (\<forall>p<n_plane d. pl_crtc (plane_cur d p) = Some c \<longrightarrow> planes s p \<noteq> None))"

text \<open>What adding connectors and planes that stay where they are changes.\<close>

definition extends :: "modeset_dev \<Rightarrow> drm_atomic_commit \<Rightarrow> drm_atomic_commit \<Rightarrow> bool" where
  "extends d s s' \<longleftrightarrow> crtcs s' = crtcs s \<and>
     (\<forall>k. conns s' k = conns s k \<or> conns s k = None \<and> conns s' k = Some (conn_cur d k) \<and> k < n_conn d \<and>
        (\<exists>c. cn_crtc (conn_cur d k) = Some c \<and> needs_modeset s c)) \<and>
     (\<forall>p. planes s' p = planes s p \<or> planes s p = None \<and> planes s' p = Some (plane_cur d p) \<and> p < n_plane d \<and>
        (\<exists>c. pl_crtc (plane_cur d p) = Some c \<and> crtcs s c \<noteq> None))"

lemma extends_refl [simp]: "extends d s s"
  by (simp add: extends_def)

lemma extends_views:
  assumes "extends d s s'"
  shows "new_conn d s' = new_conn d s" "new_plane d s' = new_plane d s" "new_crtc d s' = new_crtc d s" "needs_modeset s' = needs_modeset s"
proof -
  show "new_conn d s' = new_conn d s"
  proof
    fix k show "new_conn d s' k = new_conn d s k" using assms by (auto simp: extends_def new_conn_def dest!: spec [of _ k])
  qed
  show "new_plane d s' = new_plane d s"
  proof
    fix p show "new_plane d s' p = new_plane d s p" using assms by (auto simp: extends_def new_plane_def dest!: spec [of _ p])
  qed
  show "new_crtc d s' = new_crtc d s" "needs_modeset s' = needs_modeset s"
    using assms by (auto simp: extends_def new_crtc_def needs_modeset_def)
qed

lemma extends_trans:
  assumes "extends d a b" "extends d b c"
  shows "extends d a c"
proof -
  have n: "needs_modeset b = needs_modeset a" "crtcs b = crtcs a" using assms(1) extends_views(4) by (auto simp: extends_def)
  have "conns c k = conns a k \<or> conns a k = None \<and> conns c k = Some (conn_cur d k) \<and> k < n_conn d \<and>
        (\<exists>x. cn_crtc (conn_cur d k) = Some x \<and> needs_modeset a x)" for k
    using assms unfolding extends_def n by (metis (no_types))
  moreover have "planes c p = planes a p \<or> planes a p = None \<and> planes c p = Some (plane_cur d p) \<and> p < n_plane d \<and>
        (\<exists>x. pl_crtc (plane_cur d p) = Some x \<and> crtcs a x \<noteq> None)" for p
    using assms unfolding extends_def n by (metis (no_types))
  moreover have "crtcs c = crtcs a" using assms by (simp add: extends_def)
  ultimately show ?thesis unfolding extends_def by blast
qed

lemma settled_extends:
  assumes "settled d s" "extends d s s'"
  shows "settled d s'"
proof -
  note v = extends_views [OF assms(2)]
  have cr: "crtcs s' = crtcs s" using assms(2) by (simp add: extends_def)
  have conn: "k < n_conn d \<and> (\<forall>c. cn_crtc st = Some c \<or> cn_crtc (conn_cur d k) = Some c \<longrightarrow> crtcs s c \<noteq> None)"
    if h: "conns s' k = Some st" for k st
  proof (cases "conns s k")
    case None
    then have "st = conn_cur d k" "k < n_conn d" "\<exists>c. cn_crtc (conn_cur d k) = Some c \<and> needs_modeset s c"
      using assms(2) h by (auto simp: extends_def dest!: spec [of _ k])
    then show ?thesis by (auto simp: needs_modeset_def split: option.splits)
  next
    case (Some st0)
    then have "st0 = st" using assms(2) h by (auto simp: extends_def dest!: spec [of _ k])
    then show ?thesis using Some assms(1) unfolding settled_def by blast
  qed
  have plane: "p < n_plane d \<and> (\<forall>c. pl_crtc st = Some c \<or> pl_crtc (plane_cur d p) = Some c \<longrightarrow> crtcs s c \<noteq> None)"
    if h: "planes s' p = Some st" for p st
  proof (cases "planes s p")
    case None
    then have "st = plane_cur d p" "p < n_plane d" "\<exists>c. pl_crtc (plane_cur d p) = Some c \<and> crtcs s c \<noteq> None"
      using assms(2) h by (auto simp: extends_def dest!: spec [of _ p])
    then show ?thesis by auto
  next
    case (Some st0)
    then have "st0 = st" using assms(2) h by (auto simp: extends_def dest!: spec [of _ p])
    then show ?thesis using Some assms(1) unfolding settled_def by blast
  qed
  have "device_ok (drm_atomic_helper_swap_state d s')" using assms(1) unfolding settled_def device_ok_swap v by blast
  moreover have rs: "raised s' x = raised s x" for x by (simp add: raised_def cr)
  ultimately show ?thesis
    using assms(1) [unfolded settled_def] conn plane unfolding settled_def v cr rs by (intro conjI) blast+
qed

text \<open>The loops over connectors and planes.\<close>

lemma add_affected_connectors_extends:
  assumes "settled d s" "needs_modeset s c" "drm_atomic_add_affected_connectors d c s = (0, s')"
  shows "extends d s s' \<and> (\<forall>k<n_conn d. cn_crtc (new_conn d s k) = Some c \<longrightarrow> conns s' k \<noteq> None)"
proof -
  have dev: "device_ok (drm_atomic_helper_swap_state d s)" using assms(1) by (simp add: settled_def)
  obtain st where st: "crtcs s c = Some st" using assms(2) by (auto simp: needs_modeset_def split: option.splits)
  then have c: "c < n_crtc d" using assms(1) by (auto simp: settled_def)
  have mask: "connector_mask st = {k. k < n_conn d \<and> cn_crtc (new_conn d s k) = Some c}"
    using device_ok_masks(1) [OF dev, of c] c st by (simp add: new_crtc_def)
  have run: "for_each (\<lambda>k s. if k \<notin> connector_mask (the (crtcs s c)) then (0, s) else drm_atomic_get_connector_state d k s)
      [0..<n_conn d] s = (0, s')"
    using assms(3) st by (simp add: drm_atomic_add_affected_connectors_def drm_atomic_get_crtc_state_def)
  show ?thesis
    using run
  proof (rule for_each_upt [where I = "\<lambda>i s'. extends d s s' \<and> (\<forall>k<i. cn_crtc (new_conn d s k) = Some c \<longrightarrow> conns s' k \<noteq> None)"])
    fix i s1 s2
    assume i: "i < n_conn d" and I: "extends d s s1 \<and> (\<forall>k<i. cn_crtc (new_conn d s k) = Some c \<longrightarrow> conns s1 k \<noteq> None)"
      and r: "(if i \<notin> connector_mask (the (crtcs s1 c)) then (0, s1) else drm_atomic_get_connector_state d i s1) = (0, s2)"
    have cr: "crtcs s1 = crtcs s" using I by (simp add: extends_def)
    have "extends d s s2 \<and> (\<forall>k. conns s1 k \<noteq> None \<longrightarrow> conns s2 k \<noteq> None) \<and> (cn_crtc (new_conn d s i) = Some c \<longrightarrow> conns s2 i \<noteq> None)"
    proof (cases "cn_crtc (new_conn d s i) = Some c \<and> conns s1 i = None")
      case True
      then have cur: "new_conn d s i = conn_cur d i" using extends_views(1) [of d s s1] I by (metis new_conn_simps(2))
      then have "s2 = s1\<lparr>conns := (conns s1)(i := Some (conn_cur d i))\<rparr>"
        using True r cr st mask i
        by (auto simp: drm_atomic_get_connector_state_def drm_atomic_get_crtc_state_def Let_def split: if_splits)
      moreover from this have "extends d s1 s2"
        using True cur i assms(2) extends_views(4) [of d s s1] I by (auto simp: extends_def)
      ultimately show ?thesis using extends_trans [of d s s1 s2] I by simp
    next
      case False
      then have "s2 = s1" using r cr st mask i by (auto simp: drm_atomic_get_connector_state_def split: if_splits)
      then show ?thesis using I False by auto
    qed
    then show "extends d s s2 \<and> (\<forall>k<Suc i. cn_crtc (new_conn d s k) = Some c \<longrightarrow> conns s2 k \<noteq> None)"
      using I by (auto simp: less_Suc_eq)
  qed simp
qed

lemma add_affected_planes_extends:
  assumes "device_ok d" "settled d s" "needs_modeset s c" "drm_atomic_add_affected_planes d c s = (0, s')"
  shows "extends d s s' \<and> (\<forall>p<n_plane d. pl_crtc (plane_cur d p) = Some c \<longrightarrow> planes s' p \<noteq> None) \<and> conns s' = conns s"
proof -
  obtain st where st: "crtcs s c = Some st" using assms(3) by (auto simp: needs_modeset_def split: option.splits)
  then have c: "c < n_crtc d" using assms(2) by (auto simp: settled_def)
  note mask = device_ok_masks(4) [OF assms(1) c]
  show ?thesis
    using assms(4) unfolding drm_atomic_add_affected_planes_def
  proof (rule for_each_upt [where I = "\<lambda>i s'. extends d s s' \<and>
      (\<forall>p<i. pl_crtc (plane_cur d p) = Some c \<longrightarrow> planes s' p \<noteq> None) \<and> conns s' = conns s"])
    fix i s1 s2
    assume i: "i < n_plane d" and I: "extends d s s1 \<and> (\<forall>p<i. pl_crtc (plane_cur d p) = Some c \<longrightarrow> planes s1 p \<noteq> None) \<and> conns s1 = conns s"
      and r: "(if i \<notin> plane_mask (crtc_cur d c) then (0, s1) else drm_atomic_get_plane_state d i s1) = (0, s2)"
    have cr: "crtcs s1 = crtcs s" using I by (simp add: extends_def)
    have "extends d s s2 \<and> (\<forall>p. planes s1 p \<noteq> None \<longrightarrow> planes s2 p \<noteq> None) \<and>
        (pl_crtc (plane_cur d i) = Some c \<longrightarrow> planes s2 i \<noteq> None) \<and> conns s2 = conns s1"
    proof (cases "pl_crtc (plane_cur d i) = Some c \<and> planes s1 i = None")
      case True
      then have "s2 = s1\<lparr>planes := (planes s1)(i := Some (plane_cur d i))\<rparr>"
        using r cr st mask i
        by (auto simp: drm_atomic_get_plane_state_def drm_atomic_get_crtc_state_def Let_def split: if_splits)
      moreover from this have "extends d s1 s2" using True i st cr by (auto simp: extends_def)
      ultimately show ?thesis using extends_trans [of d s s1 s2] I by simp
    next
      case False
      then have "s2 = s1" using r mask i by (auto simp: drm_atomic_get_plane_state_def split: if_splits)
      then show ?thesis using I False by auto
    qed
    then show "extends d s s2 \<and> (\<forall>p<Suc i. pl_crtc (plane_cur d p) = Some c \<longrightarrow> planes s2 p \<noteq> None) \<and> conns s2 = conns s"
      using I by (auto simp: less_Suc_eq)
  qed simp
qed

lemma complete_extends:
  assumes "complete d s c" "extends d s s'"
  shows "complete d s' c"
proof -
  have "conns s' k \<noteq> None" if "conns s k \<noteq> None" for k using that assms(2) by (auto simp: extends_def dest!: spec [of _ k])
  moreover have "planes s' p \<noteq> None" if "planes s p \<noteq> None" for p using that assms(2) by (auto simp: extends_def dest!: spec [of _ p])
  ultimately show ?thesis using assms(1) unfolding complete_def extends_views [OF assms(2)] by blast
qed

lemma add_affected_extends:
  assumes "device_ok d" "settled d s" "add_affected d c s = (0, s')"
  shows "extends d s s' \<and> complete d s' c"
proof (cases "needs_modeset s c")
  case False
  then have "s' = s" using assms(3) by (auto simp: add_affected_def needs_modeset_def split: option.splits)
  then show ?thesis using False by (simp add: complete_def)
next
  case True
  then obtain st where st: "crtcs s c = Some st" "drm_atomic_crtc_needs_modeset st"
    by (auto simp: needs_modeset_def split: option.splits)
  obtain r1 s1 where r1: "drm_atomic_add_affected_connectors d c s = (r1, s1)"
    by (cases "drm_atomic_add_affected_connectors d c s")
  obtain r2 s2 where r2: "drm_atomic_add_affected_planes d c s1 = (r2, s2)"
    by (cases "drm_atomic_add_affected_planes d c s1")
  have ret: "r1 = 0" "r2 = 0" "s' = s2"
    using assms(3) st r1 r2 by (auto simp: add_affected_def split: if_splits)
  note e1 = add_affected_connectors_extends [OF assms(2) True r1 [unfolded ret]]
  have s1: "settled d s1" "needs_modeset s1 c" using e1 settled_extends [OF assms(2)] True extends_views(4) by auto
  note e2 = add_affected_planes_extends [OF assms(1) s1 r2 [unfolded ret]]
  have ext: "extends d s s'" using e1 e2 extends_trans ret(3) by blast
  then show ?thesis
    using e1 e2 ret(3) unfolding complete_def extends_views(1) [OF ext] by simp
qed

lemma add_affected_loop:
  assumes "device_ok d" "settled d s" "for_each (add_affected d) [0..<n_crtc d] s = (0, s')"
  shows "extends d s s' \<and> settled d s' \<and> (\<forall>c. complete d s' c)"
proof -
  have "extends d s s' \<and> (\<forall>c<n_crtc d. complete d s' c)"
    using assms(3)
  proof (rule for_each_upt [where I = "\<lambda>i s'. extends d s s' \<and> (\<forall>c<i. complete d s' c)"])
    fix i s1 s2 assume I: "extends d s s1 \<and> (\<forall>c<i. complete d s1 c)" and r: "add_affected d i s1 = (0, s2)"
    have "settled d s1" using settled_extends [OF assms(2)] I by blast
    then have "extends d s1 s2 \<and> complete d s2 i" using add_affected_extends [OF assms(1) _ r] by blast
    then show "extends d s s2 \<and> (\<forall>c<Suc i. complete d s2 c)"
      using I extends_trans complete_extends by (auto simp: less_Suc_eq)
  qed simp
  moreover from this have st: "settled d s'" using settled_extends [OF assms(2)] by blast
  moreover have "complete d s' c" if "\<not> c < n_crtc d" for c
    using st that by (auto simp: complete_def needs_modeset_def settled_def split: option.splits)
  ultimately show ?thesis by blast
qed

text \<open>Hooks that raise only flags of CRTCs that need a modeset anyway.\<close>

lemma hook_step_needs:
  assumes "hook_step d A s s'" "A \<subseteq> {c. needs_modeset s c}"
  shows "needs_modeset s' c = needs_modeset s c"
proof (cases "crtcs s c")
  case None
  then show ?thesis using hook_step_dom(2) [OF assms(1), of c] by (simp add: needs_modeset_def)
next
  case (Some st)
  then obtain st' where st': "crtcs s' c = Some st'" "hook_crtc (c \<in> A) st st'"
    using hook_stepD_crtc [OF assms(1), of c] by (auto simp: option_rel_Some1)
  show ?thesis
  proof (cases "c \<in> A")
    case True
    then have "drm_atomic_crtc_needs_modeset st" using assms(2) Some by (auto simp: needs_modeset_def)
    then show ?thesis using st' Some by (auto simp: needs_modeset_def drm_atomic_crtc_needs_modeset_def hook_crtc_def crtc_grows_def)
  next
    case False
    then show ?thesis using st' Some by (auto simp: needs_modeset_def drm_atomic_crtc_needs_modeset_def hook_crtc_def crtc_grows_def)
  qed
qed

lemma complete_hook_step:
  assumes "complete d s c" "hook_step d A s s'" "A \<subseteq> {c. needs_modeset s c}"
  shows "complete d s' c"
proof -
  have "planes s' p \<noteq> None" if "planes s p \<noteq> None" for p using that assms(2) unfolding hook_step_def by blast
  then show ?thesis
    using assms(1)
    unfolding complete_def hook_step_needs [OF assms(2,3)] hook_step_new_conn(1) [OF assms(2)] hook_step_dom(1) [OF assms(2)]
    by blast
qed

definition valid_modes :: "modeset_dev \<Rightarrow> drm_atomic_commit \<Rightarrow> bool" where
  "valid_modes d s \<longleftrightarrow> (\<forall>k cn c e st. conns s k = Some cn \<longrightarrow> cn_crtc cn = Some c \<longrightarrow> cn_encoder cn = Some e \<longrightarrow> crtcs s c = Some st \<longrightarrow>
     mode_changed st \<or> connectors_changed st \<longrightarrow> mode_valid_path d e c (dmode (cs_mode st)) = MODE_OK)"

lemma valid_modes_hook_step:
  assumes "valid_modes d s" "hook_step d {} s s'"
  shows "valid_modes d s'"
  unfolding valid_modes_def
proof (intro allI impI)
  fix k cn c e st
  assume h: "conns s' k = Some cn" "cn_crtc cn = Some c" "cn_encoder cn = Some e" "crtcs s' c = Some st"
    "mode_changed st \<or> connectors_changed st"
  obtain cn0 where cn0: "conns s k = Some cn0" "same_route cn0 cn"
    using hook_stepD_conn [OF assms(2), of k] h(1) by (auto simp: option_rel_Some2)
  obtain st0 where st0: "crtcs s c = Some st0" "hook_crtc False st0 st"
    using hook_stepD_crtc [OF assms(2), of c] h(4) by (auto simp: option_rel_Some2)
  have "cs_mode st = cs_mode st0" "mode_changed st0 \<or> connectors_changed st0"
    using st0(2) h(5) by (simp_all add: hook_crtc_def crtc_grows_def)
  then show "mode_valid_path d e c (dmode (cs_mode st)) = MODE_OK"
    using assms(1) [unfolded valid_modes_def, rule_format, of k cn0 c e st0] cn0 st0(1) h by (simp add: same_route_def)
qed

definition checked :: "modeset_dev \<Rightarrow> drm_atomic_commit \<Rightarrow> bool" where
  "checked d s \<longleftrightarrow> settled d s \<and> (\<forall>c. complete d s c) \<and> valid_modes d s"

lemma checked_hook_step:
  assumes "checked d s" "hook_step d {} s s'"
  shows "checked d s'"
  unfolding checked_def
proof (intro conjI allI)
  show "settled d s'" using settled_frame_hook [OF _ assms(2)] assms(1) by (simp add: checked_def)
  show "valid_modes d s'" using valid_modes_hook_step [OF _ assms(2)] assms(1) by (simp add: checked_def)
  show "complete d s' c" for c using complete_hook_step [OF _ assms(2), of c] assms(1) by (simp add: checked_def)
qed

lemma hook_step_same:
  assumes "crtcs s' = crtcs s" "conns s' = conns s" "planes s' = planes s"
  shows "hook_step d A s s'"
  using assms by (simp add: hook_step_def new_plane_def)

lemma for_each_pres:
  assumes "\<And>i s r s'. I s \<Longrightarrow> f i s = (r, s') \<Longrightarrow> I s'" "I s" "for_each f xs s = (r, s')"
  shows "I s'"
  using assms(2,3)
proof (induction xs arbitrary: s)
  case (Cons x xs)
  obtain r1 s1 where f: "f x s = (r1, s1)" by (cases "f x s")
  then show ?case using Cons.IH [of s1] Cons.prems assms(1) [OF Cons.prems(1) f] by (auto split: if_splits)
qed simp

lemma add_encoder_bridges_same:
  assumes "drm_atomic_add_encoder_bridges d x s = (r, s')"
  shows "hook_step d A s s'"
proof (cases x)
  case None
  then show ?thesis using assms by (simp add: drm_atomic_add_encoder_bridges_def)
next
  case (Some e)
  have "crtcs s' = crtcs s \<and> conns s' = conns s \<and> planes s' = planes s"
    using assms unfolding drm_atomic_add_encoder_bridges_def Some option.case
    by (elim for_each_pres [where I = "\<lambda>s'. crtcs s' = crtcs s \<and> conns s' = conns s \<and> planes s' = planes s", rotated 2])
       (auto split: if_splits)
  then show ?thesis by (intro hook_step_same) auto
qed

lemma add_bridges_step:
  assumes "add_bridges d k s = (r, s')"
  shows "hook_step d A s s'"
proof (cases "conns s k")
  case None
  then show ?thesis using assms by (simp add: add_bridges_def)
next
  case (Some cn)
  obtain r1 s1 where 1: "drm_atomic_add_encoder_bridges d (cn_encoder (conn_cur d k)) s = (r1, s1)"
    by (cases "drm_atomic_add_encoder_bridges d (cn_encoder (conn_cur d k)) s")
  have "s' = s1 \<or> drm_atomic_add_encoder_bridges d (cn_encoder cn) s1 = (r, s')"
    using assms Some 1 by (auto simp: add_bridges_def split: if_splits)
  then show ?thesis
    using add_encoder_bridges_same [OF 1, of A] add_encoder_bridges_same [of d "cn_encoder cn" s1 r s' A] hook_step_trans by blast
qed

text \<open>The mode is valid on every path that changes.\<close>

lemma mode_valid_ok:
  assumes "mode_valid d s = (0, s')" "\<And>k. conns s k \<noteq> None \<Longrightarrow> k < n_conn d"
  shows "s' = s \<and> valid_modes d s"
proof -
  have "s' = s \<and> (\<forall>k<n_conn d. valid_connector d k s)"
    using assms(1) unfolding mode_valid_def
    by (rule for_each_upt [where I = "\<lambda>i t. t = s \<and> (\<forall>k<i. valid_connector d k s)"])
       (simp_all add: less_Suc_eq EINVAL_def split: if_splits)
  moreover have "valid_modes d s" if "\<And>k. conns s k \<noteq> None \<Longrightarrow> valid_connector d k s"
    unfolding valid_modes_def
  proof (intro allI impI)
    fix k cn c e st
    assume h: "conns s k = Some cn" "cn_crtc cn = Some c" "cn_encoder cn = Some e" "crtcs s c = Some st"
      "mode_changed st \<or> connectors_changed st"
    then show "mode_valid_path d e c (dmode (cs_mode st)) = MODE_OK"
      using that [of k] unfolding valid_connector_def by auto
  qed
  ultimately show ?thesis using assms(2) by blast
qed

text \<open>A relation that the hooks of a chain respect holds between the states before and after the check of the chain.\<close>

lemma chain_check_loop_rel:
  assumes "chain_check_loop c fl n st x = (r, st', x')" "n \<le> length c" "\<And>x. R x x" "\<And>x y z. R x y \<Longrightarrow> R y z \<Longrightarrow> R x z"
    and "\<And>b f bs x r bs' x'. b \<in> set c \<Longrightarrow> bridge_atomic_check b = Some f \<Longrightarrow> f bs x = (r, bs', x') \<Longrightarrow> R x x'"
    and "\<And>b f x ok x'. b \<in> set c \<Longrightarrow> bridge_mode_fixup b = Some f \<Longrightarrow> f x = (ok, x') \<Longrightarrow> R x x'"
  shows "R x x'"
  using assms(1,2)
proof (induction n arbitrary: st x)
  case (Suc n)
  define st1 where "st1 = drm_atomic_bridge_propagate_bus_flags c fl n st"
  obtain r1 st2 x1 where ck: "drm_atomic_bridge_check c n st1 x = (r1, st2, x1)"
    by (cases "drm_atomic_bridge_check c n st1 x")
  have b: "c ! n \<in> set c" using Suc.prems(2) by simp
  have R1: "R x x1"
    using ck assms(3) assms(5) [OF b] assms(6) [OF b]
    by (auto simp: drm_atomic_bridge_check_def split: option.splits prod.splits)
  have "x' = x1 \<or> chain_check_loop c fl n st2 x1 = (r, st', x')"
    using Suc.prems(1) ck by (auto simp: st1_def Let_def split: if_splits)
  then show ?case
  proof
    assume "chain_check_loop c fl n st2 x1 = (r, st', x')"
    then have "R x1 x'" by (rule Suc.IH) (use Suc.prems(2) in simp)
    then show ?thesis using R1 assms(4) by blast
  qed (use R1 in simp)
qed (use assms(3) in simp)

context modeset_hooks
begin

lemma chain_check_route:
  assumes "drm_atomic_bridge_chain_check (enc_chain d e) (cs, cn) fmts fl alloc st = (ret, st', cs', cn')"
  shows "hook_crtc False cs cs' \<and> same_route cn cn'"
proof -
  let ?R = "\<lambda>(cs, cn) (cs', cn'). hook_crtc False cs cs' \<and> same_route cn cn'"
  obtain r1 st1 where 1: "drm_atomic_bridge_chain_select_bus_fmts (enc_chain d e) (cs, cn) fmts alloc st = (r1, st1)"
    by (cases "drm_atomic_bridge_chain_select_bus_fmts (enc_chain d e) (cs, cn) fmts alloc st")
  have "(cs', cn') = (cs, cn) \<or> chain_check_loop (enc_chain d e) fl (length (enc_chain d e)) st1 (cs, cn) = (ret, st', cs', cn')"
    using assms 1 by (auto simp: drm_atomic_bridge_chain_check_def split: if_splits)
  then have "?R (cs, cn) (cs', cn')"
  proof
    assume "chain_check_loop (enc_chain d e) fl (length (enc_chain d e)) st1 (cs, cn) = (ret, st', cs', cn')"
    then show ?thesis
    proof (rule chain_check_loop_rel [where R = ?R])
      show "?R x z" if "?R x y" "?R y z" for x y z
        using that by (auto simp: same_route_def intro: hook_crtc_trans)
      show "?R x x'" if "b \<in> set (enc_chain d e)" "bridge_atomic_check b = Some f" "f bs x = (r, bs', x')" for b f bs x r bs' x'
        using bridge_check [OF that(1,2)] that(3) by (cases x; cases x') auto
      show "?R x x'" if "b \<in> set (enc_chain d e)" "bridge_mode_fixup b = Some f" "f x = (ok, x')" for b f x ok x'
        using bridge_fixup [OF that(1,2)] that(3) by (cases x; cases x') auto
    qed auto
  qed auto
  then show ?thesis by simp
qed

lemma hook_step_upd:
  assumes "crtcs s c = Some cs" "conns s k = Some cn" "hook_crtc False cs cs'" "same_route cn cn'"
    and "crtcs s' = (crtcs s)(c := Some cs')" "conns s' = (conns s)(k := Some cn')" "planes s' = planes s"
  shows "hook_step d {} s s'"
  using assms by (auto simp: hook_step_def new_plane_def)

lemma fixup_connector_step:
  assumes "settled d s" "fixup_connector d k s = (ret, s')"
  shows "hook_step d {} s s'"
proof (cases "\<exists>cn c e. conns s k = Some cn \<and> cn_crtc cn = Some c \<and> cn_encoder cn = Some e")
  case False
  then have "s' = s" using assms(2) by (auto simp: fixup_connector_def split: option.splits)
  then show ?thesis by simp
next
  case True
  then obtain cn c e where cn: "conns s k = Some cn" "cn_crtc cn = Some c" "cn_encoder cn = Some e" by blast
  then obtain cs where cs: "crtcs s c = Some cs" using assms(1) unfolding settled_def by blast
  obtain r1 bst cs1 cn1 where 1: "drm_atomic_bridge_chain_check (enc_chain d e) (cs, cn) (conn_bus_formats d k)
      (conn_bus_flags d k) (alloc_fmts d) (bridge_sts s e) = (r1, bst, cs1, cn1)"
    by (metis prod_cases4)
  have k1: "hook_crtc False cs cs1" "same_route cn cn1" using chain_check_route [OF 1] by blast+
  define s1 where "s1 = s\<lparr>bridge_sts := (bridge_sts s)(e := bst), crtcs := (crtcs s)(c := Some cs1), conns := (conns s)(k := Some cn1)\<rparr>"
  have h1: "hook_step d {} s s1" by (rule hook_step_upd [OF cs cn(1) k1]) (simp_all add: s1_def)
  have s1: "crtcs s1 c = Some cs1" "conns s1 k = Some cn1" by (simp_all add: s1_def)
  have fx: "(if r1 \<noteq> 0 then (r1, s1) else case enc_atomic_check d e of
      Some f \<Rightarrow> let (ret, cs, cn) = f cs1 cn1 in (ret, s1\<lparr>crtcs := (crtcs s1)(c := Some cs), conns := (conns s1)(k := Some cn)\<rparr>)
    | None \<Rightarrow> (case enc_mode_fixup d e of
        Some f \<Rightarrow> let (ok, m) = f (cs_mode cs1) (cs_adjusted_mode cs1)
                  in (if ok then 0 else - EINVAL, s1\<lparr>crtcs := (crtcs s1)(c := Some (cs1\<lparr>cs_adjusted_mode := m\<rparr>))\<rparr>)
      | None \<Rightarrow> (0, s1))) = (ret, s')"
    using assms(2) cn cs 1 by (simp add: fixup_connector_def s1_def [symmetric])
  have adj: "hook_crtc False cs1 (cs1\<lparr>cs_adjusted_mode := m\<rparr>)" for m by (simp add: hook_crtc_def crtc_grows_def)
  have "hook_step d {} s1 s'"
  proof (cases "r1 \<noteq> 0")
    case True
    then show ?thesis using fx by simp
  next
    case r1: False
    show ?thesis
    proof (cases "enc_atomic_check d e")
      case (Some f)
      obtain r2 cs2 cn2 where f: "f cs1 cn1 = (r2, cs2, cn2)" by (cases "f cs1 cn1")
      have "s' = s1\<lparr>crtcs := (crtcs s1)(c := Some cs2), conns := (conns s1)(k := Some cn2)\<rparr>" using fx r1 Some f by simp
      then show ?thesis
        using enc_check [OF Some f] by (intro hook_step_upd [OF s1, of cs2 cn2]) auto
    next
      case None
      then have "s' = s1 \<or> (\<exists>m. s' = s1\<lparr>crtcs := (crtcs s1)(c := Some (cs1\<lparr>cs_adjusted_mode := m\<rparr>))\<rparr>)"
        using fx r1 by (auto split: option.splits prod.splits)
      then show ?thesis
      proof
        assume "\<exists>m. s' = s1\<lparr>crtcs := (crtcs s1)(c := Some (cs1\<lparr>cs_adjusted_mode := m\<rparr>))\<rparr>"
        then obtain m where "s' = s1\<lparr>crtcs := (crtcs s1)(c := Some (cs1\<lparr>cs_adjusted_mode := m\<rparr>))\<rparr>" by blast
        then show ?thesis by (intro hook_step_upd [OF s1 adj [of m], of cn1]) (use s1(2) in auto)
      qed simp
    qed
  qed
  then show ?thesis using hook_step_trans [OF h1] by blast
qed

lemma fixup_crtc_step:
  assumes "fixup_crtc d c s = (ret, s')"
  shows "hook_step d {} s s'"
proof (cases "crtcs s c")
  case None
  then show ?thesis using assms by (simp add: fixup_crtc_def)
next
  case (Some cs)
  then have "s' = s \<or> (\<exists>m. s' = s\<lparr>crtcs := (crtcs s)(c := Some (cs\<lparr>cs_adjusted_mode := m\<rparr>))\<rparr>)"
    using assms by (auto simp: fixup_crtc_def split: if_splits option.splits prod.splits)
  moreover have "hook_step d {} s (s\<lparr>crtcs := (crtcs s)(c := Some (cs\<lparr>cs_adjusted_mode := m\<rparr>))\<rparr>)" for m
    using Some by (simp add: hook_step_def new_plane_def hook_crtc_def crtc_grows_def)
  ultimately show ?thesis by auto
qed

lemma mode_fixup_step:
  assumes "settled d s" "mode_fixup d s = (0, s')"
  shows "hook_step d {} s s'"
proof -
  have h0: "hook_step d {} s (copy_modes d s)"
    by (auto simp: copy_modes_def hook_step_def new_plane_def option.rel_map hook_crtc_def crtc_grows_def intro!: option.rel_refl)
  obtain r1 s1 where 1: "for_each (fixup_connector d) [0..<n_conn d] (copy_modes d s) = (r1, s1)"
    by (cases "for_each (fixup_connector d) [0..<n_conn d] (copy_modes d s)")
  have 2: "r1 = 0" "for_each (fixup_crtc d) [0..<n_crtc d] s1 = (0, s')"
    using assms(2) 1 by (auto simp: mode_fixup_def split: if_splits)
  have h1: "hook_step d {} s s1"
  proof (rule for_each_inv [OF 1 [unfolded 2(1)], where I = "hook_step d {} s", OF h0])
    fix i a b assume h: "hook_step d {} s a" "fixup_connector d i a = (0, b)"
    then show "hook_step d {} s b" using fixup_connector_step [OF settled_frame_hook [OF assms(1) h(1)] h(2)] hook_step_trans by blast
  qed
  show ?thesis
    by (rule for_each_inv [OF 2(2), where I = "hook_step d {} s", OF h1]) (use fixup_crtc_step hook_step_trans in blast)
qed

text \<open>The connectors that were added are checked; what their checks may raise is raised already.\<close>

lemma check_added_loop:
  assumes "settled d s" "\<forall>c. complete d s c" "\<And>k. conns s k \<noteq> None \<Longrightarrow> k \<notin> m \<Longrightarrow> conn_crtcs d s k \<subseteq> {c. needs_modeset s c}"
    and "for_each (check_added_connector d m) [0..<n_conn d] s = (0, s')"
  shows "settled d s' \<and> (\<forall>c. complete d s' c)"
proof -
  let ?I = "\<lambda>s. settled d s \<and> (\<forall>c. complete d s c) \<and> (\<forall>k. conns s k \<noteq> None \<longrightarrow> k \<notin> m \<longrightarrow> conn_crtcs d s k \<subseteq> {c. needs_modeset s c})"
  have "?I s'"
    using assms(4)
  proof (rule for_each_inv)
    fix i s1 s2 assume I: "?I s1" and r: "check_added_connector d m i s1 = (0, s2)"
    show "?I s2"
    proof (cases "conns s1 i = None \<or> i \<in> m")
      case True
      then show ?thesis using I r by (simp add: check_added_connector_def)
    next
      case False
      then have h: "hook_step d (conn_crtcs d s1 i) s1 s2" and sub: "conn_crtcs d s1 i \<subseteq> {c. needs_modeset s1 c}"
        using r run_conn_check I by (auto simp: check_added_connector_def)
      have "conn_crtcs d s2 k = conn_crtcs d s1 k" for k
        by (simp add: conn_crtcs_def hook_step_new_conn(1) [OF h])
      then show ?thesis
        using I settled_frame_hook [OF _ h] complete_hook_step [OF _ h sub]
        unfolding hook_step_needs [OF h sub] hook_step_dom(1) [OF h] by simp
    qed
  qed (use assms(1-3) in blast)
  then show ?thesis by blast
qed

lemma check_modeset_checked:
  assumes "device_ok d" "staged d s" "drm_atomic_helper_check_modeset d s = (0, s')"
  shows "checked d s'"
proof -
  define user where "user = {k \<in> {0..<n_conn d}. conns s k \<noteq> None}"
  obtain r1 s1 where 1: "for_each (check_crtc_flags d) [0..<n_crtc d] s = (r1, s1)"
    by (cases "for_each (check_crtc_flags d) [0..<n_crtc d] s")
  obtain r2 s2 where 2: "handle_conflicting_encoders d False s1 = (r2, s2)" by (cases "handle_conflicting_encoders d False s1")
  obtain r3 s3 m where 3: "for_each (check_connector d user) [0..<n_conn d] (s2, {}) = (r3, s3, m)"
    by (cases "for_each (check_connector d user) [0..<n_conn d] (s2, {})")
  obtain r4 s4 where 4: "for_each (add_affected d) [0..<n_crtc d] s3 = (r4, s4)" by (cases "for_each (add_affected d) [0..<n_crtc d] s3")
  obtain r5 s5 where 5: "for_each (check_added_connector d m) [0..<n_conn d] s4 = (r5, s5)"
    by (cases "for_each (check_added_connector d m) [0..<n_conn d] s4")
  obtain r6 s6 where 6: "for_each (add_bridges d) [0..<n_conn d] s5 = (r6, s6)" by (cases "for_each (add_bridges d) [0..<n_conn d] s5")
  obtain r7 s7 where 7: "mode_valid d s6 = (r7, s7)" by (cases "mode_valid d s6")
  have z: "r1 = 0" "r2 = 0" "r3 = 0" "r4 = 0" "r5 = 0" "r6 = 0" "r7 = 0" and 8: "mode_fixup d s7 = (0, s')"
    using assms(3) unfolding drm_atomic_helper_check_modeset_def user_def [symmetric] Let_def
    by (simp_all add: 1 2 3 4 5 6 7 split: if_split_asm)
  note flags = check_crtc_flags_loop [OF 1 [unfolded z] assms(2)]
  note conf = handle_conflicting_False [OF 2 [unfolded z]]
  have nc: "s2 = s1" "no_conflicts d s1" using conf by (auto simp: no_conflicts_def unshared_def)
  note rt = check_connector_loop [OF assms(1) _ nc(2), of user s3 m]
  have rt3: "routing_inv d s1 {..<n_conn d} s3" "m = {k. k < n_conn d \<and> conns s3 k \<noteq> None}"
    using rt flags 3 [unfolded z nc(1)] by auto
  have st3: "settled d s3" using routing_inv_settled [OF assms(1) _ _ rt3(1)] flags by blast
  note ext = add_affected_loop [OF assms(1) st3 4 [unfolded z]]
  have pend: "conn_crtcs d s4 k \<subseteq> {c. needs_modeset s4 c}" if h: "conns s4 k \<noteq> None" "k \<notin> m" for k
  proof -
    have kn: "k < n_conn d" using h(1) ext settled_conn by blast
    then have "conns s3 k = None" using h(2) rt3(2) by auto
    then obtain c where "new_conn d s3 k = conn_cur d k" "cn_crtc (conn_cur d k) = Some c" "needs_modeset s3 c"
      using h(1) ext by (auto simp: extends_def dest!: spec [of _ k])
    then show ?thesis using ext extends_views [of d s3 s4] by (auto simp: conn_crtcs_def)
  qed
  note add = check_added_loop [OF _ _ pend 5 [unfolded z]]
  have 56: "hook_step d {} s5 s6"
    by (rule for_each_inv [OF 6 [unfolded z], where I = "hook_step d {} s5", OF hook_step_refl])
       (blast intro: add_bridges_step hook_step_trans)
  have st5: "settled d s5 \<and> (\<forall>c. complete d s5 c)" using add ext by blast
  then have st6: "settled d s6 \<and> (\<forall>c. complete d s6 c)"
    using settled_frame_hook [OF _ 56] complete_hook_step [OF _ 56] by auto
  have "s7 = s6 \<and> valid_modes d s6"
    by (rule mode_valid_ok [OF 7 [unfolded z]]) (use st6 settled_conn in blast)
  then have ck: "checked d s7" and st7: "settled d s7" using st6 by (simp_all add: checked_def)
  show ?thesis by (rule checked_hook_step [OF ck mode_fixup_step [OF st7 8]])
qed

text \<open>The checks of planes and CRTCs keep all of it.\<close>

lemma plane_changed_step: "hook_step d {} s (drm_atomic_helper_plane_changed old st s)"
proof -
  have "hook_step d {} s (set_planes_changed x s)" for x s
    by (cases x)
       (auto simp: set_planes_changed_def upd_crtc_def hook_step_def hook_crtc_def crtc_grows_def new_plane_def
         option.rel_map intro!: rel_option_refl')
  moreover from this have "hook_step d {} s (set_planes_changed x (set_planes_changed y s))" for x y s
    by (blast intro: hook_step_trans)
  ultimately show ?thesis by (simp add: drm_atomic_helper_plane_changed_def split: option.splits)
qed

lemma check_planes_step:
  assumes "drm_atomic_helper_check_planes d s = (0, s')"
  shows "hook_step d {} s s'"
proof -
  let ?f = "\<lambda>p s. case planes s p of None \<Rightarrow> (0, s)
          | Some st \<Rightarrow> let s = drm_atomic_helper_plane_changed (plane_cur d p) st s in run_check (plane_atomic_check d p) s"
  let ?g = "\<lambda>c s. case crtcs s c of None \<Rightarrow> (0, s) | Some _ \<Rightarrow> run_check (crtc_atomic_check d c) s"
  obtain r1 s1 where 1: "for_each ?f [0..<n_plane d] s = (r1, s1)" by (cases "for_each ?f [0..<n_plane d] s")
  have 2: "r1 = 0" "for_each ?g [0..<n_crtc d] s1 = (0, s')"
    using assms 1 unfolding drm_atomic_helper_check_planes_def by (auto split: if_splits)
  have "hook_step d {} s s1"
  proof (rule for_each_inv [OF 1 [unfolded 2(1)], where I = "hook_step d {} s"])
    fix p a b assume h: "hook_step d {} s a" "?f p a = (0, b)"
    then have "hook_step d {} a b"
      using hook_step_trans [OF plane_changed_step run_plane_check] by (auto split: option.splits)
    then show "hook_step d {} s b" using h(1) hook_step_trans by blast
  qed simp
  then show ?thesis
  proof (rule for_each_inv [OF 2(2), where I = "hook_step d {} s"])
    fix c a b assume h: "hook_step d {} s a" "?g c a = (0, b)"
    then have "hook_step d {} a b" using run_crtc_check by (auto split: option.splits)
    then show "hook_step d {} s b" using h(1) hook_step_trans by blast
  qed
qed

end

section \<open>A checked commit\<close>

lemma settled_flags:
  assumes "settled d s" "crtcs s c \<noteq> None"
    and "cs_active (new_crtc d s c) \<noteq> cs_active (crtc_cur d c) \<or> cs_enable (new_crtc d s c) \<noteq> cs_enable (crtc_cur d c) \<or>
      \<not> drm_mode_equal (cs_mode (crtc_cur d c)) (cs_mode (new_crtc d s c))"
  shows "needs_modeset s c"
proof -
  obtain st where st: "crtcs s c = Some st" using assms(2) by blast
  then have "flags_ok d c st" using assms(1) unfolding settled_def by blast
  then show ?thesis
    using assms(3) st by (auto simp: flags_ok_def new_crtc_def needs_modeset_def drm_atomic_crtc_needs_modeset_def)
qed

lemma settled_changed:
  assumes "settled d s" "cn_crtc (conn_cur d k) \<noteq> cn_crtc (new_conn d s k) \<or> cn_encoder (conn_cur d k) \<noteq> encs d s k"
    and "cn_crtc (conn_cur d k) = Some c \<or> cn_crtc (new_conn d s k) = Some c"
  shows "needs_modeset s c"
proof -
  have "raised s (cn_crtc (conn_cur d k)) \<and> raised s (cn_crtc (new_conn d s k))"
    using assms(1,2) unfolding settled_def by blast
  then obtain st where "crtcs s c = Some st" "connectors_changed st"
    using assms(3) unfolding raised_def by blast
  then show ?thesis by (simp add: needs_modeset_def drm_atomic_crtc_needs_modeset_def)
qed

lemma complete_conns:
  assumes "complete d s c" "needs_modeset s c" "k < n_conn d"
    and "cn_crtc (conn_cur d k) = Some c \<or> cn_crtc (new_conn d s k) = Some c"
  shows "conns s k \<noteq> None"
proof
  assume none: "conns s k = None"
  then have "cn_crtc (new_conn d s k) = Some c" using assms(4) by simp
  then show False using assms(1-3) none unfolding complete_def by blast
qed

lemma check_state_checked:
  assumes "modeset_hooks d" "device_ok d" "building d s"
    and "drm_atomic_helper_check_modeset d s = (0, s1)" "drm_atomic_helper_check_planes d s1 = (0, s2)"
  shows "checked d s2"
  using checked_hook_step [OF modeset_hooks.check_modeset_checked [OF assms(1,2) building_staged [OF assms(3,2)] assms(4)]
      modeset_hooks.check_planes_step [OF assms(1,5)]] .

text \<open>C6: The atomic check. Take a consistent device, a commit put together with the functions of the atomic interface and hooks
  that keep their contract. If the check of the modeset and of the planes succeeds, then the state the commit leads to is consistent
  again: a connector has an encoder exactly when it has a CRTC, no encoder serves two connectors (also when one
  was stolen), every encoder is used with a CRTC it can be fed by, the masks of connectors, encoders
  and planes are exact and a CRTC is enabled exactly when it has connectors. And the commit is complete: every CRTC that gains, loses or rewires a
  connector, is switched or gets another mode is marked for a full modeset; such a CRTC has all its old and new connectors and its old
  planes in the commit; and the new mode is valid for the encoder, the bridges and the CRTC of every path that
  changes.\<close>

theorem check_modeset_consistent:
  assumes "modeset_hooks d" "device_ok d" "building d s"
    and "drm_atomic_helper_check_modeset d s = (0, s1)" "drm_atomic_helper_check_planes d s1 = (0, s2)"
  shows "device_ok (drm_atomic_helper_swap_state d s2) \<and>
    (\<forall>k c. cn_crtc (conn_cur d k) \<noteq> cn_crtc (new_conn d s2 k) \<or> cn_encoder (conn_cur d k) \<noteq> cn_encoder (new_conn d s2 k) \<longrightarrow>
       cn_crtc (conn_cur d k) = Some c \<or> cn_crtc (new_conn d s2 k) = Some c \<longrightarrow> needs_modeset s2 c) \<and>
    (\<forall>c. crtcs s2 c \<noteq> None \<longrightarrow> cs_active (new_crtc d s2 c) \<noteq> cs_active (crtc_cur d c) \<or>
       cs_enable (new_crtc d s2 c) \<noteq> cs_enable (crtc_cur d c) \<or>
       \<not> drm_mode_equal (cs_mode (crtc_cur d c)) (cs_mode (new_crtc d s2 c)) \<longrightarrow> needs_modeset s2 c) \<and>
    (\<forall>c. needs_modeset s2 c \<longrightarrow>
       (\<forall>k<n_conn d. cn_crtc (conn_cur d k) = Some c \<or> cn_crtc (new_conn d s2 k) = Some c \<longrightarrow> conns s2 k \<noteq> None) \<and>
       (\<forall>p<n_plane d. pl_crtc (plane_cur d p) = Some c \<longrightarrow> planes s2 p \<noteq> None)) \<and>
    valid_modes d s2"
proof -
  have ck: "settled d s2" "\<And>c. complete d s2 c" "valid_modes d s2"
    using check_state_checked [OF assms] by (auto simp: checked_def)
  show ?thesis
  proof (intro conjI allI impI)
    show "device_ok (drm_atomic_helper_swap_state d s2)" using ck(1) by (simp add: settled_def)
    show "planes s2 p \<noteq> None" if "needs_modeset s2 c" "p < n_plane d" "pl_crtc (plane_cur d p) = Some c" for c p
      using ck(2) [of c] that unfolding complete_def by blast
    show "conns s2 k \<noteq> None" if "needs_modeset s2 c" "k < n_conn d"
        "cn_crtc (conn_cur d k) = Some c \<or> cn_crtc (new_conn d s2 k) = Some c" for c k
      using complete_conns [OF ck(2) that] .
    show "valid_modes d s2" by (rule ck(3))
  qed (blast intro: settled_changed [OF ck(1)] settled_flags [OF ck(1)])+
qed

text \<open>
  An example: one CRTC shows a mode on connector 0, and the commit moves it to connector 1, which wants the encoder connector 0 has.
\<close>

definition demo_crtc :: crtc_st where
  "demo_crtc = \<lparr>cs_enable = True, cs_active = True, cs_mode = zero_mode, cs_adjusted_mode = zero_mode, mode_blob = True,
     mode_changed = False, active_changed = False, connectors_changed = False, planes_changed = False, no_vblank = False,
     self_refresh_active = False, cs_event = False, connector_mask = {0}, encoder_mask = {0}, plane_mask = {}\<rparr>"

definition demo_dev :: modeset_dev where
  "demo_dev = \<lparr>n_crtc = 1, n_conn = 2, n_plane = 1, crtc_cur = (\<lambda>_. demo_crtc),
     conn_cur = (\<lambda>k. if k = 0 then \<lparr>cn_crtc = Some 0, cn_encoder = Some 0, link_status = 0, max_requested_bpc = 8\<rparr>
                     else \<lparr>cn_crtc = None, cn_encoder = None, link_status = 0, max_requested_bpc = 8\<rparr>),
     plane_cur = (\<lambda>_. \<lparr>pl_crtc = None, pl_fb = None\<rparr>), bridge_cur = (\<lambda>_ _. None), dev_has_vblank = True,
     unregistered = (\<lambda>_. False), possible_encoders = (\<lambda>_. [0]), possible_crtcs = (\<lambda>_. {0}), possible_clones = (\<lambda>_. {}),
     conn_bus_formats = (\<lambda>_. []), conn_bus_flags = (\<lambda>_. {}), get_crtc_err = (\<lambda>_. 0), get_conn_err = (\<lambda>_. 0),
     get_plane_err = (\<lambda>_. 0), get_bridge_err = (\<lambda>_ _. 0), alloc_fmts = True, atomic_best_encoder = (\<lambda>_. None),
     best_encoder = (\<lambda>_. None), conn_atomic_check = (\<lambda>_. None),
     enc_hooks = (\<lambda>_. \<lparr>encoder_mode_valid_hook = None, bridge_hooks = [], encoder_crtcs = []\<rparr>),
     crtc_hooks = (\<lambda>_. \<lparr>crtc_possible = True, crtc_mode_valid_hook = None\<rparr>), enc_chain = (\<lambda>_. []),
     enc_atomic_check = (\<lambda>_. None), enc_mode_fixup = (\<lambda>_. None), crtc_mode_fixup = (\<lambda>_. None),
     plane_atomic_check = (\<lambda>_. None), crtc_atomic_check = (\<lambda>_. None)\<rparr>"

definition demo_commit :: drm_atomic_commit where
  "demo_commit =
     snd (drm_atomic_set_crtc_for_connector demo_dev 1 (Some 0) (snd (drm_atomic_set_crtc_for_connector demo_dev 0 None
       (snd (drm_atomic_get_connector_state demo_dev 1 (snd (drm_atomic_get_connector_state demo_dev 0 empty_commit)))))))"

lemma demo_hooks: "modeset_hooks demo_dev"
  by unfold_locales (simp_all add: demo_dev_def new_encoder_def drm_connector_get_single_encoder_def)

lemma demo_device_ok: "device_ok demo_dev"
  by (auto simp: device_ok_def routing_ok_def planes_ok_def paths_ok_def demo_dev_def demo_crtc_def less_Suc_eq numeral_2_eq_2)

lemma demo_building: "building demo_dev demo_commit"
proof -
  let ?s1 = "snd (drm_atomic_get_connector_state demo_dev 0 empty_commit)"
  let ?s2 = "snd (drm_atomic_get_connector_state demo_dev 1 ?s1)"
  let ?s3 = "snd (drm_atomic_set_crtc_for_connector demo_dev 0 None ?s2)"
  have dim: "n_conn demo_dev = 2" "n_crtc demo_dev = 1" by (simp_all add: demo_dev_def)
  have 1: "building demo_dev ?s1"
  proof (rule building_conn [OF building_empty, of 0])
    have "fst (drm_atomic_get_connector_state demo_dev 0 empty_commit) = 0" by code_simp
    then show "drm_atomic_get_connector_state demo_dev 0 empty_commit = (0, ?s1)" by (simp add: prod_eq_iff)
  qed (simp add: dim)
  have 2: "building demo_dev ?s2"
  proof (rule building_conn [OF 1, of 1])
    have "fst (drm_atomic_get_connector_state demo_dev 1 ?s1) = 0" by code_simp
    then show "drm_atomic_get_connector_state demo_dev 1 ?s1 = (0, ?s2)" by (simp add: prod_eq_iff)
  qed (simp add: dim)
  have 3: "building demo_dev ?s3"
  proof (rule building_route [OF 2, of 0 None])
    have "fst (drm_atomic_set_crtc_for_connector demo_dev 0 None ?s2) = 0" by code_simp
    then show "drm_atomic_set_crtc_for_connector demo_dev 0 None ?s2 = (0, ?s3)" by (simp add: prod_eq_iff)
    show "conns ?s2 0 \<noteq> None" by code_simp
  qed simp
  show ?thesis unfolding demo_commit_def
  proof (rule building_route [OF 3, of 1 "Some 0"])
    have "fst (drm_atomic_set_crtc_for_connector demo_dev 1 (Some 0) ?s3) = 0" by code_simp
    then show "drm_atomic_set_crtc_for_connector demo_dev 1 (Some 0) ?s3 =
        (0, snd (drm_atomic_set_crtc_for_connector demo_dev 1 (Some 0) ?s3))" by (simp add: prod_eq_iff)
    show "conns ?s3 1 \<noteq> None" by code_simp
  qed (simp add: dim)
qed

theorem check_modeset_consistent_witness:
  "let s1 = snd (drm_atomic_helper_check_modeset demo_dev demo_commit); s2 = snd (drm_atomic_helper_check_planes demo_dev s1)
   in cn_encoder (new_conn demo_dev s2 0) = None \<and> cn_encoder (new_conn demo_dev s2 1) = Some 0 \<and>
      connector_mask (new_crtc demo_dev s2 0) = {1} \<and> needs_modeset s2 0 \<and>
      device_ok (drm_atomic_helper_swap_state demo_dev s2) \<and> valid_modes demo_dev s2"
proof -
  let ?s1 = "snd (drm_atomic_helper_check_modeset demo_dev demo_commit)"
  let ?s2 = "snd (drm_atomic_helper_check_planes demo_dev ?s1)"
  have "fst (drm_atomic_helper_check_modeset demo_dev demo_commit) = 0" by code_simp
  then have 1: "drm_atomic_helper_check_modeset demo_dev demo_commit = (0, ?s1)" by (simp add: prod_eq_iff)
  have "fst (drm_atomic_helper_check_planes demo_dev ?s1) = 0" by code_simp
  then have 2: "drm_atomic_helper_check_planes demo_dev ?s1 = (0, ?s2)" by (simp add: prod_eq_iff)
  have "cn_encoder (new_conn demo_dev ?s2 0) = None \<and> cn_encoder (new_conn demo_dev ?s2 1) = Some 0 \<and>
      connector_mask (new_crtc demo_dev ?s2 0) = {1} \<and> needs_modeset ?s2 0" by code_simp
  moreover from check_modeset_consistent [OF demo_hooks demo_device_ok demo_building 1 2]
  have "device_ok (drm_atomic_helper_swap_state demo_dev ?s2) \<and> valid_modes demo_dev ?s2" by (elim conjE, intro conjI)
  ultimately show ?thesis unfolding Let_def by blast
qed

end
