(* ===== verification/Drm_Commit.thy ===== *)
theory Drm_Commit
  imports Drm_Check_Modeset
begin

text \<open>
  Committing a checked state to the hardware (\<open>drm/drm_atomic_helper.c\<close>): the calls the commit makes, phase by
  phase, to the hooks of CRTCs, encoders, bridges and planes, after the new states have been swapped in.

  A phase is the list of its calls. \<open>d\<close> is the device before the swap, so that \<open>crtc_cur d\<close> and \<open>conn_cur d\<close> are the old
  states; the state a CRTC has after the swap (\<open>crtc->state\<close> in the source) is \<open>new_crtc d s\<close>. A call names the object, the CRTC
  involved and the hook that runs, if the driver has one. Fences, completions and legacy cursor updates
  are left out.
\<close>

section \<open>Calls and hooks\<close>

datatype enc_off_hook = ENC_ATOMIC_DISABLE | ENC_PREPARE | ENC_DISABLE | ENC_DPMS_OFF
datatype crtc_off_hook = CRTC_PREPARE | CRTC_ATOMIC_DISABLE | CRTC_DISABLE | CRTC_DPMS_OFF
datatype enc_mode_hook = ENC_ATOMIC_MODE_SET | ENC_MODE_SET
datatype crtc_on_hook = CRTC_ATOMIC_ENABLE | CRTC_COMMIT
datatype enc_on_hook = ENC_ATOMIC_ENABLE | ENC_ENABLE | ENC_COMMIT

record commit_hooks =
  enc_off_hooks :: "nat \<Rightarrow> enc_off_hook set"
  crtc_off_hooks :: "nat \<Rightarrow> crtc_off_hook set"
  crtc_mode_set_nofb :: "nat \<Rightarrow> bool"
  enc_mode_hooks :: "nat \<Rightarrow> enc_mode_hook set"
  crtc_on_hooks :: "nat \<Rightarrow> crtc_on_hook set"
  enc_on_hooks :: "nat \<Rightarrow> enc_on_hook set"
  crtc_atomic_begin :: "nat \<Rightarrow> bool"
  crtc_atomic_flush :: "nat \<Rightarrow> bool"
  plane_funcs :: "nat \<Rightarrow> bool"
  plane_atomic_disable :: "nat \<Rightarrow> bool"
  plane_atomic_enable :: "nat \<Rightarrow> bool"
  plane_end_fb_access :: "nat \<Rightarrow> bool"
  plane_cleanup_fb :: "nat \<Rightarrow> bool"
  conn_writeback :: "nat \<Rightarrow> bool"
  vblank_get_ok :: "nat \<Rightarrow> bool"

datatype commit_call =
    Bridges_disable nat "bridge_call list"
  | Enc_disable nat "enc_off_hook option"
  | Bridges_post_disable nat "bridge_call list"
  | Crtc_disable nat "crtc_off_hook option"
  | Crtc_mode_set nat
  | Enc_mode_set nat "enc_mode_hook option"
  | Bridges_mode_set nat "bridge_call list"
  | Crtc_begin nat bool
  | Plane_disable nat nat
  | Plane_update nat nat
  | Plane_enable nat nat
  | Crtc_flush nat bool
  | End_fb_access nat
  | Crtc_enable nat "crtc_on_hook option"
  | Bridges_pre_enable nat nat "bridge_call list"
  | Enc_enable nat "enc_on_hook option"
  | Bridges_enable nat "bridge_call list"
  | Conn_commit nat
  | Send_vblank_event nat
  | Hw_done
  | Wait_vblank nat
  | Cleanup_fb nat

text \<open>The first of several hooks that the driver has.\<close>

definition first_hook :: "'h set \<Rightarrow> 'h list \<Rightarrow> 'h option" where
  "first_hook has hooks = find (\<lambda>h. h \<in> has) hooks"

section \<open>Disabling\<close>

text \<open>The new state comes with the index of its CRTC.\<close>

definition crtc_needs_disable :: "nat \<Rightarrow> crtc_st \<Rightarrow> (nat \<times> crtc_st) option \<Rightarrow> bool" where
  "crtc_needs_disable old_crtc old_state new_state = (case new_state of
     None \<Rightarrow> drm_atomic_crtc_effectively_active old_state
   | Some (crtc, st) \<Rightarrow>
       if self_refresh_active old_state \<and> old_crtc \<noteq> crtc then True
       else cs_active old_state \<or> (self_refresh_active old_state \<and> \<not> cs_active st) \<or> self_refresh_active st)"

text \<open>The encoder a connector of the commit gives up, with whether the connector is routed afterwards.\<close>

definition encoder_to_disable :: "modeset_dev \<Rightarrow> drm_atomic_commit \<Rightarrow> nat \<Rightarrow> (nat \<times> bool) option" where
  "encoder_to_disable d s k = (case conns s k of
     None \<Rightarrow> None
   | Some new_conn_state \<Rightarrow> (case cn_crtc (conn_cur d k) of
       None \<Rightarrow> None
     | Some c \<Rightarrow>
         let new_crtc_state = map_option (\<lambda>c. (c, the (crtcs s c))) (cn_crtc new_conn_state)
         in if \<not> crtc_needs_disable c (crtc_cur d c) new_crtc_state \<or> \<not> drm_atomic_crtc_needs_modeset (new_crtc d s c) then None
            else map_option (\<lambda>e. (e, cn_crtc new_conn_state \<noteq> None)) (cn_encoder (conn_cur d k))))"

definition drm_atomic_helper_commit_encoder_bridge_disable ::
    "commit_hooks \<Rightarrow> modeset_dev \<Rightarrow> drm_atomic_commit \<Rightarrow> commit_call list" where
  "drm_atomic_helper_commit_encoder_bridge_disable h d s =
     concat (map (\<lambda>k. case encoder_to_disable d s k of
         None \<Rightarrow> []
       | Some (e, stays) \<Rightarrow>
           [Bridges_disable e (drm_atomic_bridge_chain_disable (enc_chain d e)),
            Enc_disable e (first_hook (enc_off_hooks h e)
              ([ENC_ATOMIC_DISABLE] @ (if stays then [ENC_PREPARE] else []) @ [ENC_DISABLE, ENC_DPMS_OFF]))])
       [0..<n_conn d])"

definition drm_atomic_helper_commit_encoder_bridge_post_disable ::
    "modeset_dev \<Rightarrow> drm_atomic_commit \<Rightarrow> commit_call list" where
  "drm_atomic_helper_commit_encoder_bridge_post_disable d s =
     concat (map (\<lambda>k. case encoder_to_disable d s k of
         None \<Rightarrow> []
       | Some (e, _) \<Rightarrow> [Bridges_post_disable e (drm_atomic_bridge_chain_post_disable True (enc_chain d e))])
       [0..<n_conn d])"

definition drm_atomic_helper_commit_crtc_disable ::
    "commit_hooks \<Rightarrow> modeset_dev \<Rightarrow> drm_atomic_commit \<Rightarrow> commit_call list" where
  "drm_atomic_helper_commit_crtc_disable h d s =
     concat (map (\<lambda>c. case crtcs s c of
         None \<Rightarrow> []
       | Some st \<Rightarrow>
           if \<not> drm_atomic_crtc_needs_modeset st then []
           else if \<not> crtc_needs_disable c (crtc_cur d c) (Some (c, st)) then []
           else [Crtc_disable c (first_hook (crtc_off_hooks h c)
                   ((if cs_enable st then [CRTC_PREPARE] else []) @ [CRTC_ATOMIC_DISABLE, CRTC_DISABLE, CRTC_DPMS_OFF]))])
       [0..<n_crtc d])"

definition disable_outputs :: "commit_hooks \<Rightarrow> modeset_dev \<Rightarrow> drm_atomic_commit \<Rightarrow> commit_call list" where
  "disable_outputs h d s = drm_atomic_helper_commit_encoder_bridge_disable h d s @
     drm_atomic_helper_commit_encoder_bridge_post_disable d s @ drm_atomic_helper_commit_crtc_disable h d s"

section \<open>Setting the modes\<close>

definition drm_atomic_helper_commit_crtc_set_mode ::
    "commit_hooks \<Rightarrow> modeset_dev \<Rightarrow> drm_atomic_commit \<Rightarrow> commit_call list" where
  "drm_atomic_helper_commit_crtc_set_mode h d s =
     concat (map (\<lambda>c. case crtcs s c of
         None \<Rightarrow> []
       | Some st \<Rightarrow> if \<not> mode_changed st then []
                    else if cs_enable st \<and> crtc_mode_set_nofb h c then [Crtc_mode_set c] else [])
       [0..<n_crtc d]) @
     concat (map (\<lambda>k. case conns s k of
         None \<Rightarrow> []
       | Some cn \<Rightarrow> (case cn_encoder cn of
           None \<Rightarrow> []
         | Some e \<Rightarrow>
             let st = new_crtc d s (the (cn_crtc cn))
             in if \<not> mode_changed st \<and> \<not> connectors_changed st then []
                else [Enc_mode_set e (first_hook (enc_mode_hooks h e) [ENC_ATOMIC_MODE_SET, ENC_MODE_SET]),
                      Bridges_mode_set e (drm_bridge_chain_mode_set (enc_chain d e))]))
       [0..<n_conn d])"

definition drm_atomic_helper_commit_modeset_disables ::
    "commit_hooks \<Rightarrow> modeset_dev \<Rightarrow> drm_atomic_commit \<Rightarrow> commit_call list" where
  "drm_atomic_helper_commit_modeset_disables h d s = disable_outputs h d s @ drm_atomic_helper_commit_crtc_set_mode h d s"

section \<open>Planes\<close>

definition drm_atomic_plane_disabling :: "plane_st \<Rightarrow> plane_st \<Rightarrow> bool" where
  "drm_atomic_plane_disabling old new \<longleftrightarrow> pl_crtc old \<noteq> None \<and> pl_crtc new = None"

definition drm_atomic_plane_enabling :: "plane_st \<Rightarrow> plane_st \<Rightarrow> bool" where
  "drm_atomic_plane_enabling old new \<longleftrightarrow> pl_crtc old = None \<and> pl_crtc new \<noteq> None"

definition plane_crtc_active :: "modeset_dev \<Rightarrow> drm_atomic_commit \<Rightarrow> plane_st \<Rightarrow> bool" where
  "plane_crtc_active d s st = (case pl_crtc st of None \<Rightarrow> False | Some c \<Rightarrow> cs_active (new_crtc d s c))"

text \<open>One plane; a plane that is switched off without the hook for it is updated on its old CRTC.\<close>

definition commit_plane ::
    "commit_hooks \<Rightarrow> modeset_dev \<Rightarrow> drm_atomic_commit \<Rightarrow> bool \<Rightarrow> bool \<Rightarrow> nat \<Rightarrow> commit_call list" where
  "commit_plane h d s active_only no_disable p = (case planes s p of
     None \<Rightarrow> []
   | Some new_st \<Rightarrow>
       let old_st = plane_cur d p; disabling = drm_atomic_plane_disabling old_st new_st
       in if \<not> plane_funcs h p then []
          else if active_only \<and> \<not> disabling \<and> \<not> plane_crtc_active d s new_st then []
          else if active_only \<and> disabling \<and> \<not> plane_crtc_active d s old_st then []
          else if disabling \<and> plane_atomic_disable h p then
            (let c = the (pl_crtc old_st)
             in if drm_atomic_crtc_needs_modeset (new_crtc d s c) \<and> no_disable then [] else [Plane_disable p c])
          else if pl_crtc new_st \<noteq> None \<or> disabling then
            (let c = (case pl_crtc new_st of Some c \<Rightarrow> c | None \<Rightarrow> the (pl_crtc old_st))
             in Plane_update p c #
                (if \<not> disabling \<and> plane_atomic_enable h p \<and> drm_atomic_plane_enabling old_st new_st then [Plane_enable p c] else []))
          else [])"

definition crtcs_of_planes :: "modeset_dev \<Rightarrow> drm_atomic_commit \<Rightarrow> bool \<Rightarrow> nat \<Rightarrow> bool" where
  "crtcs_of_planes d s active_only c = (case crtcs s c of None \<Rightarrow> False | Some st \<Rightarrow> \<not> (active_only \<and> \<not> cs_active st))"

definition drm_atomic_helper_commit_planes ::
    "commit_hooks \<Rightarrow> modeset_dev \<Rightarrow> drm_atomic_commit \<Rightarrow> bool \<Rightarrow> bool \<Rightarrow> commit_call list" where
  "drm_atomic_helper_commit_planes h d s active_only no_disable =
     concat (map (\<lambda>c. if crtcs_of_planes d s active_only c then [Crtc_begin c (crtc_atomic_begin h c)] else []) [0..<n_crtc d]) @
     concat (map (commit_plane h d s active_only no_disable) [0..<n_plane d]) @
     concat (map (\<lambda>c. if crtcs_of_planes d s active_only c then [Crtc_flush c (crtc_atomic_flush h c)] else []) [0..<n_crtc d]) @
     concat (map (\<lambda>p. if planes s p \<noteq> None \<and> plane_end_fb_access h p then [End_fb_access p] else []) [0..<n_plane d])"

section \<open>Enabling\<close>

definition drm_atomic_helper_commit_crtc_enable ::
    "commit_hooks \<Rightarrow> modeset_dev \<Rightarrow> drm_atomic_commit \<Rightarrow> commit_call list" where
  "drm_atomic_helper_commit_crtc_enable h d s =
     concat (map (\<lambda>c. case crtcs s c of
         None \<Rightarrow> []
       | Some st \<Rightarrow> if \<not> drm_atomic_crtc_needs_modeset st then []
                    else if \<not> cs_active st then []
                    else if cs_enable st then [Crtc_enable c (first_hook (crtc_on_hooks h c) [CRTC_ATOMIC_ENABLE, CRTC_COMMIT])]
                    else [])
       [0..<n_crtc d])"

text \<open>The encoder a connector of the commit switches on, with its CRTC.\<close>

definition encoder_to_enable :: "modeset_dev \<Rightarrow> drm_atomic_commit \<Rightarrow> nat \<Rightarrow> (nat \<times> nat) option" where
  "encoder_to_enable d s k = (case conns s k of
     None \<Rightarrow> None
   | Some cn \<Rightarrow> (case cn_encoder cn of
       None \<Rightarrow> None
     | Some e \<Rightarrow>
         let c = the (cn_crtc cn)
         in if \<not> cs_active (new_crtc d s c) \<or> \<not> drm_atomic_crtc_needs_modeset (new_crtc d s c) then None else Some (e, c)))"

definition drm_atomic_helper_commit_encoder_bridge_pre_enable ::
    "modeset_dev \<Rightarrow> drm_atomic_commit \<Rightarrow> commit_call list" where
  "drm_atomic_helper_commit_encoder_bridge_pre_enable d s =
     concat (map (\<lambda>k. case encoder_to_enable d s k of
         None \<Rightarrow> []
       | Some (e, c) \<Rightarrow> [Bridges_pre_enable e c (drm_atomic_bridge_chain_pre_enable True (enc_chain d e))])
       [0..<n_conn d])"

definition drm_atomic_helper_commit_encoder_bridge_enable ::
    "commit_hooks \<Rightarrow> modeset_dev \<Rightarrow> drm_atomic_commit \<Rightarrow> commit_call list" where
  "drm_atomic_helper_commit_encoder_bridge_enable h d s =
     concat (map (\<lambda>k. case encoder_to_enable d s k of
         None \<Rightarrow> []
       | Some (e, c) \<Rightarrow>
           [Enc_enable e (first_hook (enc_on_hooks h e) [ENC_ATOMIC_ENABLE, ENC_ENABLE, ENC_COMMIT]),
            Bridges_enable e (drm_atomic_bridge_chain_enable (enc_chain d e))])
       [0..<n_conn d])"

definition drm_atomic_helper_commit_writebacks ::
    "commit_hooks \<Rightarrow> modeset_dev \<Rightarrow> drm_atomic_commit \<Rightarrow> commit_call list" where
  "drm_atomic_helper_commit_writebacks h d s =
     concat (map (\<lambda>k. if conns s k \<noteq> None \<and> conn_writeback h k then [Conn_commit k] else []) [0..<n_conn d])"

definition drm_atomic_helper_commit_modeset_enables ::
    "commit_hooks \<Rightarrow> modeset_dev \<Rightarrow> drm_atomic_commit \<Rightarrow> commit_call list" where
  "drm_atomic_helper_commit_modeset_enables h d s = drm_atomic_helper_commit_crtc_enable h d s @
     drm_atomic_helper_commit_encoder_bridge_pre_enable d s @ drm_atomic_helper_commit_encoder_bridge_enable h d s @
     drm_atomic_helper_commit_writebacks h d s"

section \<open>Finishing\<close>

definition drm_atomic_helper_fake_vblank :: "modeset_dev \<Rightarrow> drm_atomic_commit \<Rightarrow> commit_call list" where
  "drm_atomic_helper_fake_vblank d s =
     concat (map (\<lambda>c. case crtcs s c of
         None \<Rightarrow> []
       | Some st \<Rightarrow> if no_vblank st \<and> cs_event st then [Send_vblank_event c] else []) [0..<n_crtc d])"

definition drm_atomic_helper_wait_for_vblanks ::
    "commit_hooks \<Rightarrow> modeset_dev \<Rightarrow> drm_atomic_commit \<Rightarrow> commit_call list" where
  "drm_atomic_helper_wait_for_vblanks h d s =
     concat (map (\<lambda>c. case crtcs s c of
         None \<Rightarrow> []
       | Some st \<Rightarrow> if cs_active st \<and> vblank_get_ok h c then [Wait_vblank c] else []) [0..<n_crtc d])"

definition drm_atomic_helper_cleanup_planes ::
    "commit_hooks \<Rightarrow> modeset_dev \<Rightarrow> drm_atomic_commit \<Rightarrow> commit_call list" where
  "drm_atomic_helper_cleanup_planes h d s =
     concat (map (\<lambda>p. if planes s p \<noteq> None \<and> plane_cleanup_fb h p then [Cleanup_fb p] else []) [0..<n_plane d])"

definition drm_atomic_helper_commit_tail :: "commit_hooks \<Rightarrow> modeset_dev \<Rightarrow> drm_atomic_commit \<Rightarrow> commit_call list" where
  "drm_atomic_helper_commit_tail h d s =
     drm_atomic_helper_commit_modeset_disables h d s @ drm_atomic_helper_commit_planes h d s False False @
     drm_atomic_helper_commit_modeset_enables h d s @ drm_atomic_helper_fake_vblank d s @ [Hw_done] @
     drm_atomic_helper_wait_for_vblanks h d s @ drm_atomic_helper_cleanup_planes h d s"

definition drm_atomic_helper_commit_tail_rpm :: "commit_hooks \<Rightarrow> modeset_dev \<Rightarrow> drm_atomic_commit \<Rightarrow> commit_call list" where
  "drm_atomic_helper_commit_tail_rpm h d s =
     drm_atomic_helper_commit_modeset_disables h d s @ drm_atomic_helper_commit_modeset_enables h d s @
     drm_atomic_helper_commit_planes h d s True False @ drm_atomic_helper_fake_vblank d s @ [Hw_done] @
     drm_atomic_helper_wait_for_vblanks h d s @ drm_atomic_helper_cleanup_planes h d s"

section \<open>Legacy pointers\<close>

record legacy_state =
  conn_encoder :: "nat \<Rightarrow> nat option"
  encoder_crtc :: "nat \<Rightarrow> nat option"
  conn_dpms_on :: "nat \<Rightarrow> bool"
  crtc_mode :: "nat \<Rightarrow> drm_mode_entry"
  crtc_enabled :: "nat \<Rightarrow> bool"

definition clear_legacy_link :: "modeset_dev \<Rightarrow> drm_atomic_commit \<Rightarrow> nat \<Rightarrow> legacy_state \<Rightarrow> legacy_state" where
  "clear_legacy_link d s k l = (case conns s k of
     None \<Rightarrow> l
   | Some cn \<Rightarrow>
       let l = (case conn_encoder l k of
                  None \<Rightarrow> l
                | Some e \<Rightarrow> l\<lparr>encoder_crtc := (encoder_crtc l)(e := None), conn_encoder := (conn_encoder l)(k := None)\<rparr>)
       in if (cn_crtc cn = None \<and> cn_crtc (conn_cur d k) \<noteq> None) \<or>
             (case cn_crtc cn of None \<Rightarrow> False | Some c \<Rightarrow> drm_atomic_crtc_needs_modeset (new_crtc d s c))
          then l\<lparr>conn_dpms_on := (conn_dpms_on l)(k := (case cn_crtc cn of None \<Rightarrow> False | Some c \<Rightarrow> cs_active (new_crtc d s c)))\<rparr>
          else l)"

definition set_legacy_link :: "drm_atomic_commit \<Rightarrow> nat \<Rightarrow> legacy_state \<Rightarrow> legacy_state" where
  "set_legacy_link s k l = (case conns s k of
     None \<Rightarrow> l
   | Some cn \<Rightarrow> (case (cn_crtc cn, cn_encoder cn) of
       (Some c, Some e) \<Rightarrow> l\<lparr>conn_encoder := (conn_encoder l)(k := Some e), encoder_crtc := (encoder_crtc l)(e := Some c)\<rparr>
     | _ \<Rightarrow> l))"

definition set_legacy_crtc :: "drm_atomic_commit \<Rightarrow> nat \<Rightarrow> legacy_state \<Rightarrow> legacy_state" where
  "set_legacy_crtc s c l = (case crtcs s c of
     None \<Rightarrow> l
   | Some st \<Rightarrow> l\<lparr>crtc_mode := (crtc_mode l)(c := cs_mode st), crtc_enabled := (crtc_enabled l)(c := cs_enable st)\<rparr>)"

text \<open>Without the position of the primary plane.\<close>

definition drm_atomic_helper_update_legacy_modeset_state ::
    "modeset_dev \<Rightarrow> drm_atomic_commit \<Rightarrow> legacy_state \<Rightarrow> legacy_state" where
  "drm_atomic_helper_update_legacy_modeset_state d s l =
     fold (set_legacy_crtc s) [0..<n_crtc d] (fold (set_legacy_link s) [0..<n_conn d] (fold (clear_legacy_link d s) [0..<n_conn d] l))"

end
