(* ===== verification/Drm_Commit_Order.thy ===== *)
theory Drm_Commit_Order
  imports Drm_Commit
begin

text \<open>
  The order of the calls of a commit, against a model of the hardware that accepts a call only when the hardware is ready for it: an
  encoder is switched off before the CRTC that feeds it and on after it, its bridges around it; modes are set while
  the objects are off; planes change between the begin and the flush of their CRTC; a framebuffer is given back
  after the hardware has been told about its successor.
\<close>

section \<open>The hardware\<close>

text \<open>An output, an encoder with its bridges: off, fully on at a CRTC, or on the way.\<close>

datatype output_phase = Output_off | Output_prepared nat | Output_enc_on nat | Output_on nat
  | Output_bridges_off nat | Output_enc_off nat

record hw_state =
  hw_crtcs :: "nat set"
  hw_outputs :: "nat \<Rightarrow> output_phase"
  hw_open :: "nat set"
  hw_finished :: bool

fun feeds :: "output_phase \<Rightarrow> nat option" where
  "feeds Output_off = None"
| "feeds (Output_prepared c) = Some c"
| "feeds (Output_enc_on c) = Some c"
| "feeds (Output_on c) = Some c"
| "feeds (Output_bridges_off c) = Some c"
| "feeds (Output_enc_off c) = Some c"

definition set_output :: "nat \<Rightarrow> output_phase \<Rightarrow> hw_state \<Rightarrow> hw_state" where
  "set_output e ph w = w\<lparr>hw_outputs := (hw_outputs w)(e := ph)\<rparr>"

text \<open>One call; it is refused (no result) when the hardware is not ready for it.\<close>

fun hw_step :: "commit_call \<Rightarrow> hw_state \<Rightarrow> hw_state option" where
  "hw_step (Bridges_disable e _) w = (case hw_outputs w e of
     Output_on c \<Rightarrow> if c \<in> hw_crtcs w then Some (set_output e (Output_bridges_off c) w) else None | _ \<Rightarrow> None)"
| "hw_step (Enc_disable e _) w = (case hw_outputs w e of
     Output_bridges_off c \<Rightarrow> if c \<in> hw_crtcs w then Some (set_output e (Output_enc_off c) w) else None | _ \<Rightarrow> None)"
| "hw_step (Bridges_post_disable e _) w = (case hw_outputs w e of
     Output_enc_off c \<Rightarrow> if c \<in> hw_crtcs w then Some (set_output e Output_off w) else None | _ \<Rightarrow> None)"
| "hw_step (Crtc_disable c _) w =
     (if c \<in> hw_crtcs w \<and> (\<forall>e. feeds (hw_outputs w e) \<noteq> Some c) then Some (w\<lparr>hw_crtcs := hw_crtcs w - {c}\<rparr>) else None)"
| "hw_step (Crtc_mode_set c) w = (if c \<notin> hw_crtcs w then Some w else None)"
| "hw_step (Enc_mode_set e _) w = (if hw_outputs w e = Output_off then Some w else None)"
| "hw_step (Bridges_mode_set e _) w = (if hw_outputs w e = Output_off then Some w else None)"
| "hw_step (Crtc_begin c _) w = (if c \<notin> hw_open w \<and> \<not> hw_finished w then Some (w\<lparr>hw_open := insert c (hw_open w)\<rparr>) else None)"
| "hw_step (Plane_disable p c) w = (if c \<in> hw_open w then Some w else None)"
| "hw_step (Plane_update p c) w = (if c \<in> hw_open w then Some w else None)"
| "hw_step (Plane_enable p c) w = (if c \<in> hw_open w then Some w else None)"
| "hw_step (Crtc_flush c _) w = (if c \<in> hw_open w then Some (w\<lparr>hw_open := hw_open w - {c}\<rparr>) else None)"
| "hw_step (End_fb_access p) w = (if hw_open w = {} \<and> \<not> hw_finished w then Some w else None)"
| "hw_step (Crtc_enable c _) w = (if c \<notin> hw_crtcs w then Some (w\<lparr>hw_crtcs := insert c (hw_crtcs w)\<rparr>) else None)"
| "hw_step (Bridges_pre_enable e c _) w =
     (if hw_outputs w e = Output_off \<and> c \<in> hw_crtcs w then Some (set_output e (Output_prepared c) w) else None)"
| "hw_step (Enc_enable e _) w = (case hw_outputs w e of
     Output_prepared c \<Rightarrow> if c \<in> hw_crtcs w then Some (set_output e (Output_enc_on c) w) else None | _ \<Rightarrow> None)"
| "hw_step (Bridges_enable e _) w = (case hw_outputs w e of
     Output_enc_on c \<Rightarrow> if c \<in> hw_crtcs w then Some (set_output e (Output_on c) w) else None | _ \<Rightarrow> None)"
| "hw_step (Conn_commit k) w = (if hw_finished w then None else Some w)"
| "hw_step (Send_vblank_event c) w = (if hw_finished w then None else Some w)"
| "hw_step Hw_done w = (if hw_open w = {} \<and> \<not> hw_finished w then Some (w\<lparr>hw_finished := True\<rparr>) else None)"
| "hw_step (Wait_vblank c) w = (if c \<in> hw_crtcs w \<and> hw_finished w then Some w else None)"
| "hw_step (Cleanup_fb p) w = (if hw_finished w then Some w else None)"

fun hw_run :: "commit_call list \<Rightarrow> hw_state \<Rightarrow> hw_state option" where
  "hw_run [] w = Some w"
| "hw_run (x # xs) w = (case hw_step x w of None \<Rightarrow> None | Some w \<Rightarrow> hw_run xs w)"

text \<open>The hardware that shows the current state of a device.\<close>

definition shows_output :: "modeset_dev \<Rightarrow> nat \<Rightarrow> nat \<Rightarrow> bool" where
  "shows_output d e c \<longleftrightarrow>
     (\<exists>k<n_conn d. cn_encoder (conn_cur d k) = Some e \<and> cn_crtc (conn_cur d k) = Some c) \<and> cs_active (crtc_cur d c)"

definition shows_state :: "modeset_dev \<Rightarrow> hw_state \<Rightarrow> bool" where
  "shows_state d w \<longleftrightarrow> hw_crtcs w = {c. c < n_crtc d \<and> cs_active (crtc_cur d c)} \<and>
     (\<forall>e c. hw_outputs w e = Output_on c \<longleftrightarrow> shows_output d e c) \<and>
     (\<forall>e. (\<nexists>c. shows_output d e c) \<longrightarrow> hw_outputs w e = Output_off)"

section \<open>Runs\<close>

lemma hw_run_append: "hw_run (xs @ ys) w = (case hw_run xs w of None \<Rightarrow> None | Some w \<Rightarrow> hw_run ys w)"
  by (induction xs arbitrary: w) (auto split: option.splits)

lemma hw_run_appendI: "hw_run xs w = Some w1 \<Longrightarrow> hw_run ys w1 = Some w2 \<Longrightarrow> hw_run (xs @ ys) w = Some w2"
  by (simp add: hw_run_append)

lemma hw_run_upt:
  assumes "\<And>i. i < n \<Longrightarrow> hw_run (f i) (H i) = Some (H (Suc i))"
  shows "hw_run (concat (map f [0..<n])) (H 0) = Some (H n)"
  using assms by (induction n) (auto simp: hw_run_append)

lemma hw_run_loop:
  assumes "H 0 = w" "H n = w'" "\<And>i. i < n \<Longrightarrow> hw_run (f i) (H i) = Some (H (Suc i))"
  shows "hw_run (concat (map f [0..<n])) w = Some w'"
  using hw_run_upt [of n f H] assms by blast

lemma hw_run_same:
  assumes "\<And>i. i < n \<Longrightarrow> hw_run (f i) w = Some w"
  shows "hw_run (concat (map f [0..<n])) w = Some w"
  using hw_run_upt [of n f "\<lambda>_. w"] assms by blast

section \<open>A commit that passed the check\<close>

text \<open>What the commit relies on: the check passed, active CRTCs are enabled, and no CRTC refreshes itself.\<close>

definition committable :: "modeset_dev \<Rightarrow> drm_atomic_commit \<Rightarrow> bool" where
  "committable d s \<longleftrightarrow> device_ok d \<and> checked d s \<and>
     (\<forall>c st. crtcs s c = Some st \<longrightarrow> (cs_active st \<longrightarrow> cs_enable st) \<and> \<not> self_refresh_active st) \<and>
     (\<forall>c. \<not> self_refresh_active (crtc_cur d c))"

lemma committableD:
  assumes "committable d s"
  shows "device_ok d" "settled d s" "complete d s c" "device_ok (drm_atomic_helper_swap_state d s)"
    "crtcs s c = Some st \<Longrightarrow> cs_active st \<Longrightarrow> cs_enable st" "crtcs s c = Some st \<Longrightarrow> \<not> self_refresh_active st"
    "\<not> self_refresh_active (crtc_cur d c)" "crtcs s c = Some st \<Longrightarrow> c < n_crtc d"
proof -
  have st: "settled d s" using assms by (simp add: committable_def checked_def)
  show "device_ok d" "settled d s" "complete d s c" using assms by (simp_all add: committable_def checked_def)
  show "device_ok (drm_atomic_helper_swap_state d s)" using st unfolding settled_def by (rule conjunct1)
  show "cs_enable st" if "crtcs s c = Some st" "cs_active st" using assms that by (simp add: committable_def)
  show "\<not> self_refresh_active st" if "crtcs s c = Some st" using assms that by (simp add: committable_def)
  show "\<not> self_refresh_active (crtc_cur d c)" using assms by (simp add: committable_def)
  show "c < n_crtc d" if "crtcs s c = Some st" using st that unfolding settled_def by blast
qed

lemma needs_new_crtc:
  assumes "committable d s" "crtcs s c \<noteq> None"
  shows "drm_atomic_crtc_needs_modeset (new_crtc d s c) \<longleftrightarrow> needs_modeset s c"
  using assms(2) by (auto simp: needs_modeset_def new_crtc_def)

lemma crtc_needs_disable_active:
  assumes "committable d s" "\<forall>x. new = Some x \<longrightarrow> crtcs s (fst x) = Some (snd x)"
  shows "crtc_needs_disable c (crtc_cur d c) new \<longleftrightarrow> cs_active (crtc_cur d c)"
proof (cases new)
  case None
  then show ?thesis
    using committableD(7) [OF assms(1), of c]
    by (simp add: crtc_needs_disable_def drm_atomic_crtc_effectively_active_def)
next
  case (Some x)
  obtain c' st where x: "x = (c', st)" by (cases x)
  then have "\<not> self_refresh_active st" using committableD(6) [OF assms(1), of c' st] assms(2) Some by simp
  then show ?thesis
    using committableD(7) [OF assms(1), of c] Some x by (simp add: crtc_needs_disable_def)
qed

text \<open>The encoders that are switched off: those of active CRTCs that need a modeset.\<close>

lemma encoder_to_disable_iff:
  assumes "committable d s" "k < n_conn d"
  shows "(\<exists>b. encoder_to_disable d s k = Some (e, b)) \<longleftrightarrow>
    (\<exists>c. cn_crtc (conn_cur d k) = Some c \<and> cn_encoder (conn_cur d k) = Some e \<and> cs_active (crtc_cur d c) \<and> needs_modeset s c)"
proof (cases "conns s k")
  case None
  then have "\<not> needs_modeset s c" if "cn_crtc (conn_cur d k) = Some c" for c
    using complete_conns [OF committableD(3) [OF assms(1)] _ assms(2)] that by blast
  then show ?thesis using None by (auto simp: encoder_to_disable_def)
next
  case (Some cn)
  show ?thesis
  proof (cases "cn_crtc (conn_cur d k)")
    case None
    then show ?thesis using Some by (simp add: encoder_to_disable_def)
  next
    case old: (Some c)
    have pres: "crtcs s x \<noteq> None" if "cn_crtc cn = Some x \<or> cn_crtc (conn_cur d k) = Some x" for x
      using committableD(2) [OF assms(1)] Some that unfolding settled_def by blast
    have "crtc_needs_disable c (crtc_cur d c) (map_option (\<lambda>c. (c, the (crtcs s c))) (cn_crtc cn)) \<longleftrightarrow> cs_active (crtc_cur d c)"
      by (rule crtc_needs_disable_active [OF assms(1)]) (use pres in auto)
    moreover have "drm_atomic_crtc_needs_modeset (new_crtc d s c) \<longleftrightarrow> needs_modeset s c"
      using needs_new_crtc [OF assms(1)] pres old by blast
    ultimately show ?thesis using Some old by (auto simp: encoder_to_disable_def Let_def)
  qed
qed

lemma encoder_to_enable_iff:
  assumes "committable d s" "k < n_conn d"
  shows "encoder_to_enable d s k = Some (e, c) \<longleftrightarrow>
    cn_crtc (new_conn d s k) = Some c \<and> encs d s k = Some e \<and> cs_active (new_crtc d s c) \<and> needs_modeset s c"
proof (cases "conns s k")
  case None
  then have "\<not> needs_modeset s c" if "cn_crtc (new_conn d s k) = Some c" for c
    using complete_conns [OF committableD(3) [OF assms(1)] _ assms(2)] that by blast
  then show ?thesis using None by (auto simp: encoder_to_enable_def)
next
  case (Some cn)
  have both: "cn_crtc cn = None \<longleftrightarrow> cn_encoder cn = None"
    using device_okD(1) [OF committableD(4) [OF assms(1)], of k] assms(2) Some by simp
  have "drm_atomic_crtc_needs_modeset (new_crtc d s x) \<longleftrightarrow> needs_modeset s x" if "cn_crtc cn = Some x" for x
    by (rule needs_new_crtc [OF assms(1)]) (use committableD(2) [OF assms(1)] Some that in \<open>unfold settled_def, blast\<close>)
  then show ?thesis
    using Some both by (cases "cn_crtc cn"; cases "cn_encoder cn") (auto simp: encoder_to_enable_def Let_def)
qed

section \<open>Switching off\<close>

definition turned_off :: "modeset_dev \<Rightarrow> drm_atomic_commit \<Rightarrow> nat \<Rightarrow> nat \<Rightarrow> bool" where
  "turned_off d s i e \<longleftrightarrow> (\<exists>k<i. \<exists>b. encoder_to_disable d s k = Some (e, b))"

definition enc_off :: "output_phase \<Rightarrow> output_phase" where
  "enc_off ph = (case feeds ph of None \<Rightarrow> ph | Some c \<Rightarrow> Output_enc_off c)"

definition crtc_turned_off :: "modeset_dev \<Rightarrow> drm_atomic_commit \<Rightarrow> nat \<Rightarrow> bool" where
  "crtc_turned_off d s c \<longleftrightarrow> needs_modeset s c \<and> cs_active (crtc_cur d c)"

lemma turned_off_Suc: "turned_off d s (Suc i) e \<longleftrightarrow> turned_off d s i e \<or> (\<exists>b. encoder_to_disable d s i = Some (e, b))"
  by (auto simp: turned_off_def less_Suc_eq)

lemma turned_off_0 [simp]: "\<not> turned_off d s 0 e"
  by (simp add: turned_off_def)

lemma turned_off_iff:
  assumes "committable d s"
  shows "turned_off d s (n_conn d) e \<longleftrightarrow> (\<exists>c. shows_output d e c \<and> needs_modeset s c)"
  using encoder_to_disable_iff [OF assms] unfolding turned_off_def shows_output_def by metis

lemma disabled_output:
  assumes "committable d s" "shows_state d w" "k < n_conn d" "encoder_to_disable d s k = Some (e, b)"
  shows "\<exists>c. hw_outputs w e = Output_on c \<and> c \<in> hw_crtcs w \<and> needs_modeset s c" "\<not> turned_off d s k e"
proof -
  obtain c where c: "cn_crtc (conn_cur d k) = Some c" "cn_encoder (conn_cur d k) = Some e" "cs_active (crtc_cur d c)" "needs_modeset s c"
    using encoder_to_disable_iff [OF assms(1,3), of e] assms(4) by blast
  then have "c < n_crtc d" using device_okD(2) [OF committableD(1) [OF assms(1)] assms(3)] by blast
  moreover have "shows_output d e c" using c assms(3) by (auto simp: shows_output_def)
  ultimately show "\<exists>c. hw_outputs w e = Output_on c \<and> c \<in> hw_crtcs w \<and> needs_modeset s c"
    using assms(2) c(3,4) by (auto simp: shows_state_def)
  show "\<not> turned_off d s k e"
  proof
    assume "turned_off d s k e"
    then obtain k' b' where k': "k' < k" "encoder_to_disable d s k' = Some (e, b')" by (auto simp: turned_off_def)
    then have "cn_encoder (conn_cur d k') = Some e"
      using encoder_to_disable_iff [OF assms(1), of k' e] assms(3) by auto
    then show False using device_okD(3) [OF committableD(1) [OF assms(1)] assms(3) c(2), of k'] k'(1) assms(3) by simp
  qed
qed

lemma run_encoder_bridge_disable:
  assumes "committable d s" "shows_state d w"
  shows "hw_run (drm_atomic_helper_commit_encoder_bridge_disable h d s) w =
    Some (w\<lparr>hw_outputs := \<lambda>e. if turned_off d s (n_conn d) e then enc_off (hw_outputs w e) else hw_outputs w e\<rparr>)"
  unfolding drm_atomic_helper_commit_encoder_bridge_disable_def
proof (rule hw_run_loop
    [where H = "\<lambda>i. w\<lparr>hw_outputs := \<lambda>e. if turned_off d s i e then enc_off (hw_outputs w e) else hw_outputs w e\<rparr>"], goal_cases)
  case (3 k)
  show ?case
  proof (cases "encoder_to_disable d s k")
    case None
    then show ?thesis by (simp add: turned_off_Suc)
  next
    case (Some x)
    obtain e b where x: "x = (e, b)" by (cases x)
    note o = disabled_output [OF assms 3 Some [unfolded x]]
    then obtain c where c: "hw_outputs w e = Output_on c" "c \<in> hw_crtcs w" by blast
    show ?thesis
      using Some x c o(2) by (auto simp: set_output_def turned_off_Suc enc_off_def fun_eq_iff)
  qed
qed simp_all

lemma run_encoder_bridge_post_disable:
  assumes "committable d s" "shows_state d w"
  shows "hw_run (drm_atomic_helper_commit_encoder_bridge_post_disable d s)
      (w\<lparr>hw_outputs := \<lambda>e. if turned_off d s (n_conn d) e then enc_off (hw_outputs w e) else hw_outputs w e\<rparr>) =
    Some (w\<lparr>hw_outputs := \<lambda>e. if turned_off d s (n_conn d) e then Output_off else hw_outputs w e\<rparr>)"
  unfolding drm_atomic_helper_commit_encoder_bridge_post_disable_def
proof (rule hw_run_loop
    [where H = "\<lambda>i. w\<lparr>hw_outputs := \<lambda>e. if turned_off d s i e then Output_off
       else if turned_off d s (n_conn d) e then enc_off (hw_outputs w e) else hw_outputs w e\<rparr>"], goal_cases)
  case (3 k)
  show ?case
  proof (cases "encoder_to_disable d s k")
    case None
    then show ?thesis by (simp add: turned_off_Suc)
  next
    case (Some x)
    obtain e b where x: "x = (e, b)" by (cases x)
    note o = disabled_output [OF assms 3 Some [unfolded x]]
    then obtain c where c: "hw_outputs w e = Output_on c" "c \<in> hw_crtcs w" by blast
    have "turned_off d s (n_conn d) e" using 3 Some x by (auto simp: turned_off_def)
    then show ?thesis
      using Some x c o(2) by (auto simp: set_output_def turned_off_Suc enc_off_def fun_eq_iff)
  qed
qed (auto simp: fun_eq_iff)

text \<open>The hardware once everything that changes is off.\<close>

definition hw_off :: "modeset_dev \<Rightarrow> drm_atomic_commit \<Rightarrow> hw_state \<Rightarrow> hw_state" where
  "hw_off d s w = w\<lparr>hw_outputs := \<lambda>e. if turned_off d s (n_conn d) e then Output_off else hw_outputs w e,
     hw_crtcs := hw_crtcs w - {c. crtc_turned_off d s c}\<rparr>"

lemma shows_state_feeds:
  assumes "shows_state d w" "feeds (hw_outputs w e) = Some c"
  shows "shows_output d e c" "hw_outputs w e = Output_on c"
proof -
  have "\<exists>c. shows_output d e c" using assms by (auto simp: shows_state_def)
  then obtain c' where "hw_outputs w e = Output_on c'" "shows_output d e c'" using assms(1) by (auto simp: shows_state_def)
  then show "shows_output d e c" "hw_outputs w e = Output_on c" using assms(2) by simp_all
qed

lemma run_crtc_disable:
  assumes "committable d s" "shows_state d w"
  shows "hw_run (drm_atomic_helper_commit_crtc_disable h d s)
      (w\<lparr>hw_outputs := \<lambda>e. if turned_off d s (n_conn d) e then Output_off else hw_outputs w e\<rparr>) = Some (hw_off d s w)"
  unfolding drm_atomic_helper_commit_crtc_disable_def
proof (rule hw_run_loop
    [where H = "\<lambda>i. w\<lparr>hw_outputs := \<lambda>e. if turned_off d s (n_conn d) e then Output_off else hw_outputs w e,
       hw_crtcs := hw_crtcs w - {c. c < i \<and> crtc_turned_off d s c}\<rparr>"], goal_cases)
  case 2
  have "hw_crtcs w - {c. c < n_crtc d \<and> crtc_turned_off d s c} = hw_crtcs w - {c. crtc_turned_off d s c}"
    using assms(2) by (auto simp: shows_state_def)
  then show ?case by (simp add: hw_off_def)
next
  case (3 c)
  have less: "{x. x < Suc c \<and> crtc_turned_off d s x} = {x. x < c \<and> crtc_turned_off d s x} \<union> {x. x = c \<and> crtc_turned_off d s c}"
    by (auto simp: less_Suc_eq)
  show ?case
  proof (cases "crtc_turned_off d s c")
    case False
    have "(case crtcs s c of None \<Rightarrow> [] | Some st \<Rightarrow> if \<not> drm_atomic_crtc_needs_modeset st then []
        else if \<not> crtc_needs_disable c (crtc_cur d c) (Some (c, st)) then [] else xs st) = []" for xs :: "crtc_st \<Rightarrow> commit_call list"
      using False crtc_needs_disable_active [OF assms(1), of "Some (c, _)" c]
      by (auto simp: crtc_turned_off_def needs_modeset_def split: option.splits)
    then show ?thesis using False by (simp add: less)
  next
    case True
    then obtain st where st: "crtcs s c = Some st" "drm_atomic_crtc_needs_modeset st" "cs_active (crtc_cur d c)"
      by (auto simp: crtc_turned_off_def needs_modeset_def split: option.splits)
    have dis: "crtc_needs_disable c (crtc_cur d c) (Some (c, st))"
      using crtc_needs_disable_active [OF assms(1), of "Some (c, st)" c] st by simp
    have on: "c \<in> hw_crtcs w" using assms(2) st(3) 3 by (simp add: shows_state_def)
    have "feeds (if turned_off d s (n_conn d) e then Output_off else hw_outputs w e) \<noteq> Some c" for e
      using shows_state_feeds(1) [OF assms(2), of e c] turned_off_iff [OF assms(1), of e] True
      by (auto simp: crtc_turned_off_def)
    moreover have "hw_crtcs w - {x. x < Suc c \<and> crtc_turned_off d s x} = hw_crtcs w - {x. x < c \<and> crtc_turned_off d s x} - {c}"
      using True by (auto simp: less_Suc_eq)
    ultimately show ?thesis using st dis on by simp
  qed
qed simp

section \<open>Setting modes\<close>

text \<open>A connector that is not marked keeps its routing.\<close>

lemma unmarked_routing:
  assumes "committable d s" "\<not> needs_modeset s c" "cn_crtc (conn_cur d k) = Some c \<or> cn_crtc (new_conn d s k) = Some c"
  shows "cn_crtc (new_conn d s k) = cn_crtc (conn_cur d k)" "encs d s k = cn_encoder (conn_cur d k)"
  using settled_changed [OF committableD(2) [OF assms(1)], of k c] assms(2,3) by metis+

lemma unmarked_active:
  assumes "committable d s" "\<not> needs_modeset s c"
  shows "cs_active (new_crtc d s c) = cs_active (crtc_cur d c)"
proof (cases "crtcs s c")
  case None
  then show ?thesis by (simp add: new_crtc_def)
next
  case (Some st)
  then show ?thesis using settled_flags [OF committableD(2) [OF assms(1)], of c] assms(2) by blast
qed

text \<open>An encoder that gets a CRTC that needs a modeset is off by then.\<close>

lemma new_output_off:
  assumes "committable d s" "shows_state d w" "k < n_conn d" "cn_crtc (new_conn d s k) = Some c" "encs d s k = Some e" "needs_modeset s c"
  shows "hw_outputs (hw_off d s w) e = Output_off"
proof (rule ccontr)
  assume on: "hw_outputs (hw_off d s w) e \<noteq> Output_off"
  then have off: "\<not> turned_off d s (n_conn d) e" and ne: "hw_outputs w e \<noteq> Output_off"
    by (auto simp: hw_off_def split: if_splits)
  then obtain c' where c': "shows_output d e c'" using assms(2) unfolding shows_state_def by blast
  then have unm: "\<not> needs_modeset s c'" using off turned_off_iff [OF assms(1)] by blast
  obtain k' where k': "k' < n_conn d" "cn_encoder (conn_cur d k') = Some e" "cn_crtc (conn_cur d k') = Some c'"
    using c' by (auto simp: shows_output_def)
  then have new: "cn_crtc (new_conn d s k') = Some c'" "encs d s k' = Some e" using unmarked_routing [OF assms(1) unm, of k'] by auto
  have "k = k'"
    using device_okD(3) [OF committableD(4) [OF assms(1)], of k e k'] assms(3,5) k'(1) new(2) by simp
  then show False using new(1) assms(4,6) unm by simp
qed

lemma run_crtc_set_mode:
  assumes "committable d s" "shows_state d w"
  shows "hw_run (drm_atomic_helper_commit_crtc_set_mode h d s) (hw_off d s w) = Some (hw_off d s w)"
  unfolding drm_atomic_helper_commit_crtc_set_mode_def
proof (rule hw_run_appendI; rule hw_run_same)
  fix c assume "c < n_crtc d"
  have "c \<notin> hw_crtcs (hw_off d s w)" if "crtcs s c = Some st" "mode_changed st" for st
    using that assms(2)
    by (auto simp: hw_off_def crtc_turned_off_def needs_modeset_def drm_atomic_crtc_needs_modeset_def shows_state_def)
  then show "hw_run (case crtcs s c of None \<Rightarrow> []
      | Some st \<Rightarrow> if \<not> mode_changed st then [] else if cs_enable st \<and> crtc_mode_set_nofb h c then [Crtc_mode_set c] else [])
      (hw_off d s w) = Some (hw_off d s w)"
    by (simp split: option.splits)
next
  fix k assume k: "k < n_conn d"
  have off: "hw_outputs (hw_off d s w) e = Output_off"
    if cn: "conns s k = Some cn" "cn_encoder cn = Some e"
      "mode_changed (new_crtc d s (the (cn_crtc cn))) \<or> connectors_changed (new_crtc d s (the (cn_crtc cn)))" for cn e
  proof -
    obtain c where c: "cn_crtc cn = Some c"
      using device_okD(1) [OF committableD(4) [OF assms(1)], of k] k cn(1,2) by (cases "cn_crtc cn") auto
    then have "crtcs s c \<noteq> None" using committableD(2) [OF assms(1)] cn(1) unfolding settled_def by blast
    then have "needs_modeset s c"
      using needs_new_crtc [OF assms(1), of c] cn(3) c by (auto simp: drm_atomic_crtc_needs_modeset_def)
    then show ?thesis using new_output_off [OF assms k, of c e] cn(1,2) c by simp
  qed
  show "hw_run (case conns s k of None \<Rightarrow> [] | Some cn \<Rightarrow> (case cn_encoder cn of None \<Rightarrow> []
         | Some e \<Rightarrow> let st = new_crtc d s (the (cn_crtc cn))
             in if \<not> mode_changed st \<and> \<not> connectors_changed st then []
                else [Enc_mode_set e (first_hook (enc_mode_hooks h e) [ENC_ATOMIC_MODE_SET, ENC_MODE_SET]),
                      Bridges_mode_set e (drm_bridge_chain_mode_set (enc_chain d e))])) (hw_off d s w) = Some (hw_off d s w)"
    using off by (auto simp: Let_def split: option.splits)
qed

lemma run_modeset_disables:
  assumes "committable d s" "shows_state d w"
  shows "hw_run (drm_atomic_helper_commit_modeset_disables h d s) w = Some (hw_off d s w)"
  unfolding drm_atomic_helper_commit_modeset_disables_def disable_outputs_def append_assoc
  using run_encoder_bridge_disable [OF assms] run_encoder_bridge_post_disable [OF assms] run_crtc_disable [OF assms]
    run_crtc_set_mode [OF assms] by (intro hw_run_appendI)

section \<open>Planes\<close>

text \<open>The planes run between the begin and the flush of their CRTCs and leave CRTCs and encoders alone.\<close>

lemma commit_plane_open:
  assumes "settled d s" "x \<in> set (commit_plane h d s active_only no_disable p)"
  shows "\<exists>c. crtcs_of_planes d s active_only c \<and> x \<in> {Plane_disable p c, Plane_update p c, Plane_enable p c}"
proof -
  have "planes s p \<noteq> None"
  proof
    assume "planes s p = None"
    then show False using assms(2) by (simp add: commit_plane_def)
  qed
  then obtain st where st: "planes s p = Some st" by blast
  have pres: "crtcs_of_planes d s active_only c"
    if "pl_crtc st = Some c \<or> pl_crtc (plane_cur d p) = Some c" "active_only \<longrightarrow> cs_active (new_crtc d s c)" for c
  proof -
    have "crtcs s c \<noteq> None" using assms(1) st that(1) unfolding settled_def by blast
    then show ?thesis using that(2) by (auto simp: crtcs_of_planes_def new_crtc_def)
  qed
  show ?thesis
  proof (cases "drm_atomic_plane_disabling (plane_cur d p) st")
    case True
    then obtain c where c: "pl_crtc (plane_cur d p) = Some c" "pl_crtc st = None" by (auto simp: drm_atomic_plane_disabling_def)
    have "active_only \<longrightarrow> cs_active (new_crtc d s c)" "x \<in> {Plane_disable p c, Plane_update p c}"
      using assms(2) st True c by (auto simp: commit_plane_def Let_def plane_crtc_active_def split: if_splits)
    then show ?thesis using pres c by blast
  next
    case False
    then obtain c where c: "pl_crtc st = Some c"
      using assms(2) st by (cases "pl_crtc st") (auto simp: commit_plane_def Let_def split: if_splits)
    have "active_only \<longrightarrow> cs_active (new_crtc d s c)" "x \<in> {Plane_update p c, Plane_enable p c}"
      using assms(2) st False c by (auto simp: commit_plane_def Let_def plane_crtc_active_def split: if_splits)
    then show ?thesis using pres c by blast
  qed
qed

lemma hw_run_idle: "(\<And>x. x \<in> set xs \<Longrightarrow> hw_step x w = Some w) \<Longrightarrow> hw_run xs w = Some w"
  by (induction xs) auto

lemma run_commit_planes:
  assumes "settled d s" "hw_open w = {}" "\<not> hw_finished w"
  shows "hw_run (drm_atomic_helper_commit_planes h d s active_only no_disable) w = Some w"
proof -
  let ?on = "crtcs_of_planes d s active_only"
  define W where "W A = w\<lparr>hw_open := A\<rparr>" for A
  have W0: "W {} = w" using assms(2) by (simp add: W_def)
  have lt: "c < n_crtc d" if on: "?on c" for c
  proof -
    obtain st where "crtcs s c = Some st" using on by (cases "crtcs s c") (simp_all add: crtcs_of_planes_def)
    then show ?thesis using assms(1) unfolding settled_def by blast
  qed
  have begins: "hw_run (concat (map (\<lambda>c. if ?on c then [Crtc_begin c (crtc_atomic_begin h c)] else []) [0..<n_crtc d])) (W {}) =
      Some (W {c. ?on c})"
  proof (rule hw_run_loop [where H = "\<lambda>i. W {c. c < i \<and> ?on c}"], goal_cases)
    case 2
    have "{c. c < n_crtc d \<and> ?on c} = {c. ?on c}" using lt by blast
    then show ?case by simp
  next
    case (3 c)
    have "{x. x < Suc c \<and> ?on x} = (if ?on c then insert c {x. x < c \<and> ?on x} else {x. x < c \<and> ?on x})"
      by (auto simp: less_Suc_eq)
    then show ?case using assms(3) by (simp add: W_def)
  qed simp
  have planes: "hw_run (concat (map (commit_plane h d s active_only no_disable) [0..<n_plane d])) (W {c. ?on c}) = Some (W {c. ?on c})"
    by (rule hw_run_same, rule hw_run_idle) (auto simp: W_def dest!: commit_plane_open [OF assms(1)])
  have flushes: "hw_run (concat (map (\<lambda>c. if ?on c then [Crtc_flush c (crtc_atomic_flush h c)] else []) [0..<n_crtc d])) (W {c. ?on c}) =
      Some (W {})"
  proof (rule hw_run_loop [where H = "\<lambda>i. W {c. i \<le> c \<and> ?on c}"], goal_cases)
    case 2
    have "{c. n_crtc d \<le> c \<and> ?on c} = {}" using lt by fastforce
    then show ?case by (simp only:)
  next
    case (3 c)
    have "{x. Suc c \<le> x \<and> ?on x} = (if ?on c then {x. c \<le> x \<and> ?on x} - {c} else {x. c \<le> x \<and> ?on x})"
      by (auto simp: Suc_le_eq le_less)
    then show ?case by (simp add: W_def)
  qed simp
  have ends: "hw_run (concat (map (\<lambda>p. if planes s p \<noteq> None \<and> plane_end_fb_access h p then [End_fb_access p] else []) [0..<n_plane d]))
      (W {}) = Some (W {})"
    by (rule hw_run_same) (use assms(3) in \<open>auto simp: W_def\<close>)
  show ?thesis
    unfolding drm_atomic_helper_commit_planes_def
    using begins planes flushes ends unfolding W0 by (intro hw_run_appendI)
qed

section \<open>Switching on\<close>

definition turned_on :: "modeset_dev \<Rightarrow> drm_atomic_commit \<Rightarrow> nat \<Rightarrow> nat \<Rightarrow> bool" where
  "turned_on d s i e \<longleftrightarrow> (\<exists>k<i. \<exists>c. encoder_to_enable d s k = Some (e, c))"

definition new_target :: "modeset_dev \<Rightarrow> drm_atomic_commit \<Rightarrow> nat \<Rightarrow> nat" where
  "new_target d s e = (THE c. \<exists>k<n_conn d. encoder_to_enable d s k = Some (e, c))"

definition crtc_turned_on :: "modeset_dev \<Rightarrow> drm_atomic_commit \<Rightarrow> nat \<Rightarrow> bool" where
  "crtc_turned_on d s c \<longleftrightarrow> needs_modeset s c \<and> cs_active (new_crtc d s c)"

text \<open>The hardware with the CRTCs on, and with the outputs on as well.\<close>

definition hw_crtcs_on :: "modeset_dev \<Rightarrow> drm_atomic_commit \<Rightarrow> hw_state \<Rightarrow> hw_state" where
  "hw_crtcs_on d s w = (hw_off d s w)\<lparr>hw_crtcs := hw_crtcs (hw_off d s w) \<union> {c. crtc_turned_on d s c}\<rparr>"

definition hw_on :: "modeset_dev \<Rightarrow> drm_atomic_commit \<Rightarrow> hw_state \<Rightarrow> hw_state" where
  "hw_on d s w = (hw_crtcs_on d s w)\<lparr>hw_outputs := \<lambda>e. if turned_on d s (n_conn d) e then Output_on (new_target d s e)
     else hw_outputs (hw_off d s w) e\<rparr>"

lemma turned_on_Suc: "turned_on d s (Suc i) e \<longleftrightarrow> turned_on d s i e \<or> (\<exists>c. encoder_to_enable d s i = Some (e, c))"
  by (auto simp: turned_on_def less_Suc_eq)

lemma turned_on_0 [simp]: "\<not> turned_on d s 0 e"
  by (simp add: turned_on_def)

lemma needs_modeset_Some: "needs_modeset s c \<Longrightarrow> \<exists>st. crtcs s c = Some st \<and> drm_atomic_crtc_needs_modeset st"
  by (cases "crtcs s c") (simp_all add: needs_modeset_def)

lemma encoder_to_enable_unique:
  assumes "committable d s" "k < n_conn d" "k' < n_conn d"
    and "encoder_to_enable d s k = Some (e, c)" "encoder_to_enable d s k' = Some (e, c')"
  shows "k' = k \<and> c' = c"
proof -
  have e: "encs d s k = Some e" "encs d s k' = Some e"
    using encoder_to_enable_iff [OF assms(1,2)] encoder_to_enable_iff [OF assms(1,3)] assms(4,5) by blast+
  then have "k = k'" using device_okD(3) [OF committableD(4) [OF assms(1)], of k e k'] assms(2,3) by simp
  then show ?thesis using assms(4,5) by simp
qed

lemma enabled_output:
  assumes "committable d s" "shows_state d w" "k < n_conn d" "encoder_to_enable d s k = Some (e, c)"
  shows "new_target d s e = c" "\<not> turned_on d s k e" "hw_outputs (hw_off d s w) e = Output_off" "crtc_turned_on d s c"
proof -
  show "new_target d s e = c"
    unfolding new_target_def using assms(3,4) encoder_to_enable_unique [OF assms(1,3) _ assms(4)] by blast
  show "\<not> turned_on d s k e"
  proof
    assume "turned_on d s k e"
    then obtain k' c' where "k' < k" "encoder_to_enable d s k' = Some (e, c')" by (auto simp: turned_on_def)
    then show False using encoder_to_enable_unique [OF assms(1,3) _ assms(4), of k' c'] assms(3) by simp
  qed
  have "cn_crtc (new_conn d s k) = Some c \<and> encs d s k = Some e \<and> cs_active (new_crtc d s c) \<and> needs_modeset s c"
    using encoder_to_enable_iff [OF assms(1,3)] assms(4) by blast
  then show "hw_outputs (hw_off d s w) e = Output_off" "crtc_turned_on d s c"
    using new_output_off [OF assms(1-3)] by (auto simp: crtc_turned_on_def)
qed

lemma run_crtc_enable:
  assumes "committable d s" "shows_state d w"
  shows "hw_run (drm_atomic_helper_commit_crtc_enable h d s) (hw_off d s w) = Some (hw_crtcs_on d s w)"
  unfolding drm_atomic_helper_commit_crtc_enable_def
proof (rule hw_run_loop [where H = "\<lambda>i. (hw_off d s w)\<lparr>hw_crtcs := hw_crtcs (hw_off d s w) \<union> {c. c < i \<and> crtc_turned_on d s c}\<rparr>"],
    goal_cases)
  case 2
  have "{c. c < n_crtc d \<and> crtc_turned_on d s c} = {c. crtc_turned_on d s c}"
    using committableD(8) [OF assms(1)] needs_modeset_Some unfolding crtc_turned_on_def by blast
  then show ?case by (simp add: hw_crtcs_on_def)
next
  case (3 c)
  show ?case
  proof (cases "crtc_turned_on d s c")
    case True
    then obtain st where st: "crtcs s c = Some st" "drm_atomic_crtc_needs_modeset st" "cs_active st"
      using needs_modeset_Some [of s c] by (auto simp: crtc_turned_on_def new_crtc_def)
    have "cs_enable st" using committableD(5) [OF assms(1) st(1,3)] .
    moreover have "c \<notin> hw_crtcs (hw_off d s w)"
      using True assms(2) by (auto simp: hw_off_def crtc_turned_off_def crtc_turned_on_def shows_state_def)
    moreover have "{x. x < Suc c \<and> crtc_turned_on d s x} = insert c {x. x < c \<and> crtc_turned_on d s x}"
      using True by (auto simp: less_Suc_eq)
    ultimately show ?thesis using st by simp
  next
    case False
    have "{x. x < Suc c \<and> crtc_turned_on d s x} = {x. x < c \<and> crtc_turned_on d s x}"
      using False by (auto simp: less_Suc_eq)
    moreover have "(case crtcs s c of None \<Rightarrow> [] | Some st \<Rightarrow> if \<not> drm_atomic_crtc_needs_modeset st then []
        else if \<not> cs_active st then [] else xs st) = []" for xs :: "crtc_st \<Rightarrow> commit_call list"
      using False by (auto simp: crtc_turned_on_def needs_modeset_def new_crtc_def split: option.splits)
    ultimately show ?thesis by simp
  qed
qed simp

lemma run_pre_enable:
  assumes "committable d s" "shows_state d w"
  shows "hw_run (drm_atomic_helper_commit_encoder_bridge_pre_enable d s) (hw_crtcs_on d s w) =
    Some ((hw_crtcs_on d s w)\<lparr>hw_outputs := \<lambda>e. if turned_on d s (n_conn d) e then Output_prepared (new_target d s e)
      else hw_outputs (hw_off d s w) e\<rparr>)"
  unfolding drm_atomic_helper_commit_encoder_bridge_pre_enable_def
proof (rule hw_run_loop [where H = "\<lambda>i. (hw_crtcs_on d s w)\<lparr>hw_outputs := \<lambda>e. if turned_on d s i e
      then Output_prepared (new_target d s e) else hw_outputs (hw_off d s w) e\<rparr>"], goal_cases)
  case (3 k)
  show ?case
  proof (cases "encoder_to_enable d s k")
    case None
    then show ?thesis by (simp add: turned_on_Suc)
  next
    case (Some x)
    obtain e c where x: "x = (e, c)" by (cases x)
    note o = enabled_output [OF assms 3 Some [unfolded x]]
    show ?thesis
      using Some x o by (auto simp: set_output_def turned_on_Suc hw_crtcs_on_def fun_eq_iff)
  qed
qed (simp_all add: hw_crtcs_on_def)

lemma run_encoder_bridge_enable:
  assumes "committable d s" "shows_state d w"
  shows "hw_run (drm_atomic_helper_commit_encoder_bridge_enable h d s)
      ((hw_crtcs_on d s w)\<lparr>hw_outputs := \<lambda>e. if turned_on d s (n_conn d) e then Output_prepared (new_target d s e)
        else hw_outputs (hw_off d s w) e\<rparr>) = Some (hw_on d s w)"
  unfolding drm_atomic_helper_commit_encoder_bridge_enable_def
proof (rule hw_run_loop [where H = "\<lambda>i. (hw_crtcs_on d s w)\<lparr>hw_outputs := \<lambda>e. if turned_on d s i e then Output_on (new_target d s e)
      else if turned_on d s (n_conn d) e then Output_prepared (new_target d s e) else hw_outputs (hw_off d s w) e\<rparr>"], goal_cases)
  case 2
  show ?case by (simp add: hw_on_def) (rule arg_cong [where f = "\<lambda>g. hw_outputs_update (\<lambda>_. g) (hw_crtcs_on d s w)"], auto)
next
  case (3 k)
  show ?case
  proof (cases "encoder_to_enable d s k")
    case None
    then show ?thesis by (simp add: turned_on_Suc)
  next
    case (Some x)
    obtain e c where x: "x = (e, c)" by (cases x)
    note o = enabled_output [OF assms 3 Some [unfolded x]]
    have "turned_on d s (n_conn d) e" using 3 Some x by (auto simp: turned_on_def)
    then show ?thesis
      using Some x o by (auto simp: set_output_def turned_on_Suc hw_crtcs_on_def fun_eq_iff)
  qed
qed simp

lemma run_writebacks: "\<not> hw_finished w \<Longrightarrow> hw_run (drm_atomic_helper_commit_writebacks h d s) w = Some w"
  unfolding drm_atomic_helper_commit_writebacks_def by (rule hw_run_same) simp

lemma run_modeset_enables:
  assumes "committable d s" "shows_state d w" "\<not> hw_finished w"
  shows "hw_run (drm_atomic_helper_commit_modeset_enables h d s) (hw_off d s w) = Some (hw_on d s w)"
proof -
  have "\<not> hw_finished (hw_on d s w)" using assms(3) by (simp add: hw_on_def hw_crtcs_on_def hw_off_def)
  from run_writebacks [OF this] show ?thesis
    unfolding drm_atomic_helper_commit_modeset_enables_def
    using run_crtc_enable [OF assms(1,2)] run_pre_enable [OF assms(1,2)] run_encoder_bridge_enable [OF assms(1,2)]
    by (intro hw_run_appendI)
qed

section \<open>The result\<close>

lemma hw_on_crtcs:
  assumes "committable d s" "shows_state d w"
  shows "hw_crtcs (hw_on d s w) = {c. c < n_crtc d \<and> cs_active (new_crtc d s c)}"
proof -
  have "c < n_crtc d" if "needs_modeset s c" for c
    using committableD(8) [OF assms(1)] needs_modeset_Some [OF that] by blast
  then show ?thesis
    using assms(2) unmarked_active [OF assms(1)]
    by (auto simp: hw_on_def hw_crtcs_on_def hw_off_def shows_state_def crtc_turned_off_def crtc_turned_on_def)
qed

lemma turned_on_iff:
  assumes "committable d s"
  shows "turned_on d s (n_conn d) e \<longleftrightarrow> (\<exists>c. shows_output (drm_atomic_helper_swap_state d s) e c \<and> needs_modeset s c)"
proof
  assume "turned_on d s (n_conn d) e"
  then obtain k c where "k < n_conn d" "encoder_to_enable d s k = Some (e, c)" unfolding turned_on_def by blast
  then show "\<exists>c. shows_output (drm_atomic_helper_swap_state d s) e c \<and> needs_modeset s c"
    using encoder_to_enable_iff [OF assms] unfolding shows_output_def swap_state_fields by blast
next
  assume "\<exists>c. shows_output (drm_atomic_helper_swap_state d s) e c \<and> needs_modeset s c"
  then obtain c k where "needs_modeset s c" "k < n_conn d" "encs d s k = Some e" "cn_crtc (new_conn d s k) = Some c"
    "cs_active (new_crtc d s c)"
    unfolding shows_output_def swap_state_fields by blast
  then show "turned_on d s (n_conn d) e" using encoder_to_enable_iff [OF assms] unfolding turned_on_def by blast
qed

text \<open>Outputs of CRTCs that are not marked are the same before and after.\<close>

lemma unmarked_output:
  assumes "committable d s" "\<not> needs_modeset s c"
  shows "shows_output (drm_atomic_helper_swap_state d s) e c \<longleftrightarrow> shows_output d e c"
proof -
  have "encs d s k = Some e \<and> cn_crtc (new_conn d s k) = Some c \<longleftrightarrow>
      cn_encoder (conn_cur d k) = Some e \<and> cn_crtc (conn_cur d k) = Some c" for k
    using unmarked_routing [OF assms, of k] by auto
  then show ?thesis unfolding shows_output_def swap_state_fields unmarked_active [OF assms] by blast
qed

lemma shows_output_unique:
  assumes "device_ok d" "shows_output d e c" "shows_output d e c'"
  shows "c' = c"
proof -
  obtain k k' where k: "k < n_conn d" "cn_encoder (conn_cur d k) = Some e" "cn_crtc (conn_cur d k) = Some c"
    "k' < n_conn d" "cn_encoder (conn_cur d k') = Some e" "cn_crtc (conn_cur d k') = Some c'"
    using assms(2,3) unfolding shows_output_def by blast
  then show ?thesis using device_okD(3) [OF assms(1) k(1,2,4,5)] by simp
qed

lemma hw_on_output:
  assumes "committable d s" "shows_state d w"
  shows "shows_output (drm_atomic_helper_swap_state d s) e c \<Longrightarrow> hw_outputs (hw_on d s w) e = Output_on c"
    and "(\<nexists>c. shows_output (drm_atomic_helper_swap_state d s) e c) \<Longrightarrow> hw_outputs (hw_on d s w) e = Output_off"
proof -
  let ?new = "drm_atomic_helper_swap_state d s"
  note dev = committableD(4) [OF assms(1)]
  show "hw_outputs (hw_on d s w) e = Output_on c" if new: "shows_output ?new e c"
  proof (cases "needs_modeset s c")
    case True
    then have on: "turned_on d s (n_conn d) e" using new turned_on_iff [OF assms(1)] by blast
    then obtain k c' where k: "k < n_conn d" "encoder_to_enable d s k = Some (e, c')" by (auto simp: turned_on_def)
    then have "shows_output ?new e c'"
      using encoder_to_enable_iff [OF assms(1) k(1)] unfolding shows_output_def swap_state_fields by blast
    then have "c' = c" using shows_output_unique [OF dev new] by blast
    then show ?thesis using on enabled_output(1) [OF assms k] by (simp add: hw_on_def)
  next
    case False
    then have old: "shows_output d e c" using new unmarked_output [OF assms(1)] by blast
    have "\<not> turned_on d s (n_conn d) e" using turned_on_iff [OF assms(1)] shows_output_unique [OF dev new] False by blast
    moreover have "\<not> turned_off d s (n_conn d) e"
      using turned_off_iff [OF assms(1)] shows_output_unique [OF committableD(1) [OF assms(1)] old] False by blast
    moreover have "hw_outputs w e = Output_on c" using assms(2) old unfolding shows_state_def by blast
    ultimately show ?thesis by (simp add: hw_on_def hw_off_def hw_crtcs_on_def)
  qed
  show "hw_outputs (hw_on d s w) e = Output_off" if none: "\<nexists>c. shows_output ?new e c"
  proof -
    have "\<not> turned_on d s (n_conn d) e" using turned_on_iff [OF assms(1)] none by blast
    moreover have "hw_outputs w e = Output_off" if off: "\<not> turned_off d s (n_conn d) e"
    proof -
      have "\<not> shows_output d e c" for c
        using off turned_off_iff [OF assms(1)] unmarked_output [OF assms(1)] none by blast
      then show ?thesis using assms(2) unfolding shows_state_def by blast
    qed
    ultimately show ?thesis by (simp add: hw_on_def hw_off_def hw_crtcs_on_def)
  qed
qed

lemma hw_on_shows:
  assumes "committable d s" "shows_state d w"
  shows "shows_state (drm_atomic_helper_swap_state d s) (hw_on d s w)"
  unfolding shows_state_def
proof (intro conjI allI impI)
  show "hw_crtcs (hw_on d s w) = {c. c < n_crtc (drm_atomic_helper_swap_state d s) \<and> cs_active (crtc_cur (drm_atomic_helper_swap_state d s) c)}"
    using hw_on_crtcs [OF assms] by simp
  show "hw_outputs (hw_on d s w) e = Output_on c \<longleftrightarrow> shows_output (drm_atomic_helper_swap_state d s) e c" for e c
    using hw_on_output [OF assms, of e] by (metis output_phase.distinct(5) output_phase.inject(3))
  show "hw_outputs (hw_on d s w) e = Output_off" if "\<nexists>c. shows_output (drm_atomic_helper_swap_state d s) e c" for e
    using hw_on_output(2) [OF assms that] .
qed

section \<open>The whole commit\<close>

lemma hw_on_flags: "hw_open (hw_on d s w) = hw_open w" "hw_finished (hw_on d s w) = hw_finished w"
    "hw_open (hw_off d s w) = hw_open w" "hw_finished (hw_off d s w) = hw_finished w"
  by (simp_all add: hw_on_def hw_crtcs_on_def hw_off_def)

lemma run_fake_vblank:
  assumes "\<not> hw_finished w"
  shows "hw_run (drm_atomic_helper_fake_vblank d s) w = Some w"
  unfolding drm_atomic_helper_fake_vblank_def by (rule hw_run_same) (use assms in \<open>simp split: option.splits\<close>)

lemma run_wait_for_vblanks:
  assumes "hw_crtcs w = {c. c < n_crtc d \<and> cs_active (new_crtc d s c)}" "hw_finished w"
  shows "hw_run (drm_atomic_helper_wait_for_vblanks h d s) w = Some w"
  unfolding drm_atomic_helper_wait_for_vblanks_def
  by (rule hw_run_same) (use assms in \<open>simp add: new_crtc_def split: option.splits\<close>)

lemma run_cleanup_planes:
  assumes "hw_finished w"
  shows "hw_run (drm_atomic_helper_cleanup_planes h d s) w = Some w"
  unfolding drm_atomic_helper_cleanup_planes_def by (rule hw_run_same) (use assms in simp)

text \<open>The end that the two orders of a commit share.\<close>

lemma run_commit_end:
  assumes "committable d s" "shows_state d w" "hw_open w = {}" "\<not> hw_finished w"
  shows "hw_run (drm_atomic_helper_fake_vblank d s @ [Hw_done] @ drm_atomic_helper_wait_for_vblanks h d s @
      drm_atomic_helper_cleanup_planes h d s) (hw_on d s w) = Some ((hw_on d s w)\<lparr>hw_finished := True\<rparr>)"
proof (intro hw_run_appendI)
  let ?w = "hw_on d s w" and ?w' = "(hw_on d s w)\<lparr>hw_finished := True\<rparr>"
  show "hw_run (drm_atomic_helper_fake_vblank d s) ?w = Some ?w" using assms(4) by (intro run_fake_vblank) (simp add: hw_on_flags)
  show "hw_run [Hw_done] ?w = Some ?w'" using assms(3,4) by (simp add: hw_on_flags)
  show "hw_run (drm_atomic_helper_wait_for_vblanks h d s) ?w' = Some ?w'"
    using hw_on_crtcs [OF assms(1,2)] by (intro run_wait_for_vblanks) simp_all
  show "hw_run (drm_atomic_helper_cleanup_planes h d s) ?w' = Some ?w'" by (intro run_cleanup_planes) simp
qed

lemma run_commit_tail:
  assumes "committable d s" "shows_state d w" "hw_open w = {}" "\<not> hw_finished w"
  shows "hw_run (drm_atomic_helper_commit_tail h d s) w = Some ((hw_on d s w)\<lparr>hw_finished := True\<rparr>)"
    and "hw_run (drm_atomic_helper_commit_tail_rpm h d s) w = Some ((hw_on d s w)\<lparr>hw_finished := True\<rparr>)"
proof -
  have off: "hw_run (drm_atomic_helper_commit_modeset_disables h d s) w = Some (hw_off d s w)"
    by (rule run_modeset_disables [OF assms(1,2)])
  have on: "hw_run (drm_atomic_helper_commit_modeset_enables h d s) (hw_off d s w) = Some (hw_on d s w)"
    by (rule run_modeset_enables [OF assms(1,2,4)])
  have planes: "hw_run (drm_atomic_helper_commit_planes h d s a b) v = Some v" if "v = hw_on d s w \<or> v = hw_off d s w" for v a b
    using that assms(3,4) by (intro run_commit_planes [OF committableD(2) [OF assms(1)]]) (auto simp: hw_on_flags)
  show "hw_run (drm_atomic_helper_commit_tail h d s) w = Some ((hw_on d s w)\<lparr>hw_finished := True\<rparr>)"
    unfolding drm_atomic_helper_commit_tail_def
    by (intro hw_run_appendI [OF off] hw_run_appendI [OF planes] hw_run_appendI [OF on] run_commit_end [OF assms]) simp
  show "hw_run (drm_atomic_helper_commit_tail_rpm h d s) w = Some ((hw_on d s w)\<lparr>hw_finished := True\<rparr>)"
    unfolding drm_atomic_helper_commit_tail_rpm_def
    by (intro hw_run_appendI [OF off] hw_run_appendI [OF on] hw_run_appendI [OF planes] run_commit_end [OF assms]) simp
qed

lemma shows_state_finished: "shows_state d (w\<lparr>hw_finished := b\<rparr>) = shows_state d w"
  by (simp add: shows_state_def)

text \<open>A commit whose check passed, with the core's own check of its CRTCs, can be carried out.\<close>

lemma check_state_committable:
  assumes "modeset_hooks d" "device_ok d" "building d s"
    and "drm_atomic_helper_check_modeset d s = (0, s1)" "drm_atomic_helper_check_planes d s1 = (0, s2)"
    and "\<And>c st. crtcs s2 c = Some st \<Longrightarrow> drm_atomic_crtc_check a (crtc_cur d c) st = 0 \<and> \<not> self_refresh_active st"
    and "\<And>c. \<not> self_refresh_active (crtc_cur d c)"
  shows "committable d s2"
proof -
  have "cs_active st \<longrightarrow> cs_enable st" if "crtcs s2 c = Some st" for c st
    using assms(6) [OF that] by (auto simp: drm_atomic_crtc_check_def EINVAL_def split: if_splits)
  then show ?thesis
    using assms(2,6,7) check_state_checked [OF assms(1-5)] by (simp add: committable_def)
qed


definition demo_hw :: hw_state where
  "demo_hw = \<lparr>hw_crtcs = {0}, hw_outputs = (\<lambda>e. if e = 0 then Output_on 0 else Output_off), hw_open = {}, hw_finished = False\<rparr>"

definition demo_commit_hooks :: commit_hooks where
  "demo_commit_hooks = \<lparr>enc_off_hooks = (\<lambda>_. {}), crtc_off_hooks = (\<lambda>_. {}), crtc_mode_set_nofb = (\<lambda>_. True), enc_mode_hooks = (\<lambda>_. {}),
     crtc_on_hooks = (\<lambda>_. {}), enc_on_hooks = (\<lambda>_. {}), crtc_atomic_begin = (\<lambda>_. True), crtc_atomic_flush = (\<lambda>_. True),
     plane_funcs = (\<lambda>_. True), plane_atomic_disable = (\<lambda>_. True), plane_atomic_enable = (\<lambda>_. False), plane_end_fb_access = (\<lambda>_. True),
     plane_cleanup_fb = (\<lambda>_. True), conn_writeback = (\<lambda>_. False), vblank_get_ok = (\<lambda>_. True)\<rparr>"

lemma demo_shows: "shows_state demo_dev demo_hw"
  by (auto simp: shows_state_def shows_output_def demo_dev_def demo_hw_def demo_crtc_def less_Suc_eq numeral_2_eq_2)


end
