(* ===== verification/Ma35_Commit.thy ===== *)
theory Ma35_Commit
  imports Ma35_Drm Drm_Commit_Order
begin

text \<open>
  The MA35 display as a device of the atomic helpers: one CRTC, one encoder with the driver's own connector, a primary, an overlay and a
  cursor plane. The helper tables of \<open>drm/nuvoton\<close> (\<open>ma35_crtc_helper_funcs\<close>, \<open>ma35_encoder_helper_funcs\<close>,
  \<open>ma35_plane_helper_funcs\<close>, \<open>ma35_cursor_plane_helper_funcs\<close>) become the hooks of the check and of the commit; the contract of the
  check is discharged for them, so that what is proved of every driver holds of this one.
\<close>

section \<open>The check\<close>

text \<open>The state of a CRTC as the driver's check reads it; the gamma table plays no part in it.\<close>

definition crtc_commit_of :: "crtc_st \<Rightarrow> drm_crtc_commit" where
  "crtc_commit_of st = \<lparr>enable = cs_enable st, mode = dmode (cs_mode st), adjusted_mode = dmode (cs_adjusted_mode st),
     active = cs_active st, gamma_lut = None, crtc_color_mgmt_changed = False\<rparr>"

definition ma35_check_crtc ::
    "(drm_mode_status \<Rightarrow> int) \<Rightarrow> 'w clk_api \<Rightarrow> clk \<Rightarrow> 'w \<Rightarrow> drm_atomic_commit \<Rightarrow> int \<times> drm_atomic_commit" where
  "ma35_check_crtc status_val ck dcupclk w s = (case crtcs s MA35_DEFAULT_CRTC_ID of
     None \<Rightarrow> (0, s)
   | Some st \<Rightarrow>
       let (ret, cc) = ma35_crtc_atomic_check status_val ck dcupclk w (crtc_commit_of st)
       in (ret, s\<lparr>crtcs := (crtcs s)(MA35_DEFAULT_CRTC_ID \<mapsto>
             st\<lparr>cs_adjusted_mode := (cs_adjusted_mode st)\<lparr>dmode := adjusted_mode cc\<rparr>\<rparr>)\<rparr>))"

text \<open>
  The device. \<open>base\<close> has the current states and the outcomes of allocations and locks. \<open>verdict\<close> is what the checks of the planes
  return: they write only the clipped rectangles of a plane state, which the routing does not have.
\<close>

definition ma35_modeset_dev ::
    "modeset_dev \<Rightarrow> mode_config \<Rightarrow> ma35_interface \<Rightarrow> (drm_mode_status \<Rightarrow> int) \<Rightarrow> 'w clk_api \<Rightarrow> clk \<Rightarrow> 'w \<Rightarrow>
     (nat \<Rightarrow> drm_atomic_commit \<Rightarrow> int) \<Rightarrow> modeset_dev" where
  "ma35_modeset_dev base mc itf status_val ck dcupclk w verdict = base\<lparr>n_crtc := 1, n_conn := 1, n_plane := 3, dev_has_vblank := True,
     possible_encoders := (\<lambda>_. [0]),
     possible_crtcs := (\<lambda>_. if enc_possible_crtcs itf AND drm_crtc_mask MA35_DEFAULT_CRTC_ID \<noteq> 0 then {MA35_DEFAULT_CRTC_ID} else {}),
     atomic_best_encoder := (\<lambda>_. None), best_encoder := (\<lambda>_. None), conn_atomic_check := (\<lambda>_. None),
     enc_hooks := (\<lambda>_. \<lparr>encoder_mode_valid_hook = None, bridge_hooks = [], encoder_crtcs = []\<rparr>),
     crtc_hooks := (\<lambda>_. \<lparr>crtc_possible = True, crtc_mode_valid_hook = Some (ma35_crtc_mode_valid mc)\<rparr>),
     enc_chain := (\<lambda>_. []),
     enc_atomic_check := (\<lambda>_. Some (\<lambda>cs cn. (fst (ma35_encoder_atomic_check (conn_bus_flags base 0) itf), cs, cn))),
     enc_mode_fixup := (\<lambda>_. None), crtc_mode_fixup := (\<lambda>_. None),
     plane_atomic_check := (\<lambda>p. Some (\<lambda>s. (verdict p s, s))),
     crtc_atomic_check := (\<lambda>_. Some (ma35_check_crtc status_val ck dcupclk w))\<rparr>"

section \<open>The commit\<close>

text \<open>\<open>vblank_ok\<close> is whether the vblank interrupt of the CRTC can be taken while the commit waits.\<close>

definition ma35_commit_hooks :: "bool \<Rightarrow> commit_hooks" where
  "ma35_commit_hooks vblank_ok = \<lparr>enc_off_hooks = (\<lambda>_. {}), crtc_off_hooks = (\<lambda>_. {CRTC_ATOMIC_DISABLE}),
     crtc_mode_set_nofb = (\<lambda>_. False), enc_mode_hooks = (\<lambda>_. {ENC_ATOMIC_MODE_SET}), crtc_on_hooks = (\<lambda>_. {CRTC_ATOMIC_ENABLE}),
     enc_on_hooks = (\<lambda>_. {}), crtc_atomic_begin = (\<lambda>_. False), crtc_atomic_flush = (\<lambda>_. True), plane_funcs = (\<lambda>_. True),
     plane_atomic_disable = (\<lambda>_. True), plane_atomic_enable = (\<lambda>_. False), plane_end_fb_access = (\<lambda>_. False),
     plane_cleanup_fb = (\<lambda>_. False), conn_writeback = (\<lambda>_. False), vblank_get_ok = (\<lambda>_. vblank_ok)\<rparr>"

section \<open>The contract of the check\<close>

lemma ma35_check_crtc_step:
  assumes "ma35_check_crtc status_val ck dcupclk w s = (ret, s')"
  shows "hook_step d {} s s'"
  using assms
  by (auto simp: ma35_check_crtc_def hook_step_def new_plane_def hook_crtc_def crtc_grows_def option.rel_refl split: option.splits prod.splits)

interpretation ma35_modeset: modeset_hooks "ma35_modeset_dev base mc itf status_val ck dcupclk w verdict"
    for base mc itf status_val and ck :: "'w clk_api" and dcupclk and w :: 'w and verdict
proof
  let ?d = "ma35_modeset_dev base mc itf status_val ck dcupclk w verdict"
  show "hook_step ?d {} s s'" if "crtc_atomic_check ?d c = Some f" "f s = (ret, s')" for c f s ret s'
    using that ma35_check_crtc_step [of status_val ck dcupclk w] by (auto simp: ma35_modeset_dev_def)
qed (auto simp: ma35_modeset_dev_def new_encoder_def drm_connector_get_single_encoder_def intro: hook_step_same)

lemma ma35_dims [simp]:
  "n_crtc (ma35_modeset_dev base mc itf status_val ck dcupclk w verdict) = 1"
  "n_conn (ma35_modeset_dev base mc itf status_val ck dcupclk w verdict) = 1"
  by (simp_all add: ma35_modeset_dev_def)

section \<open>The clock\<close>

text \<open>The rate the pixel clock rounds a mode to, and its clock in kHz, rounded up.\<close>

definition ma35_rate :: "'w clk_api \<Rightarrow> clk \<Rightarrow> 'w \<Rightarrow> drm_display_mode \<Rightarrow> int" where
  "ma35_rate ck dcupclk w m = wrap32 (clk_round_rate ck w dcupclk (wrap32 (clock m * 1000) mod 2 ^ 64))"

lemma ma35_check_crtc_0:
  assumes "ma35_check_crtc status_val ck dcupclk w s = (0, s')" "crtcs s' 0 = Some st'"
    and "0 < status_val MODE_CLOCK_HIGH" "0 < status_val MODE_CLOCK_RANGE"
  shows "clock (dmode (cs_mode st')) \<le> MA35_MAX_PIXEL_CLK" "0 < ma35_rate ck dcupclk w (dmode (cs_mode st'))"
    "clock (dmode (cs_adjusted_mode st')) = c_div (wrap32 (ma35_rate ck dcupclk w (dmode (cs_mode st')) + 1000 - 1)) 1000"
  using assms
  by (auto simp: ma35_check_crtc_def ma35_crtc_atomic_check_def crtc_commit_of_def ma35_rate_def Let_def MA35_DEFAULT_CRTC_ID_def
      split: option.splits prod.splits if_splits)

text \<open>The check of the planes ends with the check of the one CRTC.\<close>

lemma ma35_check_planes_crtc:
  assumes "drm_atomic_helper_check_planes (ma35_modeset_dev base mc itf status_val ck dcupclk w verdict) s1 = (0, s2)"
    and "crtcs s2 0 \<noteq> None"
  shows "\<exists>s. ma35_check_crtc status_val ck dcupclk w s = (0, s2)"
  using assms
  by (auto simp: drm_atomic_helper_check_planes_def run_check_def ma35_modeset_dev_def Let_def upt_rec
      split: prod.splits if_splits option.splits)

section \<open>Commits\<close>

text \<open>In every driver the mode of an enabled CRTC that needs it has passed the checks of a whole path.\<close>

lemma checked_mode_path:
  assumes "checked d s" "crtcs s c = Some st" "cs_enable st" "mode_changed st \<or> connectors_changed st"
  shows "\<exists>k<n_conn d. \<exists>e. encs d s k = Some e \<and> cn_crtc (new_conn d s k) = Some c \<and> mode_valid_path d e c (dmode (cs_mode st)) = MODE_OK"
proof -
  have st: "settled d s" and c: "complete d s c" and v: "valid_modes d s" using assms(1) by (simp_all add: checked_def)
  have dev: "device_ok (drm_atomic_helper_swap_state d s)" and lt: "c < n_crtc d" using st assms(2) unfolding settled_def by blast+
  have nm: "needs_modeset s c" using assms(2,4) by (auto simp: needs_modeset_def drm_atomic_crtc_needs_modeset_def)
  have new: "new_crtc d s c = st" using assms(2) by (simp add: new_crtc_def)
  obtain k where k: "k < n_conn d" "cn_crtc (new_conn d s k) = Some c"
    using device_ok_masks(1,3) [OF dev, of c] lt assms(3) new by auto
  obtain e where e: "encs d s k = Some e" using device_okD(1) [OF dev, of k] k by auto
  obtain cn where cn: "conns s k = Some cn" using complete_conns [OF c nm k(1)] k(2) by blast
  then have "new_conn d s k = cn" by (simp add: new_conn_def)
  then have "mode_valid_path d e c (dmode (cs_mode st)) = MODE_OK"
    using v cn k(2) e assms(2,4) unfolding valid_modes_def by blast
  then show ?thesis using k e by blast
qed

lemma ma35_mode_path:
  "mode_valid_path (ma35_modeset_dev base mc itf status_val ck dcupclk w verdict) e c m = ma35_crtc_mode_valid mc m"
  by (simp add: mode_valid_path_def ma35_modeset_dev_def drm_encoder_mode_valid_def drm_crtc_mode_valid_def Let_def)


section \<open>Switching off\<close>

text \<open>
  The check of the CRTC rounds the clock of every state, also of one that is being switched off, whose mode is all zero. If the clock
  tree rounds 0 to 0, the CRTC cannot be switched off: the check of the commit ends with a positive mode status.
\<close>

lemma ma35_switch_off_refused:
  assumes "crtcs s MA35_DEFAULT_CRTC_ID = Some (drm_atomic_clear_mode_prop_for_crtc st)" "mode_blob st"
    and "clk_round_rate ck w dcupclk 0 = 0"
  shows "fst (ma35_check_crtc status_val ck dcupclk w s) = status_val MODE_CLOCK_RANGE"
  using assms
  by (simp add: ma35_check_crtc_def ma35_crtc_atomic_check_def crtc_commit_of_def drm_atomic_clear_mode_prop_for_crtc_def zero_mode_def
      wrap32_def MA35_MAX_PIXEL_CLK_def Let_def)

section \<open>An example\<close>

text \<open>A display that is off, and a commit that routes the connector and sets a mode of 1024 by 768.\<close>

definition ma35_off_dev :: modeset_dev where
  "ma35_off_dev = demo_dev\<lparr>conn_cur := (\<lambda>_. \<lparr>cn_crtc = None, cn_encoder = None, link_status = 0, max_requested_bpc = 8\<rparr>),
     crtc_cur := (\<lambda>_. demo_crtc\<lparr>cs_enable := False, cs_active := False, mode_blob := False, connector_mask := {}, encoder_mask := {}\<rparr>)\<rparr>"

definition ma35_demo_clk :: "unit clk_api" where
  "ma35_demo_clk = \<lparr>clk_prepare_enable = (\<lambda>w _. (0, w)), clk_disable_unprepare = (\<lambda>w _. w), clk_round_rate = (\<lambda>_ _ r. r div 250000 * 250000),
     clk_set_rate = (\<lambda>w _ _. (0, w))\<rparr>"

abbreviation ma35_demo_dev :: modeset_dev where
  "ma35_demo_dev \<equiv> ma35_modeset_dev ma35_off_dev ma35_limits ma35_raw_output (\<lambda>_. 15) ma35_demo_clk 0 () (\<lambda>_ _. 0)"

definition ma35_demo_commit :: drm_atomic_commit where
  "ma35_demo_commit = upd_crtc 0 (\<lambda>st. st\<lparr>cs_enable := True, cs_active := True, cs_mode := demo_entry 65100 1024 768 {}, mode_blob := True\<rparr>)
     (snd (drm_atomic_set_crtc_for_connector ma35_demo_dev 0 (Some 0) (snd (drm_atomic_get_connector_state ma35_demo_dev 0 empty_commit))))"

definition ma35_demo_hw :: hw_state where
  "ma35_demo_hw = \<lparr>hw_crtcs = {}, hw_outputs = (\<lambda>_. Output_off), hw_open = {}, hw_finished = False\<rparr>"

lemma ma35_demo_device_ok: "device_ok ma35_demo_dev"
  by (auto simp: device_ok_def routing_ok_def planes_ok_def paths_ok_def ma35_modeset_dev_def ma35_off_dev_def demo_dev_def demo_crtc_def)

lemma ma35_demo_building: "building ma35_demo_dev ma35_demo_commit"
proof -
  let ?s1 = "snd (drm_atomic_get_connector_state ma35_demo_dev 0 empty_commit)"
  let ?s2 = "snd (drm_atomic_set_crtc_for_connector ma35_demo_dev 0 (Some 0) ?s1)"
  have 1: "building ma35_demo_dev ?s1"
  proof (rule building_conn [OF building_empty, of 0])
    have "fst (drm_atomic_get_connector_state ma35_demo_dev 0 empty_commit) = 0" by code_simp
    then show "drm_atomic_get_connector_state ma35_demo_dev 0 empty_commit = (0, ?s1)" by (simp add: prod_eq_iff)
  qed simp
  have "building ma35_demo_dev ?s2"
  proof (rule building_route [OF 1, of 0 "Some 0"])
    have "fst (drm_atomic_set_crtc_for_connector ma35_demo_dev 0 (Some 0) ?s1) = 0" by code_simp
    then show "drm_atomic_set_crtc_for_connector ma35_demo_dev 0 (Some 0) ?s1 = (0, ?s2)" by (simp add: prod_eq_iff)
    show "conns ?s1 0 \<noteq> None" by code_simp
  qed simp
  then show ?thesis unfolding ma35_demo_commit_def by (rule building_props) (simp add: same_masks_def)
qed

lemma ma35_demo_shows: "shows_state ma35_demo_dev ma35_demo_hw"
  by (auto simp: shows_state_def shows_output_def ma35_modeset_dev_def ma35_off_dev_def ma35_demo_hw_def demo_dev_def demo_crtc_def)


end
