(* ===== verification/Drm_Prepare.thy ===== *)
theory Drm_Prepare
  imports Drm_Commit
begin

text \<open>
  The entry of a commit (\<open>drm_atomic_helper_commit\<close> in \<open>drm/drm_atomic_helper.c\<close>) and the resources of its framebuffers: preparing
  them, which may fail at any plane, and giving them back, on errors at once, otherwise while the commit is carried out.

  What the hooks take is counted: \<open>prepared p\<close> is how often \<open>prepare_fb\<close> of plane \<open>p\<close> has succeeded without its \<open>cleanup_fb\<close>, \<open>accessed p\<close>
  how often \<open>begin_fb_access\<close> has without its \<open>end_fb_access\<close>; integers, so that giving back too much shows. Commits with asynchronous
  updates, which do not take this path, are left out.
\<close>

section \<open>Framebuffers\<close>

text \<open>What a driver has and what its hooks return; \<open>writeback_job\<close> is the result of preparing the job of a connector, if it has one.\<close>

record prepare_hooks =
  prepare_fb :: "nat \<Rightarrow> int option"
  begin_fb_access :: "nat \<Rightarrow> int option"
  driver_gem :: bool
  gem_prepare_fb :: "nat \<Rightarrow> int"
  writeback_job :: "nat \<Rightarrow> int option"

record fb_use =
  prepared :: "nat \<Rightarrow> int"
  accessed :: "nat \<Rightarrow> int"

definition prepare_plane :: "prepare_hooks \<Rightarrow> nat \<Rightarrow> fb_use \<Rightarrow> int \<times> fb_use" where
  "prepare_plane f p u = (case prepare_fb f p of
     Some ret \<Rightarrow> (ret, if ret = 0 then u\<lparr>prepared := (prepared u)(p := prepared u p + 1)\<rparr> else u)
   | None \<Rightarrow> if \<not> driver_gem f then (0, u) else (gem_prepare_fb f p, u))"

definition begin_access :: "prepare_hooks \<Rightarrow> nat \<Rightarrow> fb_use \<Rightarrow> int \<times> fb_use" where
  "begin_access f p u = (case begin_fb_access f p of
     Some ret \<Rightarrow> (ret, if ret = 0 then u\<lparr>accessed := (accessed u)(p := accessed u p + 1)\<rparr> else u)
   | None \<Rightarrow> (0, u))"

definition end_access :: "commit_hooks \<Rightarrow> nat \<Rightarrow> fb_use \<Rightarrow> fb_use" where
  "end_access h p u = (if plane_end_fb_access h p then u\<lparr>accessed := (accessed u)(p := accessed u p - 1)\<rparr> else u)"

definition cleanup_plane :: "commit_hooks \<Rightarrow> nat \<Rightarrow> fb_use \<Rightarrow> fb_use" where
  "cleanup_plane h p u = (if plane_cleanup_fb h p then u\<lparr>prepared := (prepared u)(p := prepared u p - 1)\<rparr> else u)"

text \<open>The loop over the planes of a commit that may fail, with the plane at which it stopped.\<close>

fun plane_loop :: "(nat \<Rightarrow> 'u \<Rightarrow> int \<times> 'u) \<Rightarrow> drm_atomic_commit \<Rightarrow> nat list \<Rightarrow> 'u \<Rightarrow> int \<times> nat \<times> 'u" where
  "plane_loop g s [] u = (0, 0, u)"
| "plane_loop g s (i # is) u =
     (if planes s i = None then plane_loop g s is u
      else let (ret, u) = g i u in if ret \<noteq> 0 then (ret, i, u) else plane_loop g s is u)"

definition undo_loop :: "(nat \<Rightarrow> 'u \<Rightarrow> 'u) \<Rightarrow> drm_atomic_commit \<Rightarrow> nat \<Rightarrow> 'u \<Rightarrow> 'u" where
  "undo_loop g s n = fold (\<lambda>j u. if planes s j = None then u else g j u) [0..<n]"

fun writeback_loop :: "prepare_hooks \<Rightarrow> drm_atomic_commit \<Rightarrow> nat list \<Rightarrow> int" where
  "writeback_loop f s [] = 0"
| "writeback_loop f s (k # ks) = (case (conns s k, writeback_job f k) of
     (Some _, Some ret) \<Rightarrow> if ret < 0 then ret else writeback_loop f s ks
   | _ \<Rightarrow> writeback_loop f s ks)"

definition drm_atomic_helper_prepare_planes ::
    "commit_hooks \<Rightarrow> prepare_hooks \<Rightarrow> modeset_dev \<Rightarrow> drm_atomic_commit \<Rightarrow> fb_use \<Rightarrow> int \<times> fb_use" where
  "drm_atomic_helper_prepare_planes h f d s u =
     (let ret = writeback_loop f s [0..<n_conn d]
      in if ret < 0 then (ret, u)
         else
           let (ret, i, u) = plane_loop (prepare_plane f) s [0..<n_plane d] u
           in if ret \<noteq> 0 then (ret, undo_loop (cleanup_plane h) s i u)
              else
                let (ret, i, u) = plane_loop (begin_access f) s [0..<n_plane d] u
                in if ret \<noteq> 0 then (ret, undo_loop (cleanup_plane h) s (n_plane d) (undo_loop (end_access h) s i u))
                   else (0, u))"

definition drm_atomic_helper_unprepare_planes ::
    "commit_hooks \<Rightarrow> modeset_dev \<Rightarrow> drm_atomic_commit \<Rightarrow> fb_use \<Rightarrow> fb_use" where
  "drm_atomic_helper_unprepare_planes h d s u =
     undo_loop (cleanup_plane h) s (n_plane d) (undo_loop (end_access h) s (n_plane d) u)"

section \<open>Committing\<close>

text \<open>The outcomes of setting up the commit, of waiting for fences and of waiting for earlier commits.\<close>

record commit_waits =
  setup_commit_err :: int
  fences_err :: int
  stall_err :: int

text \<open>
  The device with its current states, the resources, and the calls that carry the commit out: made at once, or by the worker when
  the commit does not block.
\<close>

definition drm_atomic_helper_commit ::
    "commit_hooks \<Rightarrow> prepare_hooks \<Rightarrow> commit_waits \<Rightarrow> bool \<Rightarrow> modeset_dev \<Rightarrow> drm_atomic_commit \<Rightarrow> fb_use \<Rightarrow>
     int \<times> modeset_dev \<times> fb_use \<times> commit_call list" where
  "drm_atomic_helper_commit h f x nonblock d s u =
     (if setup_commit_err x \<noteq> 0 then (setup_commit_err x, d, u, [])
      else
        let (ret, u) = drm_atomic_helper_prepare_planes h f d s u
        in if ret \<noteq> 0 then (ret, d, u, [])
           else if \<not> nonblock \<and> fences_err x \<noteq> 0 then (fences_err x, d, drm_atomic_helper_unprepare_planes h d s u, [])
           else if stall_err x \<noteq> 0 then (stall_err x, d, drm_atomic_helper_unprepare_planes h d s u, [])
           else (0, drm_atomic_helper_swap_state d s, u, drm_atomic_helper_commit_tail h d s))"

section \<open>Balance\<close>

text \<open>What a plane of the commit below \<open>n\<close> has after preparing and after access.\<close>

definition add_where :: "(nat \<Rightarrow> bool) \<Rightarrow> (nat \<Rightarrow> int) \<Rightarrow> nat \<Rightarrow> int" where
  "add_where P f p = (if P p then f p + 1 else f p)"

definition paired :: "commit_hooks \<Rightarrow> prepare_hooks \<Rightarrow> bool" where
  "paired h f \<longleftrightarrow> (\<forall>p. plane_cleanup_fb h p \<longleftrightarrow> prepare_fb f p \<noteq> None) \<and> (\<forall>p. plane_end_fb_access h p \<longleftrightarrow> begin_fb_access f p \<noteq> None)"

definition holds_fb :: "commit_hooks \<Rightarrow> drm_atomic_commit \<Rightarrow> nat \<Rightarrow> fb_use \<Rightarrow> fb_use" where
  "holds_fb h s n u = u\<lparr>prepared := add_where (\<lambda>p. p < n \<and> planes s p \<noteq> None \<and> plane_cleanup_fb h p) (prepared u)\<rparr>"

definition holds_access :: "commit_hooks \<Rightarrow> drm_atomic_commit \<Rightarrow> nat \<Rightarrow> fb_use \<Rightarrow> fb_use" where
  "holds_access h s n u = u\<lparr>accessed := add_where (\<lambda>p. p < n \<and> planes s p \<noteq> None \<and> plane_end_fb_access h p) (accessed u)\<rparr>"

lemma plane_loop_append: "plane_loop g s (xs @ ys) u =
    (let (ret, i, u) = plane_loop g s xs u in if ret \<noteq> 0 then (ret, i, u) else plane_loop g s ys u)"
  by (induction xs arbitrary: u) (auto simp: Let_def split: prod.splits)

lemma undo_loop_Suc: "undo_loop g s (Suc n) u = (if planes s n = None then undo_loop g s n u else g n (undo_loop g s n u))"
  by (simp add: undo_loop_def)

text \<open>A loop that counts up, to its end or to where it fails.\<close>

lemma plane_loop_counts:
  assumes "\<And>i u ret u'. g i u = (ret, u') \<Longrightarrow> ret \<noteq> 0 \<Longrightarrow> u' = u"
    and "H 0 = u" "\<And>i u'. i < n \<Longrightarrow> planes s i = None \<Longrightarrow> H (Suc i) = H i"
    and "\<And>i u'. i < n \<Longrightarrow> planes s i \<noteq> None \<Longrightarrow> g i (H i) = (0, u') \<Longrightarrow> H (Suc i) = u'"
    and "plane_loop g s [0..<n] u = (ret, i, u')"
  shows "if ret = 0 then u' = H n else i < n \<and> u' = H i"
  using assms
proof (induction n arbitrary: ret i u')
  case (Suc n)
  obtain ret1 i1 u1 where r1: "plane_loop g s [0..<n] u = (ret1, i1, u1)" by (metis prod_cases3)
  have ih: "if ret1 = 0 then u1 = H n else i1 < n \<and> u1 = H i1"
    by (rule Suc.IH [OF Suc.prems(1,2) _ _ r1]) (use Suc.prems(3,4) in auto)
  show ?case
  proof (cases "ret1 = 0 \<and> planes s n \<noteq> None")
    case True
    obtain ret2 u2 where g: "g n u1 = (ret2, u2)" by (cases "g n u1")
    then have "ret = ret2 \<and> u' = u2 \<and> (ret2 \<noteq> 0 \<longrightarrow> i = n)" using Suc.prems(5) r1 True by (auto simp: plane_loop_append split: if_splits)
    then show ?thesis using g Suc.prems(1) [OF g] Suc.prems(4) [of n] True ih by auto
  next
    case False
    then show ?thesis using Suc.prems(5) r1 ih Suc.prems(3) [of n] by (auto simp: plane_loop_append split: if_splits)
  qed
qed auto

lemma holds_0 [simp]: "holds_fb h s 0 u = u" "holds_access h s 0 u = u"
  by (simp_all add: holds_fb_def holds_access_def add_where_def [abs_def])

lemma add_where_Suc: "add_where (\<lambda>p. p < Suc n \<and> P p) f = (if P n then (add_where (\<lambda>p. p < n \<and> P p) f)(n := f n + 1)
    else add_where (\<lambda>p. p < n \<and> P p) f)"
  by (auto simp: add_where_def fun_eq_iff less_Suc_eq)

lemma holds_Suc:
  "holds_fb h s (Suc n) u = (if planes s n \<noteq> None \<and> plane_cleanup_fb h n
     then (holds_fb h s n u)\<lparr>prepared := (prepared (holds_fb h s n u))(n := prepared (holds_fb h s n u) n + 1)\<rparr> else holds_fb h s n u)"
  "holds_access h s (Suc n) u = (if planes s n \<noteq> None \<and> plane_end_fb_access h n
     then (holds_access h s n u)\<lparr>accessed := (accessed (holds_access h s n u))(n := accessed (holds_access h s n u) n + 1)\<rparr>
     else holds_access h s n u)"
  by (simp_all add: holds_fb_def holds_access_def add_where_Suc) (simp_all add: add_where_def)

lemma prepare_loop_holds:
  assumes "paired h f" "plane_loop (prepare_plane f) s [0..<n] u = (ret, i, u')"
  shows "if ret = 0 then u' = holds_fb h s n u else i < n \<and> u' = holds_fb h s i u"
  by (rule plane_loop_counts [OF _ _ _ _ assms(2)])
     (use assms(1) in \<open>auto simp: prepare_plane_def holds_Suc paired_def split: option.splits if_splits\<close>)

lemma access_loop_holds:
  assumes "paired h f" "plane_loop (begin_access f) s [0..<n] u = (ret, i, u')"
  shows "if ret = 0 then u' = holds_access h s n u else i < n \<and> u' = holds_access h s i u"
  by (rule plane_loop_counts [OF _ _ _ _ assms(2)])
     (use assms(1) in \<open>auto simp: begin_access_def holds_Suc paired_def split: option.splits if_splits\<close>)

text \<open>The loops that give back take away from the planes below their bound.\<close>

lemma undo_cleanup:
  "undo_loop (cleanup_plane h) s n u = u\<lparr>prepared := \<lambda>p. prepared u p - (if p < n \<and> planes s p \<noteq> None \<and> plane_cleanup_fb h p then 1 else 0)\<rparr>"
proof (induction n)
  case (Suc n)
  then show ?case by (auto simp: undo_loop_Suc cleanup_plane_def fun_eq_iff less_Suc_eq)
qed (simp add: undo_loop_def)

lemma undo_end:
  "undo_loop (end_access h) s n u = u\<lparr>accessed := \<lambda>p. accessed u p - (if p < n \<and> planes s p \<noteq> None \<and> plane_end_fb_access h p then 1 else 0)\<rparr>"
proof (induction n)
  case (Suc n)
  then show ?case by (auto simp: undo_loop_Suc end_access_def fun_eq_iff less_Suc_eq)
qed (simp add: undo_loop_def)

lemma undo_holds [simp]:
  "undo_loop (cleanup_plane h) s n (holds_fb h s n u) = u" "undo_loop (end_access h) s n (holds_access h s n u) = u"
  by (simp_all add: undo_cleanup undo_end holds_fb_def holds_access_def add_where_def if_distrib [of "\<lambda>x. x - _"] cong: if_cong)

text \<open>All or nothing.\<close>

lemma prepare_planes_result:
  assumes "paired h f" "drm_atomic_helper_prepare_planes h f d s u = (ret, u')"
  shows "u' = (if ret = 0 then holds_access h s (n_plane d) (holds_fb h s (n_plane d) u) else u)"
proof -
  obtain r1 i1 u1 where p: "plane_loop (prepare_plane f) s [0..<n_plane d] u = (r1, i1, u1)" by (metis prod_cases3)
  obtain r2 i2 u2 where b: "plane_loop (begin_access f) s [0..<n_plane d] u1 = (r2, i2, u2)" by (metis prod_cases3)
  have "drm_atomic_helper_prepare_planes h f d s u =
      (if writeback_loop f s [0..<n_conn d] < 0 then (writeback_loop f s [0..<n_conn d], u)
       else if r1 \<noteq> 0 then (r1, undo_loop (cleanup_plane h) s i1 u1)
       else if r2 \<noteq> 0 then (r2, undo_loop (cleanup_plane h) s (n_plane d) (undo_loop (end_access h) s i2 u2)) else (0, u2))"
    using p b by (simp add: drm_atomic_helper_prepare_planes_def Let_def)
  then show ?thesis
    using assms(2) prepare_loop_holds [OF assms(1) p] access_loop_holds [OF assms(1) b] by (auto split: if_splits)
qed

lemma unprepare_planes_result:
  "drm_atomic_helper_unprepare_planes h d s (holds_access h s (n_plane d) (holds_fb h s (n_plane d) u)) = u"
  by (simp add: drm_atomic_helper_unprepare_planes_def)

section \<open>The calls of a commit\<close>

text \<open>What the calls that carry the commit out give back.\<close>

fun gives_back :: "commit_call \<Rightarrow> fb_use \<Rightarrow> fb_use" where
  "gives_back (End_fb_access p) u = u\<lparr>accessed := (accessed u)(p := accessed u p - 1)\<rparr>"
| "gives_back (Cleanup_fb p) u = u\<lparr>prepared := (prepared u)(p := prepared u p - 1)\<rparr>"
| "gives_back _ u = u"

definition keeps_fb :: "commit_call \<Rightarrow> bool" where
  "keeps_fb x \<longleftrightarrow> (\<forall>p. x \<noteq> End_fb_access p \<and> x \<noteq> Cleanup_fb p)"

lemma gives_back_keeps: "(\<And>x. x \<in> set xs \<Longrightarrow> keeps_fb x) \<Longrightarrow> fold gives_back xs u = u"
proof (induction xs)
  case (Cons x xs)
  then have "gives_back x u = u" by (cases x) (auto simp: keeps_fb_def)
  then show ?case using Cons by simp
qed simp

lemma disables_keep: "x \<in> set (drm_atomic_helper_commit_modeset_disables h d s) \<Longrightarrow> keeps_fb x"
  by (auto simp: drm_atomic_helper_commit_modeset_disables_def disable_outputs_def keeps_fb_def
      drm_atomic_helper_commit_encoder_bridge_disable_def drm_atomic_helper_commit_encoder_bridge_post_disable_def
      drm_atomic_helper_commit_crtc_disable_def drm_atomic_helper_commit_crtc_set_mode_def Let_def split: option.splits if_splits prod.splits)

lemma enables_keep: "x \<in> set (drm_atomic_helper_commit_modeset_enables h d s) \<Longrightarrow> keeps_fb x"
  by (auto simp: drm_atomic_helper_commit_modeset_enables_def keeps_fb_def drm_atomic_helper_commit_crtc_enable_def
      drm_atomic_helper_commit_encoder_bridge_pre_enable_def drm_atomic_helper_commit_encoder_bridge_enable_def
      drm_atomic_helper_commit_writebacks_def Let_def split: option.splits if_splits prod.splits)

lemma tail_keep:
  "x \<in> set (drm_atomic_helper_fake_vblank d s) \<Longrightarrow> keeps_fb x" "x \<in> set (drm_atomic_helper_wait_for_vblanks h d s) \<Longrightarrow> keeps_fb x"
  "keeps_fb Hw_done"
  by (auto simp: drm_atomic_helper_fake_vblank_def drm_atomic_helper_wait_for_vblanks_def keeps_fb_def split: option.splits if_splits)

lemma commit_plane_keep: "x \<in> set (commit_plane h d s a b p) \<Longrightarrow> keeps_fb x"
  by (auto simp: commit_plane_def keeps_fb_def Let_def split: option.splits if_splits)

lemma fold_gives_back_end:
  "fold gives_back (concat (map (\<lambda>p. if planes s p \<noteq> None \<and> plane_end_fb_access h p then [End_fb_access p] else []) [0..<n])) u =
   undo_loop (end_access h) s n u"
  by (induction n arbitrary: u) (auto simp: undo_loop_Suc end_access_def, simp add: undo_loop_def)

lemma fold_gives_back_cleanup:
  "fold gives_back (drm_atomic_helper_cleanup_planes h d s) u = undo_loop (cleanup_plane h) s (n_plane d) u"
proof -
  have "fold gives_back (concat (map (\<lambda>p. if planes s p \<noteq> None \<and> plane_cleanup_fb h p then [Cleanup_fb p] else []) [0..<n])) u =
     undo_loop (cleanup_plane h) s n u" for n
    by (induction n arbitrary: u) (auto simp: undo_loop_Suc cleanup_plane_def, simp add: undo_loop_def)
  then show ?thesis by (simp add: drm_atomic_helper_cleanup_planes_def)
qed

lemma planes_give_back: "fold gives_back (drm_atomic_helper_commit_planes h d s a b) u = undo_loop (end_access h) s (n_plane d) u"
proof -
  have 1: "fold gives_back (concat (map (commit_plane h d s a b) [0..<n])) v = v" for n v
    by (rule gives_back_keeps) (auto intro: commit_plane_keep)
  have 2: "fold gives_back (concat (map (\<lambda>c. if P c then [Crtc_begin c (q c)] else []) [0..<n])) v = v"
    "fold gives_back (concat (map (\<lambda>c. if P c then [Crtc_flush c (q c)] else []) [0..<n])) v = v" for P q n v
    by (rule gives_back_keeps, auto simp: keeps_fb_def split: if_splits)+
  show ?thesis unfolding drm_atomic_helper_commit_planes_def fold_append comp_apply 1 2 fold_gives_back_end ..
qed

lemma commit_tail_gives_back:
  "fold gives_back (drm_atomic_helper_commit_tail h d s) u = drm_atomic_helper_unprepare_planes h d s u"
proof -
  have keep: "fold gives_back (drm_atomic_helper_commit_modeset_disables h d s) v = v"
    "fold gives_back (drm_atomic_helper_commit_modeset_enables h d s) v = v" "fold gives_back (drm_atomic_helper_fake_vblank d s) v = v"
    "fold gives_back (drm_atomic_helper_wait_for_vblanks h d s) v = v" for v
    by (rule gives_back_keeps, erule disables_keep enables_keep tail_keep)+
  show ?thesis
    unfolding drm_atomic_helper_commit_tail_def fold_append comp_apply keep planes_give_back fold_gives_back_cleanup
    by (simp add: drm_atomic_helper_unprepare_planes_def)
qed


text \<open>Two of three planes are in the commit; the framebuffer of the second cannot be accessed.\<close>

definition prepare_demo_hooks :: "int \<Rightarrow> prepare_hooks" where
  "prepare_demo_hooks err = \<lparr>prepare_fb = (\<lambda>p. Some 0), begin_fb_access = (\<lambda>p. Some (if p = 2 then err else 0)), driver_gem = True,
     gem_prepare_fb = (\<lambda>_. 0), writeback_job = (\<lambda>_. None)\<rparr>"

definition prepare_demo_commit :: drm_atomic_commit where
  "prepare_demo_commit = empty_commit\<lparr>planes := [0 \<mapsto> \<lparr>pl_crtc = None, pl_fb = None\<rparr>, 2 \<mapsto> \<lparr>pl_crtc = None, pl_fb = None\<rparr>]\<rparr>"

definition prepare_demo_tail :: commit_hooks where
  "prepare_demo_tail = \<lparr>enc_off_hooks = (\<lambda>_. {}), crtc_off_hooks = (\<lambda>_. {}), crtc_mode_set_nofb = (\<lambda>_. True), enc_mode_hooks = (\<lambda>_. {}),
     crtc_on_hooks = (\<lambda>_. {}), enc_on_hooks = (\<lambda>_. {}), crtc_atomic_begin = (\<lambda>_. True), crtc_atomic_flush = (\<lambda>_. True),
     plane_funcs = (\<lambda>_. True), plane_atomic_disable = (\<lambda>_. True), plane_atomic_enable = (\<lambda>_. False), plane_end_fb_access = (\<lambda>_. True),
     plane_cleanup_fb = (\<lambda>_. True), conn_writeback = (\<lambda>_. False), vblank_get_ok = (\<lambda>_. True)\<rparr>"

abbreviation prepare_demo :: "int \<Rightarrow> int \<times> modeset_dev \<times> fb_use \<times> commit_call list" where
  "prepare_demo err \<equiv> drm_atomic_helper_commit prepare_demo_tail (prepare_demo_hooks err)
     \<lparr>setup_commit_err = 0, fences_err = 0, stall_err = 0\<rparr> False (demo_dev\<lparr>n_plane := 3\<rparr>) prepare_demo_commit
     \<lparr>prepared = (\<lambda>_. 1), accessed = (\<lambda>_. 0)\<rparr>"


end
