(* ===== verification/Drm_Legacy.thy ===== *)
theory Drm_Legacy
  imports Drm_Commit
begin

text \<open>
  The pointers of the legacy interface (\<open>drm_atomic_helper_update_legacy_modeset_state\<close> of \<open>drm/drm_atomic_helper.c\<close>, modelled in
  \<open>Drm_Commit\<close>): the encoder of a connector, the CRTC of an encoder, the mode of a CRTC. After every commit they say what the atomic
  states say.
\<close>

section \<open>Legacy pointers\<close>

text \<open>The pointers of the legacy interface mirror the current routing.\<close>

definition mirrors :: "modeset_dev \<Rightarrow> legacy_state \<Rightarrow> bool" where
  "mirrors d l \<longleftrightarrow> (\<forall>k<n_conn d. conn_encoder l k = cn_encoder (conn_cur d k)) \<and>
     (\<forall>e c. encoder_crtc l e = Some c \<longleftrightarrow> (\<exists>k<n_conn d. cn_encoder (conn_cur d k) = Some e \<and> cn_crtc (conn_cur d k) = Some c)) \<and>
     (\<forall>c<n_crtc d. crtc_mode l c = cs_mode (crtc_cur d c) \<and> crtc_enabled l c = cs_enable (crtc_cur d c))"

lemma fold_upt_inv:
  assumes "I 0 l" "\<And>i l. i < n \<Longrightarrow> I i l \<Longrightarrow> I (Suc i) (f i l)"
  shows "I n (fold f [0..<n] l)"
  using assms by (induction n) auto

text \<open>The links after the first \<open>i\<close> connectors of the commit have lost theirs.\<close>

definition cleared :: "modeset_dev \<Rightarrow> drm_atomic_commit \<Rightarrow> legacy_state \<Rightarrow> nat \<Rightarrow> legacy_state \<Rightarrow> bool" where
  "cleared d s l0 i l \<longleftrightarrow> (\<forall>k. conn_encoder l k = (if k < i \<and> conns s k \<noteq> None then None else conn_encoder l0 k)) \<and>
     (\<forall>e. encoder_crtc l e = (if \<exists>k<i. conns s k \<noteq> None \<and> conn_encoder l0 k = Some e then None else encoder_crtc l0 e)) \<and>
     crtc_mode l = crtc_mode l0 \<and> crtc_enabled l = crtc_enabled l0"

lemma clear_legacy_links: "cleared d s l (n_conn d) (fold (clear_legacy_link d s) [0..<n_conn d] l)"
proof (rule fold_upt_inv [where I = "cleared d s l"])
  show "cleared d s l 0 l" by (simp add: cleared_def)
next
  fix i l' assume I: "cleared d s l i l'"
  show "cleared d s l (Suc i) (clear_legacy_link d s i l')"
  proof (cases "conns s i")
    case None
    then show ?thesis using I by (auto simp: cleared_def clear_legacy_link_def less_Suc_eq)
  next
    case (Some cn)
    have "conn_encoder l' i = conn_encoder l i" using I by (simp add: cleared_def)
    then show ?thesis
      using I Some by (cases "conn_encoder l i") (auto simp: cleared_def clear_legacy_link_def Let_def less_Suc_eq)
  qed
qed

definition linked :: "drm_atomic_commit \<Rightarrow> nat \<Rightarrow> nat \<Rightarrow> nat \<Rightarrow> bool" where
  "linked s k e c \<longleftrightarrow> (\<exists>cn. conns s k = Some cn \<and> cn_encoder cn = Some e \<and> cn_crtc cn = Some c)"

text \<open>The links after the first \<open>i\<close> connectors of the commit have got theirs.\<close>

definition relinked :: "drm_atomic_commit \<Rightarrow> legacy_state \<Rightarrow> nat \<Rightarrow> legacy_state \<Rightarrow> bool" where
  "relinked s l0 i l \<longleftrightarrow> (\<forall>k e. conn_encoder l k = Some e \<longleftrightarrow>
        (if k < i \<and> (\<exists>e c. linked s k e c) then \<exists>c. linked s k e c else conn_encoder l0 k = Some e)) \<and>
     (\<forall>e c. encoder_crtc l e = Some c \<longleftrightarrow>
        (if \<exists>k<i. \<exists>c. linked s k e c then \<exists>k<i. linked s k e c else encoder_crtc l0 e = Some c)) \<and>
     crtc_mode l = crtc_mode l0 \<and> crtc_enabled l = crtc_enabled l0"

lemma set_legacy_link_cases:
  "set_legacy_link s k l = (if \<exists>e c. linked s k e c
     then l\<lparr>conn_encoder := (conn_encoder l)(k := cn_encoder (the (conns s k))),
            encoder_crtc := (encoder_crtc l)(the (cn_encoder (the (conns s k))) := cn_crtc (the (conns s k)))\<rparr> else l)"
  by (auto simp: set_legacy_link_def linked_def split: option.splits)

lemma set_legacy_links:
  assumes "\<And>k k' e c c'. k < n \<Longrightarrow> k' < n \<Longrightarrow> linked s k e c \<Longrightarrow> linked s k' e c' \<Longrightarrow> k = k'"
  shows "relinked s l n (fold (set_legacy_link s) [0..<n] l)"
proof (rule fold_upt_inv [where I = "relinked s l"])
  show "relinked s l 0 l" by (simp add: relinked_def)
next
  fix i l' assume i: "i < n" and I: "relinked s l i l'"
  show "relinked s l (Suc i) (set_legacy_link s i l')"
  proof (cases "\<exists>e c. linked s i e c")
    case False
    then show ?thesis using I by (auto simp: relinked_def set_legacy_link_cases less_Suc_eq)
  next
    case True
    then obtain e c where ec: "linked s i e c" by blast
    have uniq: "linked s i e' c' \<longleftrightarrow> e' = e \<and> c' = c" for e' c' using ec by (auto simp: linked_def)
    have other: "\<not> linked s k e c'" if "k < i" for k c' using assms [of k i e c' c] that i ec by auto
    have f: "set_legacy_link s i l' = l'\<lparr>conn_encoder := (conn_encoder l')(i := Some e), encoder_crtc := (encoder_crtc l')(e := Some c)\<rparr>"
      using True ec by (auto simp: set_legacy_link_cases linked_def)
    show ?thesis unfolding f relinked_def
    proof (intro conjI allI)
      show "conn_encoder (l'\<lparr>conn_encoder := (conn_encoder l')(i := Some e), encoder_crtc := (encoder_crtc l')(e := Some c)\<rparr>) k = Some e' \<longleftrightarrow>
        (if k < Suc i \<and> (\<exists>e c. linked s k e c) then \<exists>c. linked s k e' c else conn_encoder l k = Some e')" for k e'
        using I uniq by (auto simp: relinked_def less_Suc_eq)
      show "encoder_crtc (l'\<lparr>conn_encoder := (conn_encoder l')(i := Some e), encoder_crtc := (encoder_crtc l')(e := Some c)\<rparr>) e' = Some c' \<longleftrightarrow>
        (if \<exists>k<Suc i. \<exists>c. linked s k e' c then \<exists>k<Suc i. linked s k e' c' else encoder_crtc l e' = Some c')" for e' c'
        using I uniq other by (cases "e' = e") (auto simp: relinked_def less_Suc_eq)
    qed (use I in \<open>simp_all add: relinked_def\<close>)
  qed
qed

lemma set_legacy_crtcs:
  fixes l s n defines "l' \<equiv> fold (set_legacy_crtc s) [0..<n] l"
  shows "conn_encoder l' = conn_encoder l" "encoder_crtc l' = encoder_crtc l"
    "c < n \<Longrightarrow> crtc_mode l' c = (case crtcs s c of Some st \<Rightarrow> cs_mode st | None \<Rightarrow> crtc_mode l c)"
    "c < n \<Longrightarrow> crtc_enabled l' c = (case crtcs s c of Some st \<Rightarrow> cs_enable st | None \<Rightarrow> crtc_enabled l c)"
proof -
  have "conn_encoder l' = conn_encoder l \<and> encoder_crtc l' = encoder_crtc l \<and>
    (\<forall>c. crtc_mode l' c = (if c < n then case crtcs s c of Some st \<Rightarrow> cs_mode st | None \<Rightarrow> crtc_mode l c else crtc_mode l c)) \<and>
    (\<forall>c. crtc_enabled l' c = (if c < n then case crtcs s c of Some st \<Rightarrow> cs_enable st | None \<Rightarrow> crtc_enabled l c else crtc_enabled l c))"
    unfolding l'_def by (induction n) (auto simp: set_legacy_crtc_def less_Suc_eq split: option.splits)
  then show "conn_encoder l' = conn_encoder l" "encoder_crtc l' = encoder_crtc l"
    "c < n \<Longrightarrow> crtc_mode l' c = (case crtcs s c of Some st \<Rightarrow> cs_mode st | None \<Rightarrow> crtc_mode l c)"
    "c < n \<Longrightarrow> crtc_enabled l' c = (case crtcs s c of Some st \<Rightarrow> cs_enable st | None \<Rightarrow> crtc_enabled l c)" by simp_all
qed

text \<open>The update of the pointers refines the swap of the states, for every commit that leads from one consistent device to another.\<close>

lemma update_legacy_mirrors:
  assumes "device_ok d" "device_ok (drm_atomic_helper_swap_state d s)" "mirrors d l"
  shows "mirrors (drm_atomic_helper_swap_state d s) (drm_atomic_helper_update_legacy_modeset_state d s l)"
proof -
  define n where "n = n_conn d"
  define l1 where "l1 = fold (clear_legacy_link d s) [0..<n] l"
  define l2 where "l2 = fold (set_legacy_link s) [0..<n] l1"
  define l3 where "l3 = fold (set_legacy_crtc s) [0..<n_crtc d] l2"
  have C: "cleared d s l n l1" unfolding l1_def n_def by (rule clear_legacy_links)
  have new: "new_conn d s k = (case conns s k of Some cn \<Rightarrow> cn | None \<Rightarrow> conn_cur d k)" for k by (simp add: new_conn_def)
  have ok: "k < n \<Longrightarrow> cn_crtc (new_conn d s k) = None \<longleftrightarrow> encs d s k = None" for k
    using device_okD(1) [OF assms(2), of k] by (simp add: n_def)
  have uniq: "k < n \<Longrightarrow> k' < n \<Longrightarrow> encs d s k = Some e \<Longrightarrow> encs d s k' = Some e \<Longrightarrow> k = k'" for k k' e
    using device_okD(3) [OF assms(2), of k e k'] by (simp add: n_def)
  have link: "linked s k e c \<longleftrightarrow> conns s k \<noteq> None \<and> encs d s k = Some e \<and> cn_crtc (new_conn d s k) = Some c" for k e c
    by (auto simp: linked_def new split: option.splits)
  have R: "relinked s l1 n l2" unfolding l2_def by (rule set_legacy_links) (auto simp: link intro: uniq)
  have ce: "conn_encoder l2 k = encs d s k" if k: "k < n" for k
  proof (cases "conns s k")
    case None
    then have "conn_encoder l1 k = cn_encoder (conn_cur d k)" using C k assms(3) by (simp add: cleared_def mirrors_def n_def)
    moreover have "conn_encoder l2 k = Some e \<longleftrightarrow> conn_encoder l1 k = Some e" for e using R None by (simp add: relinked_def link)
    ultimately show ?thesis using None by (metis new_conn_simps(2) not_Some_eq)
  next
    case (Some cn)
    then have "conn_encoder l1 k = None" using C k by (simp add: cleared_def)
    then have "conn_encoder l2 k = Some e \<longleftrightarrow> encs d s k = Some e" for e
      using R ok [OF k] k Some unfolding relinked_def link by (cases "cn_crtc (new_conn d s k)") auto
    then show ?thesis by (metis not_Some_eq)
  qed
  have ec: "encoder_crtc l2 e = Some c \<longleftrightarrow> (\<exists>k<n. encs d s k = Some e \<and> cn_crtc (new_conn d s k) = Some c)" for e c
  proof (cases "\<exists>k<n. \<exists>c. linked s k e c")
    case True
    then obtain k c' where k: "k < n" "linked s k e c'" by blast
    have "encoder_crtc l2 e = Some c \<longleftrightarrow> (\<exists>k<n. linked s k e c)" using R True by (simp add: relinked_def)
    then show ?thesis using k uniq unfolding link by metis
  next
    case False
    have e2: "encoder_crtc l2 e = Some c \<longleftrightarrow> encoder_crtc l1 e = Some c"
      using R [unfolded relinked_def, THEN conjunct2, THEN conjunct1, rule_format, of e c] unfolding if_not_P [OF False] .
    have out: "conns s k = None" if "k < n" "encs d s k = Some e" for k
      using False that ok [of k] unfolding link by (cases "cn_crtc (new_conn d s k)") auto
    have "encoder_crtc l1 e = Some c \<longleftrightarrow> (\<exists>k<n. conns s k = None \<and> cn_encoder (conn_cur d k) = Some e \<and> cn_crtc (conn_cur d k) = Some c)"
      using C assms(3) device_okD(3) [OF assms(1)] unfolding cleared_def mirrors_def n_def [symmetric] by (metis option.distinct(1))
    then show ?thesis unfolding e2 using out by (metis new_conn_simps(2))
  qed
  have "drm_atomic_helper_update_legacy_modeset_state d s l = l3"
    by (simp add: drm_atomic_helper_update_legacy_modeset_state_def l3_def l2_def l1_def n_def)
  then show ?thesis
    using ce ec R C assms(3) unfolding mirrors_def swap_state_fields n_def [symmetric] l3_def
    by (auto simp: set_legacy_crtcs new_crtc_def relinked_def cleared_def split: option.splits)
qed

end
