(* ===== verification/Ma35_Phy.thy ===== *)
theory Ma35_Phy
  imports Reg_Fields
begin

text \<open>
  The USB PHYs of the MA35: the driver of the gadget port (\<open>phy/nuvoton/phy-ma35d1-usb2.c\<close>) and the driver of both host
  ports with the role switch of the first one (\<open>phy/nuvoton/phy-ma35d1-otg.c\<close>). The two PHYs share the register
  \<open>USBPMISCR\<close>, the fields of the second 16 bits above those of the first. Registers and clocks are those of
  \<open>Board_Api\<close>; delays and messages are left out.
\<close>

section \<open>Registers\<close>

definition MA35_SYS_PWRONOTP :: u32 where "MA35_SYS_PWRONOTP = 0x04"
definition MA35_SYS_USBPMISCR :: u32 where "MA35_SYS_USBPMISCR = 0x60"
definition MA35_SYS_MISCFCR0 :: u32 where "MA35_SYS_MISCFCR0 = 0x70"
definition PWRONOTP_USBP0ID :: u32 where "PWRONOTP_USBP0ID = BIT 16"

definition USBPMISCR_PHY_POR :: "nat \<Rightarrow> u32" where "USBPMISCR_PHY_POR n = BIT (0 + n * 16)"
definition USBPMISCR_PHY_SUSPEND :: "nat \<Rightarrow> u32" where "USBPMISCR_PHY_SUSPEND n = BIT (1 + n * 16)"
definition USBPMISCR_PHY_COMN :: "nat \<Rightarrow> u32" where "USBPMISCR_PHY_COMN n = BIT (2 + n * 16)"
definition USBPMISCR_PHY_HSTCKSTB :: "nat \<Rightarrow> u32" where "USBPMISCR_PHY_HSTCKSTB n = BIT (8 + n * 16)"
definition USBPMISCR_PHY_CK12MSTB :: "nat \<Rightarrow> u32" where "USBPMISCR_PHY_CK12MSTB n = BIT (9 + n * 16)"
definition USBPMISCR_PHY_DEVCKSTB :: "nat \<Rightarrow> u32" where "USBPMISCR_PHY_DEVCKSTB n = BIT (10 + n * 16)"
definition USBPMISCR_PHY_CTL_MASK :: "nat \<Rightarrow> u32" where "USBPMISCR_PHY_CTL_MASK n = push_bit (n * 16) 0x7"

definition USBPMISCR_PHY_HOST_READY :: "nat \<Rightarrow> u32" where
  "USBPMISCR_PHY_HOST_READY n = USBPMISCR_PHY_SUSPEND n OR USBPMISCR_PHY_HSTCKSTB n OR USBPMISCR_PHY_CK12MSTB n"

definition USBPMISCR_RCAL_SHIFT :: "nat \<Rightarrow> nat" where "USBPMISCR_RCAL_SHIFT n = 12 + n * 16"

definition USBPMISCR_RCAL_MASK :: "nat \<Rightarrow> u32" where
  "USBPMISCR_RCAL_MASK n = GENMASK (USBPMISCR_RCAL_SHIFT n + 3) (USBPMISCR_RCAL_SHIFT n)"

definition MISCFCR0_UHOVRCURH :: u32 where "MISCFCR0_UHOVRCURH = BIT 12"

lemmas usb_addr = MA35_SYS_PWRONOTP_def MA35_SYS_USBPMISCR_def MA35_SYS_MISCFCR0_def
lemmas usb_field = USBPMISCR_PHY_POR_def USBPMISCR_PHY_SUSPEND_def USBPMISCR_PHY_COMN_def USBPMISCR_PHY_HSTCKSTB_def
  USBPMISCR_PHY_CK12MSTB_def USBPMISCR_PHY_DEVCKSTB_def USBPMISCR_PHY_CTL_MASK_def USBPMISCR_PHY_HOST_READY_def
  USBPMISCR_RCAL_SHIFT_def USBPMISCR_RCAL_MASK_def

section \<open>The gadget PHY\<close>

text \<open>\<open>ma35_usb_phy\<close> has the clock; its registers are the board's.\<close>

definition MA35_SYS_REG_USBPMISCR :: u32 where "MA35_SYS_REG_USBPMISCR = 0x60"
definition PHY0POR :: u32 where "PHY0POR = BIT 0"
definition PHY0SUSPEND :: u32 where "PHY0SUSPEND = BIT 1"
definition PHY0DEVCKSTB :: u32 where "PHY0DEVCKSTB = BIT 10"

definition ma35_usb_phy_power_on :: "'w regmap_api \<Rightarrow> 'w clk_api \<Rightarrow> clk \<Rightarrow> 'w \<Rightarrow> int \<times> 'w" where
  "ma35_usb_phy_power_on rm ck c w =
     (let (ret, w) = clk_prepare_enable ck w c
      in if ret < 0 then (ret, w)
         else
           let (val, w) = regmap_read rm w MA35_SYS_REG_USBPMISCR;
               (ready, w) = (if val AND PHY0SUSPEND \<noteq> 0 then
                  let (ret, val, w) = regmap_read_poll_timeout rm w MA35_SYS_REG_USBPMISCR (\<lambda>val. val AND PHY0DEVCKSTB \<noteq> 0) 10 1000
                  in (ret = 0, w) else (False, w))
           in if ready then (0, w)
              else
                let w = regmap_update_bits rm w MA35_SYS_REG_USBPMISCR 0x7 (PHY0POR OR PHY0SUSPEND);
                    w = regmap_update_bits rm w MA35_SYS_REG_USBPMISCR 0x7 PHY0SUSPEND;
                    (ret, val, w) = regmap_read_poll_timeout rm w MA35_SYS_REG_USBPMISCR (\<lambda>val. val AND PHY0DEVCKSTB \<noteq> 0) 10 1000
                in if ret = - ETIMEDOUT then (ret, clk_disable_unprepare ck w c) else (0, w))"

definition ma35_usb_phy_power_off :: "'w clk_api \<Rightarrow> clk \<Rightarrow> 'w \<Rightarrow> int \<times> 'w" where
  "ma35_usb_phy_power_off ck c w = (0, clk_disable_unprepare ck w c)"

text \<open>
  The probe: the outcomes of the allocation and of the lookups. \<open>of_clk_get\<close> takes a reference to the clock, which nothing
  releases; the second component says whether it is held.
\<close>

record usb_phy_env =
  phy_kzalloc :: bool
  syscon_lookup :: int
  of_clk_get :: int
  devm_phy_create :: int
  devm_of_phy_provider_register :: int

definition ma35_usb_phy_probe :: "usb_phy_env \<Rightarrow> int \<times> bool" where
  "ma35_usb_phy_probe env =
     (if \<not> phy_kzalloc env then (- ENOMEM, False)
      else if syscon_lookup env \<noteq> 0 then (syscon_lookup env, False)
      else if of_clk_get env \<noteq> 0 then (of_clk_get env, False)
      else if devm_phy_create env \<noteq> 0 then (devm_phy_create env, True)
      else if devm_of_phy_provider_register env \<noteq> 0 then (devm_of_phy_provider_register env, True)
      else (0, True))"

section \<open>The host PHYs\<close>

datatype usb_role = USB_ROLE_NONE | USB_ROLE_HOST | USB_ROLE_DEVICE

text \<open>
  \<open>role_sw\<close> is \<open>NULL\<close> as \<open>None\<close>, a role switch as \<open>Some 0\<close> and an error pointer as \<open>Some\<close> of the error.
\<close>

record ma35_otg_phy =
  otg_clk :: clk
  phy_idx :: u32
  role_sw :: "int option"
  cur_role :: usb_role

definition ma35_otg_phy_init :: "'w regmap_api \<Rightarrow> ma35_otg_phy \<Rightarrow> 'w \<Rightarrow> int \<times> 'w" where
  "ma35_otg_phy_init rm p w =
     (let n = unat (phy_idx p);
          ready_mask = USBPMISCR_PHY_HOST_READY n;
          (val, w) = regmap_read rm w MA35_SYS_USBPMISCR
      in if val AND ready_mask = ready_mask then (0, w)
         else
           let w = regmap_update_bits rm w MA35_SYS_USBPMISCR (USBPMISCR_PHY_CTL_MASK n)
                     (USBPMISCR_PHY_POR n OR USBPMISCR_PHY_SUSPEND n);
               w = regmap_update_bits rm w MA35_SYS_USBPMISCR (USBPMISCR_PHY_CTL_MASK n) (USBPMISCR_PHY_SUSPEND n);
               (ret, val, w) = regmap_read_poll_timeout rm w MA35_SYS_USBPMISCR (\<lambda>val. val AND ready_mask = ready_mask)
                     20000 500000
           in if ret \<noteq> 0 then (ret, w) else (0, w))"

definition ma35_otg_phy_power_on :: "'w clk_api \<Rightarrow> ma35_otg_phy \<Rightarrow> 'w \<Rightarrow> int \<times> 'w" where
  "ma35_otg_phy_power_on ck p w = clk_prepare_enable ck w (otg_clk p)"

definition ma35_otg_phy_power_off :: "'w clk_api \<Rightarrow> ma35_otg_phy \<Rightarrow> 'w \<Rightarrow> int \<times> 'w" where
  "ma35_otg_phy_power_off ck p w = (0, clk_disable_unprepare ck w (otg_clk p))"

definition ma35_otg_read_id :: "'w regmap_api \<Rightarrow> 'w \<Rightarrow> usb_role \<times> 'w" where
  "ma35_otg_read_id rm w =
     (let (val, w) = regmap_read rm w MA35_SYS_PWRONOTP
      in (if val AND PWRONOTP_USBP0ID \<noteq> 0 then USB_ROLE_HOST else USB_ROLE_DEVICE, w))"

definition ma35_otg_role_sw_set :: "ma35_otg_phy \<Rightarrow> usb_role \<Rightarrow> int \<times> ma35_otg_phy" where
  "ma35_otg_role_sw_set p role = (0, p\<lparr>cur_role := role\<rparr>)"

definition ma35_otg_role_sw_get :: "'w regmap_api \<Rightarrow> ma35_otg_phy \<Rightarrow> 'w \<Rightarrow> usb_role \<times> 'w" where
  "ma35_otg_role_sw_get rm p w = ma35_otg_read_id rm w"

text \<open>\<open>reg\<close> is the outcome of \<open>usb_role_switch_register\<close>.\<close>

definition ma35_otg_role_switch_init :: "'w regmap_api \<Rightarrow> int \<Rightarrow> ma35_otg_phy \<Rightarrow> 'w \<Rightarrow> int \<times> ma35_otg_phy \<times> 'w" where
  "ma35_otg_role_switch_init rm reg p w =
     (let (role, w) = ma35_otg_read_id rm w;
          p = p\<lparr>cur_role := role, role_sw := Some reg\<rparr>
      in if reg \<noteq> 0 then (reg, p, w) else (0, p, w))"

definition ma35_otg_role_switch_exit :: "ma35_otg_phy \<Rightarrow> ma35_otg_phy" where
  "ma35_otg_role_switch_exit p = (if role_sw p = None then p else p\<lparr>role_sw := None\<rparr>)"

text \<open>The device tree and the outcomes of calls, 0 for success; \<open>sys_arg\<close> is the argument of the phandle.\<close>

record otg_phy_env =
  otg_kzalloc :: bool
  otg_syscon :: "int + u32"
  otg_clk_get :: "int + clk"
  otg_rcalcode :: "u32 option"
  otg_oc_active_high :: bool
  otg_phy_create :: int
  otg_provider_register :: int
  otg_role_register :: int

definition ma35_otg_phy_setup :: "'w regmap_api \<Rightarrow> otg_phy_env \<Rightarrow> ma35_otg_phy \<Rightarrow> 'w \<Rightarrow> 'w" where
  "ma35_otg_phy_setup rm env p w =
     (let n = unat (phy_idx p);
          w = (case otg_rcalcode env of
                 Some rcalcode \<Rightarrow> regmap_update_bits rm w MA35_SYS_USBPMISCR (USBPMISCR_RCAL_MASK n)
                                  (push_bit (USBPMISCR_RCAL_SHIFT n) rcalcode)
               | None \<Rightarrow> w)
      in if otg_oc_active_high env then regmap_update_bits rm w MA35_SYS_MISCFCR0 MISCFCR0_UHOVRCURH MISCFCR0_UHOVRCURH else w)"

definition ma35_otg_phy_probe :: "'w regmap_api \<Rightarrow> otg_phy_env \<Rightarrow> 'w \<Rightarrow> int \<times> ma35_otg_phy option \<times> 'w" where
  "ma35_otg_phy_probe rm env w =
     (if \<not> otg_kzalloc env then (- ENOMEM, None, w)
      else case otg_syscon env of
        Inl e \<Rightarrow> (e, None, w)
      | Inr sys_arg \<Rightarrow>
        if sys_arg > 1 then (- EINVAL, None, w)
        else case otg_clk_get env of
          Inl e \<Rightarrow> (e, None, w)
        | Inr c \<Rightarrow>
          if (case otg_rcalcode env of Some rcalcode \<Rightarrow> rcalcode > 15 | None \<Rightarrow> False) then (- EINVAL, None, w)
          else
            let p = \<lparr>otg_clk = c, phy_idx = sys_arg, role_sw = None, cur_role = USB_ROLE_NONE\<rparr>;
                w = ma35_otg_phy_setup rm env p w
            in if otg_phy_create env \<noteq> 0 then (otg_phy_create env, None, w)
               else if otg_provider_register env \<noteq> 0 then (otg_provider_register env, None, w)
               else if phy_idx p = 0 then
                 let (ret, p, w) = ma35_otg_role_switch_init rm (otg_role_register env) p w
                 in if ret \<noteq> 0 then (ret, None, w) else (0, Some p, w)
               else (0, Some p, w))"

definition ma35_otg_phy_remove :: "ma35_otg_phy \<Rightarrow> ma35_otg_phy" where
  "ma35_otg_phy_remove p = ma35_otg_role_switch_exit p"

section \<open>The shared register\<close>

text \<open>
  What the drivers rely on beyond \<open>board_laws\<close>: reading the register changes nothing, and while it is polled only the status
  bits (clock stable, of both PHYs) change; the value a poll returns is the register's.
\<close>

definition usb_status_bit :: "nat \<Rightarrow> bool" where
  "usb_status_bit b \<longleftrightarrow> b \<in> {8, 9, 10, 24, 25, 26}"

lemma ctl_mask_bit: "bit (USBPMISCR_PHY_CTL_MASK n) b \<longleftrightarrow> n * 16 \<le> b \<and> b < n * 16 + 3 \<and> b < 32"
proof -
  have m7: "(7 :: u32) = mask 3" by (simp add: mask_eq_exp_minus_1)
  show ?thesis unfolding USBPMISCR_PHY_CTL_MASK_def bit_push_bit_iff m7 bit_mask_iff by auto
qed

text \<open>
  Both host drivers bring their PHY up the same way, up to the mask of the bits they write: skip when it is operational, else
  reset it and wait for its clocks.
\<close>

definition host_bring_up :: "'w regmap_api \<Rightarrow> nat \<Rightarrow> u32 \<Rightarrow> 'w \<Rightarrow> int \<times> 'w" where
  "host_bring_up rm n m w =
     (let ready = USBPMISCR_PHY_HOST_READY n;
          (val, w) = regmap_read rm w MA35_SYS_USBPMISCR
      in if val AND ready = ready then (0, w)
         else
           let w = regmap_update_bits rm w MA35_SYS_USBPMISCR m (USBPMISCR_PHY_POR n OR USBPMISCR_PHY_SUSPEND n);
               w = regmap_update_bits rm w MA35_SYS_USBPMISCR m (USBPMISCR_PHY_SUSPEND n);
               (ret, val, w) = regmap_read_poll_timeout rm w MA35_SYS_USBPMISCR (\<lambda>val. val AND ready = ready) 20000 500000
           in (ret, w))"

lemma otg_phy_init_bring_up:
  "ma35_otg_phy_init rm p w = host_bring_up rm (unat (phy_idx p)) (USBPMISCR_PHY_CTL_MASK (unat (phy_idx p))) w"
  by (auto simp: ma35_otg_phy_init_def host_bring_up_def Let_def split: prod.splits)

locale usb_sysreg = board_laws rm regs ck clk_count
  for rm :: "'w regmap_api" and regs and ck :: "'w clk_api" and clk_count +
  assumes sys_read: "regs (snd (regmap_read rm w MA35_SYS_USBPMISCR)) = regs w"
    and sys_poll: "regmap_read_poll_timeout rm w MA35_SYS_USBPMISCR c s t = (e, v, w') \<Longrightarrow>
      v = regs w' MA35_SYS_USBPMISCR \<and>
      (\<not> usb_status_bit b \<longrightarrow> bit (regs w' MA35_SYS_USBPMISCR) b = bit (regs w MA35_SYS_USBPMISCR) b)"
begin

text \<open>The reset sequence, with the control bits \<open>m\<close> of PHY \<open>n\<close> as its mask.\<close>

lemma reset_sequence:
  assumes n: "n \<le> 1" and m: "\<And>b. bit m b \<Longrightarrow> n * 16 \<le> b \<and> b < n * 16 + 3" "bit m (n * 16)" "bit m (Suc (n * 16))"
    and w1: "w1 = regmap_update_bits rm (regmap_update_bits rm w MA35_SYS_USBPMISCR m
        (USBPMISCR_PHY_POR n OR USBPMISCR_PHY_SUSPEND n)) MA35_SYS_USBPMISCR m (USBPMISCR_PHY_SUSPEND n)"
    and p: "regmap_read_poll_timeout rm w1 MA35_SYS_USBPMISCR c a t = (e, v, w')"
  shows "e = 0 \<Longrightarrow> c (regs w' MA35_SYS_USBPMISCR)"
    "\<not> bit (regs w' MA35_SYS_USBPMISCR) (n * 16) \<and> bit (regs w' MA35_SYS_USBPMISCR) (Suc (n * 16))"
    "\<not> usb_status_bit b \<Longrightarrow> b < n * 16 \<or> n * 16 + 3 \<le> b \<Longrightarrow>
       bit (regs w' MA35_SYS_USBPMISCR) b = bit (regs w MA35_SYS_USBPMISCR) b"
    "r \<noteq> MA35_SYS_USBPMISCR \<Longrightarrow> regs w' r = regs w r" "clk_count w' = clk_count w"
proof -
  have n01: "n = 0 \<or> n = 1" using n by auto
  note s = sys_poll [OF p]
  show "e = 0 \<Longrightarrow> c (regs w' MA35_SYS_USBPMISCR)"
    using poll_cond p s by auto
  have r1: "regs w1 MA35_SYS_USBPMISCR = (regs w MA35_SYS_USBPMISCR AND NOT m) OR (USBPMISCR_PHY_SUSPEND n AND m)"
    unfolding w1 regs_update_bits by (rule bit_word_eqI) (auto simp: regfield)
  have "\<not> usb_status_bit (n * 16)" "\<not> usb_status_bit (Suc (n * 16))" using n01 by (auto simp: usb_status_bit_def)
  then show "\<not> bit (regs w' MA35_SYS_USBPMISCR) (n * 16) \<and> bit (regs w' MA35_SYS_USBPMISCR) (Suc (n * 16))"
    using s m(2,3) n01 by (auto simp: r1 usb_field bit_or_iff bit_and_iff bit_not_iff bit_BIT)
  show "bit (regs w' MA35_SYS_USBPMISCR) b = bit (regs w MA35_SYS_USBPMISCR) b"
    if "\<not> usb_status_bit b" "b < n * 16 \<or> n * 16 + 3 \<le> b"
  proof -
    have "\<not> bit m b" using m(1) [of b] that(2) by auto
    then show ?thesis using s that(1) by (auto simp: r1 bit_or_iff bit_and_iff bit_not_iff dest: bit_imp_le_length)
  qed
  show "r \<noteq> MA35_SYS_USBPMISCR \<Longrightarrow> regs w' r = regs w r"
    using poll_frame [OF p] by (simp add: w1 regs_update_bits)
  show "clk_count w' = clk_count w"
  proof -
    have "clk_count w' = clk_count w1" using poll_clk [of w1 MA35_SYS_USBPMISCR _ a t] by (metis p snd_conv)
    then show ?thesis by (simp add: w1 update_bits_clk)
  qed
qed

lemma bring_up:
  assumes n: "n \<le> 1" and m: "\<And>b. bit m b \<Longrightarrow> n * 16 \<le> b \<and> b < n * 16 + 3" "bit m (n * 16)" "bit m (Suc (n * 16))"
    and up: "host_bring_up rm n m w = (ret, w')"
  defines "R \<equiv> MA35_SYS_USBPMISCR"
  shows "ret = 0 \<Longrightarrow> regs w' R AND USBPMISCR_PHY_HOST_READY n = USBPMISCR_PHY_HOST_READY n"
    "\<not> usb_status_bit b \<Longrightarrow> b < n * 16 \<or> n * 16 + 3 \<le> b \<Longrightarrow> bit (regs w' R) b = bit (regs w R) b"
    "r \<noteq> R \<Longrightarrow> regs w' r = regs w r" "clk_count w' = clk_count w"
    "regs w R AND USBPMISCR_PHY_HOST_READY n = USBPMISCR_PHY_HOST_READY n \<Longrightarrow> ret = 0 \<and> regs w' = regs w"
proof -
  let ?ready = "USBPMISCR_PHY_HOST_READY n"
  obtain val w0 where r: "regmap_read rm w R = (val, w0)" by (cases "regmap_read rm w R")
  have v: "val = regs w R" "regs w0 = regs w" "clk_count w0 = clk_count w"
    using r read_value [of w R] sys_read [of w] read_clk [of w R] by (simp_all add: R_def)
  let ?w1 = "regmap_update_bits rm (regmap_update_bits rm w0 R m (USBPMISCR_PHY_POR n OR USBPMISCR_PHY_SUSPEND n)) R m
    (USBPMISCR_PHY_SUSPEND n)"
  obtain e v2 w2 where p: "regmap_read_poll_timeout rm ?w1 R (\<lambda>v. v AND ?ready = ?ready) 20000 500000 = (e, v2, w2)"
    by (cases "regmap_read_poll_timeout rm ?w1 R (\<lambda>v. v AND ?ready = ?ready) 20000 500000")
  note s = reset_sequence [OF n m refl p [unfolded R_def], folded R_def, unfolded v(2,3)]
  have d: "(ret, w') = (if regs w R AND ?ready = ?ready then (0, w0) else (e, w2))"
    using up r p v(1) by (auto simp: host_bring_up_def R_def Let_def split: if_splits)
  show "ret = 0 \<Longrightarrow> regs w' R AND ?ready = ?ready" using d s(1) v(2) by (auto split: if_splits)
  show "\<not> usb_status_bit b \<Longrightarrow> b < n * 16 \<or> n * 16 + 3 \<le> b \<Longrightarrow> bit (regs w' R) b = bit (regs w R) b"
    using d s(3) [of b] v(2) by (simp split: if_splits)
  show "r \<noteq> R \<Longrightarrow> regs w' r = regs w r" using d s(4) [of r] v(2) by (auto split: if_splits)
  show "clk_count w' = clk_count w" using d s(5) v(3) by (auto split: if_splits)
  show "regs w R AND ?ready = ?ready \<Longrightarrow> ret = 0 \<and> regs w' = regs w" using d v(2) by (auto split: if_splits)
qed

lemma otg_phy_init:
  assumes "unat (phy_idx p) \<le> 1" "ma35_otg_phy_init rm p w = (ret, w')"
  defines "n \<equiv> unat (phy_idx p)" and "R \<equiv> MA35_SYS_USBPMISCR"
  shows "ret = 0 \<Longrightarrow> regs w' R AND USBPMISCR_PHY_HOST_READY n = USBPMISCR_PHY_HOST_READY n"
    "\<not> usb_status_bit b \<Longrightarrow> b < n * 16 \<or> n * 16 + 3 \<le> b \<Longrightarrow> bit (regs w' R) b = bit (regs w R) b"
    "r \<noteq> R \<Longrightarrow> regs w' r = regs w r" "clk_count w' = clk_count w"
    "regs w R AND USBPMISCR_PHY_HOST_READY n = USBPMISCR_PHY_HOST_READY n \<Longrightarrow> ret = 0 \<and> regs w' = regs w"
proof -
  have m: "n * 16 \<le> b \<and> b < n * 16 + 3" if "bit (USBPMISCR_PHY_CTL_MASK n) b" for b
    using that by (simp add: ctl_mask_bit)
  have m': "bit (USBPMISCR_PHY_CTL_MASK n) (n * 16)" "bit (USBPMISCR_PHY_CTL_MASK n) (Suc (n * 16))"
    using assms(1) n_def by (auto simp: ctl_mask_bit)
  note up = bring_up [OF assms(1) [folded n_def] m m' assms(2) [unfolded otg_phy_init_bring_up, folded n_def], folded R_def]
  show "ret = 0 \<Longrightarrow> regs w' R AND USBPMISCR_PHY_HOST_READY n = USBPMISCR_PHY_HOST_READY n"
    "\<not> usb_status_bit b \<Longrightarrow> b < n * 16 \<or> n * 16 + 3 \<le> b \<Longrightarrow> bit (regs w' R) b = bit (regs w R) b"
    "r \<noteq> R \<Longrightarrow> regs w' r = regs w r" "clk_count w' = clk_count w"
    "regs w R AND USBPMISCR_PHY_HOST_READY n = USBPMISCR_PHY_HOST_READY n \<Longrightarrow> ret = 0 \<and> regs w' = regs w"
    by (rule up; assumption)+
qed

text \<open>Powering the gadget PHY on takes one use of its clock exactly when it succeeds.\<close>

lemma usb_phy_power_on_clk:
  assumes "ma35_usb_phy_power_on rm ck c w = (ret, w')" "\<And>w. fst (clk_prepare_enable ck w c) \<le> 0"
  shows "clk_count w' = (if ret = 0 then (clk_count w)(c := Suc (clk_count w c)) else clk_count w)"
proof -
  obtain e w1 where 1: "clk_prepare_enable ck w c = (e, w1)" by (cases "clk_prepare_enable ck w c")
  have e: "e \<le> 0" using assms(2) [of w] 1 by simp
  have poll: "clk_count w3 = clk_count w2"
    if "regmap_read_poll_timeout rm w2 R q s t = (x, v, w3)" for w2 w3 R q s t x v
    using that poll_clk [of w2 R q s t] by simp
  show ?thesis
  proof (cases "e < 0")
    case True
    then show ?thesis using assms(1) 1 enable_fail [OF 1] by (auto simp: ma35_usb_phy_power_on_def)
  next
    case False
    then have c1: "clk_count w1 = (clk_count w)(c := Suc (clk_count w c))" using e enable_ok [of w c w1] 1 by simp
    have r: "clk_count (snd (regmap_read rm w1 r)) = clk_count w1" for r by (rule read_clk)
    show ?thesis
      using assms(1) 1 False c1 r [of MA35_SYS_REG_USBPMISCR]
      by (auto simp: ma35_usb_phy_power_on_def Let_def update_bits_clk disable ETIMEDOUT_def dest!: poll split: prod.splits if_splits)
  qed
qed

text \<open>
  A gadget PHY that is on is operational with a stable clock, and powering it on changes nothing of the other PHY; the
  register is reached through the gadget driver's own names for it.
\<close>

lemma usb_phy_power_on_ready:
  assumes "ma35_usb_phy_power_on rm ck c w = (0, w')"
  shows "bit (regs w' MA35_SYS_USBPMISCR) 10 \<and> bit (regs w' MA35_SYS_USBPMISCR) 1 \<and>
    (\<forall>b \<ge> 3. \<not> usb_status_bit b \<longrightarrow> bit (regs w' MA35_SYS_USBPMISCR) b = bit (regs w MA35_SYS_USBPMISCR) b)"
proof -
  let ?R = MA35_SYS_USBPMISCR and ?c = "\<lambda>v. v AND PHY0DEVCKSTB \<noteq> 0"
  have R: "MA35_SYS_REG_USBPMISCR = ?R" "PHY0POR = USBPMISCR_PHY_POR 0" "PHY0SUSPEND = USBPMISCR_PHY_SUSPEND 0"
    "0x7 = USBPMISCR_PHY_CTL_MASK 0" "PHY0DEVCKSTB = BIT 10"
    by (simp_all add: MA35_SYS_REG_USBPMISCR_def usb_addr PHY0POR_def PHY0SUSPEND_def usb_field PHY0DEVCKSTB_def)
  have dev: "bit v 10" if "?c v" for v using that by (simp add: R(5) and_BIT_iff)
  obtain e w1 val w2 where 1: "clk_prepare_enable ck w c = (e, w1)" and 2: "regmap_read rm w1 ?R = (val, w2)"
    by (meson surj_pair)
  have e: "\<not> e < 0" using assms 1 by (auto simp: ma35_usb_phy_power_on_def)
  have v: "val = regs w ?R" "regs w2 ?R = regs w ?R"
    using 1 2 enable_regs [of w c] read_value [of w1 ?R] sys_read [of w1] by simp_all
  define reset where "reset w3 = regmap_update_bits rm (regmap_update_bits rm w3 ?R (USBPMISCR_PHY_CTL_MASK 0)
      (USBPMISCR_PHY_POR 0 OR USBPMISCR_PHY_SUSPEND 0)) ?R (USBPMISCR_PHY_CTL_MASK 0) (USBPMISCR_PHY_SUSPEND 0)" for w3
  have after: ?thesis if r: "\<forall>b. \<not> usb_status_bit b \<longrightarrow> bit (regs w3 ?R) b = bit (regs w ?R) b"
      and p: "regmap_read_poll_timeout rm (reset w3) ?R ?c 10 1000 = (0, x, w')" for w3 x
    using reset_sequence [OF _ _ _ _ refl p [unfolded reset_def], simplified] dev r by (simp add: ctl_mask_bit)
  have last: "\<exists>x. regmap_read_poll_timeout rm (reset w3) ?R ?c 10 1000 = (0, x, w')"
    if "(case regmap_read_poll_timeout rm (reset w3) ?R ?c 10 1000 of
        (ret, val, w) \<Rightarrow> if ret = - ETIMEDOUT then (ret, clk_disable_unprepare ck w c) else (0, w)) = (0, w')" for w3
    using that poll_ret [of "reset w3" ?R ?c 10 1000] by (auto simp: ETIMEDOUT_def split: prod.splits if_splits)
  note body = assms [unfolded ma35_usb_phy_power_on_def Let_def R(1-4) 1 2 split if_not_P [OF e], folded reset_def]
  show ?thesis
  proof (cases "val AND USBPMISCR_PHY_SUSPEND 0 \<noteq> 0")
    case False
    then show ?thesis using body last [of w2] after [of w2] v by auto
  next
    case True
    obtain x y w3 where p: "regmap_read_poll_timeout rm w2 ?R ?c 10 1000 = (x, y, w3)"
      by (cases "regmap_read_poll_timeout rm w2 ?R ?c 10 1000")
    note s = sys_poll [OF p, unfolded v(2)]
    show ?thesis
    proof (cases "x = 0")
      case True
      have "bit (regs w ?R) 1" using \<open>val AND USBPMISCR_PHY_SUSPEND 0 \<noteq> 0\<close> v(1) by (simp add: usb_field and_BIT_iff)
      moreover have "w' = w3" using body \<open>val AND USBPMISCR_PHY_SUSPEND 0 \<noteq> 0\<close> p True by simp
      moreover have "bit y 10" using dev poll_cond [of w2 ?R ?c 10 1000 y w3] p True by simp
      ultimately show ?thesis using s by (auto simp: usb_status_bit_def)
    next
      case False
      then show ?thesis using body \<open>val AND USBPMISCR_PHY_SUSPEND 0 \<noteq> 0\<close> p last [of w3] after [of w3] s by auto
    qed
  qed
qed

text \<open>The probe writes its trim code into the field of its PHY and the polarity bit, and nothing else.\<close>

lemma otg_phy_setup:
  "regs (ma35_otg_phy_setup rm env p w) = (regs w)(
     MA35_SYS_USBPMISCR := (case otg_rcalcode env of
        Some code \<Rightarrow> (regs w MA35_SYS_USBPMISCR AND NOT (USBPMISCR_RCAL_MASK (unat (phy_idx p)))) OR
          (push_bit (USBPMISCR_RCAL_SHIFT (unat (phy_idx p))) code AND USBPMISCR_RCAL_MASK (unat (phy_idx p)))
      | None \<Rightarrow> regs w MA35_SYS_USBPMISCR),
     MA35_SYS_MISCFCR0 := (if otg_oc_active_high env then regs w MA35_SYS_MISCFCR0 OR MISCFCR0_UHOVRCURH
        else regs w MA35_SYS_MISCFCR0))"
  "clk_count (ma35_otg_phy_setup rm env p w) = clk_count w"
proof -
  have "(r AND NOT b) OR (b AND b) = r OR b" for r b :: u32
    by (rule bit_word_eqI) (auto simp: bit_or_iff bit_and_iff bit_not_iff)
  then show "regs (ma35_otg_phy_setup rm env p w) = (regs w)(
     MA35_SYS_USBPMISCR := (case otg_rcalcode env of
        Some code \<Rightarrow> (regs w MA35_SYS_USBPMISCR AND NOT (USBPMISCR_RCAL_MASK (unat (phy_idx p)))) OR
          (push_bit (USBPMISCR_RCAL_SHIFT (unat (phy_idx p))) code AND USBPMISCR_RCAL_MASK (unat (phy_idx p)))
      | None \<Rightarrow> regs w MA35_SYS_USBPMISCR),
     MA35_SYS_MISCFCR0 := (if otg_oc_active_high env then regs w MA35_SYS_MISCFCR0 OR MISCFCR0_UHOVRCURH
        else regs w MA35_SYS_MISCFCR0))"
    by (auto simp: ma35_otg_phy_setup_def Let_def regs_update_bits fun_eq_iff usb_addr split: option.splits)
  show "clk_count (ma35_otg_phy_setup rm env p w) = clk_count w"
    by (auto simp: ma35_otg_phy_setup_def Let_def update_bits_clk split: option.splits)
qed

lemma otg_read_id:
  "r \<noteq> MA35_SYS_PWRONOTP \<Longrightarrow> regs (snd (ma35_otg_read_id rm w)) r = regs w r"
  "clk_count (snd (ma35_otg_read_id rm w)) = clk_count w"
  using read_frame [of r MA35_SYS_PWRONOTP w] read_clk [of w MA35_SYS_PWRONOTP]
  by (auto simp: ma35_otg_read_id_def split: prod.splits)

lemma otg_phy_probe:
  assumes "ma35_otg_phy_probe rm env w = (0, Some p, w')"
  shows "unat (phy_idx p) \<le> 1" "case otg_rcalcode env of Some code \<Rightarrow> code \<le> 15 | None \<Rightarrow> True"
    "r \<noteq> MA35_SYS_PWRONOTP \<Longrightarrow> regs w' r = regs (ma35_otg_phy_setup rm env p w) r" "clk_count w' = clk_count w"
    "otg_syscon env = Inr (phy_idx p)"
proof -
  obtain n where n: "otg_syscon env = Inr n" "n \<le> 1"
    using assms by (cases "otg_syscon env") (auto simp: ma35_otg_phy_probe_def split: if_splits)
  obtain c where c: "otg_clk_get env = Inr c"
    using assms n by (cases "otg_clk_get env") (auto simp: ma35_otg_phy_probe_def split: if_splits)
  let ?p = "\<lparr>otg_clk = c, phy_idx = n, role_sw = None, cur_role = USB_ROLE_NONE\<rparr>"
  let ?w = "ma35_otg_phy_setup rm env ?p w"
  have code: "\<not> (case otg_rcalcode env of Some code \<Rightarrow> code > 15 | None \<Rightarrow> False)"
    using assms n c by (auto simp: ma35_otg_phy_probe_def split: if_splits)
  then show "case otg_rcalcode env of Some code \<Rightarrow> code \<le> 15 | None \<Rightarrow> True" by (auto split: option.splits)
  have idx: "phy_idx p = n" "w' = (if n = 0 then snd (ma35_otg_read_id rm ?w) else ?w)"
    using assms n c code
    by (auto simp: ma35_otg_phy_probe_def ma35_otg_role_switch_init_def Let_def split: if_splits prod.splits)
  have "ma35_otg_phy_setup rm env p w = ?w" by (simp add: ma35_otg_phy_setup_def idx)
  then show "r \<noteq> MA35_SYS_PWRONOTP \<Longrightarrow> regs w' r = regs (ma35_otg_phy_setup rm env p w) r"
    using idx(2) by (simp add: otg_read_id(1))
  show "clk_count w' = clk_count w" using idx(2) by (simp add: otg_read_id(2) otg_phy_setup(2))
  show "otg_syscon env = Inr (phy_idx p)" using n idx by simp
  show "unat (phy_idx p) \<le> 1" using n(2) idx(1) word_le_nat_alt [of n 1] by simp
qed

end

text \<open>
  A machine with this behaviour: the board with the register \<open>USBPMISCR\<close> not cleared by reads and with status bits that come
  up only where the hardware has them.
\<close>

definition usb_status_mask :: u32 where "usb_status_mask = (GENMASK 10 8 OR GENMASK 26 24)"

definition usb_regmap :: "board regmap_api" where
  "usb_regmap = board_regmap\<lparr>
     regmap_read := (\<lambda>w r. (bd_regs w r, if r \<noteq> MA35_SYS_USBPMISCR \<and> r \<in> bd_clear_on_read w then bd_set w r 0 else w)),
     regmap_read_poll_timeout := (\<lambda>w r c s t.
        let v = bd_regs w r OR (if r = MA35_SYS_USBPMISCR then bd_poll_or w r AND usb_status_mask else bd_poll_or w r);
            w' = bd_set w r v
        in if c v then (0, v, w') else (- ETIMEDOUT, v, w'))\<rparr>"

lemma usb_status_mask_bit: "bit usb_status_mask b \<longleftrightarrow> usb_status_bit b"
proof -
  have "8 \<le> b \<and> b \<le> 10 \<longleftrightarrow> b \<in> {8, 9, 10}" "24 \<le> b \<and> b \<le> 26 \<longleftrightarrow> b \<in> {24, 25, 26}" by auto
  then show ?thesis by (auto simp: usb_status_mask_def bit_or_iff bit_GENMASK usb_status_bit_def)
qed

interpretation usb: usb_sysreg usb_regmap bd_regs board_clk bd_clk
  by unfold_locales
    (auto simp: usb_regmap_def board_regmap_def board_clk_def bd_set_def Let_def ETIMEDOUT_def bit_or_iff bit_and_iff
      usb_status_mask_bit split: if_splits)

text \<open>C39: Bringing up one USB PHY does not disturb the other. When the probe of PHY \<open>n\<close> and its initialisation succeed,
  whatever the state of the shared register, PHY \<open>n\<close> is operational with stable clocks, its trim field holds the code of the
  device tree (or its former value without one), the control and trim bits of the other PHY are as before, the over-current
  polarity is set exactly when the board asks for it, no other register than the ID register is touched and no clock is taken;
  and a PHY that was operational before, such as one the gadget driver brought up, is not reset: its control bits keep their
  values.\<close>

theorem ma35_otg_phy_isolated:
  assumes us: "usb_sysreg rm regs ck clk_count"
    and probe: "ma35_otg_phy_probe rm env w = (0, Some p, w1)" and init: "ma35_otg_phy_init rm p w1 = (0, w2)"
  defines "n \<equiv> unat (phy_idx p)" and "R \<equiv> MA35_SYS_USBPMISCR"
  shows "n \<le> 1 \<and> regs w2 R AND USBPMISCR_PHY_HOST_READY n = USBPMISCR_PHY_HOST_READY n \<and>
    FIELD_GET (USBPMISCR_RCAL_MASK n) (regs w2 R) =
      (case otg_rcalcode env of Some code \<Rightarrow> code | None \<Rightarrow> FIELD_GET (USBPMISCR_RCAL_MASK n) (regs w R)) \<and>
    (\<forall>b. (b < n * 16 \<or> n * 16 + 16 \<le> b) \<and> \<not> usb_status_bit b \<longrightarrow> bit (regs w2 R) b = bit (regs w R) b) \<and>
    regs w2 MA35_SYS_MISCFCR0 =
      (if otg_oc_active_high env then regs w MA35_SYS_MISCFCR0 OR MISCFCR0_UHOVRCURH else regs w MA35_SYS_MISCFCR0) \<and>
    (\<forall>r. r \<notin> {R, MA35_SYS_MISCFCR0, MA35_SYS_PWRONOTP} \<longrightarrow> regs w2 r = regs w r) \<and>
    clk_count w2 = clk_count w \<and>
    (regs w R AND USBPMISCR_PHY_HOST_READY n = USBPMISCR_PHY_HOST_READY n \<longrightarrow>
      regs w2 R AND USBPMISCR_PHY_CTL_MASK n = regs w R AND USBPMISCR_PHY_CTL_MASK n)"
proof -
  let ?k = "USBPMISCR_RCAL_MASK n" and ?ready = "USBPMISCR_PHY_HOST_READY n" and ?ctl = "USBPMISCR_PHY_CTL_MASK n"
  note pr = usb_sysreg.otg_phy_probe [OF us probe, folded n_def]
    and s = usb_sysreg.otg_phy_setup [OF us, of env p w, folded n_def]
  note i = usb_sysreg.otg_phy_init [OF us pr(1) [unfolded n_def] init, folded n_def R_def]
  have n01: "n = 0 \<or> n = 1" using pr(1) by auto
  have km: "bit ?k b \<longleftrightarrow> 12 + n * 16 \<le> b \<and> b \<le> 15 + n * 16" for b
    using n01 by (auto simp: usb_field bit_GENMASK)
  have r1: "bit (regs w1 R) b = bit (regs w R) b" if "\<not> bit ?k b" for b
    using that pr(3) [of R] s(1)
    by (auto simp: R_def usb_addr bit_or_iff bit_and_iff bit_not_iff split: option.splits dest: bit_imp_le_length)
  have keep: "bit (regs w2 R) b = bit (regs w1 R) b" if "b < n * 16 \<or> n * 16 + 3 \<le> b" "\<not> usb_status_bit b" for b
    using i(2) [OF that(2,1)] .
  have code: "FIELD_GET ?k (regs w2 R) = FIELD_GET ?k (regs w1 R)"
  proof (rule bit_word_eqI)
    fix b
    have "\<not> usb_status_bit (12 + n * 16 + b)" if "b \<le> 3"
      using that n01 by (auto simp: usb_status_bit_def)
    then show "bit (FIELD_GET ?k (regs w2 R)) b = bit (FIELD_GET ?k (regs w1 R)) b"
      using keep [of "12 + n * 16 + b"] n01 by (auto simp: usb_field bit_FIELD_GET add.commute)
  qed
  have code1: "FIELD_GET ?k (regs w1 R) =
      (case otg_rcalcode env of Some c \<Rightarrow> c | None \<Rightarrow> FIELD_GET ?k (regs w R))"
  proof (cases "otg_rcalcode env")
    case None
    then show ?thesis using pr(3) [of R] s(1) by (simp add: R_def usb_addr)
  next
    case (Some c)
    then have "unat c < 2 ^ 4" using pr(2) word_le_nat_alt [of c 15] by simp
    then have "take_bit 4 c = c" by (rule take_bit_u32_small)
    moreover have "FIELD_GET ?k (regs w1 R) = take_bit (Suc (15 + n * 16) - (12 + n * 16)) c"
      using Some pr(3) [of R] s(1) FIELD_GET_update [of "12 + n * 16" "15 + n * 16" "regs w R" c] n01
      by (auto simp: R_def usb_addr usb_field)
    ultimately show ?thesis using Some by simp
  qed
  have ctl: "regs w2 R AND ?ctl = regs w R AND ?ctl" if "regs w R AND ?ready = ?ready"
  proof -
    have "\<not> bit ?k b" if "bit ?ready b \<or> bit ?ctl b" for b
      using that ctl_mask_bit [of n b] n01 by (auto simp: usb_field bit_or_iff bit_BIT bit_GENMASK)
    then have r: "regs w1 R AND ?ready = regs w R AND ?ready" "regs w1 R AND ?ctl = regs w R AND ?ctl"
      using r1 by (auto intro!: bit_word_eqI simp: bit_and_iff)
    then show ?thesis using i(5) that by simp
  qed
  have "\<forall>b. (b < n * 16 \<or> n * 16 + 16 \<le> b) \<and> \<not> usb_status_bit b \<longrightarrow> bit (regs w2 R) b = bit (regs w R) b"
    using keep r1 km by auto
  moreover have "regs w2 r = regs w1 r" "r \<noteq> MA35_SYS_PWRONOTP \<Longrightarrow> regs w1 r = regs (ma35_otg_phy_setup rm env p w) r"
    if "r \<noteq> R" for r using i(3) [OF that] pr(3) [of r] by auto
  moreover have "clk_count w2 = clk_count w" using i(4) pr(4) by simp
  ultimately show ?thesis using pr(1) i(1) code code1 ctl s(1) by (simp add: R_def usb_addr)
qed

text \<open>What \<open>ma35_otg_role_sw_set\<close> records is not what \<open>ma35_otg_role_sw_get\<close> reports: the role read back is the ID pin's.\<close>

lemma ma35_otg_role_get_ignores_set:
  "ma35_otg_role_sw_set p role = (0, p') \<Longrightarrow> ma35_otg_role_sw_get rm p' w = ma35_otg_role_sw_get rm p w"
  by (simp add: ma35_otg_role_sw_get_def)

text \<open>A gadget PHY probe that fails after it has looked up the clock keeps the reference.\<close>

lemma ma35_usb_phy_probe_keeps_clock:
  assumes "ma35_usb_phy_probe env = (e, held)" "phy_kzalloc env" "syscon_lookup env = 0" "of_clk_get env = 0"
  shows "held" and "devm_phy_create env \<noteq> 0 \<Longrightarrow> e = devm_phy_create env"
  using assms by (auto simp: ma35_usb_phy_probe_def split: if_splits)

text \<open>PHY 1 comes up next to a PHY 0 that runs with trim code 1.\<close>

definition otg_env_1 :: otg_phy_env where
  "otg_env_1 = \<lparr>otg_kzalloc = True, otg_syscon = Inr 1, otg_clk_get = Inr 3, otg_rcalcode = Some 9, otg_oc_active_high = True,
     otg_phy_create = 0, otg_provider_register = 0, otg_role_register = 0\<rparr>"

definition otg_board_1 :: board where
  "otg_board_1 = board_init\<lparr>bd_regs := (\<lambda>_. 0)(0x60 := 0x1702), bd_poll_or := (\<lambda>_. 0x03000000)\<rparr>"

theorem ma35_otg_phy_isolated_witness:
  "(case ma35_otg_phy_probe usb_regmap otg_env_1 otg_board_1 of (ret, p, w1) \<Rightarrow> ret = 0 \<and>
     (case ma35_otg_phy_init usb_regmap (the p) w1 of (ret, w2) \<Rightarrow> ret = 0 \<and>
       FIELD_GET (USBPMISCR_RCAL_MASK 1) (bd_regs w2 MA35_SYS_USBPMISCR) = 9 \<and> bit (bd_regs w2 MA35_SYS_USBPMISCR) 12 \<and>
       bd_regs w2 MA35_SYS_MISCFCR0 = MISCFCR0_UHOVRCURH \<and> bd_clk w2 = bd_clk otg_board_1))"
proof -
  let ?p = "\<lparr>otg_clk = 3, phy_idx = 1, role_sw = None, cur_role = USB_ROLE_NONE\<rparr>"
  obtain w1 where p: "ma35_otg_phy_probe usb_regmap otg_env_1 otg_board_1 = (0, Some ?p, w1)"
    "bd_regs w1 MA35_SYS_USBPMISCR = 0x90001702" "bd_poll_or w1 = (\<lambda>_. 0x03000000)"
    by (simp add: ma35_otg_phy_probe_def ma35_otg_phy_setup_def usb_regmap_def board_eval otg_env_1_def otg_board_1_def
      usb_addr usb_field GENMASK_def mask_eq_exp_minus_1 push_bit_eq_mult)
  obtain w2 where i: "ma35_otg_phy_init usb_regmap ?p w1 = (0, w2)"
    using p(2,3) by (simp add: ma35_otg_phy_init_def usb_regmap_def board_eval usb_addr usb_field BIT_def usb_status_mask_def
      GENMASK_def mask_eq_exp_minus_1 push_bit_eq_mult Let_def)
  show ?thesis
    using ma35_otg_phy_isolated [OF usb.usb_sysreg_axioms p(1) i] p(1) i
    by (simp add: otg_env_1_def otg_board_1_def usb_status_bit_def board_init_def usb_addr)
qed

end
