(* ===== verification/Ma35_Usb.thy ===== *)
theory Ma35_Usb
  imports Ma35_Phy
begin

text \<open>
  The USB host controllers of the MA35: the platform glue of the EHCI controllers (\<open>usb/host/ehci-ma35.c\<close>), which brings up
  its PHY itself, and of the OHCI controllers (\<open>usb/host/ohci-ma35.c\<close>). What both owe the rest of the system is the locale
  \<open>hcd_glue\<close>, the balance of clock uses and of references to the \<open>usb_hcd\<close> through probe, suspend, resume and remove;
  \<open>hcd_run\<close> is the life of a bound device under the power management core. The controllers themselves (\<open>ehci-hcd.c\<close>,
  \<open>ohci-hcd.c\<close>) and the USB core are given by the outcomes of the calls.
\<close>

section \<open>State\<close>

text \<open>The machine, the references to the \<open>usb_hcd\<close>, whether it is added to the bus and may wake the system.\<close>

record 'w usb_sys =
  usb_board :: 'w
  hcd_refs :: nat
  hcd_added :: bool
  hcd_wakeup :: bool

definition usb_create_hcd :: "'w usb_sys \<Rightarrow> 'w usb_sys" where
  "usb_create_hcd s = s\<lparr>hcd_refs := Suc (hcd_refs s)\<rparr>"

definition usb_put_hcd :: "'w usb_sys \<Rightarrow> 'w usb_sys" where
  "usb_put_hcd s = s\<lparr>hcd_refs := hcd_refs s - 1\<rparr>"

definition usb_remove_hcd :: "'w usb_sys \<Rightarrow> 'w usb_sys" where
  "usb_remove_hcd s = s\<lparr>hcd_added := False\<rparr>"

text \<open>The outcomes of the calls, 0 for success, and the device tree.\<close>

record hcd_env =
  usb_disabled :: bool
  platform_get_irq :: int
  dma_coerce_mask :: int
  hcd_alloc :: bool
  hcd_clk_get :: "int + clk"
  of_parse_sys :: "int + u32"
  syscon_node_to_regmap :: int
  oc_level :: "u32 option"
  rcalcode :: "u32 option"
  ioremap_resource :: int
  usb_add_hcd :: int

text \<open>An error is not 0: neither an error pointer nor the result of a failed call.\<close>

definition error_values :: "hcd_env \<Rightarrow> bool" where
  "error_values env \<longleftrightarrow> hcd_clk_get env \<noteq> Inl 0 \<and> of_parse_sys env \<noteq> Inl 0"

section \<open>EHCI\<close>

record ma35_ehci_priv =
  ehci_clk :: clk
  oc_active_level :: u32
  ehci_phy_idx :: u32

definition USBPMISCR_PHY_READY :: "nat \<Rightarrow> u32" where
  "USBPMISCR_PHY_READY n = USBPMISCR_PHY_SUSPEND n OR USBPMISCR_PHY_HSTCKSTB n OR USBPMISCR_PHY_CK12MSTB n"

definition ma35_ehci_phy_init :: "'w regmap_api \<Rightarrow> ma35_ehci_priv \<Rightarrow> 'w \<Rightarrow> int \<times> 'w" where
  "ma35_ehci_phy_init rm priv w =
     (let n = unat (ehci_phy_idx priv);
          ready = USBPMISCR_PHY_READY n;
          (reg, w) = regmap_read rm w MA35_SYS_USBPMISCR;
          (err, w) =
            (if reg AND ready = ready then (0, w)
             else
               let w = regmap_update_bits rm w MA35_SYS_USBPMISCR (USBPMISCR_PHY_POR n OR USBPMISCR_PHY_SUSPEND n)
                         (USBPMISCR_PHY_POR n OR USBPMISCR_PHY_SUSPEND n);
                   w = regmap_update_bits rm w MA35_SYS_USBPMISCR (USBPMISCR_PHY_POR n OR USBPMISCR_PHY_SUSPEND n)
                         (USBPMISCR_PHY_SUSPEND n);
                   (err, reg, w) = regmap_read_poll_timeout rm w MA35_SYS_USBPMISCR (\<lambda>reg. reg AND ready = ready) 20000 500000
               in (err, w))
      in if err \<noteq> 0 then (err, w)
         else (0, regmap_update_bits rm w MA35_SYS_MISCFCR0 MISCFCR0_UHOVRCURH
                    (if oc_active_level priv \<noteq> 0 then MISCFCR0_UHOVRCURH else 0)))"

text \<open>The trim code: the register is read, masked and written back.\<close>

definition ma35_ehci_set_rcal :: "'w regmap_api \<Rightarrow> nat \<Rightarrow> u32 \<Rightarrow> 'w \<Rightarrow> 'w" where
  "ma35_ehci_set_rcal rm n code w =
     (let (reg, w) = regmap_read rm w MA35_SYS_USBPMISCR
      in regmap_write rm w MA35_SYS_USBPMISCR
           ((reg AND USBPMISCR_RCAL_MASK n) OR push_bit (USBPMISCR_RCAL_SHIFT n) (code AND 0xf)))"

text \<open>The error exits \<open>err_clk\<close> and \<open>err_put_hcd\<close> of both probes.\<close>

definition err_put_hcd :: "int \<Rightarrow> 'w usb_sys \<Rightarrow> int \<times> 'p option \<times> 'w usb_sys" where
  "err_put_hcd err s = (err, None, usb_put_hcd s)"

definition err_clk :: "'w clk_api \<Rightarrow> clk \<Rightarrow> int \<Rightarrow> 'w usb_sys \<Rightarrow> int \<times> 'p option \<times> 'w usb_sys" where
  "err_clk ck c err s = err_put_hcd err (s\<lparr>usb_board := clk_disable_unprepare ck (usb_board s) c\<rparr>)"

text \<open>The end of both probes: map the registers, add the controller.\<close>

definition hcd_finish :: "'w clk_api \<Rightarrow> hcd_env \<Rightarrow> clk \<Rightarrow> 'p \<Rightarrow> 'w usb_sys \<Rightarrow> int \<times> 'p option \<times> 'w usb_sys" where
  "hcd_finish ck env c priv s =
     (if ioremap_resource env \<noteq> 0 then err_clk ck c (ioremap_resource env) s
      else if usb_add_hcd env \<noteq> 0 then err_clk ck c (usb_add_hcd env) s
      else (0, Some priv, s\<lparr>hcd_added := True, hcd_wakeup := True\<rparr>))"

text \<open>The middle of the EHCI probe: the PHY of this controller.\<close>

definition ma35_ehci_probe_phy :: "'w regmap_api \<Rightarrow> 'w clk_api \<Rightarrow> hcd_env \<Rightarrow> clk \<Rightarrow> 'w usb_sys \<Rightarrow>
    int \<times> ma35_ehci_priv option \<times> 'w usb_sys" where
  "ma35_ehci_probe_phy rm ck env c s =
     (case of_parse_sys env of
        Inl err \<Rightarrow> err_clk ck c err s
      | Inr idx \<Rightarrow>
        if syscon_node_to_regmap env \<noteq> 0 then err_clk ck c (syscon_node_to_regmap env) s
        else if idx > 1 then err_clk ck c (- EINVAL) s
        else
          let priv = \<lparr>ehci_clk = c, oc_active_level = (case oc_level env of Some l \<Rightarrow> l | None \<Rightarrow> 0), ehci_phy_idx = idx\<rparr>;
              w = (case rcalcode env of Some code \<Rightarrow> ma35_ehci_set_rcal rm (unat idx) code (usb_board s) | None \<Rightarrow> usb_board s);
              (err, w) = ma35_ehci_phy_init rm priv w;
              s = s\<lparr>usb_board := w\<rparr>
          in if err \<noteq> 0 then err_clk ck c err s else hcd_finish ck env c priv s)"

text \<open>The start of both probes: \<open>k\<close> is what follows the clock.\<close>

definition hcd_start :: "'w clk_api \<Rightarrow> hcd_env \<Rightarrow> (clk \<Rightarrow> 'w usb_sys \<Rightarrow> int \<times> 'p option \<times> 'w usb_sys) \<Rightarrow> 'w usb_sys \<Rightarrow>
    int \<times> 'p option \<times> 'w usb_sys" where
  "hcd_start ck env k s =
     (if usb_disabled env then (- ENODEV, None, s)
      else if platform_get_irq env < 0 then (platform_get_irq env, None, s)
      else if dma_coerce_mask env \<noteq> 0 then (dma_coerce_mask env, None, s)
      else if \<not> hcd_alloc env then (- ENOMEM, None, s)
      else
        let s = usb_create_hcd s
        in case hcd_clk_get env of
             Inl err \<Rightarrow> err_put_hcd err s
           | Inr c \<Rightarrow>
             let (err, w) = clk_prepare_enable ck (usb_board s) c;
                 s = s\<lparr>usb_board := w\<rparr>
             in if err \<noteq> 0 then err_put_hcd err s else k c s)"

definition ma35_ehci_probe :: "'w regmap_api \<Rightarrow> 'w clk_api \<Rightarrow> hcd_env \<Rightarrow> 'w usb_sys \<Rightarrow>
    int \<times> ma35_ehci_priv option \<times> 'w usb_sys" where
  "ma35_ehci_probe rm ck env s = hcd_start ck env (ma35_ehci_probe_phy rm ck env) s"

definition ma35_ehci_remove :: "'w clk_api \<Rightarrow> ma35_ehci_priv \<Rightarrow> 'w usb_sys \<Rightarrow> 'w usb_sys" where
  "ma35_ehci_remove ck priv s =
     (let s = usb_remove_hcd s;
          s = s\<lparr>usb_board := clk_disable_unprepare ck (usb_board s) (ehci_clk priv)\<rparr>
      in usb_put_hcd s)"

text \<open>\<open>ret\<close> is the outcome of \<open>ehci_suspend\<close>.\<close>

definition ma35_ehci_suspend :: "'w clk_api \<Rightarrow> int \<Rightarrow> ma35_ehci_priv \<Rightarrow> 'w usb_sys \<Rightarrow> int \<times> 'w usb_sys" where
  "ma35_ehci_suspend ck ret priv s =
     (if ret \<noteq> 0 then (ret, s)
      else (0, s\<lparr>usb_board := clk_disable_unprepare ck (usb_board s) (ehci_clk priv)\<rparr>))"

definition ma35_ehci_resume :: "'w clk_api \<Rightarrow> ma35_ehci_priv \<Rightarrow> 'w usb_sys \<Rightarrow> int \<times> 'w usb_sys" where
  "ma35_ehci_resume ck priv s =
     (let (err, w) = clk_prepare_enable ck (usb_board s) (ehci_clk priv);
          s = s\<lparr>usb_board := w\<rparr>
      in if err \<noteq> 0 then (err, s) else (0, s))"

section \<open>OHCI\<close>

record ma35_ohci_priv =
  ohci_clk :: clk

definition ma35_ohci_probe :: "'w clk_api \<Rightarrow> hcd_env \<Rightarrow> 'w usb_sys \<Rightarrow> int \<times> ma35_ohci_priv option \<times> 'w usb_sys" where
  "ma35_ohci_probe ck env s = hcd_start ck env (\<lambda>c. hcd_finish ck env c \<lparr>ohci_clk = c\<rparr>) s"

definition ma35_ohci_remove :: "'w clk_api \<Rightarrow> ma35_ohci_priv \<Rightarrow> 'w usb_sys \<Rightarrow> 'w usb_sys" where
  "ma35_ohci_remove ck priv s =
     (let s = usb_remove_hcd s;
          s = s\<lparr>usb_board := clk_disable_unprepare ck (usb_board s) (ohci_clk priv)\<rparr>
      in usb_put_hcd s)"

text \<open>\<open>ret\<close> is the outcome of \<open>ohci_suspend\<close>.\<close>

definition ma35_ohci_suspend :: "'w clk_api \<Rightarrow> int \<Rightarrow> ma35_ohci_priv \<Rightarrow> 'w usb_sys \<Rightarrow> int \<times> 'w usb_sys" where
  "ma35_ohci_suspend ck ret priv s =
     (if ret \<noteq> 0 then (ret, s)
      else (0, s\<lparr>usb_board := clk_disable_unprepare ck (usb_board s) (ohci_clk priv)\<rparr>))"

definition ma35_ohci_resume :: "'w clk_api \<Rightarrow> ma35_ohci_priv \<Rightarrow> 'w usb_sys \<Rightarrow> int \<times> 'w usb_sys" where
  "ma35_ohci_resume ck priv s =
     (let (err, w) = clk_prepare_enable ck (usb_board s) (ohci_clk priv);
          s = s\<lparr>usb_board := w\<rparr>
      in if err \<noteq> 0 then (err, s) else (0, s))"

section \<open>The life of a controller\<close>

text \<open>The four entry points of a driver for private data \<open>'p\<close>.\<close>

record ('p, 'w) hcd_driver =
  drv_probe :: "hcd_env \<Rightarrow> 'w usb_sys \<Rightarrow> int \<times> 'p option \<times> 'w usb_sys"
  drv_remove :: "'p \<Rightarrow> 'w usb_sys \<Rightarrow> 'w usb_sys"
  drv_suspend :: "int \<Rightarrow> 'p \<Rightarrow> 'w usb_sys \<Rightarrow> int \<times> 'w usb_sys"
  drv_resume :: "'p \<Rightarrow> 'w usb_sys \<Rightarrow> int \<times> 'w usb_sys"

definition ma35_ehci_driver :: "'w regmap_api \<Rightarrow> 'w clk_api \<Rightarrow> (ma35_ehci_priv, 'w) hcd_driver" where
  "ma35_ehci_driver rm ck = \<lparr>drv_probe = ma35_ehci_probe rm ck, drv_remove = ma35_ehci_remove ck,
     drv_suspend = ma35_ehci_suspend ck, drv_resume = ma35_ehci_resume ck\<rparr>"

definition ma35_ohci_driver :: "'w clk_api \<Rightarrow> (ma35_ohci_priv, 'w) hcd_driver" where
  "ma35_ohci_driver ck = \<lparr>drv_probe = ma35_ohci_probe ck, drv_remove = ma35_ohci_remove ck,
     drv_suspend = ma35_ohci_suspend ck, drv_resume = ma35_ohci_resume ck\<rparr>"

text \<open>
  A device that was bound in the state \<open>s0\<close>, and whether it is awake. The power management core suspends a device that is
  awake and resumes one that sleeps; either may fail.
\<close>

inductive hcd_run :: "('p, 'w) hcd_driver \<Rightarrow> hcd_env \<Rightarrow> 'w usb_sys \<Rightarrow> 'p \<Rightarrow> 'w usb_sys \<Rightarrow> bool \<Rightarrow> bool"
  for d :: "('p, 'w) hcd_driver" and env s0 p where
  bind: "drv_probe d env s0 = (ret, Some p, s) \<Longrightarrow> hcd_run d env s0 p s True"
| suspend: "hcd_run d env s0 p s True \<Longrightarrow> drv_suspend d r p s = (0, s') \<Longrightarrow> hcd_run d env s0 p s' False"
| suspend_fail: "hcd_run d env s0 p s True \<Longrightarrow> drv_suspend d r p s = (e, s') \<Longrightarrow> e \<noteq> 0 \<Longrightarrow> hcd_run d env s0 p s' True"
| resume: "hcd_run d env s0 p s False \<Longrightarrow> drv_resume d p s = (0, s') \<Longrightarrow> hcd_run d env s0 p s' True"
| resume_fail: "hcd_run d env s0 p s False \<Longrightarrow> drv_resume d p s = (e, s') \<Longrightarrow> e \<noteq> 0 \<Longrightarrow> hcd_run d env s0 p s' False"

text \<open>
  The contract: what a state holds is the clock uses, the references to the \<open>usb_hcd\<close> and its presence on the bus. A probe
  that fails holds what was held before; one that succeeds holds one clock, one reference and the controller on the bus;
  remove gives the three back; suspend and resume move only the clock, and only when they succeed.
\<close>

definition held :: "('w \<Rightarrow> clk \<Rightarrow> nat) \<Rightarrow> 'w usb_sys \<Rightarrow> (clk \<Rightarrow> nat) \<times> nat \<times> bool" where
  "held cc s = (cc (usb_board s), hcd_refs s, hcd_added s)"

locale hcd_glue =
  fixes d :: "('p, 'w) hcd_driver" and clk_of :: "'p \<Rightarrow> clk" and cc :: "'w \<Rightarrow> clk \<Rightarrow> nat"
  assumes probe_fail: "drv_probe d env s = (e, None, s') \<Longrightarrow> (error_values env \<longrightarrow> e \<noteq> 0) \<and> held cc s' = held cc s"
    and probe_ok: "drv_probe d env s = (e, Some p, s') \<Longrightarrow> e = 0 \<and>
      held cc s' = ((cc (usb_board s))(clk_of p := Suc (cc (usb_board s) (clk_of p))), Suc (hcd_refs s), True)"
    and remove_held: "held cc (drv_remove d p s) =
      ((cc (usb_board s))(clk_of p := cc (usb_board s) (clk_of p) - 1), hcd_refs s - 1, False)"
    and suspend_held: "drv_suspend d r p s = (e, s') \<Longrightarrow> held cc s' =
      (if e = 0 then ((cc (usb_board s))(clk_of p := cc (usb_board s) (clk_of p) - 1), hcd_refs s, hcd_added s) else held cc s)"
    and resume_held: "drv_resume d p s = (e, s') \<Longrightarrow> held cc s' =
      (if e = 0 then ((cc (usb_board s))(clk_of p := Suc (cc (usb_board s) (clk_of p))), hcd_refs s, hcd_added s) else held cc s)"
begin

lemma run_held:
  assumes "hcd_run d env s0 p s awake"
  shows "held cc s = ((cc (usb_board s0))(clk_of p := cc (usb_board s0) (clk_of p) + (if awake then 1 else 0)),
    Suc (hcd_refs s0), True)"
  using assms
proof induction
  case (bind ret s)
  then show ?case using probe_ok by (simp add: fun_upd_def)
next
  case (suspend s r s')
  then show ?case using suspend_held [OF suspend.hyps(2)] by (auto simp: held_def fun_eq_iff)
next
  case (suspend_fail s r e s')
  then show ?case using suspend_held [OF suspend_fail.hyps(2)] by simp
next
  case (resume s s')
  then show ?case using resume_held [OF resume.hyps(2)] by (auto simp: held_def fun_eq_iff)
next
  case (resume_fail s e s')
  then show ?case using resume_held [OF resume_fail.hyps(2)] by simp
qed

text \<open>Removing an awake device gives back what its probe took.\<close>

lemma remove_after_run:
  assumes "hcd_run d env s0 p s True" "\<not> hcd_added s0"
  shows "held cc (drv_remove d p s) = held cc s0"
  using run_held [OF assms(1)] assms(2) remove_held [of p s] by (auto simp: held_def fun_eq_iff)

end

section \<open>The contract holds\<close>

lemma err_clk_held:
  assumes "clk_laws ck cc" "err_clk ck c e s = (e', p, s')" "held cc s = ((f :: clk \<Rightarrow> nat)(c := Suc (f c)), Suc n, a)"
  shows "e' = e \<and> p = None \<and> held cc s' = (f, n, a)"
  using assms clk_laws.disable [OF assms(1), of "usb_board s" c]
  by (auto simp: err_clk_def err_put_hcd_def usb_put_hcd_def held_def)

lemma hcd_finish_held:
  assumes "clk_laws ck cc" "hcd_finish ck env c priv s = (e, p, s')" "held cc s = ((f :: clk \<Rightarrow> nat)(c := Suc (f c)), Suc n, a)"
  shows "case p of None \<Rightarrow> e \<noteq> 0 \<and> held cc s' = (f, n, a)
    | Some q \<Rightarrow> e = 0 \<and> q = priv \<and> usb_board s' = usb_board s \<and> held cc s' = (f(c := Suc (f c)), Suc n, True)"
proof -
  note err = err_clk_held [OF assms(1) _ assms(3)]
  consider (map) "ioremap_resource env \<noteq> 0" "err_clk ck c (ioremap_resource env) s = (e, p, s')"
    | (add) "usb_add_hcd env \<noteq> 0" "err_clk ck c (usb_add_hcd env) s = (e, p, s')"
    | (ok) "e = 0" "p = Some priv" "s' = s\<lparr>hcd_added := True, hcd_wakeup := True\<rparr>"
    using assms(2) by (auto simp: hcd_finish_def split: if_splits)
  then show ?thesis
  proof cases
    case map
    then show ?thesis using err [OF map(2)] by simp
  next
    case add
    then show ?thesis using err [OF add(2)] by simp
  next
    case ok
    then show ?thesis using assms(3) by (simp add: held_def)
  qed
qed

text \<open>What follows the clock decides the outcome of the probe.\<close>

lemma hcd_start_held:
  assumes "clk_laws ck cc" "hcd_start ck env k s = (e, p, s')"
    and k: "\<And>c s1. held cc s1 = ((cc (usb_board s))(c := Suc (cc (usb_board s) c)), Suc (hcd_refs s), hcd_added s) \<Longrightarrow>
      k c s1 = (e, p, s') \<Longrightarrow> case p of None \<Rightarrow> (error_values env \<longrightarrow> e \<noteq> 0) \<and> held cc s' = held cc s
      | Some q \<Rightarrow> e = 0 \<and> held cc s' =
          ((cc (usb_board s))(clk_of q := Suc (cc (usb_board s) (clk_of q))), Suc (hcd_refs s), True)"
  shows "case p of None \<Rightarrow> (error_values env \<longrightarrow> e \<noteq> 0) \<and> held cc s' = held cc s
      | Some q \<Rightarrow> e = 0 \<and> held cc s' =
          ((cc (usb_board s))(clk_of q := Suc (cc (usb_board s) (clk_of q))), Suc (hcd_refs s), True)"
proof (cases "usb_disabled env \<or> platform_get_irq env < 0 \<or> dma_coerce_mask env \<noteq> 0 \<or> \<not> hcd_alloc env")
  case True
  then show ?thesis using assms(2) by (auto simp: hcd_start_def ENODEV_def ENOMEM_def split: if_splits)
next
  case False
  show ?thesis
  proof (cases "hcd_clk_get env")
    case (Inl err)
    then show ?thesis using assms(2) False
      by (auto simp: hcd_start_def err_put_hcd_def usb_put_hcd_def usb_create_hcd_def held_def error_values_def)
  next
    case (Inr c)
    obtain err w where en: "clk_prepare_enable ck (usb_board s) c = (err, w)" by fastforce
    let ?s = "(usb_create_hcd s)\<lparr>usb_board := w\<rparr>"
    have st: "(if err \<noteq> 0 then err_put_hcd err ?s else k c ?s) = (e, p, s')"
      using assms(2) False Inr en by (simp add: hcd_start_def usb_create_hcd_def Let_def split: if_splits)
    show ?thesis
    proof (cases "err = 0")
      case True
      then have "held cc ?s = ((cc (usb_board s))(c := Suc (cc (usb_board s) c)), Suc (hcd_refs s), hcd_added s)"
        using clk_laws.enable_ok [OF assms(1)] en by (simp add: held_def usb_create_hcd_def)
      then show ?thesis using k st True by simp
    next
      case False
      then show ?thesis using clk_laws.enable_fail [OF assms(1) en] st
        by (auto simp: err_put_hcd_def usb_put_hcd_def usb_create_hcd_def held_def)
    qed
  qed
qed

lemma ohci_probe_held:
  assumes "clk_laws ck cc" "ma35_ohci_probe ck env s = (e, p, s')"
  shows "case p of None \<Rightarrow> (error_values env \<longrightarrow> e \<noteq> 0) \<and> held cc s' = held cc s
      | Some q \<Rightarrow> e = 0 \<and> held cc s' =
          ((cc (usb_board s))(ohci_clk q := Suc (cc (usb_board s) (ohci_clk q))), Suc (hcd_refs s), True)"
  using assms(2) unfolding ma35_ohci_probe_def
  by (rule hcd_start_held [OF assms(1)])
    (use hcd_finish_held [OF assms(1)] in \<open>fastforce simp: held_def [of _ s] split: option.splits\<close>)

context usb_sysreg
begin

lemma ehci_phy_init_bring_up:
  "ma35_ehci_phy_init rm priv w =
     (let n = unat (ehci_phy_idx priv); (err, w) = host_bring_up rm n (USBPMISCR_PHY_POR n OR USBPMISCR_PHY_SUSPEND n) w
      in if err \<noteq> 0 then (err, w)
         else (0, regmap_update_bits rm w MA35_SYS_MISCFCR0 MISCFCR0_UHOVRCURH
                    (if oc_active_level priv \<noteq> 0 then MISCFCR0_UHOVRCURH else 0)))"
  by (auto simp: ma35_ehci_phy_init_def host_bring_up_def Let_def USBPMISCR_PHY_READY_def USBPMISCR_PHY_HOST_READY_def
    split: prod.splits)

lemma ehci_phy_init:
  assumes "unat (ehci_phy_idx priv) \<le> 1" "ma35_ehci_phy_init rm priv w = (ret, w')"
  defines "n \<equiv> unat (ehci_phy_idx priv)" and "R \<equiv> MA35_SYS_USBPMISCR"
  shows "ret = 0 \<Longrightarrow> regs w' R AND USBPMISCR_PHY_READY n = USBPMISCR_PHY_READY n"
    "\<not> usb_status_bit b \<Longrightarrow> b < n * 16 \<or> n * 16 + 3 \<le> b \<Longrightarrow> bit (regs w' R) b = bit (regs w R) b"
    "ret = 0 \<Longrightarrow> bit (regs w' MA35_SYS_MISCFCR0) 12 = (oc_active_level priv \<noteq> 0)" "clk_count w' = clk_count w"
proof -
  let ?m = "USBPMISCR_PHY_POR n OR USBPMISCR_PHY_SUSPEND n"
  have n01: "n = 0 \<or> n = 1" using assms(1) n_def by auto
  have m: "n * 16 \<le> b \<and> b < n * 16 + 3" if "bit ?m b" for b
    using that by (auto simp: usb_field bit_or_iff bit_BIT)
  have m': "bit ?m (n * 16)" "bit ?m (Suc (n * 16))"
    using n01 by (auto simp: usb_field bit_or_iff bit_BIT)
  obtain e w1 where b: "host_bring_up rm n ?m w = (e, w1)" by fastforce
  note up = bring_up [OF assms(1) [folded n_def] m m' b, folded R_def]
  have d: "(ret, w') = (if e \<noteq> 0 then (e, w1) else (0, regmap_update_bits rm w1 MA35_SYS_MISCFCR0 MISCFCR0_UHOVRCURH
      (if oc_active_level priv \<noteq> 0 then MISCFCR0_UHOVRCURH else 0)))"
    using assms(2) b by (simp add: ehci_phy_init_bring_up n_def [symmetric] Let_def)
  then have R: "regs w' R = regs w1 R"
    by (auto simp: R_def usb_addr regs_update_bits split: if_splits)
  show "ret = 0 \<Longrightarrow> regs w' R AND USBPMISCR_PHY_READY n = USBPMISCR_PHY_READY n"
    using up(1) d R by (auto simp: USBPMISCR_PHY_READY_def USBPMISCR_PHY_HOST_READY_def split: if_splits)
  show "\<not> usb_status_bit b \<Longrightarrow> b < n * 16 \<or> n * 16 + 3 \<le> b \<Longrightarrow> bit (regs w' R) b = bit (regs w R) b"
    using up(2) R by simp
  show "ret = 0 \<Longrightarrow> bit (regs w' MA35_SYS_MISCFCR0) 12 = (oc_active_level priv \<noteq> 0)"
    using d by (auto simp: regs_update_bits MISCFCR0_UHOVRCURH_def regfield split: if_splits)
  show "clk_count w' = clk_count w" using d up(4) by (auto simp: update_bits_clk split: if_splits)
qed

lemma set_rcal:
  "regs (ma35_ehci_set_rcal rm n code w) MA35_SYS_USBPMISCR =
     (regs w MA35_SYS_USBPMISCR AND USBPMISCR_RCAL_MASK n) OR push_bit (USBPMISCR_RCAL_SHIFT n) (code AND 0xf)"
  "clk_count (ma35_ehci_set_rcal rm n code w) = clk_count w"
  using read_value [of w MA35_SYS_USBPMISCR] read_clk [of w MA35_SYS_USBPMISCR]
  by (auto simp: ma35_ehci_set_rcal_def regs_write write_clk split: prod.splits)

lemma ehci_probe_phy_held:
  assumes "ma35_ehci_probe_phy rm ck env c s = (e, p, s')" "held clk_count s = (f(c := Suc (f c)), Suc n, a)"
  shows "case p of None \<Rightarrow> (error_values env \<longrightarrow> e \<noteq> 0) \<and> held clk_count s' = (f, n, a)
    | Some q \<Rightarrow> e = 0 \<and> ehci_clk q = c \<and> held clk_count s' = (f(c := Suc (f c)), Suc n, True) \<and>
        unat (ehci_phy_idx q) \<le> 1 \<and> regs (usb_board s') MA35_SYS_USBPMISCR AND USBPMISCR_PHY_READY (unat (ehci_phy_idx q)) =
          USBPMISCR_PHY_READY (unat (ehci_phy_idx q))"
proof -
  have cl: "clk_laws ck clk_count" by unfold_locales
  note err = err_clk_held [OF cl _ assms(2)]
  consider (parse) x where "of_parse_sys env = Inl x" "err_clk ck c x s = (e, p, s')"
    | (node) "syscon_node_to_regmap env \<noteq> 0" "err_clk ck c (syscon_node_to_regmap env) s = (e, p, s')"
    | (range) "err_clk ck c (- EINVAL) s = (e, p, s')"
    | (phy) idx where "of_parse_sys env = Inr idx" "syscon_node_to_regmap env = 0" "\<not> idx > 1"
    using assms(1) by (auto simp: ma35_ehci_probe_phy_def split: sum.splits if_splits)
  then show ?thesis
  proof cases
    case (phy idx)
    define priv where "priv = \<lparr>ehci_clk = c, oc_active_level = (case oc_level env of Some l \<Rightarrow> l | None \<Rightarrow> 0), ehci_phy_idx = idx\<rparr>"
    define w0 where "w0 = (case rcalcode env of Some code \<Rightarrow> ma35_ehci_set_rcal rm (unat idx) code (usb_board s) | None \<Rightarrow> usb_board s)"
    obtain x w1 where i: "ma35_ehci_phy_init rm priv w0 = (x, w1)" by fastforce
    let ?s = "s\<lparr>usb_board := w1\<rparr>"
    have idx: "unat (ehci_phy_idx priv) \<le> 1" using phy(3) word_le_nat_alt [of idx 1] by (simp add: priv_def not_less)
    have "clk_count w0 = clk_count (usb_board s)" by (auto simp: w0_def set_rcal(2) split: option.splits)
    then have h: "held clk_count ?s = (f(c := Suc (f c)), Suc n, a)"
      using assms(2) ehci_phy_init(4) [OF idx i] by (simp add: held_def)
    have d: "(e, p, s') = (if x \<noteq> 0 then err_clk ck c x ?s else hcd_finish ck env c priv ?s)"
      using assms(1) phy i by (simp add: ma35_ehci_probe_phy_def Let_def priv_def [symmetric] w0_def [symmetric])
    show ?thesis
    proof (cases "x = 0")
      case False
      then show ?thesis using err_clk_held [OF cl _ h, of x e p s'] d by simp
    next
      case True
      then show ?thesis using hcd_finish_held [OF cl _ h, of env priv e p s'] d ehci_phy_init(1) [OF idx i] idx
        by (auto simp: priv_def split: option.splits)
    qed
  qed (use err in \<open>fastforce simp: error_values_def EINVAL_def\<close>)+
qed

lemma ehci_probe_held:
  assumes "ma35_ehci_probe rm ck env s = (e, p, s')"
  shows "case p of None \<Rightarrow> (error_values env \<longrightarrow> e \<noteq> 0) \<and> held clk_count s' = held clk_count s
      | Some q \<Rightarrow> e = 0 \<and> held clk_count s' =
          ((clk_count (usb_board s))(ehci_clk q := Suc (clk_count (usb_board s) (ehci_clk q))), Suc (hcd_refs s), True)"
proof -
  have cl: "clk_laws ck clk_count" by unfold_locales
  show ?thesis using assms unfolding ma35_ehci_probe_def
    by (rule hcd_start_held [OF cl])
      (use ehci_probe_phy_held in \<open>fastforce simp: held_def [of _ s] split: option.splits\<close>)
qed

text \<open>A probe that succeeds ran the part after the clock.\<close>

lemma ehci_probe_ready:
  assumes "ma35_ehci_probe rm ck env s = (e, Some q, s')"
  shows "unat (ehci_phy_idx q) \<le> 1" "regs (usb_board s') MA35_SYS_USBPMISCR AND USBPMISCR_PHY_READY (unat (ehci_phy_idx q)) =
      USBPMISCR_PHY_READY (unat (ehci_phy_idx q))"
proof -
  obtain c w where c: "clk_prepare_enable ck (usb_board s) c = (0, w)"
    and k: "ma35_ehci_probe_phy rm ck env c ((usb_create_hcd s)\<lparr>usb_board := w\<rparr>) = (e, Some q, s')"
    using assms by (auto simp: ma35_ehci_probe_def hcd_start_def err_put_hcd_def Let_def usb_create_hcd_def
        split: if_splits sum.splits prod.splits)
  have "held clk_count ((usb_create_hcd s)\<lparr>usb_board := w\<rparr>) =
      ((clk_count (usb_board s))(c := Suc (clk_count (usb_board s) c)), Suc (hcd_refs s), hcd_added s)"
    using enable_ok [OF c] by (simp add: held_def usb_create_hcd_def)
  from ehci_probe_phy_held [OF k this]
  show "unat (ehci_phy_idx q) \<le> 1" "regs (usb_board s') MA35_SYS_USBPMISCR AND USBPMISCR_PHY_READY (unat (ehci_phy_idx q)) =
      USBPMISCR_PHY_READY (unat (ehci_phy_idx q))" by simp_all
qed

end

lemma ehci_glue:
  assumes "usb_sysreg rm regs ck cc"
  shows "hcd_glue (ma35_ehci_driver rm ck) ehci_clk cc"
proof -
  have cl: "clk_laws ck cc" using assms by (simp add: usb_sysreg_def board_laws_def)
  note p = usb_sysreg.ehci_probe_held [OF assms]
  show ?thesis
  proof
    fix p s e s' r
    show "drv_suspend (ma35_ehci_driver rm ck) r p s = (e, s') \<Longrightarrow> held cc s' =
      (if e = 0 then ((cc (usb_board s))(ehci_clk p := cc (usb_board s) (ehci_clk p) - 1), hcd_refs s, hcd_added s) else held cc s)"
      by (auto simp: ma35_ehci_driver_def ma35_ehci_suspend_def held_def clk_laws.disable [OF cl] split: if_splits)
    show "drv_resume (ma35_ehci_driver rm ck) p s = (e, s') \<Longrightarrow> held cc s' =
      (if e = 0 then ((cc (usb_board s))(ehci_clk p := Suc (cc (usb_board s) (ehci_clk p))), hcd_refs s, hcd_added s) else held cc s)"
      using clk_laws.enable_ok [OF cl] clk_laws.enable_fail [OF cl]
      by (auto simp: ma35_ehci_driver_def ma35_ehci_resume_def held_def Let_def split: if_splits prod.splits)
  qed (use p in \<open>force simp: ma35_ehci_driver_def ma35_ehci_remove_def held_def usb_put_hcd_def usb_remove_hcd_def
      clk_laws.disable [OF cl] Let_def\<close>)+
qed

lemma ohci_glue:
  assumes cl: "clk_laws ck cc"
  shows "hcd_glue (ma35_ohci_driver ck) ohci_clk cc"
proof -
  note p = ohci_probe_held [OF assms]
  show ?thesis
  proof
    fix p s e s' r
    show "drv_suspend (ma35_ohci_driver ck) r p s = (e, s') \<Longrightarrow> held cc s' =
      (if e = 0 then ((cc (usb_board s))(ohci_clk p := cc (usb_board s) (ohci_clk p) - 1), hcd_refs s, hcd_added s) else held cc s)"
      by (auto simp: ma35_ohci_driver_def ma35_ohci_suspend_def held_def clk_laws.disable [OF cl] split: if_splits)
    show "drv_resume (ma35_ohci_driver ck) p s = (e, s') \<Longrightarrow> held cc s' =
      (if e = 0 then ((cc (usb_board s))(ohci_clk p := Suc (cc (usb_board s) (ohci_clk p))), hcd_refs s, hcd_added s) else held cc s)"
      using clk_laws.enable_ok [OF cl] clk_laws.enable_fail [OF cl]
      by (auto simp: ma35_ohci_driver_def ma35_ohci_resume_def held_def Let_def split: if_splits prod.splits)
  qed (use p in \<open>force simp: ma35_ohci_driver_def ma35_ohci_remove_def held_def usb_put_hcd_def usb_remove_hcd_def
      clk_laws.disable [OF cl] Let_def\<close>)+
qed

interpretation ehci: hcd_glue "ma35_ehci_driver usb_regmap board_clk" ehci_clk bd_clk
  by (rule ehci_glue) (rule usb.usb_sysreg_axioms)

interpretation ohci: hcd_glue "ma35_ohci_driver board_clk" ohci_clk bd_clk
  by (rule ohci_glue) unfold_locales

section \<open>Properties\<close>

text \<open>C40: The host controller drivers give back what they take. A probe of the EHCI or OHCI driver that fails, at whatever
  step, returns an error and leaves the clock uses, the references to the \<open>usb_hcd\<close> and the bus as they were; an EHCI probe
  that succeeds leaves its PHY operational with stable clocks. Through any sequence of suspends and resumes of the bound
  device, failing ones included, the clock is in use once while it is awake and not while it sleeps, and exactly one reference
  is held; and removing it while it is awake restores the state before the probe.\<close>

theorem ma35_hcd_balanced:
  assumes "usb_sysreg rm regs ck cc"
  shows "(\<forall>env s e s'. ma35_ehci_probe rm ck env s = (e, None, s') \<longrightarrow>
      (error_values env \<longrightarrow> e \<noteq> 0) \<and> held cc s' = held cc s) \<and>
    (\<forall>env s e p s'. ma35_ehci_probe rm ck env s = (e, Some p, s') \<longrightarrow> e = 0 \<and> unat (ehci_phy_idx p) \<le> 1 \<and>
      regs (usb_board s') MA35_SYS_USBPMISCR AND USBPMISCR_PHY_READY (unat (ehci_phy_idx p)) =
        USBPMISCR_PHY_READY (unat (ehci_phy_idx p))) \<and>
    (\<forall>env s0 p s awake. hcd_run (ma35_ehci_driver rm ck) env s0 p s awake \<longrightarrow>
      held cc s = ((cc (usb_board s0))(ehci_clk p := cc (usb_board s0) (ehci_clk p) + (if awake then 1 else 0)),
        Suc (hcd_refs s0), True)) \<and>
    (\<forall>env s0 p s. hcd_run (ma35_ehci_driver rm ck) env s0 p s True \<and> \<not> hcd_added s0 \<longrightarrow>
      held cc (ma35_ehci_remove ck p s) = held cc s0) \<and>
    (\<forall>env s e s'. ma35_ohci_probe ck env s = (e, None, s') \<longrightarrow>
      (error_values env \<longrightarrow> e \<noteq> 0) \<and> held cc s' = held cc s) \<and>
    (\<forall>env s0 p s awake. hcd_run (ma35_ohci_driver ck) env s0 p s awake \<longrightarrow>
      held cc s = ((cc (usb_board s0))(ohci_clk p := cc (usb_board s0) (ohci_clk p) + (if awake then 1 else 0)),
        Suc (hcd_refs s0), True)) \<and>
    (\<forall>env s0 p s. hcd_run (ma35_ohci_driver ck) env s0 p s True \<and> \<not> hcd_added s0 \<longrightarrow>
      held cc (ma35_ohci_remove ck p s) = held cc s0)"
proof -
  have cl: "clk_laws ck cc" using assms by (simp add: usb_sysreg_def board_laws_def)
  note e = ehci_glue [OF assms] and o = ohci_glue [OF cl]
  note ready = usb_sysreg.ehci_probe_ready [OF assms]
  have drv: "drv_probe (ma35_ehci_driver rm ck) = ma35_ehci_probe rm ck" "drv_remove (ma35_ehci_driver rm ck) = ma35_ehci_remove ck"
    "drv_probe (ma35_ohci_driver ck) = ma35_ohci_probe ck" "drv_remove (ma35_ohci_driver ck) = ma35_ohci_remove ck"
    by (simp_all add: ma35_ehci_driver_def ma35_ohci_driver_def)
  note pe = hcd_glue.probe_fail [OF e, unfolded drv] hcd_glue.probe_ok [OF e, unfolded drv]
    and po = hcd_glue.probe_fail [OF o, unfolded drv]
    and re = hcd_glue.remove_after_run [OF e, unfolded drv] and ro = hcd_glue.remove_after_run [OF o, unfolded drv]
  show ?thesis
    by (intro conjI allI impI; (elim conjE)?; rule pe(1) [THEN conjunct1, rule_format] pe(1) [THEN conjunct2] pe(2) [THEN conjunct1]
        ready hcd_glue.run_held [OF e] re po [THEN conjunct1, rule_format] po [THEN conjunct2] hcd_glue.run_held [OF o] ro;
        assumption)
qed

definition ehci_env_1 :: hcd_env where
  "ehci_env_1 = \<lparr>usb_disabled = False, platform_get_irq = 40, dma_coerce_mask = 0, hcd_alloc = True, hcd_clk_get = Inr 3,
     of_parse_sys = Inr 1, syscon_node_to_regmap = 0, oc_level = None, rcalcode = None, ioremap_resource = 0, usb_add_hcd = 0\<rparr>"

definition usb_sys_1 :: "board usb_sys" where
  "usb_sys_1 = \<lparr>usb_board = otg_board_1, hcd_refs = 0, hcd_added = False, hcd_wakeup = False\<rparr>"

theorem ma35_hcd_balanced_witness:
  "\<exists>p s. hcd_run (ma35_ehci_driver usb_regmap board_clk) ehci_env_1 usb_sys_1 p s True \<and> bd_clk (usb_board s) 3 = 1 \<and>
     held bd_clk (ma35_ehci_remove board_clk p s) = ((\<lambda>_. 0), 0, False)"
proof -
  obtain p s where p: "ma35_ehci_probe usb_regmap board_clk ehci_env_1 usb_sys_1 = (0, Some p, s)" "ehci_clk p = 3"
    by (simp add: ma35_ehci_probe_def hcd_start_def ma35_ehci_probe_phy_def ma35_ehci_phy_init_def hcd_finish_def ehci_env_1_def
      usb_sys_1_def usb_create_hcd_def otg_board_1_def usb_regmap_def board_eval usb_addr usb_field USBPMISCR_PHY_READY_def
      BIT_def usb_status_mask_def GENMASK_def mask_eq_exp_minus_1 push_bit_eq_mult Let_def)
  have r: "hcd_run (ma35_ehci_driver usb_regmap board_clk) ehci_env_1 usb_sys_1 p s True"
    by (rule hcd_run.bind [of _ _ _ 0]) (simp add: ma35_ehci_driver_def p)
  have s0: "held bd_clk usb_sys_1 = ((\<lambda>_. 0), 0, False)" "\<not> hcd_added usb_sys_1"
    by (simp_all add: held_def usb_sys_1_def otg_board_1_def board_init_def)
  note b = ma35_hcd_balanced [OF usb.usb_sysreg_axioms]
  note awake = b [THEN conjunct2, THEN conjunct2, THEN conjunct1, rule_format, OF r]
    and removed = b [THEN conjunct2, THEN conjunct2, THEN conjunct2, THEN conjunct1, rule_format, OF conjI, OF r s0(2)]
  show ?thesis
    using awake removed r s0(1) p(2) by (intro exI [of _ p] exI [of _ s]) (simp add: held_def)
qed

section \<open>A deviation\<close>

text \<open>
  \<open>ma35_ehci_probe\<close> means to replace the trim field and keep the rest of the register, and keeps the field and clears the
  rest: the control bits of both PHYs are lost, so that writing the code of one PHY suspends the other, and the new code is
  combined with the old one.
\<close>

lemma ma35_ehci_rcal_clears_register:
  fixes code :: u32 and w :: 'w
  assumes us: "usb_sysreg rm regs ck cc" and n: "n \<le> 1"
  defines "v \<equiv> regs (ma35_ehci_set_rcal rm n code w) MA35_SYS_USBPMISCR"
  shows "\<not> (12 + n * 16 \<le> b \<and> b \<le> 15 + n * 16) \<Longrightarrow> \<not> bit v b"
    and "FIELD_GET (USBPMISCR_RCAL_MASK n) v =
      FIELD_GET (USBPMISCR_RCAL_MASK n) (regs w MA35_SYS_USBPMISCR) OR take_bit 4 code"
proof -
  have n01: "n = 0 \<or> n = 1" using n by auto
  have f: "code AND 0xf = take_bit 4 code" by (simp add: take_bit_eq_mask mask_eq_exp_minus_1)
  note v = usb_sysreg.set_rcal(1) [OF us, of n code w, folded v_def, unfolded f]
  show "\<not> (12 + n * 16 \<le> b \<and> b \<le> 15 + n * 16) \<Longrightarrow> \<not> bit v b"
    unfolding v by (auto simp: usb_field regfield)
  show "FIELD_GET (USBPMISCR_RCAL_MASK n) v =
      FIELD_GET (USBPMISCR_RCAL_MASK n) (regs w MA35_SYS_USBPMISCR) OR take_bit 4 code"
    unfolding v by (rule bit_word_eqI) (use n01 in \<open>auto simp: usb_field regfield\<close>)
qed

end
