(* ===== verification/Spec2Isabelle.thy ===== *)
theory Spec2Isabelle
  imports Vs_Probe Ma35_Commit Drm_Prepare Drm_Legacy Ma35_Usb
begin

text \<open>
  \<^bold>\<open>The program.\<close> The repository carries the display and USB drivers for the Nuvoton MA35 processors together with the parts
  of the Linux kernel they are built in. Its own code is two display drivers, \<open>src/drm/verisilicon\<close> (the DC8000 and DC8200
  display controllers) and \<open>src/drm/nuvoton\<close> (the MA35 display controller), the USB PHY drivers \<open>src/phy/nuvoton\<close> and the glue of
  the EHCI and OHCI host controllers, \<open>src/usb/host/ehci-ma35.c\<close> and \<open>ohci-ma35.c\<close>. The display drivers plug into the DRM core
  and its helpers (\<open>src/drm/drm_*.c\<close>): user space sets a state of planes, CRTCs and connectors; the core checks it with the
  drivers' hooks (\<open>atomic_check\<close>, \<open>mode_valid\<close>), the commit calls the hooks that program registers (\<open>atomic_update\<close>,
  \<open>atomic_enable\<close>), and the interrupt tells the vertical blanking core that a frame has been shown, which counts it and delivers
  the events user space waits for. This development models the drivers completely and the core where the drivers' correctness
  rests on it.

  \<^bold>\<open>How code is modelled.\<close> A function of the source is a definition with its name. Structures are records, enums datatypes,
  \<open>u8\<close> to \<open>u64\<close> are words and \<open>int\<close> an integer with the wrap-around of 32 bits written out where it can occur; an error is the
  negative number the code returns or the left side of a sum. Kernel interfaces whose code is not in the repository are
  records of functions over an abstract machine state \<open>'w\<close> (registers and clocks in \<open>Board_Api\<close>, vertical blanking as the
  Verisilicon driver sees it in \<open>Vblank_Api\<close>, GEM objects in \<open>Drm_Dumb\<close>, the hooks of a probed connector in \<open>Drm_Probe\<close>); what
  the code relies on of them is a locale, interpreted on a machine that behaves so. Calls whose only effect on the model is
  whether they succeed are fields of an environment record, 0 for success. Locks, delays and log messages are left out.

  \<^bold>\<open>Shared.\<close>
  \<^item> \<open>Kernel_Prelude\<close>: words, 32-bit arithmetic, bit fields, error numbers, the proof collections.
  \<^item> \<open>Board_Api\<close>, \<open>Reg_Fields\<close>: regmap and clocks, the algebra of register fields under read-modify-write.

  \<^bold>\<open>DRM core.\<close>
  \<^item> \<open>Drm_Rect\<close> (\<open>drm_rect.c\<close>): clipping is intersection, a clipped source stays inside the source and loses in proportion,
    rotation and its inverse cancel on all rectangles of C integers.
  \<^item> \<open>Drm_Modes\<close> (\<open>drm_modes.c\<close>): the hardware timings of a mode. \<open>Drm_Plane\<close>, \<open>Drm_Bus\<close> (\<open>drm_atomic.c\<close>,
    \<open>drm_atomic_helper.c\<close>, \<open>drm_plane.c\<close>, framebuffer helpers): an accepted plane state scans out a rectangle inside its
    framebuffer for every rotation. \<open>Drm_State\<close> (\<open>drm_atomic_state_helper.c\<close>): reference counts of plane states.
  \<^item> \<open>Drm_Fourcc\<close> (\<open>drm_fourcc.c\<close>): the format table and its lookup. \<open>Drm_Dumb\<close> (\<open>drm_dumb_buffers.c\<close>,
    \<open>drm_gem_dma_helper.c\<close>): sizes of dumb buffers without wrap-around, ownership of the object created.
  \<^item> \<open>Drm_Probe\<close>, \<open>Drm_Probe_Loop\<close> (\<open>drm_probe_helper.c\<close>, \<open>drm_modes.c\<close>, \<open>drm_edid.c\<close>, \<open>drm_bridge.c\<close>): the list of modes a
    connector offers. Merging keeps the list free of equal modes, every mode left passed every check, the order is the
    comparison's; the retry loop returns. The loop is a \<open>partial_function\<close> into \<open>option\<close>, since a lock that is contended for
    ever makes it run for ever; it is proved to return for every world whose measure of contention decreases with each
    backoff, so no bound is built in.
  \<^item> \<open>Drm_Vblank\<close>, \<open>Drm_Vblank_Ioctl\<close>, \<open>Drm_Vblank_Inv\<close>, \<open>Drm_Vblank_Count\<close> (\<open>drm_vblank.c\<close>, \<open>drm_vblank_work.c\<close>,
    \<open>drm_vblank_helper.c\<close>): the state machine of vertical blanking. Its reachable states keep reference counts equal to the
    references held and lose or repeat no event; the 64-bit count refines the number of frames although the hardware counter
    wraps; an event is delivered by the interrupt of its frame. The retry of the timestamp query has the bound 3 of the code
    (\<open>DRM_TIMESTAMP_MAXRETRIES\<close>).
  \<^item> \<open>Drm_Bridge_Chain\<close> (\<open>drm_bridge.c\<close>): the hooks of a chain of bridges are called in the order their flags ask for, and in the
    opposite order to switch off; the negotiation of bus formats finds formats that fit together whenever there are any.
  \<^item> \<open>Drm_Atomic\<close> (\<open>drm_atomic.c\<close>, \<open>drm_atomic_uapi.c\<close>, \<open>drm_atomic_state_helper.c\<close>): a commit, the staged states of CRTCs,
    connectors, planes and bridges, and the operations user space builds it with; \<open>building\<close> is the commits they can build.
    \<open>Drm_Check\<close>, \<open>Drm_Routing\<close>, \<open>Drm_Check_Modeset\<close> (\<open>drm_atomic_helper.c\<close>): the check of a commit. The locale \<open>modeset_hooks\<close>
    is what it asks of a driver's hooks; for every driver that keeps it the routing stays consistent, encoders that are stolen
    included, and a commit that passed names everything it affects.
  \<^item> \<open>Drm_Commit\<close>, \<open>Drm_Commit_Order\<close> (\<open>drm_atomic_helper.c\<close>): a commit that passed, as the sequence of its calls. The hardware is a
    machine that refuses a call it is not ready for; it accepts all of them, in both orders, and shows the new state at the end.
    \<open>Drm_Prepare\<close>: the entry of a commit and its framebuffers; it fails without a trace or gives back all it took. \<open>Drm_Legacy\<close>: the
    pointers of the legacy interface mirror the routing.

  \<^bold>\<open>Verisilicon display driver\<close> (\<open>drm/verisilicon\<close>). \<open>Vs_Regs\<close> and \<open>Vs_Hwdb\<close>: registers and known chips. \<open>Vs_Plane\<close>,
  \<open>Vs_Primary\<close>, \<open>Vs_Cursor\<close>: planes, what an update programs and that the memory fetched is inside the buffer. \<open>Vs_Dc\<close>: the hooks
  of both generations behind one contract. \<open>Vs_Crtc\<close>, \<open>Vs_Bridge\<close>: timings, clocks, outputs that do not disturb each other.
  \<open>Vs_Drm\<close>, \<open>Vs_Probe\<close>: dumb buffers, interrupts, and the life of the device from probe to remove.

  \<^bold>\<open>MA35 display driver\<close> (\<open>drm/nuvoton\<close>). \<open>Ma35_Regs\<close>, \<open>Ma35_Plane\<close> (layers and cursor), \<open>Ma35_Crtc\<close> (programming of a mode,
  vertical blanking on top of \<open>Drm_Vblank\<close>: a page flip completes with the next interrupt, \<open>k\<close> interrupts count \<open>k\<close> frames, a
  disable completes all that waits), \<open>Ma35_Interface\<close> (encoder and connector on top of \<open>Drm_Probe\<close>), \<open>Ma35_Drm\<close> (dumb buffers,
  interrupt, probe to remove, suspend and resume; every mode offered is one the display can show), \<open>Ma35_Commit\<close> (the driver's
  helper tables keep the contract \<open>modeset_hooks\<close>: a commit lands on the display, with a mode and a clock it can show).

  \<^bold>\<open>USB of the MA35.\<close> \<open>Ma35_Phy\<close> (\<open>phy-ma35d1-usb2.c\<close>, \<open>phy-ma35d1-otg.c\<close>): the two PHYs share a register; bringing one up does not
  disturb the other. \<open>Ma35_Usb\<close> (\<open>ehci-ma35.c\<close>, \<open>ohci-ma35.c\<close>): both drivers satisfy one contract of what probe, suspend, resume
  and remove take and give back, and every life of a bound controller under it is balanced.

  \<^bold>\<open>Deviations.\<close> Where the code does something else than its comments or callers expect, a lemma says so next to the property it
  limits: the overfetch of a partly hidden primary plane, the enable bit that disabling sets (\<open>Vs_Primary\<close>), the lost cursor
  offset (\<open>Vs_Cursor\<close>), the timing limit (\<open>Vs_Crtc\<close>), interrupts before the device is complete (\<open>Vs_Probe\<close>, \<open>Ma35_Drm\<close>), the
  overlay, blending and cursor of the MA35 (\<open>Ma35_Plane\<close>), its gamma, check and polarity (\<open>Ma35_Crtc\<close>), switching
  it off with a clock that rounds to nothing (\<open>Ma35_Commit\<close>), pitches that are not
  aligned or wrap (\<open>Ma35_Drm\<close>), the ignored deferral (\<open>Ma35_Interface\<close>), the trim code that clears the register (\<open>Ma35_Usb\<close>).

  \<^bold>\<open>Not modelled.\<close> Of the commit machinery the nonblocking part: fences, completions, asynchronous
  cursor updates, self refresh and the legacy entry points; properties, files, leases and GEM memory
  management of the core; parsing of EDID and of mode strings; the precise timestamps computed from the scanout position;
  polling of connectors. The other drivers of the tree (bridges, panels, DisplayPort helpers, ESWIN, TIDSS, virtio, the GPU
  scheduler, DWC2, xHCI and the other host controllers, the EHCI and OHCI controllers themselves) are upstream code of other
  hardware or are met only through the outcomes of calls. Device trees, bindings and tests are not programs of the system.
\<close>

end
